(* ===== verification/Prelude.thy ===== *)
theory Prelude
  imports Main "HOL-Library.Word" "HOL-Library.Monad_Syntax"
begin

text \<open>
  Shared vocabulary of the development: the C integer types as words, the controller's
  status codes (\<^verbatim>\<open>src/firmware/core/makingthings/error.h\<close>), the reading of undefined
  behaviour as \<open>None\<close>, bit masks, and the generic lemmas on lists and bits that the
  component theories share.
\<close>

unbundle bit_operations_syntax

subsection \<open>Integer types\<close>

type_synonym u8 = "8 word"
type_synonym u16 = "16 word"
type_synonym u32 = "32 word"
type_synonym u64 = "64 word"
type_synonym status = int

text \<open>
  An operation that reads or writes outside an array, or dereferences a null pointer, has no
  defined result in C. Such an operation returns an option and \<open>None\<close> is that outcome.
\<close>

type_synonym ('r, 's) op = "'s \<Rightarrow> ('r \<times> 's) option"

text \<open>A value computed in a C \<^verbatim>\<open>int\<close>, kept in 32 bits.\<close>

definition c_int :: "int \<Rightarrow> int" where
  "c_int x = signed_take_bit 31 x"

subsection \<open>Status codes\<close>

abbreviation (input) CONTROLLER_OK :: status where "CONTROLLER_OK \<equiv> 0"
abbreviation (input) CONTROLLER_ERROR_CANT_LOCK :: status where "CONTROLLER_ERROR_CANT_LOCK \<equiv> - 1"
abbreviation (input) CONTROLLER_ERROR_TOO_MANY_USERS :: status where "CONTROLLER_ERROR_TOO_MANY_USERS \<equiv> - 2"
abbreviation (input) CONTROLLER_ERROR_TOO_MANY_STOPS :: status where "CONTROLLER_ERROR_TOO_MANY_STOPS \<equiv> - 3"
abbreviation (input) CONTROLLER_ERROR_NOT_LOCKED :: status where "CONTROLLER_ERROR_NOT_LOCKED \<equiv> - 4"
abbreviation (input) CONTROLLER_ERROR_ILLEGAL_INDEX :: status where "CONTROLLER_ERROR_ILLEGAL_INDEX \<equiv> - 5"
abbreviation (input) CONTROLLER_ERROR_ILLEGAL_PARAMETER_VALUE :: status where
  "CONTROLLER_ERROR_ILLEGAL_PARAMETER_VALUE \<equiv> - 7"
abbreviation (input) CONTROLLER_ERROR_INSUFFICIENT_RESOURCES :: status where "CONTROLLER_ERROR_INSUFFICIENT_RESOURCES \<equiv> - 9"
abbreviation (input) CONTROLLER_ERROR_BAD_DATA :: status where "CONTROLLER_ERROR_BAD_DATA \<equiv> - 10"
abbreviation (input) CONTROLLER_ERROR_RESOURCE_MISSING :: status where "CONTROLLER_ERROR_RESOURCE_MISSING \<equiv> - 12"
abbreviation (input) CONTROLLER_ERROR_NO_ADDRESS :: status where "CONTROLLER_ERROR_NO_ADDRESS \<equiv> - 13"
abbreviation (input) CONTROLLER_ERROR_BAD_FORMAT :: status where "CONTROLLER_ERROR_BAD_FORMAT \<equiv> - 16"
abbreviation (input) CONTROLLER_ERROR_SUBSYSTEM_INACTIVE :: status where "CONTROLLER_ERROR_SUBSYSTEM_INACTIVE \<equiv> - 17"
abbreviation (input) CONTROLLER_ERROR_UNKNOWN_PROPERTY :: status where "CONTROLLER_ERROR_UNKNOWN_PROPERTY \<equiv> - 19"
abbreviation (input) CONTROLLER_ERROR_INCORRECT_DATA_TYPE :: status where "CONTROLLER_ERROR_INCORRECT_DATA_TYPE \<equiv> - 20"
abbreviation (input) CONTROLLER_ERROR_NO_TYPE_TAG :: status where "CONTROLLER_ERROR_NO_TYPE_TAG \<equiv> - 21"
abbreviation (input) CONTROLLER_ERROR_NO_PROPERTY :: status where "CONTROLLER_ERROR_NO_PROPERTY \<equiv> - 22"
abbreviation (input) CONTROLLER_ERROR_LOCK_ERROR :: status where "CONTROLLER_ERROR_LOCK_ERROR \<equiv> - 107"
abbreviation (input) CONTROLLER_ERROR_SYSTEM_NOT_ACTIVE :: status where "CONTROLLER_ERROR_SYSTEM_NOT_ACTIVE \<equiv> - 25"

named_theorems ops \<open>definitions of the modelled operations\<close>
named_theorems io_lookup \<open>what the I/O registers read after an operation\<close>

subsection \<open>Truth values as C integers\<close>

text \<open>\<^verbatim>\<open>typedef unsigned char bool\<close>: an \<open>int\<close> passed as a \<open>bool\<close> keeps its low eight bits.\<close>

definition to_bool :: "int \<Rightarrow> bool" where
  "to_bool i \<longleftrightarrow> (word_of_int i :: u8) \<noteq> 0"

lemma to_bool_0 [simp]: "to_bool 0 = False"
  by (simp add: to_bool_def)

lemma to_bool_1 [simp]: "to_bool 1 = True"
  by (simp add: to_bool_def)

abbreviation of_bool_u8 :: "bool \<Rightarrow> u8" where "of_bool_u8 b \<equiv> of_bool b"

subsection \<open>Bit masks\<close>

definition mask1 :: "nat \<Rightarrow> u32" where
  "mask1 i = push_bit i 1"

lemma bit_mask1 [simp]: "bit (mask1 i) n \<longleftrightarrow> n = i \<and> i < 32"
  by (auto simp: mask1_def bit_exp_iff)

lemma and_mask1_eq_0 [simp]: "w AND mask1 i = 0 \<longleftrightarrow> \<not> bit w i" if "i < 32"
proof
  assume "w AND mask1 i = 0"
  then have "\<not> bit (w AND mask1 i) i" by simp
  then show "\<not> bit w i" using that by (simp add: bit_and_iff)
next
  assume "\<not> bit w i"
  then show "w AND mask1 i = 0"
    by (intro bit_eqI) (auto simp: bit_and_iff)
qed

lemma bit_set [simp]: "bit (w OR mask1 i) n \<longleftrightarrow> bit w n \<or> n = i" if "i < 32"
  using that by (auto simp: bit_or_iff)

lemma bit_clear [simp]: "bit (w AND NOT (mask1 i)) n \<longleftrightarrow> bit w n \<and> n \<noteq> i" if "i < 32" for w :: u32
  using that by (auto simp: bit_and_iff bit_not_iff dest: bit_imp_le_length)

subsection \<open>Lists\<close>

lemma sum_list_update_nat:
  "i < length xs \<Longrightarrow> sum_list (xs[i := v]) + xs ! i = sum_list xs + (v :: nat)"
  by (induction xs arbitrary: i) (auto split: nat.splits)

lemma sum_list_ge_nth: "i < length xs \<Longrightarrow> xs ! i \<le> sum_list (xs :: nat list)"
  by (simp add: elem_le_sum_list)

end
