(* ===== verification/Io.thy ===== *)
theory Io
  imports Prelude
begin

text \<open>
  The I/O line manager, \<^verbatim>\<open>src/firmware/core/makingthings/io.c\<close>: the table of 64 lines with
  their user counts and locks, the two PIO controllers it programs, every single-line and
  batch operation of its API, and the OSC property handlers built on them.

  The registers are those of \<^verbatim>\<open>AT91S_PIO\<close> in the chip header. A write to an enable, disable,
  set or clear register acts on the status register the header pairs with it; the pull-up
  status is inverted, as the comment in \<^verbatim>\<open>Io_GetPullup\<close> says. \<open>PIO_PDSR\<close> holds the levels on
  the pins: no operation of the program writes it.
\<close>

subsection \<open>State\<close>

record IoPin =
  IoPin_users :: "7 word"
  IoPin_lock :: bool

record pio =
  PIO_PSR :: u32
  PIO_OSR :: u32
  PIO_ODSR :: u32
  PIO_PDSR :: u32
  PIO_PPUSR :: u32
  PIO_ABSR :: u32

record io_state =
  Io_users :: int
  Io_init :: int
  Io_portAMask :: u32
  Io_portBMask :: u32
  Io_pins :: "IoPin list"
  PIOA :: pio
  PIOB :: pio
  PMC_PCSR :: u32

abbreviation (input) IO_PIN_COUNT :: nat where "IO_PIN_COUNT \<equiv> 64"
abbreviation (input) IO_USERS_MAX :: "7 word" where "IO_USERS_MAX \<equiv> 127"

subsection \<open>Register writes\<close>

definition pio_PER :: "u32 \<Rightarrow> pio \<Rightarrow> pio" where
  "pio_PER m p = p\<lparr>PIO_PSR := PIO_PSR p OR m\<rparr>"
definition pio_PDR :: "u32 \<Rightarrow> pio \<Rightarrow> pio" where
  "pio_PDR m p = p\<lparr>PIO_PSR := PIO_PSR p AND NOT m\<rparr>"
definition pio_OER :: "u32 \<Rightarrow> pio \<Rightarrow> pio" where
  "pio_OER m p = p\<lparr>PIO_OSR := PIO_OSR p OR m\<rparr>"
definition pio_ODR :: "u32 \<Rightarrow> pio \<Rightarrow> pio" where
  "pio_ODR m p = p\<lparr>PIO_OSR := PIO_OSR p AND NOT m\<rparr>"
definition pio_SODR :: "u32 \<Rightarrow> pio \<Rightarrow> pio" where
  "pio_SODR m p = p\<lparr>PIO_ODSR := PIO_ODSR p OR m\<rparr>"
definition pio_CODR :: "u32 \<Rightarrow> pio \<Rightarrow> pio" where
  "pio_CODR m p = p\<lparr>PIO_ODSR := PIO_ODSR p AND NOT m\<rparr>"
definition pio_PPUER :: "u32 \<Rightarrow> pio \<Rightarrow> pio" where
  "pio_PPUER m p = p\<lparr>PIO_PPUSR := PIO_PPUSR p AND NOT m\<rparr>"
definition pio_PPUDR :: "u32 \<Rightarrow> pio \<Rightarrow> pio" where
  "pio_PPUDR m p = p\<lparr>PIO_PPUSR := PIO_PPUSR p OR m\<rparr>"
definition pio_ASR :: "u32 \<Rightarrow> pio \<Rightarrow> pio" where
  "pio_ASR m p = p\<lparr>PIO_ABSR := PIO_ABSR p AND NOT m\<rparr>"
definition pio_BSR :: "u32 \<Rightarrow> pio \<Rightarrow> pio" where
  "pio_BSR m p = p\<lparr>PIO_ABSR := PIO_ABSR p OR m\<rparr>"

lemmas pio_defs = pio_PER_def pio_PDR_def pio_OER_def pio_ODR_def pio_SODR_def pio_CODR_def
  pio_PPUER_def pio_PPUDR_def pio_ASR_def pio_BSR_def

text \<open>Lines 0 to 31 are port A, the others port B.\<close>

definition on_port :: "int \<Rightarrow> (pio \<Rightarrow> pio) \<Rightarrow> 'a io_state_scheme \<Rightarrow> 'a io_state_scheme" where
  "on_port index f s =
     (if index < 32 then s\<lparr>PIOA := f (PIOA s)\<rparr> else s\<lparr>PIOB := f (PIOB s)\<rparr>)"

definition port :: "int \<Rightarrow> 'a io_state_scheme \<Rightarrow> pio" where
  "port index s = (if index < 32 then PIOA s else PIOB s)"

definition line_mask :: "int \<Rightarrow> u32" where
  "line_mask index = mask1 (nat (index mod 32))"

definition bad_index :: "int \<Rightarrow> bool" where
  "bad_index index \<longleftrightarrow> index < 0 \<or> index > int IO_PIN_COUNT"

subsection \<open>Line ownership\<close>

definition Io_Init :: "'a io_state_scheme \<Rightarrow> 'a io_state_scheme" where
  "Io_Init s = s\<lparr>Io_init := Io_init s + 1,
                 PMC_PCSR := PMC_PCSR s OR mask1 2 OR mask1 3,
                 Io_portAMask := 0, Io_portBMask := 0\<rparr>"

definition Io_Deinit :: "'a io_state_scheme \<Rightarrow> 'a io_state_scheme" where
  "Io_Deinit s = s\<lparr>Io_init := Io_init s - 1\<rparr>"

definition pin_available :: "bool \<Rightarrow> IoPin \<Rightarrow> bool" where
  "pin_available lk p \<longleftrightarrow>
     \<not> IoPin_lock p \<and> (\<not> lk \<or> (lk \<and> IoPin_users p = 0)) \<and> IoPin_users p < IO_USERS_MAX - 2"

definition pin_take :: "bool \<Rightarrow> nat \<Rightarrow> 'a io_state_scheme \<Rightarrow> 'a io_state_scheme" where
  "pin_take lk i s =
     (let s = (if Io_users s = 0 then Io_Init s else s);
          p = Io_pins s ! i
      in s\<lparr>Io_users := Io_users s + 1,
           Io_pins := (Io_pins s)[i := \<lparr>IoPin_users = IoPin_users p + 1,
                                        IoPin_lock = (lk \<or> IoPin_lock p)\<rparr>]\<rparr>)"

definition pin_drop :: "bool \<Rightarrow> nat \<Rightarrow> 'a io_state_scheme \<Rightarrow> 'a io_state_scheme" where
  "pin_drop unlock i s =
     (let p = Io_pins s ! i;
          s = s\<lparr>Io_users := Io_users s - 1,
                Io_pins := (Io_pins s)[i := \<lparr>IoPin_users = IoPin_users p - 1,
                                             IoPin_lock = (IoPin_lock p \<and> \<not> unlock)\<rparr>]\<rparr>
      in if Io_users s = 0 then Io_Deinit s else s)"

definition Io_Start :: "int \<Rightarrow> bool \<Rightarrow> (status, 'a io_state_scheme) op" where
  "Io_Start index lk s =
     (if bad_index index then Some (CONTROLLER_ERROR_ILLEGAL_INDEX, s)
      else if nat index \<ge> length (Io_pins s) then None
      else if pin_available lk (Io_pins s ! nat index)
        then Some (CONTROLLER_OK, pin_take lk (nat index) s)
        else Some (CONTROLLER_ERROR_TOO_MANY_USERS, s))"

definition Io_Stop :: "int \<Rightarrow> (status, 'a io_state_scheme) op" where
  "Io_Stop index s =
     (if bad_index index then Some (CONTROLLER_ERROR_ILLEGAL_INDEX, s)
      else if nat index \<ge> length (Io_pins s) then None
      else if IoPin_users (Io_pins s ! nat index) > 0
        then Some (CONTROLLER_OK, pin_drop True (nat index) s)
        else Some (CONTROLLER_ERROR_TOO_MANY_STOPS, s))"

fun Io_StartBits_loop ::
  "u64 \<Rightarrow> bool \<Rightarrow> nat list \<Rightarrow> 'a io_state_scheme \<Rightarrow> nat option \<times> 'a io_state_scheme" where
  "Io_StartBits_loop bits lk [] s = (None, s)"
| "Io_StartBits_loop bits lk (i # is) s =
     (if bit bits i then
        (if pin_available lk (Io_pins s ! i)
         then Io_StartBits_loop bits lk is (pin_take lk i s)
         else (Some i, s))
      else Io_StartBits_loop bits lk is s)"

fun Io_drop_loop :: "u64 \<Rightarrow> bool \<Rightarrow> nat list \<Rightarrow> 'a io_state_scheme \<Rightarrow> 'a io_state_scheme" where
  "Io_drop_loop bits unlock [] s = s"
| "Io_drop_loop bits unlock (i # is) s =
     Io_drop_loop bits unlock is (if bit bits i then pin_drop unlock i s else s)"

definition Io_StartBits ::
  "u64 \<Rightarrow> bool \<Rightarrow> 'a io_state_scheme \<Rightarrow> status \<times> 'a io_state_scheme" where
  "Io_StartBits bits lk s =
     (case Io_StartBits_loop bits lk [0..<64] s of
        (None, s') \<Rightarrow> (CONTROLLER_OK, s')
      | (Some failure, s') \<Rightarrow> (CONTROLLER_ERROR_CANT_LOCK, Io_drop_loop bits lk [0..<failure] s'))"

definition Io_StopBits :: "u64 \<Rightarrow> 'a io_state_scheme \<Rightarrow> status \<times> 'a io_state_scheme" where
  "Io_StopBits bits s = (CONTROLLER_OK, Io_drop_loop bits True [0..<64] s)"

text \<open>The getters return an \<^verbatim>\<open>unsigned char\<close>, so the error code \<open>-5\<close> comes back as 251.\<close>

definition illegal_as_bool :: u8 where
  "illegal_as_bool = word_of_int CONTROLLER_ERROR_ILLEGAL_INDEX"

definition Io_GetActive :: "int \<Rightarrow> 'a io_state_scheme \<Rightarrow> u8 option" where
  "Io_GetActive index s =
     (if bad_index index then Some illegal_as_bool
      else if nat index \<ge> length (Io_pins s) then None
      else Some (of_bool (IoPin_users (Io_pins s ! nat index) > 0)))"

subsection \<open>Single-line configuration\<close>

definition set_line ::
  "(u32 \<Rightarrow> pio \<Rightarrow> pio) \<Rightarrow> int \<Rightarrow> 'a io_state_scheme \<Rightarrow> status \<times> 'a io_state_scheme" where
  "set_line w index s =
     (if bad_index index then (CONTROLLER_ERROR_ILLEGAL_INDEX, s)
      else (CONTROLLER_OK, on_port index (w (line_mask index)) s))"

definition Io_SetOutput :: "int \<Rightarrow> 'a io_state_scheme \<Rightarrow> status \<times> 'a io_state_scheme" where
  "Io_SetOutput index s = set_line pio_OER index s"

definition Io_SetInput :: "int \<Rightarrow> 'a io_state_scheme \<Rightarrow> status \<times> 'a io_state_scheme" where
  "Io_SetInput index s = set_line pio_ODR index s"

definition Io_SetDirection ::
  "int \<Rightarrow> bool \<Rightarrow> 'a io_state_scheme \<Rightarrow> status \<times> 'a io_state_scheme" where
  "Io_SetDirection index output s = (if output then Io_SetOutput index s else Io_SetInput index s)"

definition Io_GetDirection :: "int \<Rightarrow> 'a io_state_scheme \<Rightarrow> u8" where
  "Io_GetDirection index s =
     (if bad_index index then illegal_as_bool
      else of_bool (PIO_OSR (port index s) AND line_mask index \<noteq> 0))"

definition Io_SetValue :: "int \<Rightarrow> bool \<Rightarrow> 'a io_state_scheme \<Rightarrow> status \<times> 'a io_state_scheme" where
  "Io_SetValue index v s = set_line (if v then pio_SODR else pio_CODR) index s"

definition Io_GetValue :: "int \<Rightarrow> 'a io_state_scheme \<Rightarrow> u8" where
  "Io_GetValue index s =
     (if bad_index index then 0
      else if PIO_PDSR (port index s) AND line_mask index \<noteq> 0 then 1 else 0)"

definition Io_SetPeripheralA :: "int \<Rightarrow> 'a io_state_scheme \<Rightarrow> status \<times> 'a io_state_scheme" where
  "Io_SetPeripheralA index s = set_line pio_ASR index s"

definition Io_SetPeripheralB :: "int \<Rightarrow> 'a io_state_scheme \<Rightarrow> status \<times> 'a io_state_scheme" where
  "Io_SetPeripheralB index s = set_line pio_BSR index s"

definition Io_PioEnable :: "int \<Rightarrow> 'a io_state_scheme \<Rightarrow> status \<times> 'a io_state_scheme" where
  "Io_PioEnable index s = set_line pio_PER index s"

definition Io_PioDisable :: "int \<Rightarrow> 'a io_state_scheme \<Rightarrow> status \<times> 'a io_state_scheme" where
  "Io_PioDisable index s = set_line pio_PDR index s"

definition Io_SetPio :: "int \<Rightarrow> bool \<Rightarrow> 'a io_state_scheme \<Rightarrow> status \<times> 'a io_state_scheme" where
  "Io_SetPio index enable s = (if enable then Io_PioEnable index s else Io_PioDisable index s)"

definition Io_GetPio :: "int \<Rightarrow> 'a io_state_scheme \<Rightarrow> u8" where
  "Io_GetPio index s =
     (if bad_index index then illegal_as_bool
      else of_bool (PIO_PSR (port index s) AND line_mask index \<noteq> 0))"

definition Io_PullupEnable :: "int \<Rightarrow> 'a io_state_scheme \<Rightarrow> status \<times> 'a io_state_scheme" where
  "Io_PullupEnable index s = set_line pio_PPUER index s"

definition Io_PullupDisable :: "int \<Rightarrow> 'a io_state_scheme \<Rightarrow> status \<times> 'a io_state_scheme" where
  "Io_PullupDisable index s = set_line pio_PPUDR index s"

definition Io_SetPullup :: "int \<Rightarrow> bool \<Rightarrow> 'a io_state_scheme \<Rightarrow> status \<times> 'a io_state_scheme" where
  "Io_SetPullup index enable s =
     (if enable then Io_PullupEnable index s else Io_PullupDisable index s)"

definition Io_GetPullup :: "int \<Rightarrow> 'a io_state_scheme \<Rightarrow> u8" where
  "Io_GetPullup index s =
     (if bad_index index then illegal_as_bool
      else of_bool (PIO_PPUSR (port index s) AND line_mask index = 0))"

subsection \<open>Batches of lines\<close>

text \<open>A 64-bit mask: the low half is port A, the high half port B.\<close>

definition lo32 :: "u64 \<Rightarrow> u32" where "lo32 bits = ucast bits"
definition hi32 :: "u64 \<Rightarrow> u32" where "hi32 bits = ucast (drop_bit 32 bits)"

definition on_ports ::
  "(pio \<Rightarrow> pio) \<Rightarrow> (pio \<Rightarrow> pio) \<Rightarrow> 'a io_state_scheme \<Rightarrow> 'a io_state_scheme" where
  "on_ports fa fb s = s\<lparr>PIOA := fa (PIOA s), PIOB := fb (PIOB s)\<rparr>"

definition Io_SetPullupBits :: "u64 \<Rightarrow> bool \<Rightarrow> 'a io_state_scheme \<Rightarrow> 'a io_state_scheme" where
  "Io_SetPullupBits bits enable s =
     (if enable then on_ports (pio_PPUER (lo32 bits)) (pio_PPUER (hi32 bits)) s
      else on_ports (pio_PPUDR (lo32 bits)) (pio_PPUDR (hi32 bits)) s)"

definition Io_SetValueBits :: "u64 \<Rightarrow> u64 \<Rightarrow> 'a io_state_scheme \<Rightarrow> 'a io_state_scheme" where
  "Io_SetValueBits bits values s =
     (let aBits = lo32 bits; aValues = lo32 values; bBits = hi32 bits; bValues = hi32 values
      in on_ports (pio_CODR (aBits AND NOT aValues) \<circ> pio_SODR (aBits AND aValues))
                  (pio_CODR (bBits AND NOT bValues) \<circ> pio_SODR (bBits AND bValues)) s)"

definition Io_SetDirectionBits :: "u64 \<Rightarrow> bool \<Rightarrow> 'a io_state_scheme \<Rightarrow> 'a io_state_scheme" where
  "Io_SetDirectionBits bits output s =
     (if output then on_ports (pio_OER (lo32 bits)) (pio_OER (hi32 bits)) s
      else on_ports (pio_ODR (lo32 bits)) (pio_ODR (hi32 bits)) s)"

text \<open>Both branches of the source write the enable registers.\<close>

definition Io_SetPioBits :: "u64 \<Rightarrow> bool \<Rightarrow> 'a io_state_scheme \<Rightarrow> 'a io_state_scheme" where
  "Io_SetPioBits bits enable s =
     (if enable then on_ports (pio_PER (lo32 bits)) (pio_PER (hi32 bits)) s
      else on_ports (pio_PER (lo32 bits)) (pio_PER (hi32 bits)) s)"

definition join32 :: "u32 \<Rightarrow> u32 \<Rightarrow> u64" where
  "join32 b a = push_bit 32 (ucast b) OR ucast a"

definition Io_GetValueBits :: "'a io_state_scheme \<Rightarrow> u64" where
  "Io_GetValueBits s = join32 (PIO_PDSR (PIOB s)) (PIO_PDSR (PIOA s))"

definition Io_GetPullupBits :: "'a io_state_scheme \<Rightarrow> u64" where
  "Io_GetPullupBits s = join32 (PIO_PPUSR (PIOB s)) (PIO_PPUSR (PIOA s))"

definition Io_GetPioBits :: "'a io_state_scheme \<Rightarrow> u64" where
  "Io_GetPioBits s = join32 (PIO_PSR (PIOB s)) (PIO_PSR (PIOA s))"

definition Io_GetDirectionBits :: "'a io_state_scheme \<Rightarrow> u64" where
  "Io_GetDirectionBits s = join32 (PIO_OSR (PIOB s)) (PIO_OSR (PIOA s))"

subsection \<open>Masked ports\<close>

definition Io_SetPortA :: "u32 \<Rightarrow> 'a io_state_scheme \<Rightarrow> status \<times> 'a io_state_scheme" where
  "Io_SetPortA v s =
     (CONTROLLER_OK,
      s\<lparr>PIOA := pio_CODR (Io_portAMask s AND NOT v) (pio_SODR (Io_portAMask s AND v) (PIOA s))\<rparr>)"

definition Io_GetPortA :: "'a io_state_scheme \<Rightarrow> u32" where
  "Io_GetPortA s = Io_portAMask s AND PIO_PDSR (PIOA s)"

definition Io_SetPortB :: "u32 \<Rightarrow> 'a io_state_scheme \<Rightarrow> status \<times> 'a io_state_scheme" where
  "Io_SetPortB v s =
     (CONTROLLER_OK,
      s\<lparr>PIOB := pio_CODR (Io_portBMask s AND NOT v) (pio_SODR (Io_portBMask s AND v) (PIOB s))\<rparr>)"

definition Io_GetPortB :: "'a io_state_scheme \<Rightarrow> u32" where
  "Io_GetPortB s = Io_portBMask s AND PIO_PDSR (PIOB s)"

definition Io_SetPortAMask :: "u32 \<Rightarrow> 'a io_state_scheme \<Rightarrow> status \<times> 'a io_state_scheme" where
  "Io_SetPortAMask v s = (CONTROLLER_OK, s\<lparr>Io_portAMask := v\<rparr>)"

definition Io_GetPortAMask :: "'a io_state_scheme \<Rightarrow> u32" where
  "Io_GetPortAMask s = Io_portAMask s"

definition Io_SetPortBMask :: "u32 \<Rightarrow> 'a io_state_scheme \<Rightarrow> status \<times> 'a io_state_scheme" where
  "Io_SetPortBMask v s = (CONTROLLER_OK, s\<lparr>Io_portBMask := v\<rparr>)"

definition Io_GetPortBMask :: "'a io_state_scheme \<Rightarrow> u32" where
  "Io_GetPortBMask s = Io_portBMask s"

subsection \<open>OSC property handlers\<close>

text \<open>The handlers ignore the status of the operation they call and answer \<open>CONTROLLER_OK\<close>.\<close>

definition IoOsc_IndexIntPropertySet ::
  "int \<Rightarrow> int \<Rightarrow> int \<Rightarrow> (status, 'a io_state_scheme) op" where
  "IoOsc_IndexIntPropertySet index property v s =
     (if property = 0 then
        map_option (\<lambda>(_, s). (CONTROLLER_OK, s))
          (if v \<noteq> 0 then Io_Start index False s else Io_Stop index s)
      else if property = 1 then Some (CONTROLLER_OK, snd (Io_SetValue index (to_bool v) s))
      else if property = 2 then Some (CONTROLLER_OK, snd (Io_SetDirection index (to_bool v) s))
      else if property = 3 then Some (CONTROLLER_OK, snd (Io_SetPio index (to_bool v) s))
      else if property = 4 then Some (CONTROLLER_OK, snd (Io_SetPullup index (to_bool v) s))
      else Some (CONTROLLER_OK, s))"

definition IoOsc_IndexIntPropertyGet :: "int \<Rightarrow> int \<Rightarrow> 'a io_state_scheme \<Rightarrow> int option" where
  "IoOsc_IndexIntPropertyGet index property s =
     (if property = 0 then map_option uint (Io_GetActive index s)
      else if property = 1 then Some (uint (Io_GetValue index s))
      else if property = 2 then Some (uint (Io_GetDirection index s))
      else if property = 3 then Some (uint (Io_GetPio index s))
      else if property = 4 then Some (uint (Io_GetPullup index s))
      else Some 0)"

definition IoOsc_IntPropertySet ::
  "int \<Rightarrow> u32 \<Rightarrow> 'a io_state_scheme \<Rightarrow> status \<times> 'a io_state_scheme" where
  "IoOsc_IntPropertySet property v s =
     (CONTROLLER_OK,
      if property = 0 then snd (Io_SetPortA v s)
      else if property = 1 then snd (Io_SetPortAMask v s)
      else if property = 2 then snd (Io_SetPortB v s)
      else if property = 3 then snd (Io_SetPortBMask v s)
      else s)"

definition IoOsc_IntPropertyGet :: "int \<Rightarrow> 'a io_state_scheme \<Rightarrow> u32" where
  "IoOsc_IntPropertyGet property s =
     (if property = 0 then Io_GetPortA s
      else if property = 1 then Io_GetPortAMask s
      else if property = 2 then Io_GetPortB s
      else if property = 3 then Io_GetPortBMask s
      else 0)"

lemmas io_line_defs [ops] = set_line_def on_port_def port_def line_mask_def bad_index_def
  Io_SetOutput_def Io_SetInput_def Io_SetDirection_def Io_SetValue_def Io_SetPeripheralA_def
  Io_SetPeripheralB_def Io_PioEnable_def Io_PioDisable_def Io_SetPio_def Io_PullupEnable_def
  Io_PullupDisable_def Io_SetPullup_def

lemmas io_batch_defs [ops] = on_ports_def Io_SetPullupBits_def Io_SetValueBits_def
  Io_SetDirectionBits_def Io_SetPioBits_def Io_SetPortA_def Io_SetPortB_def Io_SetPortAMask_def
  Io_SetPortBMask_def

subsection \<open>The ownership invariant\<close>

text \<open>
  Every line has at most 125 users, a locked line has exactly one, the global count is the sum
  of the lines' counts, and the subsystem is initialised exactly while somebody uses a line.
\<close>

definition pin_ok :: "IoPin \<Rightarrow> bool" where
  "pin_ok p \<longleftrightarrow> IoPin_users p \<le> 125 \<and> (IoPin_lock p \<longrightarrow> IoPin_users p = 1)"

definition total_users :: "IoPin list \<Rightarrow> nat" where
  "total_users ps = sum_list (map (\<lambda>p. unat (IoPin_users p)) ps)"

definition io_inv :: "'a io_state_scheme \<Rightarrow> bool" where
  "io_inv s \<longleftrightarrow>
     length (Io_pins s) = IO_PIN_COUNT \<and> list_all pin_ok (Io_pins s) \<and>
     Io_users s = int (total_users (Io_pins s)) \<and> Io_init s = of_bool (Io_users s \<noteq> 0)"

definition io_boot :: io_state where
  "io_boot = (let z = \<lparr>PIO_PSR = 0, PIO_OSR = 0, PIO_ODSR = 0, PIO_PDSR = 0, PIO_PPUSR = 0,
                       PIO_ABSR = 0\<rparr>
     in \<lparr>Io_users = 0, Io_init = 0, Io_portAMask = 0, Io_portBMask = 0,
         Io_pins = replicate 64 \<lparr>IoPin_users = 0, IoPin_lock = False\<rparr>,
         PIOA = z, PIOB = z, PMC_PCSR = 0\<rparr>)"

lemma total_users_update:
  "i < length ps \<Longrightarrow>
   total_users (ps[i := p]) + unat (IoPin_users (ps ! i)) = total_users ps + unat (IoPin_users p)"
  using sum_list_update_nat [of i "map (\<lambda>p. unat (IoPin_users p)) ps" "unat (IoPin_users p)"]
  by (simp add: total_users_def map_update)

lemma total_users_ge: "i < length ps \<Longrightarrow> unat (IoPin_users (ps ! i)) \<le> total_users ps"
  using sum_list_ge_nth [of i "map (\<lambda>p. unat (IoPin_users p)) ps"]
  by (simp add: total_users_def)

lemma io_boot_inv: "io_inv io_boot"
  by (simp add: io_inv_def io_boot_def total_users_def Let_def pin_ok_def list_all_iff)

lemma io_inv_length [simp]: "io_inv s \<Longrightarrow> length (Io_pins s) = 64"
  by (simp add: io_inv_def)

lemma io_inv_pin: "io_inv s \<Longrightarrow> i < 64 \<Longrightarrow> pin_ok (Io_pins s ! i)"
  unfolding io_inv_def list_all_iff by (metis nth_mem)

lemma list_all_update: "list_all P xs \<Longrightarrow> P x \<Longrightarrow> list_all P (xs[i := x])"
  by (induction xs arbitrary: i) (auto split: nat.splits)

lemma unat_users_Suc: "(u :: 7 word) < 125 \<Longrightarrow> unat (u + 1) = Suc (unat u)"
  by (simp add: unat_word_ariths word_less_nat_alt)

lemma unat_users_pred: "(u :: 7 word) > 0 \<Longrightarrow> Suc (unat (u - 1)) = unat u"
  by unat_arith

lemma pin_take_fields:
  "Io_pins (pin_take lk i s) =
     (Io_pins s)[i := \<lparr>IoPin_users = IoPin_users (Io_pins s ! i) + 1,
                       IoPin_lock = (lk \<or> IoPin_lock (Io_pins s ! i))\<rparr>]"
  "Io_users (pin_take lk i s) = Io_users s + 1"
  "Io_init (pin_take lk i s) = Io_init s + of_bool (Io_users s = 0)"
  by (simp_all add: pin_take_def Io_Init_def Let_def)

lemma pin_drop_fields:
  "Io_pins (pin_drop ul i s) =
     (Io_pins s)[i := \<lparr>IoPin_users = IoPin_users (Io_pins s ! i) - 1,
                       IoPin_lock = (IoPin_lock (Io_pins s ! i) \<and> \<not> ul)\<rparr>]"
  "Io_users (pin_drop ul i s) = Io_users s - 1"
  "Io_init (pin_drop ul i s) = Io_init s - of_bool (Io_users s = 1)"
  by (simp_all add: pin_drop_def Io_Deinit_def Let_def)

lemma pin_take_inv:
  assumes inv: "io_inv s" and i: "i < 64" and av: "pin_available lk (Io_pins s ! i)"
  shows "io_inv (pin_take lk i s)"
proof -
  let ?p = "Io_pins s ! i"
  let ?q = "\<lparr>IoPin_users = IoPin_users ?p + 1, IoPin_lock = (lk \<or> IoPin_lock ?p)\<rparr>"
  have u: "IoPin_users ?p < 125" using av by (simp add: pin_available_def)
  have "IoPin_users ?p + 1 \<le> 125" using u by unat_arith
  moreover have "IoPin_users ?p = 0" if "lk" using that av by (simp add: pin_available_def)
  ultimately have q: "pin_ok ?q" using av by (auto simp: pin_ok_def pin_available_def)
  have "total_users ((Io_pins s)[i := ?q]) = Suc (total_users (Io_pins s))"
    using total_users_update [of i "Io_pins s" ?q] inv i u by (simp add: unat_users_Suc)
  then show ?thesis
    using inv q by (simp add: io_inv_def pin_take_fields list_all_update)
qed

lemma pin_drop_inv:
  assumes inv: "io_inv s" and i: "i < 64" and u: "IoPin_users (Io_pins s ! i) > 0"
    and ul: "IoPin_lock (Io_pins s ! i) \<Longrightarrow> ul"
  shows "io_inv (pin_drop ul i s)"
proof -
  let ?p = "Io_pins s ! i"
  let ?q = "\<lparr>IoPin_users = IoPin_users ?p - 1, IoPin_lock = (IoPin_lock ?p \<and> \<not> ul)\<rparr>"
  have ok: "pin_ok ?p" using inv i by (rule io_inv_pin)
  have "IoPin_users ?p - 1 \<le> 125" using ok u unfolding pin_ok_def by unat_arith
  then have q: "pin_ok ?q" using ul by (auto simp: pin_ok_def)
  have "Suc (total_users ((Io_pins s)[i := ?q])) = total_users (Io_pins s)"
    using total_users_update [of i "Io_pins s" ?q] inv i unat_users_pred [OF u] by simp
  then show ?thesis
    using inv q by (auto simp add: io_inv_def pin_drop_fields list_all_update)
qed

lemma Io_Start_inv:
  assumes "io_inv s" and "Io_Start index lk s = Some (r, s')"
  shows "io_inv s'"
  using assms by (auto simp: Io_Start_def split: if_splits intro: pin_take_inv)

lemma Io_Stop_inv:
  assumes "io_inv s" and "Io_Stop index s = Some (r, s')"
  shows "io_inv s'"
  using assms by (auto simp: Io_Stop_def split: if_splits intro: pin_drop_inv)

lemma io_inv_cong:
  "Io_pins t = Io_pins s \<Longrightarrow> Io_users t = Io_users s \<Longrightarrow> Io_init t = Io_init s \<Longrightarrow>
   io_inv t = io_inv s"
  by (simp add: io_inv_def)

text \<open>Configuring lines does not touch the ownership table.\<close>

definition same_owners :: "'a io_state_scheme \<Rightarrow> 'a io_state_scheme \<Rightarrow> bool" where
  "same_owners s t \<longleftrightarrow>
     Io_pins t = Io_pins s \<and> Io_users t = Io_users s \<and> Io_init t = Io_init s"

lemma same_owners_inv: "same_owners s t \<Longrightarrow> io_inv t = io_inv s"
  by (simp add: same_owners_def io_inv_def)

lemma set_line_owners [simp]:
  "Io_pins (snd (set_line w index s)) = Io_pins s"
  "Io_users (snd (set_line w index s)) = Io_users s"
  "Io_init (snd (set_line w index s)) = Io_init s"
  by (simp_all add: set_line_def on_port_def)

lemma StartBits_loop_inv:
  assumes "io_inv s" and "set is \<subseteq> {..<64}"
  shows "io_inv (snd (Io_StartBits_loop bits lk is s))"
  using assms
  by (induction bits lk "is" s rule: Io_StartBits_loop.induct) (simp_all add: pin_take_inv)

subsection \<open>Batch acquisition is all or nothing\<close>

definition bump :: "bool \<Rightarrow> IoPin \<Rightarrow> IoPin" where
  "bump lk p = \<lparr>IoPin_users = IoPin_users p + 1, IoPin_lock = (lk \<or> IoPin_lock p)\<rparr>"

lemma pin_take_pins:
  "Io_pins (pin_take lk i s) = (Io_pins s)[i := bump lk (Io_pins s ! i)]"
  by (simp add: pin_take_fields bump_def)

lemma pin_drop_commute:
  "a \<noteq> b \<Longrightarrow> pin_drop ul a (pin_drop ul b s) = pin_drop ul b (pin_drop ul a s)"
  by (simp add: pin_drop_def Io_Deinit_def Let_def list_update_swap)

lemma drop_loop_commute:
  "a \<notin> set is \<Longrightarrow>
   Io_drop_loop bits ul is (pin_drop ul a s) = pin_drop ul a (Io_drop_loop bits ul is s)"
proof (induction "is" arbitrary: s)
  case Nil
  then show ?case by simp
next
  case (Cons b "is")
  then have "a \<noteq> b" and "a \<notin> set is" by auto
  then show ?case
    using Cons.IH [of "pin_drop ul b s"] Cons.IH [of s] by (simp add: pin_drop_commute)
qed

lemma pin_drop_take:
  assumes "Io_users s \<noteq> 0" and "\<not> IoPin_lock (Io_pins s ! i)" and "i < length (Io_pins s)"
  shows "pin_drop lk i (pin_take lk i s) = s"
proof -
  have "\<lparr>IoPin_users = IoPin_users (Io_pins s ! i), IoPin_lock = False\<rparr> = Io_pins s ! i"
    using assms(2) by simp
  then have "(Io_pins s)[i := \<lparr>IoPin_users = IoPin_users (Io_pins s ! i), IoPin_lock = False\<rparr>]
    = Io_pins s"
    by simp
  then show ?thesis
    using assms by (simp add: pin_drop_def pin_take_def Let_def)
qed

lemma StartBits_loop_failure:
  "Io_StartBits_loop bits lk is s = (Some f, s') \<Longrightarrow> f \<in> set is"
  by (induction bits lk "is" s rule: Io_StartBits_loop.induct) (auto split: if_splits)

lemma StartBits_rollback:
  assumes "Io_StartBits_loop bits lk is s = (Some f, s')"
    and "distinct is" and "set is \<subseteq> {..<64}" and "io_inv s" and "Io_users s > 0"
  shows "Io_drop_loop bits lk (takeWhile (\<lambda>i. i \<noteq> f) is) s' = s"
  using assms
proof (induction bits lk "is" s rule: Io_StartBits_loop.induct)
  case (1 bits lk s)
  then show ?case by simp
next
  case (2 bits lk i "is" s)
  let ?done = "takeWhile (\<lambda>i. i \<noteq> f) is"
  have i: "i < 64" "i \<notin> set is" "i \<notin> set ?done"
    using "2.prems"(2,3) by (auto dest: set_takeWhileD)
  show ?case
  proof (cases "bit bits i")
    case False
    with "2.prems"(1) have "f \<noteq> i" using i by (auto dest: StartBits_loop_failure)
    with False "2.prems" "2.IH"(2) show ?thesis by simp
  next
    case req: True
    show ?thesis
    proof (cases "pin_available lk (Io_pins s ! i)")
      case av: True
      with "2.prems"(1) req have rest: "Io_StartBits_loop bits lk is (pin_take lk i s) = (Some f, s')"
        by simp
      then have "f \<noteq> i" using i by (auto dest: StartBits_loop_failure)
      have "Io_drop_loop bits lk ?done s' = pin_take lk i s"
        using "2.IH"(1) [OF req av rest] "2.prems" av i
        by (simp add: pin_take_inv pin_take_fields)
      moreover have "\<not> IoPin_lock (Io_pins s ! i)"
        using av by (simp add: pin_available_def)
      ultimately show ?thesis
        using req i \<open>f \<noteq> i\<close> "2.prems" by (simp add: drop_loop_commute pin_drop_take)
    next
      case False
      with "2.prems" req show ?thesis by simp
    qed
  qed
qed

lemma StartBits_loop_fresh:
  assumes "\<forall>i \<in> set is. Io_pins s ! i = \<lparr>IoPin_users = 0, IoPin_lock = False\<rparr>"
    and "distinct is"
  shows "\<exists>s'. Io_StartBits_loop bits lk is s = (None, s')"
  using assms
proof (induction bits lk "is" s rule: Io_StartBits_loop.induct)
  case (1 bits lk s)
  then show ?case by simp
next
  case (2 bits lk i "is" s)
  then have "pin_available lk (Io_pins s ! i)" by (simp add: pin_available_def)
  moreover have "\<forall>j \<in> set is. Io_pins (pin_take lk i s) ! j = Io_pins s ! j"
    using "2.prems"(2) by (metis distinct.simps(2) nth_list_update_neq pin_take_pins)
  ultimately show ?case using "2.prems" "2.IH" by simp
qed

lemma StartBits_loop_success:
  assumes "Io_StartBits_loop bits lk is s = (None, s')"
    and "distinct is" and "set is \<subseteq> {..<length (Io_pins s)}"
  shows "length (Io_pins s') = length (Io_pins s) \<and>
    (\<forall>j. Io_pins s' ! j =
       (if j \<in> set is \<and> bit bits j then bump lk (Io_pins s ! j) else Io_pins s ! j))"
  using assms
  by (induction bits lk "is" s rule: Io_StartBits_loop.induct)
    (auto simp: pin_take_pins nth_list_update split: if_splits)

lemma io_inv_idle:
  assumes "io_inv s" and "Io_users s = 0" and "i < 64"
  shows "Io_pins s ! i = \<lparr>IoPin_users = 0, IoPin_lock = False\<rparr>"
proof -
  have "unat (IoPin_users (Io_pins s ! i)) = 0"
    using assms total_users_ge [of i "Io_pins s"] by (simp add: io_inv_def)
  then have "IoPin_users (Io_pins s ! i) = 0" by (simp add: unat_eq_zero)
  moreover then have "\<not> IoPin_lock (Io_pins s ! i)"
    using io_inv_pin [OF assms(1,3)] by (auto simp: pin_ok_def)
  ultimately show ?thesis by simp
qed

lemma takeWhile_upt: "f < n \<Longrightarrow> takeWhile (\<lambda>i. i \<noteq> f) [0..<n] = [0..<f]"
proof -
  assume "f < n"
  then have "[0..<n] = [0..<f] @ f # [Suc f..<n]"
    using upt_add_eq_append [of 0 f "n - f"] by (simp add: upt_conv_Cons)
  then show ?thesis by (simp add: takeWhile_append)
qed

text \<open>The batch operation either takes every requested line or leaves the state as it was.\<close>

lemma Io_StartBits_outcome:
  assumes inv: "io_inv s"
  shows "(\<exists>s'. Io_StartBits bits lk s = (CONTROLLER_OK, s') \<and> io_inv s' \<and>
            (\<forall>j<64. Io_pins s' ! j =
               (if bit bits j then bump lk (Io_pins s ! j) else Io_pins s ! j)))
       \<or> Io_StartBits bits lk s = (CONTROLLER_ERROR_CANT_LOCK, s)"
proof (cases "Io_StartBits_loop bits lk [0..<64] s")
  case (Pair r s')
  show ?thesis
  proof (cases r)
    case None
    with Pair have "io_inv s'"
      using StartBits_loop_inv [OF inv, of "[0..<64]" bits lk] by (simp add: lessThan_atLeast0)
    moreover have "\<forall>j<64. Io_pins s' ! j =
        (if bit bits j then bump lk (Io_pins s ! j) else Io_pins s ! j)"
      using StartBits_loop_success [of bits lk "[0..<64]" s s'] Pair None inv
      by (simp add: lessThan_atLeast0)
    ultimately show ?thesis using Pair None by (simp add: Io_StartBits_def)
  next
    case (Some f)
    have f: "f < 64" using StartBits_loop_failure [of bits lk "[0..<64]" s f s'] Pair Some by simp
    have "Io_users s \<noteq> 0"
      using StartBits_loop_fresh [of "[0..<64]" s bits lk] io_inv_idle [OF inv] Pair Some by force
    then have "Io_users s > 0" using inv by (simp add: io_inv_def)
    then have "Io_drop_loop bits lk [0..<f] s' = s"
      using StartBits_rollback [of bits lk "[0..<64]" s f s'] Pair Some inv f
      by (simp add: takeWhile_upt lessThan_atLeast0)
    then show ?thesis using Pair Some by (simp add: Io_StartBits_def)
  qed
qed

subsection \<open>The contract of line ownership\<close>

text \<open>
  What the device libraries rely on: a granted exclusive start means nobody else uses the line,
  a refused start changes nothing, and a stop undoes one start.
\<close>

locale line_owner =
  fixes start :: "int \<Rightarrow> bool \<Rightarrow> 's \<Rightarrow> (status \<times> 's) option"
    and stop :: "int \<Rightarrow> 's \<Rightarrow> (status \<times> 's) option"
    and owners :: "'s \<Rightarrow> int \<Rightarrow> nat"
    and locked :: "'s \<Rightarrow> int \<Rightarrow> bool"
    and inv :: "'s \<Rightarrow> bool"
    and line :: "int \<Rightarrow> bool"
  assumes start_cases: "inv s \<Longrightarrow> line i \<Longrightarrow>
      start i lk s = Some (CONTROLLER_ERROR_TOO_MANY_USERS, s) \<or>
      (\<exists>s'. start i lk s = Some (CONTROLLER_OK, s') \<and> inv s' \<and> \<not> locked s i \<and>
         (lk \<longrightarrow> owners s i = 0) \<and> owners s' = (owners s)(i := Suc (owners s i)) \<and>
         locked s' = (locked s)(i := lk))"
    and start_free: "inv s \<Longrightarrow> line i \<Longrightarrow> owners s i = 0 \<Longrightarrow> \<exists>s'. start i lk s = Some (CONTROLLER_OK, s')"
    and stop_used: "inv s \<Longrightarrow> line i \<Longrightarrow> owners s i > 0 \<Longrightarrow>
      \<exists>s'. stop i s = Some (CONTROLLER_OK, s') \<and> inv s' \<and>
         owners s' = (owners s)(i := owners s i - 1) \<and> locked s' = (locked s)(i := False)"
    and stop_unused: "inv s \<Longrightarrow> line i \<Longrightarrow> owners s i = 0 \<Longrightarrow>
      stop i s = Some (CONTROLLER_ERROR_TOO_MANY_STOPS, s)"
    and locked_owner: "inv s \<Longrightarrow> line i \<Longrightarrow> locked s i \<Longrightarrow> owners s i = 1"
begin

lemma start_locked:
  "inv s \<Longrightarrow> line i \<Longrightarrow> locked s i \<Longrightarrow> start i lk s = Some (CONTROLLER_ERROR_TOO_MANY_USERS, s)"
  using start_cases [of s i lk] by auto

lemma start_okD:
  assumes "inv s" and "line i" and "start i lk s = Some (CONTROLLER_OK, s')"
  shows "inv s'" and "\<not> locked s i" and "lk \<Longrightarrow> owners s i = 0"
    and "owners s' = (owners s)(i := Suc (owners s i))" and "locked s' = (locked s)(i := lk)"
  using start_cases [OF assms(1,2), of lk] assms(3) by auto

lemma exclusive:
  assumes "inv s" and "line i" and "start i True s = Some (CONTROLLER_OK, s')"
  shows "start i lk s' = Some (CONTROLLER_ERROR_TOO_MANY_USERS, s')"
  using start_okD [OF assms] assms(2) by (simp add: start_locked)

lemma start_stop:
  assumes "inv s" and "line i" and "start i lk s = Some (CONTROLLER_OK, s')"
  shows "\<exists>s''. stop i s' = Some (CONTROLLER_OK, s'') \<and> inv s'' \<and>
    owners s'' = owners s \<and> locked s'' = locked s"
  using start_okD [OF assms] stop_used [of s' i] assms(2) by (auto simp: fun_eq_iff)

lemma start_result:
  "inv s \<Longrightarrow> line i \<Longrightarrow> start i lk s = Some (r, s') \<Longrightarrow> r \<noteq> CONTROLLER_OK \<Longrightarrow> s' = s"
  using start_cases [of s i lk] by auto

lemma locked_kept:
  assumes "inv s" and "line i" and "line j" and "locked s i"
  shows "start j lk s = Some (r, s') \<Longrightarrow> locked s' i"
    and "stop j s = Some (r, s') \<Longrightarrow> j \<noteq> i \<Longrightarrow> locked s' i"
proof -
  assume "start j lk s = Some (r, s')"
  then show "locked s' i"
    using start_cases [OF assms(1,3), of lk] assms(4) by (cases "j = i") auto
next
  assume "stop j s = Some (r, s')" and "j \<noteq> i"
  then show "locked s' i"
    using stop_used [OF assms(1,3)] stop_unused [OF assms(1,3)] assms(4)
    by (cases "owners s j = 0") auto
qed

end

definition io_line :: "int \<Rightarrow> bool" where
  "io_line i \<longleftrightarrow> 0 \<le> i \<and> i < 64"

definition line_users :: "'a io_state_scheme \<Rightarrow> int \<Rightarrow> nat" where
  "line_users s i = (if io_line i then unat (IoPin_users (Io_pins s ! nat i)) else 0)"

definition line_locked :: "'a io_state_scheme \<Rightarrow> int \<Rightarrow> bool" where
  "line_locked s i \<longleftrightarrow> io_line i \<and> IoPin_lock (Io_pins s ! nat i)"

lemma io_line_nat: "io_line i \<Longrightarrow> nat i < 64 \<and> \<not> bad_index i"
  by (auto simp: io_line_def bad_index_def)

lemma line_users_update:
  assumes "io_line i" and "length (Io_pins s) = 64" and "Io_pins t = (Io_pins s)[nat i := p]"
  shows "line_users t = (line_users s)(i := unat (IoPin_users p))"
    and "line_locked t = (line_locked s)(i := IoPin_lock p)"
  using assms
  by (auto simp: fun_eq_iff line_users_def line_locked_def io_line_def nth_list_update eq_nat_nat_iff)

interpretation io: line_owner Io_Start Io_Stop line_users line_locked io_inv io_line
proof unfold_locales
  fix s :: "'a io_state_scheme" and i lk
  assume s: "io_inv s" "io_line i"
  let ?p = "Io_pins s ! nat i"
  have i: "nat i < 64" "\<not> bad_index i" using s(2) by (auto dest: io_line_nat)
  show "Io_Start i lk s = Some (CONTROLLER_ERROR_TOO_MANY_USERS, s) \<or>
    (\<exists>s'. Io_Start i lk s = Some (CONTROLLER_OK, s') \<and> io_inv s' \<and> \<not> line_locked s i \<and>
      (lk \<longrightarrow> line_users s i = 0) \<and> line_users s' = (line_users s)(i := Suc (line_users s i)) \<and>
      line_locked s' = (line_locked s)(i := lk))"
  proof (cases "pin_available lk ?p")
    case True
    then have "IoPin_users ?p < 125" "\<not> IoPin_lock ?p" "lk \<Longrightarrow> IoPin_users ?p = 0"
      by (auto simp: pin_available_def)
    then show ?thesis
      using True s i line_users_update [OF s(2) _ pin_take_pins [of lk "nat i" s]]
      by (simp add: Io_Start_def pin_take_inv bump_def unat_users_Suc)
        (simp add: line_users_def line_locked_def)
  next
    case False
    then show ?thesis using s i by (simp add: Io_Start_def)
  qed
  show "\<exists>s'. Io_Start i lk s = Some (CONTROLLER_OK, s')" if "line_users s i = 0"
  proof -
    have "IoPin_users ?p = 0" using that s(2) by (simp add: line_users_def unat_eq_zero)
    moreover then have "\<not> IoPin_lock ?p" using io_inv_pin [OF s(1) i(1)] by (auto simp: pin_ok_def)
    ultimately show ?thesis using s i by (simp add: Io_Start_def pin_available_def)
  qed
  show "line_users s i = 1" if "line_locked s i"
    using that io_inv_pin [OF s(1) i(1)] by (simp add: line_users_def line_locked_def pin_ok_def)
  show "Io_Stop i s = Some (CONTROLLER_ERROR_TOO_MANY_STOPS, s)" if "line_users s i = 0"
    using that s i by (simp add: Io_Stop_def line_users_def unat_eq_zero)
  show "\<exists>s'. Io_Stop i s = Some (CONTROLLER_OK, s') \<and> io_inv s' \<and>
      line_users s' = (line_users s)(i := line_users s i - 1) \<and>
      line_locked s' = (line_locked s)(i := False)" if "line_users s i > 0"
  proof -
    have u: "IoPin_users ?p > 0"
      using that s(2) by (simp add: line_users_def word_less_nat_alt)
    then have "unat (IoPin_users ?p - 1) = line_users s i - 1"
      using s(2) unat_users_pred [OF u] by (simp add: line_users_def)
    then show ?thesis
      using u s i line_users_update [OF s(2) _ pin_drop_fields(1) [of True "nat i" s]]
      by (simp add: Io_Stop_def pin_drop_inv)
  qed
qed

subsection \<open>What a line shows\<close>

text \<open>The level a line is driven to, and the level read from its pin.\<close>

definition line_out :: "'a io_state_scheme \<Rightarrow> int \<Rightarrow> bool" where
  "line_out s i = bit (PIO_ODSR (port i s)) (nat (i mod 32))"

definition line_dir :: "'a io_state_scheme \<Rightarrow> int \<Rightarrow> bool" where
  "line_dir s i = bit (PIO_OSR (port i s)) (nat (i mod 32))"

definition line_pio :: "'a io_state_scheme \<Rightarrow> int \<Rightarrow> bool" where
  "line_pio s i = bit (PIO_PSR (port i s)) (nat (i mod 32))"

definition line_level :: "'a io_state_scheme \<Rightarrow> int \<Rightarrow> bool" where
  "line_level s i = bit (PIO_PDSR (port i s)) (nat (i mod 32))"

lemmas line_view_defs = line_out_def line_dir_def line_pio_def line_level_def

lemma nat_mod_32 [simp]: "nat (i mod 32) < 32"
  by (simp add: nat_less_iff)

lemma same_line:
  assumes "io_line i" and "io_line j" and "(i < 32) = (j < 32)" and "nat (j mod 32) = nat (i mod 32)"
  shows "j = i"
proof -
  have "j mod 32 = i mod 32" using assms(4) by (simp add: eq_nat_nat_iff)
  moreover have "k div 32 = (if k < 32 then 0 else 1)" if "io_line k" for k
    using that by (auto simp: io_line_def)
  then have "j div 32 = i div 32" using assms(1-3) by simp
  ultimately show ?thesis by (metis div_mult_mod_eq)
qed

lemma Io_GetValue_level: "io_line i \<Longrightarrow> Io_GetValue i s = of_bool (line_level s i)"
  by (auto simp: Io_GetValue_def line_level_def line_mask_def dest: io_line_nat)

lemma Io_SetValue_ok: "io_line i \<Longrightarrow> fst (Io_SetValue i v s) = CONTROLLER_OK"
  by (auto simp: Io_SetValue_def set_line_def dest: io_line_nat)

lemma line_out_SetValue [io_lookup]:
  assumes "io_line i" and "io_line j"
  shows "line_out (snd (Io_SetValue i v s)) j = (if j = i then v else line_out s j)"
proof (cases "j = i")
  case True
  with io_line_nat [OF assms(1)] show ?thesis
    by (simp add: line_out_def Io_SetValue_def set_line_def on_port_def port_def line_mask_def pio_defs)
next
  case False
  with io_line_nat [OF assms(1)] same_line [OF assms] show ?thesis
    by (auto simp add: line_out_def Io_SetValue_def set_line_def on_port_def port_def line_mask_def pio_defs)
qed

lemma line_dir_SetDirection [io_lookup]:
  assumes "io_line i" and "io_line j"
  shows "line_dir (snd (Io_SetDirection i v s)) j = (if j = i then v else line_dir s j)"
proof (cases "j = i")
  case True
  with io_line_nat [OF assms(1)] show ?thesis
    by (simp add: line_dir_def io_line_defs pio_defs)
next
  case False
  with io_line_nat [OF assms(1)] same_line [OF assms] show ?thesis
    by (auto simp add: line_dir_def set_line_def on_port_def port_def line_mask_def pio_defs
        Io_SetDirection_def Io_SetOutput_def Io_SetInput_def)
qed

lemma line_pio_SetPio [io_lookup]:
  assumes "io_line i" and "io_line j"
  shows "line_pio (snd (Io_SetPio i v s)) j = (if j = i then v else line_pio s j)"
proof (cases "j = i")
  case True
  with io_line_nat [OF assms(1)] show ?thesis
    by (simp add: line_pio_def io_line_defs pio_defs)
next
  case False
  with io_line_nat [OF assms(1)] same_line [OF assms] show ?thesis
    by (auto simp add: line_pio_def set_line_def on_port_def port_def line_mask_def pio_defs
        Io_SetPio_def Io_PioEnable_def Io_PioDisable_def)
qed

text \<open>The three settings are independent of each other and of the levels on the pins.\<close>

lemma line_view_other [io_lookup]:
  "line_dir (snd (Io_SetValue i v s)) = line_dir s"
  "line_pio (snd (Io_SetValue i v s)) = line_pio s"
  "line_level (snd (Io_SetValue i v s)) = line_level s"
  "line_out (snd (Io_SetDirection i v s)) = line_out s"
  "line_pio (snd (Io_SetDirection i v s)) = line_pio s"
  "line_level (snd (Io_SetDirection i v s)) = line_level s"
  "line_out (snd (Io_SetPio i v s)) = line_out s"
  "line_dir (snd (Io_SetPio i v s)) = line_dir s"
  "line_level (snd (Io_SetPio i v s)) = line_level s"
  "line_out (snd (Io_SetPullup i v s)) = line_out s"
  "line_level (snd (Io_SetPullup i v s)) = line_level s"
  by (auto simp: fun_eq_iff line_view_defs io_line_defs pio_defs)

lemma line_view_owner [io_lookup]:
  "port i (pin_take lk n s) = port i s"
  "port i (pin_drop ul n s) = port i s"
  by (simp_all add: port_def pin_take_def pin_drop_def Io_Init_def Io_Deinit_def Let_def)

lemma line_view_Start [io_lookup]:
  assumes "Io_Start i lk s = Some (r, s')"
  shows "line_out s' = line_out s" "line_dir s' = line_dir s" "line_pio s' = line_pio s"
    "line_level s' = line_level s"
  using assms
  by (auto simp: fun_eq_iff Io_Start_def line_view_defs line_view_owner split: if_splits)

lemma line_view_Stop [io_lookup]:
  assumes "Io_Stop i s = Some (r, s')"
  shows "line_out s' = line_out s" "line_dir s' = line_dir s" "line_pio s' = line_pio s"
    "line_level s' = line_level s"
  using assms
  by (auto simp: fun_eq_iff Io_Stop_def line_view_defs line_view_owner split: if_splits)

lemma set_line_owner_view [simp]:
  "line_users (snd (set_line w i s)) = line_users s"
  "line_locked (snd (set_line w i s)) = line_locked s"
  "io_inv (snd (set_line w i s)) = io_inv s"
  by (simp_all add: fun_eq_iff line_users_def line_locked_def io_inv_def)

lemma setters_owner_view [simp]:
  "line_users (snd (Io_SetValue i v s)) = line_users s"
  "line_locked (snd (Io_SetValue i v s)) = line_locked s"
  "io_inv (snd (Io_SetValue i v s)) = io_inv s"
  "line_users (snd (Io_SetDirection i v s)) = line_users s"
  "line_locked (snd (Io_SetDirection i v s)) = line_locked s"
  "io_inv (snd (Io_SetDirection i v s)) = io_inv s"
  "line_users (snd (Io_SetPio i v s)) = line_users s"
  "line_locked (snd (Io_SetPio i v s)) = line_locked s"
  "io_inv (snd (Io_SetPio i v s)) = io_inv s"
  "line_users (snd (Io_SetPullup i v s)) = line_users s"
  "line_locked (snd (Io_SetPullup i v s)) = line_locked s"
  "io_inv (snd (Io_SetPullup i v s)) = io_inv s"
  by (simp_all add: Io_SetValue_def Io_SetDirection_def Io_SetOutput_def Io_SetInput_def
      Io_SetPio_def Io_PioEnable_def Io_PioDisable_def Io_SetPullup_def Io_PullupEnable_def
      Io_PullupDisable_def)

subsection \<open>Sequences of calls\<close>

text \<open>
  Any sequence of calls into the subsystem, batch stops of lines nobody took included (these
  break the counts, see below, so the invariant is not assumed along the way).
\<close>

datatype io_call =
    IoStart int bool | IoStop int | IoStartBits u64 bool | IoStopBits u64
  | IoSetDirection int bool | IoSetValue int bool | IoSetPio int bool | IoSetPullup int bool
  | IoSetPeripheralA int | IoSetPeripheralB int
  | IoSetPullupBits u64 bool | IoSetValueBits u64 u64 | IoSetDirectionBits u64 bool
  | IoSetPioBits u64 bool | IoSetPortA u32 | IoSetPortB u32 | IoSetPortAMask u32 | IoSetPortBMask u32

fun io_exec :: "io_call \<Rightarrow> 'a io_state_scheme \<Rightarrow> 'a io_state_scheme option" where
  "io_exec (IoStart i lk) s = map_option snd (Io_Start i lk s)"
| "io_exec (IoStop i) s = map_option snd (Io_Stop i s)"
| "io_exec (IoStartBits b lk) s = Some (snd (Io_StartBits b lk s))"
| "io_exec (IoStopBits b) s = Some (snd (Io_StopBits b s))"
| "io_exec (IoSetDirection i v) s = Some (snd (Io_SetDirection i v s))"
| "io_exec (IoSetValue i v) s = Some (snd (Io_SetValue i v s))"
| "io_exec (IoSetPio i v) s = Some (snd (Io_SetPio i v s))"
| "io_exec (IoSetPullup i v) s = Some (snd (Io_SetPullup i v s))"
| "io_exec (IoSetPeripheralA i) s = Some (snd (Io_SetPeripheralA i s))"
| "io_exec (IoSetPeripheralB i) s = Some (snd (Io_SetPeripheralB i s))"
| "io_exec (IoSetPullupBits b v) s = Some (Io_SetPullupBits b v s)"
| "io_exec (IoSetValueBits b v) s = Some (Io_SetValueBits b v s)"
| "io_exec (IoSetDirectionBits b v) s = Some (Io_SetDirectionBits b v s)"
| "io_exec (IoSetPioBits b v) s = Some (Io_SetPioBits b v s)"
| "io_exec (IoSetPortA v) s = Some (snd (Io_SetPortA v s))"
| "io_exec (IoSetPortB v) s = Some (snd (Io_SetPortB v s))"
| "io_exec (IoSetPortAMask v) s = Some (snd (Io_SetPortAMask v s))"
| "io_exec (IoSetPortBMask v) s = Some (snd (Io_SetPortBMask v s))"

fun io_run :: "io_call list \<Rightarrow> 'a io_state_scheme \<Rightarrow> 'a io_state_scheme option" where
  "io_run [] s = Some s"
| "io_run (c # cs) s = Option.bind (io_exec c s) (io_run cs)"

text \<open>The calls that release line \<^verbatim>\<open>i\<close>: its own stop and a batch stop that names it.\<close>

fun io_releases :: "int \<Rightarrow> io_call \<Rightarrow> bool" where
  "io_releases i (IoStop j) \<longleftrightarrow> j = i"
| "io_releases i (IoStopBits b) \<longleftrightarrow> bit b (nat i)"
| "io_releases i _ \<longleftrightarrow> False"

definition owner_call :: "io_call \<Rightarrow> bool" where
  "owner_call c \<longleftrightarrow>
     (case c of IoStart _ _ \<Rightarrow> True | IoStop _ \<Rightarrow> True | IoStartBits _ _ \<Rightarrow> True
      | IoStopBits _ \<Rightarrow> True | _ \<Rightarrow> False)"

lemma io_exec_config:
  assumes "\<not> owner_call c" and "io_exec c s = Some s'"
  shows "Io_pins s' = Io_pins s"
  using assms
  by (cases c) (auto simp: owner_call_def io_line_defs io_batch_defs Let_def)

text \<open>The table entry of a locked line, call by call.\<close>

lemma drop_loop_pin:
  "\<not> (bit bits n \<and> n \<in> set is) \<Longrightarrow> Io_pins (Io_drop_loop bits ul is s) ! n = Io_pins s ! n"
  by (induction bits ul "is" s rule: Io_drop_loop.induct)
    (auto simp: pin_drop_fields, metis nth_list_update_neq)

lemma drop_loop_pins_length [simp]:
  "length (Io_pins (Io_drop_loop bits ul is s)) = length (Io_pins s)"
  by (induction bits ul "is" s rule: Io_drop_loop.induct) (auto simp: pin_drop_fields)

lemma StartBits_loop_pins_length:
  "length (Io_pins (snd (Io_StartBits_loop bits lk is s))) = length (Io_pins s)"
  by (induction bits lk "is" s rule: Io_StartBits_loop.induct) (auto simp: pin_take_fields)

lemma StartBits_loop_pin:
  assumes "IoPin_lock (Io_pins s ! n)" and "sorted is"
  shows "Io_pins (snd (Io_StartBits_loop bits lk is s)) ! n = Io_pins s ! n \<and>
    (bit bits n \<and> n \<in> set is \<longrightarrow> (\<exists>f \<le> n. fst (Io_StartBits_loop bits lk is s) = Some f))"
  using assms
proof (induction bits lk "is" s rule: Io_StartBits_loop.induct)
  case (2 bits lk i "is" s)
  have "i \<noteq> n" if "pin_available lk (Io_pins s ! i)"
    using that "2.prems"(1) by (auto simp: pin_available_def)
  then show ?case using 2 by (auto simp: pin_take_pins)
qed simp

lemma Io_StartBits_pin:
  assumes "IoPin_lock (Io_pins s ! n)" and "n < 64"
  shows "Io_pins (snd (Io_StartBits bits lk s)) ! n = Io_pins s ! n"
proof (cases "Io_StartBits_loop bits lk [0..<64] s")
  case (Pair r s')
  have kept: "Io_pins s' ! n = Io_pins s ! n" "bit bits n \<Longrightarrow> \<exists>f \<le> n. r = Some f"
    using StartBits_loop_pin [OF assms(1), of "[0..<64]" bits lk] assms(2) Pair by simp_all
  show ?thesis
  proof (cases r)
    case (Some f)
    then have "\<not> (bit bits n \<and> n \<in> set [0..<f])" using kept(2) by auto
    then show ?thesis using Pair Some kept(1) by (simp add: Io_StartBits_def drop_loop_pin)
  qed (use Pair kept(1) in \<open>simp add: Io_StartBits_def\<close>)
qed

lemma Io_StartBits_pins_length:
  "length (Io_pins (snd (Io_StartBits bits lk s))) = length (Io_pins s)"
  using StartBits_loop_pins_length [of bits lk "[0..<64]" s]
  by (auto simp: Io_StartBits_def split: prod.splits option.splits)

lemma io_exec_pins_length: "io_exec c s = Some s' \<Longrightarrow> length (Io_pins s') = length (Io_pins s)"
  using io_exec_config [of c s s']
  by (cases c)
    (auto simp: owner_call_def Io_StartBits_pins_length Io_StopBits_def Io_Start_def Io_Stop_def
      pin_take_fields pin_drop_fields split: if_splits)

lemma io_exec_pin:
  assumes c: "io_exec c s = Some s'" and l: "line_locked s i" and n: "\<not> io_releases i c"
  shows "Io_pins s' ! nat i = Io_pins s ! nat i"
proof (cases "owner_call c")
  case True
  have i: "nat i < 64" "IoPin_lock (Io_pins s ! nat i)" "0 \<le> i"
    using l by (auto simp: line_locked_def io_line_def)
  have start: "Io_pins s' ! nat i = Io_pins s ! nat i" if "Io_Start j lk s = Some (r, s')" for j lk r
    using that i by (cases "nat j = nat i")
      (auto simp: Io_Start_def pin_available_def pin_take_fields split: if_splits)
  have stop: "Io_pins s' ! nat i = Io_pins s ! nat i" if "Io_Stop j s = Some (r, s')" "j \<noteq> i" for j r
    using that i by (auto simp: Io_Stop_def bad_index_def pin_drop_fields nth_list_update
        eq_nat_nat_iff split: if_splits)
  show ?thesis
    using True c n i start stop
    by (cases c) (auto simp: owner_call_def Io_StartBits_pin Io_StopBits_def drop_loop_pin)
qed (use io_exec_config [OF _ c] in simp)

lemma io_run_pin:
  assumes "io_run cs s = Some s'" and "line_locked s i" and "\<not> list_ex (io_releases i) cs"
  shows "Io_pins s' ! nat i = Io_pins s ! nat i \<and> length (Io_pins s') = length (Io_pins s)"
  using assms
proof (induction cs arbitrary: s)
  case (Cons c cs)
  then obtain t where t: "io_exec c s = Some t" "io_run cs t = Some s'"
    by (auto simp: bind_eq_Some_conv)
  have same: "Io_pins t ! nat i = Io_pins s ! nat i" "length (Io_pins t) = length (Io_pins s)"
    using io_exec_pin [OF t(1) Cons.prems(2)] io_exec_pins_length [OF t(1)] Cons.prems(3) by simp_all
  then have "line_locked t i" using Cons.prems(2) by (simp add: line_locked_def)
  then show ?case using Cons.IH [OF t(2)] Cons.prems(3) same by simp
qed simp

lemma bit_lo32: "n < 32 \<Longrightarrow> bit (lo32 b) n = bit b n"
  by (simp add: lo32_def bit_ucast_iff)

lemma bit_hi32: "n < 32 \<Longrightarrow> bit (hi32 b) n = bit b (n + 32)"
  by (simp add: hi32_def bit_ucast_iff bit_drop_bit_eq add.commute)

lemma bit_set_clear:
  "n < 32 \<Longrightarrow> bit ((w OR (m AND v)) AND NOT (m AND NOT v)) n = (if bit m n then bit v n else bit w n)"
  for w m v :: u32
  by (auto simp: bit_simps)

lemma line_out_SetValueBits:
  assumes "io_line j"
  shows "line_out (Io_SetValueBits bits values s) j =
    (if bit bits (nat j) then bit values (nat j) else line_out s j)"
proof (cases "j < 32")
  case True
  then have j: "j mod 32 = j" "nat j < 32" using assms by (auto simp: io_line_def)
  then show ?thesis
    using True bit_set_clear [OF j(2)]
    by (simp add: line_out_def Io_SetValueBits_def Let_def on_ports_def port_def pio_defs bit_lo32)
next
  case False
  then have "j mod 32 = j - 32"
    using assms mod_pos_pos_trivial [of "j - 32" 32] minus_mod_self2 [of j 32]
    by (simp add: io_line_def del: minus_mod_self2)
  moreover define n where "n = nat (j - 32)"
  then have n: "n < 32" "nat j = n + 32" using False assms by (auto simp: io_line_def)
  ultimately show ?thesis
    using False bit_set_clear [OF n(1)] n_def
    by (simp add: line_out_def Io_SetValueBits_def Let_def on_ports_def port_def pio_defs bit_hi32)
qed

lemma line_users_boot: "line_users io_boot i = 0"
proof -
  have "Io_pins io_boot ! nat i = \<lparr>IoPin_users = 0, IoPin_lock = False\<rparr>" if "io_line i"
    using io_line_nat [OF that] nth_replicate [of "nat i" 64] by (simp add: io_boot_def Let_def)
  then show ?thesis by (simp add: line_users_def)
qed

subsection \<open>Properties\<close>

text \<open>
  C5: exclusive ownership. Once a line is locked, no sequence of calls (starts, stops, batch
  starts and batch stops of any lines, in use or not, and every setting) takes the lock away or
  gives the line a second user, as long as no call releases that very line: no stop of it and no
  batch stop whose mask names it. It stays locked, with one user, and every further start of it,
  shared or exclusive, is refused and changes nothing.
\<close>

theorem io_lock_exclusive:
  assumes "io_inv s" and "line_locked s i" and "io_run cs s = Some s'"
    and "\<not> list_ex (io_releases i) cs"
  shows "line_locked s' i \<and> line_users s' i = 1 \<and>
    Io_Start i lk s' = Some (CONTROLLER_ERROR_TOO_MANY_USERS, s')"
proof -
  have i: "io_line i" using assms(2) by (simp add: line_locked_def)
  have one: "line_users s i = 1" by (rule io.locked_owner [OF assms(1) i assms(2)])
  have same: "Io_pins s' ! nat i = Io_pins s ! nat i" "length (Io_pins s') = 64"
    using io_run_pin [OF assms(3,2,4)] assms(1) by simp_all
  show ?thesis
    using assms(2) one same io_line_nat [OF i]
    by (simp add: line_locked_def line_users_def Io_Start_def pin_available_def)
qed

theorem io_lock_exclusive_witness:
  "let s = snd (the (Io_Start 20 True io_boot));
       s' = the (io_run [IoStart 19 False, IoSetValue 20 True, IoStopBits 7, IoStartBits 3 True,
                         IoStop 19] s)
   in line_locked s' 20 \<and> line_users s' 20 = 1 \<and>
      Io_Start 20 False s' = Some (CONTROLLER_ERROR_TOO_MANY_USERS, s')"
proof -
  let ?cs = "[IoStart 19 False, IoSetValue 20 True, IoStopBits 7, IoStartBits 3 True, IoStop 19]"
  obtain s1 where s1: "Io_Start 20 True io_boot = Some (CONTROLLER_OK, s1)"
    using io.start_free [OF io_boot_inv, of 20 True]
    by (auto simp: io_line_def line_users_boot)
  have inv: "io_inv s1" "line_locked s1 20"
    using io.start_okD [OF io_boot_inv _ s1] by (simp_all add: io_line_def)
  have total: "io_exec c s \<noteq> None" if "length (Io_pins s) = 64" "c \<in> set ?cs"
    for c and s :: io_state
    using that by (auto simp: Io_Start_def Io_Stop_def bad_index_def)
  have ran: "\<exists>t. io_run cs s = Some t" if "length (Io_pins s) = 64" "set cs \<subseteq> set ?cs"
    for cs and s :: io_state
    using that
  proof (induction cs arbitrary: s)
    case (Cons c cs)
    then obtain t where t: "io_exec c s = Some t" using total [of s c] by auto
    then show ?case using Cons io_exec_pins_length [OF t] by simp
  qed simp
  obtain s2 where run: "io_run ?cs s1 = Some s2"
    using ran [of s1 ?cs] inv(1) by (auto simp del: io_run.simps)
  have "\<not> list_ex (io_releases 20) ?cs" by code_simp
  from io_lock_exclusive [OF inv run this, of False] show ?thesis
    using s1 run by (simp add: Let_def del: io_run.simps)
qed

text \<open>
  C6: a batch start is atomic. From a state where the ownership invariant holds, \<^verbatim>\<open>Io_StartBits\<close>
  either takes every requested line (one more user each, locked if asked) and no other, or
  answers \<open>CONTROLLER_ERROR_CANT_LOCK\<close> and leaves the whole state exactly as it was.
\<close>

theorem io_StartBits_atomic:
  assumes "io_inv s"
  shows "(\<exists>s'. Io_StartBits bits lk s = (CONTROLLER_OK, s') \<and> io_inv s' \<and>
            (\<forall>j<64. Io_pins s' ! j =
               (if bit bits j then bump lk (Io_pins s ! j) else Io_pins s ! j)))
       \<or> Io_StartBits bits lk s = (CONTROLLER_ERROR_CANT_LOCK, s)"
  using assms by (rule Io_StartBits_outcome)

theorem io_StartBits_atomic_witness:
  "(\<exists>s'. Io_StartBits 5 True io_boot = (CONTROLLER_OK, s') \<and> io_inv s' \<and>
      (\<forall>j<64. Io_pins s' ! j =
         (if bit (5 :: u64) j then bump True (Io_pins io_boot ! j) else Io_pins io_boot ! j)))
   \<or> Io_StartBits 5 True io_boot = (CONTROLLER_ERROR_CANT_LOCK, io_boot)"
  by (rule io_StartBits_atomic [OF io_boot_inv])

text \<open>
  Releasing undoes acquiring. A granted start followed by a stop of the same line restores
  every line's user count and lock.
\<close>

theorem io_start_stop_roundtrip:
  assumes "io_inv s" and "io_line i" and "Io_Start i lk s = Some (CONTROLLER_OK, s')"
  shows "\<exists>s''. Io_Stop i s' = Some (CONTROLLER_OK, s'') \<and> io_inv s'' \<and>
    line_users s'' = line_users s \<and> line_locked s'' = line_locked s"
  using assms by (rule io.start_stop)

theorem io_start_stop_roundtrip_witness:
  "\<exists>s' s''. Io_Start 7 True io_boot = Some (CONTROLLER_OK, s') \<and>
    Io_Stop 7 s' = Some (CONTROLLER_OK, s'') \<and> line_users s'' = line_users io_boot"
proof -
  have i: "io_line 7" by (simp add: io_line_def)
  obtain s' where s': "Io_Start 7 True io_boot = Some (CONTROLLER_OK, s')"
    using io.start_free [OF io_boot_inv i line_users_boot] by blast
  show ?thesis using io_start_stop_roundtrip [OF io_boot_inv i s'] s' by blast
qed

text \<open>
  A batch write drives exactly the selected lines to the given values and leaves every other
  line's output alone.
\<close>

theorem io_SetValueBits_selects:
  "io_line j \<Longrightarrow> line_out (Io_SetValueBits bits values s) j =
    (if bit bits (nat j) then bit values (nat j) else line_out s j)"
  by (rule line_out_SetValueBits)

theorem io_SetValueBits_selects_witness:
  "line_out (Io_SetValueBits (2 ^ 40) (2 ^ 40) io_boot) 40 \<and> io_line 40"
  using io_SetValueBits_selects [of 40 "2 ^ 40" "2 ^ 40" io_boot]
  by (simp add: io_line_def bit_exp_iff)

text \<open>
  The index check lets 64 through. The table has 64 lines, numbered 0 to 63, but every
  operation accepts 64: \<^verbatim>\<open>Io_Start\<close>, \<^verbatim>\<open>Io_Stop\<close> and \<^verbatim>\<open>Io_GetActive\<close> then index past the end of
  the table, and \<^verbatim>\<open>Io_SetValue\<close> drives line 32 (PB00) instead.
\<close>

theorem io_index_64:
  assumes "io_inv s"
  shows "Io_Start 64 lk s = None \<and> Io_Stop 64 s = None \<and> Io_GetActive 64 s = None \<and>
    Io_SetValue 64 v s = Io_SetValue 32 v s"
  using assms
  by (simp add: Io_Start_def Io_Stop_def Io_GetActive_def bad_index_def Io_SetValue_def
      set_line_def on_port_def line_mask_def)

theorem io_index_64_witness:
  "Io_Start 64 True io_boot = None \<and> Io_SetValue 64 True io_boot = Io_SetValue 32 True io_boot"
  using io_index_64 [OF io_boot_inv, of True True] by simp

text \<open>
  Releasing a batch of lines nobody took corrupts the table. \<^verbatim>\<open>Io_StopBits\<close> does not test
  the user count: an unused line's 7-bit count wraps to 127, the global count drops below the
  sum, and from then on every start of that line is refused.
\<close>

theorem io_StopBits_underflow:
  assumes "io_inv s" and "Io_users s = 0" and "n < 64"
  shows "\<exists>s'. Io_StopBits (2 ^ n) s = (CONTROLLER_OK, s') \<and>
    line_users s' (int n) = 127 \<and> Io_users s' = - 1 \<and>
    Io_Start (int n) lk s' = Some (CONTROLLER_ERROR_TOO_MANY_USERS, s')"
proof -
  have only: "Io_drop_loop (2 ^ n) True is s = s" if "n \<notin> set is" for "is" and s :: "'a io_state_scheme"
    using that by (induction "is" arbitrary: s) (auto simp: bit_exp_iff)
  have "[0..<64] = [0..<n] @ n # [Suc n..<64]"
    using upt_add_eq_append [of 0 n "64 - n"] assms(3) by (simp add: upt_conv_Cons)
  moreover have "Io_drop_loop b u (xs @ ys) t = Io_drop_loop b u ys (Io_drop_loop b u xs t)"
    for b u xs ys and t :: "'a io_state_scheme"
    by (induction xs arbitrary: t) auto
  ultimately have "Io_StopBits (2 ^ n) s = (CONTROLLER_OK, pin_drop True n s)"
    using assms(3) by (simp add: Io_StopBits_def only bit_exp_iff)
  moreover have "Io_pins s ! n = \<lparr>IoPin_users = 0, IoPin_lock = False\<rparr>"
    using assms by (rule io_inv_idle)
  moreover have "unat (- 1 :: 7 word) = 127" by code_simp
  ultimately show ?thesis
    using assms
    by (simp add: line_users_def io_line_def pin_drop_fields Io_Start_def bad_index_def
        pin_available_def)
qed

theorem io_StopBits_underflow_witness:
  "\<exists>s'. Io_StopBits (2 ^ 3) io_boot = (CONTROLLER_OK, s') \<and> line_users s' 3 = 127"
proof -
  have "Io_users io_boot = 0" by (simp add: io_boot_def Let_def)
  then show ?thesis using io_StopBits_underflow [OF io_boot_inv, of 3 True] by auto
qed

end
