(* ===== verification/FastTimer.thy ===== *)
theory FastTimer
  imports Io
begin

text \<open>
  The microsecond timer service, \<^verbatim>\<open>src/firmware/core/makingthings/fasttimer.c\<close> and its interrupt
  routine \<^verbatim>\<open>fasttimer_isr.c\<close>: the linked list of running entries, starting and cancelling an
  entry, and the interrupt that credits elapsed time, runs callbacks and programs the next
  compare value.

  Entries live in a heap indexed by address and are linked through \<open>fte_next\<close>; a null pointer
  is \<open>None\<close>. A callback is a code pointer, interpreted by the parameter \<open>cb\<close> of the interrupt
  routine as a function on the whole state. A loop over a list that has become cyclic does not
  end: the two list loops are \<^theory_text>\<open>partial_function (option)\<close>. The statistics counters compiled
  under \<^verbatim>\<open>FASTIRQ_STATS\<close> and the constant set-up of the timer and interrupt controller in
  \<^verbatim>\<open>FastTimer_Init\<close> are not modelled; entering and leaving a critical section is not a step of
  this sequential model.
\<close>

subsection \<open>State\<close>

record FastTimerEntry =
  fte_callback :: "nat option"
  fte_id :: "16 word"
  fte_timeCurrent :: int
  fte_timeInitial :: int
  fte_repeat :: bool
  fte_next :: "nat option"

record fasttimer_state = io_state +
  FT_users :: u8
  FT_running :: bool
  FT_servicing :: bool
  FT_nextTime :: int
  FT_first :: "nat option"
  FT_next :: "nat option"
  FT_previous :: "nat option"
  FT_heap :: "nat \<Rightarrow> FastTimerEntry"
  TC2_RC :: int
  TC2_clock :: bool
  TC0_CV :: int

abbreviation (input) FAST_TIMER_CYCLES_PER_US :: int where "FAST_TIMER_CYCLES_PER_US \<equiv> 6"
abbreviation (input) FASTTIMER_MARGIN :: int where "FASTTIMER_MARGIN \<equiv> 2"
abbreviation (input) FASTTIMER_MAXCOUNT :: int where "FASTTIMER_MAXCOUNT \<equiv> 0xFF00"
abbreviation (input) FASTTIMER_MINCOUNT :: int where "FASTTIMER_MINCOUNT \<equiv> 20"

definition upd_entry ::
  "nat \<Rightarrow> (FastTimerEntry \<Rightarrow> FastTimerEntry) \<Rightarrow> 'a fasttimer_state_scheme \<Rightarrow> 'a fasttimer_state_scheme" where
  "upd_entry a f s = s\<lparr>FT_heap := (FT_heap s)(a := f (FT_heap s a))\<rparr>"

subsection \<open>Activation\<close>

definition FastTimer_Init :: "'a fasttimer_state_scheme \<Rightarrow> 'a fasttimer_state_scheme" where
  "FastTimer_Init s = s\<lparr>FT_first := None, FT_running := False, FT_servicing := False,
                        TC2_RC := FASTTIMER_MAXCOUNT, TC2_clock := True\<rparr>"

text \<open>
  The user count is an unsigned \<^verbatim>\<open>char\<close> (the ARM default). Initialisation always succeeds and
  deactivation of the hardware is an empty function in the source.
\<close>

definition FastTimer_SetActive ::
  "bool \<Rightarrow> 'a fasttimer_state_scheme \<Rightarrow> status \<times> 'a fasttimer_state_scheme" where
  "FastTimer_SetActive active s =
     (if active then
        (let u = FT_users s; s = s\<lparr>FT_users := u + 1\<rparr>
         in (CONTROLLER_OK, if u = 0 then FastTimer_Init s else s))
      else (CONTROLLER_OK, s\<lparr>FT_users := FT_users s - 1\<rparr>))"

definition FastTimer_GetActive :: "'a fasttimer_state_scheme \<Rightarrow> bool" where
  "FastTimer_GetActive s \<longleftrightarrow> FT_users s > 0"

definition FastTimer_Enable :: "'a fasttimer_state_scheme \<Rightarrow> 'a fasttimer_state_scheme" where
  "FastTimer_Enable s = s\<lparr>TC2_clock := True, FT_running := True\<rparr>"

definition FastTimer_GetTimeTarget :: "'a fasttimer_state_scheme \<Rightarrow> int" where
  "FastTimer_GetTimeTarget s = TC2_RC s"

text \<open>The current time is read from counter 0, while the timer runs on counter 2.\<close>

definition FastTimer_GetTime :: "'a fasttimer_state_scheme \<Rightarrow> int" where
  "FastTimer_GetTime s = TC0_CV s"

definition FastTimer_SetTimeTarget ::
  "int \<Rightarrow> 'a fasttimer_state_scheme \<Rightarrow> 'a fasttimer_state_scheme" where
  "FastTimer_SetTimeTarget target s =
     s\<lparr>TC2_RC := if target < FASTTIMER_MAXCOUNT then target else FASTTIMER_MAXCOUNT\<rparr>"

subsection \<open>Entries\<close>

definition FastTimer_InitializeEntry ::
  "nat \<Rightarrow> nat option \<Rightarrow> int \<Rightarrow> int \<Rightarrow> bool \<Rightarrow> 'a fasttimer_state_scheme \<Rightarrow> 'a fasttimer_state_scheme" where
  "FastTimer_InitializeEntry a callback i timeUs rpt s =
     (let time = c_int (timeUs * FAST_TIMER_CYCLES_PER_US)
      in upd_entry a (\<lambda>_. \<lparr>fte_callback = callback, fte_id = word_of_int i, fte_timeCurrent = 0,
                           fte_timeInitial = time, fte_repeat = rpt, fte_next = None\<rparr>) s)"

definition FastTimer_SetTime ::
  "nat \<Rightarrow> int \<Rightarrow> 'a fasttimer_state_scheme \<Rightarrow> 'a fasttimer_state_scheme" where
  "FastTimer_SetTime a timeUs s =
     (let time = c_int (timeUs * FAST_TIMER_CYCLES_PER_US)
      in upd_entry a (\<lambda>e. e\<lparr>fte_timeCurrent := time, fte_timeInitial := time\<rparr>) s)"

definition FastTimer_start ::
  "nat \<Rightarrow> 'a fasttimer_state_scheme \<Rightarrow> 'a fasttimer_state_scheme" where
  "FastTimer_start a s =
     (if FT_running s then s
      else FastTimer_Enable
             (FastTimer_SetTimeTarget (fte_timeInitial (FT_heap s a)) (snd (FastTimer_SetActive True s))))"

definition FastTimer_link ::
  "nat \<Rightarrow> 'a fasttimer_state_scheme \<Rightarrow> 'a fasttimer_state_scheme" where
  "FastTimer_link a s =
     (let s = upd_entry a (\<lambda>e. e\<lparr>fte_timeCurrent := fte_timeInitial e\<rparr>) s;
          first = FT_first s
      in upd_entry a (\<lambda>e. e\<lparr>fte_next := first\<rparr>) (s\<lparr>FT_first := Some a\<rparr>))"

definition FastTimer_Set ::
  "nat \<Rightarrow> 'a fasttimer_state_scheme \<Rightarrow> status \<times> 'a fasttimer_state_scheme" where
  "FastTimer_Set a s0 =
     (let s = FastTimer_start a s0;
          target = FastTimer_GetTimeTarget s;
          timeCurrent = FastTimer_GetTime s;
          remaining = target - timeCurrent;
          s = FastTimer_link a s;
          t = fte_timeCurrent (FT_heap s a)
      in (CONTROLLER_OK,
          if \<not> FT_servicing s then
            (if t < remaining - FASTTIMER_MARGIN
             then FastTimer_SetTimeTarget (target - (remaining - t)) s
             else upd_entry a (\<lambda>e. e\<lparr>fte_timeCurrent := t + timeCurrent\<rparr>) s)
          else
            (let s = (if FT_previous s = None then s\<lparr>FT_previous := Some a\<rparr> else s)
             in if FT_nextTime s = - 1 \<or> FT_nextTime s > t then s\<lparr>FT_nextTime := t\<rparr> else s)))"

definition FastTimer_unlink ::
  "nat \<Rightarrow> nat option \<Rightarrow> 'a fasttimer_state_scheme \<Rightarrow> 'a fasttimer_state_scheme option" where
  "FastTimer_unlink a previousEntry s =
     (let nxt = fte_next (FT_heap s a)
      in do {
        s \<leftarrow> (if Some a = FT_first s then Some (s\<lparr>FT_first := nxt\<rparr>)
              else case previousEntry of None \<Rightarrow> None
                   | Some p \<Rightarrow> Some (upd_entry p (\<lambda>e. e\<lparr>fte_next := nxt\<rparr>) s));
        Some (if FT_servicing s then
          (let s = (if FT_previous s = Some a then s\<lparr>FT_previous := previousEntry\<rparr> else s)
           in if FT_next s = Some a then s\<lparr>FT_next := nxt\<rparr> else s) else s)
      })"

partial_function (option) FastTimer_Cancel_loop ::
  "nat \<Rightarrow> nat option \<Rightarrow> nat option \<Rightarrow> 'a fasttimer_state_scheme \<Rightarrow> 'a fasttimer_state_scheme option" where
  "FastTimer_Cancel_loop a te previousEntry s =
     (case te of
        None \<Rightarrow> Some s
      | Some e \<Rightarrow>
          (if e = a then
             do {
               s \<leftarrow> FastTimer_unlink a previousEntry s;
               FastTimer_Cancel_loop a (fte_next (FT_heap s a)) previousEntry s
             }
           else FastTimer_Cancel_loop a (fte_next (FT_heap s e)) (Some e) s))"

definition FastTimer_Cancel :: "nat \<Rightarrow> (status, 'a fasttimer_state_scheme) op" where
  "FastTimer_Cancel a s =
     map_option (\<lambda>s. (CONTROLLER_OK, s)) (FastTimer_Cancel_loop a (FT_first s) None s)"

subsection \<open>The interrupt routine\<close>

text \<open>
  \<open>cv k\<close> is the counter value at the \<open>k\<close>-th read of \<^verbatim>\<open>TC_CV\<close> in this interrupt. The flag
  \<open>removed\<close> is set when a one-shot entry is unlinked and is not cleared for the next entry.
\<close>

definition FastTimer_Isr_expire ::
  "nat \<Rightarrow> bool \<Rightarrow> 'a fasttimer_state_scheme \<Rightarrow> bool \<times> 'a fasttimer_state_scheme" where
  "FastTimer_Isr_expire a removed s =
     (if fte_repeat (FT_heap s a)
      then (removed, upd_entry a (\<lambda>e. e\<lparr>fte_timeCurrent := fte_timeCurrent e + fte_timeInitial e\<rparr>) s)
      else (True, case FT_previous s of
                    None \<Rightarrow> s\<lparr>FT_first := FT_next s\<rparr>
                  | Some p \<Rightarrow> upd_entry p (\<lambda>e. e\<lparr>fte_next := FT_next s\<rparr>) s))"

definition FastTimer_Isr_entry ::
  "(nat \<Rightarrow> int \<Rightarrow> 'a fasttimer_state_scheme \<Rightarrow> 'a fasttimer_state_scheme) \<Rightarrow> int \<Rightarrow> nat \<Rightarrow> bool \<Rightarrow>
   'a fasttimer_state_scheme \<Rightarrow> bool \<times> 'a fasttimer_state_scheme" where
  "FastTimer_Isr_entry cb elapsed a removed s0 =
     (let s = s0\<lparr>FT_next := fte_next (FT_heap s0 a)\<rparr>;
          s = upd_entry a (\<lambda>e. e\<lparr>fte_timeCurrent := fte_timeCurrent e - elapsed\<rparr>) s;
          (removed, s) =
            (if fte_timeCurrent (FT_heap s a) \<le> FASTTIMER_MINCOUNT then
               (let (removed, s) = FastTimer_Isr_expire a removed s
                in (removed, case fte_callback (FT_heap s a) of
                               None \<Rightarrow> s
                             | Some f \<Rightarrow> cb f (sint (fte_id (FT_heap s a))) s))
             else (removed, s))
      in if \<not> removed then
           (let t = fte_timeCurrent (FT_heap s a);
                s = (if FT_nextTime s = - 1 \<or> t < FT_nextTime s then s\<lparr>FT_nextTime := t\<rparr> else s)
            in (removed, s\<lparr>FT_previous := Some a\<rparr>))
         else (removed, s))"

partial_function (option) FastTimer_Isr_loop ::
  "(nat \<Rightarrow> int \<Rightarrow> 'a fasttimer_state_scheme \<Rightarrow> 'a fasttimer_state_scheme) \<Rightarrow> int \<Rightarrow> (nat \<Rightarrow> int) \<Rightarrow>
   nat \<Rightarrow> bool \<Rightarrow> nat option \<Rightarrow> 'a fasttimer_state_scheme \<Rightarrow> (nat \<times> 'a fasttimer_state_scheme) option" where
  "FastTimer_Isr_loop cb tref cv k removed te s =
     (case te of
        None \<Rightarrow> Some (k, s)
      | Some a \<Rightarrow>
          (case FastTimer_Isr_entry cb (tref + cv k) a removed s of
             (removed, s) \<Rightarrow> FastTimer_Isr_loop cb tref cv (Suc k) removed (FT_next s) s))"

definition FastTimer_Isr_program ::
  "int \<Rightarrow> int \<Rightarrow> 'a fasttimer_state_scheme \<Rightarrow> 'a fasttimer_state_scheme" where
  "FastTimer_Isr_program cv1 cv2 s =
     (if FT_first s \<noteq> None then
        (let s = (if FT_nextTime s > FASTTIMER_MAXCOUNT then s\<lparr>FT_nextTime := FASTTIMER_MAXCOUNT\<rparr> else s);
             s = (if FT_nextTime s < cv1 + 20 then s\<lparr>FT_nextTime := cv2 + 20\<rparr> else s)
         in s\<lparr>TC2_RC := FT_nextTime s\<rparr>)
      else s\<lparr>TC2_clock := False, FT_running := False\<rparr>)"

definition FastTimer_Isr ::
  "(nat \<Rightarrow> int \<Rightarrow> 'a fasttimer_state_scheme \<Rightarrow> 'a fasttimer_state_scheme) \<Rightarrow> bool \<Rightarrow> (nat \<Rightarrow> int) \<Rightarrow>
   'a fasttimer_state_scheme \<Rightarrow> 'a fasttimer_state_scheme option" where
  "FastTimer_Isr cb cpcs cv s =
     (if cpcs then
        (let tref = TC2_RC s;
             s = s\<lparr>FT_servicing := True, TC2_RC := FASTTIMER_MAXCOUNT,
                   FT_next := None, FT_previous := None, FT_nextTime := FASTTIMER_MAXCOUNT\<rparr>
         in do {
           (k, s) \<leftarrow> FastTimer_Isr_loop cb tref cv 0 False (FT_first s) s;
           Some ((FastTimer_Isr_program (cv k) (cv (Suc k)) s)\<lparr>FT_servicing := False\<rparr>)
         })
      else Some s)"

subsection \<open>The running list\<close>

primrec chain :: "(nat \<Rightarrow> FastTimerEntry) \<Rightarrow> nat option \<Rightarrow> nat list \<Rightarrow> bool" where
  "chain h p [] \<longleftrightarrow> p = None"
| "chain h p (a # as) \<longleftrightarrow> p = Some a \<and> chain h (fte_next (h a)) as"

definition running_list :: "'a fasttimer_state_scheme \<Rightarrow> nat list \<Rightarrow> bool" where
  "running_list s xs \<longleftrightarrow> chain (FT_heap s) (FT_first s) xs"

lemma chain_unique: "chain h p as \<Longrightarrow> chain h p bs \<Longrightarrow> as = bs"
proof (induction as arbitrary: p bs)
  case Nil
  then show ?case by (cases bs) auto
next
  case (Cons a as)
  then show ?case by (cases bs) auto
qed

lemma chain_frame:
  "\<forall>x \<in> set as. fte_next (h' x) = fte_next (h x) \<Longrightarrow> chain h' p as = chain h p as"
  by (induction as arbitrary: p) auto

lemma chain_upd [simp]: "a \<notin> set as \<Longrightarrow> chain (h(a := e)) p as = chain h p as"
  by (rule chain_frame) auto

lemma chain_upd_same: "fte_next e = fte_next (h a) \<Longrightarrow> chain (h(a := e)) p as = chain h p as"
  by (rule chain_frame) auto

lemma chain_mid: "chain h p (as @ b # bs) \<Longrightarrow> chain h (Some b) (b # bs)"
  by (induction as arbitrary: p) auto

lemma chain_distinct: "chain h p as \<Longrightarrow> distinct as"
proof (induction as arbitrary: p)
  case Nil
  then show ?case by simp
next
  case (Cons a as)
  have "a \<notin> set as"
  proof
    assume "a \<in> set as"
    then obtain us vs where as: "as = us @ a # vs" by (auto simp: in_set_conv_decomp)
    then have "chain h (Some a) (a # vs)" using Cons.prems chain_mid [of h p "a # us" a vs] by simp
    moreover have "chain h (Some a) (a # as)" using Cons.prems by simp
    ultimately have "vs = as" by (auto dest: chain_unique)
    with as show False by simp
  qed
  with Cons show ?case by auto
qed

text \<open>Unlinking \<open>b\<close> behind \<open>a\<close>: the node before it takes over its successor.\<close>

lemma chain_skip:
  assumes "chain h p (as @ a # b # bs)"
  shows "chain (h(a := (h a)\<lparr>fte_next := fte_next (h b)\<rparr>)) p (as @ a # bs)"
  using assms
proof (induction as arbitrary: p)
  case Nil
  then have "a \<notin> set bs" using chain_distinct [OF Nil] by auto
  then have "chain (h(a := (h a)\<lparr>fte_next := fte_next (h b)\<rparr>)) (fte_next (h b)) bs"
    using Nil by (subst chain_upd) auto
  then show ?case using Nil by (simp add: fun_upd_same del: fun_upd_apply)
next
  case (Cons c as)
  then have "c \<noteq> a" using chain_distinct [OF Cons.prems] by auto
  with Cons show ?case by simp
qed

lemma running_list_distinct: "running_list s xs \<Longrightarrow> distinct xs"
  by (simp add: running_list_def chain_distinct)

lemma FT_heap_upd_entry [simp]:
  "FT_heap (upd_entry a f s) = (FT_heap s)(a := f (FT_heap s a))"
  "FT_first (upd_entry a f s) = FT_first s"
  "FT_running (upd_entry a f s) = FT_running s"
  "FT_servicing (upd_entry a f s) = FT_servicing s"
  "FT_previous (upd_entry a f s) = FT_previous s"
  "FT_next (upd_entry a f s) = FT_next s"
  "FT_nextTime (upd_entry a f s) = FT_nextTime s"
  "FT_users (upd_entry a f s) = FT_users s"
  "TC2_RC (upd_entry a f s) = TC2_RC s"
  "TC2_clock (upd_entry a f s) = TC2_clock s"
  "TC0_CV (upd_entry a f s) = TC0_CV s"
  by (simp_all add: upd_entry_def)

subsection \<open>Starting an entry\<close>

lemma FastTimer_start_list:
  assumes "running_list s xs" and "\<not> FT_running s \<Longrightarrow> FT_users s = 0 \<Longrightarrow> xs = []"
  shows "running_list (FastTimer_start a s) xs"
  using assms
  by (auto simp: running_list_def FastTimer_start_def FastTimer_Enable_def FastTimer_SetTimeTarget_def
      FastTimer_SetActive_def FastTimer_Init_def Let_def)

lemma FastTimer_link_list:
  assumes "running_list s xs" and "a \<notin> set xs"
  shows "running_list (FastTimer_link a s) (a # xs)"
  using assms by (simp add: running_list_def FastTimer_link_def Let_def)

lemma FastTimer_start_running: "FT_running (FastTimer_start a s)"
  by (simp add: FastTimer_start_def FastTimer_Enable_def)

lemma FastTimer_link_fields [simp]:
  "FT_servicing (FastTimer_link a s) = FT_servicing s"
  "FT_running (FastTimer_link a s) = FT_running s"
  "FT_first (FastTimer_link a s) = Some a"
  "FT_next (FastTimer_link a s) = FT_next s"
  "FT_previous (FastTimer_link a s) = FT_previous s"
  "FT_nextTime (FastTimer_link a s) = FT_nextTime s"
  by (simp_all add: FastTimer_link_def Let_def)

lemma FastTimer_Set_list:
  assumes "running_list s xs" and "a \<notin> set xs"
    and "\<not> FT_running s \<Longrightarrow> FT_users s = 0 \<Longrightarrow> xs = []"
  shows "running_list (snd (FastTimer_Set a s)) (a # xs)" and "FT_running (snd (FastTimer_Set a s))"
proof -
  let ?t = "FastTimer_link a (FastTimer_start a s)"
  have l: "running_list ?t (a # xs)"
    using assms by (intro FastTimer_link_list FastTimer_start_list)
  show "running_list (snd (FastTimer_Set a s)) (a # xs)"
    using l
    by (simp add: FastTimer_Set_def Let_def running_list_def FastTimer_SetTimeTarget_def chain_upd_same
        del: chain.simps)
  show "FT_running (snd (FastTimer_Set a s))"
    using FastTimer_start_running [of a s]
    by (simp add: FastTimer_Set_def Let_def FastTimer_SetTimeTarget_def)
qed

subsection \<open>Cancelling an entry\<close>

lemma Cancel_loop_absent:
  "chain (FT_heap s) te ys \<Longrightarrow> a \<notin> set ys \<Longrightarrow> FastTimer_Cancel_loop a te pe s = Some s"
proof (induction ys arbitrary: te pe)
  case Nil
  then show ?case by (simp add: FastTimer_Cancel_loop.simps)
next
  case (Cons y ys)
  then show ?case by (subst FastTimer_Cancel_loop.simps) simp
qed

text \<open>The pointers the interrupt routine keeps while a callback runs.\<close>

definition servicing_fix :: "nat \<Rightarrow> nat option \<Rightarrow> nat option \<Rightarrow> 'a fasttimer_state_scheme \<Rightarrow> 'a fasttimer_state_scheme" where
  "servicing_fix a pe nxt s =
     (if FT_servicing s then
        (let s = (if FT_previous s = Some a then s\<lparr>FT_previous := pe\<rparr> else s)
         in if FT_next s = Some a then s\<lparr>FT_next := nxt\<rparr> else s) else s)"

lemma servicing_fix_fields [simp]:
  "FT_heap (servicing_fix a pe nxt s) = FT_heap s"
  "FT_first (servicing_fix a pe nxt s) = FT_first s"
  "FT_running (servicing_fix a pe nxt s) = FT_running s"
  "FT_servicing (servicing_fix a pe nxt s) = FT_servicing s"
  "FT_users (servicing_fix a pe nxt s) = FT_users s"
  by (simp_all add: servicing_fix_def Let_def)

text \<open>What unlinking \<open>a\<close> does to a list where it follows \<open>us\<close>.\<close>

definition unlinked :: "nat \<Rightarrow> nat list \<Rightarrow> 'a fasttimer_state_scheme \<Rightarrow> 'a fasttimer_state_scheme" where
  "unlinked a us s =
     (let nxt = fte_next (FT_heap s a)
      in if us = [] then servicing_fix a None nxt (s\<lparr>FT_first := nxt\<rparr>)
         else servicing_fix a (Some (last us)) nxt
                (upd_entry (last us) (\<lambda>e. e\<lparr>fte_next := nxt\<rparr>) s))"

lemma unlinked_fields [simp]:
  "FT_running (unlinked a us s) = FT_running s"
  "FT_users (unlinked a us s) = FT_users s"
  "FT_servicing (unlinked a us s) = FT_servicing s"
  by (simp_all add: unlinked_def Let_def)

lemma unlinked_list:
  assumes "running_list s (us @ a # vs)"
  shows "running_list (unlinked a us s) (us @ vs)"
proof (cases us rule: rev_cases)
  case Nil
  then show ?thesis using assms by (simp add: running_list_def unlinked_def Let_def)
next
  case (snoc ws w)
  then show ?thesis
    using assms chain_skip [of "FT_heap s" "FT_first s" ws w a vs]
    by (simp add: running_list_def unlinked_def Let_def)
qed

lemma Cancel_loop_found:
  assumes "running_list s (us @ ws @ a # vs)" and "pe = (if us = [] then None else Some (last us))"
  shows "FastTimer_Cancel_loop a (Some (hd (ws @ [a]))) pe s = Some (unlinked a (us @ ws) s)"
  using assms
proof (induction ws arbitrary: us pe)
  case Nil
  let ?l = "running_list s (us @ a # vs)"
  have l: ?l using Nil by simp
  have d: "distinct (us @ a # vs)" using l by (rule running_list_distinct)
  have first: "(Some a = FT_first s) = (us = [])"
    using l d by (cases us) (auto simp: running_list_def)
  have un: "FastTimer_unlink a pe s = Some (unlinked a us s)"
    using Nil.prems(2) first
    by (auto simp: FastTimer_unlink_def unlinked_def servicing_fix_def Let_def)
  have "a \<noteq> last us" if "us \<noteq> []" using that d by (auto dest: last_in_set)
  then have nxt: "fte_next (FT_heap (unlinked a us s) a) = fte_next (FT_heap s a)"
    by (simp add: unlinked_def Let_def)
  have "chain (FT_heap s) (fte_next (FT_heap s a)) vs"
    using l chain_mid [of "FT_heap s" "FT_first s" us a vs] by (simp add: running_list_def)
  moreover have "\<forall>x \<in> set vs. fte_next (FT_heap (unlinked a us s) x) = fte_next (FT_heap s x)"
    using d by (auto simp: unlinked_def Let_def dest: last_in_set)
  ultimately have "chain (FT_heap (unlinked a us s)) (fte_next (FT_heap s a)) vs"
    using chain_frame by blast
  then show ?case
    using d un nxt by (simp add: FastTimer_Cancel_loop.simps [of a "Some a"] Cancel_loop_absent)
next
  case (Cons w ws)
  have d: "distinct (us @ w # ws @ a # vs)"
    using running_list_distinct [OF Cons.prems(1)] by simp
  have "chain (FT_heap s) (Some w) (w # ws @ a # vs)"
    using Cons.prems(1) chain_mid [of "FT_heap s" "FT_first s" us w "ws @ a # vs"]
    by (simp add: running_list_def)
  then have "fte_next (FT_heap s w) = Some (hd (ws @ [a]))" by (cases ws) auto
  then show ?case
    using d Cons.IH [of "us @ [w]"] Cons.prems
    by (simp add: FastTimer_Cancel_loop.simps [of a "Some w"])
qed

lemma FastTimer_Cancel_list:
  assumes "running_list s xs"
  shows "\<exists>s'. FastTimer_Cancel a s = Some (CONTROLLER_OK, s') \<and> running_list s' (removeAll a xs)"
proof (cases "a \<in> set xs")
  case False
  then have "FastTimer_Cancel a s = Some (CONTROLLER_OK, s)"
    using assms by (simp add: FastTimer_Cancel_def running_list_def Cancel_loop_absent)
  then show ?thesis using assms False by (simp add: removeAll_id)
next
  case True
  then obtain us vs where xs: "xs = us @ a # vs" by (auto simp: in_set_conv_decomp)
  then have d: "distinct (us @ a # vs)"
    using running_list_distinct [OF assms] by simp
  have first: "FT_first s = Some (hd (us @ [a]))"
    using assms xs by (cases us) (auto simp: running_list_def)
  have "FastTimer_Cancel_loop a (FT_first s) None s = Some (unlinked a us s)"
    using Cancel_loop_found [of s "[]" us a vs None] assms xs by (simp add: first)
  moreover have "removeAll a xs = us @ vs" using d xs by (simp add: removeAll_id)
  ultimately show ?thesis
    using unlinked_list [of s us a vs] assms xs by (simp add: FastTimer_Cancel_def)
qed

subsection \<open>One interrupt over repeating entries\<close>

text \<open>
  The specification of an interrupt: every entry is charged the elapsed time, an entry that has
  run out is reloaded, and the callbacks of those that ran out are called in list order.
\<close>

definition due :: "int \<Rightarrow> FastTimerEntry \<Rightarrow> bool" where
  "due elapsed e \<longleftrightarrow> fte_timeCurrent e - elapsed \<le> FASTTIMER_MINCOUNT"

definition charge :: "int \<Rightarrow> FastTimerEntry \<Rightarrow> FastTimerEntry" where
  "charge elapsed e =
     e\<lparr>fte_timeCurrent :=
         fte_timeCurrent e - elapsed + (if due elapsed e then fte_timeInitial e else 0)\<rparr>"

fun charge_all :: "int \<Rightarrow> (nat \<Rightarrow> int) \<Rightarrow> nat \<Rightarrow> nat list \<Rightarrow> (nat \<Rightarrow> FastTimerEntry) \<Rightarrow> nat \<Rightarrow> FastTimerEntry" where
  "charge_all tref cv k [] h = h"
| "charge_all tref cv k (a # as) h =
     charge_all tref cv (Suc k) as (h(a := charge (tref + cv k) (h a)))"

fun fired :: "int \<Rightarrow> (nat \<Rightarrow> int) \<Rightarrow> nat \<Rightarrow> nat list \<Rightarrow> (nat \<Rightarrow> FastTimerEntry) \<Rightarrow> (nat \<times> int) list" where
  "fired tref cv k [] h = []"
| "fired tref cv k (a # as) h =
     (if due (tref + cv k) (h a)
      then (case fte_callback (h a) of None \<Rightarrow> [] | Some f \<Rightarrow> [(f, sint (fte_id (h a)))]) else [])
     @ fired tref cv (Suc k) as h"

fun earliest :: "int \<Rightarrow> int list \<Rightarrow> int" where
  "earliest m [] = m"
| "earliest m (t # ts) = earliest (if m = - 1 \<or> t < m then t else m) ts"

definition ft_part where
  "ft_part s = (FT_heap s, FT_first s, FT_next s, FT_previous s, FT_nextTime s, FT_servicing s,
                FT_running s, TC2_RC s, TC2_clock s)"

definition app_part :: "'a fasttimer_state_scheme \<Rightarrow> io_state \<times> 'a" where
  "app_part s = (io_state.truncate s, fasttimer_state.more s)"

text \<open>
  A callback that leaves the timer service alone, seen through an observation of the rest of
  the state: calling \<open>f\<close> with \<open>i\<close> takes the observation through \<open>step f i\<close>.
\<close>

definition quiet ::
  "(nat \<Rightarrow> int \<Rightarrow> 'a fasttimer_state_scheme \<Rightarrow> 'a fasttimer_state_scheme) \<Rightarrow> bool" where
  "quiet cb \<longleftrightarrow> (\<forall>f i s. ft_part (cb f i s) = ft_part s)"

definition observes ::
  "('a fasttimer_state_scheme \<Rightarrow> 'o) \<Rightarrow> (nat \<Rightarrow> int \<Rightarrow> 'o \<Rightarrow> 'o) \<Rightarrow>
   (nat \<Rightarrow> int \<Rightarrow> 'a fasttimer_state_scheme \<Rightarrow> 'a fasttimer_state_scheme) \<Rightarrow> bool" where
  "observes obs step cb \<longleftrightarrow>
     (\<forall>s t. app_part s = app_part t \<longrightarrow> obs s = obs t) \<and>
     (\<forall>f i s. obs (cb f i s) = step f i (obs s))"

lemma app_part_FT [simp]:
  "app_part (upd_entry a f s) = app_part s"
  "app_part (s\<lparr>FT_next := x\<rparr>) = app_part s"
  "app_part (s\<lparr>FT_previous := x\<rparr>) = app_part s"
  "app_part (s\<lparr>FT_nextTime := t\<rparr>) = app_part s"
  "app_part (s\<lparr>FT_servicing := b\<rparr>) = app_part s"
  "app_part (s\<lparr>FT_running := b\<rparr>) = app_part s"
  "app_part (s\<lparr>TC2_RC := t\<rparr>) = app_part s"
  "app_part (s\<lparr>TC2_clock := b\<rparr>) = app_part s"
  by (simp_all add: app_part_def upd_entry_def io_state.truncate_def)

lemma observesD:
  assumes "observes obs step cb"
  shows "app_part s = app_part t \<Longrightarrow> obs s = obs t" and "obs (cb f i s) = step f i (obs s)"
  using assms unfolding observes_def by blast+

lemma quietD:
  assumes "quiet cb"
  shows "FT_heap (cb f i s) = FT_heap s" "FT_first (cb f i s) = FT_first s"
    "FT_next (cb f i s) = FT_next s" "FT_previous (cb f i s) = FT_previous s"
    "FT_nextTime (cb f i s) = FT_nextTime s" "FT_servicing (cb f i s) = FT_servicing s"
    "FT_running (cb f i s) = FT_running s" "TC2_RC (cb f i s) = TC2_RC s"
    "TC2_clock (cb f i s) = TC2_clock s"
  using assms by (auto simp: quiet_def ft_part_def)

definition call_back where
  "call_back cb a s = (case fte_callback (FT_heap s a) of
     None \<Rightarrow> s | Some f \<Rightarrow> cb f (sint (fte_id (FT_heap s a))) s)"

lemma call_back_ft [simp]:
  assumes "quiet cb"
  shows "FT_heap (call_back cb a s) = FT_heap s" "FT_first (call_back cb a s) = FT_first s"
    "FT_next (call_back cb a s) = FT_next s" "FT_previous (call_back cb a s) = FT_previous s"
    "FT_nextTime (call_back cb a s) = FT_nextTime s" "FT_servicing (call_back cb a s) = FT_servicing s"
    "FT_running (call_back cb a s) = FT_running s" "TC2_RC (call_back cb a s) = TC2_RC s"
    "TC2_clock (call_back cb a s) = TC2_clock s"
  using quietD [OF assms] by (auto simp: call_back_def split: option.splits)

lemma Isr_entry_repeat:
  assumes "fte_repeat (FT_heap s a)" and "quiet cb" and "observes obs step cb"
  shows "\<exists>s'. FastTimer_Isr_entry cb el a False s = (False, s') \<and>
    FT_heap s' = (FT_heap s)(a := charge el (FT_heap s a)) \<and>
    FT_first s' = FT_first s \<and> FT_next s' = fte_next (FT_heap s a) \<and> FT_running s' = FT_running s \<and>
    FT_nextTime s' = earliest (FT_nextTime s) [fte_timeCurrent (charge el (FT_heap s a))] \<and>
    obs s' = fold (\<lambda>(f, i). step f i) (fired el (\<lambda>_. 0) 0 [a] (FT_heap s)) (obs s)"
proof -
  let ?s1 = "upd_entry a (\<lambda>e. e\<lparr>fte_timeCurrent := fte_timeCurrent e - el\<rparr>)
     (s\<lparr>FT_next := fte_next (FT_heap s a)\<rparr>)"
  let ?s2 = "upd_entry a (\<lambda>e. e\<lparr>fte_timeCurrent := fte_timeCurrent e + fte_timeInitial e\<rparr>) ?s1"
  let ?s3 = "if due el (FT_heap s a) then call_back cb a ?s2 else ?s1"
  let ?t = "fte_timeCurrent (FT_heap ?s3 a)"
  let ?s4 = "(if FT_nextTime ?s3 = - 1 \<or> ?t < FT_nextTime ?s3
    then ?s3\<lparr>FT_nextTime := ?t\<rparr> else ?s3)\<lparr>FT_previous := Some a\<rparr>"
  have obs12: "obs ?s2 = obs s" "obs ?s1 = obs s" "obs ?s4 = obs ?s3"
    using assms(3) by (auto intro: observesD(1))
  have ent: "FastTimer_Isr_entry cb el a False s = (False, ?s4)"
    using assms(1)
    by (simp add: FastTimer_Isr_entry_def FastTimer_Isr_expire_def Let_def due_def call_back_def)
  have h: "FT_heap ?s3 = (FT_heap s)(a := charge el (FT_heap s a))"
    using assms(2) by (simp add: charge_def)
  have "obs ?s3 = fold (\<lambda>(f, i). step f i) (fired el (\<lambda>_. 0) 0 [a] (FT_heap s)) (obs s)"
    using obs12 observesD(2) [OF assms(3)] by (simp add: call_back_def split: option.splits)
  then show ?thesis
    using ent h obs12(3) assms(2) by (intro exI [of _ ?s4]) simp
qed

lemma charge_fields [simp]:
  "fte_next (charge el e) = fte_next e" "fte_repeat (charge el e) = fte_repeat e"
  "fte_callback (charge el e) = fte_callback e" "fte_id (charge el e) = fte_id e"
  "fte_timeInitial (charge el e) = fte_timeInitial e"
  by (simp_all add: charge_def)

lemma charge_all_other: "x \<notin> set as \<Longrightarrow> charge_all tref cv k as h x = h x"
  by (induction as arbitrary: k h) auto

lemma charge_all_nth:
  "distinct as \<Longrightarrow> j < length as \<Longrightarrow>
   charge_all tref cv k as h (as ! j) = charge (tref + cv (k + j)) (h (as ! j))"
proof (induction as arbitrary: j k h)
  case Nil
  then show ?case by simp
next
  case (Cons a as)
  show ?case
  proof (cases j)
    case 0
    then show ?thesis using Cons.prems by (simp add: charge_all_other)
  next
    case (Suc n)
    then have "as ! n \<noteq> a" using Cons.prems by auto
    then show ?thesis using Suc Cons.prems by (simp add: Cons.IH)
  qed
qed

lemma fired_frame:
  "\<forall>x \<in> set as. h x = g x \<Longrightarrow> fired tref cv k as h = fired tref cv k as g"
  by (induction as arbitrary: k) (auto split: option.split)

lemma fired_shift:
  "fired tref cv k (a # as) h = fired (tref + cv k) (\<lambda>_. 0) 0 [a] h @ fired tref cv (Suc k) as h"
  by simp

lemma Isr_loop_repeat:
  assumes "chain (FT_heap s) te as" and "\<forall>a \<in> set as. fte_repeat (FT_heap s a)"
    and "quiet cb" and "observes obs step cb"
  shows "\<exists>s'. FastTimer_Isr_loop cb tref cv k False te s = Some (k + length as, s') \<and>
    FT_heap s' = charge_all tref cv k as (FT_heap s) \<and> FT_first s' = FT_first s \<and>
    FT_running s' = FT_running s \<and>
    FT_nextTime s' = earliest (FT_nextTime s)
      (map (\<lambda>a. fte_timeCurrent (charge_all tref cv k as (FT_heap s) a)) as) \<and>
    obs s' = fold (\<lambda>(f, i). step f i) (fired tref cv k as (FT_heap s)) (obs s)"
  using assms(1,2)
proof (induction as arbitrary: te s k)
  case Nil
  then show ?case by (simp add: FastTimer_Isr_loop.simps)
next
  case (Cons a as)
  have a: "a \<notin> set as" using chain_distinct [OF Cons.prems(1)] by simp
  obtain s1 where ent: "FastTimer_Isr_entry cb (tref + cv k) a False s = (False, s1)"
    and h: "FT_heap s1 = (FT_heap s)(a := charge (tref + cv k) (FT_heap s a))"
    and f: "FT_first s1 = FT_first s" and n: "FT_next s1 = fte_next (FT_heap s a)"
    and r: "FT_running s1 = FT_running s"
    and t: "FT_nextTime s1 = earliest (FT_nextTime s) [fte_timeCurrent (charge (tref + cv k) (FT_heap s a))]"
    and o1: "obs s1 = fold (\<lambda>(f, i). step f i) (fired (tref + cv k) (\<lambda>_. 0) 0 [a] (FT_heap s)) (obs s)"
    using Isr_entry_repeat [OF _ assms(3,4), of s a "tref + cv k"] Cons.prems(2) by auto
  have "chain (FT_heap s1) (FT_next s1) as" using Cons.prems(1) a h n by simp
  moreover have "\<forall>b \<in> set as. fte_repeat (FT_heap s1 b)" using Cons.prems(2) h by simp
  ultimately obtain s' where s': "FastTimer_Isr_loop cb tref cv (Suc k) False (FT_next s1) s1
      = Some (Suc k + length as, s')"
    and h': "FT_heap s' = charge_all tref cv (Suc k) as (FT_heap s1)"
    and f': "FT_first s' = FT_first s1" and r': "FT_running s' = FT_running s1"
    and t': "FT_nextTime s' = earliest (FT_nextTime s1)
      (map (\<lambda>a. fte_timeCurrent (charge_all tref cv (Suc k) as (FT_heap s1) a)) as)"
    and o': "obs s' = fold (\<lambda>(f, i). step f i) (fired tref cv (Suc k) as (FT_heap s1)) (obs s1)"
    using Cons.IH by blast
  have "te = Some a" using Cons.prems(1) by simp
  then have "FastTimer_Isr_loop cb tref cv k False te s = Some (k + length (a # as), s')"
    using s' ent by (subst FastTimer_Isr_loop.simps) simp
  moreover have "FT_heap s' = charge_all tref cv k (a # as) (FT_heap s)" using h' h by simp
  moreover have "FT_nextTime s' = earliest (FT_nextTime s)
      (map (\<lambda>b. fte_timeCurrent (charge_all tref cv k (a # as) (FT_heap s) b)) (a # as))"
    using t' t h a by (simp add: charge_all_other)
  moreover have "fired tref cv (Suc k) as (FT_heap s1) = fired tref cv (Suc k) as (FT_heap s)"
    using h a by (intro fired_frame) auto
  then have "obs s' = fold (\<lambda>(f, i). step f i) (fired tref cv k (a # as) (FT_heap s)) (obs s)"
    using o' o1 by (simp only: fired_shift [of tref cv k] fold_append comp_def)
  ultimately show ?case using f' f r' r by auto
qed

lemma earliest_Min:
  "\<forall>t \<in> set ts. 0 \<le> t \<Longrightarrow> 0 \<le> m \<Longrightarrow> earliest m ts = Min (insert m (set ts))"
proof (induction m ts rule: earliest.induct)
  case (1 m)
  then show ?case by simp
next
  case (2 m t ts)
  have "insert m (set (t # ts)) = insert m (insert t (set ts))" by simp
  moreover have "Min (insert m (insert t (set ts))) = Min (insert (min m t) (set ts))"
    by (cases "ts = []") (simp_all add: min.assoc)
  moreover have "(if m = - 1 \<or> t < m then t else m) = min m t" using "2.prems" by auto
  ultimately show ?case using "2.IH" "2.prems" by simp
qed

lemma charge_all_chain:
  "chain h p as \<Longrightarrow> chain (charge_all tref cv k bs h) p as"
proof -
  have "fte_next (charge_all tref cv k bs h x) = fte_next (h x)" for x
    by (induction bs arbitrary: k h) auto
  then show "chain h p as \<Longrightarrow> chain (charge_all tref cv k bs h) p as"
    using chain_frame [of as "charge_all tref cv k bs h" h p] by simp
qed

subsection \<open>The contract of the timer service\<close>

text \<open>
  Starting and cancelling entries, seen as operations on the list of running entries.
\<close>

datatype timer_op = Set_timer nat | Cancel_timer nat

fun spec_timer_op :: "timer_op \<Rightarrow> nat list \<Rightarrow> nat list" where
  "spec_timer_op (Set_timer a) xs = a # xs"
| "spec_timer_op (Cancel_timer a) xs = removeAll a xs"

fun legal_timer_ops :: "timer_op list \<Rightarrow> nat list \<Rightarrow> bool" where
  "legal_timer_ops [] xs \<longleftrightarrow> True"
| "legal_timer_ops (c # cs) xs \<longleftrightarrow>
     (case c of Set_timer a \<Rightarrow> a \<notin> set xs | Cancel_timer a \<Rightarrow> True) \<and>
     legal_timer_ops cs (spec_timer_op c xs)"

fun timer_exec :: "timer_op \<Rightarrow> 'a fasttimer_state_scheme \<Rightarrow> 'a fasttimer_state_scheme option" where
  "timer_exec (Set_timer a) s = Some (snd (FastTimer_Set a s))"
| "timer_exec (Cancel_timer a) s = map_option snd (FastTimer_Cancel a s)"

fun timer_run :: "timer_op list \<Rightarrow> 'a fasttimer_state_scheme \<Rightarrow> 'a fasttimer_state_scheme option" where
  "timer_run [] s = Some s"
| "timer_run (c # cs) s = Option.bind (timer_exec c s) (timer_run cs)"

locale timer_queue =
  fixes exec :: "timer_op \<Rightarrow> 's \<Rightarrow> 's option"
    and queue :: "'s \<Rightarrow> nat list \<Rightarrow> bool"
    and live :: "'s \<Rightarrow> bool"
  assumes set_queue: "queue s xs \<Longrightarrow> live s \<Longrightarrow> a \<notin> set xs \<Longrightarrow>
      \<exists>s'. exec (Set_timer a) s = Some s' \<and> queue s' (a # xs) \<and> live s'"
    and cancel_queue: "queue s xs \<Longrightarrow> live s \<Longrightarrow>
      \<exists>s'. exec (Cancel_timer a) s = Some s' \<and> queue s' (removeAll a xs) \<and> live s'"
    and queue_unique: "queue s xs \<Longrightarrow> queue s ys \<Longrightarrow> xs = ys"
begin

lemma exec_refines:
  assumes "queue s xs" and "live s" and "legal_timer_ops [c] xs"
  shows "\<exists>s'. exec c s = Some s' \<and> queue s' (spec_timer_op c xs) \<and> live s'"
  using assms set_queue cancel_queue by (cases c) auto

lemma cancel_after_set:
  assumes "queue s xs" and "live s" and "a \<notin> set xs"
  shows "\<exists>s' s''. exec (Set_timer a) s = Some s' \<and> exec (Cancel_timer a) s' = Some s'' \<and> queue s'' xs"
proof -
  obtain s' where s': "exec (Set_timer a) s = Some s'" "queue s' (a # xs)" "live s'"
    using set_queue [OF assms] by blast
  obtain s'' where "exec (Cancel_timer a) s' = Some s''" "queue s'' (removeAll a (a # xs))"
    using cancel_queue [OF s'(2,3)] by blast
  then show ?thesis using s' assms(3) by (auto simp: removeAll_id)
qed

end

lemma running_list_unique: "running_list s xs \<Longrightarrow> running_list s ys \<Longrightarrow> xs = ys"
  by (auto simp: running_list_def intro: chain_unique)

lemma FastTimer_Cancel_cases:
  assumes "running_list s xs" and "FastTimer_Cancel a s = Some (r, s')"
  shows "s' = s \<or> (\<exists>us. s' = unlinked a us s)"
proof (cases "a \<in> set xs")
  case False
  then show ?thesis
    using assms by (simp add: FastTimer_Cancel_def running_list_def Cancel_loop_absent)
next
  case True
  then obtain us vs where xs: "xs = us @ a # vs" by (auto simp: in_set_conv_decomp)
  have "FT_first s = Some (hd (us @ [a]))" using assms(1) xs by (cases us) (auto simp: running_list_def)
  then have "FastTimer_Cancel_loop a (FT_first s) None s = Some (unlinked a us s)"
    using Cancel_loop_found [of s "[]" us a vs None] assms(1) xs by simp
  then show ?thesis using assms(2) by (auto simp: FastTimer_Cancel_def)
qed

lemma FastTimer_Cancel_running:
  assumes "running_list s xs" and "FastTimer_Cancel a s = Some (r, s')"
  shows "FT_running s' = FT_running s"
proof (cases "a \<in> set xs")
  case False
  with assms show ?thesis by (auto simp: FastTimer_Cancel_def running_list_def Cancel_loop_absent)
next
  case True
  then obtain us vs where xs: "xs = us @ a # vs" by (auto simp: in_set_conv_decomp)
  have "FT_first s = Some (hd (us @ [a]))"
    using assms xs by (cases us) (auto simp: running_list_def)
  then have "FastTimer_Cancel_loop a (FT_first s) None s = Some (unlinked a us s)"
    using Cancel_loop_found [of s "[]" us a vs None] assms(1) xs by simp
  then show ?thesis using assms(2) by (auto simp: FastTimer_Cancel_def)
qed

interpretation ft: timer_queue timer_exec running_list FT_running
proof unfold_locales
  fix s :: "'a fasttimer_state_scheme" and xs a
  assume s: "running_list s xs" "FT_running s"
  show "\<exists>s'. timer_exec (Set_timer a) s = Some s' \<and> running_list s' (a # xs) \<and> FT_running s'"
    if "a \<notin> set xs"
    using FastTimer_Set_list [OF s(1) that] s(2) by simp
  show "\<exists>s'. timer_exec (Cancel_timer a) s = Some s' \<and> running_list s' (removeAll a xs) \<and> FT_running s'"
  proof -
    obtain s' where s': "FastTimer_Cancel a s = Some (CONTROLLER_OK, s')" "running_list s' (removeAll a xs)"
      using FastTimer_Cancel_list [OF s(1)] by blast
    then show ?thesis using FastTimer_Cancel_running [OF s(1) s'(1)] s(2) by simp
  qed
qed (rule running_list_unique)

lemma timer_run_refines:
  assumes "running_list s xs" and "FT_running s" and "legal_timer_ops cs xs"
  shows "\<exists>s'. timer_run cs s = Some s' \<and> running_list s' (fold spec_timer_op cs xs) \<and> FT_running s'"
  using assms
proof (induction cs arbitrary: s xs)
  case Nil
  then show ?case by simp
next
  case (Cons c cs)
  then obtain s1 where "timer_exec c s = Some s1" "running_list s1 (spec_timer_op c xs)" "FT_running s1"
    using ft.exec_refines [of s xs c] by (auto split: timer_op.splits)
  then show ?case using Cons.IH [of s1 "spec_timer_op c xs"] Cons.prems(3) by simp
qed

subsection \<open>A concrete service\<close>

definition idle_entry :: FastTimerEntry where
  "idle_entry = \<lparr>fte_callback = None, fte_id = 0, fte_timeCurrent = 0, fte_timeInitial = 0,
                 fte_repeat = True, fte_next = None\<rparr>"

definition ft_boot :: fasttimer_state where
  "ft_boot = fasttimer_state.extend (io_state.extend io_boot
     (fasttimer_state.fields 0 False False 0 None None None (\<lambda>_. idle_entry) 0 False 0)) ()"

lemma ft_boot_fields [simp]:
  "FT_users ft_boot = 0" "FT_running ft_boot = False" "FT_servicing ft_boot = False"
  "FT_first ft_boot = None" "FT_heap ft_boot = (\<lambda>_. idle_entry)" "TC2_RC ft_boot = 0" "TC0_CV ft_boot = 0"
  by (simp_all add: ft_boot_def fasttimer_state.defs io_state.defs)

text \<open>Evaluating the interrupt loop on a concrete list: one step per entry, then the end.\<close>

lemma Isr_loop_None [simp]: "FastTimer_Isr_loop cb tref cv k removed None s = Some (k, s)"
  by (simp add: FastTimer_Isr_loop.simps)

lemma Isr_loop_Some [simp]:
  "FastTimer_Isr_loop cb tref cv k removed (Some a) s =
     (case FastTimer_Isr_entry cb (tref + cv k) a removed s of
        (removed, s) \<Rightarrow> FastTimer_Isr_loop cb tref cv (Suc k) removed (FT_next s) s)"
  by (simp add: FastTimer_Isr_loop.simps)

lemma program_RC:
  "FT_first s \<noteq> None \<Longrightarrow> FT_nextTime s \<le> FASTTIMER_MAXCOUNT \<Longrightarrow>
   TC2_RC (FastTimer_Isr_program c1 c2 s) = (if FT_nextTime s < c1 + 20 then c2 + 20 else FT_nextTime s)"
  by (simp add: FastTimer_Isr_program_def Let_def)

subsection \<open>Properties\<close>

text \<open>
  C2: the running list. Any sequence of \<^verbatim>\<open>FastTimer_Set\<close> and \<^verbatim>\<open>FastTimer_Cancel\<close> calls that never
  starts an entry already running succeeds, and the linked list in memory is the one the same
  calls give on an abstract list: a start puts the entry in front, a cancel removes it wherever
  it is.
\<close>

theorem fasttimer_list_refinement:
  assumes "running_list s xs" and "FT_running s" and "legal_timer_ops cs xs"
  shows "\<exists>s'. timer_run cs s = Some s' \<and> running_list s' (fold spec_timer_op cs xs)"
  using timer_run_refines [OF assms] by blast

theorem fasttimer_list_refinement_witness:
  "\<exists>s'. timer_run [Set_timer 2, Set_timer 3, Cancel_timer 1] (snd (FastTimer_Set 1 ft_boot)) = Some s' \<and>
    running_list s' [3, 2]"
proof -
  have "running_list ft_boot []" by (simp add: running_list_def)
  then have "running_list (snd (FastTimer_Set 1 ft_boot)) [1]" "FT_running (snd (FastTimer_Set 1 ft_boot))"
    using FastTimer_Set_list [of ft_boot "[]" 1] by simp_all
  from fasttimer_list_refinement [OF this, of "[Set_timer 2, Set_timer 3, Cancel_timer 1]"]
  show ?thesis by simp
qed

text \<open>
  C7: one interrupt. When every running entry repeats and the callbacks leave the timer service
  alone, the interrupt routine ends, keeps the list, charges every entry the elapsed time and
  reloads those that ran out, calls exactly their callbacks in list order, and, if no entry is
  overdue after that, programs the compare register with the earliest remaining time, clamped
  to 0xFF00 above and to 20 counts from now below.
\<close>

theorem fasttimer_isr_repeating:
  assumes "running_list s xs" and "xs \<noteq> []" and "\<forall>a \<in> set xs. fte_repeat (FT_heap s a)"
    and "quiet cb" and "observes obs step cb"
  shows "\<exists>s'. FastTimer_Isr cb True cv s = Some s' \<and> running_list s' xs \<and> \<not> FT_servicing s' \<and>
    (\<forall>j < length xs. FT_heap s' (xs ! j) = charge (TC2_RC s + cv j) (FT_heap s (xs ! j))) \<and>
    obs s' = fold (\<lambda>(f, i). step f i) (fired (TC2_RC s) cv 0 xs (FT_heap s)) (obs s) \<and>
    ((\<forall>a \<in> set xs. 0 \<le> fte_timeCurrent (FT_heap s' a)) \<longrightarrow>
      (let m = Min (insert FASTTIMER_MAXCOUNT ((\<lambda>a. fte_timeCurrent (FT_heap s' a)) ` set xs))
       in TC2_RC s' = (if m < cv (length xs) + 20 then cv (Suc (length xs)) + 20 else m)))"
proof -
  let ?s0 = "s\<lparr>FT_servicing := True, TC2_RC := FASTTIMER_MAXCOUNT, FT_next := None, FT_previous := None,
     FT_nextTime := FASTTIMER_MAXCOUNT\<rparr>"
  obtain s1 where s1: "FastTimer_Isr_loop cb (TC2_RC s) cv 0 False (FT_first s) ?s0 = Some (length xs, s1)"
    and h: "FT_heap s1 = charge_all (TC2_RC s) cv 0 xs (FT_heap s)" and f: "FT_first s1 = FT_first s"
    and t: "FT_nextTime s1 = earliest FASTTIMER_MAXCOUNT
      (map (\<lambda>a. fte_timeCurrent (charge_all (TC2_RC s) cv 0 xs (FT_heap s) a)) xs)"
    and o1: "obs s1 = fold (\<lambda>(f, i). step f i) (fired (TC2_RC s) cv 0 xs (FT_heap s)) (obs ?s0)"
    using Isr_loop_repeat [of ?s0 "FT_first s" xs cb obs step "TC2_RC s" cv 0] assms
    by (auto simp: running_list_def)
  let ?s2 = "FastTimer_Isr_program (cv (length xs)) (cv (Suc (length xs))) s1"
  let ?s' = "?s2\<lparr>FT_servicing := False\<rparr>"
  have first: "FT_first s1 \<noteq> None" using f assms(1,2) by (cases xs) (auto simp: running_list_def)
  have p: "FT_heap ?s2 = FT_heap s1" "FT_first ?s2 = FT_first s1" "app_part ?s2 = app_part s1"
    by (simp_all add: FastTimer_Isr_program_def Let_def)
  have run: "FastTimer_Isr cb True cv s = Some ?s'" using s1 by (simp add: FastTimer_Isr_def Let_def)
  have "obs ?s' = obs s1" "obs ?s0 = obs s" using p assms(5) by (auto intro: observesD(1))
  moreover have "running_list ?s' xs"
    using assms(1) p h f by (simp add: running_list_def charge_all_chain)
  moreover have "\<forall>j < length xs. FT_heap ?s' (xs ! j) = charge (TC2_RC s + cv j) (FT_heap s (xs ! j))"
    using p h running_list_distinct [OF assms(1)] by (simp add: charge_all_nth)
  moreover have "(\<forall>a \<in> set xs. 0 \<le> fte_timeCurrent (FT_heap ?s' a)) \<longrightarrow>
      (let m = Min (insert FASTTIMER_MAXCOUNT ((\<lambda>a. fte_timeCurrent (FT_heap ?s' a)) ` set xs))
       in TC2_RC ?s' = (if m < cv (length xs) + 20 then cv (Suc (length xs)) + 20 else m))"
  proof
    assume nn: "\<forall>a \<in> set xs. 0 \<le> fte_timeCurrent (FT_heap ?s' a)"
    let ?m = "Min (insert FASTTIMER_MAXCOUNT ((\<lambda>a. fte_timeCurrent (FT_heap ?s' a)) ` set xs))"
    have m: "FT_nextTime s1 = ?m" using nn t p h by (simp add: earliest_Min)
    have "?m \<le> FASTTIMER_MAXCOUNT" by (rule Min_le) simp_all
    then have "FT_nextTime s1 \<le> FASTTIMER_MAXCOUNT" using m by (simp only:)
    then have "TC2_RC ?s' = (if FT_nextTime s1 < cv (length xs) + 20 then cv (Suc (length xs)) + 20
        else FT_nextTime s1)"
      using program_RC [OF first] by simp
    then show "let m = ?m in TC2_RC ?s' = (if m < cv (length xs) + 20 then cv (Suc (length xs)) + 20 else m)"
      unfolding Let_def m .
  qed
  ultimately show ?thesis using run o1 by (intro exI [of _ ?s']) simp
qed

text \<open>A single repeating entry with callback 7 that is due now, on a running service.\<close>

definition ft_one :: fasttimer_state where
  "ft_one = ft_boot\<lparr>FT_running := True, FT_first := Some 5, TC2_RC := 600,
     FT_heap := (\<lambda>_. idle_entry)(5 := \<lparr>fte_callback = Some 7, fte_id = 0, fte_timeCurrent = 600,
       fte_timeInitial = 600, fte_repeat = True, fte_next = None\<rparr>)\<rparr>"

definition count_calls :: "nat \<Rightarrow> int \<Rightarrow> fasttimer_state \<Rightarrow> fasttimer_state" where
  "count_calls f i s = s\<lparr>PMC_PCSR := PMC_PCSR s + 1\<rparr>"

lemma count_calls_quiet: "quiet count_calls"
  by (simp add: quiet_def ft_part_def count_calls_def)

lemma count_calls_observes: "observes PMC_PCSR (\<lambda>f i n. n + 1) count_calls"
  by (auto simp: observes_def app_part_def io_state.truncate_def count_calls_def)

theorem fasttimer_isr_repeating_witness:
  "\<exists>s'. FastTimer_Isr count_calls True (\<lambda>_. 0) ft_one = Some s' \<and> running_list s' [5] \<and>
    fte_timeCurrent (FT_heap s' 5) = 600 \<and> PMC_PCSR s' = PMC_PCSR ft_one + 1 \<and> TC2_RC s' = 600"
proof -
  have l: "running_list ft_one [5]" "\<forall>a \<in> set [5]. fte_repeat (FT_heap ft_one a)"
    by (simp_all add: running_list_def ft_one_def)
  have ne: "[5] \<noteq> ([] :: nat list)" by simp
  obtain s' where s': "FastTimer_Isr count_calls True (\<lambda>_. 0) ft_one = Some s'" "running_list s' [5]"
    and h: "\<forall>j < length [5 :: nat]. FT_heap s' ([5] ! j) = charge (TC2_RC ft_one + 0) (FT_heap ft_one ([5] ! j))"
    and c: "PMC_PCSR s' = fold (\<lambda>(f, i) n. n + 1) (fired (TC2_RC ft_one) (\<lambda>_. 0) 0 [5] (FT_heap ft_one))
        (PMC_PCSR ft_one)"
    and rc: "(\<forall>a \<in> set [5]. 0 \<le> fte_timeCurrent (FT_heap s' a)) \<longrightarrow>
      (let m = Min (insert 0xFF00 ((\<lambda>a. fte_timeCurrent (FT_heap s' a)) ` set [5]))
       in TC2_RC s' = (if m < 0 + 20 then 0 + 20 else m))"
    using fasttimer_isr_repeating [OF l(1) ne l(2) count_calls_quiet count_calls_observes, of "\<lambda>_. 0"]
    by (elim exE conjE) (rule that; assumption)
  have c': "PMC_PCSR s' = PMC_PCSR ft_one + 1" using c by (simp add: ft_one_def due_def)
  have "fte_timeCurrent (FT_heap s' 5) = 600" using h by (simp add: charge_def due_def ft_one_def)
  then show ?thesis using s' c' rc by (simp add: Let_def)
qed

subsection \<open>Two expiring one-shot entries lose the entries between them\<close>

lemma Isr_entry_oneshot:
  assumes "\<not> fte_repeat (FT_heap s a)" and "due el (FT_heap s a)" and "quiet cb"
    and "FT_previous s = None"
  shows "\<exists>s'. FastTimer_Isr_entry cb el a removed s = (True, s') \<and> FT_first s' = fte_next (FT_heap s a) \<and>
    FT_previous s' = None \<and> FT_next s' = fte_next (FT_heap s a) \<and>
    (\<forall>x. x \<noteq> a \<longrightarrow> FT_heap s' x = FT_heap s x) \<and> FT_running s' = FT_running s"
proof -
  let ?s1 = "upd_entry a (\<lambda>e. e\<lparr>fte_timeCurrent := fte_timeCurrent e - el\<rparr>)
     (s\<lparr>FT_next := fte_next (FT_heap s a)\<rparr>)"
  let ?s2 = "?s1\<lparr>FT_first := FT_next ?s1\<rparr>"
  have "FastTimer_Isr_entry cb el a removed s = (True, call_back cb a ?s2)"
    using assms by (simp add: FastTimer_Isr_entry_def FastTimer_Isr_expire_def Let_def due_def call_back_def)
  then show ?thesis using assms(3,4) by simp
qed

lemma Isr_entry_after_removal:
  assumes "fte_repeat (FT_heap s a)" and "quiet cb"
  shows "\<exists>s'. FastTimer_Isr_entry cb el a True s = (True, s') \<and> FT_first s' = FT_first s \<and>
    FT_previous s' = FT_previous s \<and> FT_next s' = fte_next (FT_heap s a) \<and>
    (\<forall>x. x \<noteq> a \<longrightarrow> FT_heap s' x = FT_heap s x) \<and> FT_running s' = FT_running s"
proof -
  let ?s1 = "upd_entry a (\<lambda>e. e\<lparr>fte_timeCurrent := fte_timeCurrent e - el\<rparr>)
     (s\<lparr>FT_next := fte_next (FT_heap s a)\<rparr>)"
  let ?s2 = "upd_entry a (\<lambda>e. e\<lparr>fte_timeCurrent := fte_timeCurrent e + fte_timeInitial e\<rparr>) ?s1"
  let ?s3 = "if due el (FT_heap s a) then call_back cb a ?s2 else ?s1"
  have "FastTimer_Isr_entry cb el a True s = (True, ?s3)"
    using assms by (simp add: FastTimer_Isr_entry_def FastTimer_Isr_expire_def Let_def due_def call_back_def)
  then show ?thesis using assms(2) by (intro exI [of _ ?s3]) simp
qed

text \<open>
  A repeating entry can be lost. The flag \<open>removed\<close> is not reset for each entry, so when two
  one-shot entries run out in one interrupt, the second is unlinked as if it were the first of
  the list: a repeating entry between them silently stops, and here the whole timer is
  switched off.
\<close>

theorem fasttimer_isr_loses_entry:
  assumes "running_list s [a, b, c]" and "quiet cb"
    and "\<not> fte_repeat (FT_heap s a)" and "due (TC2_RC s + cv 0) (FT_heap s a)"
    and "fte_repeat (FT_heap s b)"
    and "\<not> fte_repeat (FT_heap s c)" and "due (TC2_RC s + cv 2) (FT_heap s c)"
  shows "\<exists>s'. FastTimer_Isr cb True cv s = Some s' \<and> running_list s' [] \<and> \<not> FT_running s'"
proof -
  let ?s0 = "s\<lparr>FT_servicing := True, TC2_RC := FASTTIMER_MAXCOUNT, FT_next := None, FT_previous := None,
     FT_nextTime := FASTTIMER_MAXCOUNT\<rparr>"
  have ch: "FT_first s = Some a" "fte_next (FT_heap s a) = Some b" "fte_next (FT_heap s b) = Some c"
    "fte_next (FT_heap s c) = None" and d: "distinct [a, b, c]"
    using assms(1) running_list_distinct [OF assms(1)] by (auto simp: running_list_def)
  obtain s1 where s1: "FastTimer_Isr_entry cb (TC2_RC s + cv 0) a False ?s0 = (True, s1)"
    "FT_previous s1 = None" "FT_next s1 = Some b" "\<forall>x. x \<noteq> a \<longrightarrow> FT_heap s1 x = FT_heap s x"
    using Isr_entry_oneshot [of ?s0 a "TC2_RC s + cv 0" cb False] assms ch by auto
  obtain s2 where s2: "FastTimer_Isr_entry cb (TC2_RC s + cv 1) b True s1 = (True, s2)"
    "FT_previous s2 = None" "FT_next s2 = Some c" "\<forall>x. x \<noteq> b \<longrightarrow> FT_heap s2 x = FT_heap s1 x"
    using Isr_entry_after_removal [of s1 b cb "TC2_RC s + cv 1"] assms ch d s1 by auto
  obtain s3 where s3: "FastTimer_Isr_entry cb (TC2_RC s + cv 2) c True s2 = (True, s3)"
    "FT_first s3 = None" "FT_next s3 = None"
    using Isr_entry_oneshot [of s2 c "TC2_RC s + cv 2" cb True] assms ch d s1 s2 by auto
  have "FastTimer_Isr_loop cb (TC2_RC s) cv 0 False (FT_first s) ?s0 = Some (3, s3)"
    using s1 s2 s3 ch by (simp add: numeral_2_eq_2)
  then show ?thesis
    using s3 by (simp add: FastTimer_Isr_def Let_def FastTimer_Isr_program_def running_list_def)
qed

definition oneshot :: "nat option \<Rightarrow> FastTimerEntry" where
  "oneshot n = idle_entry\<lparr>fte_repeat := False, fte_next := n\<rparr>"

theorem fasttimer_isr_loses_entry_witness:
  "let s = ft_boot\<lparr>FT_running := True, FT_first := Some 1,
       FT_heap := (\<lambda>_. idle_entry)(1 := oneshot (Some 2), 2 := idle_entry\<lparr>fte_next := Some 3\<rparr>, 3 := oneshot None)\<rparr>
   in running_list s [1, 2, 3] \<and>
      (\<exists>s'. FastTimer_Isr count_calls True (\<lambda>_. 0) s = Some s' \<and> running_list s' [] \<and> \<not> FT_running s')"
proof -
  let ?s = "ft_boot\<lparr>FT_running := True, FT_first := Some 1,
    FT_heap := (\<lambda>_. idle_entry)(1 := oneshot (Some 2), 2 := idle_entry\<lparr>fte_next := Some 3\<rparr>, 3 := oneshot None)\<rparr>"
  have l: "running_list ?s [1, 2, 3]" by (simp add: running_list_def oneshot_def idle_entry_def)
  show ?thesis
    using l fasttimer_isr_loses_entry [OF l count_calls_quiet, of "\<lambda>_. 0"]
    by (simp add: Let_def oneshot_def idle_entry_def due_def)
qed

subsection \<open>Starting an entry twice\<close>

lemma Cancel_loop_cycle:
  assumes "FT_first s = Some a" and "fte_next (FT_heap s a) = Some a"
  shows "FastTimer_Cancel_loop a (Some a) pe s = None"
proof (rule ccontr)
  assume "FastTimer_Cancel_loop a (Some a) pe s \<noteq> None"
  then obtain r where ret: "FastTimer_Cancel_loop a (Some a) pe s = Some r" by blast
  have "\<not> (Some a = Some a \<and> FT_first s = Some a \<and> fte_next (FT_heap s a) = Some a)"
  proof (rule FastTimer_Cancel_loop.raw_induct
      [where P = "\<lambda>a te pe s r. \<not> (te = Some a \<and> FT_first s = Some a \<and> fte_next (FT_heap s a) = Some a)",
       OF _ ret])
    fix f a te pe and s r :: "'a fasttimer_state_scheme"
    assume IH: "\<And>a te pe s r. f a te pe s = Some r \<Longrightarrow>
        \<not> (te = Some a \<and> FT_first s = Some a \<and> fte_next (FT_heap s a) = Some a)"
      and eq: "(case te of None \<Rightarrow> Some s
        | Some e \<Rightarrow> if e = a then Option.bind (FastTimer_unlink a pe s)
              (\<lambda>s. f a (fte_next (FT_heap s a)) pe s)
            else f a (fte_next (FT_heap s e)) (Some e) s) = Some r"
    show "\<not> (te = Some a \<and> FT_first s = Some a \<and> fte_next (FT_heap s a) = Some a)"
    proof
      assume c: "te = Some a \<and> FT_first s = Some a \<and> fte_next (FT_heap s a) = Some a"
      let ?s' = "servicing_fix a pe (Some a) (s\<lparr>FT_first := Some a\<rparr>)"
      have "FastTimer_unlink a pe s = Some ?s'"
        using c by (simp add: FastTimer_unlink_def servicing_fix_def Let_def)
      then have "f a (Some a) pe ?s' = Some r" using eq c by simp
      then show False using IH [of a "Some a" pe ?s' r] c by simp
    qed
  qed
  then show False using assms by simp
qed

text \<open>
  An entry started twice makes a cycle. If the entry at the head of the list is started
  again, it becomes its own successor, and cancelling it never returns.
\<close>

theorem fasttimer_double_set_hangs:
  assumes "FT_first s = Some a" and "FT_running s"
  shows "fte_next (FT_heap (snd (FastTimer_Set a s)) a) = Some a \<and>
    FastTimer_Cancel a (snd (FastTimer_Set a s)) = None"
proof -
  let ?t = "snd (FastTimer_Set a s)"
  have st: "FastTimer_start a s = s" using assms(2) by (simp add: FastTimer_start_def)
  have f: "FT_first ?t = Some a"
    by (simp add: FastTimer_Set_def Let_def FastTimer_SetTimeTarget_def st)
  have n: "fte_next (FT_heap ?t a) = Some a"
    using assms(1) by (simp add: FastTimer_Set_def Let_def FastTimer_SetTimeTarget_def st FastTimer_link_def)
  show ?thesis using Cancel_loop_cycle [OF f n] f n by (simp add: FastTimer_Cancel_def)
qed

theorem fasttimer_double_set_hangs_witness:
  "FastTimer_Cancel 5 (snd (FastTimer_Set 5 ft_one)) = None"
  using fasttimer_double_set_hangs [of ft_one 5] by (simp add: ft_one_def)

subsection \<open>The user count wraps\<close>

definition activate :: "'a fasttimer_state_scheme \<Rightarrow> 'a fasttimer_state_scheme" where
  "activate s = snd (FastTimer_SetActive True s)"

lemma activate_users: "FT_users ((activate ^^ n) s) = FT_users s + of_nat n"
  by (induction n) (simp_all add: activate_def FastTimer_SetActive_def FastTimer_Init_def Let_def)

lemma activate_first_None: "FT_first s = None \<Longrightarrow> FT_first ((activate ^^ n) s) = None"
  by (induction n) (simp_all add: activate_def FastTimer_SetActive_def FastTimer_Init_def Let_def)

text \<open>
  The eight-bit user count wraps. After 256 activations with no deactivation, one of them
  saw a count of zero and reinitialised the service: whatever timers were running, the list is
  empty. The monitor board activates the service once per packet it echoes.
\<close>

theorem fasttimer_activation_wraps: "running_list ((activate ^^ 256) s) []"
proof -
  let ?k = "unat (- FT_users s)"
  have k: "?k < 256" using unsigned_less [of "- FT_users s"] by simp
  have "FT_users ((activate ^^ ?k) s) = 0" by (simp add: activate_users)
  then have "FT_first ((activate ^^ Suc ?k) s) = None"
    by (simp add: activate_def FastTimer_SetActive_def FastTimer_Init_def Let_def)
  moreover have "(activate ^^ 256) s = (activate ^^ (255 - ?k)) ((activate ^^ Suc ?k) s)"
    using k by (simp add: funpow_add [symmetric, THEN fun_cong, simplified comp_def] del: funpow.simps)
  ultimately show ?thesis using activate_first_None by (metis chain.simps(1) running_list_def)
qed

end
