(* ===== verification/Leds.thy ===== *)
theory Leds
  imports FastTimer
begin

text \<open>
  The status LEDs: the controller board's LED (\<^verbatim>\<open>src/firmware/core/makingthings/led.c\<close>) and the four
  of the application board (\<^verbatim>\<open>src/firmware/libraries/appled/appled.c\<close>), for controller and
  application boards of version 100. Each takes its I/O line exclusively on first use and
  counts its users. The contract of such a counted device is stated as a locale, shared with
  the digital outputs and inputs.
\<close>

subsection \<open>Counted devices\<close>

primrec device_run ::
  "('s \<Rightarrow> (status \<times> 's) option) \<Rightarrow> ('s \<Rightarrow> (status \<times> 's) option) \<Rightarrow> bool list \<Rightarrow> 's \<Rightarrow> 's option" where
  "device_run start stop [] s = Some s"
| "device_run start stop (b # bs) s =
     Option.bind (if b then start s else stop s) (\<lambda>(r, s). device_run start stop bs s)"

primrec count_users :: "bool list \<Rightarrow> int \<Rightarrow> int" where
  "count_users [] n = n"
| "count_users (b # bs) n = count_users bs (if b then n + 1 else max 0 (n - 1))"

locale counted_device =
  fixes start :: "'s \<Rightarrow> (status \<times> 's) option"
    and stop :: "'s \<Rightarrow> (status \<times> 's) option"
    and users :: "'s \<Rightarrow> int"
    and free :: "'s \<Rightarrow> bool"
    and inv :: "'s \<Rightarrow> bool"
  assumes start_step: "inv s \<Longrightarrow> \<exists>r s'. start s = Some (r, s') \<and> inv s' \<and>
      users s' = users s + of_bool (r = CONTROLLER_OK)"
    and start_again: "inv s \<Longrightarrow> users s > 0 \<Longrightarrow> \<exists>s'. start s = Some (CONTROLLER_OK, s')"
    and stop_step: "inv s \<Longrightarrow> users s > 0 \<Longrightarrow>
      \<exists>s'. stop s = Some (CONTROLLER_OK, s') \<and> inv s' \<and> users s' = users s - 1"
    and stop_idle: "inv s \<Longrightarrow> users s = 0 \<Longrightarrow> stop s = Some (CONTROLLER_ERROR_TOO_MANY_STOPS, s)"
    and users_nonneg: "inv s \<Longrightarrow> users s \<ge> 0"
    and start_free: "inv s \<Longrightarrow> users s = 0 \<Longrightarrow> free s \<Longrightarrow> \<exists>s'. start s = Some (CONTROLLER_OK, s')"
    and stop_free: "inv s \<Longrightarrow> users s = 1 \<Longrightarrow> stop s = Some (r, s') \<Longrightarrow> free s'"
begin

abbreviation "run \<equiv> device_run start stop"

lemma run_ok: "inv s \<Longrightarrow> \<exists>s'. run bs s = Some s' \<and> inv s'"
proof (induction bs arbitrary: s)
  case Nil
  then show ?case by simp
next
  case (Cons b bs)
  obtain r s1 where "(if b then start s else stop s) = Some (r, s1)" "inv s1"
    using start_step [OF Cons.prems] stop_step [OF Cons.prems] stop_idle [OF Cons.prems]
      users_nonneg [OF Cons.prems] Cons.prems by (cases "b"; cases "users s = 0") auto
  then show ?case using Cons.IH [of s1] by simp
qed

lemma start_counts:
  assumes "inv s" and "users s = 0 \<Longrightarrow> free s"
  shows "\<exists>s'. start s = Some (CONTROLLER_OK, s') \<and> inv s' \<and> users s' = users s + 1"
proof -
  have "\<exists>s'. start s = Some (CONTROLLER_OK, s')"
    using start_free [OF assms(1)] start_again [OF assms(1)] assms(2) users_nonneg [OF assms(1)]
    by (cases "users s = 0") auto
  then show ?thesis using start_step [OF assms(1)] by auto
qed

lemma stop_counts:
  assumes "inv s" and "users s = 0 \<Longrightarrow> free s"
  shows "\<exists>r s'. stop s = Some (r, s') \<and> inv s' \<and> users s' = max 0 (users s - 1) \<and>
    (users s' = 0 \<longrightarrow> free s')"
proof (cases "users s = 0")
  case True
  then show ?thesis using stop_idle [OF assms(1)] assms by auto
next
  case False
  then have pos: "users s > 0" using users_nonneg [OF assms(1)] by simp
  then show ?thesis using stop_step [OF assms(1)] stop_free [OF assms(1)] by fastforce
qed

theorem run_counts:
  assumes "inv s" and "users s = 0 \<Longrightarrow> free s"
  shows "\<exists>s'. run bs s = Some s' \<and> inv s' \<and> users s' = count_users bs (users s) \<and>
    (users s' = 0 \<longrightarrow> free s')"
  using assms
proof (induction bs arbitrary: s)
  case Nil
  then show ?case by simp
next
  case (Cons b bs)
  show ?case
  proof (cases b)
    case True
    obtain t where "start s = Some (CONTROLLER_OK, t)" "inv t" "users t = users s + 1"
      using start_counts [OF Cons.prems] by blast
    then show ?thesis using Cons.IH [of t] users_nonneg [OF Cons.prems(1)] True by simp
  next
    case False
    obtain r t where "stop s = Some (r, t)" "inv t" "users t = max 0 (users s - 1)"
      "users t = 0 \<longrightarrow> free t" using stop_counts [OF Cons.prems] by blast
    then show ?thesis using Cons.IH [of t] False by simp
  qed
qed

end

subsection \<open>State\<close>

record leds_state = fasttimer_state +
  Led_users :: int
  AppLed_users :: "int list"

abbreviation (input) LED_IO :: int where "LED_IO \<equiv> 12"
abbreviation (input) APPLED_COUNT :: int where "APPLED_COUNT \<equiv> 4"

subsection \<open>The controller board's LED\<close>

definition Led_Start :: "(status, 'a leds_state_scheme) op" where
  "Led_Start s =
     (if Led_users s = 0 then
        do {
          (r, s) \<leftarrow> Io_Start LED_IO True s;
          if r \<noteq> CONTROLLER_OK then Some (r, s)
          else let s = snd (Io_SetValue LED_IO False s);
                   s = snd (Io_SetPio LED_IO True s);
                   s = snd (Io_SetDirection LED_IO True s)
               in Some (CONTROLLER_OK, s\<lparr>Led_users := Led_users s + 1\<rparr>)
        }
      else Some (CONTROLLER_OK, s\<lparr>Led_users := Led_users s + 1\<rparr>))"

definition Led_Stop :: "(status, 'a leds_state_scheme) op" where
  "Led_Stop s =
     (if Led_users s = 1 then
        do {
          (_, s) \<leftarrow> Io_Stop LED_IO s;
          let s = snd (Io_SetValue LED_IO False s);
              s = snd (Io_SetPio LED_IO True s);
              s = snd (Io_SetDirection LED_IO True s)
          in Some (CONTROLLER_OK, s\<lparr>Led_users := Led_users s - 1\<rparr>)
        }
      else Some (CONTROLLER_OK, s\<lparr>Led_users := Led_users s - 1\<rparr>))"

definition Led_SetActive :: "int \<Rightarrow> (status, 'a leds_state_scheme) op" where
  "Led_SetActive state s = (if state \<noteq> 0 then Led_Start s else Led_Stop s)"

definition Led_GetActive :: "'a leds_state_scheme \<Rightarrow> bool" where
  "Led_GetActive s \<longleftrightarrow> Led_users s > 0"

definition Led_SetState :: "int \<Rightarrow> (status, 'a leds_state_scheme) op" where
  "Led_SetState state s =
     do {
       (r, s) \<leftarrow> (if Led_users s = 0 then Led_Start s else Some (CONTROLLER_OK, s));
       if r \<noteq> CONTROLLER_OK then Some (r, s) else Some (Io_SetValue LED_IO (state = 0) s)
     }"

definition Led_GetState :: "(int, 'a leds_state_scheme) op" where
  "Led_GetState s =
     do {
       (r, s) \<leftarrow> (if Led_users s = 0 then Led_Start s else Some (CONTROLLER_OK, s));
       if r \<noteq> CONTROLLER_OK then Some (r, s)
       else Some (if Io_GetValue LED_IO s \<noteq> 0 then 0 else 1, s)
     }"

definition LedOsc_PropertySet :: "int \<Rightarrow> int \<Rightarrow> (status, 'a leds_state_scheme) op" where
  "LedOsc_PropertySet property v s =
     map_option (\<lambda>(_, s). (CONTROLLER_OK, s))
       (if property = 0 then Led_SetActive v s
        else if property = 1 then Led_SetState v s
        else Some (CONTROLLER_OK, s))"

definition LedOsc_PropertyGet :: "int \<Rightarrow> (int, 'a leds_state_scheme) op" where
  "LedOsc_PropertyGet property s =
     (if property = 0 then Some (of_bool (Led_GetActive s), s)
      else if property = 1 then Led_GetState s
      else Some (0, s))"

subsection \<open>The application board's LEDs\<close>

definition AppLed_GetIo :: "int \<Rightarrow> int" where
  "AppLed_GetIo index =
     (if index = 0 then 15 else if index = 1 then 13 else if index = 2 then 28
      else if index = 3 then 27 else - 1)"

definition appled_add :: "int \<Rightarrow> int \<Rightarrow> 'a leds_state_scheme \<Rightarrow> 'a leds_state_scheme" where
  "appled_add index d s =
     s\<lparr>AppLed_users := (AppLed_users s)[nat index := AppLed_users s ! nat index + d]\<rparr>"

definition AppLed_Start :: "int \<Rightarrow> (status, 'a leds_state_scheme) op" where
  "AppLed_Start index s =
     (let u = AppLed_users s ! nat index; s = appled_add index 1 s
      in if u = 0 then
           (let io = AppLed_GetIo index in
            do {
              (r, s) \<leftarrow> Io_Start io True s;
              if r \<noteq> CONTROLLER_OK then Some (CONTROLLER_ERROR_CANT_LOCK, appled_add index (- 1) s)
              else let s = snd (Io_SetPio io True s);
                       s = snd (Io_SetValue io True s);
                       s = snd (Io_SetDirection io True s)
                   in Some (CONTROLLER_OK, s)
            })
         else Some (CONTROLLER_OK, s))"

definition AppLed_Stop :: "int \<Rightarrow> (status, 'a leds_state_scheme) op" where
  "AppLed_Stop index s =
     (if AppLed_users s ! nat index < 1 then Some (CONTROLLER_ERROR_TOO_MANY_STOPS, s)
      else let s = appled_add index (- 1) s
           in if AppLed_users s ! nat index = 0
              then map_option (\<lambda>(_, s). (CONTROLLER_OK, s)) (Io_Stop (AppLed_GetIo index) s)
              else Some (CONTROLLER_OK, s))"

definition AppLed_SetActive :: "int \<Rightarrow> int \<Rightarrow> (status, 'a leds_state_scheme) op" where
  "AppLed_SetActive index state s =
     (if index < 0 \<or> index \<ge> APPLED_COUNT then Some (CONTROLLER_ERROR_ILLEGAL_INDEX, s)
      else if state \<noteq> 0 then AppLed_Start index s else AppLed_Stop index s)"

definition AppLed_GetActive :: "int \<Rightarrow> 'a leds_state_scheme \<Rightarrow> bool" where
  "AppLed_GetActive index s \<longleftrightarrow>
     \<not> (index < 0 \<or> index \<ge> APPLED_COUNT) \<and> AppLed_users s ! nat index > 0"

definition AppLed_SetState :: "int \<Rightarrow> int \<Rightarrow> (status, 'a leds_state_scheme) op" where
  "AppLed_SetState index state s =
     (if index < 0 \<or> index \<ge> APPLED_COUNT then Some (CONTROLLER_ERROR_ILLEGAL_INDEX, s)
      else do {
        (r, s) \<leftarrow> (if AppLed_users s ! nat index < 1 then AppLed_Start index s else Some (CONTROLLER_OK, s));
        if r \<noteq> CONTROLLER_OK then Some (r, s)
        else Some (CONTROLLER_OK, snd (Io_SetValue (AppLed_GetIo index) (state = 0) s))
      })"

definition AppLed_GetState :: "int \<Rightarrow> (int, 'a leds_state_scheme) op" where
  "AppLed_GetState index s =
     (if index < 0 \<or> index \<ge> APPLED_COUNT then Some (0, s)
      else do {
        (r, s) \<leftarrow> (if AppLed_users s ! nat index < 1 then AppLed_Start index s else Some (CONTROLLER_OK, s));
        if r \<noteq> CONTROLLER_OK then Some (r, s)
        else Some (if Io_GetValue (AppLed_GetIo index) s \<noteq> 0 then 0 else 1, s)
      })"

definition AppLedOsc_PropertySet :: "int \<Rightarrow> int \<Rightarrow> int \<Rightarrow> (status, 'a leds_state_scheme) op" where
  "AppLedOsc_PropertySet index property v s =
     map_option (\<lambda>(_, s). (CONTROLLER_OK, s))
       (if property = 0 then AppLed_SetActive index v s
        else if property = 1 then AppLed_SetState index v s
        else Some (CONTROLLER_OK, s))"

definition AppLedOsc_PropertyGet :: "int \<Rightarrow> int \<Rightarrow> (int, 'a leds_state_scheme) op" where
  "AppLedOsc_PropertyGet index property s =
     (if property = 0 then Some (of_bool (AppLed_GetActive index s), s)
      else if property = 1 then AppLed_GetState index s
      else Some (0, s))"

subsection \<open>The users of an LED hold its line\<close>

lemma io_frame_leds [simp]:
  "AppLed_users (snd (set_line w i s)) = AppLed_users s"
  "Led_users (snd (set_line w i s)) = Led_users s"
  "Io_Start i lk s = Some (r, s') \<Longrightarrow> AppLed_users s' = AppLed_users s"
  "Io_Start i lk s = Some (r, s') \<Longrightarrow> Led_users s' = Led_users s"
  "Io_Stop i s = Some (r, s') \<Longrightarrow> AppLed_users s' = AppLed_users s"
  "Io_Stop i s = Some (r, s') \<Longrightarrow> Led_users s' = Led_users s"
  by (auto simp: set_line_def on_port_def Io_Start_def Io_Stop_def pin_take_def pin_drop_def
      Io_Init_def Io_Deinit_def Let_def split: if_splits)

lemma io_setters_leds [simp]:
  "AppLed_users (snd (Io_SetValue i v s)) = AppLed_users s"
  "AppLed_users (snd (Io_SetPio i v s)) = AppLed_users s"
  "AppLed_users (snd (Io_SetDirection i v s)) = AppLed_users s"
  by (simp_all add: Io_SetValue_def Io_SetPio_def Io_PioEnable_def Io_PioDisable_def
      Io_SetDirection_def Io_SetOutput_def Io_SetInput_def)

lemma appled_add_io [simp]:
  "line_users (appled_add i d s) = line_users s"
  "line_locked (appled_add i d s) = line_locked s"
  "io_inv (appled_add i d s) = io_inv s"
  "line_out (appled_add i d s) = line_out s"
  "line_dir (appled_add i d s) = line_dir s"
  "line_pio (appled_add i d s) = line_pio s"
  "AppLed_users (appled_add i d s) = (AppLed_users s)[nat i := AppLed_users s ! nat i + d]"
  by (simp_all add: appled_add_def line_users_def line_locked_def io_inv_def fun_eq_iff
      line_view_defs port_def)

definition appled_inv :: "'a leds_state_scheme \<Rightarrow> bool" where
  "appled_inv s \<longleftrightarrow> io_inv s \<and> length (AppLed_users s) = 4 \<and>
     (\<forall>i \<in> {0..<APPLED_COUNT}. AppLed_users s ! nat i \<ge> 0 \<and>
        (AppLed_users s ! nat i > 0 \<longrightarrow> line_locked s (AppLed_GetIo i)))"

definition appled_index :: "int \<Rightarrow> bool" where
  "appled_index i \<longleftrightarrow> 0 \<le> i \<and> i < APPLED_COUNT"

lemma appled_line: "appled_index i \<Longrightarrow> io_line (AppLed_GetIo i)"
  by (auto simp: appled_index_def AppLed_GetIo_def io_line_def)

lemma appled_line_inj:
  "appled_index i \<Longrightarrow> appled_index j \<Longrightarrow> AppLed_GetIo i = AppLed_GetIo j \<longleftrightarrow> i = j"
  by (auto simp: appled_index_def AppLed_GetIo_def split: if_splits)

lemma appled_invD:
  assumes "appled_inv s" and "appled_index i"
  shows "io_inv s" "length (AppLed_users s) = 4" "nat i < 4" "AppLed_users s ! nat i \<ge> 0"
    "AppLed_users s ! nat i > 0 \<Longrightarrow> line_locked s (AppLed_GetIo i)"
  using assms by (auto simp: appled_inv_def appled_index_def)

lemma appled_invI:
  assumes "io_inv s" and "length (AppLed_users s) = 4"
    and "\<And>i. appled_index i \<Longrightarrow> AppLed_users s ! nat i \<ge> 0"
    and "\<And>i. appled_index i \<Longrightarrow> AppLed_users s ! nat i > 0 \<Longrightarrow> line_locked s (AppLed_GetIo i)"
  shows "appled_inv s"
  using assms by (auto simp: appled_inv_def appled_index_def)

lemma appled_nth_add:
  "appled_index i \<Longrightarrow> appled_index j \<Longrightarrow> length xs = 4 \<Longrightarrow>
     xs[nat i := v] ! nat j = (if j = i then v else xs ! nat j)"
  by (auto simp: appled_index_def nth_list_update)

definition line_is_output :: "int \<Rightarrow> 'a io_state_scheme \<Rightarrow> bool" where
  "line_is_output io s \<longleftrightarrow> line_pio s io \<and> line_dir s io"

lemma AppLed_Start_first:
  assumes "appled_inv s" and "appled_index i" and "AppLed_users s ! nat i = 0"
    and "line_users s (AppLed_GetIo i) = 0"
  shows "\<exists>s'. AppLed_Start i s = Some (CONTROLLER_OK, s') \<and> appled_inv s' \<and>
    AppLed_users s' = (AppLed_users s)[nat i := 1] \<and> line_locked s' (AppLed_GetIo i) \<and>
    line_is_output (AppLed_GetIo i) s' \<and> line_out s' (AppLed_GetIo i)"
proof -
  let ?io = "AppLed_GetIo i"
  have io: "io_line ?io" by (rule appled_line [OF assms(2)])
  note inv = appled_invD [OF assms(1,2)]
  obtain t where t: "Io_Start ?io True (appled_add i 1 s) = Some (CONTROLLER_OK, t)"
    using io.start_free [of "appled_add i 1 s" ?io] inv io assms(4) by auto
  note ok = io.start_okD [OF _ io t]
  define u where "u = snd (Io_SetDirection ?io True (snd (Io_SetValue ?io True (snd (Io_SetPio ?io True t)))))"
  have users: "AppLed_users u = (AppLed_users s)[nat i := 1]" and lock: "line_locked u = (line_locked s)(?io := True)"
    using t ok(5) inv assms(3) by (simp_all add: u_def)
  have "appled_inv u"
  proof (rule appled_invI)
    show "io_inv u" using ok(1) inv by (simp add: u_def)
    show "length (AppLed_users u) = 4" using users inv by simp
    show "AppLed_users u ! nat j \<ge> 0" if "appled_index j" for j
      using appled_invD [OF assms(1) that] users by (simp add: appled_nth_add [OF assms(2) that])
    show "line_locked u (AppLed_GetIo j)" if "appled_index j" "AppLed_users u ! nat j > 0" for j
      using appled_invD [OF assms(1) that(1)] users lock that
      by (auto simp: appled_nth_add [OF assms(2) that(1)] split: if_splits)
  qed
  moreover have "line_is_output ?io u" "line_out u ?io"
    using io by (simp_all add: u_def line_is_output_def io_lookup)
  moreover have "AppLed_Start i s = Some (CONTROLLER_OK, u)"
    using assms(3) t by (simp add: AppLed_Start_def u_def Let_def)
  ultimately show ?thesis using users lock by auto
qed

lemma AppLed_Start_busy:
  assumes "appled_inv s" and "appled_index i" and "AppLed_users s ! nat i = 0"
    and "line_users s (AppLed_GetIo i) > 0"
  shows "AppLed_Start i s = Some (CONTROLLER_ERROR_CANT_LOCK, s)"
proof -
  let ?io = "AppLed_GetIo i"
  have "Io_Start ?io True (appled_add i 1 s) = Some (CONTROLLER_ERROR_TOO_MANY_USERS, appled_add i 1 s)"
    using io.start_cases [of "appled_add i 1 s" ?io True] appled_invD [OF assms(1,2)]
      appled_line [OF assms(2)] assms(4) by auto
  moreover have "appled_add i (- 1) (appled_add i 1 s) = s"
    using appled_invD [OF assms(1,2)] by (simp add: appled_add_def)
  ultimately show ?thesis using assms(3) by (simp add: AppLed_Start_def Let_def)
qed

lemma AppLed_Start_again:
  assumes "appled_inv s" and "appled_index i" and "AppLed_users s ! nat i > 0"
  shows "AppLed_Start i s = Some (CONTROLLER_OK, appled_add i 1 s)" and "appled_inv (appled_add i 1 s)"
proof -
  show "AppLed_Start i s = Some (CONTROLLER_OK, appled_add i 1 s)"
    using assms(3) by (simp add: AppLed_Start_def Let_def)
  show "appled_inv (appled_add i 1 s)"
  proof (rule appled_invI)
    show "AppLed_users (appled_add i 1 s) ! nat j \<ge> 0" if "appled_index j" for j
      using appled_invD [OF assms(1) that] assms(3) by (simp add: appled_nth_add [OF assms(2) that])
    show "line_locked (appled_add i 1 s) (AppLed_GetIo j)"
      if "appled_index j" "AppLed_users (appled_add i 1 s) ! nat j > 0" for j
      using appled_invD [OF assms(1) that(1)] that assms(3)
      by (auto simp: appled_nth_add [OF assms(2) that(1)] split: if_splits)
  qed (use appled_invD [OF assms(1,2)] in simp_all)
qed

lemma AppLed_Stop_step:
  assumes "appled_inv s" and "appled_index i" and "AppLed_users s ! nat i > 0"
  shows "\<exists>s'. AppLed_Stop i s = Some (CONTROLLER_OK, s') \<and> appled_inv s' \<and>
    AppLed_users s' = (AppLed_users s)[nat i := AppLed_users s ! nat i - 1] \<and>
    line_locked s' = (line_locked s)(AppLed_GetIo i := AppLed_users s ! nat i > 1) \<and>
    (AppLed_users s ! nat i = 1 \<longrightarrow> line_users s' (AppLed_GetIo i) = 0)"
proof -
  let ?io = "AppLed_GetIo i" and ?t = "appled_add i (- 1) s"
  have io: "io_line ?io" by (rule appled_line [OF assms(2)])
  note inv = appled_invD [OF assms(1,2)]
  have lk: "line_locked s ?io" using inv assms(3) by simp
  have dec: "AppLed_users ?t ! nat i = AppLed_users s ! nat i - 1" using inv by simp
  obtain u where u: "AppLed_Stop i s = Some (CONTROLLER_OK, u)" "io_inv u"
    "AppLed_users u = (AppLed_users s)[nat i := AppLed_users s ! nat i - 1]"
    "line_locked u = (line_locked s)(?io := AppLed_users s ! nat i > 1)"
    "AppLed_users s ! nat i = 1 \<longrightarrow> line_users u ?io = 0"
  proof (cases "AppLed_users s ! nat i = 1")
    case True
    have own: "line_users s ?io = 1" using io.locked_owner [OF _ io lk] inv by simp
    then obtain u where "Io_Stop ?io ?t = Some (CONTROLLER_OK, u)" "io_inv u"
      "line_locked u = (line_locked s)(?io := False)" "line_users u ?io = 0"
      using io.stop_used [of ?t ?io] io inv by auto
    then show thesis using that [of u] True dec by (auto simp: AppLed_Stop_def Let_def)
  next
    case False
    then have "AppLed_Stop i s = Some (CONTROLLER_OK, ?t)"
      using assms(3) dec by (auto simp: AppLed_Stop_def Let_def)
    then show thesis using that [of ?t] inv False assms(3) lk by (auto simp: fun_eq_iff)
  qed
  have "appled_inv u"
  proof (rule appled_invI)
    show "AppLed_users u ! nat j \<ge> 0" if "appled_index j" for j
      using appled_invD [OF assms(1) that] assms(3) u by (simp add: appled_nth_add [OF assms(2) that])
    show "line_locked u (AppLed_GetIo j)" if "appled_index j" "AppLed_users u ! nat j > 0" for j
      using appled_invD [OF assms(1) that(1)] that(2)
      by (auto simp: u appled_nth_add [OF assms(2) that(1)] appled_line_inj [OF that(1) assms(2)]
          split: if_splits)
  qed (use u inv in simp_all)
  with u show ?thesis by auto
qed

interpretation appled: counted_device "AppLed_Start i" "AppLed_Stop i" "\<lambda>s. AppLed_users s ! nat i"
  "\<lambda>s. line_users s (AppLed_GetIo i) = 0" "\<lambda>s :: 'a leds_state_scheme. appled_inv s \<and> appled_index i" for i
proof
  fix s :: "'a leds_state_scheme"
  assume inv: "appled_inv s \<and> appled_index i"
  note D = appled_invD [OF conjunct1 [OF inv] conjunct2 [OF inv]]
  consider (busy) "AppLed_users s ! nat i = 0" "line_users s (AppLed_GetIo i) > 0"
    | (first) "AppLed_users s ! nat i = 0" "line_users s (AppLed_GetIo i) = 0"
    | (again) "AppLed_users s ! nat i > 0" using D(4) by linarith
  then show "\<exists>r s'. AppLed_Start i s = Some (r, s') \<and> (appled_inv s' \<and> appled_index i) \<and>
      AppLed_users s' ! nat i = AppLed_users s ! nat i + of_bool (r = CONTROLLER_OK)"
  proof cases
    case busy
    then show ?thesis using AppLed_Start_busy [of s i] inv by simp
  next
    case first
    then obtain s' where "AppLed_Start i s = Some (CONTROLLER_OK, s')" "appled_inv s'"
      "AppLed_users s' = (AppLed_users s)[nat i := 1]"
      using AppLed_Start_first [of s i] inv by blast
    then show ?thesis using D(2,3) first(1) inv by simp
  next
    case again
    then show ?thesis using AppLed_Start_again [of s i] D(2,3) inv by simp
  qed
next
  fix s :: "'a leds_state_scheme"
  assume inv: "appled_inv s \<and> appled_index i" and "AppLed_users s ! nat i > 0"
  then show "\<exists>s'. AppLed_Start i s = Some (CONTROLLER_OK, s')"
    using AppLed_Start_again by blast
  obtain s' where "AppLed_Stop i s = Some (CONTROLLER_OK, s')" "appled_inv s'"
    "AppLed_users s' = (AppLed_users s)[nat i := AppLed_users s ! nat i - 1]"
    using AppLed_Stop_step [of s i] inv \<open>AppLed_users s ! nat i > 0\<close> by blast
  then show "\<exists>s'. AppLed_Stop i s = Some (CONTROLLER_OK, s') \<and> (appled_inv s' \<and> appled_index i) \<and>
      AppLed_users s' ! nat i = AppLed_users s ! nat i - 1"
    using inv appled_invD(2,3) [of s i] by simp
next
  fix s :: "'a leds_state_scheme"
  assume "appled_inv s \<and> appled_index i" and "AppLed_users s ! nat i = 0"
    and "line_users s (AppLed_GetIo i) = 0"
  then show "\<exists>s'. AppLed_Start i s = Some (CONTROLLER_OK, s')"
    using AppLed_Start_first [of s i] by blast
next
  fix s s' :: "'a leds_state_scheme" and r
  assume "appled_inv s \<and> appled_index i" and "AppLed_users s ! nat i = 1" and "AppLed_Stop i s = Some (r, s')"
  then show "line_users s' (AppLed_GetIo i) = 0"
    using AppLed_Stop_step [of s i] by auto
qed (auto simp: AppLed_Stop_def dest: appled_invD)

definition leds_boot :: leds_state where
  "leds_boot = fasttimer_state.extend ft_boot \<lparr>Led_users = 0, AppLed_users = replicate 4 0\<rparr>"

text \<open>
  C29: whatever the order in which the users of an application LED start and stop it, every call
  returns, the LED's count is the number of users that hold it (a surplus stop changes nothing), and
  the LED's I/O line is locked exactly while somebody holds it.
\<close>

theorem appled_users_own_line:
  assumes "appled_inv s" and "0 \<le> i" and "i < 4"
    and "AppLed_users s ! nat i = 0" and "line_users s (AppLed_GetIo i) = 0"
  shows "\<exists>s'. device_run (AppLed_Start i) (AppLed_Stop i) calls s = Some s' \<and> appled_inv s' \<and>
    AppLed_users s' ! nat i = count_users calls 0 \<and>
    (line_locked s' (AppLed_GetIo i) \<longleftrightarrow> count_users calls 0 > 0)"
proof -
  have i: "appled_index i" using assms(2,3) by (simp add: appled_index_def)
  obtain s' where s': "device_run (AppLed_Start i) (AppLed_Stop i) calls s = Some s'" "appled_inv s'"
    "AppLed_users s' ! nat i = count_users calls 0"
    "AppLed_users s' ! nat i = 0 \<longrightarrow> line_users s' (AppLed_GetIo i) = 0"
    using appled.run_counts [of s i calls] assms i by auto
  have "line_locked s' (AppLed_GetIo i) \<longleftrightarrow> AppLed_users s' ! nat i > 0"
    using appled_invD [OF s'(2) i] s'(4) io.locked_owner [OF _ appled_line [OF i], of s'] by auto
  with s' show ?thesis by auto
qed

lemma leds_boot_inv: "appled_inv leds_boot" "line_users leds_boot i = 0" "AppLed_users leds_boot ! nat 1 = 0"
proof -
  have pins: "Io_pins leds_boot = Io_pins io_boot" "Io_users leds_boot = Io_users io_boot"
    "Io_init leds_boot = Io_init io_boot"
    "AppLed_users leds_boot = replicate 4 0"
    by (simp_all add: leds_boot_def fasttimer_state.defs ft_boot_def io_state.defs io_boot_def Let_def)
  show "appled_inv leds_boot"
  proof (rule appled_invI)
    show "io_inv leds_boot"
      using io_boot_inv by (simp add: io_inv_def pins)
    show "AppLed_users leds_boot ! nat j \<ge> 0" "AppLed_users leds_boot ! nat j > 0 \<Longrightarrow> line_locked leds_boot (AppLed_GetIo j)"
      if "appled_index j" for j
      using that by (auto simp: pins appled_index_def)
  qed (simp add: pins)
  show "line_users leds_boot i = 0"
    by (auto simp: line_users_def io_line_def pins io_boot_def Let_def)
  show "AppLed_users leds_boot ! nat 1 = 0" by (simp add: pins)
qed

theorem appled_users_own_line_witness:
  "\<exists>s'. device_run (AppLed_Start 1) (AppLed_Stop 1) [True, True, False, False, False, True] leds_boot = Some s' \<and>
    appled_inv s' \<and> AppLed_users s' ! nat 1 = 1 \<and> line_locked s' (AppLed_GetIo 1)"
  using appled_users_own_line [of leds_boot 1 "[True, True, False, False, False, True]"] leds_boot_inv
  by simp

end
