(* ===== verification/DigitalOut.thy ===== *)
theory DigitalOut
  imports Leds
begin

text \<open>
  The application board's eight high-current outputs
  (\<^verbatim>\<open>src/firmware/libraries/digitalout/digitalout.c\<close>, application board version 100). Each output has its
  own I/O line, and each pair of outputs shares the enable line of its driver chip, which is counted
  separately.
\<close>

record digitalout_state = leds_state +
  DigitalOut_users :: "int list"
  DigitalOut_enableUsers :: "int list"

abbreviation (input) DIGITALOUT_COUNT :: int where "DIGITALOUT_COUNT \<equiv> 8"

subsection \<open>Operations\<close>

definition DigitalOut_GetIo :: "int \<Rightarrow> int" where
  "DigitalOut_GetIo index =
     (if index = 0 then 24 else if index = 1 then 5 else if index = 2 then 6 else if index = 3 then 2
      else if index = 4 then 57 else if index = 5 then 25 else if index = 6 then 26
      else if index = 7 then 55 else - 1)"

definition DigitalOut_GetEnableIo :: "int \<Rightarrow> int" where
  "DigitalOut_GetEnableIo enableIndex =
     (if enableIndex = 0 then 51 else if enableIndex = 1 then 52 else if enableIndex = 2 then 53
      else if enableIndex = 3 then 54 else - 1)"

definition dout_add :: "int \<Rightarrow> int \<Rightarrow> 'a digitalout_state_scheme \<Rightarrow> 'a digitalout_state_scheme" where
  "dout_add index d s =
     s\<lparr>DigitalOut_users := (DigitalOut_users s)[nat index := DigitalOut_users s ! nat index + d]\<rparr>"

definition dout_enable_add :: "int \<Rightarrow> int \<Rightarrow> 'a digitalout_state_scheme \<Rightarrow> 'a digitalout_state_scheme" where
  "dout_enable_add e d s =
     s\<lparr>DigitalOut_enableUsers :=
        (DigitalOut_enableUsers s)[nat e := DigitalOut_enableUsers s ! nat e + d]\<rparr>"

definition DigitalOut_enable :: "int \<Rightarrow> int \<Rightarrow> (status, 'a digitalout_state_scheme) op" where
  "DigitalOut_enable index enableIndex s =
     (let enableIo = DigitalOut_GetEnableIo enableIndex;
          u = DigitalOut_enableUsers s ! nat enableIndex;
          s = dout_enable_add enableIndex 1 s
      in if u = 0 then
           do {
             (status, s) \<leftarrow> Io_Start enableIo True s;
             if status \<noteq> CONTROLLER_OK
             then Some (CONTROLLER_ERROR_CANT_LOCK, dout_add index (- 1) (dout_enable_add enableIndex (- 1) s))
             else Some (CONTROLLER_OK, snd (Io_SetValue enableIo True s))
           }
         else Some (CONTROLLER_OK, s))"

definition DigitalOut_Start :: "int \<Rightarrow> (status, 'a digitalout_state_scheme) op" where
  "DigitalOut_Start index s =
     (if index < 0 \<or> index \<ge> DIGITALOUT_COUNT then Some (CONTROLLER_ERROR_ILLEGAL_INDEX, s)
      else let u = DigitalOut_users s ! nat index; s = dout_add index 1 s
        in if u = 0 then
             do {
               (status, s) \<leftarrow> DigitalOut_enable index (index div 2) s;
               if status \<noteq> CONTROLLER_OK then Some (status, s)
               else let io = DigitalOut_GetIo index in
                 do {
                   (status, s) \<leftarrow> Io_Start io True s;
                   if status \<noteq> CONTROLLER_OK
                   then Some (CONTROLLER_ERROR_CANT_LOCK, dout_add index (- 1) s)
                   else let s = snd (Io_SetPio io True s);
                            s = snd (Io_SetValue io False s);
                            s = snd (Io_SetDirection io True s)
                        in Some (CONTROLLER_OK, s)
                 }
             }
           else Some (CONTROLLER_OK, s))"

definition DigitalOut_Stop :: "int \<Rightarrow> (status, 'a digitalout_state_scheme) op" where
  "DigitalOut_Stop index s =
     (if index < 0 \<or> index \<ge> DIGITALOUT_COUNT then Some (CONTROLLER_ERROR_ILLEGAL_INDEX, s)
      else if DigitalOut_users s ! nat index < 1 then Some (CONTROLLER_ERROR_TOO_MANY_STOPS, s)
      else let s = dout_add index (- 1) s
        in if DigitalOut_users s ! nat index = 0 then
             do {
               (_, s) \<leftarrow> Io_Stop (DigitalOut_GetIo index) s;
               let e = index div 2; s = dout_enable_add e (- 1) s
               in if DigitalOut_enableUsers s ! nat e = 0
                  then map_option (\<lambda>(_, s). (CONTROLLER_OK, s)) (Io_Stop (DigitalOut_GetEnableIo e) s)
                  else Some (CONTROLLER_OK, s)
             }
           else Some (CONTROLLER_OK, s))"

definition DigitalOut_SetActive :: "int \<Rightarrow> int \<Rightarrow> (status, 'a digitalout_state_scheme) op" where
  "DigitalOut_SetActive index state s =
     (if index < 0 \<or> index \<ge> DIGITALOUT_COUNT then Some (CONTROLLER_ERROR_ILLEGAL_INDEX, s)
      else if state \<noteq> 0 then DigitalOut_Start index s else DigitalOut_Stop index s)"

definition DigitalOut_GetActive :: "int \<Rightarrow> 'a digitalout_state_scheme \<Rightarrow> bool" where
  "DigitalOut_GetActive index s \<longleftrightarrow>
     \<not> (index < 0 \<or> index \<ge> DIGITALOUT_COUNT) \<and> DigitalOut_users s ! nat index > 0"

definition DigitalOut_SetValue :: "int \<Rightarrow> int \<Rightarrow> (status, 'a digitalout_state_scheme) op" where
  "DigitalOut_SetValue index state s =
     (if index < 0 \<or> index \<ge> DIGITALOUT_COUNT then Some (CONTROLLER_ERROR_ILLEGAL_INDEX, s)
      else do {
        (r, s) \<leftarrow> (if DigitalOut_users s ! nat index < 1 then DigitalOut_Start index s
                   else Some (CONTROLLER_OK, s));
        if r \<noteq> CONTROLLER_OK then Some (r, s)
        else Some (CONTROLLER_OK, snd (Io_SetValue (DigitalOut_GetIo index) (state \<noteq> 0) s))
      })"

definition DigitalOut_GetValue :: "int \<Rightarrow> (int, 'a digitalout_state_scheme) op" where
  "DigitalOut_GetValue index s =
     (if index < 0 \<or> index \<ge> DIGITALOUT_COUNT then Some (CONTROLLER_ERROR_ILLEGAL_INDEX, s)
      else do {
        (r, s) \<leftarrow> (if DigitalOut_users s ! nat index < 1 then DigitalOut_Start index s
                   else Some (CONTROLLER_OK, s));
        if r \<noteq> CONTROLLER_OK then Some (r, s)
        else Some (uint (Io_GetValue (DigitalOut_GetIo index) s), s)
      })"

definition DigitalOutOsc_PropertySet :: "int \<Rightarrow> int \<Rightarrow> int \<Rightarrow> (status, 'a digitalout_state_scheme) op" where
  "DigitalOutOsc_PropertySet index property v s =
     map_option (\<lambda>(_, s). (CONTROLLER_OK, s))
       (if property = 0 then DigitalOut_SetActive index v s
        else if property = 1 then DigitalOut_SetValue index v s
        else Some (CONTROLLER_OK, s))"

definition DigitalOutOsc_PropertyGet :: "int \<Rightarrow> int \<Rightarrow> (int, 'a digitalout_state_scheme) op" where
  "DigitalOutOsc_PropertyGet index property s =
     (if property = 0 then Some (of_bool (DigitalOut_GetActive index s), s)
      else if property = 1 then DigitalOut_GetValue index s
      else Some (0, s))"

subsection \<open>What the counts mean\<close>

lemma io_frame_dout [simp]:
  "DigitalOut_users (snd (set_line w i s)) = DigitalOut_users s"
  "DigitalOut_enableUsers (snd (set_line w i s)) = DigitalOut_enableUsers s"
  "Io_Start i lk s = Some (r, s') \<Longrightarrow> DigitalOut_users s' = DigitalOut_users s"
  "Io_Start i lk s = Some (r, s') \<Longrightarrow> DigitalOut_enableUsers s' = DigitalOut_enableUsers s"
  "Io_Stop i s = Some (r, s') \<Longrightarrow> DigitalOut_users s' = DigitalOut_users s"
  "Io_Stop i s = Some (r, s') \<Longrightarrow> DigitalOut_enableUsers s' = DigitalOut_enableUsers s"
  by (auto simp: set_line_def on_port_def Io_Start_def Io_Stop_def pin_take_def pin_drop_def
      Io_Init_def Io_Deinit_def Let_def split: if_splits)

lemma io_setters_dout [simp]:
  "DigitalOut_users (snd (Io_SetValue i v s)) = DigitalOut_users s"
  "DigitalOut_users (snd (Io_SetPio i v s)) = DigitalOut_users s"
  "DigitalOut_users (snd (Io_SetDirection i v s)) = DigitalOut_users s"
  "DigitalOut_enableUsers (snd (Io_SetValue i v s)) = DigitalOut_enableUsers s"
  "DigitalOut_enableUsers (snd (Io_SetPio i v s)) = DigitalOut_enableUsers s"
  "DigitalOut_enableUsers (snd (Io_SetDirection i v s)) = DigitalOut_enableUsers s"
  by (simp_all add: Io_SetValue_def Io_SetPio_def Io_PioEnable_def Io_PioDisable_def
      Io_SetDirection_def Io_SetOutput_def Io_SetInput_def)

lemma dout_add_view [simp]:
  "line_users (dout_add i d s) = line_users s" "line_locked (dout_add i d s) = line_locked s"
  "io_inv (dout_add i d s) = io_inv s" "line_out (dout_add i d s) = line_out s"
  "DigitalOut_users (dout_add i d s) = (DigitalOut_users s)[nat i := DigitalOut_users s ! nat i + d]"
  "DigitalOut_enableUsers (dout_add i d s) = DigitalOut_enableUsers s"
  "line_users (dout_enable_add i d s) = line_users s" "line_locked (dout_enable_add i d s) = line_locked s"
  "io_inv (dout_enable_add i d s) = io_inv s" "line_out (dout_enable_add i d s) = line_out s"
  "DigitalOut_users (dout_enable_add i d s) = DigitalOut_users s"
  "DigitalOut_enableUsers (dout_enable_add i d s) =
     (DigitalOut_enableUsers s)[nat i := DigitalOut_enableUsers s ! nat i + d]"
  by (simp_all add: dout_add_def dout_enable_add_def line_users_def line_locked_def io_inv_def
      fun_eq_iff line_view_defs port_def)

definition dout_index :: "int \<Rightarrow> bool" where
  "dout_index i \<longleftrightarrow> 0 \<le> i \<and> i < DIGITALOUT_COUNT"

text \<open>
  Every output in use has its line locked, and an enable line with users is locked; the count of an
  enable line is at least the number of its outputs in use (a failed start leaves it higher).
\<close>

definition dout_active :: "'a digitalout_state_scheme \<Rightarrow> int \<Rightarrow> int" where
  "dout_active s i = of_bool (DigitalOut_users s ! nat i > 0)"

definition dout_inv :: "'a digitalout_state_scheme \<Rightarrow> bool" where
  "dout_inv s \<longleftrightarrow> io_inv s \<and> length (DigitalOut_users s) = 8 \<and> length (DigitalOut_enableUsers s) = 4 \<and>
     (\<forall>i \<in> {0..<DIGITALOUT_COUNT}. DigitalOut_users s ! nat i \<ge> 0 \<and>
        (DigitalOut_users s ! nat i > 0 \<longrightarrow> line_locked s (DigitalOut_GetIo i))) \<and>
     (\<forall>e \<in> {0..<4}. DigitalOut_enableUsers s ! nat e \<ge> dout_active s (2 * e) + dout_active s (2 * e + 1) \<and>
        (DigitalOut_enableUsers s ! nat e > 0 \<longrightarrow> line_locked s (DigitalOut_GetEnableIo e)))"

lemma dout_index_cases:
  "dout_index i \<longleftrightarrow> i \<in> {0, 1, 2, 3, 4, 5, 6, 7}"
  by (auto simp: dout_index_def)

lemma dout_enable_cases:
  "0 \<le> e \<and> e < 4 \<longleftrightarrow> (e :: int) \<in> {0, 1, 2, 3}"
  by auto

lemma dout_lines:
  "dout_index i \<Longrightarrow> io_line (DigitalOut_GetIo i)"
  "0 \<le> e \<Longrightarrow> e < 4 \<Longrightarrow> io_line (DigitalOut_GetEnableIo e)"
  "0 \<le> e \<Longrightarrow> e < 4 \<Longrightarrow> dout_index i \<Longrightarrow> DigitalOut_GetEnableIo e \<noteq> DigitalOut_GetIo i"
  by (auto simp: dout_index_def DigitalOut_GetIo_def DigitalOut_GetEnableIo_def io_line_def split: if_splits)

lemma dout_lines_inj:
  "dout_index i \<Longrightarrow> dout_index j \<Longrightarrow> DigitalOut_GetIo i = DigitalOut_GetIo j \<longleftrightarrow> i = j"
  by (auto simp: dout_index_cases DigitalOut_GetIo_def)

lemma dout_enable_inj:
  "0 \<le> e \<and> e < 4 \<Longrightarrow> 0 \<le> f \<and> f < 4 \<Longrightarrow> DigitalOut_GetEnableIo e = DigitalOut_GetEnableIo f \<longleftrightarrow> e = f"
  by (auto simp: dout_enable_cases DigitalOut_GetEnableIo_def)

lemma dout_pair: "dout_index i \<Longrightarrow> 0 \<le> i div 2 \<and> i div 2 < 4"
  by (auto simp: dout_index_def)

lemma dout_invD:
  assumes "dout_inv s" and "dout_index i"
  shows "io_inv s" "length (DigitalOut_users s) = 8" "length (DigitalOut_enableUsers s) = 4"
    "nat i < 8" "DigitalOut_users s ! nat i \<ge> 0"
    "DigitalOut_users s ! nat i > 0 \<Longrightarrow> line_locked s (DigitalOut_GetIo i)"
  using assms by (auto simp: dout_inv_def dout_index_def)

lemma dout_inv_pairD:
  assumes "dout_inv s" and "0 \<le> e \<and> e < 4"
  shows "nat e < 4" "DigitalOut_enableUsers s ! nat e \<ge> dout_active s (2 * e) + dout_active s (2 * e + 1)"
    "DigitalOut_enableUsers s ! nat e > 0 \<Longrightarrow> line_locked s (DigitalOut_GetEnableIo e)"
  using assms by (auto simp: dout_inv_def)

lemma dout_active_nonneg [simp]: "dout_active s i \<ge> 0"
  by (simp add: dout_active_def)

lemma dout_inv_update:
  assumes inv: "dout_inv s" and i: "dout_index i" and e: "e = i div 2" and "io_inv s'"
    and us: "DigitalOut_users s' = (DigitalOut_users s)[nat i := u]"
    and en: "DigitalOut_enableUsers s' = (DigitalOut_enableUsers s)[nat e := v]"
    and bal: "v - of_bool (u > 0) \<ge> DigitalOut_enableUsers s ! nat e - dout_active s i" and "u \<ge> 0"
    and "u > 0 \<Longrightarrow> line_locked s' (DigitalOut_GetIo i)"
    and "v > 0 \<Longrightarrow> line_locked s' (DigitalOut_GetEnableIo e)"
    and others: "\<And>l. l \<noteq> DigitalOut_GetIo i \<Longrightarrow> l \<noteq> DigitalOut_GetEnableIo e \<Longrightarrow> line_locked s l \<Longrightarrow> line_locked s' l"
  shows "dout_inv s'"
proof -
  note D = dout_invD [OF inv i]
  have e4: "0 \<le> e \<and> e < 4" using dout_pair [OF i] e by simp
  have users: "DigitalOut_users s' ! nat j = (if j = i then u else DigitalOut_users s ! nat j)"
    if "dout_index j" for j
    using that i D(2) by (auto simp: us dout_index_def nth_list_update)
  have lines: "DigitalOut_users s' ! nat j \<ge> 0 \<and>
      (DigitalOut_users s' ! nat j > 0 \<longrightarrow> line_locked s' (DigitalOut_GetIo j))" if j: "dout_index j" for j
    using users [OF j] assms(8,9) dout_invD(5,6) [OF inv j] others [of "DigitalOut_GetIo j"]
      dout_lines_inj [OF j i] dout_lines(3) [of e j] e4 j by (cases "j = i") auto
  have pairs: "DigitalOut_enableUsers s' ! nat f \<ge> dout_active s' (2 * f) + dout_active s' (2 * f + 1) \<and>
      (DigitalOut_enableUsers s' ! nat f > 0 \<longrightarrow> line_locked s' (DigitalOut_GetEnableIo f))"
    if f: "0 \<le> f \<and> f < 4" for f
  proof (cases "f = e")
    case True
    have "i = 2 * e \<or> i = 2 * e + 1" using e by presburger
    moreover have "dout_index (2 * e)" "dout_index (2 * e + 1)" using e4 by (auto simp: dout_index_def)
    ultimately have "dout_active s' (2 * e) + dout_active s' (2 * e + 1) + dout_active s i
        = dout_active s (2 * e) + dout_active s (2 * e + 1) + of_bool (u > 0)"
      by (auto simp: dout_active_def users)
    then show ?thesis
      using True assms(10) bal dout_inv_pairD [OF inv e4] D(3) e4 by (simp add: en)
  next
    case False
    then have "2 * f \<noteq> i" "2 * f + 1 \<noteq> i" using e by auto
    moreover have "dout_index (2 * f)" "dout_index (2 * f + 1)" using f by (auto simp: dout_index_def)
    moreover have "DigitalOut_enableUsers s' ! nat f = DigitalOut_enableUsers s ! nat f"
      using False f e4 by (simp add: en nat_eq_iff2)
    ultimately show ?thesis
      using dout_inv_pairD [OF inv f] others [of "DigitalOut_GetEnableIo f"] dout_enable_inj [OF f e4]
        dout_lines(3) [of f i] f i False
      by (auto simp: dout_active_def users)
  qed
  show ?thesis
    using lines pairs \<open>io_inv s'\<close> D(2,3) unfolding dout_inv_def
    by (auto simp: us en dout_index_def)
qed

lemma dout_undo:
  assumes "nat i < length (DigitalOut_users s)" and "nat e < length (DigitalOut_enableUsers s)"
  shows "dout_add i (- 1) (dout_enable_add e (- 1) (dout_enable_add e 1 (dout_add i 1 s))) = s"
  using assms by (simp add: dout_add_def dout_enable_add_def)

text \<open>Switching the driver of the pair on: either it fails and leaves everything as before the start, or
the enable line is locked and counted.\<close>

lemma DigitalOut_enable_cases:
  assumes "dout_inv s" and "dout_index i" and "DigitalOut_users s ! nat i = 0"
  defines "e \<equiv> i div 2"
  shows "(DigitalOut_enableUsers s ! nat e = 0 \<and> line_users s (DigitalOut_GetEnableIo e) > 0 \<and>
      DigitalOut_enable i e (dout_add i 1 s) = Some (CONTROLLER_ERROR_CANT_LOCK, s)) \<or>
    (DigitalOut_enableUsers s ! nat e = 0 \<longrightarrow> line_users s (DigitalOut_GetEnableIo e) = 0) \<and>
    (\<exists>t. DigitalOut_enable i e (dout_add i 1 s) = Some (CONTROLLER_OK, t) \<and> io_inv t \<and>
      DigitalOut_users t = (DigitalOut_users s)[nat i := 1] \<and>
      DigitalOut_enableUsers t = (DigitalOut_enableUsers s)[nat e := DigitalOut_enableUsers s ! nat e + 1] \<and>
      line_locked t = (line_locked s)(DigitalOut_GetEnableIo e := True) \<and>
      line_users t (DigitalOut_GetIo i) = line_users s (DigitalOut_GetIo i))"
proof -
  let ?eio = "DigitalOut_GetEnableIo e" and ?t = "dout_enable_add e 1 (dout_add i 1 s)"
  note D = dout_invD [OF assms(1,2)]
  have e: "0 \<le> e \<and> e < 4" using dout_pair [OF assms(2)] by (simp add: e_def)
  note E = dout_inv_pairD [OF assms(1) e]
  have line: "io_line ?eio" using dout_lines(2) e by blast
  have ne: "DigitalOut_GetIo i \<noteq> ?eio" using dout_lines(3) [of e i] e assms(2) by auto
  have inv: "io_inv ?t" using D by simp
  consider (counted) "DigitalOut_enableUsers s ! nat e > 0"
    | (busy) "DigitalOut_enableUsers s ! nat e = 0" "line_users s ?eio > 0"
    | (free) "DigitalOut_enableUsers s ! nat e = 0" "line_users s ?eio = 0"
    using E(2) dout_active_nonneg [of s "2 * e"] dout_active_nonneg [of s "2 * e + 1"] by linarith
  then show ?thesis
  proof cases
    case counted
    then have "DigitalOut_enable i e (dout_add i 1 s) = Some (CONTROLLER_OK, ?t)"
      by (simp add: DigitalOut_enable_def Let_def)
    then show ?thesis using counted inv E(3) assms(3) by (auto simp: fun_eq_iff)
  next
    case busy
    have "Io_Start ?eio True ?t = Some (CONTROLLER_ERROR_TOO_MANY_USERS, ?t)"
      using io.start_cases [OF inv line, of True] busy by auto
    moreover have "dout_add i (- 1) (dout_enable_add e (- 1) ?t) = s"
      by (rule dout_undo) (simp_all add: D E(1))
    ultimately show ?thesis using busy by (simp add: DigitalOut_enable_def Let_def)
  next
    case free
    then obtain t where t: "Io_Start ?eio True ?t = Some (CONTROLLER_OK, t)"
      using io.start_free [OF inv line] by auto
    note ok = io.start_okD [OF inv line t]
    from t free have "DigitalOut_enable i e (dout_add i 1 s) = Some (CONTROLLER_OK, snd (Io_SetValue ?eio True t))"
      by (simp add: DigitalOut_enable_def Let_def)
    then show ?thesis using ok t free assms(3) ne by auto
  qed
qed

lemma DigitalOut_Start_step:
  assumes "dout_inv s" and "dout_index i" and "DigitalOut_users s ! nat i = 0"
  shows "(\<exists>s'. DigitalOut_Start i s = Some (CONTROLLER_ERROR_CANT_LOCK, s') \<and> dout_inv s' \<and>
      DigitalOut_users s' = DigitalOut_users s \<and>
      (line_users s (DigitalOut_GetIo i) > 0 \<or> DigitalOut_enableUsers s ! nat (i div 2) = 0 \<and>
        line_users s (DigitalOut_GetEnableIo (i div 2)) > 0)) \<or>
    (\<exists>s'. DigitalOut_Start i s = Some (CONTROLLER_OK, s') \<and> dout_inv s' \<and>
      DigitalOut_users s' = (DigitalOut_users s)[nat i := 1] \<and>
      DigitalOut_enableUsers s' ! nat (i div 2) = DigitalOut_enableUsers s ! nat (i div 2) + 1)"
proof -
  let ?io = "DigitalOut_GetIo i" and ?e = "i div 2"
  let ?eio = "DigitalOut_GetEnableIo ?e"
  note D = dout_invD [OF assms(1,2)]
  have line: "io_line ?io" by (rule dout_lines(1) [OF assms(2)])
  have rng: "\<not> (i < 0 \<or> i \<ge> 8)" using assms(2) by (auto simp: dout_index_def)
  have act: "dout_active s i = 0" using assms(3) by (simp add: dout_active_def)
  from DigitalOut_enable_cases [OF assms(1-3)] show ?thesis
  proof (elim disjE conjE exE)
    assume "DigitalOut_enable i ?e (dout_add i 1 s) = Some (CONTROLLER_ERROR_CANT_LOCK, s)"
      and "line_users s ?eio > 0" "DigitalOut_enableUsers s ! nat ?e = 0"
    then show ?thesis using rng assms by (simp add: DigitalOut_Start_def Let_def)
  next
    fix t
    assume en: "DigitalOut_enable i ?e (dout_add i 1 s) = Some (CONTROLLER_OK, t)" and inv: "io_inv t"
      and us: "DigitalOut_users t = (DigitalOut_users s)[nat i := 1]"
      and eu: "DigitalOut_enableUsers t = (DigitalOut_enableUsers s)[nat ?e := DigitalOut_enableUsers s ! nat ?e + 1]"
      and lk: "line_locked t = (line_locked s)(?eio := True)"
      and lu: "line_users t ?io = line_users s ?io"
    from io.start_cases [OF inv line, of True] show ?thesis
    proof (elim disjE conjE exE)
      assume f: "Io_Start ?io True t = Some (CONTROLLER_ERROR_TOO_MANY_USERS, t)"
      then have "line_users s ?io > 0" using io.start_free [OF inv line, of True] lu by fastforce
      moreover have "DigitalOut_Start i s = Some (CONTROLLER_ERROR_CANT_LOCK, dout_add i (- 1) t)"
        using rng en f assms(3) by (simp add: DigitalOut_Start_def Let_def)
      moreover have us': "DigitalOut_users (dout_add i (- 1) t) = DigitalOut_users s"
        using us D(2,4) assms(3) by (simp add: list_update_same_conv)
      moreover have "dout_inv (dout_add i (- 1) t)"
      proof (rule dout_inv_update [OF assms(1,2) refl, of _ 0 "DigitalOut_enableUsers s ! nat ?e + 1"])
        show "DigitalOut_users (dout_add i (- 1) t) = (DigitalOut_users s)[nat i := 0]"
          unfolding us' using assms(3) by (metis list_update_id)
      qed (use eu lk inv in \<open>simp_all add: act\<close>)
      ultimately show ?thesis by blast
    next
      fix w
      assume ok: "Io_Start ?io True t = Some (CONTROLLER_OK, w)" "io_inv w" "line_locked w = (line_locked t)(?io := True)"
      let ?s' = "snd (Io_SetDirection ?io True (snd (Io_SetValue ?io False (snd (Io_SetPio ?io True w)))))"
      have us': "DigitalOut_users ?s' = (DigitalOut_users s)[nat i := 1]" using us ok by simp
      have "DigitalOut_Start i s = Some (CONTROLLER_OK, ?s')"
        using rng en ok assms(3) by (simp add: DigitalOut_Start_def Let_def)
      moreover have "dout_inv ?s'"
        using us' eu lk ok
        by (intro dout_inv_update [OF assms(1,2) refl, of _ 1 "DigitalOut_enableUsers s ! nat ?e + 1"])
          (simp_all add: act)
      moreover have "DigitalOut_enableUsers ?s' ! nat ?e = DigitalOut_enableUsers s ! nat ?e + 1"
        using eu ok D(3) dout_inv_pairD(1) [OF assms(1) dout_pair [OF assms(2)]] by simp
      ultimately show ?thesis using us' by blast
    qed
  qed
qed

lemma DigitalOut_Start_again:
  assumes "dout_inv s" and "dout_index i" and "DigitalOut_users s ! nat i > 0"
  shows "DigitalOut_Start i s = Some (CONTROLLER_OK, dout_add i 1 s)" and "dout_inv (dout_add i 1 s)"
proof -
  note D = dout_invD [OF assms(1,2)]
  have "\<not> (i < 0 \<or> i \<ge> 8)" using assms(2) by (auto simp: dout_index_def)
  then show "DigitalOut_Start i s = Some (CONTROLLER_OK, dout_add i 1 s)"
    using assms(3) by (simp add: DigitalOut_Start_def Let_def)
  have "DigitalOut_enableUsers s ! nat (i div 2) > 0 \<Longrightarrow> line_locked s (DigitalOut_GetEnableIo (i div 2))"
    by (rule dout_inv_pairD(3) [OF assms(1) dout_pair [OF assms(2)]])
  then show "dout_inv (dout_add i 1 s)"
    using D assms(3)
    by (intro dout_inv_update [OF assms(1,2) refl, of _ "DigitalOut_users s ! nat i + 1"
          "DigitalOut_enableUsers s ! nat (i div 2)"]) (simp_all add: dout_active_def)
qed

lemma DigitalOut_Stop_shared:
  assumes "dout_inv s" and "dout_index i" and "DigitalOut_users s ! nat i > 1"
  shows "DigitalOut_Stop i s = Some (CONTROLLER_OK, dout_add i (- 1) s)" and "dout_inv (dout_add i (- 1) s)"
proof -
  note D = dout_invD [OF assms(1,2)]
  have "\<not> (i < 0 \<or> i \<ge> 8)" using assms(2) by (auto simp: dout_index_def)
  then show "DigitalOut_Stop i s = Some (CONTROLLER_OK, dout_add i (- 1) s)"
    using assms(3) D by (simp add: DigitalOut_Stop_def Let_def)
  have "DigitalOut_enableUsers s ! nat (i div 2) > 0 \<Longrightarrow> line_locked s (DigitalOut_GetEnableIo (i div 2))"
    by (rule dout_inv_pairD(3) [OF assms(1) dout_pair [OF assms(2)]])
  then show "dout_inv (dout_add i (- 1) s)"
    using D assms(3)
    by (intro dout_inv_update [OF assms(1,2) refl, of _ "DigitalOut_users s ! nat i - 1"
          "DigitalOut_enableUsers s ! nat (i div 2)"]) (simp_all add: dout_active_def)
qed

lemma dout_pair_active: "dout_index i \<Longrightarrow> dout_inv s \<Longrightarrow> DigitalOut_enableUsers s ! nat (i div 2) \<ge> dout_active s i"
proof -
  assume i: "dout_index i" and s: "dout_inv s"
  have "i = 2 * (i div 2) \<or> i = 2 * (i div 2) + 1" by presburger
  then have "dout_active s i = dout_active s (2 * (i div 2)) \<or>
      dout_active s i = dout_active s (2 * (i div 2) + 1)" by metis
  then show ?thesis
    using dout_inv_pairD(2) [OF s dout_pair [OF i]] dout_active_nonneg [of s "2 * (i div 2)"]
      dout_active_nonneg [of s "2 * (i div 2) + 1"] by linarith
qed

lemma DigitalOut_Stop_last:
  assumes "dout_inv s" and "dout_index i" and "DigitalOut_users s ! nat i = 1"
  shows "\<exists>s'. DigitalOut_Stop i s = Some (CONTROLLER_OK, s') \<and> dout_inv s' \<and>
    DigitalOut_users s' = (DigitalOut_users s)[nat i := 0] \<and>
    line_users s' (DigitalOut_GetIo i) = 0 \<and>
    DigitalOut_enableUsers s' ! nat (i div 2) = DigitalOut_enableUsers s ! nat (i div 2) - 1 \<and>
    (DigitalOut_enableUsers s' ! nat (i div 2) = 0 \<longrightarrow> line_users s' (DigitalOut_GetEnableIo (i div 2)) = 0)"
proof -
  let ?io = "DigitalOut_GetIo i" and ?e = "i div 2" and ?n = "DigitalOut_enableUsers s ! nat (i div 2)"
  let ?eio = "DigitalOut_GetEnableIo ?e"
  note D = dout_invD [OF assms(1,2)]
  have e: "0 \<le> ?e \<and> ?e < 4" by (rule dout_pair [OF assms(2)])
  note E = dout_inv_pairD [OF assms(1) e]
  have rng: "\<not> (i < 0 \<or> i \<ge> 8)" using assms(2) by (auto simp: dout_index_def)
  have lines: "io_line ?io" "io_line ?eio" "?eio \<noteq> ?io"
    using dout_lines assms(2) e by blast+
  have act: "dout_active s i = 1" using assms(3) by (simp add: dout_active_def)
  then have n: "?n \<ge> 1" using dout_pair_active [OF assms(2,1)] by simp
  have own: "line_users s ?io = 1" "line_users s ?eio = 1"
    using io.locked_owner [OF D(1) lines(1)] io.locked_owner [OF D(1) lines(2)] D(6) E(3) n assms(3) by auto
  obtain t where t: "Io_Stop ?io (dout_add i (- 1) s) = Some (CONTROLLER_OK, t)" "io_inv t"
    "line_users t = (line_users s)(?io := 0)" "line_locked t = (line_locked s)(?io := False)"
    using io.stop_used [of "dout_add i (- 1) s" ?io] D(1) lines(1) own by auto
  let ?u = "dout_enable_add ?e (- 1) t"
  have us: "DigitalOut_users ?u = (DigitalOut_users s)[nat i := 0]"
    "DigitalOut_enableUsers ?u = (DigitalOut_enableUsers s)[nat ?e := ?n - 1]"
    using t(1) assms(3) by simp_all
  have stop: "DigitalOut_Stop i s = (if ?n = 1
      then map_option (\<lambda>(_, s). (CONTROLLER_OK, s)) (Io_Stop ?eio ?u) else Some (CONTROLLER_OK, ?u))"
    using rng assms(3) D(2,3,4) t(1) us(2) E(1) by (simp add: DigitalOut_Stop_def Let_def)
  show ?thesis
  proof (cases "?n = 1")
    case True
    obtain w where w: "Io_Stop ?eio ?u = Some (CONTROLLER_OK, w)" "io_inv w"
      "line_users w = (line_users t)(?eio := 0)" "line_locked w = (line_locked t)(?eio := False)"
      using io.stop_used [of ?u ?eio] t lines own by auto
    have "dout_inv w"
    proof (rule dout_inv_update [OF assms(1,2) refl w(2), of 0 0])
      show "DigitalOut_users w = (DigitalOut_users s)[nat i := 0]"
        "DigitalOut_enableUsers w = (DigitalOut_enableUsers s)[nat ?e := 0]"
        using w(1) us True by simp_all
    qed (use w(4) t(4) act True in simp_all)
    then show ?thesis using stop w t us True lines D(3) E(1) by simp
  next
    case False
    have "dout_inv ?u"
    proof (rule dout_inv_update [OF assms(1,2) refl _ us])
      show "line_locked ?u ?eio" if "?n - 1 > 0" using t(4) E(3) n lines(3) by simp
    qed (use t(2,4) act in simp_all)
    then show ?thesis using stop t us False lines D(3) E(1) by simp
  qed
qed

definition dout_free :: "int \<Rightarrow> 'a digitalout_state_scheme \<Rightarrow> bool" where
  "dout_free i s \<longleftrightarrow> line_users s (DigitalOut_GetIo i) = 0 \<and>
     (DigitalOut_enableUsers s ! nat (i div 2) = 0 \<longrightarrow> line_users s (DigitalOut_GetEnableIo (i div 2)) = 0)"

lemma dout_users_nth:
  "dout_inv s \<Longrightarrow> dout_index i \<Longrightarrow> (DigitalOut_users s)[nat i := u] ! nat i = u"
  using dout_invD(2,4) [of s i] by simp

interpretation dout: counted_device "DigitalOut_Start i" "DigitalOut_Stop i" "\<lambda>s. DigitalOut_users s ! nat i"
  "dout_free i" "\<lambda>s :: 'a digitalout_state_scheme. dout_inv s \<and> dout_index i" for i
proof
  fix s :: "'a digitalout_state_scheme"
  assume inv: "dout_inv s \<and> dout_index i"
  show "DigitalOut_users s ! nat i \<ge> 0" using inv dout_invD(5) by blast
  show "\<exists>r s'. DigitalOut_Start i s = Some (r, s') \<and> (dout_inv s' \<and> dout_index i) \<and>
      DigitalOut_users s' ! nat i = DigitalOut_users s ! nat i + of_bool (r = CONTROLLER_OK)"
  proof (cases "DigitalOut_users s ! nat i = 0")
    case True
    with inv have "dout_inv s" "dout_index i" by simp_all
    from DigitalOut_Start_step [OF this True] show ?thesis
      using inv True by (elim disjE exE conjE) ((rule exI)+, rule conjI, assumption, simp add: dout_users_nth)+
  next
    case False
    then have "DigitalOut_users s ! nat i > 0" using inv dout_invD(5) [of s i] by simp
    then show ?thesis using DigitalOut_Start_again [of s i] inv by (simp add: dout_users_nth)
  qed
  show "DigitalOut_Stop i s = Some (CONTROLLER_ERROR_TOO_MANY_STOPS, s)" if "DigitalOut_users s ! nat i = 0"
    using that inv by (auto simp: DigitalOut_Stop_def dout_index_def)
  show "\<exists>s'. DigitalOut_Start i s = Some (CONTROLLER_OK, s')" if "DigitalOut_users s ! nat i > 0"
    using DigitalOut_Start_again [of s i] that inv by blast
  show "\<exists>s'. DigitalOut_Stop i s = Some (CONTROLLER_OK, s') \<and> (dout_inv s' \<and> dout_index i) \<and>
      DigitalOut_users s' ! nat i = DigitalOut_users s ! nat i - 1" if "DigitalOut_users s ! nat i > 0"
  proof (cases "DigitalOut_users s ! nat i = 1")
    case True
    then show ?thesis using DigitalOut_Stop_last [of s i] inv by (auto simp: dout_users_nth)
  next
    case False
    then show ?thesis using DigitalOut_Stop_shared [of s i] that inv by (simp add: dout_users_nth)
  qed
  show "\<exists>s'. DigitalOut_Start i s = Some (CONTROLLER_OK, s')"
    if "DigitalOut_users s ! nat i = 0" "dout_free i s"
  proof -
    have f: "line_users s (DigitalOut_GetIo i) = 0"
      "DigitalOut_enableUsers s ! nat (i div 2) = 0 \<Longrightarrow> line_users s (DigitalOut_GetEnableIo (i div 2)) = 0"
      using that(2) by (simp_all add: dout_free_def)
    from DigitalOut_Start_step [OF conjunct1 [OF inv] conjunct2 [OF inv] that(1)] show ?thesis
      by (elim disjE exE conjE) (simp add: f(1), simp add: f(2), blast)
  qed
  show "dout_free i s'" if "DigitalOut_users s ! nat i = 1" "DigitalOut_Stop i s = Some (r, s')" for r s'
    using DigitalOut_Stop_last [of s i] that inv by (auto simp: dout_free_def)
qed

text \<open>
  The pair's driver follows: what its count holds beyond this output's own share (the other output
  of the pair, and what failed starts left behind) does not change.
\<close>

definition dout_beyond :: "int \<Rightarrow> 'a digitalout_state_scheme \<Rightarrow> int" where
  "dout_beyond i s = DigitalOut_enableUsers s ! nat (i div 2) - dout_active s i"

definition dout_held :: "int \<Rightarrow> int \<Rightarrow> 'a digitalout_state_scheme \<Rightarrow> bool" where
  "dout_held i n s \<longleftrightarrow> dout_inv s \<and> dout_index i \<and> (DigitalOut_users s ! nat i = 0 \<longrightarrow> dout_free i s) \<and>
     dout_beyond i s = n"

lemma DigitalOut_Start_beyond:
  assumes "dout_inv s" and "dout_index i" and "DigitalOut_Start i s = Some (CONTROLLER_OK, s')"
  shows "dout_beyond i s' = dout_beyond i s"
proof (cases "DigitalOut_users s ! nat i = 0")
  case True
  from DigitalOut_Start_step [OF assms(1,2) True] show ?thesis
    using assms True by (auto simp: dout_beyond_def dout_active_def dout_users_nth)
next
  case False
  then have "DigitalOut_users s ! nat i > 0" using dout_invD(5) [OF assms(1,2)] by simp
  then show ?thesis
    using DigitalOut_Start_again [OF assms(1,2)] assms
    by (auto simp: dout_beyond_def dout_active_def dout_users_nth)
qed

lemma DigitalOut_Stop_beyond:
  assumes "dout_inv s" and "dout_index i" and "DigitalOut_users s ! nat i > 0"
    and "DigitalOut_Stop i s = Some (r, s')"
  shows "dout_beyond i s' = dout_beyond i s"
proof (cases "DigitalOut_users s ! nat i = 1")
  case True
  from DigitalOut_Stop_last [OF assms(1,2) True] show ?thesis
    using assms True by (auto simp: dout_beyond_def dout_active_def dout_users_nth)
next
  case False
  then show ?thesis
    using DigitalOut_Stop_shared [OF assms(1,2)] assms
    by (auto simp: dout_beyond_def dout_active_def dout_users_nth)
qed

interpretation dout_pair: counted_device "DigitalOut_Start i" "DigitalOut_Stop i" "\<lambda>s. DigitalOut_users s ! nat i"
  "dout_free i" "\<lambda>s :: 'a digitalout_state_scheme. dout_held i n s" for i n
proof
  fix s :: "'a digitalout_state_scheme"
  assume held: "dout_held i n s"
  then have inv: "dout_inv s" "dout_index i" "dout_inv s \<and> dout_index i" "dout_beyond i s = n"
    and free: "DigitalOut_users s ! nat i = 0 \<Longrightarrow> dout_free i s" by (auto simp: dout_held_def)
  show pos: "DigitalOut_users s ! nat i \<ge> 0" by (rule dout_invD(5) [OF inv(1,2)])
  obtain s' where s': "DigitalOut_Start i s = Some (CONTROLLER_OK, s')" "dout_inv s'"
    "DigitalOut_users s' ! nat i = DigitalOut_users s ! nat i + 1"
    using dout.start_counts [OF inv(3) free] by blast
  moreover have "dout_held i n s'"
    using s' inv pos DigitalOut_Start_beyond [OF inv(1,2) s'(1)] by (simp add: dout_held_def)
  ultimately show "\<exists>r s'. DigitalOut_Start i s = Some (r, s') \<and> dout_held i n s' \<and>
      DigitalOut_users s' ! nat i = DigitalOut_users s ! nat i + of_bool (r = CONTROLLER_OK)" by auto
  show "\<exists>s'. DigitalOut_Start i s = Some (CONTROLLER_OK, s')" using s'(1) by blast
  then show "\<exists>s'. DigitalOut_Start i s = Some (CONTROLLER_OK, s')" .
  show "DigitalOut_Stop i s = Some (CONTROLLER_ERROR_TOO_MANY_STOPS, s)" if "DigitalOut_users s ! nat i = 0"
    by (rule dout.stop_idle [OF inv(3) that])
  show "\<exists>s'. DigitalOut_Stop i s = Some (CONTROLLER_OK, s') \<and> dout_held i n s' \<and>
      DigitalOut_users s' ! nat i = DigitalOut_users s ! nat i - 1" if u: "DigitalOut_users s ! nat i > 0"
  proof -
    obtain t where t: "DigitalOut_Stop i s = Some (CONTROLLER_OK, t)" "dout_inv t"
      "DigitalOut_users t ! nat i = DigitalOut_users s ! nat i - 1"
      using dout.stop_step [OF inv(3) u] by blast
    have "dout_held i n t"
      using t inv u DigitalOut_Stop_beyond [OF inv(1,2) u t(1)] dout.stop_free [OF inv(3) _ t(1)]
      by (simp add: dout_held_def)
    then show ?thesis using t by blast
  qed
  show "dout_free i s'" if "DigitalOut_users s ! nat i = 1" "DigitalOut_Stop i s = Some (r, s')" for r s'
    by (rule dout.stop_free [OF inv(3) that])
qed

subsection \<open>Properties\<close>

definition dout_boot :: digitalout_state where
  "dout_boot = leds_state.extend leds_boot \<lparr>DigitalOut_users = replicate 8 0, DigitalOut_enableUsers = replicate 4 0\<rparr>"

lemma dout_boot_fields:
  "Io_pins dout_boot = Io_pins leds_boot" "Io_users dout_boot = Io_users leds_boot"
  "Io_init dout_boot = Io_init leds_boot" "DigitalOut_users dout_boot = replicate 8 0"
  "DigitalOut_enableUsers dout_boot = replicate 4 0"
  by (simp_all add: dout_boot_def leds_state.defs)

lemma dout_boot_inv:
  "io_inv dout_boot" "line_users dout_boot l = 0" "dout_inv dout_boot"
proof -
  show io: "io_inv dout_boot"
    using leds_boot_inv(1) by (simp add: appled_inv_def io_inv_def dout_boot_fields)
  show "line_users dout_boot l = 0"
    using leds_boot_inv(2) [of l] by (simp add: line_users_def dout_boot_fields split: if_splits)
  have "DigitalOut_users dout_boot ! nat j = 0" if "j \<in> {0..<8}" for j
    using that by (auto simp: dout_boot_fields)
  moreover have "DigitalOut_enableUsers dout_boot ! nat e = 0" if "e \<in> {0..<4}" for e
    using that by (auto simp: dout_boot_fields)
  ultimately show "dout_inv dout_boot"
    using io unfolding dout_inv_def by (auto simp: dout_boot_fields(4,5) dout_active_def)
qed

text \<open>
  C28: from a state in which the digital output has no users and its line and its driver are free
  (the driver's line only has to be free when the pair has not claimed it), any sequence of starts
  and stops of the output runs to completion. The output's count is the number of users holding it,
  and its line is locked exactly while it has users. The driver's count is what the rest of the pair
  held before, plus one exactly while the output has users; the driver's enable line is locked
  exactly while that count is positive, and nobody uses it otherwise. So when the rest of the pair
  holds nothing, the enable line too is locked exactly while the output has users, and the last
  stop gives it back.
\<close>

theorem digitalout_users_own_lines:
  assumes "dout_inv s" and "0 \<le> i" and "i < 8" and "DigitalOut_users s ! nat i = 0" and "dout_free i s"
  shows "\<exists>s'. device_run (DigitalOut_Start i) (DigitalOut_Stop i) calls s = Some s' \<and> dout_inv s' \<and>
    DigitalOut_users s' ! nat i = count_users calls 0 \<and>
    (line_locked s' (DigitalOut_GetIo i) \<longleftrightarrow> count_users calls 0 > 0) \<and>
    DigitalOut_enableUsers s' ! nat (i div 2)
      = DigitalOut_enableUsers s ! nat (i div 2) + of_bool (count_users calls 0 > 0) \<and>
    (line_locked s' (DigitalOut_GetEnableIo (i div 2)) \<longleftrightarrow> DigitalOut_enableUsers s' ! nat (i div 2) > 0) \<and>
    (DigitalOut_enableUsers s' ! nat (i div 2) = 0 \<longrightarrow> line_users s' (DigitalOut_GetEnableIo (i div 2)) = 0) \<and>
    (DigitalOut_enableUsers s ! nat (i div 2) = 0 \<longrightarrow>
      (line_locked s' (DigitalOut_GetEnableIo (i div 2)) \<longleftrightarrow> count_users calls 0 > 0))"
proof -
  let ?e = "i div 2" and ?n = "DigitalOut_enableUsers s ! nat (i div 2)"
  have i: "dout_index i" using assms(2,3) by (simp add: dout_index_def)
  then have "dout_held i ?n s" using assms by (simp add: dout_held_def dout_beyond_def dout_active_def)
  then obtain s' where s': "device_run (DigitalOut_Start i) (DigitalOut_Stop i) calls s = Some s'"
    "dout_held i ?n s'" "DigitalOut_users s' ! nat i = count_users calls 0"
    using dout_pair.run_counts [of i ?n s calls] assms(4,5) by auto
  have inv: "dout_inv s'" and free: "DigitalOut_users s' ! nat i = 0 \<Longrightarrow> dout_free i s'"
    and en: "DigitalOut_enableUsers s' ! nat ?e = ?n + of_bool (count_users calls 0 > 0)"
    using s'(2,3) by (auto simp: dout_held_def dout_beyond_def dout_active_def)
  note D = dout_invD [OF inv i] and E = dout_inv_pairD [OF inv dout_pair [OF i]]
  have own: "line_locked s' (DigitalOut_GetIo i) \<longleftrightarrow> DigitalOut_users s' ! nat i > 0"
    using D free io.locked_owner [OF D(1) dout_lines(1) [OF i]]
    by (cases "DigitalOut_users s' ! nat i = 0") (auto simp: dout_free_def)
  have "?n \<ge> 0" using dout_pair_active [OF i assms(1)] dout_active_nonneg [of s i] by (rule order_trans [rotated])
  then have none: "line_users s' (DigitalOut_GetEnableIo ?e) = 0" if "DigitalOut_enableUsers s' ! nat ?e = 0"
    using that free en D(5) s'(3) by (cases "count_users calls 0 > 0") (auto simp: dout_free_def)
  have "\<not> line_locked s' (DigitalOut_GetEnableIo ?e)" if "line_users s' (DigitalOut_GetEnableIo ?e) = 0"
    using that io.locked_owner [OF D(1) dout_lines(2)] dout_pair [OF i] by fastforce
  then have driver: "line_locked s' (DigitalOut_GetEnableIo ?e) \<longleftrightarrow> DigitalOut_enableUsers s' ! nat ?e > 0"
    using E(3) none en \<open>?n \<ge> 0\<close> by (cases "DigitalOut_enableUsers s' ! nat ?e = 0") auto
  show ?thesis using s'(1,3) inv own en driver none by auto
qed

theorem digitalout_users_own_lines_witness:
  "\<exists>s'. device_run (DigitalOut_Start 6) (DigitalOut_Stop 6) [True, True, False, False] dout_boot = Some s' \<and>
    DigitalOut_users s' ! nat 6 = 0 \<and> \<not> line_locked s' (DigitalOut_GetIo 6) \<and> \<not> line_locked s' 54 \<and>
    DigitalOut_enableUsers s' ! nat 3 = 0"
proof -
  have "DigitalOut_users dout_boot ! nat 6 = 0" "dout_free 6 dout_boot"
    "DigitalOut_enableUsers dout_boot ! nat 3 = 0"
    by (simp_all add: dout_boot_fields dout_free_def dout_boot_inv)
  then show ?thesis
    using digitalout_users_own_lines [of dout_boot 6 "[True, True, False, False]"] dout_boot_inv(3)
    by (auto simp: DigitalOut_GetEnableIo_def)
qed

text \<open>
  A start of a digital output whose own line somebody else holds reports that it cannot lock, but
  it has already switched the pair's driver on and does not undo that: the enable line stays locked and
  counted, although none of the pair's outputs is in use, and no stop of the output releases it.
\<close>

theorem digitalout_failed_start_leaks:
  assumes "dout_inv s" and "0 \<le> i" and "i < 8" and "DigitalOut_users s ! nat i = 0"
    and "DigitalOut_enableUsers s ! nat (i div 2) = 0"
    and "line_users s (DigitalOut_GetEnableIo (i div 2)) = 0" and "line_users s (DigitalOut_GetIo i) > 0"
  shows "\<exists>s'. DigitalOut_Start i s = Some (CONTROLLER_ERROR_CANT_LOCK, s') \<and>
    DigitalOut_users s' = DigitalOut_users s \<and> DigitalOut_enableUsers s' ! nat (i div 2) = 1 \<and>
    line_locked s' (DigitalOut_GetEnableIo (i div 2)) \<and>
    DigitalOut_Stop i s' = Some (CONTROLLER_ERROR_TOO_MANY_STOPS, s')"
proof -
  have i: "dout_index i" using assms(2,3) by (simp add: dout_index_def)
  let ?e = "i div 2" and ?io = "DigitalOut_GetIo i"
  note D = dout_invD [OF assms(1) i] and E = dout_inv_pairD [OF assms(1) dout_pair [OF i]]
  obtain t where t: "DigitalOut_enable i ?e (dout_add i 1 s) = Some (CONTROLLER_OK, t)" "io_inv t"
    "DigitalOut_users t = (DigitalOut_users s)[nat i := 1]"
    "DigitalOut_enableUsers t = (DigitalOut_enableUsers s)[nat ?e := 1]"
    "line_locked t = (line_locked s)(DigitalOut_GetEnableIo ?e := True)" "line_users t ?io = line_users s ?io"
    using DigitalOut_enable_cases [OF assms(1) i assms(4)] assms(5,6) by auto
  have "Io_Start ?io True t = Some (CONTROLLER_ERROR_TOO_MANY_USERS, t)"
    using io.start_cases [OF t(2) dout_lines(1) [OF i], of True] t(6) assms(7) by auto
  then have "DigitalOut_Start i s = Some (CONTROLLER_ERROR_CANT_LOCK, dout_add i (- 1) t)"
    using t(1) assms(2-4) by (simp add: DigitalOut_Start_def Let_def)
  moreover have us: "DigitalOut_users (dout_add i (- 1) t) = DigitalOut_users s"
    using t(3) D(2,4) assms(4) by (simp add: list_update_same_conv)
  moreover have "DigitalOut_Stop i (dout_add i (- 1) t) = Some (CONTROLLER_ERROR_TOO_MANY_STOPS, dout_add i (- 1) t)"
    using assms(2-4) us unfolding DigitalOut_Stop_def by simp
  ultimately show ?thesis using t(4,5) D(3) E(1) by simp
qed

lemma dout_boot_started:
  assumes "Io_Start l lk dout_boot = Some (r, s)" and "io_inv s"
  shows "dout_inv s" "DigitalOut_users s = replicate 8 0" "DigitalOut_enableUsers s = replicate 4 0"
proof -
  show us: "DigitalOut_users s = replicate 8 0" "DigitalOut_enableUsers s = replicate 4 0"
    using assms(1) by (simp_all add: dout_boot_fields)
  have "DigitalOut_users s ! nat j = 0" if "j \<in> {0..<8}" for j using that by (auto simp: us)
  moreover have "DigitalOut_enableUsers s ! nat e = 0" if "e \<in> {0..<4}" for e using that by (auto simp: us)
  ultimately show "dout_inv s"
    using assms(2) unfolding dout_inv_def by (auto simp: us dout_active_def)
qed

theorem digitalout_failed_start_leaks_witness:
  "\<exists>s t. Io_Start 24 False dout_boot = Some (CONTROLLER_OK, s) \<and>
    DigitalOut_Start 0 s = Some (CONTROLLER_ERROR_CANT_LOCK, t) \<and>
    DigitalOut_enableUsers t ! 0 = 1 \<and> line_locked t 51"
proof -
  have l: "io_line 24" by (simp add: io_line_def)
  obtain s where s: "Io_Start 24 False dout_boot = Some (CONTROLLER_OK, s)"
    using io.start_free [OF dout_boot_inv(1) l] dout_boot_inv(2) by blast
  note ok = io.start_okD [OF dout_boot_inv(1) l s]
  note b = dout_boot_started [OF s ok(1)]
  have "DigitalOut_GetIo 0 = 24" "DigitalOut_GetEnableIo (0 div 2) = 51"
    by (simp_all add: DigitalOut_GetIo_def DigitalOut_GetEnableIo_def)
  then show ?thesis
    using digitalout_failed_start_leaks [OF b(1), of 0] s ok(4) b(2,3) dout_boot_inv(2) by auto
qed

subsection \<open>Driving an output in use\<close>

lemma dout_inv_SetValue [simp]: "dout_inv (snd (Io_SetValue l v s)) = dout_inv s"
  by (simp add: dout_inv_def dout_active_def)

lemma DigitalOut_SetValue_held:
  assumes "dout_inv s" and "dout_index i" and "DigitalOut_users s ! nat i > 0"
  shows "DigitalOut_SetValue i v s = Some (CONTROLLER_OK, snd (Io_SetValue (DigitalOut_GetIo i) (v \<noteq> 0) s))"
  using assms by (auto simp: DigitalOut_SetValue_def dout_index_def)

lemma dout_line_out:
  assumes "dout_index i" and "dout_index j"
  shows "line_out (snd (Io_SetValue (DigitalOut_GetIo i) v s)) (DigitalOut_GetIo j) =
    (if j = i then v else line_out s (DigitalOut_GetIo j))"
  using assms by (auto simp: line_out_SetValue dout_lines(1) dout_lines_inj)

end
