(* ===== verification/Inputs.thy ===== *)
theory Inputs
  imports DigitalOut
begin

text \<open>
  The application board's inputs: the analog-to-digital converter channels
  (\<^verbatim>\<open>src/firmware/core/makingthings/analogin.c\<close> with the interrupt handler
  \<^verbatim>\<open>analogin_isr.c\<close>) and the digital inputs
  (\<^verbatim>\<open>src/firmware/libraries/digitalin/digitalin.c\<close>), four of which are read through the converter.

  The converter is a field of the state: \<open>ADC_input n\<close> is what a conversion of channel \<open>n\<close> started now
  delivers, or \<open>None\<close> when its data-ready interrupt does not arrive within the time a reader waits.
  A binary semaphore is a flag (\<open>Some True\<close>: it can be taken), \<open>None\<close> before it is created; taking one
  that is not available waits and times out. The word of the EEPROM that keeps the autosend setting is
  a field too, and so is what the values that were reported last (\<open>AI_lastValues\<close>) contain before they are written.
\<close>

subsection \<open>State\<close>

record AnalogIn_ =
  AI_users :: int
  AI_semaphore :: "bool option"
  AI_doneSemaphore :: "bool option"
  AI_channelUsers :: "int list"
  AI_lastValues :: "int list"
  AI_autosend :: u32

record inputs_state = digitalout_state +
  AnalogIn :: "AnalogIn_ option"
  ADC_input :: "nat \<Rightarrow> u32 option"
  ADC_CHSR :: u32
  ADC_LCDR :: u32
  ADC_CDR :: "u32 list"
  ADC_MR :: u32
  EEPROM_ANALOGIN_AUTOSEND :: u32
  fresh_lastValues :: "int list"
  DigitalIn_users :: "int list"

abbreviation (input) ANALOGIN_CHANNELS :: int where "ANALOGIN_CHANNELS \<equiv> 8"
abbreviation (input) DIGITALIN_COUNT :: int where "DIGITALIN_COUNT \<equiv> 8"

definition on_ain :: "(AnalogIn_ \<Rightarrow> AnalogIn_) \<Rightarrow> 'a inputs_state_scheme \<Rightarrow> 'a inputs_state_scheme" where
  "on_ain f s = s\<lparr>AnalogIn := map_option f (AnalogIn s)\<rparr>"

definition ain_add :: "int \<Rightarrow> int \<Rightarrow> AnalogIn_ \<Rightarrow> AnalogIn_" where
  "ain_add index d a = a\<lparr>AI_channelUsers := (AI_channelUsers a)[nat index := AI_channelUsers a ! nat index + d]\<rparr>"

subsection \<open>Analog inputs\<close>

definition AnalogIn_GetIo :: "int \<Rightarrow> int" where
  "AnalogIn_GetIo index =
     (if index = 0 then 59 else if index = 1 then 60 else if index = 2 then 61
      else if index = 3 then 62 else - 1)"

definition AnalogIn_Init :: "'a inputs_state_scheme \<Rightarrow> 'a inputs_state_scheme" where
  "AnalogIn_Init s =
     on_ain (\<lambda>a. a\<lparr>AI_semaphore := Some True, AI_doneSemaphore := Some False\<rparr>)
       (s\<lparr>PMC_PCSR := PMC_PCSR s OR mask1 17,
          ADC_MR := (push_bit 8 9 AND push_bit 8 0x3F) OR (push_bit 16 127 AND push_bit 16 0x1F)
                    OR (push_bit 24 127 AND push_bit 24 0xF)\<rparr>)"

definition AnalogIn_Deinit :: "'a inputs_state_scheme \<Rightarrow> status \<times> 'a inputs_state_scheme" where
  "AnalogIn_Deinit s = (CONTROLLER_OK, s)"

definition AnalogIn_Start :: "int \<Rightarrow> (status, 'a inputs_state_scheme) op" where
  "AnalogIn_Start index s =
     (if index < 0 \<or> index \<ge> ANALOGIN_CHANNELS then Some (CONTROLLER_ERROR_ILLEGAL_INDEX, s)
      else do {
        a \<leftarrow> AnalogIn s;
        let s = on_ain (ain_add index 1) s
        in if AI_channelUsers a ! nat index = 0 then
             do {
               (status, s) \<leftarrow>
                 (if index < 4 then
                    do {
                      (status, s) \<leftarrow> Io_Start (AnalogIn_GetIo index) False s;
                      if status \<noteq> CONTROLLER_OK then Some (status, on_ain (ain_add index (- 1)) s)
                      else Some (CONTROLLER_OK, snd (Io_SetPullup (AnalogIn_GetIo index) False s))
                    }
                  else Some (CONTROLLER_OK, s));
               if status \<noteq> CONTROLLER_OK then Some (status, s)
               else let s = on_ain (\<lambda>a. a\<lparr>AI_users := AI_users a + 1\<rparr>) s
                    in Some (CONTROLLER_OK, if AI_users a = 0 then AnalogIn_Init s else s)
             }
           else Some (CONTROLLER_OK, s)
      })"

definition AnalogIn_Stop :: "int \<Rightarrow> (status, 'a inputs_state_scheme) op" where
  "AnalogIn_Stop index s =
     (if index < 0 \<or> index \<ge> ANALOGIN_CHANNELS then Some (CONTROLLER_ERROR_ILLEGAL_INDEX, s)
      else do {
        a \<leftarrow> AnalogIn s;
        if AI_channelUsers a ! nat index \<le> 0 then Some (CONTROLLER_ERROR_TOO_MANY_STOPS, s)
        else let s = on_ain (ain_add index (- 1)) s
          in if AI_channelUsers a ! nat index = 1 then
               do {
                 (_, s) \<leftarrow> (if index < 4 then Io_Stop (AnalogIn_GetIo index) s else Some (CONTROLLER_OK, s));
                 let s = on_ain (\<lambda>a. a\<lparr>AI_users := AI_users a - 1\<rparr>) s
                 in Some (CONTROLLER_OK, if AI_users a = 1 then snd (AnalogIn_Deinit s) else s)
               }
             else Some (CONTROLLER_OK, s)
      })"

text \<open>\<^verbatim>\<open>!((autosend >> 16) & 0xFF) == AUTOSENDSAVE\<close>: the negation binds tighter than the comparison.\<close>

definition AnalogIn_AutoSendInit :: "'a inputs_state_scheme \<Rightarrow> 'a inputs_state_scheme" where
  "AnalogIn_AutoSendInit s =
     (let autosend = EEPROM_ANALOGIN_AUTOSEND s
      in if (of_bool (drop_bit 16 autosend AND 0xFF = 0) :: int) = 0xDF
         then on_ain (\<lambda>a. a\<lparr>AI_autosend := push_bit 16 0xDF\<rparr>) s
         else on_ain (\<lambda>a. a\<lparr>AI_autosend := autosend\<rparr>) s)"

definition AnalogIn_SetActive :: "int \<Rightarrow> int \<Rightarrow> (status, 'a inputs_state_scheme) op" where
  "AnalogIn_SetActive index state s =
     (if index < 0 \<or> index \<ge> ANALOGIN_CHANNELS then Some (CONTROLLER_ERROR_ILLEGAL_INDEX, s)
      else if state \<noteq> 0 then
        AnalogIn_Start index
          (if AnalogIn s = None
           then AnalogIn_AutoSendInit (s\<lparr>AnalogIn := Some \<lparr>AI_users = 0, AI_semaphore = None,
                  AI_doneSemaphore = None, AI_channelUsers = replicate 8 0, AI_lastValues = fresh_lastValues s,
                  AI_autosend = 0\<rparr>\<rparr>)
           else s)
      else AnalogIn_Stop index s)"

definition AnalogIn_GetActive :: "int \<Rightarrow> 'a inputs_state_scheme \<Rightarrow> bool" where
  "AnalogIn_GetActive index s \<longleftrightarrow>
     (case AnalogIn s of None \<Rightarrow> False
      | Some a \<Rightarrow> \<not> (index < 0 \<or> index \<ge> ANALOGIN_CHANNELS) \<and> AI_channelUsers a ! nat index > 0)"

text \<open>Taking the two semaphores: \<open>None\<close> when the handle was never created.\<close>

definition take_semaphore :: "'a inputs_state_scheme \<Rightarrow> (bool \<times> 'a inputs_state_scheme) option" where
  "take_semaphore s =
     do {
       a \<leftarrow> AnalogIn s;
       available \<leftarrow> AI_semaphore a;
       Some (available, on_ain (\<lambda>a. a\<lparr>AI_semaphore := Some False\<rparr>) s)
     }"

definition take_done :: "'a inputs_state_scheme \<Rightarrow> (bool \<times> 'a inputs_state_scheme) option" where
  "take_done s =
     do {
       a \<leftarrow> AnalogIn s;
       available \<leftarrow> AI_doneSemaphore a;
       Some (available, on_ain (\<lambda>a. a\<lparr>AI_doneSemaphore := Some False\<rparr>) s)
     }"

definition give_semaphore :: "'a inputs_state_scheme \<Rightarrow> 'a inputs_state_scheme" where
  "give_semaphore = on_ain (\<lambda>a. a\<lparr>AI_semaphore := Some True\<rparr>)"

text \<open>The data-ready interrupt after a conversion of one channel.\<close>

definition AnalogInIsr_Handler :: "'a inputs_state_scheme \<Rightarrow> 'a inputs_state_scheme" where
  "AnalogInIsr_Handler = on_ain (\<lambda>a. a\<lparr>AI_doneSemaphore := Some True\<rparr>)"

definition adc_select :: "u32 \<Rightarrow> 'a inputs_state_scheme \<Rightarrow> 'a inputs_state_scheme" where
  "adc_select m s = s\<lparr>ADC_CHSR := (ADC_CHSR s AND NOT (NOT m)) OR m\<rparr>"

definition adc_convert :: "nat \<Rightarrow> 'a inputs_state_scheme \<Rightarrow> 'a inputs_state_scheme" where
  "adc_convert n s =
     (case ADC_input s n of None \<Rightarrow> s
      | Some v \<Rightarrow> AnalogInIsr_Handler (s\<lparr>ADC_LCDR := v, ADC_CDR := (ADC_CDR s)[n := v]\<rparr>))"

definition AnalogIn_GetValue :: "int \<Rightarrow> (int, 'a inputs_state_scheme) op" where
  "AnalogIn_GetValue index s =
     do {
       (_, s) \<leftarrow> AnalogIn_SetActive index 1 s;
       if index < 0 \<or> index \<ge> ANALOGIN_CHANNELS then Some (CONTROLLER_ERROR_ILLEGAL_INDEX, s)
       else do {
         a \<leftarrow> AnalogIn s;
         (status, s) \<leftarrow> (if AI_channelUsers a ! nat index < 1 then AnalogIn_Start index s
                        else Some (CONTROLLER_OK, s));
         if status \<noteq> CONTROLLER_OK then Some (status, s)
         else do {
           (ok, s) \<leftarrow> take_semaphore s;
           if \<not> ok then Some (- 1, s)
           else do {
             (ok, s) \<leftarrow> take_done (adc_convert (nat index) (adc_select (mask1 (nat index)) s));
             if \<not> ok then Some (- 1, s)
             else Some (uint (ADC_LCDR s AND 0xFFFF), give_semaphore s)
           }
         }
       }
     }"

fun multi_start :: "int \<Rightarrow> nat list \<Rightarrow> (status, 'a inputs_state_scheme) op" where
  "multi_start m [] s = Some (CONTROLLER_OK, s)"
| "multi_start m (i # is) s =
     (if bit m i then
        do {
          a \<leftarrow> AnalogIn s;
          (status, s) \<leftarrow> (if AI_channelUsers a ! i < 1 then AnalogIn_Start (int i) s
                         else Some (CONTROLLER_OK, s));
          if status \<noteq> CONTROLLER_OK then Some (status, s) else multi_start m is s
        }
      else multi_start m is s)"

fun multi_read :: "int \<Rightarrow> nat list \<Rightarrow> nat \<Rightarrow> int list \<Rightarrow> 'a inputs_state_scheme \<Rightarrow> int list" where
  "multi_read m [] reg vs s = vs"
| "multi_read m (i # is) reg vs s =
     (if bit m i then multi_read m is (Suc reg) (vs[i := uint (ADC_CDR s ! reg AND 0xFFFF)]) s
      else multi_read m is reg vs s)"

definition AnalogIn_GetValueMulti ::
  "int \<Rightarrow> int list \<Rightarrow> 'a inputs_state_scheme \<Rightarrow> (status \<times> int list \<times> 'a inputs_state_scheme) option" where
  "AnalogIn_GetValueMulti m values s =
     (if m < 0 \<or> m > 255 then Some (CONTROLLER_ERROR_ILLEGAL_INDEX, values, s)
      else do {
        (status, s) \<leftarrow> multi_start m [0..<8] s;
        if status \<noteq> CONTROLLER_OK then Some (status, values, s)
        else do {
          (ok, s) \<leftarrow> take_semaphore s;
          if \<not> ok then Some (- 1, values, s)
          else do {
            (ok, s) \<leftarrow> take_done (fold (\<lambda>n s. if bit m n then adc_convert n s else s) [0..<8]
                                   (adc_select (word_of_int m) s));
            if \<not> ok then Some (- 1, values, s)
            else Some (CONTROLLER_OK, multi_read m [0..<8] 0 values s, give_semaphore s)
          }
        }
      })"

text \<open>The busy wait of this variant does not return when no conversion completes.\<close>

definition AnalogIn_GetValueWait :: "int \<Rightarrow> (int, 'a inputs_state_scheme) op" where
  "AnalogIn_GetValueWait index s =
     do {
       (_, s) \<leftarrow> AnalogIn_SetActive index 1 s;
       if index < 0 \<or> index \<ge> ANALOGIN_CHANNELS then Some (CONTROLLER_ERROR_ILLEGAL_INDEX, s)
       else do {
         a \<leftarrow> AnalogIn s;
         (status, s) \<leftarrow> (if AI_channelUsers a ! nat index < 1 then AnalogIn_Start index s
                        else Some (CONTROLLER_OK, s));
         if status \<noteq> CONTROLLER_OK then Some (status, s)
         else do {
           v \<leftarrow> ADC_input s (nat index);
           let s = (adc_select (mask1 (nat index)) s)\<lparr>ADC_LCDR := v, ADC_CDR := (ADC_CDR s)[nat index := v]\<rparr>
           in Some (uint (ADC_LCDR s AND 0xFFFF), s)
         }
       }
     }"

definition shift_ok :: "int \<Rightarrow> unit option" where
  "shift_ok index = (if 0 \<le> index \<and> index < 32 then Some () else None)"

definition AnalogIn_GetAutoSend :: "int \<Rightarrow> (bool, 'a inputs_state_scheme) op" where
  "AnalogIn_GetAutoSend index s =
     do {
       (_, s) \<leftarrow> AnalogIn_SetActive index 1 s;
       a \<leftarrow> AnalogIn s;
       shift_ok index;
       Some (bit (AI_autosend a) (nat index), s)
     }"

definition AnalogIn_SetAutoSend :: "int \<Rightarrow> u8 \<Rightarrow> (unit, 'a inputs_state_scheme) op" where
  "AnalogIn_SetAutoSend index onoff s =
     do {
       (_, s) \<leftarrow> AnalogIn_SetActive index 1 s;
       a \<leftarrow> AnalogIn s;
       shift_ok index;
       if of_bool (bit (AI_autosend a) (nat index)) \<noteq> onoff
       then let w = (if onoff \<noteq> 0 then AI_autosend a OR mask1 (nat index)
                     else AI_autosend a AND NOT (mask1 (nat index)))
            in Some ((), (on_ain (\<lambda>a. a\<lparr>AI_autosend := w\<rparr>) s)\<lparr>EEPROM_ANALOGIN_AUTOSEND := w\<rparr>)
       else Some ((), s)
     }"

definition AnalogInOsc_PropertySet :: "int \<Rightarrow> int \<Rightarrow> int \<Rightarrow> (status, 'a inputs_state_scheme) op" where
  "AnalogInOsc_PropertySet index property v s =
     (if property = 0 then map_option (\<lambda>(_, s). (CONTROLLER_OK, s)) (AnalogIn_SetActive index v s)
      else if property = 2
      then map_option (\<lambda>(_, s). (CONTROLLER_OK, s)) (AnalogIn_SetAutoSend index (word_of_int v) s)
      else Some (CONTROLLER_OK, s))"

definition AnalogInOsc_PropertyGet :: "int \<Rightarrow> int \<Rightarrow> (int, 'a inputs_state_scheme) op" where
  "AnalogInOsc_PropertyGet index property s =
     (if property = 0 then Some (of_bool (AnalogIn_GetActive index s), s)
      else if property = 1 then AnalogIn_GetValue index s
      else if property = 2 then map_option (\<lambda>(b, s). (of_bool b, s)) (AnalogIn_GetAutoSend index s)
      else Some (0, s))"

subsection \<open>Digital inputs\<close>

definition DigitalIn_GetIo :: "int \<Rightarrow> int" where
  "DigitalIn_GetIo index =
     (if index = 0 then 59 else if index = 1 then 60 else if index = 2 then 61 else if index = 3 then 62
      else if index = 4 then - 4 else if index = 5 then - 5 else if index = 6 then - 6
      else if index = 7 then - 7 else - 1)"

definition din_add :: "int \<Rightarrow> int \<Rightarrow> 'a inputs_state_scheme \<Rightarrow> 'a inputs_state_scheme" where
  "din_add index d s =
     s\<lparr>DigitalIn_users := (DigitalIn_users s)[nat index := DigitalIn_users s ! nat index + d]\<rparr>"

definition DigitalIn_Start :: "int \<Rightarrow> (status, 'a inputs_state_scheme) op" where
  "DigitalIn_Start index s =
     (if index < 0 \<or> index \<ge> DIGITALIN_COUNT then Some (CONTROLLER_ERROR_ILLEGAL_INDEX, s)
      else let u = DigitalIn_users s ! nat index; s = din_add index 1 s
        in if u = 0 then
             (let io = DigitalIn_GetIo index
              in if io > 0 then
                   do {
                     (status, s) \<leftarrow> Io_Start io False s;
                     if status \<noteq> CONTROLLER_OK then Some (CONTROLLER_ERROR_CANT_LOCK, din_add index (- 1) s)
                     else let s = snd (Io_SetPio io True s);
                              s = snd (Io_SetDirection io False s)
                          in Some (CONTROLLER_OK, s)
                   }
                 else AnalogIn_SetActive (- io) 1 s)
           else Some (CONTROLLER_OK, s))"

definition DigitalIn_Stop :: "int \<Rightarrow> (status, 'a inputs_state_scheme) op" where
  "DigitalIn_Stop index s =
     (if index < 0 \<or> index \<ge> DIGITALIN_COUNT then Some (CONTROLLER_ERROR_ILLEGAL_INDEX, s)
      else if DigitalIn_users s ! nat index < 1 then Some (CONTROLLER_ERROR_TOO_MANY_STOPS, s)
      else let s = din_add index (- 1) s
        in if DigitalIn_users s ! nat index = 0
           then map_option (\<lambda>(_, s). (CONTROLLER_OK, s)) (Io_Stop (DigitalIn_GetIo index) s)
           else Some (CONTROLLER_OK, s))"

definition DigitalIn_SetActive :: "int \<Rightarrow> int \<Rightarrow> (status, 'a inputs_state_scheme) op" where
  "DigitalIn_SetActive index state s =
     (if index < 0 \<or> index \<ge> DIGITALIN_COUNT then Some (CONTROLLER_ERROR_ILLEGAL_INDEX, s)
      else if state \<noteq> 0 then DigitalIn_Start index s else DigitalIn_Stop index s)"

definition DigitalIn_GetActive :: "int \<Rightarrow> 'a inputs_state_scheme \<Rightarrow> bool" where
  "DigitalIn_GetActive index s \<longleftrightarrow>
     \<not> (index < 0 \<or> index \<ge> DIGITALIN_COUNT) \<and> DigitalIn_users s ! nat index > 0"

definition DigitalIn_GetValue :: "int \<Rightarrow> (int, 'a inputs_state_scheme) op" where
  "DigitalIn_GetValue index s =
     (if index < 0 \<or> index \<ge> DIGITALIN_COUNT then Some (0, s)
      else do {
        (status, s) \<leftarrow> (if DigitalIn_users s ! nat index < 1 then DigitalIn_Start index s
                       else Some (CONTROLLER_OK, s));
        if status \<noteq> CONTROLLER_OK then Some (status, s)
        else let io = DigitalIn_GetIo index
          in if io \<ge> 0 then Some (uint (Io_GetValue io s), s)
             else map_option (\<lambda>(v, s). (of_bool (v > 200), s)) (AnalogIn_GetValue (- io) s)
      })"

definition DigitalInOsc_PropertySet :: "int \<Rightarrow> int \<Rightarrow> int \<Rightarrow> (status, 'a inputs_state_scheme) op" where
  "DigitalInOsc_PropertySet index property v s =
     (if property = 0 then map_option (\<lambda>(_, s). (CONTROLLER_OK, s)) (DigitalIn_SetActive index v s)
      else Some (CONTROLLER_OK, s))"

definition DigitalInOsc_PropertyGet :: "int \<Rightarrow> int \<Rightarrow> (int, 'a inputs_state_scheme) op" where
  "DigitalInOsc_PropertyGet index property s =
     (if property = 0 then Some (of_bool (DigitalIn_GetActive index s), s)
      else if property = 1 then DigitalIn_GetValue index s
      else Some (0, s))"

subsection \<open>Reading channels that are in use\<close>

lemma on_ain_view [simp]:
  "AnalogIn (on_ain f s) = map_option f (AnalogIn s)" "ADC_input (on_ain f s) = ADC_input s"
  "ADC_LCDR (on_ain f s) = ADC_LCDR s" "ADC_CDR (on_ain f s) = ADC_CDR s"
  by (simp_all add: on_ain_def)

lemma ain_add_view [simp]:
  "AI_semaphore (ain_add i d a) = AI_semaphore a" "AI_doneSemaphore (ain_add i d a) = AI_doneSemaphore a"
  "AI_channelUsers (ain_add i d a) = (AI_channelUsers a)[nat i := AI_channelUsers a ! nat i + d]"
  "AI_users (ain_add i d a) = AI_users a"
  by (simp_all add: ain_add_def)

lemma AnalogIn_SetActive_held:
  assumes "AnalogIn s = Some a" and "0 \<le> i" and "i < 8" and "AI_channelUsers a ! nat i > 0"
  shows "AnalogIn_SetActive i 1 s = Some (CONTROLLER_OK, on_ain (ain_add i 1) s)"
  using assms by (simp add: AnalogIn_SetActive_def AnalogIn_Start_def)

text \<open>A sequence of reads, each with what the converter delivers at that moment.\<close>

fun analogin_reads ::
  "((nat \<Rightarrow> u32 option) \<times> int) list \<Rightarrow> 'a inputs_state_scheme \<Rightarrow> (int list \<times> 'a inputs_state_scheme) option" where
  "analogin_reads [] s = Some ([], s)"
| "analogin_reads ((f, i) # rs) s =
     do {
       (v, s) \<leftarrow> AnalogIn_GetValue i (s\<lparr>ADC_input := f\<rparr>);
       (vs, s) \<leftarrow> analogin_reads rs s;
       Some (v # vs, s)
     }"

definition channel_held :: "AnalogIn_ \<Rightarrow> int \<Rightarrow> bool" where
  "channel_held a i \<longleftrightarrow> 0 \<le> i \<and> i < 8 \<and> AI_channelUsers a ! nat i > 0"

lemma AnalogIn_GetValue_held:
  assumes "AnalogIn s = Some a" and "length (AI_channelUsers a) = 8" and "channel_held a i"
    and "AI_semaphore a = Some m" and "AI_doneSemaphore a = Some False"
  shows "\<exists>s'. AnalogIn_GetValue i s =
      Some (if m then (case ADC_input s (nat i) of None \<Rightarrow> - 1 | Some v \<Rightarrow> uint (v AND 0xFFFF)) else - 1, s') \<and>
    AnalogIn s' = Some ((ain_add i 1 a)\<lparr>AI_semaphore := Some (m \<and> ADC_input s (nat i) \<noteq> None),
      AI_doneSemaphore := Some False\<rparr>)"
proof -
  have i: "0 \<le> i" "i < 8" "AI_channelUsers a ! nat i > 0" using assms(3) by (simp_all add: channel_held_def)
  note act = AnalogIn_SetActive_held [OF assms(1) i]
  have nth: "(AI_channelUsers a)[nat i := AI_channelUsers a ! nat i + 1] ! nat i \<ge> 1"
    using i assms(2) by simp
  show ?thesis
  proof (cases m)
    case False
    then show ?thesis
      using act nth assms i
      by (simp add: AnalogIn_GetValue_def take_semaphore_def ain_add_def)
  next
    case True
    then show ?thesis
      using act nth assms i
      by (cases "ADC_input s (nat i)")
        (simp_all add: AnalogIn_GetValue_def take_semaphore_def take_done_def adc_convert_def adc_select_def
          AnalogInIsr_Handler_def give_semaphore_def on_ain_def ain_add_def)
  qed
qed

lemma channel_held_read:
  assumes "length (AI_channelUsers a) = 8" and "channel_held a i" and "channel_held a j"
  shows "channel_held ((ain_add i 1 a)\<lparr>AI_semaphore := x, AI_doneSemaphore := y\<rparr>) j"
  using assms by (auto simp: channel_held_def nth_list_update)

text \<open>
  As long as every conversion completes, a sequence of reads of channels in use returns the
  converter's 16-bit readings in order, gives the converter's semaphore back, and leaves each channel's
  user count raised by the number of times that channel was read.
\<close>

theorem analogin_reads_values:
  assumes "AnalogIn s = Some a" and "length (AI_channelUsers a) = 8"
    and "\<forall>(f, i) \<in> set reads. channel_held a i \<and> f (nat i) \<noteq> None"
    and "AI_semaphore a = Some True" and "AI_doneSemaphore a = Some False"
  shows "\<exists>s' a'. analogin_reads reads s =
      Some (map (\<lambda>(f, i). uint (the (f (nat i)) AND 0xFFFF)) reads, s') \<and> AnalogIn s' = Some a' \<and>
    AI_semaphore a' = Some True \<and>
    (\<forall>j. 0 \<le> j \<and> j < 8 \<longrightarrow> AI_channelUsers a' ! nat j =
       AI_channelUsers a ! nat j + int (length (filter (\<lambda>(f, i). i = j) reads)))"
  using assms
proof (induction reads arbitrary: s a)
  case Nil
  then show ?case by simp
next
  case (Cons r reads)
  obtain f i where r: "r = (f, i)" by (cases r)
  let ?s = "s\<lparr>ADC_input := f\<rparr>"
  let ?a = "(ain_add i 1 a)\<lparr>AI_semaphore := Some True, AI_doneSemaphore := Some False\<rparr>"
  have held: "channel_held a i" and "f (nat i) \<noteq> None" using Cons.prems(3) r by auto
  then obtain v where v: "f (nat i) = Some v" by auto
  obtain t where t: "AnalogIn_GetValue i ?s = Some (uint (v AND 0xFFFF), t)" "AnalogIn t = Some ?a"
    using AnalogIn_GetValue_held [of ?s a i True] Cons.prems held v by auto
  have "\<forall>(f, i) \<in> set reads. channel_held ?a i \<and> f (nat i) \<noteq> None"
    using Cons.prems(3) channel_held_read [OF Cons.prems(2) held] by fastforce
  from Cons.IH [OF t(2) _ this] Cons.prems(2) obtain s' a' where s':
    "analogin_reads reads t = Some (map (\<lambda>(f, i). uint (the (f (nat i)) AND 0xFFFF)) reads, s')"
    "AnalogIn s' = Some a'" "AI_semaphore a' = Some True"
    "\<forall>j. 0 \<le> j \<and> j < 8 \<longrightarrow> AI_channelUsers a' ! nat j =
       AI_channelUsers ?a ! nat j + int (length (filter (\<lambda>(f, i). i = j) reads))" by auto
  have "AI_channelUsers ?a ! nat j = AI_channelUsers a ! nat j + of_bool (i = j)" if "0 \<le> j" "j < 8" for j
    using that held Cons.prems(2) by (auto simp: channel_held_def nth_list_update)
  then show ?case using s' t(1) r v by auto
qed

text \<open>
  Once a conversion has timed out the converter's semaphore is never given back: every later read
  of a channel in use, whatever the converter delivers then, fails with -1.
\<close>

theorem analogin_timeout_wedges:
  assumes "AnalogIn s = Some a" and "length (AI_channelUsers a) = 8"
    and "channel_held a i" and "ADC_input s (nat i) = None"
    and "AI_semaphore a = Some True" and "AI_doneSemaphore a = Some False"
    and "\<forall>(f, j) \<in> set reads. channel_held a j"
  shows "\<exists>s1 s2. AnalogIn_GetValue i s = Some (- 1, s1) \<and>
    analogin_reads reads s1 = Some (replicate (length reads) (- 1), s2)"
proof -
  have wedged: "\<exists>s2. analogin_reads rs t = Some (replicate (length rs) (- 1), s2)"
    if "AnalogIn t = Some b" "length (AI_channelUsers b) = 8" "\<forall>(f, j) \<in> set rs. channel_held b j"
      "AI_semaphore b = Some False" "AI_doneSemaphore b = Some False" for rs t b
    using that
  proof (induction rs arbitrary: t b)
    case Nil
    then show ?case by simp
  next
    case (Cons r rs)
    obtain f j where r: "r = (f, j)" by (cases r)
    let ?b = "(ain_add j 1 b)\<lparr>AI_semaphore := Some False, AI_doneSemaphore := Some False\<rparr>"
    have held: "channel_held b j" using Cons.prems(3) r by auto
    obtain u where u: "AnalogIn_GetValue j (t\<lparr>ADC_input := f\<rparr>) = Some (- 1, u)" "AnalogIn u = Some ?b"
      using AnalogIn_GetValue_held [of "t\<lparr>ADC_input := f\<rparr>" b j False] Cons.prems held by auto
    have "\<forall>(f, j) \<in> set rs. channel_held ?b j"
      using Cons.prems(3) channel_held_read [OF Cons.prems(2) held] by fastforce
    then obtain s2 where "analogin_reads rs u = Some (replicate (length rs) (- 1), s2)"
      using Cons.IH [OF u(2)] Cons.prems(2) by auto
    then show ?case using u(1) r by simp
  qed
  obtain s1 where s1: "AnalogIn_GetValue i s = Some (- 1, s1)"
    "AnalogIn s1 = Some ((ain_add i 1 a)\<lparr>AI_semaphore := Some False, AI_doneSemaphore := Some False\<rparr>)"
    using AnalogIn_GetValue_held [OF assms(1-3,5,6)] assms(4) by auto
  have "\<forall>(f, j) \<in> set reads. channel_held
      ((ain_add i 1 a)\<lparr>AI_semaphore := Some False, AI_doneSemaphore := Some False\<rparr>) j"
    using assms(7) channel_held_read [OF assms(2,3)] by fastforce
  then show ?thesis using wedged [OF s1(2)] assms(2) s1(1) by auto
qed

definition inputs_boot :: inputs_state where
  "inputs_boot = digitalout_state.extend dout_boot
     \<lparr>AnalogIn = None, ADC_input = (\<lambda>_. None), ADC_CHSR = 0, ADC_LCDR = 0, ADC_CDR = replicate 8 0, ADC_MR = 0,
      EEPROM_ANALOGIN_AUTOSEND = 0, fresh_lastValues = replicate 8 0, DigitalIn_users = replicate 8 0\<rparr>"

definition ain_used :: AnalogIn_ where
  "ain_used = \<lparr>AI_users = 1, AI_semaphore = Some True, AI_doneSemaphore = Some False,
     AI_channelUsers = [0, 0, 0, 0, 0, 1, 0, 0], AI_lastValues = replicate 8 0, AI_autosend = 0\<rparr>"

lemma ain_used_fields [simp]:
  "length (AI_channelUsers ain_used) = 8" "AI_semaphore ain_used = Some True"
  "AI_doneSemaphore ain_used = Some False" "channel_held ain_used 5"
  by (simp_all add: ain_used_def channel_held_def)

theorem analogin_reads_values_witness:
  "\<exists>s' a'. analogin_reads [(\<lambda>_. Some 700, 5), (\<lambda>_. Some 71000, 5)] (inputs_boot\<lparr>AnalogIn := Some ain_used\<rparr>) =
      Some ([700, 5464], s') \<and> AnalogIn s' = Some a' \<and> AI_semaphore a' = Some True \<and>
      AI_channelUsers a' ! nat 5 = 3"
proof -
  have u: "AI_channelUsers ain_used ! nat 5 = 1" by (simp add: ain_used_def)
  obtain s' a' where r:
    "analogin_reads [(\<lambda>_. Some 700, 5), (\<lambda>_. Some 71000, 5)] (inputs_boot\<lparr>AnalogIn := Some ain_used\<rparr>) =
      Some ([700, 5464], s')" "AnalogIn s' = Some a'" "AI_semaphore a' = Some True"
    "\<forall>j. 0 \<le> j \<and> j < 8 \<longrightarrow> AI_channelUsers a' ! nat j = AI_channelUsers ain_used ! nat j +
      int (length (filter (\<lambda>(f, i). i = j) [(\<lambda>_ :: nat. Some 700 :: u32 option, 5), (\<lambda>_. Some 71000, 5)]))"
    using analogin_reads_values [of "inputs_boot\<lparr>AnalogIn := Some ain_used\<rparr>" ain_used
        "[(\<lambda>_. Some 700, 5), (\<lambda>_. Some 71000, 5)]"]
    by auto
  have "AI_channelUsers a' ! nat 5 = 3" using r(4) [rule_format, of 5] u by simp
  with r show ?thesis by blast
qed

theorem analogin_timeout_wedges_witness:
  "\<exists>s1 s2. AnalogIn_GetValue 5 (inputs_boot\<lparr>AnalogIn := Some ain_used\<rparr>) = Some (- 1, s1) \<and>
    analogin_reads [(\<lambda>_. Some 700, 5)] s1 = Some ([- 1], s2)"
  using analogin_timeout_wedges [of "inputs_boot\<lparr>AnalogIn := Some ain_used\<rparr>" ain_used 5
      "[(\<lambda>_. Some 700, 5)]"]
  by (simp add: inputs_boot_def digitalout_state.defs)

text \<open>
  The digital inputs 4 to 7 are channels of the converter. Starting one and stopping it again
  reports success and leaves the digital input inactive, but the stop addresses an I/O line that does
  not exist instead of the converter, so the converter's channel stays in use.
\<close>

theorem digitalin_stop_keeps_channel:
  assumes "4 \<le> i" and "i < 8" and "length (DigitalIn_users s) = 8" and "DigitalIn_users s ! nat i = 0"
    and "AnalogIn s = Some a" and "length (AI_channelUsers a) = 8" and "AI_channelUsers a ! nat i \<ge> 0"
  shows "\<exists>s1 s2. DigitalIn_Start i s = Some (CONTROLLER_OK, s1) \<and> DigitalIn_Stop i s1 = Some (CONTROLLER_OK, s2) \<and>
    \<not> DigitalIn_GetActive i s2 \<and> AnalogIn_GetActive i s2"
proof -
  have io: "DigitalIn_GetIo i = - i" using assms(1,2) by (auto simp: DigitalIn_GetIo_def)
  have rng: "\<not> (i < 0 \<or> i \<ge> 8)" "nat i < 8" "\<not> i < 4" using assms(1,2) by auto
  define t where "t = din_add i 1 s"
  have t: "AnalogIn t = Some a" "DigitalIn_users t = (DigitalIn_users s)[nat i := 1]"
    using assms(4,5) by (simp_all add: t_def din_add_def)
  have "\<exists>u b. AnalogIn_SetActive i 1 t = Some (CONTROLLER_OK, u) \<and> AnalogIn u = Some b \<and>
      AI_channelUsers b = (AI_channelUsers a)[nat i := AI_channelUsers a ! nat i + 1] \<and>
      DigitalIn_users u = (DigitalIn_users s)[nat i := 1]"
    using t rng
    by (simp add: AnalogIn_SetActive_def AnalogIn_Start_def AnalogIn_Init_def on_ain_def ain_add_def Let_def)
  then obtain u b where u: "AnalogIn_SetActive i 1 t = Some (CONTROLLER_OK, u)" "AnalogIn u = Some b"
      "AI_channelUsers b = (AI_channelUsers a)[nat i := AI_channelUsers a ! nat i + 1]"
      "DigitalIn_users u = (DigitalIn_users s)[nat i := 1]" by (elim exE conjE) (rule that; assumption)
  have start: "DigitalIn_Start i s = Some (CONTROLLER_OK, u)"
    using u(1) io rng assms(1,4) by (simp add: DigitalIn_Start_def Let_def t_def)
  define w where "w = din_add i (- 1) u"
  have w: "AnalogIn w = Some b" "DigitalIn_users w ! nat i = 0"
    using u(2,4) rng assms(3) by (simp_all add: w_def din_add_def)
  have "Io_Stop (- i) w = Some (CONTROLLER_ERROR_ILLEGAL_INDEX, w)"
    using assms(1) by (simp add: Io_Stop_def bad_index_def)
  then have "DigitalIn_Stop i u = Some (CONTROLLER_OK, w)"
    using io rng u(4) w assms(3) by (simp add: DigitalIn_Stop_def Let_def w_def)
  then show ?thesis
    using start w rng u(3) assms(6,7) by (simp add: DigitalIn_GetActive_def AnalogIn_GetActive_def)
qed

theorem digitalin_stop_keeps_channel_witness:
  "\<exists>s1 s2. DigitalIn_Start 6 (inputs_boot\<lparr>AnalogIn := Some ain_used\<rparr>) = Some (CONTROLLER_OK, s1) \<and>
    DigitalIn_Stop 6 s1 = Some (CONTROLLER_OK, s2) \<and> \<not> DigitalIn_GetActive 6 s2 \<and> AnalogIn_GetActive 6 s2"
proof -
  have "length (DigitalIn_users (inputs_boot\<lparr>AnalogIn := Some ain_used\<rparr>)) = 8"
    "DigitalIn_users (inputs_boot\<lparr>AnalogIn := Some ain_used\<rparr>) ! nat 6 = 0"
    by (simp_all add: inputs_boot_def digitalout_state.defs)
  moreover have "AI_channelUsers ain_used ! nat 6 \<ge> 0" by (simp add: ain_used_def)
  ultimately show ?thesis
    using digitalin_stop_keeps_channel [of 6 "inputs_boot\<lparr>AnalogIn := Some ain_used\<rparr>" ain_used] by simp
qed

lemma bit_two_power: "bit (2 ^ k :: int) n \<longleftrightarrow> n = k"
  by (auto simp: bit_exp_iff)

lemma multi_skip:
  assumes "k \<notin> set ms"
  shows "multi_start (2 ^ k) ms t = Some (CONTROLLER_OK, t)" "multi_read (2 ^ k) ms reg vs t = vs"
    "fold (\<lambda>n s. if n = k then adc_convert n s else s) ms t = t"
  using assms by (induction ms) (auto simp: bit_two_power)

lemma multi_single:
  assumes "k \<in> set ns" and "distinct ns"
  shows "multi_start (2 ^ k) ns s =
      Option.bind (AnalogIn s) (\<lambda>a. if AI_channelUsers a ! k < 1 then AnalogIn_Start (int k) s \<bind> (\<lambda>(r, s).
        if r \<noteq> CONTROLLER_OK then Some (r, s) else Some (CONTROLLER_OK, s)) else Some (CONTROLLER_OK, s))"
    and "multi_read (2 ^ k) ns reg vs s = vs[k := uint (ADC_CDR s ! reg AND 0xFFFF)]"
    and "fold (\<lambda>n s. if bit (2 ^ k :: int) n then adc_convert n s else s) ns s = adc_convert k s"
proof -
  from assms show "multi_start (2 ^ k) ns s =
      Option.bind (AnalogIn s) (\<lambda>a. if AI_channelUsers a ! k < 1 then AnalogIn_Start (int k) s \<bind> (\<lambda>(r, s).
        if r \<noteq> CONTROLLER_OK then Some (r, s) else Some (CONTROLLER_OK, s)) else Some (CONTROLLER_OK, s))"
    by (induction ns) (auto simp: bit_two_power multi_skip split: Option.bind_splits if_splits)
  from assms show "multi_read (2 ^ k) ns reg vs s = vs[k := uint (ADC_CDR s ! reg AND 0xFFFF)]"
    by (induction ns) (auto simp: bit_two_power multi_skip)
  from assms show "fold (\<lambda>n s. if bit (2 ^ k :: int) n then adc_convert n s else s) ns s = adc_convert k s"
    by (induction ns arbitrary: s) (auto simp: bit_two_power multi_skip)
qed

text \<open>
  Reading a single channel other than channel 0 through the multi-channel read stores the data
  register of channel 0, not the reading of the channel asked for.
\<close>

theorem analogin_multi_wrong_register:
  assumes "0 < k" and "k < 8" and "AnalogIn s = Some a" and "length (AI_channelUsers a) = 8"
    and "AI_channelUsers a ! k > 0" and "AI_semaphore a = Some True" and "AI_doneSemaphore a = Some False"
    and "ADC_input s k = Some v"
  shows "\<exists>s'. AnalogIn_GetValueMulti (2 ^ k) values s =
    Some (CONTROLLER_OK, values[k := uint (ADC_CDR s ! 0 AND 0xFFFF)], s')"
proof -
  have rng: "\<not> ((2 :: int) ^ k < 0 \<or> (2 :: int) ^ k > 255)"
  proof -
    have "(2 :: int) ^ k \<le> 2 ^ 7" using assms(2) by (intro power_increasing) auto
    then show ?thesis by simp
  qed
  have k: "k \<in> set [0..<8]" "distinct [0..<8]" using assms(2) by auto
  show ?thesis
    using assms rng unfolding AnalogIn_GetValueMulti_def multi_single [OF k]
    by (simp add: take_semaphore_def take_done_def adc_select_def adc_convert_def AnalogInIsr_Handler_def)
qed

theorem analogin_multi_wrong_register_witness:
  "\<exists>s'. AnalogIn_GetValueMulti (2 ^ 5) (replicate 8 7)
      (inputs_boot\<lparr>AnalogIn := Some ain_used, ADC_input := (\<lambda>_. Some 900)\<rparr>) =
    Some (CONTROLLER_OK, [7, 7, 7, 7, 7, 0, 7, 7], s')"
proof -
  have "AI_channelUsers ain_used ! 5 > 0" by (simp add: ain_used_def)
  then show ?thesis
    using analogin_multi_wrong_register [of 5 "inputs_boot\<lparr>AnalogIn := Some ain_used, ADC_input := (\<lambda>_. Some 900)\<rparr>"
        ain_used 900 "replicate 8 7"]
    by (simp add: inputs_boot_def digitalout_state.defs numeral_eq_Suc)
qed

end
