(* ===== verification/Fdu.thy ===== *)
theory Fdu
  imports Inputs
begin

text \<open>
  The fault detection unit (\<^verbatim>\<open>src/firmware/libraries/fdu/fdu.c\<close>): the watchdog task, which shows a Gray
  code on digital outputs 0 to 2 and follows the prime input, the alive signal on digital output 3, and
  the error injector, which puts the unit into one of its fault modes. Each endless task is modelled by
  one pass of its loop; a pass is a state transformer that may fail to return.
\<close>

subsection \<open>State\<close>

datatype jtask = T_stroke_wdt | T_error_injector | T_run_away | T_motorreceive | T_motorsender

text \<open>The timer entries of the project, as addresses of the timer heap, and the callbacks they run.\<close>

abbreviation (input) aliveTimer :: nat where "aliveTimer \<equiv> 2"
abbreviation (input) dietimer :: nat where "dietimer \<equiv> 3"
abbreviation (input) CB_alive :: nat where "CB_alive \<equiv> 2"
abbreviation (input) CB_run_away :: nat where "CB_run_away \<equiv> 3"

record fdu_state = inputs_state +
  fdu_mode :: int
  ISPRIME :: int
  aliveValue :: bool
  created_tasks :: "jtask list"

definition setFduMode :: "int \<Rightarrow> 'a fdu_state_scheme \<Rightarrow> 'a fdu_state_scheme" where
  "setFduMode v s = s\<lparr>fdu_mode := v\<rparr>"

definition getFduMode :: "'a fdu_state_scheme \<Rightarrow> int" where
  "getFduMode s = fdu_mode s"

definition isPrime :: "'a fdu_state_scheme \<Rightarrow> int" where
  "isPrime s = ISPRIME s"

definition setPrime :: "int \<Rightarrow> 'a fdu_state_scheme \<Rightarrow> 'a fdu_state_scheme" where
  "setPrime i s = s\<lparr>ISPRIME := i\<rparr>"

subsection \<open>The watchdog\<close>

definition wdt_bit :: "nat \<Rightarrow> u8 \<Rightarrow> u8" where
  "wdt_bit k i = (drop_bit (Suc k) i AND 1) XOR (drop_bit k i AND 1)"

definition stroke_outputs :: "u8 \<Rightarrow> 'a fdu_state_scheme \<Rightarrow> 'a fdu_state_scheme option" where
  "stroke_outputs i s =
     do {
       (_, s) \<leftarrow> DigitalOut_SetValue 0 (uint (wdt_bit 0 i)) s;
       (_, s) \<leftarrow> DigitalOut_SetValue 1 (uint (wdt_bit 1 i)) s;
       (_, s) \<leftarrow> DigitalOut_SetValue 2 (uint (wdt_bit 2 i)) s;
       Some s
     }"

text \<open>The body of the inner loop: the loop variable it leaves, and the state.\<close>

definition stroke_body :: "u8 \<Rightarrow> (u8, 'a fdu_state_scheme) op" where
  "stroke_body i s =
     (if getFduMode s \<noteq> 4 then
        (let i = (if getFduMode s = 5 then i - 2 else i)
         in map_option (\<lambda>s. (i, s)) (stroke_outputs i s))
      else Some (i, s))"

partial_function (option) stroke_loop :: "u8 \<Rightarrow> 'a fdu_state_scheme \<Rightarrow> 'a fdu_state_scheme option" where
  "stroke_loop i s =
     (if i < 8 then Option.bind (stroke_body i s) (\<lambda>(i, s). stroke_loop (i + 1) s) else Some s)"

text \<open>One pass of the task: the time it sleeps, in milliseconds, and the state after the inner loop.\<close>

definition stroke_wdt :: "(nat, 'a fdu_state_scheme) op" where
  "stroke_wdt s =
     do {
       (v, s) \<leftarrow> DigitalIn_GetValue 0 s;
       let s = setPrime v s in
       do {
         (_, s) \<leftarrow> Led_SetState (isPrime s) s;
         let delay = (if getFduMode s = 6 then 200 else 100) in
         do {
           s \<leftarrow> stroke_loop 0 s;
           Some (delay, s)
         }
       }
     }"

subsection \<open>The alive signal\<close>

definition aliveIRQCallback :: "(unit, 'a fdu_state_scheme) op" where
  "aliveIRQCallback s =
     (let s = s\<lparr>aliveValue := \<not> aliveValue s\<rparr>
      in map_option (\<lambda>(_, s). ((), s))
           (if isPrime s \<noteq> 0 then DigitalOut_SetValue 3 (of_bool (aliveValue s)) s
            else DigitalOut_SetValue 3 0 s))"

definition gen_alive :: "'a fdu_state_scheme \<Rightarrow> 'a fdu_state_scheme" where
  "gen_alive s =
     (let s = snd (FastTimer_SetActive True s);
          s = FastTimer_InitializeEntry aliveTimer (Some CB_alive) 0 100 True s
      in snd (FastTimer_Set aliveTimer s))"

subsection \<open>The error injector\<close>

partial_function (option) run_away_loop :: "int \<Rightarrow> unit option" where
  "run_away_loop i = run_away_loop (i + 1)"

definition run_away_callback :: "(unit, 'a fdu_state_scheme) op" where
  "run_away_callback s = map_option (\<lambda>u. (u, s)) (run_away_loop 0)"

definition run_away :: "'a fdu_state_scheme \<Rightarrow> 'a fdu_state_scheme" where
  "run_away s =
     (let s = snd (FastTimer_SetActive True s);
          s = FastTimer_InitializeEntry dietimer (Some CB_run_away) 0 1 True s
      in snd (FastTimer_Set dietimer s))"

definition inject :: "int \<Rightarrow> 'a fdu_state_scheme \<Rightarrow> 'a fdu_state_scheme" where
  "inject err s =
     (if err = 1 then setFduMode 1 s
      else if err = 4 then setFduMode 4 s
      else if err = 5 then setFduMode 5 s
      else if err = 6 then setFduMode 6 s
      else if err = 7 then (setFduMode 7 s)\<lparr>created_tasks := created_tasks s @ [T_run_away]\<rparr>
      else setFduMode 0 s)"

definition error_injector_apply :: "int \<Rightarrow> 'a fdu_state_scheme \<Rightarrow> 'a fdu_state_scheme option" where
  "error_injector_apply err s =
     (if err \<noteq> 0 then
        do {
          (_, s) \<leftarrow> AppLed_SetState 0 (err AND 1) s;
          (_, s) \<leftarrow> AppLed_SetState 1 (drop_bit 1 err AND 1) s;
          (_, s) \<leftarrow> AppLed_SetState 2 (drop_bit 2 err AND 1) s;
          (_, s) \<leftarrow> AppLed_SetState 3 (drop_bit 3 err AND 1) s;
          Some (inject err s)
        }
      else Some s)"

definition error_injector :: "'a fdu_state_scheme \<Rightarrow> 'a fdu_state_scheme option" where
  "error_injector s =
     do {
       (a, s) \<leftarrow> DigitalIn_GetValue 4 s;
       (b, s) \<leftarrow> DigitalIn_GetValue 5 s;
       (c, s) \<leftarrow> DigitalIn_GetValue 6 s;
       (d, s) \<leftarrow> DigitalIn_GetValue 7 s;
       error_injector_apply (a OR push_bit 1 b OR push_bit 2 c OR push_bit 3 d) s
     }"

subsection \<open>The watchdog's code\<close>

lemma run_away_never: "run_away_loop i = None"
proof (cases "run_away_loop i")
  case (Some u)
  have False
    using run_away_loop.raw_induct [of "\<lambda>_ _. False" i u] Some by blast
  then show ?thesis ..
qed

definition wdt_code :: "'a fdu_state_scheme \<Rightarrow> bool list" where
  "wdt_code s = map (\<lambda>k. line_out s (DigitalOut_GetIo k)) [0, 1, 2]"

definition gray :: "nat \<Rightarrow> bool list" where
  "gray i = map (\<lambda>k. bit i (Suc k) \<noteq> bit i k) [0, 1, 2]"

definition hamming :: "bool list \<Rightarrow> bool list \<Rightarrow> nat" where
  "hamming xs ys = length (filter (\<lambda>(x, y). x \<noteq> y) (zip xs ys))"

definition wdt_ready :: "'a fdu_state_scheme \<Rightarrow> bool" where
  "wdt_ready s \<longleftrightarrow> dout_inv s \<and> (\<forall>k \<in> {0, 1, 2}. DigitalOut_users s ! k > 0)"

lemma wdt_bit_eq: "uint (wdt_bit k i) \<noteq> 0 \<longleftrightarrow> bit i (Suc k) \<noteq> bit i k"
proof -
  have "drop_bit n i AND 1 = (of_bool (bit i n) :: u8)" for n
    by (simp add: and_one_eq mod_2_eq_odd bit_iff_odd_drop_bit)
  then show ?thesis by (simp add: wdt_bit_def)
qed

lemma fdu_frame [simp]:
  "fdu_mode (snd (set_line w i s)) = fdu_mode s" "ISPRIME (snd (set_line w i s)) = ISPRIME s"
  "aliveValue (snd (set_line w i s)) = aliveValue s"
  by (simp_all add: set_line_def on_port_def)

lemma fdu_frame_SetValue [simp]:
  "fdu_mode (snd (Io_SetValue l v s)) = fdu_mode s" "ISPRIME (snd (Io_SetValue l v s)) = ISPRIME s"
  "aliveValue (snd (Io_SetValue l v s)) = aliveValue s"
  by (simp_all add: Io_SetValue_def)

lemma stroke_outputs_ready:
  assumes "wdt_ready s"
  shows "\<exists>s'. stroke_outputs i s = Some s' \<and> wdt_ready s' \<and> fdu_mode s' = fdu_mode s \<and>
    wdt_code s' = map (\<lambda>k. bit i (Suc k) \<noteq> bit i k) [0, 1, 2]"
proof -
  have idx: "dout_index 0" "dout_index 1" "dout_index 2" by (simp_all add: dout_index_def)
  have users: "DigitalOut_users s ! 0 > 0" "DigitalOut_users s ! Suc 0 > 0" "DigitalOut_users s ! 2 > 0"
    and inv: "dout_inv s" using assms by (auto simp: wdt_ready_def)
  show ?thesis
    using inv users
    by (simp add: stroke_outputs_def DigitalOut_SetValue_held [OF _ idx(1)] DigitalOut_SetValue_held [OF _ idx(2)]
        DigitalOut_SetValue_held [OF _ idx(3)] wdt_ready_def wdt_code_def dout_line_out idx wdt_bit_eq
        flip: One_nat_def)
qed

lemma small_cases: "(i :: nat) < 8 \<Longrightarrow> i \<in> {0, 1, 2, 3, 4, 5, 6, 7}"
  by auto

lemma gray_u8: "i < 8 \<Longrightarrow> map (\<lambda>k. bit (of_nat i :: u8) (Suc k) \<noteq> bit (of_nat i :: u8) k) [0, 1, 2] = gray i"
  by (simp add: gray_def bit_simps)

lemma gray_step: "i < 8 \<Longrightarrow> hamming (gray ((i + 7) mod 8)) (gray i) = 1"
proof -
  have "list_all (\<lambda>i. hamming (gray ((i + 7) mod 8)) (gray i) = 1) [0..<8]" by code_simp
  then show "i < 8 \<Longrightarrow> hamming (gray ((i + 7) mod 8)) (gray i) = 1" by (simp add: list_all_iff)
qed

lemma stroke_body_normal:
  assumes "wdt_ready s" and "fdu_mode s \<notin> {4, 5}" and "i < 8"
  shows "\<exists>s'. stroke_body (of_nat i) s = Some (of_nat i, s') \<and> wdt_ready s' \<and> fdu_mode s' = fdu_mode s \<and>
    wdt_code s' = gray i"
  using stroke_outputs_ready [OF assms(1), of "of_nat i"] assms(2) gray_u8 [OF assms(3)]
  by (auto simp: stroke_body_def getFduMode_def)

text \<open>
  C9: in every mode but the two that disturb it, each step of the watchdog task's loop shows the next
  word of the three-bit Gray code on digital outputs 0 to 2: exactly one of the three outputs changes,
  also on the step from the last word to the first.
\<close>

theorem stroke_wdt_gray_code:
  assumes "wdt_ready s" and "fdu_mode s \<notin> {4, 5}" and "i < 8" and "wdt_code s = gray ((i + 7) mod 8)"
  shows "\<exists>s'. stroke_body (of_nat i) s = Some (of_nat i, s') \<and> wdt_ready s' \<and> wdt_code s' = gray i \<and>
    hamming (wdt_code s) (wdt_code s') = 1"
  using stroke_body_normal [OF assms(1-3)] gray_step [OF assms(3)] assms(4) by auto

lemma u8_less_8: "i < 8 \<Longrightarrow> (of_nat i :: u8) < 8"
  by (drule small_cases) auto

lemma stroke_loop_normal:
  assumes "wdt_ready s" and "fdu_mode s \<notin> {4, 5}" and "i < 8"
  shows "\<exists>s'. stroke_loop (of_nat i) s = Some s' \<and> wdt_ready s' \<and> fdu_mode s' = fdu_mode s \<and> wdt_code s' = gray 7"
  using assms
proof (induction "7 - i" arbitrary: i s)
  case 0
  then have "i = 7" by simp
  moreover obtain s' where "stroke_body 7 s = Some (7, s')" "wdt_ready s'" "fdu_mode s' = fdu_mode s" "wdt_code s' = gray 7"
    using stroke_body_normal [OF 0(2,3), of 7] by auto
  ultimately show ?case
    using stroke_loop.simps [of 8 s'] by (simp add: stroke_loop.simps [of 7 s])
next
  case (Suc n)
  obtain s' where s': "stroke_body (of_nat i) s = Some (of_nat i, s')" "wdt_ready s'" "fdu_mode s' = fdu_mode s"
    using stroke_body_normal [OF Suc.prems] by auto
  have "stroke_loop (of_nat i) s = stroke_loop (of_nat (Suc i)) s'"
    using s'(1) u8_less_8 [OF Suc.prems(3)] by (simp add: stroke_loop.simps [of "of_nat i" s] add.commute)
  then show ?case
    using Suc.hyps(1) [of "Suc i" s'] Suc.hyps(2) Suc.prems s' by auto
qed

lemma stroke_loop_stuck:
  assumes "fdu_mode s = 4" and "i < 8"
  shows "stroke_loop (of_nat i) s = Some s"
  using assms
proof (induction "7 - i" arbitrary: i)
  case 0
  then have "i = 7" by simp
  then show ?case
    using 0 stroke_loop.simps [of 8 s] by (simp add: stroke_loop.simps [of 7 s] stroke_body_def getFduMode_def)
next
  case (Suc n)
  have "stroke_loop (of_nat i) s = stroke_loop (of_nat (Suc i)) s"
    using Suc.prems u8_less_8 [OF Suc.prems(2)]
    by (simp add: stroke_loop.simps [of "of_nat i" s] stroke_body_def getFduMode_def add.commute)
  then show ?case using Suc.hyps(1) [of "Suc i"] Suc.hyps(2) Suc.prems by simp
qed

text \<open>
  C10: a pass of the watchdog loop ends in every mode. It ends on the last Gray word; in the stuck mode
  the outputs do not move; in the mode meant to show the words out of order it shows one word only (the
  one of 254, since the loop variable is a byte that wraps below zero) and leaves the loop at once.
\<close>

theorem stroke_loop_ends:
  assumes "wdt_ready s"
  shows "\<exists>s'. stroke_loop 0 s = Some s' \<and> wdt_ready s' \<and>
    wdt_code s' = (if fdu_mode s = 4 then wdt_code s
                   else if fdu_mode s = 5 then [True, False, False] else gray 7)"
proof -
  consider "fdu_mode s = 4" | "fdu_mode s = 5" | "fdu_mode s \<notin> {4, 5}" by auto
  then show ?thesis
  proof cases
    case 1
    then show ?thesis using stroke_loop_stuck [of s 0] assms by simp
  next
    case 2
    obtain s' where s': "stroke_outputs 254 s = Some s'" "wdt_ready s'"
      "wdt_code s' = map (\<lambda>k. bit (254 :: u8) (Suc k) \<noteq> bit (254 :: u8) k) [0, 1, 2]"
      using stroke_outputs_ready [OF assms, of 254] by auto
    have "stroke_loop 255 s' = Some s'" by (simp add: stroke_loop.simps [of 255 s'])
    moreover have wrap: "- 2 = (254 :: u8)" by simp
    ultimately have "stroke_loop 0 s = Some s'"
      using s'(1) 2 by (simp add: wrap stroke_loop.simps [of 0 s] stroke_body_def getFduMode_def)
    moreover have "wdt_code s' = [True, False, False]" unfolding s'(3) by code_simp
    ultimately show ?thesis using s'(2) 2 by simp
  next
    case 3
    then show ?thesis using stroke_loop_normal [OF assms, of 0] by auto
  qed
qed

subsection \<open>The alive signal toggles while the unit is prime\<close>

fun alive_ticks :: "nat \<Rightarrow> 'a fdu_state_scheme \<Rightarrow> 'a fdu_state_scheme option" where
  "alive_ticks 0 s = Some s"
| "alive_ticks (Suc n) s = Option.bind (aliveIRQCallback s) (\<lambda>(_, s). alive_ticks n s)"

lemma alive_one:
  assumes "dout_inv s" and "DigitalOut_users s ! 3 > 0"
  shows "\<exists>s'. aliveIRQCallback s = Some ((), s') \<and> dout_inv s' \<and> DigitalOut_users s' = DigitalOut_users s \<and>
    ISPRIME s' = ISPRIME s \<and> aliveValue s' = (\<not> aliveValue s) \<and>
    line_out s' (DigitalOut_GetIo 3) = (ISPRIME s \<noteq> 0 \<and> \<not> aliveValue s)"
proof -
  let ?t = "s\<lparr>aliveValue := \<not> aliveValue s\<rparr>"
  have i: "dout_index 3" by (simp add: dout_index_def)
  have inv: "dout_inv ?t"
    using assms(1) by (simp add: dout_inv_def dout_active_def io_inv_def line_locked_def)
  show ?thesis
    using inv assms(2)
    by (simp add: aliveIRQCallback_def Let_def isPrime_def DigitalOut_SetValue_held [OF inv i] dout_line_out i)
qed

text \<open>
  After any number of alive interrupts the alive output shows the alternating value while the unit
  is prime, a new level on every interrupt, and stays low while it is not.
\<close>

theorem alive_signal:
  assumes "dout_inv s" and "DigitalOut_users s ! 3 > 0"
  shows "\<exists>s'. alive_ticks (Suc n) s = Some s' \<and>
    aliveValue s' = (aliveValue s \<noteq> even n) \<and>
    line_out s' (DigitalOut_GetIo 3) = (ISPRIME s \<noteq> 0 \<and> aliveValue s \<noteq> even n)"
  using assms
proof (induction n arbitrary: s)
  case 0
  then show ?case using alive_one [OF 0] by auto
next
  case (Suc n)
  obtain t where t: "aliveIRQCallback s = Some ((), t)" "dout_inv t" "DigitalOut_users t ! 3 > 0"
    "ISPRIME t = ISPRIME s" "aliveValue t = (\<not> aliveValue s)"
    using alive_one [OF Suc.prems] Suc.prems(2) by auto
  have "alive_ticks (Suc (Suc n)) s = alive_ticks (Suc n) t" using t(1) by simp
  moreover obtain u where "alive_ticks (Suc n) t = Some u" "aliveValue u = (aliveValue t \<noteq> even n)"
    "line_out u (DigitalOut_GetIo 3) = (ISPRIME t \<noteq> 0 \<and> aliveValue t \<noteq> even n)"
    using Suc.IH [OF t(2,3)] by blast
  ultimately show ?case using t(4,5) by auto
qed

subsection \<open>The injected error decides the mode\<close>

lemma fdu_frame_io [simp]:
  "Io_Start i lk s = Some (r, s') \<Longrightarrow> fdu_mode s' = fdu_mode s"
  "Io_Start i lk s = Some (r, s') \<Longrightarrow> created_tasks s' = created_tasks s"
  "created_tasks (snd (set_line w i s)) = created_tasks s"
  by (auto simp: set_line_def on_port_def Io_Start_def pin_take_def Io_Init_def Let_def split: if_splits)

lemma fdu_frame_setters [simp]:
  "created_tasks (snd (Io_SetValue i v s)) = created_tasks s"
  "created_tasks (snd (Io_SetPio i v s)) = created_tasks s"
  "created_tasks (snd (Io_SetDirection i v s)) = created_tasks s"
  "fdu_mode (snd (Io_SetPio i v s)) = fdu_mode s"
  "fdu_mode (snd (Io_SetDirection i v s)) = fdu_mode s"
  by (simp_all add: Io_SetValue_def Io_SetPio_def Io_PioEnable_def Io_PioDisable_def
      Io_SetDirection_def Io_SetOutput_def Io_SetInput_def)

lemma appled_add_fdu [simp]:
  "fdu_mode (appled_add i d s) = fdu_mode s" "created_tasks (appled_add i d s) = created_tasks s"
  by (simp_all add: appled_add_def)

lemma AppLed_Start_fdu:
  "AppLed_Start i s = Some (r, s') \<Longrightarrow> fdu_mode s' = fdu_mode s \<and> created_tasks s' = created_tasks s"
  by (auto simp: AppLed_Start_def Let_def split: if_splits Option.bind_splits)

lemma appled_inv_SetValue [simp]: "appled_inv (snd (Io_SetValue l v s)) = appled_inv s"
  by (simp add: appled_inv_def)

lemma AppLed_SetState_total:
  assumes "appled_inv s" and "0 \<le> i" and "i < 4"
  shows "\<exists>r s'. AppLed_SetState i v s = Some (r, s') \<and> appled_inv s' \<and> fdu_mode s' = fdu_mode s \<and>
    created_tasks s' = created_tasks s"
proof -
  have i: "appled_index i" using assms by (simp add: appled_index_def)
  obtain r t where t: "AppLed_Start i s = Some (r, t)" "appled_inv t"
    using appled.start_step [of s i] assms i by auto
  note f = AppLed_Start_fdu [OF t(1)]
  show ?thesis
    using assms t f by (auto simp: AppLed_SetState_def)
qed

text \<open>
  Whatever the error switches show, the injector's pass returns with the unit in the mode of the
  error, in mode 0 for an undefined one, and in the mode it had before when no switch is set; and every
  pass that sees the run-away error creates a run-away task, even when one exists.
\<close>

theorem error_injector_mode:
  assumes "appled_inv s"
  shows "\<exists>s'. error_injector_apply err s = Some s' \<and>
    fdu_mode s' = (if err = 0 then fdu_mode s else if err \<in> {1, 4, 5, 6, 7} then err else 0) \<and>
    created_tasks s' = created_tasks s @ (if err = 7 then [T_run_away] else [])"
proof (cases "err = 0")
  case True
  then show ?thesis by (simp add: error_injector_apply_def)
next
  case False
  obtain r1 s1 where s1: "AppLed_SetState 0 (err AND 1) s = Some (r1, s1)" "appled_inv s1"
    "fdu_mode s1 = fdu_mode s" "created_tasks s1 = created_tasks s"
    using AppLed_SetState_total [OF assms, of 0 "err AND 1"] by auto
  obtain r2 s2 where s2: "AppLed_SetState 1 (drop_bit 1 err AND 1) s1 = Some (r2, s2)" "appled_inv s2"
    "fdu_mode s2 = fdu_mode s" "created_tasks s2 = created_tasks s"
    using AppLed_SetState_total [OF s1(2), of 1 "drop_bit 1 err AND 1"] s1(3,4) by auto
  obtain r3 s3 where s3: "AppLed_SetState 2 (drop_bit 2 err AND 1) s2 = Some (r3, s3)" "appled_inv s3"
    "fdu_mode s3 = fdu_mode s" "created_tasks s3 = created_tasks s"
    using AppLed_SetState_total [OF s2(2), of 2 "drop_bit 2 err AND 1"] s2(3,4) by auto
  obtain r4 s4 where s4: "AppLed_SetState 3 (drop_bit 3 err AND 1) s3 = Some (r4, s4)" "appled_inv s4"
    "fdu_mode s4 = fdu_mode s" "created_tasks s4 = created_tasks s"
    using AppLed_SetState_total [OF s3(2), of 3 "drop_bit 3 err AND 1"] s3(3,4) by auto
  have "error_injector_apply err s = Some (inject err s4)"
    using False s1(1) s2(1) s3(1) s4(1) by (simp add: error_injector_apply_def)
  then show ?thesis using s4(4) False by (auto simp: inject_def setFduMode_def)
qed

subsection \<open>Concrete runs\<close>

definition held_pins :: "nat list \<Rightarrow> IoPin list" where
  "held_pins ls = map (\<lambda>i. if i \<in> set ls then \<lparr>IoPin_users = 1, IoPin_lock = True\<rparr>
                       else \<lparr>IoPin_users = 0, IoPin_lock = False\<rparr>) [0..<64]"

definition fdu_running :: fdu_state where
  "fdu_running = inputs_state.extend
     (inputs_boot\<lparr>Io_users := 6, Io_init := 1, Io_pins := held_pins [2, 5, 6, 24, 51, 52],
        DigitalOut_users := [1, 1, 1, 1, 0, 0, 0, 0], DigitalOut_enableUsers := [2, 2, 0, 0]\<rparr>)
     \<lparr>fdu_mode = 0, ISPRIME = 1, aliveValue = False, created_tasks = []\<rparr>"

lemma fdu_running_fields:
  "Io_users fdu_running = 6" "Io_init fdu_running = 1" "Io_pins fdu_running = held_pins [2, 5, 6, 24, 51, 52]"
  "DigitalOut_users fdu_running = [1, 1, 1, 1, 0, 0, 0, 0]" "DigitalOut_enableUsers fdu_running = [2, 2, 0, 0]"
  "fdu_mode fdu_running = 0" "ISPRIME fdu_running = 1" "aliveValue fdu_running = False"
  "created_tasks fdu_running = []" "AppLed_users fdu_running = AppLed_users leds_boot"
  by (simp_all add: fdu_running_def inputs_state.defs inputs_boot_def digitalout_state.defs dout_boot_def leds_state.defs)

lemma held_pins_inv:
  "list_all pin_ok (held_pins ls)" "length (held_pins ls) = 64"
  "total_users (held_pins [2, 5, 6, 24, 51, 52]) = 6"
proof -
  show "list_all pin_ok (held_pins ls)"
    by (auto simp: held_pins_def list_all_iff pin_ok_def split: if_splits)
  show "length (held_pins ls) = 64" by (simp add: held_pins_def)
  show "total_users (held_pins [2, 5, 6, 24, 51, 52]) = 6" by code_simp
qed

lemma fdu_running_locked:
  "line_locked fdu_running l \<longleftrightarrow> l \<in> {2, 5, 6, 24, 51, 52}"
  by (auto simp: line_locked_def io_line_def fdu_running_fields held_pins_def nat_eq_iff2 split: if_splits)

lemma fdu_running_inv: "io_inv fdu_running" "dout_inv fdu_running" "wdt_ready fdu_running"
proof -
  show io: "io_inv fdu_running"
    using held_pins_inv by (simp add: io_inv_def fdu_running_fields)
  have "DigitalOut_users fdu_running ! nat i \<ge> 0 \<and>
      (DigitalOut_users fdu_running ! nat i > 0 \<longrightarrow> line_locked fdu_running (DigitalOut_GetIo i))"
    if "dout_index i" for i
    using that unfolding dout_index_cases
    by (auto simp: fdu_running_fields fdu_running_locked DigitalOut_GetIo_def numeral_eq_Suc)
  moreover have "DigitalOut_enableUsers fdu_running ! nat e \<ge> dout_active fdu_running (2 * e) + dout_active fdu_running (2 * e + 1) \<and>
      (DigitalOut_enableUsers fdu_running ! nat e > 0 \<longrightarrow> line_locked fdu_running (DigitalOut_GetEnableIo e))"
    if "0 \<le> e \<and> e < 4" for e
    using that unfolding dout_enable_cases
    by (auto simp: fdu_running_fields fdu_running_locked DigitalOut_GetEnableIo_def dout_active_def numeral_eq_Suc)
  ultimately show inv: "dout_inv fdu_running"
    using io unfolding dout_inv_def by (simp add: dout_index_def fdu_running_fields)
  show "wdt_ready fdu_running"
    using inv by (simp add: wdt_ready_def fdu_running_fields)
qed

theorem stroke_wdt_gray_code_witness:
  "\<exists>s s'. stroke_outputs 0 fdu_running = Some s \<and> stroke_body 1 s = Some (1, s') \<and>
    wdt_code s' = [True, False, False] \<and> hamming (wdt_code s) (wdt_code s') = 1"
proof -
  obtain s where s: "stroke_outputs 0 fdu_running = Some s" "wdt_ready s" "fdu_mode s = 0" "wdt_code s = gray 0"
    using stroke_outputs_ready [OF fdu_running_inv(3), of 0] by (auto simp: fdu_running_fields gray_def)
  have "gray 1 = [True, False, False]" by code_simp
  then show ?thesis using stroke_wdt_gray_code [OF s(2), of 1] s by auto
qed

theorem stroke_loop_ends_witness:
  "\<exists>s'. stroke_loop 0 fdu_running = Some s' \<and> wdt_code s' = [False, False, True]"
proof -
  have "gray 7 = [False, False, True]" by code_simp
  then show ?thesis using stroke_loop_ends [OF fdu_running_inv(3)] by (auto simp: fdu_running_fields)
qed

theorem alive_signal_witness:
  "\<exists>s'. alive_ticks (Suc 2) fdu_running = Some s' \<and> line_out s' 2"
  using alive_signal [OF fdu_running_inv(2), of 2] by (auto simp: fdu_running_fields DigitalOut_GetIo_def)

theorem error_injector_mode_witness:
  "\<exists>s'. error_injector_apply 7 fdu_running = Some s' \<and> fdu_mode s' = 7 \<and> created_tasks s' = [T_run_away]"
proof -
  have "AppLed_users fdu_running = replicate 4 0"
    by (simp add: fdu_running_fields leds_boot_def fasttimer_state.defs)
  then have "appled_inv fdu_running"
    using fdu_running_inv(1) by (intro appled_invI) (auto simp: appled_index_def)
  then show ?thesis using error_injector_mode [of fdu_running 7] by (simp add: fdu_running_fields)
qed

end
