(* ===== verification/CanFrame.thy ===== *)
theory CanFrame
  imports Fdu
begin

text \<open>
  The CAN frame, its fifteen-bit checksum, the way the sender lays a frame out in words and the receiver's
  bit-by-bit state machine (\<^verbatim>\<open>src/firmware/libraries/can/can.h\<close>, \<^verbatim>\<open>can.c\<close>). The fields of the frame
  keep the widths of the bit-fields of the C structure. An access beyond an array is \<open>None\<close>.
\<close>

subsection \<open>Frames and checksum\<close>

record Frame =
  standard :: "1 word"
  identifier1 :: "11 word"
  identifier2 :: "18 word"
  rtr :: "1 word"
  dlc :: "4 word"
  data :: "u8 list"
  crc :: "16 word"
  ack :: "2 word"
  eof :: "7 word"

definition crc15_bit :: "bool \<Rightarrow> u32 \<Rightarrow> u32" where
  "crc15_bit b c =
     (let top = c AND 0x4000;
          c = push_bit 1 c;
          c = (if b then c OR 1 else c)
      in if top \<noteq> 0 then c XOR 0x4599 else c)"

definition crc15_byte :: "u8 \<Rightarrow> u32 \<Rightarrow> u32" where
  "crc15_byte p c = fold (\<lambda>j. crc15_bit (bit p j)) [7, 6, 5, 4, 3, 2, 1, 0] c"

definition crc15 :: "u8 list \<Rightarrow> u32" where
  "crc15 p = fold (\<lambda>_. crc15_bit False) [0..<15] (fold crc15_byte p 0) AND 0x7FFF"

subsection \<open>The sender's words\<close>

type_synonym send_buffer = "u32 list \<times> nat \<times> int \<times> nat"

text \<open>Or one bit into the current word and move the bit pointer down, to the next word after bit 0.\<close>

definition send_put :: "bool \<Rightarrow> send_buffer \<Rightarrow> send_buffer" where
  "send_put b = (\<lambda>(d, wordpointer, bitpointer, len).
     (let d = d[wordpointer := d ! wordpointer OR push_bit (nat bitpointer) (of_bool b)];
          bitpointer = bitpointer - 1;
          (bitpointer, wordpointer) = (if bitpointer = - 1 then (31, wordpointer + 1) else (bitpointer, wordpointer))
      in (d, wordpointer, bitpointer, len + 1)))"

definition send_header :: "Frame \<Rightarrow> u32" where
  "send_header f =
     push_bit 31 0 OR push_bit 20 (ucast (identifier1 f)) OR push_bit 19 (ucast (rtr f)) OR
     push_bit 18 0 OR push_bit 17 1 OR push_bit 13 (ucast (dlc f))"

definition send_data_bits :: "Frame \<Rightarrow> bool list" where
  "send_data_bits f = map (\<lambda>i. bit (data f ! (i div 8)) (7 - i mod 8)) [0..<unat (dlc f) * 8]"

definition send_crc_bytes :: "u32 list \<Rightarrow> nat \<Rightarrow> u8 list" where
  "send_crc_bytes d len =
     map (\<lambda>i. if i mod 4 = 0 then ucast (drop_bit 24 (d ! (i div 4)) AND 0xFF)
              else if i mod 4 = 1 then ucast (drop_bit 16 (d ! (i div 4)) AND 0xFF)
              else if i mod 4 = 2 then ucast (drop_bit 8 (d ! (i div 4)) AND 0xFF)
              else ucast (d ! (i div 4) AND 0xFF)) [0..<(len + 7) div 8]"

definition send_crc :: "u8 list \<Rightarrow> 16 word" where
  "send_crc bytes = (let c = ucast (crc15 bytes) in push_bit 1 c OR 1)"

text \<open>
  The frame as words and its length in bits; reading the data of a frame whose length field exceeds the
  eight bytes of the structure goes beyond the array.
\<close>

definition send_words :: "Frame \<Rightarrow> (u32 list \<times> nat) option" where
  "send_words f =
     (if unat (dlc f) > length (data f) then None
      else let d = (replicate 20 0)[0 := send_header f];
               (d, wp, bp, len) = fold send_put (send_data_bits f) (d, 0, 12, 19);
               c = send_crc (send_crc_bytes d len);
               (d, wp, bp, len) = fold send_put (map (\<lambda>i. bit c (15 - i mod 16)) [0..<16]) (d, wp, bp, len);
               (d, wp, bp, len) = fold send_put (map (\<lambda>_. True) [0..<12]) (d, wp, bp, len)
           in Some (d, len))"

subsection \<open>The receiver\<close>

datatype STATE = IDLE | ID_FIELD1 | RTR_SRR | IDE | R1 | R0 | ID_FIELD2 | RTR_EXTD | DLC | DATA | CRC
  | ACKFLAG | ACKDELIM | EOFRAME | INTERFRAME | ERROR_FLAG | ERROR_DELIM | UNKNOWN

fun state_code :: "STATE \<Rightarrow> int" where
  "state_code IDLE = 1" | "state_code ID_FIELD1 = 2" | "state_code RTR_SRR = 4" | "state_code IDE = 8"
| "state_code R1 = 11" | "state_code R0 = 9" | "state_code ID_FIELD2 = 5" | "state_code RTR_EXTD = 6"
| "state_code DLC = 10" | "state_code DATA = 12" | "state_code CRC = 13" | "state_code ACKFLAG = 14"
| "state_code ACKDELIM = 15" | "state_code EOFRAME = 7" | "state_code INTERFRAME = 3"
| "state_code ERROR_FLAG = 16" | "state_code ERROR_DELIM = 17" | "state_code UNKNOWN = 31"

record can_rx =
  State :: STATE
  BitCount :: nat
  DataCount :: nat
  CurrFrame :: Frame

definition empty_frame :: Frame where
  "empty_frame = \<lparr>standard = 0, identifier1 = 0, identifier2 = 0, rtr = 0, dlc = 0, data = replicate 8 0,
     crc = 0, ack = 0, eof = 0\<rparr>"

text \<open>The bytes over which the receiver recomputes the checksum.\<close>

definition check_bytes :: "Frame \<Rightarrow> u8 list" where
  "check_bytes f =
     (let d = replicate 12 0;
          d = d[0 := ucast (drop_bit 4 (identifier1 f))];
          d = d[1 := push_bit 4 (ucast (identifier1 f)) OR push_bit 3 (ucast (rtr f)) OR push_bit 1 1 OR
                     ucast (drop_bit 3 (dlc f))];
          d = d[2 := push_bit 5 (ucast (dlc f))];
          d = fold (\<lambda>i d. let d = d[i + 2 := d ! (i + 2) OR drop_bit 3 (data f ! i)]
                          in d[i + 3 := push_bit 5 (data f ! i)]) [0..<unat (dlc f)] d
      in take (unat (dlc f) + 3) d)"

definition Can_CheckCRC :: "Frame \<Rightarrow> (bool \<times> Frame) option" where
  "Can_CheckCRC f =
     (if unat (dlc f) > length (data f) then None
      else let c = ucast (push_bit 1 (crc15 (check_bytes f)) OR 1)
           in Some (c \<noteq> crc f, f\<lparr>crc := c\<rparr>))"

text \<open>
  One sample of the bus: the new receiver and, if the handler writes the transmit line, the level it
  writes. \<open>v\<close> is the sampled level, recessive when true.
\<close>

definition rx_eof :: "bool \<Rightarrow> can_rx \<Rightarrow> (can_rx \<times> bool list) option" where
  "rx_eof v r =
     do {
       (bad, r) \<leftarrow> (if BitCount r = 0
                    then map_option (\<lambda>(bad, f). (bad, r\<lparr>CurrFrame := f\<rparr>)) (Can_CheckCRC (CurrFrame r))
                    else Some (False, r));
       if bad then Some (r\<lparr>BitCount := 1, State := ERROR_FLAG\<rparr>, [False])
       else
         let r = (if \<not> v then r\<lparr>BitCount := 1, State := ERROR_FLAG\<rparr> else r);
             f = CurrFrame r;
             r = r\<lparr>CurrFrame := f\<lparr>eof := eof f OR push_bit (6 - BitCount r) (of_bool v)\<rparr>,
                   BitCount := BitCount r + 1\<rparr>
         in Some (if BitCount r \<ge> 7 then r\<lparr>BitCount := 0, State := INTERFRAME\<rparr> else r, [])
     }"

definition rx_machine :: "bool \<Rightarrow> can_rx \<Rightarrow> (can_rx \<times> bool list) option" where
  "rx_machine v r =
     (let f = CurrFrame r; n = BitCount r in
      case State r of
        IDLE \<Rightarrow> Some (if \<not> v then r\<lparr>CurrFrame := empty_frame, State := ID_FIELD1\<rparr> else r, [])
      | ID_FIELD1 \<Rightarrow>
          let r = r\<lparr>CurrFrame := f\<lparr>identifier1 := identifier1 f OR push_bit (10 - n) (of_bool v)\<rparr>,
                    BitCount := n + 1\<rparr>
          in Some (if BitCount r \<ge> 11 then r\<lparr>BitCount := 0, State := RTR_SRR\<rparr> else r, [])
      | RTR_SRR \<Rightarrow> Some (r\<lparr>CurrFrame := f\<lparr>rtr := of_bool v\<rparr>, State := IDE\<rparr>, [])
      | IDE \<Rightarrow>
          Some (r\<lparr>CurrFrame := f\<lparr>standard := of_bool (\<not> v)\<rparr>, State := (if \<not> v then R0 else ID_FIELD2)\<rparr>, [])
      | R0 \<Rightarrow> Some (r\<lparr>State := DLC\<rparr>, [])
      | ID_FIELD2 \<Rightarrow>
          let r = r\<lparr>CurrFrame := f\<lparr>identifier2 := identifier2 f OR push_bit (17 - n) (of_bool v)\<rparr>,
                    BitCount := n + 1\<rparr>
          in Some (if BitCount r \<ge> 18 then r\<lparr>BitCount := 0, State := RTR_EXTD\<rparr> else r, [])
      | RTR_EXTD \<Rightarrow> Some (r\<lparr>CurrFrame := f\<lparr>rtr := of_bool v\<rparr>, State := R1\<rparr>, [])
      | R1 \<Rightarrow> Some (r\<lparr>State := R0\<rparr>, [])
      | DLC \<Rightarrow>
          let f = f\<lparr>dlc := dlc f OR push_bit (3 - n) (of_bool v)\<rparr>;
              r = r\<lparr>CurrFrame := f, BitCount := n + 1\<rparr>
          in Some (if BitCount r \<ge> 4
                   then r\<lparr>BitCount := 0, State := (if dlc f = 0 then CRC else DATA)\<rparr> else r, [])
      | DATA \<Rightarrow>
          if DataCount r \<ge> length (data f) then None
          else
            let k = DataCount r;
                r = r\<lparr>CurrFrame := f\<lparr>data := (data f)[k := data f ! k OR push_bit (7 - n) (of_bool v)]\<rparr>,
                      BitCount := n + 1\<rparr>;
                r = (if BitCount r \<ge> 8 then r\<lparr>BitCount := 0, DataCount := k + 1\<rparr> else r)
            in Some (if DataCount r \<ge> unat (dlc f)
                     then r\<lparr>BitCount := 0, DataCount := 0, State := CRC\<rparr> else r, [])
      | CRC \<Rightarrow>
          let r = r\<lparr>CurrFrame := f\<lparr>crc := crc f OR push_bit (15 - n) (of_bool v)\<rparr>, BitCount := n + 1\<rparr>
          in Some (if BitCount r \<ge> 16 then r\<lparr>BitCount := 0, State := ACKFLAG\<rparr> else r, [])
      | ACKFLAG \<Rightarrow> Some (r\<lparr>CurrFrame := f\<lparr>ack := of_bool v\<rparr>, State := ACKDELIM\<rparr>, [False])
      | ACKDELIM \<Rightarrow> Some (r\<lparr>CurrFrame := f\<lparr>ack := ack f OR push_bit 1 (ack f)\<rparr>, State := EOFRAME\<rparr>, [True])
      | EOFRAME \<Rightarrow> rx_eof v r
      | ERROR_FLAG \<Rightarrow>
          let r = r\<lparr>BitCount := n + 1\<rparr>
          in Some (if BitCount r \<ge> 6 then r\<lparr>BitCount := 0, State := ERROR_DELIM\<rparr> else r,
                   if v then [False] else [])
      | ERROR_DELIM \<Rightarrow>
          let r = r\<lparr>BitCount := n + 1\<rparr>
          in Some (if BitCount r \<ge> 8 then r\<lparr>BitCount := 0, State := INTERFRAME\<rparr> else r,
                   if \<not> v then [True] else [])
      | INTERFRAME \<Rightarrow>
          let r = r\<lparr>BitCount := n + 1\<rparr>
          in Some (if BitCount r \<ge> 3 then r\<lparr>BitCount := 0, State := IDLE\<rparr> else r, [])
      | UNKNOWN \<Rightarrow> Some (r, []))"

fun rx_run :: "bool list \<Rightarrow> can_rx \<Rightarrow> (can_rx \<times> bool list) option" where
  "rx_run [] r = Some (r, [])"
| "rx_run (v # vs) r =
     do {
       (r, out) \<leftarrow> rx_machine v r;
       (r, outs) \<leftarrow> rx_run vs r;
       Some (r, out @ outs)
     }"

subsection \<open>The bits of a frame\<close>

definition word_bits :: "'a::len word \<Rightarrow> bool list" where
  "word_bits w = map (\<lambda>k. bit w (LENGTH('a) - 1 - k)) [0..<LENGTH('a)]"

definition header_bits :: "Frame \<Rightarrow> bool list" where
  "header_bits f = False # word_bits (identifier1 f) @ word_bits (rtr f) @ [False, True] @ word_bits (dlc f)"

definition payload_bits :: "Frame \<Rightarrow> bool list" where
  "payload_bits f = concat (map word_bits (take (unat (dlc f)) (data f)))"

definition pack_bytes :: "bool list \<Rightarrow> u8 list" where
  "pack_bytes bs = map (\<lambda>i. horner_sum of_bool 2
     (rev (map (\<lambda>k. 8 * i + k < length bs \<and> bs ! (8 * i + k)) [0..<8]))) [0..<(length bs + 7) div 8]"

definition frame_crc :: "Frame \<Rightarrow> 16 word" where
  "frame_crc f = send_crc (pack_bytes (header_bits f @ payload_bits f))"

definition frame_bits :: "Frame \<Rightarrow> bool list" where
  "frame_bits f = header_bits f @ payload_bits f @ word_bits (frame_crc f) @ replicate 12 True"

subsection \<open>What the sender's words contain\<close>

text \<open>Bit \<open>k\<close> of the transmission is bit \<open>31 - k mod 32\<close> of word \<open>k div 32\<close>.\<close>

definition sbit :: "u32 list \<Rightarrow> nat \<Rightarrow> bool" where
  "sbit d k = bit (d ! (k div 32)) (31 - k mod 32)"

definition buffer_ok :: "send_buffer \<Rightarrow> bool" where
  "buffer_ok = (\<lambda>(d, w, p, n). length d = 20 \<and> w = n div 32 \<and> p = 31 - int (n mod 32))"

lemma bit_of_bool_at:
  "k < 32 \<Longrightarrow> n < 32 \<Longrightarrow> bit (push_bit (31 - n) (of_bool b :: u32)) (31 - k) \<longleftrightarrow> k = n \<and> b"
  by (auto simp: bit_push_bit_iff bit_of_bool_iff)

lemma bit_beyond: "LENGTH('a) \<le> n \<Longrightarrow> bit (w :: 'a::len word) n \<longleftrightarrow> False"
  by (auto dest: bit_imp_le_length)

lemma send_put_sbit:
  assumes "buffer_ok (d, w, p, n)" and "n < 640"
  shows "\<exists>d' w' p'. send_put b (d, w, p, n) = (d', w', p', Suc n) \<and> buffer_ok (d', w', p', Suc n) \<and>
    (\<forall>k < 640. sbit d' k = (sbit d k \<or> k = n \<and> b))"
proof -
  define d' where "d' = d[w := d ! w OR push_bit (31 - n mod 32) (of_bool b)]"
  have ok: "length d = 20" "w = n div 32" "p = 31 - int (n mod 32)" using assms(1) by (auto simp: buffer_ok_def)
  have np: "nat p = 31 - n mod 32" using ok(3) by (simp add: nat_diff_distrib)
  have wp: "(if p - 1 = - 1 then (31, w + 1) else (p - 1, w)) = (31 - int (Suc n mod 32), Suc n div 32)"
    using ok by (auto simp: mod_Suc div_Suc)
  have "send_put b (d, w, p, n) = (d', Suc n div 32, 31 - int (Suc n mod 32), Suc n)"
    using wp by (auto simp: send_put_def d'_def np Let_def split: if_splits)
  moreover have "sbit d' k = (sbit d k \<or> k = n \<and> b)" if k: "k < 640" for k
  proof -
    have lt: "k mod 32 < 32" "n mod 32 < 32" by simp_all
    have "k div 32 < 20" using k by simp
    then show ?thesis
    proof (cases "k div 32 = w")
      case True
      have "k = n \<longleftrightarrow> k mod 32 = n mod 32" using True ok(2) by (metis div_mult_mod_eq)
      then show ?thesis
        using True \<open>k div 32 < 20\<close> ok(1) lt by (simp add: sbit_def d'_def bit_or_iff bit_of_bool_at)
    next
      case False
      then show ?thesis using ok(2) by (auto simp: sbit_def d'_def)
    qed
  qed
  moreover have "buffer_ok (d', Suc n div 32, 31 - int (Suc n mod 32), Suc n)"
    using ok by (simp add: buffer_ok_def d'_def)
  ultimately show ?thesis by blast
qed

lemma fold_send_put_sbit:
  assumes "buffer_ok (d, w, p, n)" and "n + length bs \<le> 640"
  shows "\<exists>d' w' p'. fold send_put bs (d, w, p, n) = (d', w', p', n + length bs) \<and>
    buffer_ok (d', w', p', n + length bs) \<and>
    (\<forall>k < 640. sbit d' k = (sbit d k \<or> n \<le> k \<and> k < n + length bs \<and> bs ! (k - n)))"
  using assms
proof (induction bs arbitrary: d w p n)
  case Nil
  then show ?case by auto
next
  case (Cons b bs)
  obtain d1 w1 p1 where 1: "send_put b (d, w, p, n) = (d1, w1, p1, Suc n)" "buffer_ok (d1, w1, p1, Suc n)"
    "\<forall>k < 640. sbit d1 k = (sbit d k \<or> k = n \<and> b)"
    using send_put_sbit [OF Cons.prems(1), of b] Cons.prems(2) by auto
  obtain d2 w2 p2 where 2: "fold send_put bs (d1, w1, p1, Suc n) = (d2, w2, p2, Suc n + length bs)"
    "buffer_ok (d2, w2, p2, Suc n + length bs)"
    "\<forall>k < 640. sbit d2 k = (sbit d1 k \<or> Suc n \<le> k \<and> k < Suc n + length bs \<and> bs ! (k - Suc n))"
    using Cons.IH [OF 1(2)] Cons.prems(2) by auto
  have "sbit d2 k = (sbit d k \<or> n \<le> k \<and> k < n + length (b # bs) \<and> (b # bs) ! (k - n))" if "k < 640" for k
    using 1(3) 2(3) that by (cases "k = n") (auto simp: nth_Cons' Suc_diff_le)
  then show ?case using 1(1) 2(1,2) by auto
qed

lemma length_bits [simp]:
  "length (word_bits (w :: 'a::len word)) = LENGTH('a)"
  "length (header_bits f) = 19"
  by (simp_all add: word_bits_def header_bits_def)

lemma nth_word_bits: "k < LENGTH('a) \<Longrightarrow> word_bits (w :: 'a::len word) ! k = bit w (LENGTH('a) - 1 - k)"
  by (simp add: word_bits_def)

lemma concat_word_bits:
  "concat (map word_bits xs) = map (\<lambda>i. bit (xs ! (i div 8)) (7 - i mod 8)) [0..<length xs * 8]" for xs :: "u8 list"
proof (induction xs rule: rev_induct)
  case Nil
  then show ?case by simp
next
  case (snoc x xs)
  have "[0..<length (xs @ [x]) * 8] = [0..<length xs * 8] @ [length xs * 8..<length xs * 8 + 8]"
    using upt_add_eq_append [of 0 "length xs * 8" 8] by (simp add: add.commute)
  moreover have "map (\<lambda>i. bit ((xs @ [x]) ! (i div 8)) (7 - i mod 8)) [0..<length xs * 8] =
      map (\<lambda>i. bit (xs ! (i div 8)) (7 - i mod 8)) [0..<length xs * 8]"
    by (auto simp: nth_append)
  moreover have "map (\<lambda>i. bit ((xs @ [x]) ! (i div 8)) (7 - i mod 8)) [length xs * 8..<length xs * 8 + 8] = word_bits x"
    by (rule nth_equalityI) (simp_all add: word_bits_def)
  ultimately show ?case using snoc by simp
qed

lemma send_data_bits_eq:
  "unat (dlc f) \<le> length (data f) \<Longrightarrow> send_data_bits f = payload_bits f"
  by (auto simp: send_data_bits_def payload_bits_def concat_word_bits)

lemma length_payload: "unat (dlc f) \<le> length (data f) \<Longrightarrow> length (payload_bits f) = 8 * unat (dlc f)"
  by (simp add: payload_bits_def concat_word_bits)

lemma header_words:
  "map (\<lambda>k. bit (send_header f) (31 - k)) [0..<19] = header_bits f"
  by (simp add: send_header_def header_bits_def word_bits_def bit_or_iff bit_push_bit_iff bit_ucast_iff
      upt_rec [of "_ :: nat"] bit_1_iff bit_beyond)

lemma header_rest:
  assumes "m < 13"
  shows "\<not> bit (send_header f) m"
proof -
  have "bit (0x20000 :: u32) m \<longleftrightarrow> m = 17"
  proof -
    have "(0x20000 :: u32) = 2 ^ 17" by simp
    then show ?thesis using bit_exp_iff [of 17 m, where 'a = u32] by (auto simp: possible_bit_def)
  qed
  then show ?thesis using assms by (simp add: send_header_def bit_or_iff bit_push_bit_iff)
qed

lemma header_sbit:
  assumes "k < 640"
  shows "sbit ((replicate 20 0)[0 := send_header f]) k = (k < 19 \<and> header_bits f ! k)"
proof (cases "k < 32")
  case True
  then have "sbit ((replicate 20 0)[0 := send_header f]) k = bit (send_header f) (31 - k)"
    by (simp add: sbit_def)
  moreover have "\<not> bit (send_header f) (31 - k)" if "\<not> k < 19"
    using that True by (intro header_rest) auto
  moreover have "header_bits f ! k = bit (send_header f) (31 - k)" if "k < 19"
    unfolding header_words [symmetric] using that by (simp add: nth_map_upt)
  ultimately show ?thesis by auto
next
  case False
  then have "k div 32 \<noteq> 0" "k div 32 < 20" using assms by auto
  then show ?thesis using False by (simp add: sbit_def)
qed

lemma bit_pack_bytes:
  assumes "i < (length bs + 7) div 8" and "j < 8"
  shows "bit (pack_bytes bs ! i) j = (8 * i + (7 - j) < length bs \<and> bs ! (8 * i + (7 - j)))"
proof -
  have "[0..<8] ! (7 - j) = 7 - j" by (subst nth_upt) auto
  then show ?thesis
    using assms by (simp add: pack_bytes_def bit_horner_sum_bit_iff rev_nth del: upt_Suc diff_add_assoc)
qed

lemma length_pack_bytes [simp]: "length (pack_bytes bs) = (length bs + 7) div 8"
  by (simp add: pack_bytes_def)

lemma bit_send_crc_bytes:
  assumes "i < (len + 7) div 8" and "j < 8"
  shows "bit (send_crc_bytes d len ! i) j = sbit d (8 * i + (7 - j))"
proof -
  obtain q r where i: "i = 4 * q + r" "r < 4" by (metis mod_less_divisor mult_div_mod_eq zero_less_numeral)
  define x where "x = 8 * r + (7 - j)"
  have "8 * i + (7 - j) = 32 * q + x" "x < 32" using i assms(2) by (auto simp: x_def)
  then have pos: "(8 * i + (7 - j)) div 32 = q" "(8 * i + (7 - j)) mod 32 = 8 * r + (7 - j)"
    by (simp_all add: x_def [symmetric])
  have idx: "i div 4 = q" "i mod 4 = r" using i by auto
  have "(0xFF :: u32) = mask 8" by (simp add: mask_eq_exp_minus_1)
  then have ff: "bit (0xFF :: u32) j" using assms(2) by (simp only: bit_mask_iff) (simp add: possible_bit_def)
  have "r = 0 \<or> r = 1 \<or> r = 2 \<or> r = 3" using i(2) by auto
  then have "send_crc_bytes d len ! i = ucast (drop_bit (24 - 8 * r) (d ! q) AND 0xFF)"
    using assms(1) idx by (elim disjE) (simp_all add: send_crc_bytes_def del: upt_Suc)
  then have "bit (send_crc_bytes d len ! i) j = bit (d ! q) (24 - 8 * r + j)"
    using assms(2) ff by (simp add: bit_ucast_iff bit_and_iff bit_drop_bit_eq)
  moreover have eq: "31 - (8 * r + (7 - j)) = 24 - 8 * r + j" using assms(2) i(2) by auto
  ultimately show ?thesis unfolding sbit_def pos eq by simp
qed

lemma send_crc_bytes_pack:
  assumes "\<forall>k < 640. sbit d k = (k < length bs \<and> bs ! k)" and "length bs + 7 < 640"
  shows "send_crc_bytes d (length bs) = pack_bytes bs"
proof (rule nth_equalityI)
  show "length (send_crc_bytes d (length bs)) = length (pack_bytes bs)" by (simp add: send_crc_bytes_def)
  fix i
  assume "i < length (send_crc_bytes d (length bs))"
  then have i: "i < (length bs + 7) div 8" by (simp add: send_crc_bytes_def)
  show "send_crc_bytes d (length bs) ! i = pack_bytes bs ! i"
  proof (rule bit_word_eqI)
    fix j
    assume "j < LENGTH(8)"
    then have j: "j < 8" by simp
    have "8 * i + (7 - j) < 640" using i assms(2) by auto
    then show "bit (send_crc_bytes d (length bs) ! i) j = bit (pack_bytes bs ! i) j"
      using assms(1) by (simp add: bit_send_crc_bytes [OF i j] bit_pack_bytes [OF i j])
  qed
qed

lemma map_crc_bits: "map (\<lambda>i. bit c (15 - i mod 16)) [0..<16] = word_bits (c :: 16 word)"
  by (rule nth_equalityI) (simp_all add: word_bits_def)

text \<open>The words hold exactly the bits of the frame, in order.\<close>

theorem send_words_bits:
  assumes "unat (dlc f) \<le> 8" and "length (data f) = 8"
  shows "\<exists>d. send_words f = Some (d, length (frame_bits f)) \<and> length d = 20 \<and>
    (\<forall>k < length (frame_bits f). sbit d k = frame_bits f ! k)"
proof -
  let ?n = "unat (dlc f)" and ?h = "header_bits f" and ?p = "payload_bits f"
  let ?c = "word_bits (frame_crc f)" and ?e = "map (\<lambda>_. True) [0..<12]"
  let ?d = "(replicate 20 0)[0 := send_header f]"
  have lp: "length ?p = 8 * ?n" using assms by (intro length_payload) simp
  have ok: "buffer_ok (?d, 0, 12, 19)" by (simp add: buffer_ok_def)
  obtain d1 w1 p1 where 1: "fold send_put ?p (?d, 0, 12, 19) = (d1, w1, p1, 19 + length ?p)"
    "buffer_ok (d1, w1, p1, 19 + length ?p)"
    "\<forall>k < 640. sbit d1 k = (sbit ?d k \<or> 19 \<le> k \<and> k < 19 + length ?p \<and> ?p ! (k - 19))"
    using fold_send_put_sbit [OF ok, of ?p] lp assms(1) by auto
  have hp: "\<forall>k < 640. sbit d1 k = (k < length (?h @ ?p) \<and> (?h @ ?p) ! k)"
    using 1(3) by (auto simp: header_sbit nth_append)
  have "send_crc_bytes d1 (length (?h @ ?p)) = pack_bytes (?h @ ?p)"
    using hp lp assms(1) by (intro send_crc_bytes_pack) auto
  then have crc: "send_crc (send_crc_bytes d1 (19 + length ?p)) = frame_crc f" by (simp add: frame_crc_def)
  obtain d2 w2 p2 where 2: "fold send_put ?c (d1, w1, p1, 19 + length ?p) = (d2, w2, p2, 19 + length ?p + 16)"
    "buffer_ok (d2, w2, p2, 19 + length ?p + 16)"
    "\<forall>k < 640. sbit d2 k = (sbit d1 k \<or> 19 + length ?p \<le> k \<and> k < 19 + length ?p + 16 \<and> ?c ! (k - (19 + length ?p)))"
    using fold_send_put_sbit [OF 1(2), of ?c] lp assms(1) by auto
  obtain d3 w3 p3 where 3: "fold send_put ?e (d2, w2, p2, 19 + length ?p + 16) = (d3, w3, p3, 19 + length ?p + 16 + 12)"
    "buffer_ok (d3, w3, p3, 19 + length ?p + 16 + 12)"
    "\<forall>k < 640. sbit d3 k = (sbit d2 k \<or> 19 + length ?p + 16 \<le> k \<and> k < 19 + length ?p + 16 + 12 \<and> ?e ! (k - (19 + length ?p + 16)))"
    using fold_send_put_sbit [OF 2(2), of ?e] lp assms(1) by auto
  have len: "length (frame_bits f) = 19 + length ?p + 16 + 12" by (simp add: frame_bits_def)
  have "send_words f = Some (d3, 19 + length ?p + 16 + 12)"
    using assms 1(1) 2(1) 3(1) crc
    by (simp add: send_words_def send_data_bits_eq map_crc_bits Let_def del: upt_Suc)
  moreover have "sbit d3 k = frame_bits f ! k" if k: "k < length (frame_bits f)" for k
  proof -
    have "k < 640" using k len lp assms(1) by simp
    then show ?thesis
      using k hp 2(3) 3(3) unfolding len
      by (simp add: frame_bits_def nth_append lp) (auto simp: less_diff_conv2)
  qed
  moreover have "length d3 = 20" using 3(2) by (simp add: buffer_ok_def)
  ultimately show ?thesis using len by auto
qed

subsection \<open>The receiver recomputes the sender's checksum\<close>

definition check_carry :: "Frame \<Rightarrow> nat \<Rightarrow> u8" where
  "check_carry f i = (if i = 0 then push_bit 5 (ucast (dlc f)) else push_bit 5 (data f ! (i - 1)))"

definition check_id :: "Frame \<Rightarrow> u8 list" where
  "check_id f = [ucast (drop_bit 4 (identifier1 f)),
     push_bit 4 (ucast (identifier1 f)) OR push_bit 3 (ucast (rtr f)) OR push_bit 1 1 OR ucast (drop_bit 3 (dlc f))]"

lemma check_fold:
  assumes "m \<le> 8"
  shows "fold (\<lambda>i d. let d = d[i + 2 := d ! (i + 2) OR drop_bit 3 (data f ! i)]
                    in d[i + 3 := push_bit 5 (data f ! i)]) [0..<m] (check_id f @ check_carry f 0 # replicate 9 0) =
    check_id f @ map (\<lambda>i. check_carry f i OR drop_bit 3 (data f ! i)) [0..<m] @ check_carry f m # replicate (9 - m) 0"
  using assms
proof (induction m)
  case 0
  then show ?case by simp
next
  case (Suc m)
  have len: "length (check_id f) = 2" by (simp add: check_id_def)
  obtain z where z: "replicate (9 - m) 0 = (0 :: u8) # replicate (8 - m) 0"
    using Suc.prems by (simp add: Suc_diff_le flip: replicate_Suc)
  show ?case
    using Suc.IH Suc.prems len
    by (simp add: z list_update_append nth_append check_carry_def [of f "Suc m"] del: upt_Suc_append)
qed

lemma check_bytes_eq:
  assumes "unat (dlc f) \<le> 8"
  shows "check_bytes f = check_id f @
    map (\<lambda>i. check_carry f i OR drop_bit 3 (data f ! i)) [0..<unat (dlc f)] @ [check_carry f (unat (dlc f))]"
proof -
  have "check_bytes f = take (unat (dlc f) + 3)
     (fold (\<lambda>i d. let d = d[i + 2 := d ! (i + 2) OR drop_bit 3 (data f ! i)]
                    in d[i + 3 := push_bit 5 (data f ! i)]) [0..<unat (dlc f)] (check_id f @ check_carry f 0 # replicate 9 0))"
    by (simp add: check_bytes_def check_id_def check_carry_def Let_def numeral_eq_Suc)
  moreover have "length (check_id f) = 2" by (simp add: check_id_def)
  ultimately show ?thesis unfolding check_fold [OF assms] by simp
qed

lemma byte_eqI:
  assumes "\<And>j. j < 8 \<Longrightarrow> bit (x :: u8) j = bit y j"
  shows "x = y"
  using assms by (intro bit_word_eqI) simp

lemma payload_nth:
  assumes "unat (dlc f) \<le> length (data f)" and "k < 8 * unat (dlc f)"
  shows "payload_bits f ! k = bit (data f ! (k div 8)) (7 - k mod 8)"
  using assms by (simp add: payload_bits_def concat_word_bits mult.commute del: upt_Suc)

lemma byte_cases: "(j :: nat) < 8 \<Longrightarrow> j \<in> {0, 1, 2, 3, 4, 5, 6, 7}"
  by auto

lemma header_list:
  "header_bits f = [False, bit (identifier1 f) 10, bit (identifier1 f) 9, bit (identifier1 f) 8, bit (identifier1 f) 7,
     bit (identifier1 f) 6, bit (identifier1 f) 5, bit (identifier1 f) 4, bit (identifier1 f) 3, bit (identifier1 f) 2,
     bit (identifier1 f) 1, bit (identifier1 f) 0, bit (rtr f) 0, False, True, bit (dlc f) 3, bit (dlc f) 2,
     bit (dlc f) 1, bit (dlc f) 0]"
  by (simp add: header_bits_def word_bits_def upt_rec [of "_ :: nat"])

lemma check_id_bits:
  assumes "i < 2" and "j < 8"
  shows "bit (check_id f ! i) j = header_bits f ! (8 * i + (7 - j))"
proof -
  have "i = 0 \<or> i = 1" using assms(1) by auto
  then show ?thesis
    using byte_cases [OF assms(2)]
    by (elim disjE) (auto simp: check_id_def header_list bit_or_iff bit_push_bit_iff bit_ucast_iff bit_drop_bit_eq
        bit_beyond bit_1_iff nth_Cons')
qed

lemma check_rest_bits:
  assumes "unat (dlc f) \<le> 8" and "length (data f) = 8" and "m \<le> unat (dlc f)" and "j < 8"
  shows "bit (check_carry f m) j = (if m = 0 then 5 \<le> j \<and> bit (dlc f) (j - 5) else 5 \<le> j \<and> bit (data f ! (m - 1)) (j - 5))"
  using assms by (auto simp: check_carry_def bit_push_bit_iff bit_ucast_iff)

lemma pack_rest:
  fixes f :: Frame
  assumes n: "unat (dlc f) \<le> 8" "length (data f) = 8" and m: "m \<le> unat (dlc f)" and j: "j < 8"
  defines "bs \<equiv> header_bits f @ payload_bits f" and "K \<equiv> 8 * (m + 2) + (7 - j)"
  shows "(K < length bs \<and> bs ! K) =
    (bit (check_carry f m) j \<or> m < unat (dlc f) \<and> j < 5 \<and> bit (data f ! m) (j + 3))"
proof -
  have len: "length bs = 19 + 8 * unat (dlc f)" using n by (simp add: bs_def length_payload)
  note c = check_rest_bits [OF n m j]
  show ?thesis
  proof (cases "j < 5")
    case True
    then have K: "K = 19 + (8 * m + (4 - j))" "\<not> K < 19" by (simp_all add: K_def)
    then have "K < length bs \<longleftrightarrow> m < unat (dlc f)" using len by auto
    moreover have "bs ! K = bit (data f ! m) (j + 3)" if "m < unat (dlc f)"
    proof -
      have k: "8 * m + (4 - j) < 8 * unat (dlc f)" using that by simp
      have "(8 * m + (4 - j)) div 8 = m" "(8 * m + (4 - j)) mod 8 = 4 - j" by auto
      moreover have "7 - (4 - j) = j + 3" using True by simp
      ultimately have "payload_bits f ! (8 * m + (4 - j)) = bit (data f ! m) (j + 3)"
        using payload_nth [OF _ k] n by metis
      then show ?thesis using K by (simp add: bs_def nth_append)
    qed
    ultimately show ?thesis using c True by auto
  next
    case False
    then have j5: "j = 5 \<or> j = 6 \<or> j = 7" using j by auto
    show ?thesis
    proof (cases m)
      case 0
      then show ?thesis
        using j5 len c by (elim disjE) (simp_all add: K_def bs_def nth_append header_list nth_Cons')
    next
      case (Suc m')
      then have K: "K = 19 + (8 * m' + (12 - j))" using False j by (auto simp: K_def)
      have k: "8 * m' + (12 - j) < 8 * unat (dlc f)" using m Suc False by auto
      have "(8 * m' + (12 - j)) div 8 = m'" "(8 * m' + (12 - j)) mod 8 = 12 - j" "7 - (12 - j) = j - 5"
        using j5 by auto
      then have "payload_bits f ! (8 * m' + (12 - j)) = bit (data f ! m') (j - 5)"
        using payload_nth [OF _ k] n by metis
      then have "bs ! K = bit (data f ! m') (j - 5)" using K by (simp add: bs_def nth_append)
      then show ?thesis using c Suc False K k len by simp
    qed
  qed
qed

lemma check_bytes_pack:
  assumes "unat (dlc f) \<le> 8" and "length (data f) = 8"
  shows "check_bytes f = pack_bytes (header_bits f @ payload_bits f)"
proof (rule nth_equalityI)
  let ?n = "unat (dlc f)" and ?bs = "header_bits f @ payload_bits f"
  have lb: "length ?bs = 19 + 8 * ?n" using assms by (simp add: length_payload)
  have l2: "length (check_id f) = 2" by (simp add: check_id_def)
  show "length (check_bytes f) = length (pack_bytes ?bs)"
    using lb l2 by (simp add: check_bytes_eq [OF assms(1)])
  fix i
  assume "i < length (check_bytes f)"
  then have i: "i < ?n + 3" using l2 by (simp add: check_bytes_eq [OF assms(1)])
  then have i': "i < (length ?bs + 7) div 8" using lb by simp
  show "check_bytes f ! i = pack_bytes ?bs ! i"
  proof (rule byte_eqI)
    fix j :: nat
    assume j: "j < 8"
    show "bit (check_bytes f ! i) j = bit (pack_bytes ?bs ! i) j"
    proof (cases "i < 2")
      case True
      then have "8 * i + (7 - j) < 19" by simp
      then show ?thesis
        using True check_id_bits [OF True j] l2 lb
        by (simp add: bit_pack_bytes [OF i' j] check_bytes_eq [OF assms(1)] nth_append)
    next
      case False
      define m where "m = i - 2"
      then have m: "i = m + 2" "m \<le> ?n" using i False by auto
      have "check_bytes f ! i = (if m < ?n then check_carry f m OR drop_bit 3 (data f ! m) else check_carry f m)"
        using m l2 by (simp add: check_bytes_eq [OF assms(1)] nth_append del: upt_Suc)
      moreover have "bit (data f ! m) (j + 3) \<longleftrightarrow> j < 5 \<and> bit (data f ! m) (j + 3)"
        by (auto dest: bit_imp_le_length)
      moreover have "bit (pack_bytes ?bs ! i) j =
          (bit (check_carry f m) j \<or> m < ?n \<and> j < 5 \<and> bit (data f ! m) (j + 3))"
        unfolding m(1)
        by (rule trans [OF bit_pack_bytes [OF i' [unfolded m(1)] j] pack_rest [OF assms m(2) j]])
      ultimately show ?thesis by (simp add: bit_or_iff bit_drop_bit_eq add.commute [of 3 j])
    qed
  qed
qed

subsection \<open>The receiver takes a field in, bit by bit\<close>

definition high :: "nat \<Rightarrow> 'a::len word \<Rightarrow> 'a word" where
  "high k w = w AND NOT (mask (LENGTH('a) - k))"

lemma high_0 [simp]: "high 0 (w :: 'a::len word) = 0"
  by (rule bit_word_eqI) (simp add: high_def bit_and_iff bit_not_iff bit_mask_iff possible_bit_def)

lemma high_all [simp]: "LENGTH('a) \<le> k \<Longrightarrow> high k (w :: 'a::len word) = w"
  by (simp add: high_def)

lemma high_Suc:
  assumes "k < LENGTH('a)"
  shows "high k (w :: 'a::len word) OR push_bit (LENGTH('a) - 1 - k) (of_bool (bit w (LENGTH('a) - 1 - k))) = high (Suc k) w"
proof (rule bit_word_eqI)
  fix n
  assume n: "n < LENGTH('a)"
  let ?p = "LENGTH('a) - 1 - k"
  have "bit (push_bit ?p (of_bool (bit w ?p) :: 'a word)) n \<longleftrightarrow> n = ?p \<and> bit w n"
    using n by (auto simp: bit_push_bit_iff bit_of_bool_iff possible_bit_def)
  moreover have "n < LENGTH('a) - Suc k \<longleftrightarrow> n < ?p" "n < LENGTH('a) - k \<longleftrightarrow> n \<le> ?p" using assms by auto
  ultimately show "bit (high k w OR push_bit ?p (of_bool (bit w ?p))) n = bit (high (Suc k) w) n"
    using n by (auto simp: high_def bit_or_iff bit_and_iff bit_not_iff bit_mask_iff possible_bit_def)
qed

text \<open>
  A family of receiver states indexed by how much of the word has been shifted in: if every bit of the
  word moves the receiver one on, the word's bits take it to the end.
\<close>

lemma rx_shift:
  fixes w :: "'a::len word"
  assumes "\<And>k. k < LENGTH('a) \<Longrightarrow> rx_machine (bit w (LENGTH('a) - 1 - k)) (R k (high k w)) =
      Some (if Suc k = LENGTH('a) then F else R (Suc k) (high (Suc k) w), [])"
  shows "rx_run (word_bits w) (R 0 0) = Some (F, [])"
proof -
  have "rx_run (map (\<lambda>k. bit w (LENGTH('a) - 1 - k)) [k..<LENGTH('a)]) (R k (high k w)) = Some (F, [])"
    if "k < LENGTH('a)" for k
    using that
  proof (induction "LENGTH('a) - 1 - k" arbitrary: k)
    case 0
    then have "Suc k = LENGTH('a)" by simp
    then have "[k..<LENGTH('a)] = [k]" by (metis upt_Suc_append upt_conv_Nil le_refl append_Nil order_refl)
    then show ?case using assms [OF 0(2)] \<open>Suc k = LENGTH('a)\<close> by simp
  next
    case (Suc n)
    then have "Suc k < LENGTH('a)" by simp
    then have "rx_run (map (\<lambda>k. bit w (LENGTH('a) - 1 - k)) [Suc k..<LENGTH('a)]) (R (Suc k) (high (Suc k) w)) = Some (F, [])"
      using Suc.hyps(1) [of "Suc k"] Suc.hyps(2) by simp
    moreover have "[k..<LENGTH('a)] = k # [Suc k..<LENGTH('a)]" using Suc.prems by (simp add: upt_conv_Cons)
    ultimately show ?case using assms [OF Suc.prems] \<open>Suc k < LENGTH('a)\<close> by simp
  qed
  from this [of 0] show ?thesis by (simp add: word_bits_def)
qed

lemma rx_run_append:
  "rx_run (xs @ ys) r = Option.bind (rx_run xs r) (\<lambda>(r, o1). map_option (\<lambda>(r, o2). (r, o1 @ o2)) (rx_run ys r))"
  by (induction xs arbitrary: r) (auto simp: option.map_comp comp_def option.map_id split: Option.bind_split option.split)

lemma rx_identifier:
  "rx_run (word_bits (w :: 11 word)) (r\<lparr>State := ID_FIELD1, BitCount := 0, CurrFrame := f\<lparr>identifier1 := 0\<rparr>\<rparr>) =
    Some (r\<lparr>State := RTR_SRR, BitCount := 0, CurrFrame := f\<lparr>identifier1 := w\<rparr>\<rparr>, [])"
proof (rule rx_shift [where R = "\<lambda>k x. r\<lparr>State := ID_FIELD1, BitCount := k, CurrFrame := f\<lparr>identifier1 := x\<rparr>\<rparr>"])
  fix k
  assume k: "k < LENGTH(11)"
  show "rx_machine (bit w (LENGTH(11) - 1 - k)) (r\<lparr>State := ID_FIELD1, BitCount := k, CurrFrame := f\<lparr>identifier1 := high k w\<rparr>\<rparr>) =
    Some (if Suc k = LENGTH(11) then r\<lparr>State := RTR_SRR, BitCount := 0, CurrFrame := f\<lparr>identifier1 := w\<rparr>\<rparr>
      else r\<lparr>State := ID_FIELD1, BitCount := Suc k, CurrFrame := f\<lparr>identifier1 := high (Suc k) w\<rparr>\<rparr>, [])"
    using k high_Suc [OF k, of w] by (auto simp: rx_machine_def Let_def)
qed

lemma rx_length_code:
  "rx_run (word_bits (w :: 4 word)) (r\<lparr>State := DLC, BitCount := 0, CurrFrame := f\<lparr>dlc := 0\<rparr>\<rparr>) =
    Some (r\<lparr>State := (if w = 0 then CRC else DATA), BitCount := 0, CurrFrame := f\<lparr>dlc := w\<rparr>\<rparr>, [])"
proof (rule rx_shift [where R = "\<lambda>k x. r\<lparr>State := DLC, BitCount := k, CurrFrame := f\<lparr>dlc := x\<rparr>\<rparr>"])
  fix k
  assume k: "k < LENGTH(4)"
  show "rx_machine (bit w (LENGTH(4) - 1 - k)) (r\<lparr>State := DLC, BitCount := k, CurrFrame := f\<lparr>dlc := high k w\<rparr>\<rparr>) =
    Some (if Suc k = LENGTH(4) then r\<lparr>State := (if w = 0 then CRC else DATA), BitCount := 0, CurrFrame := f\<lparr>dlc := w\<rparr>\<rparr>
      else r\<lparr>State := DLC, BitCount := Suc k, CurrFrame := f\<lparr>dlc := high (Suc k) w\<rparr>\<rparr>, [])"
    using k high_Suc [OF k, of w] by (auto simp: rx_machine_def Let_def)
qed

lemma rx_checksum:
  "rx_run (word_bits (w :: 16 word)) (r\<lparr>State := CRC, BitCount := 0, CurrFrame := f\<lparr>crc := 0\<rparr>\<rparr>) =
    Some (r\<lparr>State := ACKFLAG, BitCount := 0, CurrFrame := f\<lparr>crc := w\<rparr>\<rparr>, [])"
proof (rule rx_shift [where R = "\<lambda>k x. r\<lparr>State := CRC, BitCount := k, CurrFrame := f\<lparr>crc := x\<rparr>\<rparr>"])
  fix k
  assume k: "k < LENGTH(16)"
  show "rx_machine (bit w (LENGTH(16) - 1 - k)) (r\<lparr>State := CRC, BitCount := k, CurrFrame := f\<lparr>crc := high k w\<rparr>\<rparr>) =
    Some (if Suc k = LENGTH(16) then r\<lparr>State := ACKFLAG, BitCount := 0, CurrFrame := f\<lparr>crc := w\<rparr>\<rparr>
      else r\<lparr>State := CRC, BitCount := Suc k, CurrFrame := f\<lparr>crc := high (Suc k) w\<rparr>\<rparr>, [])"
    using k high_Suc [OF k, of w] by (auto simp: rx_machine_def Let_def)
qed

definition data_upto :: "nat \<Rightarrow> u8 list \<Rightarrow> u8 list" where
  "data_upto m xs = take m xs @ replicate (8 - m) 0"

lemma data_upto_Suc:
  assumes "m < 8" and "length xs = 8"
  shows "length (data_upto m xs) = 8" "data_upto m xs ! m = 0"
    "(data_upto m xs)[m := xs ! m] = data_upto (Suc m) xs"
proof -
  have z: "replicate (8 - m) (0 :: u8) = 0 # replicate (8 - Suc m) 0"
    using assms(1) by (metis Suc_diff_Suc replicate_Suc)
  show "length (data_upto m xs) = 8" "data_upto m xs ! m = 0" using assms by (simp_all add: data_upto_def nth_append)
  show "(data_upto m xs)[m := xs ! m] = data_upto (Suc m) xs"
    using assms by (simp add: data_upto_def z list_update_append take_Suc_conv_app_nth del: replicate_Suc)
qed

lemma rx_byte:
  assumes "m < unat (dlc f)" and "m < 8" and "length xs = 8"
  shows "rx_run (word_bits (xs ! m)) (r\<lparr>State := DATA, BitCount := 0, DataCount := m, CurrFrame := f\<lparr>data := data_upto m xs\<rparr>\<rparr>) =
    Some (if Suc m = unat (dlc f)
      then r\<lparr>State := CRC, BitCount := 0, DataCount := 0, CurrFrame := f\<lparr>data := data_upto (Suc m) xs\<rparr>\<rparr>
      else r\<lparr>State := DATA, BitCount := 0, DataCount := Suc m, CurrFrame := f\<lparr>data := data_upto (Suc m) xs\<rparr>\<rparr>, [])"
proof -
  let ?R = "\<lambda>k x. r\<lparr>State := DATA, BitCount := k, DataCount := m, CurrFrame := f\<lparr>data := (data_upto m xs)[m := x]\<rparr>\<rparr>"
  note m = assms(2)
  note d = data_upto_Suc [OF m assms(3)]
  have zero: "(data_upto m xs)[m := 0] = data_upto m xs" using d(2) by (metis list_update_id)
  have "rx_run (word_bits (xs ! m)) (?R 0 0) = Some (if Suc m = unat (dlc f)
      then r\<lparr>State := CRC, BitCount := 0, DataCount := 0, CurrFrame := f\<lparr>data := data_upto (Suc m) xs\<rparr>\<rparr>
      else r\<lparr>State := DATA, BitCount := 0, DataCount := Suc m, CurrFrame := f\<lparr>data := data_upto (Suc m) xs\<rparr>\<rparr>, [])"
  proof (rule rx_shift [where R = ?R])
    fix k
    assume k: "k < LENGTH(8)"
    show "rx_machine (bit (xs ! m) (LENGTH(8) - 1 - k)) (?R k (high k (xs ! m))) =
      Some (if Suc k = LENGTH(8) then (if Suc m = unat (dlc f)
        then r\<lparr>State := CRC, BitCount := 0, DataCount := 0, CurrFrame := f\<lparr>data := data_upto (Suc m) xs\<rparr>\<rparr>
        else r\<lparr>State := DATA, BitCount := 0, DataCount := Suc m, CurrFrame := f\<lparr>data := data_upto (Suc m) xs\<rparr>\<rparr>)
        else ?R (Suc k) (high (Suc k) (xs ! m)), [])"
      using k high_Suc [OF k, of "xs ! m"] d m assms(1)
      by (auto simp: rx_machine_def Let_def)
  qed
  then show ?thesis by (simp add: zero)
qed

lemma rx_data:
  assumes "m < unat (dlc f)" and "unat (dlc f) \<le> 8" and "length xs = 8"
  shows "rx_run (concat (map word_bits (drop m (take (unat (dlc f)) xs))))
      (r\<lparr>State := DATA, BitCount := 0, DataCount := m, CurrFrame := f\<lparr>data := data_upto m xs\<rparr>\<rparr>) =
    Some (r\<lparr>State := CRC, BitCount := 0, DataCount := 0, CurrFrame := f\<lparr>data := data_upto (unat (dlc f)) xs\<rparr>\<rparr>, [])"
  using assms(1)
proof (induction "unat (dlc f) - Suc m" arbitrary: m)
  case 0
  then have n: "unat (dlc f) = Suc m" by simp
  then have "drop m (take (unat (dlc f)) xs) = [xs ! m]"
    using assms by (simp add: take_Suc_conv_app_nth)
  then show ?case using rx_byte [OF 0(2) _ assms(3), of r] n assms(2) by simp
next
  case (Suc n)
  then have lt: "Suc m < unat (dlc f)" by simp
  have "drop m (take (unat (dlc f)) xs) = xs ! m # drop (Suc m) (take (unat (dlc f)) xs)"
    using Suc.prems assms(2,3) by (subst Cons_nth_drop_Suc [symmetric]) auto
  moreover have "rx_run (concat (map word_bits (drop (Suc m) (take (unat (dlc f)) xs))))
      (r\<lparr>State := DATA, BitCount := 0, DataCount := Suc m, CurrFrame := f\<lparr>data := data_upto (Suc m) xs\<rparr>\<rparr>) =
    Some (r\<lparr>State := CRC, BitCount := 0, DataCount := 0, CurrFrame := f\<lparr>data := data_upto (unat (dlc f)) xs\<rparr>\<rparr>, [])"
    using Suc.hyps(1) [OF _ lt] Suc.hyps(2) by simp
  ultimately show ?case
    using rx_byte [OF Suc.prems _ assms(3), of r] lt assms(2) by (simp add: rx_run_append)
qed

lemma rx_end_of_frame:
  assumes "Can_CheckCRC (f\<lparr>eof := 0\<rparr>) = Some (False, f\<lparr>eof := 0\<rparr>)"
  shows "rx_run (word_bits (- 1 :: 7 word)) (r\<lparr>State := EOFRAME, BitCount := 0, CurrFrame := f\<lparr>eof := 0\<rparr>\<rparr>) =
    Some (r\<lparr>State := INTERFRAME, BitCount := 0, CurrFrame := f\<lparr>eof := - 1\<rparr>\<rparr>, [])"
proof (rule rx_shift [where R = "\<lambda>k x. r\<lparr>State := EOFRAME, BitCount := k, CurrFrame := f\<lparr>eof := x\<rparr>\<rparr>"])
  fix k
  assume k: "k < LENGTH(7)"
  have one: "bit (- 1 :: 7 word) (LENGTH(7) - 1 - k)" using k by (simp add: bit_minus_1_iff possible_bit_def)
  show "rx_machine (bit (- 1 :: 7 word) (LENGTH(7) - 1 - k)) (r\<lparr>State := EOFRAME, BitCount := k, CurrFrame := f\<lparr>eof := high k (- 1)\<rparr>\<rparr>) =
    Some (if Suc k = LENGTH(7) then r\<lparr>State := INTERFRAME, BitCount := 0, CurrFrame := f\<lparr>eof := - 1\<rparr>\<rparr>
      else r\<lparr>State := EOFRAME, BitCount := Suc k, CurrFrame := f\<lparr>eof := high (Suc k) (- 1)\<rparr>\<rparr>, [])"
    using k high_Suc [OF k, of "- 1"] one assms
    by (cases "k = 0") (auto simp: rx_machine_def rx_eof_def Let_def)
qed

subsection \<open>A frame sent is a frame received\<close>

definition received :: "Frame \<Rightarrow> Frame" where
  "received f = \<lparr>standard = 1, identifier1 = identifier1 f, identifier2 = 0, rtr = rtr f, dlc = dlc f,
     data = data_upto (unat (dlc f)) (data f), crc = frame_crc f, ack = 3, eof = - 1\<rparr>"

lemma header_payload_received:
  assumes "unat (dlc f) \<le> 8" and "length (data f) = 8"
  shows "header_bits (received f) = header_bits f" "payload_bits (received f) = payload_bits f"
    "length (data (received f)) = 8"
  using assms by (simp_all add: header_bits_def payload_bits_def received_def data_upto_def)

lemma ucast_crc: "ucast (push_bit 1 (c :: u32) OR 1) = (push_bit 1 (ucast c) OR 1 :: 16 word)"
  by (rule bit_word_eqI) (auto simp: bit_simps simp del: One_nat_def push_bit_Suc)

lemma CheckCRC_received:
  assumes "unat (dlc f) \<le> 8" and "length (data f) = 8"
  shows "Can_CheckCRC ((received f)\<lparr>eof := e\<rparr>) = Some (False, (received f)\<lparr>eof := e\<rparr>)"
proof -
  let ?g = "(received f)\<lparr>eof := e\<rparr>"
  have g: "unat (dlc ?g) \<le> 8" "length (data ?g) = 8" "crc ?g = frame_crc f"
    using assms header_payload_received [OF assms] by (simp_all add: received_def)
  have "header_bits ?g = header_bits f" "payload_bits ?g = payload_bits f"
    using header_payload_received [OF assms] by (simp_all add: header_bits_def payload_bits_def)
  then have "ucast (push_bit 1 (crc15 (check_bytes ?g)) OR 1) = frame_crc f"
    unfolding frame_crc_def send_crc_def Let_def ucast_crc using check_bytes_pack [OF g(1,2)] by simp
  then show ?thesis using g unfolding Can_CheckCRC_def Let_def by (simp add: received_def)
qed

lemma word1_of_bool: "of_bool (bit w 0) = (w :: 1 word)"
  by (rule bit_word_eqI) (auto simp: bit_simps)

lemma word_bits_1: "word_bits (w :: 1 word) = [bit w 0]"
  by (simp add: word_bits_def)

lemma tail_bits: "replicate 12 True = [True, True] @ word_bits (- 1 :: 7 word) @ [True, True, True]"
  by (simp add: word_bits_def upt_rec [of "_ :: nat"] bit_minus_1_iff possible_bit_def numeral_eq_Suc)

abbreviation (input) RX :: "STATE \<Rightarrow> nat \<Rightarrow> nat \<Rightarrow> Frame \<Rightarrow> can_rx" where
  "RX st n k f \<equiv> \<lparr>State = st, BitCount = n, DataCount = k, CurrFrame = f\<rparr>"

abbreviation (input) FR :: "1 word \<Rightarrow> 11 word \<Rightarrow> 1 word \<Rightarrow> 4 word \<Rightarrow> u8 list \<Rightarrow> 16 word \<Rightarrow> 2 word \<Rightarrow> 7 word \<Rightarrow> Frame" where
  "FR s i t n d c a e \<equiv> \<lparr>standard = s, identifier1 = i, identifier2 = 0, rtr = t, dlc = n, data = d, crc = c, ack = a, eof = e\<rparr>"

lemma rx_identifier_lit:
  "rx_run (word_bits w) (RX ID_FIELD1 0 k (FR s 0 t n d c a e)) = Some (RX RTR_SRR 0 k (FR s w t n d c a e), [])"
  using rx_identifier [of w "FR s 0 t n d c a e" "RX IDLE 0 k (FR s 0 t n d c a e)"] by simp

lemma rx_length_lit:
  "rx_run (word_bits w) (RX DLC 0 k (FR s i t 0 d c a e)) =
    Some (RX (if w = 0 then CRC else DATA) 0 k (FR s i t w d c a e), [])"
  using rx_length_code [of w "FR s i t 0 d c a e" "RX IDLE 0 k (FR s i t 0 d c a e)"] by simp

lemma rx_checksum_lit:
  "rx_run (word_bits w) (RX CRC 0 k (FR s i t n d 0 a e)) = Some (RX ACKFLAG 0 k (FR s i t n d w a e), [])"
  using rx_checksum [of w "FR s i t n d 0 a e" "RX IDLE 0 k (FR s i t n d 0 a e)"] by simp

lemma rx_payload_lit:
  assumes "unat (dlc f) \<le> 8" and "length (data f) = 8"
  shows "rx_run (payload_bits f) (RX (if dlc f = 0 then CRC else DATA) 0 0 (FR s i t (dlc f) (replicate 8 0) c a e)) =
    Some (RX CRC 0 0 (FR s i t (dlc f) (data_upto (unat (dlc f)) (data f)) c a e), [])"
proof (cases "dlc f = 0")
  case True
  then show ?thesis by (simp add: payload_bits_def data_upto_def)
next
  case False
  then have "0 < unat (dlc f)" by (simp add: unat_gt_0)
  then show ?thesis
    using rx_data [of 0 "FR s i t (dlc f) (replicate 8 0) c a e" "data f"
        "RX DATA 0 0 (FR s i t (dlc f) (replicate 8 0) c a e)"] assms False
    by (simp add: payload_bits_def data_upto_def)
qed

lemma rx_header:
  "rx_run (header_bits f) (RX IDLE 0 k g) =
    Some (RX (if dlc f = 0 then CRC else DATA) 0 k (FR 1 (identifier1 f) (rtr f) (dlc f) (replicate 8 0) 0 0 0), [])"
proof -
  have sof: "rx_machine False (RX IDLE 0 k g) = Some (RX ID_FIELD1 0 k (FR 0 0 0 0 (replicate 8 0) 0 0 0), [])"
    and rtr: "rx_machine v (RX RTR_SRR 0 k (FR s i t n d c a e)) = Some (RX IDE 0 k (FR s i (of_bool v) n d c a e), [])"
    and ide: "rx_machine False (RX IDE 0 k (FR s i t n d c a e)) = Some (RX R0 0 k (FR 1 i t n d c a e), [])"
    and r0: "rx_machine v (RX R0 0 k h) = Some (RX DLC 0 k h, [])"
    for v s i t n d c a e h
    by (simp_all add: rx_machine_def empty_frame_def)
  show ?thesis
    by (simp add: header_bits_def rx_run_append word_bits_1 sof rx_identifier_lit rtr ide r0 rx_length_lit word1_of_bool)
qed

lemma rx_tail:
  assumes "Can_CheckCRC (FR s i t n d c 3 0) = Some (False, FR s i t n d c 3 0)"
  shows "rx_run (replicate 12 True) (RX ACKFLAG 0 k (FR s i t n d c 0 0)) =
    Some (RX IDLE 0 k (FR s i t n d c 3 (- 1)), [False, True])"
proof -
  have ackf: "rx_machine True (RX ACKFLAG 0 k (FR s i t n d c 0 0)) = Some (RX ACKDELIM 0 k (FR s i t n d c 1 0), [False])"
    and ackd: "rx_machine True (RX ACKDELIM 0 k (FR s i t n d c 1 0)) = Some (RX EOFRAME 0 k (FR s i t n d c 3 0), [True])"
    by (simp_all add: rx_machine_def)
  have eof: "rx_run (word_bits (- 1 :: 7 word)) (RX EOFRAME 0 k (FR s i t n d c 3 0)) =
      Some (RX INTERFRAME 0 k (FR s i t n d c 3 (- 1)), [])"
    using rx_end_of_frame [of "FR s i t n d c 3 0" "RX IDLE 0 k (FR s i t n d c 3 0)"] assms by simp
  have gap: "rx_machine True (RX INTERFRAME 0 k g) = Some (RX INTERFRAME 1 k g, [])"
    "rx_machine True (RX INTERFRAME 1 k g) = Some (RX INTERFRAME 2 k g, [])"
    "rx_machine True (RX INTERFRAME 2 k g) = Some (RX IDLE 0 k g, [])" for g
    by (simp_all add: rx_machine_def)
  show ?thesis
    unfolding tail_bits using gap(2) by (simp add: ackf ackd rx_run_append eof gap(1,3))
qed

theorem rx_receives:
  assumes "unat (dlc f) \<le> 8" and "length (data f) = 8"
  shows "rx_run (frame_bits f) (RX IDLE 0 0 g) = Some (RX IDLE 0 0 (received f), [False, True])"
proof -
  let ?F = "\<lambda>c a e. FR 1 (identifier1 f) (rtr f) (dlc f) (data_upto (unat (dlc f)) (data f)) c a e"
  have "?F (frame_crc f) 3 0 = (received f)\<lparr>eof := 0\<rparr>" by (simp add: received_def)
  then have "Can_CheckCRC (?F (frame_crc f) 3 0) = Some (False, ?F (frame_crc f) 3 0)"
    using CheckCRC_received [OF assms, of 0] by simp
  note tail = rx_tail [OF this, of 0]
  show ?thesis
    by (simp add: frame_bits_def rx_run_append rx_header rx_payload_lit [OF assms] rx_checksum_lit tail received_def)
qed

lemma rx_long_data:
  assumes "unat (dlc f) > 8" and "length xs = 8" and "m \<le> 8"
  shows "rx_run (concat (map word_bits (drop m xs)) @ [v])
    (r\<lparr>State := DATA, BitCount := 0, DataCount := m, CurrFrame := f\<lparr>data := data_upto m xs\<rparr>\<rparr>) = None"
  using assms(3)
proof (induction "8 - m" arbitrary: m)
  case 0
  then show ?case using assms(2) by (simp add: rx_machine_def data_upto_def Let_def)
next
  case (Suc n)
  then have m: "m < 8" by simp
  have "drop m xs = xs ! m # drop (Suc m) xs" using m assms(2) by (simp add: Cons_nth_drop_Suc)
  moreover have "rx_run (concat (map word_bits (drop (Suc m) xs)) @ [v])
      (r\<lparr>State := DATA, BitCount := 0, DataCount := Suc m, CurrFrame := f\<lparr>data := data_upto (Suc m) xs\<rparr>\<rparr>) = None"
    using Suc.hyps(1) [of "Suc m"] Suc.hyps(2) by simp
  ultimately show ?case
    using rx_byte [of m f xs r] m assms(1,2) by (simp add: rx_run_append)
qed

text \<open>
  A frame whose length code is above eight drives the receiver past the eight data bytes of its
  frame: the sample after the eighth byte is stored beyond the array, whatever the bytes are.
\<close>

theorem can_receive_overflow:
  fixes xs :: "u8 list"
  assumes "unat (dlc f) > 8" and "length xs = 8"
  shows "rx_run (header_bits f @ concat (map word_bits xs) @ [v])
    \<lparr>State = IDLE, BitCount = 0, DataCount = 0, CurrFrame = g\<rparr> = None"
proof -
  have "dlc f \<noteq> 0" using assms(1) by auto
  moreover have "rx_run (concat (map word_bits xs) @ [v])
      (RX DATA 0 0 (FR 1 (identifier1 f) (rtr f) (dlc f) (replicate 8 0) 0 0 0)) = None"
    using rx_long_data [of "FR 1 (identifier1 f) (rtr f) (dlc f) (replicate 8 0) 0 0 0" xs 0 v
        "RX DATA 0 0 (FR 1 (identifier1 f) (rtr f) (dlc f) (replicate 8 0) 0 0 0)"] assms
    by (simp add: data_upto_def)
  ultimately show ?thesis by (subst rx_run_append) (simp add: rx_header)
qed

theorem can_receive_overflow_witness:
  "rx_run (header_bits (empty_frame\<lparr>dlc := 9\<rparr>) @ concat (map word_bits (replicate 8 (0xAA :: u8))) @ [True])
    \<lparr>State = IDLE, BitCount = 0, DataCount = 0, CurrFrame = empty_frame\<rparr> = None"
  using can_receive_overflow [of "empty_frame\<lparr>dlc := 9\<rparr>" "replicate 8 0xAA" True empty_frame] by simp

subsection \<open>A wrong checksum\<close>

lemma rx_run_seq:
  "rx_run xs r = Some (r1, o1) \<Longrightarrow> rx_run ys r1 = Some (r2, o2) \<Longrightarrow> rx_run (xs @ ys) r = Some (r2, o1 @ o2)"
  by (simp add: rx_run_append)

lemma rx_bad_tail:
  assumes "Can_CheckCRC (FR s i t n d c 3 0) = Some (True, g)"
  shows "rx_run (replicate 19 True) (RX ACKFLAG 0 k (FR s i t n d c 0 0)) =
    Some (RX IDLE 0 k g, [False, True, False, False, False, False, False, False])"
proof -
  have ackf: "rx_machine True (RX ACKFLAG 0 k (FR s i t n d c 0 0)) = Some (RX ACKDELIM 0 k (FR s i t n d c 1 0), [False])"
    and ackd: "rx_machine True (RX ACKDELIM 0 k (FR s i t n d c 1 0)) = Some (RX EOFRAME 0 k (FR s i t n d c 3 0), [True])"
    by (simp_all add: rx_machine_def)
  have eof: "rx_machine True (RX EOFRAME 0 k (FR s i t n d c 3 0)) = Some (RX ERROR_FLAG 1 k g, [False])"
    using assms by (simp add: rx_machine_def rx_eof_def)
  have flag: "rx_run (replicate 5 True) (RX ERROR_FLAG 1 k g) = Some (RX ERROR_DELIM 0 k g, replicate 5 False)"
    and delim: "rx_run (replicate 8 True) (RX ERROR_DELIM 0 k g) = Some (RX INTERFRAME 0 k g, [])"
    and gap: "rx_run (replicate 3 True) (RX INTERFRAME 0 k g) = Some (RX IDLE 0 k g, [])"
    by (simp_all add: rx_machine_def numeral_eq_Suc)
  have split: "replicate 19 True = [True, True, True] @ replicate 5 True @ replicate 8 True @ replicate 3 True"
    by (simp add: numeral_eq_Suc)
  have head: "rx_run [True, True, True] (RX ACKFLAG 0 k (FR s i t n d c 0 0)) =
      Some (RX ERROR_FLAG 1 k g, [False, True, False])"
    by (simp add: ackf ackd eof)
  show ?thesis
    unfolding split using rx_run_seq [OF head rx_run_seq [OF flag rx_run_seq [OF delim gap]]]
    by (simp add: numeral_eq_Suc del: rx_run.simps)
qed

text \<open>
  C8: a frame whose checksum field is not the one of its contents is rejected: at the end of the frame the
  receiver signals the error by driving the bus dominant, and it is idle again after the error flag, the
  delimiter and the gap, without having reached the end-of-frame field.
\<close>

theorem can_bad_checksum_rejected:
  assumes "unat (dlc f) \<le> 8" and "length (data f) = 8" and "c \<noteq> frame_crc f"
  shows "rx_run (header_bits f @ payload_bits f @ word_bits c @ replicate 19 True)
      \<lparr>State = IDLE, BitCount = 0, DataCount = 0, CurrFrame = g\<rparr> =
    Some (\<lparr>State = IDLE, BitCount = 0, DataCount = 0, CurrFrame = (received f)\<lparr>eof := 0\<rparr>\<rparr>,
      [False, True, False, False, False, False, False, False])"
proof -
  let ?F = "FR 1 (identifier1 f) (rtr f) (dlc f) (data_upto (unat (dlc f)) (data f)) c 3 0"
  have "Can_CheckCRC ?F = Some (True, (received f)\<lparr>eof := 0\<rparr>)"
  proof -
    have F: "?F = (received f)\<lparr>eof := 0, crc := c\<rparr>" by (simp add: received_def)
    have len: "\<not> unat (dlc (received f)) > length (data (received f))"
      using assms by (simp add: received_def data_upto_def)
    have "check_bytes ?F = check_bytes ((received f)\<lparr>eof := 0\<rparr>)" unfolding F by (simp add: check_bytes_def)
    then show ?thesis
      using CheckCRC_received [OF assms(1,2), of 0] len assms(3) unfolding F Can_CheckCRC_def Let_def
      by (auto simp: received_def)
  qed
  note tail = rx_bad_tail [OF this, of 0]
  show ?thesis
    using rx_run_seq [OF rx_header rx_run_seq [OF rx_payload_lit [OF assms(1,2)] rx_run_seq [OF rx_checksum_lit tail]]]
    by simp
qed

theorem can_bad_checksum_rejected_witness:
  "\<exists>q. rx_run (header_bits (empty_frame\<lparr>dlc := 2\<rparr>) @ payload_bits (empty_frame\<lparr>dlc := 2\<rparr>) @
      word_bits (frame_crc (empty_frame\<lparr>dlc := 2\<rparr>) + 1) @ replicate 19 True)
      \<lparr>State = IDLE, BitCount = 0, DataCount = 0, CurrFrame = empty_frame\<rparr> =
    Some (q, [False, True, False, False, False, False, False, False]) \<and> State q = IDLE \<and> eof (CurrFrame q) = 0"
proof -
  have "unat (dlc (empty_frame\<lparr>dlc := 2\<rparr>)) \<le> 8" "length (data (empty_frame\<lparr>dlc := 2\<rparr>)) = 8"
    by (simp_all add: empty_frame_def)
  then show ?thesis
    using can_bad_checksum_rejected [of "empty_frame\<lparr>dlc := 2\<rparr>" "frame_crc (empty_frame\<lparr>dlc := 2\<rparr>) + 1" empty_frame]
    by auto
qed

end
