(* ===== verification/Can.thy ===== *)
theory Can
  imports CanFrame
begin

text \<open>
  The CAN driver of \<^verbatim>\<open>src/firmware/libraries/can/can.c\<close>: the users of the subsystem and its three I/O
  lines, sending a frame bit by bit from a timer interrupt, and receiving one from another. The wait of
  \<^verbatim>\<open>Can_SendData\<close> for the send interrupts, memory exhaustion and the diagnostic messages are not
  modelled: \<open>Can_SendData\<close> is the state in which the wait begins, and \<open>canSendDone\<close> is what it waits for.
\<close>

subsection \<open>State\<close>

abbreviation (input) CAN_ENABLE :: int where "CAN_ENABLE \<equiv> 7"
abbreviation (input) CAN_RX :: int where "CAN_RX \<equiv> 19"
abbreviation (input) CAN_TX :: int where "CAN_TX \<equiv> 20"
abbreviation (input) CAN_PERIOD :: int where "CAN_PERIOD \<equiv> 1000"

abbreviation (input) canSendTimer :: nat where "canSendTimer \<equiv> 4"
abbreviation (input) canReceiveTimer :: nat where "canReceiveTimer \<equiv> 5"
abbreviation (input) CB_can_send :: nat where "CB_can_send \<equiv> 4"
abbreviation (input) CB_can_receive :: nat where "CB_can_receive \<equiv> 5"

record can_tx =
  canSendData :: "u32 list option"
  canSendBitLength :: nat
  canSendI :: nat
  canSendJ :: nat
  canSendDone :: bool
  canSendBitLengthSoFar :: nat

record can_state = fdu_state +
  CanUsers :: int
  fastSampleRate :: int
  canTx :: can_tx
  canRx :: can_rx

subsection \<open>Users and lines\<close>

definition Can_Init :: "(status, 'a can_state_scheme) op" where
  "Can_Init s =
     do {
       (status, s) \<leftarrow> Io_Start CAN_ENABLE True s;
       if status \<noteq> CONTROLLER_OK then Some (status, s)
       else do {
         (status, s) \<leftarrow> Io_Start CAN_TX True s;
         if status \<noteq> CONTROLLER_OK then map_option (\<lambda>(_, s). (status, s)) (Io_Stop CAN_ENABLE s)
         else do {
           (status, s) \<leftarrow> Io_Start CAN_RX True s;
           if status \<noteq> CONTROLLER_OK
           then do {
             (_, s) \<leftarrow> Io_Stop CAN_ENABLE s;
             (_, s) \<leftarrow> Io_Stop CAN_TX s;
             Some (status, s)
           }
           else let s = snd (Io_SetDirection CAN_TX True s);
                    s = snd (Io_SetDirection CAN_RX False s);
                    s = snd (Io_SetPullup CAN_RX False s);
                    s = snd (Io_SetDirection CAN_ENABLE True s);
                    s = snd (Io_SetValue CAN_ENABLE False s);
                    s = snd (Io_SetValue CAN_TX True s)
                in Some (CONTROLLER_OK, s)
         }
       }
     }"

definition Can_Start :: "(status, 'a can_state_scheme) op" where
  "Can_Start s =
     (let u = CanUsers s; s = s\<lparr>CanUsers := u + 1\<rparr>
      in if u = 0 then map_option (\<lambda>(_, s). (CONTROLLER_OK, s)) (Can_Init s)
         else Some (CONTROLLER_OK, s))"

text \<open>The last stop calls itself, where it finds no users and returns.\<close>

function Can_Stop :: "'a can_state_scheme \<Rightarrow> status \<times> 'a can_state_scheme" where
  "Can_Stop s =
     (if CanUsers s \<le> 0 then (CONTROLLER_ERROR_TOO_MANY_STOPS, s)
      else let s = s\<lparr>CanUsers := CanUsers s - 1\<rparr>
           in (CONTROLLER_OK, if CanUsers s = 0 then snd (Can_Stop s) else s))"
  by pat_completeness auto
termination
  by (relation "measure (\<lambda>s. nat (CanUsers s))") auto

declare Can_Stop.simps [simp del]

definition Can_SetActive :: "int \<Rightarrow> (status, 'a can_state_scheme) op" where
  "Can_SetActive state s = (if state \<noteq> 0 then Can_Start s else Some (Can_Stop s))"

definition Can_GetActive :: "'a can_state_scheme \<Rightarrow> bool" where
  "Can_GetActive s \<longleftrightarrow> CanUsers s > 0"

definition Can_InitReceive :: "'a can_state_scheme \<Rightarrow> 'a can_state_scheme" where
  "Can_InitReceive s =
     (let s = snd (FastTimer_SetActive True s);
          s = s\<lparr>fastSampleRate := 540\<rparr>;
          s = FastTimer_InitializeEntry canReceiveTimer (Some CB_can_receive) 0 CAN_PERIOD True s
      in snd (FastTimer_Set canReceiveTimer s))"

subsection \<open>Sending\<close>

definition Can_SendData :: "Frame \<Rightarrow> 'a can_state_scheme \<Rightarrow> 'a can_state_scheme option" where
  "Can_SendData frame s =
     do {
       (d, len) \<leftarrow> send_words frame;
       let s = s\<lparr>canTx := \<lparr>canSendData = Some d, canSendBitLength = len, canSendI = 0, canSendJ = 0,
                           canSendDone = False, canSendBitLengthSoFar = 0\<rparr>\<rparr>;
           s = FastTimer_InitializeEntry canSendTimer (Some CB_can_send) 0 CAN_PERIOD True s
       in Some (snd (FastTimer_Set canSendTimer s))
     }"

definition send_bit :: "'a can_state_scheme \<Rightarrow> 'a can_state_scheme option" where
  "send_bit s =
     do {
       d \<leftarrow> canSendData (canTx s);
       let i = canSendI (canTx s); j = canSendJ (canTx s) in
       if i \<ge> length d then None
       else do {
         let s = snd (Io_SetValue CAN_TX (if isPrime s \<noteq> 0 then bit (d ! i) (31 - j) else True) s) in
         do {
           (_, s) \<leftarrow> AppLed_SetState 2 (of_bool (bit (d ! i) j)) s;
           let t = canTx s;
               t = t\<lparr>canSendBitLengthSoFar := canSendBitLengthSoFar t + 1, canSendJ := j + 1\<rparr>;
               t = (if canSendJ t \<ge> 32 then t\<lparr>canSendI := i + 1, canSendJ := 0\<rparr> else t)
           in Some (s\<lparr>canTx := t\<rparr>)
         }
       }
     }"

definition Can_SendIRQCallback :: "'a can_state_scheme \<Rightarrow> 'a can_state_scheme option" where
  "Can_SendIRQCallback s =
     do {
       s \<leftarrow> (if canSendBitLengthSoFar (canTx s) < canSendBitLength (canTx s) \<and> \<not> canSendDone (canTx s)
            then send_bit s else Some s);
       if canSendBitLengthSoFar (canTx s) \<ge> canSendBitLength (canTx s)
       then do {
         (_, s) \<leftarrow> FastTimer_Cancel canSendTimer s;
         let s = snd (Io_SetValue CAN_TX True s)
         in Some (s\<lparr>canTx := (canTx s)\<lparr>canSendDone := True, canSendData := None\<rparr>\<rparr>)
       }
       else Some s
     }"

subsection \<open>Receiving\<close>

definition show_state :: "int \<Rightarrow> 'a can_state_scheme \<Rightarrow> 'a can_state_scheme option" where
  "show_state c s =
     do {
       (_, s) \<leftarrow> AppLed_SetState 3 (c AND 1) s;
       (_, s) \<leftarrow> AppLed_SetState 2 (c AND 2) s;
       (_, s) \<leftarrow> AppLed_SetState 1 (c AND 4) s;
       (_, s) \<leftarrow> AppLed_SetState 0 (c AND 8) s;
       Some s
     }"

definition Can_ReceiveIRQCallback :: "'a can_state_scheme \<Rightarrow> 'a can_state_scheme option" where
  "Can_ReceiveIRQCallback s =
     (let v = (Io_GetValue CAN_RX s \<noteq> 0) in
      do {
        s \<leftarrow> show_state (state_code (State (canRx s))) s;
        (r, out) \<leftarrow> rx_machine v (canRx s);
        Some (fold (\<lambda>b s. snd (Io_SetValue CAN_TX b s)) out (s\<lparr>canRx := r\<rparr>))
      })"

subsection \<open>The bus\<close>

text \<open>
  Two boards on one bus: in each bit time the sender's interrupt runs, the level it leaves on its
  transmit line arrives at the receiver's receive line, and the receiver's interrupt samples it.
\<close>

definition bus_level :: "bool \<Rightarrow> 'a can_state_scheme \<Rightarrow> 'a can_state_scheme" where
  "bus_level b s = on_port CAN_RX (\<lambda>p. p\<lparr>PIO_PDSR :=
     (if b then PIO_PDSR p OR line_mask CAN_RX else PIO_PDSR p AND NOT (line_mask CAN_RX))\<rparr>) s"

fun can_bus :: "nat \<Rightarrow> 'a can_state_scheme \<Rightarrow> 'b can_state_scheme \<Rightarrow> ('a can_state_scheme \<times> 'b can_state_scheme) option" where
  "can_bus 0 s r = Some (s, r)"
| "can_bus (Suc n) s r =
     do {
       s \<leftarrow> Can_SendIRQCallback s;
       r \<leftarrow> Can_ReceiveIRQCallback (bus_level (line_out s CAN_TX) r);
       can_bus n s r
     }"

subsection \<open>What the drivers leave alone\<close>

text \<open>The part of the state that belongs to neither the timers nor the LEDs and their lines.\<close>

definition can_view :: "'a can_state_scheme \<Rightarrow> int \<times> can_tx \<times> can_rx" where
  "can_view s = (ISPRIME s, canTx s, canRx s)"

definition led_view :: "'a can_state_scheme \<Rightarrow> IoPin list \<times> int \<times> int \<times> int list" where
  "led_view s = (Io_pins s, Io_users s, Io_init s, AppLed_users s)"

lemma led_view_inv: "led_view s = led_view t \<Longrightarrow> appled_inv s \<longleftrightarrow> appled_inv t"
  by (auto simp: led_view_def appled_inv_def io_inv_def line_locked_def)

definition timer_view :: "'a can_state_scheme \<Rightarrow> (nat \<Rightarrow> FastTimerEntry) \<times> nat option" where
  "timer_view s = (FT_heap s, FT_first s)"

lemma timer_view_list: "timer_view s = timer_view t \<Longrightarrow> running_list s xs \<longleftrightarrow> running_list t xs"
  by (simp add: timer_view_def running_list_def)

lemma set_line_views [simp]:
  "can_view (snd (set_line w i s)) = can_view s" "led_view (snd (set_line w i s)) = led_view s"
  "timer_view (snd (set_line w i s)) = timer_view s"
  by (simp_all add: set_line_def on_port_def can_view_def led_view_def timer_view_def)

lemma io_setter_views [simp]:
  "can_view (snd (Io_SetValue i v s)) = can_view s" "led_view (snd (Io_SetValue i v s)) = led_view s"
  "timer_view (snd (Io_SetValue i v s)) = timer_view s"
  "can_view (snd (Io_SetPio i v s)) = can_view s" "timer_view (snd (Io_SetPio i v s)) = timer_view s"
  "can_view (snd (Io_SetDirection i v s)) = can_view s" "timer_view (snd (Io_SetDirection i v s)) = timer_view s"
  by (simp_all add: Io_SetValue_def Io_SetPio_def Io_PioEnable_def Io_PioDisable_def Io_SetDirection_def
      Io_SetOutput_def Io_SetInput_def)

lemma view_updates [simp]:
  "can_view (s\<lparr>Io_users := a\<rparr>) = can_view s" "timer_view (s\<lparr>Io_users := a\<rparr>) = timer_view s"
  "can_view (s\<lparr>Io_pins := b\<rparr>) = can_view s" "timer_view (s\<lparr>Io_pins := b\<rparr>) = timer_view s"
  "can_view (s\<lparr>AppLed_users := c\<rparr>) = can_view s" "timer_view (s\<lparr>AppLed_users := c\<rparr>) = timer_view s"
  "can_view (Io_Init s) = can_view s" "timer_view (Io_Init s) = timer_view s"
  "can_view (s\<lparr>FT_first := d\<rparr>) = can_view s" "led_view (s\<lparr>FT_first := d\<rparr>) = led_view s"
  "can_view (s\<lparr>FT_heap := e\<rparr>) = can_view s" "led_view (s\<lparr>FT_heap := e\<rparr>) = led_view s"
  "can_view (s\<lparr>TC2_RC := f\<rparr>) = can_view s" "led_view (s\<lparr>TC2_RC := f\<rparr>) = led_view s"
  "can_view (s\<lparr>FT_previous := g\<rparr>) = can_view s" "led_view (s\<lparr>FT_previous := g\<rparr>) = led_view s"
  "can_view (s\<lparr>FT_next := h\<rparr>) = can_view s" "led_view (s\<lparr>FT_next := h\<rparr>) = led_view s"
  "can_view (s\<lparr>FT_nextTime := i\<rparr>) = can_view s" "led_view (s\<lparr>FT_nextTime := i\<rparr>) = led_view s"
  "can_view (s\<lparr>FT_users := k\<rparr>) = can_view s" "led_view (s\<lparr>FT_users := k\<rparr>) = led_view s"
  "can_view (FastTimer_Enable s) = can_view s" "led_view (FastTimer_Enable s) = led_view s"
  "can_view (FastTimer_Init s) = can_view s" "led_view (FastTimer_Init s) = led_view s"
  by (simp_all add: can_view_def led_view_def timer_view_def Io_Init_def FastTimer_Enable_def FastTimer_Init_def)

lemma pin_take_views [simp]:
  "can_view (pin_take lk i s) = can_view s" "timer_view (pin_take lk i s) = timer_view s"
  by (simp_all add: pin_take_def Let_def)

lemma Io_Start_views [simp]:
  "Io_Start i lk s = Some (r, s') \<Longrightarrow> can_view s' = can_view s"
  "Io_Start i lk s = Some (r, s') \<Longrightarrow> timer_view s' = timer_view s"
  by (auto simp: Io_Start_def split: if_splits)

lemma appled_add_views [simp]:
  "can_view (appled_add i d s) = can_view s" "timer_view (appled_add i d s) = timer_view s"
  by (simp_all add: appled_add_def)

lemma timer_step_views [simp]:
  "can_view (upd_entry a f s) = can_view s" "led_view (upd_entry a f s) = led_view s"
  "can_view (FastTimer_SetTimeTarget t s) = can_view s" "led_view (FastTimer_SetTimeTarget t s) = led_view s"
  "can_view (snd (FastTimer_SetActive b s)) = can_view s" "led_view (snd (FastTimer_SetActive b s)) = led_view s"
  by (simp_all add: upd_entry_def FastTimer_SetTimeTarget_def FastTimer_SetActive_def Let_def)

lemma timer_frame:
  "can_view (FastTimer_InitializeEntry a c i t b s) = can_view s"
  "led_view (FastTimer_InitializeEntry a c i t b s) = led_view s"
  "can_view (snd (FastTimer_Set a s)) = can_view s" "led_view (snd (FastTimer_Set a s)) = led_view s"
  "can_view (unlinked a us s) = can_view s" "led_view (unlinked a us s) = led_view s"
  by (simp_all add: FastTimer_InitializeEntry_def FastTimer_Set_def FastTimer_start_def FastTimer_link_def
      unlinked_def servicing_fix_def Let_def)

lemma line_out_appled_add [simp]: "line_out (appled_add i d s) = line_out s"
  by (simp add: appled_add_def line_view_defs port_def fun_eq_iff)

lemma AppLed_Start_frame:
  assumes "AppLed_Start i s = Some (r, s')" and "appled_index i" and "io_line l" and "l \<noteq> AppLed_GetIo i"
  shows "can_view s' = can_view s" "timer_view s' = timer_view s" "line_out s' l = line_out s l"
proof -
  have io: "io_line (AppLed_GetIo i)" by (rule appled_line [OF assms(2)])
  show "can_view s' = can_view s" "timer_view s' = timer_view s"
    using assms(1) by (auto simp: AppLed_Start_def Let_def split: if_splits Option.bind_splits)
  show "line_out s' l = line_out s l"
    using assms(1) line_view_Start(1) [of "AppLed_GetIo i" True "appled_add i 1 s"] io assms(3,4)
    by (auto simp: AppLed_Start_def Let_def line_out_SetValue line_view_other split: if_splits Option.bind_splits)
qed

lemma AppLed_SetState_frame:
  assumes "appled_inv s" and "0 \<le> i" and "i < 4"
  shows "\<exists>r s'. AppLed_SetState i v s = Some (r, s') \<and> appled_inv s' \<and> can_view s' = can_view s \<and>
    timer_view s' = timer_view s \<and> line_out s' CAN_TX = line_out s CAN_TX"
proof -
  have i: "appled_index i" using assms by (simp add: appled_index_def)
  have tx: "io_line CAN_TX" "CAN_TX \<noteq> AppLed_GetIo i" "io_line (AppLed_GetIo i)"
    using appled_line [OF i] by (auto simp: io_line_def AppLed_GetIo_def)
  obtain r t where t: "AppLed_Start i s = Some (r, t)" "appled_inv t"
    using appled.start_step [of s i] assms(1) i by auto
  note f = AppLed_Start_frame [OF t(1) i tx(1,2)]
  show ?thesis
    using assms t f tx by (auto simp: AppLed_SetState_def line_out_SetValue)
qed

lemma show_state_frame:
  assumes "appled_inv s"
  shows "\<exists>s'. show_state c s = Some s' \<and> appled_inv s' \<and> can_view s' = can_view s"
proof -
  obtain r1 s1 where s1: "AppLed_SetState 3 (c AND 1) s = Some (r1, s1)" "appled_inv s1" "can_view s1 = can_view s"
    using AppLed_SetState_frame [OF assms, of 3 "c AND 1"] by auto
  obtain r2 s2 where s2: "AppLed_SetState 2 (c AND 2) s1 = Some (r2, s2)" "appled_inv s2" "can_view s2 = can_view s"
    using AppLed_SetState_frame [OF s1(2), of 2 "c AND 2"] s1(3) by auto
  obtain r3 s3 where s3: "AppLed_SetState 1 (c AND 4) s2 = Some (r3, s3)" "appled_inv s3" "can_view s3 = can_view s"
    using AppLed_SetState_frame [OF s2(2), of 1 "c AND 4"] s2(3) by auto
  obtain r4 s4 where s4: "AppLed_SetState 0 (c AND 8) s3 = Some (r4, s4)" "appled_inv s4" "can_view s4 = can_view s"
    using AppLed_SetState_frame [OF s3(2), of 0 "c AND 8"] s3(3) by auto
  show ?thesis using s1(1) s2(1) s3(1) s4 by (simp add: show_state_def)
qed

subsection \<open>One bit time\<close>

text \<open>A sender that has put \<open>k\<close> of \<open>len\<close> bits on the bus.\<close>

definition sending :: "u32 list \<Rightarrow> nat \<Rightarrow> nat \<Rightarrow> nat list \<Rightarrow> 'a can_state_scheme \<Rightarrow> bool" where
  "sending d len k ts s \<longleftrightarrow> appled_inv s \<and> ISPRIME s \<noteq> 0 \<and> running_list s ts \<and>
     canTx s = \<lparr>canSendData = Some d, canSendBitLength = len, canSendI = k div 32, canSendJ = k mod 32,
                canSendDone = False, canSendBitLengthSoFar = k\<rparr>"

definition sent :: "nat list \<Rightarrow> 'a can_state_scheme \<Rightarrow> bool" where
  "sent ts s \<longleftrightarrow> appled_inv s \<and> running_list s ts \<and> canSendDone (canTx s) \<and> canSendData (canTx s) = None"

lemma view_canTx [simp]:
  "led_view (s\<lparr>canTx := t\<rparr>) = led_view s" "timer_view (s\<lparr>canTx := t\<rparr>) = timer_view s"
  "line_out (s\<lparr>canTx := t\<rparr>) = line_out s" "led_view (s\<lparr>canRx := r\<rparr>) = led_view s"
  by (simp_all add: led_view_def timer_view_def fun_eq_iff line_view_defs port_def)

lemma send_bit_step:
  assumes "sending d len k ts s" and "length d = 20" and "k < 640"
  shows "\<exists>s'. send_bit s = Some s' \<and> sending d len (Suc k) ts s' \<and> line_out s' CAN_TX = sbit d k"
proof -
  have inv: "appled_inv s" and prime: "ISPRIME s \<noteq> 0" and run: "running_list s ts"
    and tx: "canTx s = \<lparr>canSendData = Some d, canSendBitLength = len, canSendI = k div 32, canSendJ = k mod 32,
                canSendDone = False, canSendBitLengthSoFar = k\<rparr>"
    using assms(1) by (simp_all add: sending_def)
  define t where "t = snd (Io_SetValue CAN_TX (sbit d k) s)"
  have txline: "io_line CAN_TX" by (simp add: io_line_def)
  have "appled_inv t" using led_view_inv [of t s] inv by (simp add: t_def)
  then obtain r u where u: "AppLed_SetState 2 (of_bool (bit (d ! (k div 32)) (k mod 32))) t = Some (r, u)" "appled_inv u"
    "can_view u = can_view t" "timer_view u = timer_view t" "line_out u CAN_TX = line_out t CAN_TX"
    using AppLed_SetState_frame [of t 2 "of_bool (bit (d ! (k div 32)) (k mod 32))"] by auto
  have cv: "can_view t = can_view s" "timer_view t = timer_view s" "line_out t CAN_TX = sbit d k"
    using txline by (simp_all add: t_def line_out_SetValue)
  have utx: "canTx u = canTx s" "ISPRIME u = ISPRIME s" using u(3) cv(1) by (simp_all add: can_view_def)
  let ?T = "\<lparr>canSendData = Some d, canSendBitLength = len, canSendI = Suc k div 32, canSendJ = Suc k mod 32,
                canSendDone = False, canSendBitLengthSoFar = Suc k\<rparr>"
  have idx: "k div 32 < 20" using assms(3) by simp
  have ptr: "(if Suc (k mod 32) \<ge> 32 then Suc (k div 32) else k div 32) = Suc k div 32"
    "(if Suc (k mod 32) \<ge> 32 then 0 else Suc (k mod 32)) = Suc k mod 32"
    using mod_less_divisor [of 32 k] by (auto simp: div_Suc mod_Suc)
  have "send_bit s = Some (u\<lparr>canTx := ?T\<rparr>)"
    using u(1) tx idx prime assms(2) utx(1) ptr
    by (auto simp: send_bit_def isPrime_def sbit_def [symmetric] t_def Let_def split: if_splits)
  moreover have "sending d len (Suc k) ts (u\<lparr>canTx := ?T\<rparr>)"
    using led_view_inv [of "u\<lparr>canTx := ?T\<rparr>" u] u(2) prime utx timer_view_list [of "u\<lparr>canTx := ?T\<rparr>" s] u(4) cv(2) run
    by (simp add: sending_def)
  ultimately show ?thesis using u(5) cv(3) by auto
qed

lemma Can_SendIRQCallback_step:
  assumes "sending d len k ts s" and "length d = 20" and "k < len" and "len \<le> 640"
    and "Suc k = len \<Longrightarrow> sbit d k"
  shows "\<exists>s'. Can_SendIRQCallback s = Some s' \<and> line_out s' CAN_TX = sbit d k \<and>
    (if Suc k = len then sent (removeAll canSendTimer ts) s' else sending d len (Suc k) ts s')"
proof -
  have tx: "canTx s = \<lparr>canSendData = Some d, canSendBitLength = len, canSendI = k div 32, canSendJ = k mod 32,
                canSendDone = False, canSendBitLengthSoFar = k\<rparr>" using assms(1) by (simp add: sending_def)
  obtain t where t: "send_bit s = Some t" "sending d len (Suc k) ts t" "line_out t CAN_TX = sbit d k"
    using send_bit_step [OF assms(1,2)] assms(3,4) by auto
  then have ttx: "canSendBitLengthSoFar (canTx t) = Suc k" "canSendBitLength (canTx t) = len"
    by (simp_all add: sending_def)
  show ?thesis
  proof (cases "Suc k = len")
    case False
    then have "Can_SendIRQCallback s = Some t"
      using assms(3) tx t(1) ttx by (simp add: Can_SendIRQCallback_def)
    then show ?thesis using t False by simp
  next
    case True
    have inv: "appled_inv t" "running_list t ts" using t(2) by (simp_all add: sending_def)
    obtain u where u: "FastTimer_Cancel canSendTimer t = Some (CONTROLLER_OK, u)" "running_list u (removeAll canSendTimer ts)"
      using FastTimer_Cancel_list [OF inv(2)] by blast
    have "led_view u = led_view t"
      using FastTimer_Cancel_cases [OF inv(2) u(1)] timer_frame(6) by metis
    let ?w = "snd (Io_SetValue CAN_TX True u)"
    let ?s' = "?w\<lparr>canTx := (canTx ?w)\<lparr>canSendDone := True, canSendData := None\<rparr>\<rparr>"
    have "led_view ?s' = led_view t" "timer_view ?s' = timer_view u"
      using \<open>led_view u = led_view t\<close> by simp_all
    then have "sent (removeAll canSendTimer ts) ?s'"
      using led_view_inv [of ?s' t] inv(1) timer_view_list [of ?s' u] u(2) by (simp add: sent_def)
    moreover have "Can_SendIRQCallback s = Some ?s'"
      using assms(3) tx t(1) ttx u(1) True by (simp add: Can_SendIRQCallback_def Let_def)
    moreover have "line_out ?s' CAN_TX = sbit d k"
      using assms(5) True by (simp add: line_out_SetValue io_line_def)
    ultimately show ?thesis using True by auto
  qed
qed

lemma bus_level_views:
  "can_view (bus_level b s) = can_view s" "led_view (bus_level b s) = led_view s"
  by (simp_all add: bus_level_def on_port_def can_view_def led_view_def)

lemma bus_level_read: "Io_GetValue CAN_RX (bus_level b s) \<noteq> 0 \<longleftrightarrow> b"
proof -
  have "io_line CAN_RX" by (simp add: io_line_def)
  then show ?thesis
    by (simp add: Io_GetValue_level bus_level_def line_level_def on_port_def port_def line_mask_def)
qed

lemma writes_views:
  "led_view (fold (\<lambda>b s. snd (Io_SetValue l b s)) out s) = led_view s"
  "can_view (fold (\<lambda>b s. snd (Io_SetValue l b s)) out s) = can_view s"
  by (induction out arbitrary: s) simp_all

lemma Can_ReceiveIRQCallback_step:
  assumes "appled_inv s" and "rx_machine b (canRx s) = Some (q, out)"
  shows "\<exists>s'. Can_ReceiveIRQCallback (bus_level b s) = Some s' \<and> appled_inv s' \<and> canRx s' = q"
proof -
  let ?s = "bus_level b s"
  have inv: "appled_inv ?s" using led_view_inv [OF bus_level_views(2)] assms(1) by blast
  have rx: "canRx ?s = canRx s" using bus_level_views(1) [of b s] by (simp add: can_view_def)
  obtain t where t: "show_state (state_code (State (canRx ?s))) ?s = Some t" "appled_inv t" "can_view t = can_view ?s"
    using show_state_frame [OF inv] by blast
  then have "canRx t = canRx s" using rx by (simp add: can_view_def)
  then have "Can_ReceiveIRQCallback ?s = Some (fold (\<lambda>b s. snd (Io_SetValue CAN_TX b s)) out (t\<lparr>canRx := q\<rparr>))"
    using t(1) assms(2) bus_level_read [of b s] by (simp add: Can_ReceiveIRQCallback_def Let_def)
  moreover have "appled_inv (fold (\<lambda>b s. snd (Io_SetValue CAN_TX b s)) out (t\<lparr>canRx := q\<rparr>))"
    using led_view_inv [of "fold (\<lambda>b s. snd (Io_SetValue CAN_TX b s)) out (t\<lparr>canRx := q\<rparr>)" t] t(2)
    by (simp add: writes_views)
  moreover have "canRx (fold (\<lambda>b s. snd (Io_SetValue CAN_TX b s)) out (t\<lparr>canRx := q\<rparr>)) = q"
    using writes_views(2) [of CAN_TX out "t\<lparr>canRx := q\<rparr>"] by (simp add: can_view_def)
  ultimately show ?thesis by blast
qed

subsection \<open>A frame crosses the bus\<close>

lemma can_bus_run:
  assumes "sending d len k ts s" and "length d = 20" and "k < len" and "len \<le> 640" and "sbit d (len - 1)"
    and "appled_inv r" and "rx_run (map (sbit d) [k..<len]) (canRx r) = Some (q, outs)"
  shows "\<exists>s' r'. can_bus (len - k) s r = Some (s', r') \<and> sent (removeAll canSendTimer ts) s' \<and>
    appled_inv r' \<and> canRx r' = q"
  using assms(1,3,6,7)
proof (induction "len - Suc k" arbitrary: k s r outs)
  case 0
  then have last: "Suc k = len" by simp
  then have bits: "[k..<len] = [k]" by (metis append_Nil le_refl upt_Suc_append upt_conv_Nil)
  obtain s1 where s1: "Can_SendIRQCallback s = Some s1" "line_out s1 CAN_TX = sbit d k" "sent (removeAll canSendTimer ts) s1"
    using Can_SendIRQCallback_step [OF 0(2) assms(2) 0(3) assms(4)] last assms(5) by auto
  obtain out where "rx_machine (sbit d k) (canRx r) = Some (q, out)"
    using "0.prems"(4) by (auto simp: bits split: Option.bind_splits)
  then obtain r1 where "Can_ReceiveIRQCallback (bus_level (sbit d k) r) = Some r1" "appled_inv r1" "canRx r1 = q"
    using Can_ReceiveIRQCallback_step [OF "0.prems"(3)] by blast
  moreover have "len - k = Suc 0" using last by simp
  ultimately show ?case using s1 by simp
next
  case (Suc n)
  then have more: "Suc k < len" and n: "n = len - Suc (Suc k)" by simp_all
  then have bits: "[k..<len] = k # [Suc k..<len]" by (simp add: upt_conv_Cons)
  obtain s1 where s1: "Can_SendIRQCallback s = Some s1" "line_out s1 CAN_TX = sbit d k" "sending d len (Suc k) ts s1"
    using Can_SendIRQCallback_step [OF Suc.prems(1) assms(2) Suc.prems(2) assms(4)] more by auto
  obtain q1 out1 out2 where m: "rx_machine (sbit d k) (canRx r) = Some (q1, out1)"
    and rest: "rx_run (map (sbit d) [Suc k..<len]) q1 = Some (q, out2)"
    using Suc.prems(4) by (auto simp: bits split: Option.bind_splits)
  obtain r1 where r1: "Can_ReceiveIRQCallback (bus_level (sbit d k) r) = Some r1" "appled_inv r1" "canRx r1 = q1"
    using Can_ReceiveIRQCallback_step [OF Suc.prems(3) m] by blast
  obtain s' r' where "can_bus (len - Suc k) s1 r1 = Some (s', r')" "sent (removeAll canSendTimer ts) s'" "appled_inv r'" "canRx r' = q"
    using Suc.hyps(1) [OF n s1(3) more r1(2) rest [folded r1(3)]] by blast
  moreover have "len - k = Suc (len - Suc k)" using more by simp
  ultimately show ?case using s1 r1(1) by simp
qed

lemma Can_SendData_sending:
  assumes "appled_inv s" and "ISPRIME s \<noteq> 0" and "running_list s ts" and "canSendTimer \<notin> set ts"
    and "\<not> FT_running s \<Longrightarrow> FT_users s = 0 \<Longrightarrow> ts = []" and "send_words f = Some (d, len)"
  shows "\<exists>s'. Can_SendData f s = Some s' \<and> sending d len 0 (canSendTimer # ts) s'"
proof -
  let ?T = "\<lparr>canSendData = Some d, canSendBitLength = len, canSendI = 0, canSendJ = 0,
             canSendDone = False, canSendBitLengthSoFar = 0\<rparr>"
  let ?t = "s\<lparr>canTx := ?T\<rparr>"
  let ?u = "FastTimer_InitializeEntry canSendTimer (Some CB_can_send) 0 CAN_PERIOD True ?t"
  let ?w = "snd (FastTimer_Set canSendTimer ?u)"
  have "running_list ?t ts" using timer_view_list [of ?t s] assms(3) by simp
  then have run: "running_list ?u ts"
    using assms(4) by (simp add: FastTimer_InitializeEntry_def running_list_def Let_def chain_upd)
  have ft: "FT_running ?u = FT_running s" "FT_users ?u = FT_users s"
    by (simp_all add: FastTimer_InitializeEntry_def Let_def upd_entry_def)
  have "running_list ?w (canSendTimer # ts)"
    using FastTimer_Set_list(1) [OF run assms(4)] assms(5) ft by simp
  moreover have cv: "can_view ?w = can_view ?t" "led_view ?w = led_view s" by (simp_all add: timer_frame)
  moreover have "appled_inv ?w" using led_view_inv [OF cv(2)] assms(1) by blast
  ultimately have "sending d len 0 (canSendTimer # ts) ?w"
    using assms(2) by (simp add: sending_def can_view_def)
  then show ?thesis using assms(6) by (simp add: Can_SendData_def Let_def)
qed

text \<open>
  C1: a frame of up to eight data bytes that a prime board sends is received. Run bit time by bit time
  against an idle receiver, the sender finishes after exactly 47 bits plus the data, with its timer
  cancelled and its buffer freed, and the receiver is idle again and holds the sender's identifier, remote
  flag, length and data bytes, with the checksum it recomputed equal to the one it received.
\<close>

theorem can_frame_crosses_bus:
  assumes "unat (dlc f) \<le> 8" and "length (data f) = 8"
    and "appled_inv s" and "ISPRIME s \<noteq> 0" and "running_list s ts" and "canSendTimer \<notin> set ts"
    and "\<not> FT_running s \<Longrightarrow> FT_users s = 0 \<Longrightarrow> ts = []"
    and "appled_inv r" and "canRx r = \<lparr>State = IDLE, BitCount = 0, DataCount = 0, CurrFrame = g\<rparr>"
  shows "\<exists>s1 s2 r2. Can_SendData f s = Some s1 \<and> can_bus (47 + 8 * unat (dlc f)) s1 r = Some (s2, r2) \<and>
    canSendDone (canTx s2) \<and> canSendData (canTx s2) = None \<and> running_list s2 ts \<and>
    canRx r2 = \<lparr>State = IDLE, BitCount = 0, DataCount = 0, CurrFrame = received f\<rparr>"
proof -
  obtain d where d: "send_words f = Some (d, length (frame_bits f))" "length d = 20"
    "\<forall>k < length (frame_bits f). sbit d k = frame_bits f ! k"
    using send_words_bits [OF assms(1,2)] by blast
  let ?n = "length (frame_bits f)"
  have n: "?n = 47 + 8 * unat (dlc f)" using assms(1,2) by (simp add: frame_bits_def length_payload)
  have bits: "map (sbit d) [0..<?n] = frame_bits f" 
    using d(3) by (intro nth_equalityI) (simp_all del: upt_Suc)
  have "last (frame_bits f)" "frame_bits f \<noteq> []" by (simp_all add: frame_bits_def)
  then have "frame_bits f ! (?n - 1)" by (simp add: last_conv_nth)
  moreover have "?n - 1 < ?n" using n by linarith
  ultimately have last: "sbit d (?n - 1)" using d(3) by blast
  obtain s1 where s1: "Can_SendData f s = Some s1" "sending d ?n 0 (canSendTimer # ts) s1"
    using Can_SendData_sending [OF assms(3-7) d(1)] by blast
  have "rx_run (map (sbit d) [0..<?n]) (canRx r) =
      Some (\<lparr>State = IDLE, BitCount = 0, DataCount = 0, CurrFrame = received f\<rparr>, [False, True])"
    unfolding bits assms(9) by (rule rx_receives [OF assms(1,2)])
  then obtain s2 r2 where 2: "can_bus ?n s1 r = Some (s2, r2)" "sent (removeAll canSendTimer (canSendTimer # ts)) s2"
    "canRx r2 = \<lparr>State = IDLE, BitCount = 0, DataCount = 0, CurrFrame = received f\<rparr>"
    using can_bus_run [OF s1(2) d(2) _ _ last assms(8)] n assms(1) by auto
  have "removeAll canSendTimer (canSendTimer # ts) = ts" using assms(6) by simp
  then show ?thesis using s1(1) 2 n unfolding sent_def by auto
qed

definition can_boot :: can_state where
  "can_boot = fdu_state.extend fdu_running
     \<lparr>CanUsers = 0, fastSampleRate = 0,
      canTx = \<lparr>canSendData = None, canSendBitLength = 0, canSendI = 0, canSendJ = 0, canSendDone = True,
               canSendBitLengthSoFar = 0\<rparr>,
      canRx = \<lparr>State = IDLE, BitCount = 0, DataCount = 0, CurrFrame = empty_frame\<rparr>\<rparr>"

lemma can_boot_fields:
  "ISPRIME can_boot = 1" "canRx can_boot = \<lparr>State = IDLE, BitCount = 0, DataCount = 0, CurrFrame = empty_frame\<rparr>"
  "CanUsers can_boot = 0" "Io_pins can_boot = Io_pins fdu_running" "Io_users can_boot = Io_users fdu_running"
  "Io_init can_boot = Io_init fdu_running" "AppLed_users can_boot = AppLed_users leds_boot" "FT_first can_boot = FT_first fdu_running"
  by (simp_all add: can_boot_def fdu_state.defs fdu_running_fields)

lemma can_boot_inv: "io_inv can_boot" "appled_inv can_boot" "running_list can_boot []"
proof -
  show io: "io_inv can_boot"
    using fdu_running_inv(1) by (simp add: io_inv_def can_boot_fields)
  have "AppLed_users can_boot = replicate 4 0" by (simp add: can_boot_fields leds_boot_def fasttimer_state.defs)
  then show "appled_inv can_boot" using io by (intro appled_invI) (auto simp: appled_index_def)
  have "FT_first can_boot = None"
    by (simp add: can_boot_fields fdu_running_def inputs_state.defs inputs_boot_def digitalout_state.defs dout_boot_def
        leds_state.defs leds_boot_def fasttimer_state.defs)
  then show "running_list can_boot []" by (simp add: running_list_def)
qed

definition sample_frame :: Frame where
  "sample_frame = empty_frame\<lparr>identifier1 := 0x7FF, dlc := 3, data := [0x12, 0x34, 0x56, 0, 0, 0, 0, 0]\<rparr>"

theorem can_frame_crosses_bus_witness:
  "\<exists>s1 s2 r2. Can_SendData sample_frame can_boot = Some s1 \<and> can_bus 71 s1 can_boot = Some (s2, r2) \<and>
    canSendDone (canTx s2) \<and> identifier1 (CurrFrame (canRx r2)) = 0x7FF \<and> State (canRx r2) = IDLE \<and>
    data (CurrFrame (canRx r2)) = [0x12, 0x34, 0x56, 0, 0, 0, 0, 0]"
proof -
  have f: "unat (dlc sample_frame) = 3" "length (data sample_frame) = 8"
    "identifier1 sample_frame = 0x7FF" "data sample_frame = [0x12, 0x34, 0x56, 0, 0, 0, 0, 0]"
    by (simp_all add: sample_frame_def)
  have r: "received sample_frame = \<lparr>standard = 1, identifier1 = 0x7FF, identifier2 = 0, rtr = rtr sample_frame,
      dlc = dlc sample_frame, data = [0x12, 0x34, 0x56, 0, 0, 0, 0, 0], crc = frame_crc sample_frame, ack = 3, eof = - 1\<rparr>"
    by (simp add: received_def f data_upto_def numeral_eq_Suc)
  show ?thesis
    using can_frame_crosses_bus [of sample_frame can_boot "[]" can_boot empty_frame] f can_boot_inv can_boot_fields(1,2)
    by (auto simp: r)
qed

subsection \<open>Starting and stopping\<close>

lemma Can_Stop_last: "CanUsers s = 1 \<Longrightarrow> Can_Stop s = (CONTROLLER_OK, s\<lparr>CanUsers := 0\<rparr>)"
  by (simp add: Can_Stop.simps [of s] Can_Stop.simps [of "s\<lparr>CanUsers := 0\<rparr>"] Let_def)

lemma io_canUsers [simp]:
  "line_users (s\<lparr>CanUsers := n\<rparr>) = line_users s" "line_locked (s\<lparr>CanUsers := n\<rparr>) = line_locked s"
  "io_inv (s\<lparr>CanUsers := n\<rparr>) = io_inv s"
  by (simp_all add: line_users_def line_locked_def io_inv_def fun_eq_iff)

lemma CanUsers_frame [simp]:
  "CanUsers (snd (set_line w i s)) = CanUsers s"
  "Io_Start i lk s = Some (r, s') \<Longrightarrow> CanUsers s' = CanUsers s"
  by (auto simp: set_line_def on_port_def Io_Start_def pin_take_def Io_Init_def Let_def split: if_splits)

lemma io_pullup_owner [simp]:
  "line_users (snd (Io_SetPullup i v s)) = line_users s" "line_locked (snd (Io_SetPullup i v s)) = line_locked s"
  "io_inv (snd (Io_SetPullup i v s)) = io_inv s" "CanUsers (snd (Io_SetPullup i v s)) = CanUsers s"
  "CanUsers (snd (Io_SetDirection i v s)) = CanUsers s" "CanUsers (snd (Io_SetValue i v s)) = CanUsers s"
  by (simp_all add: Io_SetPullup_def Io_PullupEnable_def Io_PullupDisable_def Io_SetDirection_def Io_SetOutput_def
      Io_SetInput_def Io_SetValue_def)

lemma Can_Init_locks:
  assumes "io_inv s" and "line_users s CAN_ENABLE = 0" and "line_users s CAN_TX = 0" and "line_users s CAN_RX = 0"
  shows "\<exists>s'. Can_Init s = Some (CONTROLLER_OK, s') \<and> io_inv s' \<and> CanUsers s' = CanUsers s \<and>
    line_locked s' = (line_locked s)(CAN_ENABLE := True, CAN_TX := True, CAN_RX := True)"
proof -
  have l: "io_line CAN_ENABLE" "io_line CAN_TX" "io_line CAN_RX" by (simp_all add: io_line_def)
  obtain s1 where s1: "Io_Start CAN_ENABLE True s = Some (CONTROLLER_OK, s1)"
    using io.start_free [OF assms(1) l(1) assms(2)] by blast
  note ok1 = io.start_okD [OF assms(1) l(1) s1]
  obtain s2 where s2: "Io_Start CAN_TX True s1 = Some (CONTROLLER_OK, s2)"
    using io.start_free [OF ok1(1) l(2)] ok1(4) assms(3) by auto
  note ok2 = io.start_okD [OF ok1(1) l(2) s2]
  obtain s3 where s3: "Io_Start CAN_RX True s2 = Some (CONTROLLER_OK, s3)"
    using io.start_free [OF ok2(1) l(3)] ok2(4) ok1(4) assms(4) by auto
  note ok3 = io.start_okD [OF ok2(1) l(3) s3]
  have "CanUsers s3 = CanUsers s" using s1 s2 s3 by simp
  then show ?thesis using s1 s2 s3 ok1(5) ok2(5) ok3(1,5) by (simp add: Can_Init_def Let_def)
qed

text \<open>
  Stopping the CAN subsystem for its last user does not release anything: the stop that should shut it
  down calls itself, finds no users and returns, and the three I/O lines that the start locked stay locked.
\<close>

theorem can_stop_keeps_lines:
  assumes "io_inv s" and "CanUsers s = 0"
    and "line_users s CAN_ENABLE = 0" and "line_users s CAN_TX = 0" and "line_users s CAN_RX = 0"
  shows "\<exists>s1 s2. Can_Start s = Some (CONTROLLER_OK, s1) \<and> Can_Stop s1 = (CONTROLLER_OK, s2) \<and>
    CanUsers s2 = 0 \<and> line_locked s2 CAN_ENABLE \<and> line_locked s2 CAN_TX \<and> line_locked s2 CAN_RX"
proof -
  obtain s1 where s1: "Can_Init (s\<lparr>CanUsers := 1\<rparr>) = Some (CONTROLLER_OK, s1)" "CanUsers s1 = 1"
    "line_locked s1 = (line_locked s)(CAN_ENABLE := True, CAN_TX := True, CAN_RX := True)"
    using Can_Init_locks [of "s\<lparr>CanUsers := 1\<rparr>"] assms by auto
  have "Can_Start s = Some (CONTROLLER_OK, s1)" using s1(1) assms(2) by (simp add: Can_Start_def Let_def)
  moreover have "Can_Stop s1 = (CONTROLLER_OK, s1\<lparr>CanUsers := 0\<rparr>)" by (rule Can_Stop_last [OF s1(2)])
  ultimately show ?thesis using s1(3) by simp
qed

theorem can_stop_keeps_lines_witness:
  "\<exists>s1 s2. Can_Start can_boot = Some (CONTROLLER_OK, s1) \<and> Can_Stop s1 = (CONTROLLER_OK, s2) \<and>
    CanUsers s2 = 0 \<and> line_locked s2 CAN_TX"
proof -
  have "line_users can_boot l = 0" if "l \<in> {7, 19, 20}" for l
    using that by (auto simp: line_users_def can_boot_fields fdu_running_fields held_pins_def)
  then show ?thesis using can_stop_keeps_lines [OF can_boot_inv(1) can_boot_fields(3)] by auto
qed

end
