(* ===== verification/Pwm.thy ===== *)
theory Pwm
  imports Can
begin

text \<open>
  The pulse-width modulator (\<^verbatim>\<open>src/firmware/core/makingthings/pwm.c\<close>): four channels, each on the I/O line
  that also enables the drivers of a pair of digital outputs, with the clock, waveform and duty registers
  of the controller. \<open>PWMC_SR\<close> is the channel status register that the enable and disable registers set
  and clear.
\<close>

subsection \<open>State\<close>

record pwm_state = can_state +
  Pwm_users :: int
  Pwm_channels :: u32
  Pwm_duty :: "int list"
  PWMC_SR :: u32
  PWMC_MR :: u32
  PWMC_CMR :: "u32 list"
  PWMC_CPRDR :: "u32 list"
  PWMC_CDTYR :: "u32 list"
  PWMC_CUPDR :: "u32 list"

abbreviation (input) PWM_COUNT :: int where "PWM_COUNT \<equiv> 4"
abbreviation (input) PWM_DUTY_MAX :: u32 where "PWM_DUTY_MAX \<equiv> 1024"

definition PWMC_ENA :: "u32 \<Rightarrow> 'a pwm_state_scheme \<Rightarrow> 'a pwm_state_scheme" where
  "PWMC_ENA m s = s\<lparr>PWMC_SR := PWMC_SR s OR m\<rparr>"

definition PWMC_DIS :: "u32 \<Rightarrow> 'a pwm_state_scheme \<Rightarrow> 'a pwm_state_scheme" where
  "PWMC_DIS m s = s\<lparr>PWMC_SR := PWMC_SR s AND NOT m\<rparr>"

subsection \<open>Operations\<close>

definition Pwm_Set :: "int \<Rightarrow> int \<Rightarrow> 'a pwm_state_scheme \<Rightarrow> status \<times> 'a pwm_state_scheme" where
  "Pwm_Set index duty s =
     (if index < 0 \<or> index \<ge> PWM_COUNT then (CONTROLLER_ERROR_ILLEGAL_INDEX, s)
      else (CONTROLLER_OK, s\<lparr>Pwm_duty := (Pwm_duty s)[nat index := duty],
                             PWMC_CUPDR := (PWMC_CUPDR s)[nat index := word_of_int duty]\<rparr>))"

definition Pwm_Get :: "int \<Rightarrow> 'a pwm_state_scheme \<Rightarrow> int" where
  "Pwm_Get index s =
     (if index < 0 \<or> index \<ge> PWM_COUNT then CONTROLLER_ERROR_ILLEGAL_INDEX else Pwm_duty s ! nat index)"

definition Pwm_GetChannelIo :: "int \<Rightarrow> int" where
  "Pwm_GetChannelIo channel =
     (if channel = 0 then 51 else if channel = 1 then 52 else if channel = 2 then 53
      else if channel = 3 then 54 else 0)"

definition Pwm_Init :: "'a pwm_state_scheme \<Rightarrow> status \<times> 'a pwm_state_scheme" where
  "Pwm_Init s =
     (let s = s\<lparr>PMC_PCSR := PMC_PCSR s OR mask1 10\<rparr>;
          s = PWMC_DIS (mask1 0 OR mask1 1 OR mask1 2 OR mask1 3) s
      in (CONTROLLER_OK, s\<lparr>PWMC_MR := push_bit 8 4 OR 0x08, PWMC_CMR := replicate 4 (0xB OR push_bit 9 1),
            PWMC_CPRDR := replicate 4 PWM_DUTY_MAX, PWMC_CDTYR := replicate 4 0, PWMC_CUPDR := replicate 4 0\<rparr>))"

definition Pwm_Deinit :: "'a pwm_state_scheme \<Rightarrow> status \<times> 'a pwm_state_scheme" where
  "Pwm_Deinit s = (CONTROLLER_OK, s\<lparr>PMC_PCSR := PMC_PCSR s AND NOT (mask1 10)\<rparr>)"

definition Pwm_Start :: "int \<Rightarrow> (status, 'a pwm_state_scheme) op" where
  "Pwm_Start channel s =
     (if channel < 0 \<or> channel \<ge> PWM_COUNT then Some (CONTROLLER_ERROR_ILLEGAL_INDEX, s)
      else let c = mask1 (nat channel) in
        if c AND Pwm_channels s \<noteq> 0 then Some (CONTROLLER_ERROR_CANT_LOCK, s)
        else let io = Pwm_GetChannelIo channel in
          do {
            (status, s) \<leftarrow> Io_Start io True s;
            if status \<noteq> CONTROLLER_OK then Some (status, s)
            else let s = s\<lparr>Pwm_channels := Pwm_channels s OR c\<rparr>;
                     s = snd (Io_SetPio io False s);
                     s = snd (Io_SetPeripheralA io s);
                     u = Pwm_users s;
                     s = s\<lparr>Pwm_users := u + 1\<rparr>;
                     s = (if u = 0 then snd (Pwm_Init s) else s)
                 in Some (CONTROLLER_OK, PWMC_ENA c s)
          })"

definition Pwm_Stop :: "int \<Rightarrow> (status, 'a pwm_state_scheme) op" where
  "Pwm_Stop channel s =
     (if Pwm_users s \<le> 0 then Some (CONTROLLER_ERROR_TOO_MANY_STOPS, s)
      else if channel < 0 \<or> channel \<ge> PWM_COUNT then Some (CONTROLLER_ERROR_ILLEGAL_INDEX, s)
      else let c = mask1 (nat channel) in
        if c AND Pwm_channels s = 0 then Some (CONTROLLER_ERROR_NOT_LOCKED, s)
        else let io = Pwm_GetChannelIo channel;
                 s = snd (Io_SetValue io False s);
                 s = snd (Io_SetPio io True s)
          in do {
            (_, s) \<leftarrow> Io_Stop io s;
            let s = s\<lparr>Pwm_channels := Pwm_channels s AND NOT c\<rparr>;
                s = PWMC_DIS c s;
                s = s\<lparr>Pwm_users := Pwm_users s - 1\<rparr>
            in Some (CONTROLLER_OK, if Pwm_users s = 0 then snd (Pwm_Deinit s) else s)
          })"

definition Pwm_SetDividerA :: "int \<Rightarrow> 'a pwm_state_scheme \<Rightarrow> status \<times> 'a pwm_state_scheme" where
  "Pwm_SetDividerA val s =
     (if val < 0 \<or> val > 2 ^ 12 then (CONTROLLER_ERROR_ILLEGAL_PARAMETER_VALUE, s)
      else let s = PWMC_DIS 0xF s;
               s = s\<lparr>PWMC_MR := (PWMC_MR s AND 0xFFFF0000) OR word_of_int val\<rparr>
           in (CONTROLLER_OK, PWMC_ENA (Pwm_channels s) s))"

definition Pwm_GetDividerA :: "'a pwm_state_scheme \<Rightarrow> u32" where
  "Pwm_GetDividerA s = PWMC_MR s AND 0xFFFF"

definition Pwm_SetDividerB :: "int \<Rightarrow> 'a pwm_state_scheme \<Rightarrow> status \<times> 'a pwm_state_scheme" where
  "Pwm_SetDividerB val s =
     (if val < 0 \<or> val > 2 ^ 12 then (CONTROLLER_ERROR_ILLEGAL_PARAMETER_VALUE, s)
      else let s = PWMC_DIS 0xF s;
               s = s\<lparr>PWMC_MR := (PWMC_MR s AND 0xFFFF) OR push_bit 16 (word_of_int val)\<rparr>
           in (CONTROLLER_OK, PWMC_ENA (Pwm_channels s) s))"

definition Pwm_GetDividerB :: "'a pwm_state_scheme \<Rightarrow> u32" where
  "Pwm_GetDividerB s = drop_bit 16 (PWMC_MR s)"

definition Pwm_SetClockSource :: "int \<Rightarrow> int \<Rightarrow> 'a pwm_state_scheme \<Rightarrow> status \<times> 'a pwm_state_scheme" where
  "Pwm_SetClockSource channel val s =
     (if channel < 0 \<or> channel \<ge> PWM_COUNT then (CONTROLLER_ERROR_ILLEGAL_INDEX, s)
      else if val < 0 \<or> val > 12 then (CONTROLLER_ERROR_ILLEGAL_PARAMETER_VALUE, s)
      else let n = nat channel; c = mask1 n;
               s = PWMC_DIS c s;
               s = s\<lparr>PWMC_CMR := (PWMC_CMR s)[n := (PWMC_CMR s ! n AND 0x700) OR word_of_int val]\<rparr>
           in (CONTROLLER_OK, PWMC_ENA c s))"

definition Pwm_GetClockSource :: "int \<Rightarrow> 'a pwm_state_scheme \<Rightarrow> int" where
  "Pwm_GetClockSource channel s =
     (if channel < 0 \<or> channel \<ge> PWM_COUNT then CONTROLLER_ERROR_ILLEGAL_INDEX
      else uint (PWMC_CMR s ! nat channel AND 0xF))"

definition Pwm_SetWaveformProperties :: "int \<Rightarrow> int \<Rightarrow> 'a pwm_state_scheme \<Rightarrow> status \<times> 'a pwm_state_scheme" where
  "Pwm_SetWaveformProperties channel val s =
     (if channel < 0 \<or> channel \<ge> PWM_COUNT then (CONTROLLER_ERROR_ILLEGAL_INDEX, s)
      else if val < 0 \<or> val > 3 then (CONTROLLER_ERROR_ILLEGAL_PARAMETER_VALUE, s)
      else let n = nat channel; c = mask1 n;
               s = PWMC_DIS c s;
               s = s\<lparr>PWMC_CMR := (PWMC_CMR s)[n := (PWMC_CMR s ! n AND 0x40F) OR push_bit 8 (word_of_int val)]\<rparr>
           in (CONTROLLER_OK, PWMC_ENA c s))"

definition Pwm_GetWaveformProperties :: "int \<Rightarrow> 'a pwm_state_scheme \<Rightarrow> int" where
  "Pwm_GetWaveformProperties channel s =
     (if channel < 0 \<or> channel \<ge> PWM_COUNT then CONTROLLER_ERROR_ILLEGAL_INDEX
      else uint (drop_bit 8 (PWMC_CMR s ! nat channel) AND 0x3))"

subsection \<open>Settings read back\<close>

lemma bit_of_int_small:
  assumes "0 \<le> v" and "v < 2 ^ k" and "bit (word_of_int v :: u32) n"
  shows "n < k"
proof (rule ccontr)
  assume "\<not> n < k"
  have "bit v n" using assms(3) by (simp add: bit_word_of_int_iff)
  moreover have "v = take_bit k v" using assms(1,2) by (simp add: take_bit_int_eq_self)
  ultimately show False using \<open>\<not> n < k\<close> by (metis bit_take_bit_iff)
qed

lemma mask_words: "(0xFFFF :: u32) = mask 16" "(0xFFFF0000 :: u32) = push_bit 16 (mask 16)"
  "(0xF :: u32) = mask 4" "(0x700 :: u32) = push_bit 8 (mask 3)" "(0x40F :: u32) = mask 4 OR mask1 10"
  "(0x3 :: u32) = mask 2"
  by (simp_all add: mask_eq_exp_minus_1 mask1_def)

lemma low_field:
  assumes "0 \<le> v" and "v < 2 ^ k" and "\<And>n. n < k \<Longrightarrow> \<not> bit m n" and "k \<le> 32"
  shows "((x AND m) OR word_of_int v) AND mask k = (word_of_int v :: u32)"
proof (rule bit_word_eqI)
  fix n
  show "bit (((x AND m) OR word_of_int v) AND mask k) n = bit (word_of_int v :: u32) n"
    using bit_of_int_small [OF assms(1,2), of n] assms(3) [of n]
    by (auto simp: bit_and_iff bit_or_iff bit_mask_iff possible_bit_def dest: bit_imp_le_length)
qed

lemma high_field:
  assumes "0 \<le> v" and "v < 2 ^ k" and "\<And>n. j \<le> n \<Longrightarrow> n < j + k \<Longrightarrow> \<not> bit m n" and "j + k \<le> 32"
  shows "drop_bit j ((x AND m) OR push_bit j (word_of_int v)) AND mask k = (word_of_int v :: u32)"
proof (rule bit_word_eqI)
  fix n
  show "bit (drop_bit j ((x AND m) OR push_bit j (word_of_int v)) AND mask k) n = bit (word_of_int v :: u32) n"
    using bit_of_int_small [OF assms(1,2), of n] assms(3) [of "j + n"] assms(4)
    by (auto simp: bit_and_iff bit_or_iff bit_mask_iff bit_drop_bit_eq bit_push_bit_iff possible_bit_def
        dest: bit_imp_le_length)
qed

lemma mask_and_word: "0 \<le> v \<Longrightarrow> v < 2 ^ k \<Longrightarrow> k \<le> 32 \<Longrightarrow> word_of_int v AND mask k = (word_of_int v :: u32)"
  using low_field [of v k "0 :: u32" 0] by simp

lemma uint_small: "0 \<le> v \<Longrightarrow> v < 2 ^ 32 \<Longrightarrow> uint (word_of_int v :: u32) = v"
  by (simp add: uint_word_of_int)

lemma pwm_registers [simp]:
  "PWMC_MR (PWMC_ENA m s) = PWMC_MR s" "PWMC_MR (PWMC_DIS m s) = PWMC_MR s"
  "PWMC_CMR (PWMC_ENA m s) = PWMC_CMR s" "PWMC_CMR (PWMC_DIS m s) = PWMC_CMR s"
  by (simp_all add: PWMC_ENA_def PWMC_DIS_def)

lemma SetDividerA_MR:
  "0 \<le> v \<Longrightarrow> v \<le> 4096 \<Longrightarrow> PWMC_MR (snd (Pwm_SetDividerA v s)) = (PWMC_MR s AND push_bit 16 (mask 16)) OR word_of_int v"
  by (simp add: Pwm_SetDividerA_def Let_def mask_words)

lemma SetDividerB_MR:
  "0 \<le> v \<Longrightarrow> v \<le> 4096 \<Longrightarrow> PWMC_MR (snd (Pwm_SetDividerB v s)) = (PWMC_MR s AND mask 16) OR push_bit 16 (word_of_int v)"
  by (simp add: Pwm_SetDividerB_def Let_def mask_words)

lemma drop_16_mask: "drop_bit 16 x AND mask 16 = drop_bit 16 (x :: u32)"
  by (rule bit_word_eqI) (auto simp: bit_and_iff bit_mask_iff bit_drop_bit_eq possible_bit_def dest: bit_imp_le_length)

lemma dividers_apart:
  assumes "0 \<le> v" and "v \<le> 4096"
  shows "Pwm_GetDividerA (snd (Pwm_SetDividerA v s)) = word_of_int v"
    "Pwm_GetDividerB (snd (Pwm_SetDividerA v s)) = Pwm_GetDividerB s"
    "Pwm_GetDividerB (snd (Pwm_SetDividerB v s)) = word_of_int v"
    "Pwm_GetDividerA (snd (Pwm_SetDividerB v s)) = Pwm_GetDividerA s"
proof -
  have v: "v < 2 ^ 13" "v < 2 ^ 16" using assms by simp_all
  show "Pwm_GetDividerA (snd (Pwm_SetDividerA v s)) = word_of_int v"
    unfolding Pwm_GetDividerA_def SetDividerA_MR [OF assms] mask_words(1)
    by (rule low_field [OF assms(1) v(2)]) (simp_all add: bit_push_bit_iff)
  have "drop_bit 16 ((PWMC_MR s AND mask 16) OR push_bit 16 (word_of_int v)) AND mask 16 = (word_of_int v :: u32)"
    by (rule high_field [OF assms(1) v(2)]) (simp_all add: bit_mask_iff)
  then show "Pwm_GetDividerB (snd (Pwm_SetDividerB v s)) = word_of_int v"
    unfolding Pwm_GetDividerB_def SetDividerB_MR [OF assms] by (simp only: drop_16_mask)
  show "Pwm_GetDividerB (snd (Pwm_SetDividerA v s)) = Pwm_GetDividerB s"
    unfolding Pwm_GetDividerB_def SetDividerA_MR [OF assms]
    by (rule bit_word_eqI) (use bit_of_int_small [OF assms(1) v(1)] in
        \<open>fastforce simp: bit_and_iff bit_or_iff bit_mask_iff bit_drop_bit_eq bit_push_bit_iff possible_bit_def
          dest: bit_imp_le_length\<close>)
  show "Pwm_GetDividerA (snd (Pwm_SetDividerB v s)) = Pwm_GetDividerA s"
    unfolding Pwm_GetDividerA_def SetDividerB_MR [OF assms] mask_words(1)
    by (rule bit_word_eqI) (auto simp: bit_and_iff bit_or_iff bit_mask_iff bit_push_bit_iff)
qed

lemma channel_settings_apart:
  assumes "0 \<le> c" and "c < 4" and "length (PWMC_CMR s) = 4"
  shows "0 \<le> v \<Longrightarrow> v \<le> 12 \<Longrightarrow> Pwm_GetClockSource c (snd (Pwm_SetClockSource c v s)) = v"
    "0 \<le> v \<Longrightarrow> v \<le> 12 \<Longrightarrow>
      Pwm_GetWaveformProperties c (snd (Pwm_SetClockSource c v s)) = Pwm_GetWaveformProperties c s"
    "0 \<le> v \<Longrightarrow> v \<le> 3 \<Longrightarrow> Pwm_GetWaveformProperties c (snd (Pwm_SetWaveformProperties c v s)) = v"
    "0 \<le> v \<Longrightarrow> v \<le> 3 \<Longrightarrow>
      Pwm_GetClockSource c (snd (Pwm_SetWaveformProperties c v s)) = Pwm_GetClockSource c s"
proof -
  have c: "nat c < 4" using assms(1,2) by simp
  let ?x = "PWMC_CMR s ! nat c"
  show "Pwm_GetClockSource c (snd (Pwm_SetClockSource c v s)) = v" if v: "0 \<le> v" "v \<le> 12"
  proof -
    have "((?x AND push_bit 8 (mask 3)) OR word_of_int v) AND mask 4 = (word_of_int v :: u32)"
      by (rule low_field) (use v in \<open>simp_all add: bit_push_bit_iff\<close>)
    then show ?thesis using assms v c
      by (simp add: Pwm_GetClockSource_def Pwm_SetClockSource_def Let_def mask_words uint_small)
  qed
  show "Pwm_GetWaveformProperties c (snd (Pwm_SetClockSource c v s)) = Pwm_GetWaveformProperties c s"
    if v: "0 \<le> v" "v \<le> 12"
  proof -
    have "drop_bit 8 ((?x AND push_bit 8 (mask 3)) OR word_of_int v) AND mask 2 = drop_bit 8 ?x AND mask 2"
      by (rule bit_word_eqI) (use v bit_of_int_small [of v 4] in
          \<open>fastforce simp: bit_and_iff bit_or_iff bit_mask_iff bit_drop_bit_eq bit_push_bit_iff possible_bit_def\<close>)
    then show ?thesis using assms v c
      by (simp add: Pwm_GetWaveformProperties_def Pwm_SetClockSource_def Let_def mask_words)
  qed
  show "Pwm_GetWaveformProperties c (snd (Pwm_SetWaveformProperties c v s)) = v" if v: "0 \<le> v" "v \<le> 3"
  proof -
    have "drop_bit 8 ((?x AND (mask 4 OR mask1 10)) OR push_bit 8 (word_of_int v)) AND mask 2 = (word_of_int v :: u32)"
      by (rule high_field) (use v in \<open>simp_all add: bit_or_iff bit_mask_iff\<close>)
    then show ?thesis using assms v c
      by (simp add: Pwm_GetWaveformProperties_def Pwm_SetWaveformProperties_def Let_def mask_words uint_small)
  qed
  show "Pwm_GetClockSource c (snd (Pwm_SetWaveformProperties c v s)) = Pwm_GetClockSource c s"
    if v: "0 \<le> v" "v \<le> 3"
  proof -
    have "((?x AND (mask 4 OR mask1 10)) OR push_bit 8 (word_of_int v)) AND mask 4 = (?x AND mask 4 :: u32)"
      by (rule bit_word_eqI) (auto simp: bit_and_iff bit_or_iff bit_mask_iff bit_push_bit_iff possible_bit_def)
    then show ?thesis using assms v c
      by (simp add: Pwm_GetClockSource_def Pwm_SetWaveformProperties_def Let_def mask_words)
  qed
qed

subsection \<open>Channels in use\<close>

lemma io_frame_pwm [simp]:
  "Pwm_users (snd (set_line w i s)) = Pwm_users s" "Pwm_channels (snd (set_line w i s)) = Pwm_channels s"
  "PWMC_SR (snd (set_line w i s)) = PWMC_SR s"
  "Io_Start i lk s = Some (r, s') \<Longrightarrow> Pwm_users s' = Pwm_users s"
  "Io_Start i lk s = Some (r, s') \<Longrightarrow> Pwm_channels s' = Pwm_channels s"
  "Io_Start i lk s = Some (r, s') \<Longrightarrow> PWMC_SR s' = PWMC_SR s"
  "Io_Stop i s = Some (r, s') \<Longrightarrow> Pwm_users s' = Pwm_users s"
  "Io_Stop i s = Some (r, s') \<Longrightarrow> Pwm_channels s' = Pwm_channels s"
  "Io_Stop i s = Some (r, s') \<Longrightarrow> PWMC_SR s' = PWMC_SR s"
  by (auto simp: set_line_def on_port_def Io_Start_def Io_Stop_def pin_take_def pin_drop_def
      Io_Init_def Io_Deinit_def Let_def split: if_splits)

lemmas pwm_setter_defs = Io_SetValue_def Io_SetPio_def Io_PioEnable_def Io_PioDisable_def Io_SetPeripheralA_def

definition pwm_with :: "int \<Rightarrow> u32 \<Rightarrow> u32 \<Rightarrow> 'a pwm_state_scheme \<Rightarrow> 'a pwm_state_scheme \<Rightarrow> bool" where
  "pwm_with u ch sr t s \<longleftrightarrow> Pwm_users t = u \<and> Pwm_channels t = ch \<and> PWMC_SR t = sr \<and>
     line_users t = line_users s \<and> line_locked t = line_locked s \<and> io_inv t = io_inv s \<and>
     DigitalOut_users t = DigitalOut_users s \<and> DigitalOut_enableUsers t = DigitalOut_enableUsers s"

definition pwm_active :: "'a pwm_state_scheme \<Rightarrow> int set" where
  "pwm_active s = {c. 0 \<le> c \<and> c < 4 \<and> bit (Pwm_channels s) (nat c)}"

text \<open>
  A channel is marked exactly while it is enabled in the controller; a marked channel holds the lock of
  its line; the user count is the number of marked channels.
\<close>

definition pwm_inv :: "'a pwm_state_scheme \<Rightarrow> bool" where
  "pwm_inv s \<longleftrightarrow> io_inv s \<and> PWMC_SR s = Pwm_channels s \<and> (\<forall>n. bit (Pwm_channels s) n \<longrightarrow> n < 4) \<and>
     Pwm_users s = int (card (pwm_active s)) \<and> (\<forall>c \<in> pwm_active s. line_locked s (Pwm_GetChannelIo c))"

lemma pwm_line:
  "0 \<le> c \<Longrightarrow> c < 4 \<Longrightarrow> Pwm_GetChannelIo c = 51 + c" "0 \<le> c \<Longrightarrow> c < 4 \<Longrightarrow> io_line (51 + c)"
  by (auto simp: Pwm_GetChannelIo_def io_line_def)

lemma pwm_active_finite [simp]: "finite (pwm_active s)"
  by (rule finite_subset [of _ "{0..4}"]) (auto simp: pwm_active_def)

lemma pwm_active_range: "c \<in> pwm_active s \<Longrightarrow> 0 \<le> c \<and> c < 4"
  by (simp add: pwm_active_def)

lemma pwm_inv_line: "pwm_inv s \<Longrightarrow> c \<in> pwm_active s \<Longrightarrow> line_locked s (51 + c)"
  using pwm_line(1) pwm_active_range [of c s] by (auto simp: pwm_inv_def)

lemma active_set:
  assumes "0 \<le> c" and "c < 4"
  shows "Pwm_channels t = Pwm_channels s OR mask1 (nat c) \<Longrightarrow> pwm_active t = insert c (pwm_active s)"
    "Pwm_channels t = Pwm_channels s AND NOT (mask1 (nat c)) \<Longrightarrow> pwm_active t = pwm_active s - {c}"
    "mask1 (nat c) AND Pwm_channels s = 0 \<longleftrightarrow> c \<notin> pwm_active s"
proof -
  have n: "nat c < 32" "\<And>x. 0 \<le> x \<Longrightarrow> nat x = nat c \<longleftrightarrow> x = c" using assms by auto
  show "Pwm_channels t = Pwm_channels s OR mask1 (nat c) \<Longrightarrow> pwm_active t = insert c (pwm_active s)"
    "Pwm_channels t = Pwm_channels s AND NOT (mask1 (nat c)) \<Longrightarrow> pwm_active t = pwm_active s - {c}"
    using assms n by (auto simp: pwm_active_def)
  show "mask1 (nat c) AND Pwm_channels s = 0 \<longleftrightarrow> c \<notin> pwm_active s"
    using assms and_mask1_eq_0 [OF n(1), of "Pwm_channels s"]
    by (simp add: pwm_active_def and.commute)
qed

lemma no_channels: "pwm_inv s \<Longrightarrow> Pwm_users s = 0 \<longleftrightarrow> Pwm_channels s = 0"
proof -
  assume s: "pwm_inv s"
  have "Pwm_channels s = 0" if "pwm_active s = {}"
  proof (rule bit_word_eqI)
    fix n
    have "int n \<notin> pwm_active s" using that by simp
    then show "bit (Pwm_channels s) n = bit 0 n" using s by (auto simp: pwm_active_def pwm_inv_def)
  qed
  moreover have "Pwm_users s = 0 \<longleftrightarrow> pwm_active s = {}" using s by (simp add: pwm_inv_def)
  ultimately show ?thesis by (auto simp: pwm_active_def)
qed

lemma pwm_updates [simp]:
  "line_users (s\<lparr>Pwm_users := u\<rparr>) = line_users s" "line_locked (s\<lparr>Pwm_users := u\<rparr>) = line_locked s"
  "line_users (s\<lparr>Pwm_channels := w\<rparr>) = line_users s" "line_locked (s\<lparr>Pwm_channels := w\<rparr>) = line_locked s"
  "line_users (s\<lparr>PWMC_SR := w\<rparr>) = line_users s" "line_locked (s\<lparr>PWMC_SR := w\<rparr>) = line_locked s"
  by (rule ext, simp add: line_users_def line_locked_def)+

lemma pwm_updates_inv [simp]:
  "io_inv (s\<lparr>Pwm_users := u\<rparr>) = io_inv s" "io_inv (s\<lparr>Pwm_channels := w\<rparr>) = io_inv s"
  "io_inv (s\<lparr>PWMC_SR := w\<rparr>) = io_inv s"
  unfolding io_inv_def by simp_all

lemma pwm_init_with:
  "pwm_with (Pwm_users s) (Pwm_channels s) (PWMC_SR s AND NOT 0xF) (snd (Pwm_Init s)) s"
proof -
  have "mask1 0 OR mask1 1 OR mask1 2 OR mask1 3 = 0xF" by (simp add: mask1_def)
  then show ?thesis
    by (simp add: Pwm_Init_def PWMC_DIS_def pwm_with_def line_users_def line_locked_def fun_eq_iff io_inv_def)
qed

lemma Pwm_Start_cases:
  assumes s: "pwm_inv s" and c: "0 \<le> c" "c < 4"
  shows "c \<in> pwm_active s \<and> Pwm_Start c s = Some (CONTROLLER_ERROR_CANT_LOCK, s) \<or>
    c \<notin> pwm_active s \<and> line_users s (51 + c) > 0 \<and> Pwm_Start c s = Some (CONTROLLER_ERROR_TOO_MANY_USERS, s) \<or>
    c \<notin> pwm_active s \<and> line_users s (51 + c) = 0 \<and> (\<exists>t s'. Io_Start (51 + c) True s = Some (CONTROLLER_OK, t) \<and>
      Pwm_Start c s = Some (CONTROLLER_OK, s') \<and>
      pwm_with (Pwm_users s + 1) (Pwm_channels s OR mask1 (nat c)) (Pwm_channels s OR mask1 (nat c)) s' t)"
proof (cases "c \<in> pwm_active s")
  case True
  then show ?thesis using c active_set(3) [OF c, of s] by (simp add: Pwm_Start_def Let_def)
next
  case False
  have io: "io_inv s" using s by (simp add: pwm_inv_def)
  show ?thesis
  proof (cases "line_users s (51 + c) = 0")
    case True
    obtain t where t: "Io_Start (51 + c) True s = Some (CONTROLLER_OK, t)"
      using io.start_free [OF io pwm_line(2) [OF c] True] by blast
    define x where "x = (snd (Io_SetPeripheralA (51 + c) (snd (Io_SetPio (51 + c) False
      (t\<lparr>Pwm_channels := Pwm_channels s OR mask1 (nat c)\<rparr>)))))"
    define y where "y = x\<lparr>Pwm_users := Pwm_users s + 1\<rparr>"
    have t': "Pwm_users t = Pwm_users s" "Pwm_channels t = Pwm_channels s" "PWMC_SR t = PWMC_SR s" using t by simp_all
    have x: "pwm_with (Pwm_users s) (Pwm_channels s OR mask1 (nat c)) (Pwm_channels s) x t"
      using s t' by (simp add: x_def pwm_with_def pwm_setter_defs pwm_inv_def)
    have "pwm_with (Pwm_users s + 1) (Pwm_channels s OR mask1 (nat c)) (Pwm_channels s) y t"
      using x by (simp add: y_def pwm_with_def)
    then have "pwm_with (Pwm_users s + 1) (Pwm_channels s OR mask1 (nat c)) (Pwm_channels s OR mask1 (nat c))
        (PWMC_ENA (mask1 (nat c)) (if Pwm_users s = 0 then snd (Pwm_Init y) else y)) t"
      using pwm_init_with [of y] no_channels [OF s]
      by (simp add: pwm_with_def PWMC_ENA_def)
    moreover have "Pwm_Start c s = Some (CONTROLLER_OK, PWMC_ENA (mask1 (nat c)) (if Pwm_users s = 0 then snd (Pwm_Init y) else y))"
    proof -
      have "Pwm_users x = Pwm_users s" using x by (simp add: pwm_with_def)
      then show ?thesis
        using c False active_set(3) [OF c, of s] t
        by (simp add: Pwm_Start_def Let_def pwm_line(1) t' x_def [symmetric]) (simp add: y_def)
    qed
    ultimately show ?thesis using False True t by blast
  next
    case busy: False
    then have "Io_Start (51 + c) True s = Some (CONTROLLER_ERROR_TOO_MANY_USERS, s)"
      using io.start_cases [OF io pwm_line(2) [OF c], of True] by (elim disjE exE conjE) simp_all
    then have "Pwm_Start c s = Some (CONTROLLER_ERROR_TOO_MANY_USERS, s)"
      using c False active_set(3) [OF c, of s]
      by (simp add: Pwm_Start_def Let_def pwm_line(1) del: io_frame_pwm)
    then show ?thesis using False busy by simp
  qed
qed

lemma Pwm_Stop_ok:
  assumes s: "pwm_inv s" and c: "c \<in> pwm_active s"
  shows "\<exists>t s'. line_users t = (line_users s)(51 + c := 0) \<and> line_locked t = (line_locked s)(51 + c := False) \<and>
    io_inv t \<and> Pwm_Stop c s = Some (CONTROLLER_OK, s') \<and>
    pwm_with (Pwm_users s - 1) (Pwm_channels s AND NOT (mask1 (nat c))) (Pwm_channels s AND NOT (mask1 (nat c))) s' t"
proof -
  have r: "0 \<le> c" "c < 4" using pwm_active_range [OF c] by simp_all
  have io: "io_inv s" "PWMC_SR s = Pwm_channels s" using s by (simp_all add: pwm_inv_def)
  have u: "Pwm_users s > 0" using s c by (auto simp: pwm_inv_def card_gt_0_iff)
  define x where "x = snd (Io_SetPio (51 + c) True (snd (Io_SetValue (51 + c) False s)))"
  have x: "pwm_with (Pwm_users s) (Pwm_channels s) (Pwm_channels s) x s"
    using io by (simp add: x_def pwm_with_def pwm_setter_defs)
  have "line_users x (51 + c) = 1"
    using x io.locked_owner [OF io(1) pwm_line(2) [OF r] pwm_inv_line [OF s c]] by (simp add: pwm_with_def)
  then obtain t where t: "Io_Stop (51 + c) x = Some (CONTROLLER_OK, t)" "io_inv t"
    "line_users t = (line_users s)(51 + c := 0)" "line_locked t = (line_locked s)(51 + c := False)"
    using io.stop_used [of x "51 + c"] x io pwm_line(2) [OF r] by (auto simp: pwm_with_def)
  have t': "Pwm_users t = Pwm_users s" "Pwm_channels t = Pwm_channels s" "PWMC_SR t = Pwm_channels s"
    using t(1) x by (simp_all add: pwm_with_def)
  define y where "y = PWMC_DIS (mask1 (nat c)) (t\<lparr>Pwm_channels := Pwm_channels s AND NOT (mask1 (nat c))\<rparr>)"
  define z where "z = y\<lparr>Pwm_users := Pwm_users s - 1\<rparr>"
  have y: "Pwm_users y = Pwm_users s" using t' by (simp add: y_def PWMC_DIS_def)
  have w: "pwm_with (Pwm_users s - 1) (Pwm_channels s AND NOT (mask1 (nat c))) (Pwm_channels s AND NOT (mask1 (nat c)))
      (if Pwm_users z = 0 then snd (Pwm_Deinit z) else z) t"
    using t' by (auto simp: z_def y_def pwm_with_def PWMC_DIS_def Pwm_Deinit_def)
      (simp_all add: line_users_def line_locked_def io_inv_def fun_eq_iff)
  have "Pwm_Stop c s = Some (CONTROLLER_OK, if Pwm_users z = 0 then snd (Pwm_Deinit z) else z)"
    using u r active_set(3) [OF r, of s] c t(1) y
    by (simp add: Pwm_Stop_def Let_def pwm_line(1) x_def [symmetric] t' y_def [symmetric]) (simp add: z_def)
  then show ?thesis using t w by blast
qed

lemma Pwm_Stop_refused:
  assumes "pwm_inv s" and "0 \<le> c" and "c < 4" and "c \<notin> pwm_active s"
  shows "\<exists>e. Pwm_Stop c s = Some (e, s) \<and> e \<noteq> CONTROLLER_OK"
  using assms active_set(3) [of c s] by (simp add: Pwm_Stop_def Let_def)

lemma Pwm_Start_inv:
  assumes s: "pwm_inv s" and t: "Io_Start (51 + c) True s = Some (CONTROLLER_OK, t)" and c: "0 \<le> c" "c < 4"
    and new: "c \<notin> pwm_active s"
    and w: "pwm_with (Pwm_users s + 1) (Pwm_channels s OR mask1 (nat c)) (Pwm_channels s OR mask1 (nat c)) s' t"
  shows "pwm_inv s'" "pwm_active s' = insert c (pwm_active s)"
proof -
  note ok = io.start_okD [OF _ pwm_line(2) [OF c] t]
  show a: "pwm_active s' = insert c (pwm_active s)" by (rule active_set(1) [OF c]) (use w in \<open>simp add: pwm_with_def\<close>)
  have "line_locked s' (Pwm_GetChannelIo d)" if "d \<in> pwm_active s'" for d
    using that pwm_inv_line [OF s, of d] ok(5) s w pwm_active_range [OF that] pwm_line(1) [of d]
    by (auto simp: a pwm_with_def pwm_inv_def)
  then show "pwm_inv s'"
    using s w new ok(1) c by (auto simp: pwm_inv_def pwm_with_def a)
qed

lemma Pwm_Stop_inv:
  assumes s: "pwm_inv s" and c: "c \<in> pwm_active s"
    and t: "line_locked t = (line_locked s)(51 + c := False)" "io_inv t"
    and w: "pwm_with (Pwm_users s - 1) (Pwm_channels s AND NOT (mask1 (nat c))) (Pwm_channels s AND NOT (mask1 (nat c))) s' t"
  shows "pwm_inv s'" "pwm_active s' = pwm_active s - {c}"
proof -
  have r: "0 \<le> c" "c < 4" "nat c < 32" using pwm_active_range [OF c] by auto
  show a: "pwm_active s' = pwm_active s - {c}" by (rule active_set(2) [OF r(1,2)]) (use w in \<open>simp add: pwm_with_def\<close>)
  have "\<forall>d \<in> pwm_active s'. line_locked s' (Pwm_GetChannelIo d)"
  proof
    fix d
    assume d: "d \<in> pwm_active s'"
    then show "line_locked s' (Pwm_GetChannelIo d)"
      using pwm_inv_line [OF s, of d] t s w pwm_active_range [OF d] pwm_line(1) [of d]
      by (auto simp: a pwm_with_def)
  qed
  moreover have "card (pwm_active s) = Suc (card (pwm_active s'))"
    unfolding a by (rule card.remove [OF pwm_active_finite c])
  ultimately show "pwm_inv s'"
    using s w t(2) r by (simp add: pwm_inv_def pwm_with_def)
qed

text \<open>Any sequence of starts (\<open>True\<close>) and stops (\<open>False\<close>) of the four channels.\<close>

fun pwm_run :: "(int \<times> bool) list \<Rightarrow> 'a pwm_state_scheme \<Rightarrow> 'a pwm_state_scheme option" where
  "pwm_run [] s = Some s"
| "pwm_run ((c, b) # calls) s =
     do { (_, s) \<leftarrow> (if b then Pwm_Start c s else Pwm_Stop c s); pwm_run calls s }"

definition pwm_spec :: "int \<times> bool \<Rightarrow> int set \<Rightarrow> int set" where
  "pwm_spec call A = (if snd call then insert (fst call) A else A - {fst call})"

lemma pwm_run_step:
  assumes s: "pwm_inv s" and c: "0 \<le> c" "c < 4" "c \<in> D"
    and free: "\<And>d. d \<in> D - pwm_active s \<Longrightarrow> line_users s (51 + d) = 0"
  shows "\<exists>r s'. (if b then Pwm_Start c s else Pwm_Stop c s) = Some (r, s') \<and> pwm_inv s' \<and>
    pwm_active s' = pwm_spec (c, b) (pwm_active s) \<and>
    (\<forall>d \<in> D - pwm_active s'. line_users s' (51 + d) = 0)"
proof (cases b)
  case True
  show ?thesis
  proof (cases "c \<in> pwm_active s")
    case act: True
    then have "Pwm_Start c s = Some (CONTROLLER_ERROR_CANT_LOCK, s)" using Pwm_Start_cases [OF s c(1,2)] by blast
    then show ?thesis using s act free \<open>b\<close> by (auto simp: pwm_spec_def)
  next
    case new: False
    then obtain t s' where t: "Io_Start (51 + c) True s = Some (CONTROLLER_OK, t)"
      "Pwm_Start c s = Some (CONTROLLER_OK, s')"
      and w: "pwm_with (Pwm_users s + 1) (Pwm_channels s OR mask1 (nat c)) (Pwm_channels s OR mask1 (nat c)) s' t"
      using Pwm_Start_cases [OF s c(1,2)] free [of c] c(3) new by auto
    note i = Pwm_Start_inv [OF s t(1) c(1,2) new w]
    have "line_users s' = (line_users s)(51 + c := Suc (line_users s (51 + c)))"
      using io.start_okD(4) [OF _ pwm_line(2) [OF c(1,2)] t(1)] s w by (simp add: pwm_inv_def pwm_with_def)
    then show ?thesis using i t(2) free \<open>b\<close> by (auto simp: pwm_spec_def)
  qed
next
  case False
  show ?thesis
  proof (cases "c \<in> pwm_active s")
    case act: True
    from Pwm_Stop_ok [OF s act] obtain t s' where t: "line_users t = (line_users s)(51 + c := 0)"
      "line_locked t = (line_locked s)(51 + c := False)" "io_inv t" "Pwm_Stop c s = Some (CONTROLLER_OK, s')"
      and w: "pwm_with (Pwm_users s - 1) (Pwm_channels s AND NOT (mask1 (nat c))) (Pwm_channels s AND NOT (mask1 (nat c))) s' t"
      by blast
    have "line_users s' = (line_users s)(51 + c := 0)" using t(1) w by (simp add: pwm_with_def)
    then show ?thesis using Pwm_Stop_inv [OF s act t(2,3) w] t(4) free \<open>\<not> b\<close> by (auto simp: pwm_spec_def)
  next
    case idle: False
    then show ?thesis using Pwm_Stop_refused [OF s c(1,2) idle] s free \<open>\<not> b\<close> by (auto simp: pwm_spec_def)
  qed
qed

lemma pwm_run_spec:
  assumes "pwm_inv s" and "fst ` set calls \<subseteq> D" and "D \<subseteq> {0..<4}"
    and "\<And>d. d \<in> D - pwm_active s \<Longrightarrow> line_users s (51 + d) = 0"
  shows "\<exists>s'. pwm_run calls s = Some s' \<and> pwm_inv s' \<and> pwm_active s' = fold pwm_spec calls (pwm_active s)"
  using assms
proof (induction calls arbitrary: s)
  case (Cons call calls)
  obtain c b where cb: "call = (c, b)" by (cases call)
  then have c: "0 \<le> c" "c < 4" "c \<in> D" using Cons.prems(2,3) by auto
  from pwm_run_step [OF Cons.prems(1) c Cons.prems(4), of b] obtain r t where
    t: "(if b then Pwm_Start c s else Pwm_Stop c s) = Some (r, t)" "pwm_inv t"
      "pwm_active t = pwm_spec (c, b) (pwm_active s)" "\<forall>d \<in> D - pwm_active t. line_users t (51 + d) = 0"
    by blast
  have "\<exists>s'. pwm_run calls t = Some s' \<and> pwm_inv s' \<and> pwm_active s' = fold pwm_spec calls (pwm_active t)"
    using Cons.IH [OF t(2)] Cons.prems(2,3) t(4) by auto
  then show ?case using t(1,3) by (simp add: cb)
qed simp

subsection \<open>Sharing lines with the digital outputs\<close>

lemma pwm_blocks_dout:
  assumes s: "pwm_inv s" "dout_inv s" and c: "i div 2 \<in> pwm_active s" and e: "DigitalOut_enableUsers s ! nat (i div 2) = 0"
    and i: "0 \<le> i" "i < 8"
  shows "DigitalOut_Start i s = Some (CONTROLLER_ERROR_CANT_LOCK, s)"
proof -
  have ix: "dout_index i" using i by (simp add: dout_index_def)
  have r: "0 \<le> i div 2" "i div 2 < 4" using i by auto
  have io: "io_inv s" using s by (simp add: pwm_inv_def)
  have en: "DigitalOut_GetEnableIo (i div 2) = 51 + i div 2"
    using r by (auto simp: DigitalOut_GetEnableIo_def)
  have u: "line_users s (51 + i div 2) = 1"
    by (rule io.locked_owner [OF io pwm_line(2) [OF r] pwm_inv_line [OF s(1) c]])
  have z: "DigitalOut_users s ! nat i = 0"
    using dout_pair_active [OF ix s(2)] e dout_invD(5) [OF s(2) ix]
    by (cases "DigitalOut_users s ! nat i > 0") (simp_all add: dout_active_def)
  from DigitalOut_enable_cases [OF s(2) ix z] have "DigitalOut_enable i (i div 2) (dout_add i 1 s) = Some (CONTROLLER_ERROR_CANT_LOCK, s)"
    using u by (elim disjE conjE exE) (simp_all add: en e)
  then show ?thesis using i z by (simp add: DigitalOut_Start_def Let_def del: io_frame_dout)
qed

lemma dout_blocks_pwm:
  assumes s: "pwm_inv s" "dout_inv s" and i: "0 \<le> i" "i < 8" and u: "DigitalOut_users s ! nat i > 0"
    and c: "i div 2 \<notin> pwm_active s"
  shows "Pwm_Start (i div 2) s = Some (CONTROLLER_ERROR_TOO_MANY_USERS, s)"
proof -
  have ix: "dout_index i" using i by (simp add: dout_index_def)
  have r: "0 \<le> i div 2" "i div 2 < 4" using i by auto
  have io: "io_inv s" using s by (simp add: pwm_inv_def)
  have en: "DigitalOut_GetEnableIo (i div 2) = 51 + i div 2"
    using r by (auto simp: DigitalOut_GetEnableIo_def)
  have "DigitalOut_enableUsers s ! nat (i div 2) > 0"
    using dout_pair_active [OF ix s(2)] u by (simp add: dout_active_def)
  then have "line_locked s (51 + i div 2)" using dout_inv_pairD(3) [OF s(2) dout_pair [OF ix]] en by simp
  then have "line_users s (51 + i div 2) = 1" by (rule io.locked_owner [OF io pwm_line(2) [OF r]])
  then show ?thesis using Pwm_Start_cases [OF s(1) r] c by auto
qed

subsection \<open>Properties\<close>

text \<open>
  A board whose watchdog outputs 0 to 3 are in use, before any PWM channel is started.
\<close>

definition pwm_boot :: pwm_state where
  "pwm_boot = can_state.extend can_boot
     \<lparr>Pwm_users = 0, Pwm_channels = 0, Pwm_duty = [0, 0, 0, 0], PWMC_SR = 0, PWMC_MR = 0,
      PWMC_CMR = replicate 4 0, PWMC_CPRDR = replicate 4 0, PWMC_CDTYR = replicate 4 0, PWMC_CUPDR = replicate 4 0\<rparr>"

lemma pwm_boot_extends:
  "Pwm_users pwm_boot = 0" "Pwm_channels pwm_boot = 0" "PWMC_SR pwm_boot = 0" "length (PWMC_CMR pwm_boot) = 4"
  "Io_pins pwm_boot = Io_pins can_boot" "Io_users pwm_boot = Io_users can_boot" "Io_init pwm_boot = Io_init can_boot"
  "DigitalOut_users pwm_boot = DigitalOut_users can_boot"
  "DigitalOut_enableUsers pwm_boot = DigitalOut_enableUsers can_boot"
  by (simp_all add: pwm_boot_def can_state.defs)

lemma can_boot_douts:
  "DigitalOut_users can_boot = DigitalOut_users fdu_running"
  "DigitalOut_enableUsers can_boot = DigitalOut_enableUsers fdu_running"
  unfolding can_boot_def fdu_state.extend_def by (simp_all only: digitalout_state.simps)

lemmas pwm_boot_fields = pwm_boot_extends [unfolded can_boot_fields can_boot_douts fdu_running_fields]

lemma held_pins_nth:
  "i < 64 \<Longrightarrow> held_pins ls ! i = \<lparr>IoPin_users = of_bool (i \<in> set ls), IoPin_lock = (i \<in> set ls)\<rparr>"
  by (simp add: held_pins_def del: upt_rec_numeral)

lemma held_pins_view:
  assumes "Io_pins s = held_pins ls" and "\<forall>i \<in> set ls. i < 64"
  shows "line_locked s l \<longleftrightarrow> l \<in> int ` set ls" "line_users s l = of_bool (l \<in> int ` set ls)"
proof -
  have "nat l \<in> set ls \<longleftrightarrow> l \<in> int ` set ls" if "io_line l"
  proof -
    have "int (nat l) = l" using that by (simp add: io_line_def)
    then show ?thesis by (metis imageE imageI nat_int)
  qed
  moreover have "io_line l" if "l \<in> int ` set ls" using that assms(2) by (auto simp: io_line_def)
  ultimately show "line_locked s l \<longleftrightarrow> l \<in> int ` set ls" "line_users s l = of_bool (l \<in> int ` set ls)"
    using assms(1) io_line_nat [of l] by (auto simp: line_locked_def line_users_def held_pins_nth)
qed

lemma pwm_boot_view:
  "line_users pwm_boot l = of_bool (l \<in> {2, 5, 6, 24, 51, 52})" "line_locked pwm_boot l \<longleftrightarrow> l \<in> {2, 5, 6, 24, 51, 52}"
proof -
  have lt: "\<forall>i \<in> set [2, 5, 6, 24, 51, 52]. i < (64 :: nat)" by simp
  have ls: "int ` set [2, 5, 6, 24, 51, 52] = {2, 5, 6, 24, 51, 52}" by simp
  show "line_users pwm_boot l = of_bool (l \<in> {2, 5, 6, 24, 51, 52})" "line_locked pwm_boot l \<longleftrightarrow> l \<in> {2, 5, 6, 24, 51, 52}"
    unfolding held_pins_view [OF pwm_boot_fields(5) lt] ls by (rule refl)+
qed

lemma pwm_boot_inv: "pwm_inv pwm_boot" "pwm_active pwm_boot = {}" "dout_inv pwm_boot"
proof -
  have io: "io_inv pwm_boot" using held_pins_inv by (simp add: io_inv_def pwm_boot_fields)
  show a: "pwm_active pwm_boot = {}" by (simp add: pwm_active_def pwm_boot_fields)
  show "pwm_inv pwm_boot" using io a by (simp add: pwm_inv_def pwm_boot_fields)
  have "line_locked pwm_boot = line_locked fdu_running" by (auto simp: fun_eq_iff pwm_boot_view fdu_running_locked)
  then show "dout_inv pwm_boot"
    using io fdu_running_inv(2) by (simp add: dout_inv_def dout_active_def pwm_boot_fields fdu_running_fields)
qed

text \<open>
  C36: with channels whose lines nobody else holds, any sequence of starts and stops runs to completion
  and refines the same calls on a set of channels: the marked channels, the channels enabled in the
  controller and the user count are those of the set, and every channel in it holds its line.
\<close>

theorem pwm_channels_refine_set:
  assumes "pwm_inv s" and "fst ` set calls \<subseteq> {0..<4}"
    and "\<forall>c \<in> fst ` set calls - pwm_active s. line_users s (Pwm_GetChannelIo c) = 0"
  shows "\<exists>s'. pwm_run calls s = Some s' \<and> pwm_inv s' \<and> pwm_active s' = fold pwm_spec calls (pwm_active s) \<and>
    Pwm_users s' = int (card (fold pwm_spec calls (pwm_active s))) \<and> PWMC_SR s' = Pwm_channels s' \<and>
    (\<forall>c \<in> fold pwm_spec calls (pwm_active s). line_locked s' (Pwm_GetChannelIo c))"
proof -
  have "line_users s (51 + d) = 0" if "d \<in> fst ` set calls - pwm_active s" for d
    using that assms(2,3) pwm_line(1) [of d] by force
  from pwm_run_spec [OF assms(1) order.refl assms(2) this] obtain s' where
    s': "pwm_run calls s = Some s'" "pwm_inv s'" "pwm_active s' = fold pwm_spec calls (pwm_active s)" by blast
  then show ?thesis unfolding s'(3) [symmetric] by (auto simp: pwm_inv_def)
qed

theorem pwm_channels_refine_set_witness:
  "\<exists>s'. pwm_run [(2, True), (3, True), (3, False), (2, True)] pwm_boot = Some s' \<and> Pwm_users s' = 1 \<and>
    line_locked s' 53"
proof -
  have "fold pwm_spec [(2, True), (3, True), (3, False), (2, True)] {} = {2}" by (simp add: pwm_spec_def)
  then show ?thesis
    using pwm_channels_refine_set [OF pwm_boot_inv(1), of "[(2, True), (3, True), (3, False), (2, True)]"]
    by (simp add: pwm_boot_inv pwm_boot_view Pwm_GetChannelIo_def) auto
qed

text \<open>
  The clock dividers (0 to 4096), the clock source (0 to 12) and the waveform properties (0 to 3) of
  a channel read back as they were set, and setting one of the two fields that share a register does not
  change the other.
\<close>

theorem pwm_settings_roundtrip:
  assumes "0 \<le> v" and "v \<le> 4096" and "0 \<le> c" and "c < 4" and "length (PWMC_CMR s) = 4"
    and "0 \<le> k" and "k \<le> 12" and "0 \<le> w" and "w \<le> 3"
  shows "Pwm_GetDividerA (snd (Pwm_SetDividerA v s)) = word_of_int v \<and>
    Pwm_GetDividerB (snd (Pwm_SetDividerA v s)) = Pwm_GetDividerB s \<and>
    Pwm_GetDividerB (snd (Pwm_SetDividerB v s)) = word_of_int v \<and>
    Pwm_GetDividerA (snd (Pwm_SetDividerB v s)) = Pwm_GetDividerA s \<and>
    Pwm_GetClockSource c (snd (Pwm_SetClockSource c k s)) = k \<and>
    Pwm_GetWaveformProperties c (snd (Pwm_SetClockSource c k s)) = Pwm_GetWaveformProperties c s \<and>
    Pwm_GetWaveformProperties c (snd (Pwm_SetWaveformProperties c w s)) = w \<and>
    Pwm_GetClockSource c (snd (Pwm_SetWaveformProperties c w s)) = Pwm_GetClockSource c s"
  by (simp add: dividers_apart [OF assms(1,2)] channel_settings_apart [OF assms(3-5)] assms(6-9))

theorem pwm_settings_roundtrip_witness:
  "Pwm_GetDividerA (snd (Pwm_SetDividerA 4096 pwm_boot)) = 4096 \<and>
    Pwm_GetClockSource 3 (snd (Pwm_SetClockSource 3 11 pwm_boot)) = 11 \<and>
    Pwm_GetWaveformProperties 3 (snd (Pwm_SetWaveformProperties 3 2 pwm_boot)) = 2"
  using pwm_settings_roundtrip [of 4096 3 pwm_boot 11 2] by (simp add: pwm_boot_fields)

text \<open>
  C37: the PWM channels and the digital outputs exclude each other on the lines they share. While PWM
  channel \<open>c\<close> runs, both digital outputs of the pair \<open>c\<close> are refused, and while one of the outputs of a
  pair is in use, its PWM channel is refused; a refused start changes nothing.
\<close>

theorem pwm_excludes_digitalout:
  assumes "pwm_inv s" and "dout_inv s" and "0 \<le> i" and "i < 8"
  shows "(i div 2 \<in> pwm_active s \<and> DigitalOut_enableUsers s ! nat (i div 2) = 0 \<longrightarrow>
      DigitalOut_Start i s = Some (CONTROLLER_ERROR_CANT_LOCK, s)) \<and>
    (DigitalOut_users s ! nat i > 0 \<and> i div 2 \<notin> pwm_active s \<longrightarrow>
      Pwm_Start (i div 2) s = Some (CONTROLLER_ERROR_TOO_MANY_USERS, s))"
  using pwm_blocks_dout [OF assms(1,2) _ _ assms(3,4)] dout_blocks_pwm [OF assms] by blast

theorem pwm_excludes_digitalout_witness:
  "Pwm_Start 1 pwm_boot = Some (CONTROLLER_ERROR_TOO_MANY_USERS, pwm_boot)"
  using pwm_excludes_digitalout [OF pwm_boot_inv(1,3), of 3] by (simp add: pwm_boot_fields pwm_boot_inv)

end
