(* ===== verification/Stepper.thy ===== *)
theory Stepper
  imports Pwm
begin

text \<open>
  The stepper motors (\<^verbatim>\<open>src/firmware/libraries/stepper/stepper.c\<close>): two motors, each on four I/O lines and
  two PWM channels, moved one step at a time by a fast timer entry. The subsystem and each motor's control block
  are allocated when first used. A pointer to a control block is null, or points to a live block, or dangles
  after \<^verbatim>\<open>Free\<close>; following a null or dangling pointer has no defined result and is \<open>None\<close>. The contents of a
  freshly allocated block are unspecified: they are the state's \<open>fresh_control\<close>. Positions and speeds are C
  \<open>int\<close>s, so their arithmetic is reduced by \<open>c_int\<close>; the two mode flags are one-bit fields.
\<close>

subsection \<open>State\<close>

record StepperControl =
  SC_users :: int
  SC_bipolar :: bool
  SC_halfStep :: bool
  SC_speed :: int
  SC_duty :: int
  SC_acceleration :: int
  SC_positionRequested :: int
  SC_position :: int
  SC_io :: "int list"
  SC_timerRunning :: bool

datatype control_ptr = Null | Live StepperControl | Freed

record Stepper_ =
  ST_users :: int
  ST_control :: "control_ptr list"

record stepper_state = pwm_state +
  Stepper :: "Stepper_ option"
  fresh_control :: StepperControl

abbreviation (input) STEPPER_COUNT :: int where "STEPPER_COUNT \<equiv> 2"
abbreviation (input) CB_stepper :: nat where "CB_stepper \<equiv> 6"

definition fastTimerEntry :: "int \<Rightarrow> nat" where
  "fastTimerEntry index = 6 + nat index"

definition control :: "int \<Rightarrow> 'a stepper_state_scheme \<Rightarrow> StepperControl option" where
  "control index s = (case Stepper s of None \<Rightarrow> None
     | Some st \<Rightarrow> (case ST_control st ! nat index of Live sc \<Rightarrow> Some sc | _ \<Rightarrow> None))"

definition set_pointer :: "int \<Rightarrow> control_ptr \<Rightarrow> 'a stepper_state_scheme \<Rightarrow> 'a stepper_state_scheme" where
  "set_pointer index p s =
     s\<lparr>Stepper := map_option (\<lambda>st. st\<lparr>ST_control := (ST_control st)[nat index := p]\<rparr>) (Stepper s)\<rparr>"

definition upd_control ::
  "int \<Rightarrow> (StepperControl \<Rightarrow> StepperControl) \<Rightarrow> 'a stepper_state_scheme \<Rightarrow> 'a stepper_state_scheme option" where
  "upd_control index f s = map_option (\<lambda>sc. set_pointer index (Live (f sc)) s) (control index s)"

definition stepper_users_add :: "int \<Rightarrow> 'a stepper_state_scheme \<Rightarrow> 'a stepper_state_scheme" where
  "stepper_users_add d s = s\<lparr>Stepper := map_option (\<lambda>st. st\<lparr>ST_users := ST_users st + d\<rparr>) (Stepper s)\<rparr>"

subsection \<open>Starting and stopping\<close>

definition Stepper_GetIo :: "int \<Rightarrow> int \<Rightarrow> int" where
  "Stepper_GetIo stepperIndex ioIndex =
     (if stepperIndex = 0 then
        (if ioIndex = 0 then 24 else if ioIndex = 1 then 5 else if ioIndex = 2 then 6
         else if ioIndex = 3 then 2 else - 1)
      else if stepperIndex = 1 then
        (if ioIndex = 0 then 57 else if ioIndex = 1 then 25 else if ioIndex = 2 then 26
         else if ioIndex = 3 then 55 else - 1)
      else - 1)"

definition Stepper_Init :: "'a stepper_state_scheme \<Rightarrow> status \<times> 'a stepper_state_scheme" where
  "Stepper_Init s = (CONTROLLER_OK,
     if Stepper s = None then s\<lparr>Stepper := Some \<lparr>ST_users = 0, ST_control = replicate 2 Null\<rparr>\<rparr> else s)"

fun Io_Stop_each :: "int list \<Rightarrow> 'a io_state_scheme \<Rightarrow> 'a io_state_scheme option" where
  "Io_Stop_each [] s = Some s"
| "Io_Stop_each (io # ios) s = do { (_, s) \<leftarrow> Io_Stop io s; Io_Stop_each ios s }"

fun Stepper_lock :: "int \<Rightarrow> nat list \<Rightarrow> (status, 'a stepper_state_scheme) op" where
  "Stepper_lock index [] s = Some (CONTROLLER_OK, s)"
| "Stepper_lock index (i # is) s =
     (let io = Stepper_GetIo index (int i) in
      do {
        s \<leftarrow> upd_control index (\<lambda>sc. sc\<lparr>SC_io := (SC_io sc)[i := io]\<rparr>) s;
        (status, s) \<leftarrow> Io_Start io True s;
        if status \<noteq> CONTROLLER_OK then
          do {
            sc \<leftarrow> control index s;
            s \<leftarrow> Io_Stop_each (take i (SC_io sc)) s;
            Some (status, s)
          }
        else Stepper_lock index is (snd (Io_SetDirection io True (snd (Io_SetValue io True (snd (Io_SetPio io True s))))))
      })"

definition Stepper_undo :: "int \<Rightarrow> status \<Rightarrow> (status, 'a stepper_state_scheme) op" where
  "Stepper_undo index status s =
     do { s \<leftarrow> upd_control index (\<lambda>sc. sc\<lparr>SC_users := SC_users sc - 1\<rparr>) s;
          Some (status, stepper_users_add (- 1) s) }"

definition Stepper_Start :: "int \<Rightarrow> (status, 'a stepper_state_scheme) op" where
  "Stepper_Start index s =
     (if index < 0 \<or> index \<ge> STEPPER_COUNT then Some (CONTROLLER_ERROR_ILLEGAL_INDEX, s)
      else do {
        sc \<leftarrow> control index s;
        s \<leftarrow> upd_control index (\<lambda>sc. sc\<lparr>SC_users := SC_users sc + 1\<rparr>) s;
        if SC_users sc \<noteq> 0 then Some (CONTROLLER_OK, s)
        else do {
          (status, s) \<leftarrow> Pwm_Start (index * 2) s;
          if status \<noteq> CONTROLLER_OK then Stepper_undo index status s
          else do {
            (status, s) \<leftarrow> Pwm_Start (index * 2 + 1) s;
            if status \<noteq> CONTROLLER_OK then
              do { (_, s) \<leftarrow> Pwm_Stop (index * 2) s; Stepper_undo index status s }
            else do {
              s \<leftarrow> upd_control index (\<lambda>sc. sc\<lparr>SC_duty := 1023\<rparr>) s;
              let s = snd (Pwm_Set (index * 2 + 1) 1023 (snd (Pwm_Set (index * 2) 1023 s)))
              in do {
                (status, s) \<leftarrow> Stepper_lock index [0, 1, 2, 3] s;
                if status \<noteq> CONTROLLER_OK then
                  do {
                    (_, s) \<leftarrow> Pwm_Stop (index * 2) s;
                    (_, s) \<leftarrow> Pwm_Stop (index * 2 + 1) s;
                    Stepper_undo index status s
                  }
                else do {
                  s \<leftarrow> upd_control index (\<lambda>sc. sc\<lparr>SC_position := 0, SC_positionRequested := 0, SC_speed := 10,
                         SC_timerRunning := False, SC_halfStep := False, SC_bipolar := True\<rparr>) s;
                  let s = FastTimer_InitializeEntry (fastTimerEntry index) (Some CB_stepper) index (10 * 1000) True s
                  in Some (CONTROLLER_OK, stepper_users_add 1 s)
                }
              }
            }
          }
        }
      })"

fun Stepper_release :: "int list \<Rightarrow> 'a io_state_scheme \<Rightarrow> 'a io_state_scheme option" where
  "Stepper_release [] s = Some s"
| "Stepper_release (io # ios) s =
     do { (_, s) \<leftarrow> Io_Stop io (snd (Io_SetValue io False s)); Stepper_release ios s }"

definition Stepper_Stop :: "int \<Rightarrow> (status, 'a stepper_state_scheme) op" where
  "Stepper_Stop index s =
     (if index < 0 \<or> index \<ge> STEPPER_COUNT then Some (CONTROLLER_ERROR_ILLEGAL_INDEX, s)
      else case Stepper s of
        None \<Rightarrow> Some (CONTROLLER_ERROR_ILLEGAL_INDEX, s)
      | Some st \<Rightarrow>
          (if ST_control st ! nat index = Null then Some (CONTROLLER_OK, s)
           else do {
             sc \<leftarrow> control index s;
             if SC_users sc \<le> 0 then Some (CONTROLLER_ERROR_TOO_MANY_STOPS, s)
             else do {
               s \<leftarrow> upd_control index (\<lambda>sc. sc\<lparr>SC_users := SC_users sc - 1\<rparr>) s;
               if SC_users sc - 1 \<noteq> 0 then Some (CONTROLLER_OK, s)
               else do {
                 (_, s) \<leftarrow> (if SC_timerRunning sc then FastTimer_Cancel (fastTimerEntry index) s
                           else Some (CONTROLLER_OK, s));
                 s \<leftarrow> Stepper_release (SC_io sc) s;
                 (_, s) \<leftarrow> Pwm_Stop (index * 2) s;
                 (_, s) \<leftarrow> Pwm_Stop (index * 2 + 1) s;
                 let s = stepper_users_add (- 1) (set_pointer index Freed s)
                 in Some (CONTROLLER_OK,
                      if map_option ST_users (Stepper s) = Some 0 then s\<lparr>Stepper := None\<rparr> else s)
               }
             }
           }))"

definition Stepper_SetActive :: "int \<Rightarrow> int \<Rightarrow> (status, 'a stepper_state_scheme) op" where
  "Stepper_SetActive index state s =
     (if index < 0 \<or> index \<ge> STEPPER_COUNT then Some (CONTROLLER_ERROR_ILLEGAL_INDEX, s)
      else if state = 0 then Stepper_Stop index s
      else
        let s = (if Stepper s = None then snd (Stepper_Init s) else s)
        in case Stepper s of
             None \<Rightarrow> None
           | Some st \<Rightarrow>
               (if ST_control st ! nat index = Null then
                  do {
                    (status, s) \<leftarrow> Stepper_Start index (set_pointer index (Live ((fresh_control s)\<lparr>SC_users := 0\<rparr>)) s);
                    Some (if status \<noteq> CONTROLLER_OK then CONTROLLER_ERROR_SYSTEM_NOT_ACTIVE else CONTROLLER_OK, s)
                  }
                else Some (CONTROLLER_OK, s)))"

definition Stepper_GetActive :: "int \<Rightarrow> 'a stepper_state_scheme \<Rightarrow> int" where
  "Stepper_GetActive index s =
     (if index < 0 \<or> index \<ge> STEPPER_COUNT then CONTROLLER_ERROR_ILLEGAL_INDEX
      else case Stepper s of None \<Rightarrow> 0 | Some st \<Rightarrow> of_bool (ST_control st ! nat index \<noteq> Null))"

subsection \<open>Settings\<close>

text \<open>The index check and the activation that open every operation on a motor.\<close>

definition with_stepper ::
  "int \<Rightarrow> (StepperControl \<Rightarrow> (int, 'a stepper_state_scheme) op) \<Rightarrow> (int, 'a stepper_state_scheme) op" where
  "with_stepper index f s =
     (if index < 0 \<or> index \<ge> STEPPER_COUNT then Some (CONTROLLER_ERROR_ILLEGAL_INDEX, s)
      else do {
        (r, s) \<leftarrow> Stepper_SetActive index 1 s;
        if r \<noteq> CONTROLLER_OK then Some (CONTROLLER_ERROR_SYSTEM_NOT_ACTIVE, s)
        else do { sc \<leftarrow> control index s; f sc s }
      })"

definition Stepper_SetDetails :: "int \<Rightarrow> 'a stepper_state_scheme \<Rightarrow> 'a stepper_state_scheme option" where
  "Stepper_SetDetails index s =
     do {
       sc \<leftarrow> control index s;
       if \<not> SC_timerRunning sc \<and> SC_position sc \<noteq> SC_positionRequested sc \<and> SC_speed sc \<noteq> 0 then
         do {
           s \<leftarrow> upd_control index (\<lambda>sc. sc\<lparr>SC_timerRunning := True\<rparr>) s;
           Some (snd (FastTimer_Set (fastTimerEntry index) s))
         }
       else if SC_timerRunning sc \<and> (SC_position sc = SC_positionRequested sc \<or> SC_speed sc = 0) then
         do {
           (_, s) \<leftarrow> FastTimer_Cancel (fastTimerEntry index) s;
           upd_control index (\<lambda>sc. sc\<lparr>SC_timerRunning := False\<rparr>) s
         }
       else Some s
     }"

definition Stepper_move ::
  "int \<Rightarrow> (StepperControl \<Rightarrow> StepperControl) \<Rightarrow> (int, 'a stepper_state_scheme) op" where
  "Stepper_move index f =
     with_stepper index (\<lambda>_ s. do {
       s \<leftarrow> upd_control index f s;
       s \<leftarrow> Stepper_SetDetails index s;
       Some (CONTROLLER_OK, s) })"

definition Stepper_SetPosition :: "int \<Rightarrow> int \<Rightarrow> (status, 'a stepper_state_scheme) op" where
  "Stepper_SetPosition index position =
     Stepper_move index (\<lambda>sc. sc\<lparr>SC_position := position, SC_positionRequested := position\<rparr>)"

definition Stepper_SetPositionRequested :: "int \<Rightarrow> int \<Rightarrow> (status, 'a stepper_state_scheme) op" where
  "Stepper_SetPositionRequested index positionRequested =
     Stepper_move index (\<lambda>sc. sc\<lparr>SC_positionRequested := positionRequested\<rparr>)"

definition Stepper_Step :: "int \<Rightarrow> int \<Rightarrow> (status, 'a stepper_state_scheme) op" where
  "Stepper_Step index steps =
     Stepper_move index (\<lambda>sc. sc\<lparr>SC_positionRequested := c_int (SC_position sc + steps)\<rparr>)"

definition Stepper_SetSpeed :: "int \<Rightarrow> int \<Rightarrow> (status, 'a stepper_state_scheme) op" where
  "Stepper_SetSpeed index speed =
     with_stepper index (\<lambda>_ s. do {
       s \<leftarrow> upd_control index (\<lambda>sc. sc\<lparr>SC_speed := c_int (speed * 1000)\<rparr>) s;
       s \<leftarrow> Stepper_SetDetails index (FastTimer_SetTime (fastTimerEntry index) (c_int (speed * 1000)) s);
       Some (CONTROLLER_OK, s) })"

definition Stepper_GetSpeed :: "int \<Rightarrow> (int, 'a stepper_state_scheme) op" where
  "Stepper_GetSpeed index = with_stepper index (\<lambda>sc s. Some (SC_speed sc, s))"

definition Stepper_GetPosition :: "int \<Rightarrow> (int, 'a stepper_state_scheme) op" where
  "Stepper_GetPosition index = with_stepper index (\<lambda>sc s. Some (SC_position sc, s))"

definition Stepper_GetPositionRequested :: "int \<Rightarrow> (int, 'a stepper_state_scheme) op" where
  "Stepper_GetPositionRequested index = with_stepper index (\<lambda>sc s. Some (SC_positionRequested sc, s))"

definition Stepper_SetDuty :: "int \<Rightarrow> int \<Rightarrow> (status, 'a stepper_state_scheme) op" where
  "Stepper_SetDuty index duty =
     with_stepper index (\<lambda>_ s. do {
       s \<leftarrow> upd_control index (\<lambda>sc. sc\<lparr>SC_duty := duty\<rparr>) s;
       Some (CONTROLLER_OK, snd (Pwm_Set (index * 2 + 1) duty (snd (Pwm_Set (index * 2) duty s)))) })"

definition Stepper_GetDuty :: "int \<Rightarrow> (int, 'a stepper_state_scheme) op" where
  "Stepper_GetDuty index = with_stepper index (\<lambda>sc s. Some (SC_duty sc, s))"

text \<open>Assigning an \<open>int\<close> to a one-bit field keeps its lowest bit.\<close>

definition Stepper_SetBipolar :: "int \<Rightarrow> int \<Rightarrow> (status, 'a stepper_state_scheme) op" where
  "Stepper_SetBipolar index bipolar =
     with_stepper index (\<lambda>_ s. do {
       s \<leftarrow> upd_control index (\<lambda>sc. sc\<lparr>SC_bipolar := odd bipolar\<rparr>) s; Some (CONTROLLER_OK, s) })"

definition Stepper_GetBipolar :: "int \<Rightarrow> (int, 'a stepper_state_scheme) op" where
  "Stepper_GetBipolar index = with_stepper index (\<lambda>sc s. Some (of_bool (SC_bipolar sc), s))"

definition Stepper_SetHalfStep :: "int \<Rightarrow> int \<Rightarrow> (status, 'a stepper_state_scheme) op" where
  "Stepper_SetHalfStep index halfStep =
     with_stepper index (\<lambda>_ s. do {
       s \<leftarrow> upd_control index (\<lambda>sc. sc\<lparr>SC_halfStep := odd halfStep\<rparr>) s; Some (CONTROLLER_OK, s) })"

definition Stepper_GetHalfStep :: "int \<Rightarrow> (int, 'a stepper_state_scheme) op" where
  "Stepper_GetHalfStep index = with_stepper index (\<lambda>sc s. Some (of_bool (SC_halfStep sc), s))"

subsection \<open>Coil outputs\<close>

definition Stepper_SetOn :: "int \<Rightarrow> u32 \<times> u32 \<Rightarrow> u32 \<times> u32" where
  "Stepper_SetOn index p =
     (let mask = push_bit (nat (index AND 0x1F)) 1
      in if index < 32 then (fst p OR mask, snd p) else (fst p, snd p OR mask))"

definition Stepper_SetOff :: "int \<Rightarrow> u32 \<times> u32 \<Rightarrow> u32 \<times> u32" where
  "Stepper_SetOff index p =
     (let mask = push_bit (nat (index AND 0x1F)) 1
      in if index < 32 then (fst p OR mask, snd p) else (fst p, snd p OR mask))"

definition Stepper_SetAll :: "u32 \<Rightarrow> u32 \<Rightarrow> u32 \<Rightarrow> u32 \<Rightarrow> 'a io_state_scheme \<Rightarrow> 'a io_state_scheme" where
  "Stepper_SetAll portAOn portBOn portAOff portBOff s =
     (let s = s\<lparr>PIOA := pio_SODR portAOn (PIOA s)\<rparr>;
          s = s\<lparr>PIOB := pio_SODR portBOn (PIOB s)\<rparr>;
          s = s\<lparr>PIOA := pio_CODR portAOff (PIOA s)\<rparr>
      in s\<lparr>PIOB := pio_CODR portBOff (PIOB s)\<rparr>)"

fun coil_masks :: "(int \<times> bool) list \<Rightarrow> u32 \<times> u32 \<Rightarrow> u32 \<times> u32 \<Rightarrow> (u32 \<times> u32) \<times> u32 \<times> u32" where
  "coil_masks [] on off = (on, off)"
| "coil_masks ((io, b) # cs) on off =
     (if b then coil_masks cs (Stepper_SetOn io on) off else coil_masks cs on (Stepper_SetOff io off))"

definition set_coils :: "int list \<Rightarrow> bool list \<Rightarrow> 'a io_state_scheme \<Rightarrow> 'a io_state_scheme" where
  "set_coils io pattern s =
     (let (on, off) = coil_masks (zip io pattern) (0, 0) (0, 0)
      in Stepper_SetAll (fst on) (snd on) (fst off) (snd off) s)"

definition Stepper_SetUnipolarHalfStepOutput :: "StepperControl \<Rightarrow> int \<Rightarrow> 'a io_state_scheme \<Rightarrow> 'a io_state_scheme" where
  "Stepper_SetUnipolarHalfStepOutput sc position =
     (let output = position AND 0x7 in set_coils (SC_io sc)
       (if output = - 1 then [False, False, False, False]
        else if output = 0 then [True, False, False, False]
        else if output = 1 then [True, True, False, False]
        else if output = 2 then [False, True, False, False]
        else if output = 3 then [False, True, True, False]
        else if output = 4 then [False, False, True, False]
        else if output = 5 then [False, False, True, True]
        else if output = 6 then [False, False, False, True]
        else if output = 7 then [True, False, False, True] else []))"

definition Stepper_SetUnipolarOutput :: "StepperControl \<Rightarrow> int \<Rightarrow> 'a io_state_scheme \<Rightarrow> 'a io_state_scheme" where
  "Stepper_SetUnipolarOutput sc position =
     (let output = position AND 0x3 in set_coils (SC_io sc)
       (if output = - 1 then [False, False, False, False]
        else if output = 0 then [True, False, False, False]
        else if output = 1 then [False, True, False, False]
        else if output = 2 then [False, False, True, False]
        else if output = 3 then [False, False, False, True] else []))"

definition Stepper_SetBipolarHalfStepOutput :: "StepperControl \<Rightarrow> int \<Rightarrow> 'a io_state_scheme \<Rightarrow> 'a io_state_scheme" where
  "Stepper_SetBipolarHalfStepOutput sc position =
     (let output = position AND 0x7 in set_coils (SC_io sc)
       (if output = - 1 then [False, False, False, False]
        else if output = 0 then [True, False, False, False]
        else if output = 1 then [True, False, True, False]
        else if output = 2 then [False, False, True, False]
        else if output = 3 then [False, True, True, False]
        else if output = 4 then [False, True, False, False]
        else if output = 5 then [False, True, False, True]
        else if output = 6 then [False, False, False, True]
        else if output = 7 then [True, False, False, True] else []))"

definition Stepper_SetBipolarOutput :: "StepperControl \<Rightarrow> int \<Rightarrow> 'a io_state_scheme \<Rightarrow> 'a io_state_scheme" where
  "Stepper_SetBipolarOutput sc position =
     (let output = position AND 0x3 in set_coils (SC_io sc)
       (if output = - 1 then [False, False, False, False]
        else if output = 0 then [True, False, True, False]
        else if output = 1 then [False, True, True, False]
        else if output = 2 then [False, True, False, True]
        else if output = 3 then [True, False, False, True] else []))"

definition step_position :: "StepperControl \<Rightarrow> StepperControl" where
  "step_position sc =
     (let sc = (if SC_position sc < SC_positionRequested sc then sc\<lparr>SC_position := SC_position sc + 1\<rparr> else sc)
      in if SC_position sc > SC_positionRequested sc then sc\<lparr>SC_position := SC_position sc - 1\<rparr> else sc)"

definition step_output :: "StepperControl \<Rightarrow> 'a io_state_scheme \<Rightarrow> 'a io_state_scheme" where
  "step_output sc =
     (if SC_bipolar sc then
        (if SC_halfStep sc then Stepper_SetBipolarHalfStepOutput sc (SC_position sc)
         else Stepper_SetBipolarOutput sc (SC_position sc))
      else if SC_halfStep sc then Stepper_SetUnipolarHalfStepOutput sc (SC_position sc)
      else Stepper_SetUnipolarOutput sc (SC_position sc))"

definition Stepper_IRQCallback :: "int \<Rightarrow> 'a stepper_state_scheme \<Rightarrow> 'a stepper_state_scheme option" where
  "Stepper_IRQCallback i s =
     (if i < 0 \<or> i > 1 then Some s
      else do {
        s \<leftarrow> upd_control i step_position s;
        sc \<leftarrow> control i s;
        let s = step_output sc s
        in if SC_position sc = SC_positionRequested sc then
             do {
               (_, s) \<leftarrow> FastTimer_Cancel (fastTimerEntry i) s;
               upd_control i (\<lambda>sc. sc\<lparr>SC_timerRunning := False\<rparr>) s
             }
           else Some s
      })"

subsection \<open>OSC properties\<close>

definition StepperOsc_PropertySet :: "int \<Rightarrow> int \<Rightarrow> int \<Rightarrow> (status, 'a stepper_state_scheme) op" where
  "StepperOsc_PropertySet index property v s =
     map_option (\<lambda>(_, s). (CONTROLLER_OK, s))
       (if property = 0 then Stepper_SetActive index v s
        else if property = 1 then Stepper_SetPosition index v s
        else if property = 2 then Stepper_SetPositionRequested index v s
        else if property = 3 then Stepper_SetSpeed index v s
        else if property = 4 then Stepper_SetDuty index v s
        else if property = 5 then Stepper_SetHalfStep index v s
        else if property = 6 then Stepper_SetBipolar index v s
        else if property = 7 then Stepper_Step index v s
        else Some (CONTROLLER_OK, s))"

definition StepperOsc_PropertyGet :: "int \<Rightarrow> int \<Rightarrow> (int, 'a stepper_state_scheme) op" where
  "StepperOsc_PropertyGet index property s =
     (if property = 0 then Some (Stepper_GetActive index s, s)
      else if property = 1 then Stepper_GetPosition index s
      else if property = 2 then Stepper_GetPositionRequested index s
      else if property = 3 then Stepper_GetSpeed index s
      else if property = 4 then Stepper_GetDuty index s
      else if property = 5 then Stepper_GetHalfStep index s
      else if property = 6 then Stepper_GetBipolar index s
      else Some (0, s))"

subsection \<open>What the coil outputs show\<close>

definition selects :: "u32 \<times> u32 \<Rightarrow> int \<Rightarrow> bool" where
  "selects p l = bit (if l < 32 then fst p else snd p) (nat (l mod 32))"

lemma int_and_31: "(l :: int) AND 0x1F = l mod 32"
  using take_bit_eq_mask [of 5 l] by (simp add: take_bit_eq_mod mask_eq_exp_minus_1)

lemma int_and_low: "(p :: int) AND 0x3 = p mod 4" "(p :: int) AND 0x7 = p mod 8"
  using take_bit_eq_mask [of 2 p] take_bit_eq_mask [of 3 p] by (simp_all add: take_bit_eq_mod mask_eq_exp_minus_1)

lemma SetOff_eq_SetOn: "Stepper_SetOff = Stepper_SetOn"
  by (simp add: fun_eq_iff Stepper_SetOn_def Stepper_SetOff_def)

lemma selects_SetOn:
  assumes "io_line i" and "io_line l"
  shows "selects (Stepper_SetOn i p) l \<longleftrightarrow> l = i \<or> selects p l"
proof -
  have "bit (push_bit (nat (i mod 32)) 1 :: u32) n \<longleftrightarrow> n = nat (i mod 32)" for n
    using bit_mask1 [of "nat (i mod 32)" n] by (simp add: mask1_def)
  then show ?thesis
    using same_line [OF assms] by (auto simp: selects_def Stepper_SetOn_def int_and_31 bit_or_iff Let_def)
qed

lemma coil_masks_selects:
  assumes "io_line l" and "\<forall>(i, b) \<in> set cs. io_line i"
  shows "selects (fst (coil_masks cs on off)) l \<longleftrightarrow> selects on l \<or> (l, True) \<in> set cs"
    and "selects (snd (coil_masks cs on off)) l \<longleftrightarrow> selects off l \<or> (l, False) \<in> set cs"
  using assms(2)
  by (induction cs on off rule: coil_masks.induct) (auto simp: selects_SetOn assms(1) SetOff_eq_SetOn)

lemma line_out_SetAll:
  "line_out (Stepper_SetAll (fst on) (snd on) (fst off) (snd off) s) l =
     (\<not> selects off l \<and> (selects on l \<or> line_out s l))"
proof -
  have "bit (NOT w) (nat (l mod 32)) \<longleftrightarrow> \<not> bit w (nat (l mod 32))" for w :: u32
    by (simp add: bit_not_iff)
  then show ?thesis
    by (auto simp: Stepper_SetAll_def selects_def line_out_def port_def pio_defs bit_or_iff bit_and_iff Let_def)
qed

lemma line_out_set_coils:
  assumes "io_line l" and "\<forall>i \<in> set ios. io_line i"
  shows "line_out (set_coils ios pat s) l =
    ((l, False) \<notin> set (zip ios pat) \<and> ((l, True) \<in> set (zip ios pat) \<or> line_out s l))"
proof -
  have z: "selects (0, 0) l = False" by (simp add: selects_def)
  have "\<forall>(i, b) \<in> set (zip ios pat). io_line i" using assms(2) by (auto dest: set_zip_leftD)
  note m = coil_masks_selects [OF assms(1) this, of "(0, 0)" "(0, 0)", unfolded z]
  show ?thesis by (simp add: set_coils_def split_def Let_def line_out_SetAll m)
qed

lemma set_coils_levels:
  assumes "distinct ios" and "\<forall>i \<in> set ios. io_line i" and "length pat = length ios"
  shows "map (line_out (set_coils ios pat s)) ios = pat"
    and "io_line l \<Longrightarrow> l \<notin> set ios \<Longrightarrow> line_out (set_coils ios pat s) l = line_out s l"
proof -
  have "line_out (set_coils ios pat s) (ios ! k) = pat ! k" if k: "k < length ios" for k
  proof -
    have "(ios ! k, b) \<in> set (zip ios pat) \<longleftrightarrow> b = pat ! k" for b
      using k assms(1,3) by (auto simp: in_set_zip nth_eq_iff_index_eq)
    then show ?thesis using assms(2) k by (auto simp: line_out_set_coils)
  qed
  then show "map (line_out (set_coils ios pat s)) ios = pat" using assms(3) by (simp add: list_eq_iff_nth_eq)
  show "line_out (set_coils ios pat s) l = line_out s l" if "io_line l" "l \<notin> set ios"
    using that assms(2) by (auto simp: line_out_set_coils dest: set_zip_leftD)
qed

text \<open>The pattern a motor shows at a position, by its two mode flags.\<close>

definition coil_pattern :: "bool \<Rightarrow> bool \<Rightarrow> int \<Rightarrow> bool list" where
  "coil_pattern bipolar half p =
     (let t = True; f = False;
          uh = [[t,f,f,f], [t,t,f,f], [f,t,f,f], [f,t,t,f], [f,f,t,f], [f,f,t,t], [f,f,f,t], [t,f,f,t]];
          bh = [[t,f,f,f], [t,f,t,f], [f,f,t,f], [f,t,t,f], [f,t,f,f], [f,t,f,t], [f,f,f,t], [t,f,f,t]];
          u = [[t,f,f,f], [f,t,f,f], [f,f,t,f], [f,f,f,t]];
          b = [[t,f,t,f], [f,t,t,f], [f,t,f,t], [t,f,f,t]]
      in if half then (if bipolar then bh else uh) ! nat (p mod 8) else (if bipolar then b else u) ! nat (p mod 4))"

lemma mod_cases:
  "(p :: int) mod 4 \<in> {0, 1, 2, 3}" "(p :: int) mod 8 \<in> {0, 1, 2, 3, 4, 5, 6, 7}"
  by auto

lemma step_output_pattern: "step_output sc = set_coils (SC_io sc) (coil_pattern (SC_bipolar sc) (SC_halfStep sc) (SC_position sc))"
proof -
  let ?p = "SC_position sc"
  have "Stepper_SetUnipolarOutput sc ?p = set_coils (SC_io sc) (coil_pattern False False ?p)"
    "Stepper_SetBipolarOutput sc ?p = set_coils (SC_io sc) (coil_pattern True False ?p)"
    using mod_cases(1) [of ?p]
    by (auto simp: Stepper_SetUnipolarOutput_def Stepper_SetBipolarOutput_def coil_pattern_def int_and_low Let_def)
  moreover have "Stepper_SetUnipolarHalfStepOutput sc ?p = set_coils (SC_io sc) (coil_pattern False True ?p)"
    using mod_cases(2) [of ?p]
    by (elim insertE emptyE; simp add: Stepper_SetUnipolarHalfStepOutput_def coil_pattern_def int_and_low)
  moreover have "Stepper_SetBipolarHalfStepOutput sc ?p = set_coils (SC_io sc) (coil_pattern True True ?p)"
    using mod_cases(2) [of ?p]
    by (elim insertE emptyE; simp add: Stepper_SetBipolarHalfStepOutput_def coil_pattern_def int_and_low)
  ultimately show ?thesis by (auto simp: step_output_def)
qed

lemma coil_pattern_mod: "coil_pattern b h p = coil_pattern b h (p mod 8)" "coil_pattern b h (p + 1) = coil_pattern b h (p mod 8 + 1)"
proof -
  have 4: "p mod 8 mod 4 = p mod 4" by (rule mod_mod_cancel) simp
  have "(p mod 8 + 1) mod 4 = (p mod 8 mod 4 + 1) mod 4" by (simp only: mod_add_left_eq)
  also have "\<dots> = (p + 1) mod 4" by (simp only: 4 mod_add_left_eq)
  finally have "(p mod 8 + 1) mod 4 = (p + 1) mod 4" .
  moreover have "(p mod 8 + 1) mod 8 = (p + 1) mod 8" "p mod 8 mod 8 = p mod 8" by (simp_all only: mod_add_left_eq mod_mod_trivial)
  note 4 calculation this
  then show "coil_pattern b h p = coil_pattern b h (p mod 8)" "coil_pattern b h (p + 1) = coil_pattern b h (p mod 8 + 1)"
    by (simp_all only: coil_pattern_def)
qed

lemma coil_pattern_length: "length (coil_pattern b h p) = 4"
proof -
  have "\<forall>b \<in> {False, True}. \<forall>h \<in> {False, True}. \<forall>k \<in> {0, 1, 2, 3, 4, 5, 6, 7 :: int}. length (coil_pattern b h k) = 4"
    by code_simp
  from bspec [OF bspec [OF bspec [OF this, of b], of h] mod_cases(2) [of p]]
  show ?thesis unfolding coil_pattern_mod(1) [of b h p] by simp
qed

lemma coil_pattern_next:
  "hamming (coil_pattern b True p) (coil_pattern b True (p + 1)) = 1"
  "hamming (coil_pattern b False p) (coil_pattern b False (p + 1)) = 2"
proof -
  have "\<forall>b \<in> {False, True}. \<forall>k \<in> {0, 1, 2, 3, 4, 5, 6, 7 :: int}.
      hamming (coil_pattern b True k) (coil_pattern b True (k + 1)) = 1 \<and>
      hamming (coil_pattern b False k) (coil_pattern b False (k + 1)) = 2" by code_simp
  note * = bspec [OF bspec [OF this, of b] mod_cases(2) [of p]]
  have "b \<in> {False, True}" by simp
  then show "hamming (coil_pattern b True p) (coil_pattern b True (p + 1)) = 1"
    "hamming (coil_pattern b False p) (coil_pattern b False (p + 1)) = 2"
    using * by (simp_all only: coil_pattern_mod [of b True p] coil_pattern_mod [of b False p])
qed

lemma coil_pattern_power:
  "length (filter id (coil_pattern True False p)) = 2" "length (filter id (coil_pattern False False p)) = 1"
  "\<not> (coil_pattern True h p ! 0 \<and> coil_pattern True h p ! 1)"
  "\<not> (coil_pattern True h p ! 2 \<and> coil_pattern True h p ! 3)"
proof -
  have "\<forall>h \<in> {False, True}. \<forall>k \<in> {0, 1, 2, 3, 4, 5, 6, 7 :: int}.
      length (filter id (coil_pattern True False k)) = 2 \<and> length (filter id (coil_pattern False False k)) = 1 \<and>
      \<not> (coil_pattern True h k ! 0 \<and> coil_pattern True h k ! 1) \<and>
      \<not> (coil_pattern True h k ! 2 \<and> coil_pattern True h k ! 3)" by code_simp
  note * = bspec [OF bspec [OF this, of h] mod_cases(2) [of p]]
  have "h \<in> {False, True}" by simp
  then show "length (filter id (coil_pattern True False p)) = 2" "length (filter id (coil_pattern False False p)) = 1"
    "\<not> (coil_pattern True h p ! 0 \<and> coil_pattern True h p ! 1)"
    "\<not> (coil_pattern True h p ! 2 \<and> coil_pattern True h p ! 3)"
    using * unfolding coil_pattern_mod(1) [of True False p] coil_pattern_mod(1) [of False False p]
      coil_pattern_mod(1) [of True h p] by blast+
qed

subsection \<open>Moving to a position\<close>

definition live :: "int \<Rightarrow> StepperControl \<Rightarrow> 'a stepper_state_scheme \<Rightarrow> bool" where
  "live i sc s \<longleftrightarrow> 0 \<le> i \<and> i < 2 \<and>
     (\<exists>st. Stepper s = Some st \<and> length (ST_control st) = 2 \<and> ST_control st ! nat i = Live sc)"

lemma live_control: "live i sc s \<Longrightarrow> control i s = Some sc"
  by (auto simp: live_def control_def)

lemma live_cong: "Stepper s' = Stepper s \<Longrightarrow> live i sc s' = live i sc s"
  by (simp add: live_def)

lemma live_update:
  assumes "live i sc s"
  shows "upd_control i f s = Some (set_pointer i (Live (f sc)) s)" "live i sc' (set_pointer i (Live sc') s)"
  using assms by (auto simp: upd_control_def live_control set_pointer_def live_def)

lemma set_pointer_frame [simp]:
  "line_out (set_pointer i p s) = line_out s" "timer_view (set_pointer i p s) = timer_view s"
  by (simp_all add: set_pointer_def line_out_def port_def fun_eq_iff timer_view_def)

lemma set_coils_frame [simp]:
  "Stepper (set_coils ios pat s) = Stepper s" "timer_view (set_coils ios pat s) = timer_view s"
  by (simp_all add: set_coils_def Stepper_SetAll_def split_def Let_def timer_view_def)

lemma unlinked_frame [simp]: "Stepper (unlinked a us s) = Stepper s" "line_out (unlinked a us s) = line_out s"
proof -
  have "PIOA (unlinked a us s) = PIOA s" "PIOB (unlinked a us s) = PIOB s"
    by (simp_all add: unlinked_def servicing_fix_def Let_def upd_entry_def)
  then show "line_out (unlinked a us s) = line_out s" by (simp add: line_out_def port_def fun_eq_iff)
  show "Stepper (unlinked a us s) = Stepper s" by (simp add: unlinked_def servicing_fix_def Let_def upd_entry_def)
qed

lemma Cancel_frame:
  assumes "running_list s ts" and "FastTimer_Cancel a s = Some (r, s')"
  shows "Stepper s' = Stepper s" "line_out s' = line_out s"
  using FastTimer_Cancel_cases [OF assms] by auto

definition one_step :: "StepperControl \<Rightarrow> int" where
  "one_step sc = sgn (SC_positionRequested sc - SC_position sc)"

lemma step_position_eq: "step_position sc = sc\<lparr>SC_position := SC_position sc + one_step sc\<rparr>"
  by (auto simp: step_position_def one_step_def sgn_if Let_def)

lemma stepper_tick:
  assumes s: "live i sc s" "running_list s ts"
  defines "sc' \<equiv> sc\<lparr>SC_position := SC_position sc + one_step sc\<rparr>"
  shows "\<exists>s'. Stepper_IRQCallback i s = Some s' \<and>
    line_out s' = line_out (set_coils (SC_io sc) (coil_pattern (SC_bipolar sc) (SC_halfStep sc) (SC_position sc')) s) \<and>
    (if SC_position sc' = SC_positionRequested sc
     then live i (sc'\<lparr>SC_timerRunning := False\<rparr>) s' \<and> running_list s' (removeAll (fastTimerEntry i) ts)
     else live i sc' s' \<and> running_list s' ts)"
proof -
  let ?t = "set_pointer i (Live sc') s"
  let ?u = "set_coils (SC_io sc) (coil_pattern (SC_bipolar sc) (SC_halfStep sc) (SC_position sc')) ?t"
  have t: "upd_control i step_position s = Some ?t" "live i sc' ?t"
    using live_update [OF s(1)] by (simp_all add: step_position_eq sc'_def)
  have io: "SC_io sc' = SC_io sc" "SC_bipolar sc' = SC_bipolar sc" "SC_halfStep sc' = SC_halfStep sc"
    "SC_positionRequested sc' = SC_positionRequested sc" by (simp_all add: sc'_def)
  have u: "live i sc' ?u" "running_list ?u ts"
    using t(2) s(2) live_cong [of ?u ?t] timer_view_list [of ?u s] by simp_all
  have lo: "line_out ?u = line_out (set_coils (SC_io sc) (coil_pattern (SC_bipolar sc) (SC_halfStep sc) (SC_position sc')) s)"
    by (rule ext) (simp add: set_coils_def split_def Let_def Stepper_SetAll_def line_out_def port_def set_pointer_def)
  have r: "\<not> (i < 0 \<or> i > 1)" using s(1) by (auto simp: live_def)
  have cb: "Stepper_IRQCallback i s = (if SC_position sc' = SC_positionRequested sc then
      do { (_, s) \<leftarrow> FastTimer_Cancel (fastTimerEntry i) ?u; upd_control i (\<lambda>sc. sc\<lparr>SC_timerRunning := False\<rparr>) s }
      else Some ?u)"
    using r t live_control [OF t(2)] by (simp add: Stepper_IRQCallback_def step_output_pattern io Let_def)
  show ?thesis
  proof (cases "SC_position sc' = SC_positionRequested sc")
    case False
    then show ?thesis using cb u lo by simp
  next
    case True
    obtain w where w: "FastTimer_Cancel (fastTimerEntry i) ?u = Some (CONTROLLER_OK, w)"
      "running_list w (removeAll (fastTimerEntry i) ts)" using FastTimer_Cancel_list [OF u(2)] by blast
    note f = Cancel_frame [OF u(2) w(1)]
    have "live i sc' w" using u(1) live_cong [OF f(1)] by simp
    note l = live_update(1) [OF this, of "\<lambda>sc. sc\<lparr>SC_timerRunning := False\<rparr>"] live_update(2) [OF this]
    let ?v = "set_pointer i (Live (sc'\<lparr>SC_timerRunning := False\<rparr>)) w"
    have "running_list ?v (removeAll (fastTimerEntry i) ts)" using w(2) timer_view_list [of ?v w] by simp
    then show ?thesis using cb True w(1) l f(2) lo by simp
  qed
qed

fun stepper_ticks :: "nat \<Rightarrow> int \<Rightarrow> 'a stepper_state_scheme \<Rightarrow> 'a stepper_state_scheme option" where
  "stepper_ticks 0 i s = Some s"
| "stepper_ticks (Suc n) i s = do { s \<leftarrow> stepper_ticks n i s; Stepper_IRQCallback i s }"

text \<open>After \<open>k\<close> interrupts the motor has moved \<open>k\<close> steps towards the requested position.\<close>

lemma stepper_ticks_move:
  assumes s: "live i sc s" "running_list s ts" and io: "distinct (SC_io sc)" "length (SC_io sc) = 4" "\<forall>l \<in> set (SC_io sc). io_line l"
    and k: "k \<le> nat \<bar>SC_positionRequested sc - SC_position sc\<bar>" "k > 0"
  defines "p \<equiv> SC_position sc + int k * one_step sc"
  shows "\<exists>s'. stepper_ticks k i s = Some s' \<and>
    map (line_out s') (SC_io sc) = coil_pattern (SC_bipolar sc) (SC_halfStep sc) p \<and>
    (if p = SC_positionRequested sc
     then live i (sc\<lparr>SC_position := p, SC_timerRunning := False\<rparr>) s' \<and> running_list s' (removeAll (fastTimerEntry i) ts)
     else live i (sc\<lparr>SC_position := p\<rparr>) s' \<and> running_list s' ts)"
  using k unfolding p_def
proof (induction k)
  case (Suc k)
  define q where "q = SC_position sc + int k * one_step sc"
  have lt: "int k < \<bar>SC_positionRequested sc - SC_position sc\<bar>" using Suc.prems(1) by linarith
  then have q: "q \<noteq> SC_positionRequested sc" by (auto simp: q_def one_step_def sgn_if split: if_splits)
  obtain t where t: "stepper_ticks k i s = Some t" "live i (sc\<lparr>SC_position := q\<rparr>) t" "running_list t ts"
  proof (cases "k = 0")
    case True
    then show ?thesis using that [of s] s by (simp add: q_def)
  next
    case False
    then show ?thesis using Suc.IH Suc.prems(1) that q unfolding q_def by auto
  qed
  let ?sc = "sc\<lparr>SC_position := q\<rparr>"
  have st: "one_step ?sc = one_step sc"
    using lt by (auto simp: q_def one_step_def sgn_if split: if_splits)
  have p: "SC_position sc + int (Suc k) * one_step sc = q + one_step sc" by (simp add: q_def algebra_simps)
  note c = set_coils_levels(1) [OF io(1,3), of "coil_pattern (SC_bipolar sc) (SC_halfStep sc) (q + one_step sc)" t]
  show ?case
    using stepper_tick [OF t(2,3)] t(1) c unfolding p st by (auto simp: coil_pattern_length io(2) st)
qed simp

end
