(* ===== verification/StepperLife.thy ===== *)
theory StepperLife
  imports Stepper
begin

text \<open>
  The life of a stepper motor: what starting and stopping hold and release, what happens to the pointers of
  the subsystem, and the properties of \<^verbatim>\<open>src/firmware/libraries/stepper/stepper.c\<close>.
\<close>

subsection \<open>Starting and stopping a motor\<close>

text \<open>What the drivers below leave alone: the subsystem's pointers and the timer list.\<close>

definition own_view :: "'a stepper_state_scheme \<Rightarrow> Stepper_ option \<times> StepperControl \<times> (nat \<Rightarrow> FastTimerEntry) \<times> nat option" where
  "own_view s = (Stepper s, fresh_control s, FT_heap s, FT_first s)"

lemma own_view_eq: "own_view s' = own_view s \<Longrightarrow> Stepper s' = Stepper s"
  "own_view s' = own_view s \<Longrightarrow> fresh_control s' = fresh_control s"
  "own_view s' = own_view s \<Longrightarrow> running_list s' = running_list s" "own_view s' = own_view s \<Longrightarrow> live i sc s' = live i sc s"
proof -
  assume "own_view s' = own_view s"
  then have "Stepper s' = Stepper s" "fresh_control s' = fresh_control s" "FT_heap s' = FT_heap s" "FT_first s' = FT_first s"
    by (simp_all add: own_view_def)
  then show "Stepper s' = Stepper s" "fresh_control s' = fresh_control s" "running_list s' = running_list s"
    "live i sc s' = live i sc s"
    by (simp_all add: live_def, intro ext, simp add: running_list_def)
qed

lemma own_view_set_line [simp]: "own_view (snd (set_line w i s)) = own_view s"
  by (simp add: own_view_def set_line_def on_port_def)

lemma own_view_setters [simp]:
  "own_view (snd (Io_SetValue i v s)) = own_view s" "own_view (snd (Io_SetPio i v s)) = own_view s"
  "own_view (snd (Io_SetDirection i v s)) = own_view s" "own_view (snd (Io_SetPeripheralA i s)) = own_view s"
  by (simp_all add: pwm_setter_defs Io_SetDirection_def Io_SetOutput_def Io_SetInput_def)

lemma own_view_pwm [simp]:
  "own_view (s\<lparr>Pwm_users := u\<rparr>) = own_view s" "own_view (s\<lparr>Pwm_channels := w\<rparr>) = own_view s"
  "own_view (PWMC_ENA m s) = own_view s" "own_view (PWMC_DIS m s) = own_view s"
  "own_view (snd (Pwm_Init s)) = own_view s" "own_view (snd (Pwm_Deinit s)) = own_view s"
  "own_view (snd (Pwm_Set i d s)) = own_view s"
  by (simp_all add: own_view_def PWMC_ENA_def PWMC_DIS_def Pwm_Init_def Pwm_Deinit_def Pwm_Set_def)

lemma own_view_Io:
  "Io_Start i lk s = Some (r, s') \<Longrightarrow> own_view s' = own_view s"
  "Io_Stop i s = Some (r, s') \<Longrightarrow> own_view s' = own_view s"
  by (auto simp: own_view_def Io_Start_def Io_Stop_def pin_take_def pin_drop_def Io_Init_def Io_Deinit_def Let_def
      split: if_splits)

lemma own_view_Pwm:
  assumes "Pwm_Start c s = Some (r, s')"
  shows "own_view s' = own_view s"
  using assms
  by (auto simp: Pwm_Start_def Let_def bind_eq_Some_conv own_view_Io split: if_splits)

lemma own_view_Pwm_Stop:
  assumes "Pwm_Stop c s = Some (r, s')"
  shows "own_view s' = own_view s"
  using assms
  by (auto simp: Pwm_Stop_def Let_def bind_eq_Some_conv split: if_splits dest!: own_view_Io(2))

lemma pointer_views [simp]:
  "line_users (set_pointer i p s) = line_users s" "line_locked (set_pointer i p s) = line_locked s"
  "io_inv (set_pointer i p s) = io_inv s" "Pwm_users (set_pointer i p s) = Pwm_users s"
  "Pwm_channels (set_pointer i p s) = Pwm_channels s" "PWMC_SR (set_pointer i p s) = PWMC_SR s"
  by (simp_all add: set_pointer_def line_users_def line_locked_def io_inv_def fun_eq_iff)

lemma users_views [simp]:
  "line_users (stepper_users_add d s) = line_users s" "line_locked (stepper_users_add d s) = line_locked s"
  "io_inv (stepper_users_add d s) = io_inv s" "Pwm_users (stepper_users_add d s) = Pwm_users s"
  "Pwm_channels (stepper_users_add d s) = Pwm_channels s" "PWMC_SR (stepper_users_add d s) = PWMC_SR s"
  by (simp_all add: stepper_users_add_def line_users_def line_locked_def io_inv_def fun_eq_iff)

lemma pwm_inv_cong:
  assumes "line_locked t = line_locked s" and "io_inv t = io_inv s" and "Pwm_users t = Pwm_users s"
    and "Pwm_channels t = Pwm_channels s" and "PWMC_SR t = PWMC_SR s"
  shows "pwm_inv t = pwm_inv s" "pwm_active t = pwm_active s"
  using assms by (simp_all add: pwm_inv_def pwm_active_def)

lemma pwm_inv_pointer [simp]:
  "pwm_inv (set_pointer i p s) = pwm_inv s" "pwm_active (set_pointer i p s) = pwm_active s"
  "pwm_inv (stepper_users_add d s) = pwm_inv s" "pwm_active (stepper_users_add d s) = pwm_active s"
  by (rule pwm_inv_cong; simp)+

lemma pwm_with_view:
  assumes "pwm_with u ch sr s t"
  shows "line_users s = line_users t" "line_locked s = line_locked t" "io_inv s = io_inv t"
  using assms by (simp_all add: pwm_with_def)

text \<open>The lines of a motor: four I/O lines and the lines of two PWM channels.\<close>

abbreviation motor_io :: "int \<Rightarrow> int list" where
  "motor_io i \<equiv> map (\<lambda>k. Stepper_GetIo i (int k)) [0, 1, 2, 3]"

definition motor_lines :: "int \<Rightarrow> int set" where
  "motor_lines i = set (motor_io i) \<union> {51 + i * 2, 52 + i * 2}"

lemma motor_io_lines:
  assumes "0 \<le> i" and "i < 2"
  shows "distinct (motor_io i)" "\<forall>l \<in> set (motor_io i). io_line l" "51 + i * 2 \<notin> set (motor_io i)" "52 + i * 2 \<notin> set (motor_io i)"
proof -
  have "i = 0 \<or> i = 1" using assms by auto
  then show "distinct (motor_io i)" "\<forall>l \<in> set (motor_io i). io_line l" "51 + i * 2 \<notin> set (motor_io i)"
    "52 + i * 2 \<notin> set (motor_io i)"
    by (auto simp: Stepper_GetIo_def io_line_def)
qed

lemma Io_Start_pwm: "Io_Start l lk s = Some (r, t) \<Longrightarrow> Pwm_users t = Pwm_users s \<and> Pwm_channels t = Pwm_channels s \<and> PWMC_SR t = PWMC_SR s"
  by (intro conjI; erule io_frame_pwm)

definition locked_more ::
  "int \<Rightarrow> StepperControl \<Rightarrow> int set \<Rightarrow> 'a stepper_state_scheme \<Rightarrow> 'a stepper_state_scheme \<Rightarrow> bool" where
  "locked_more i sc L t s \<longleftrightarrow> live i sc t \<and> io_inv t \<and>
     line_users t = (\<lambda>l. if l \<in> L then 1 else line_users s l) \<and> line_locked t = (\<lambda>l. l \<in> L \<or> line_locked s l) \<and>
     running_list t = running_list s \<and> Pwm_users t = Pwm_users s \<and> Pwm_channels t = Pwm_channels s \<and>
     PWMC_SR t = PWMC_SR s \<and> fresh_control t = fresh_control s \<and> Stepper t = Stepper (set_pointer i (Live sc) s)"

lemma set_pointer_twice:
  "Stepper t = Stepper (set_pointer i p s) \<Longrightarrow> Stepper (set_pointer i q t) = Stepper (set_pointer i q s)"
  by (simp add: set_pointer_def option.map_comp comp_def)

lemma locked_more_refl: "live i sc s \<Longrightarrow> io_inv s \<Longrightarrow> locked_more i sc {} s s"
proof -
  assume s: "live i sc s" "io_inv s"
  then obtain st where st: "Stepper s = Some st" "ST_control st ! nat i = Live sc" by (auto simp: live_def)
  then have "(ST_control st)[nat i := Live sc] = ST_control st" by (metis list_update_id)
  then have "Stepper (set_pointer i (Live sc) s) = Stepper s" using st(1) by (simp add: set_pointer_def)
  then show ?thesis using s by (simp add: locked_more_def)
qed

lemma lock_step:
  assumes s: "locked_more i sc L s s0" and k: "k < 4" and i: "0 \<le> i" "i < 2"
    and free: "Stepper_GetIo i (int k) \<notin> L" "line_users s0 (Stepper_GetIo i (int k)) = 0"
  defines "io \<equiv> Stepper_GetIo i (int k)" and "sc' \<equiv> sc\<lparr>SC_io := (SC_io sc)[k := Stepper_GetIo i (int k)]\<rparr>"
  shows "\<exists>t. Stepper_lock i (k # ks) s = Stepper_lock i ks t \<and> locked_more i sc' (insert io L) t s0"
proof -
  note S = s [unfolded locked_more_def]
  have l: "io_line io" using motor_io_lines(2) [OF i] k by (auto simp: io_def less_Suc_eq numeral_eq_Suc)
  let ?s = "set_pointer i (Live sc') s"
  have fr: "line_users s io = 0" using S free by (simp add: io_def)
  obtain u where u: "Io_Start io True ?s = Some (CONTROLLER_OK, u)"
    using io.start_free [of ?s io True] S l fr by auto
  have ok: "io_inv u" "line_users u = (line_users s)(io := 1)" "line_locked u = (line_locked s)(io := True)"
    using io.start_okD [OF _ l u] S fr by simp_all
  let ?t = "snd (Io_SetDirection io True (snd (Io_SetValue io True (snd (Io_SetPio io True u)))))"
  have up: "upd_control i (\<lambda>sc. sc\<lparr>SC_io := (SC_io sc)[k := io]\<rparr>) s = Some ?s" "live i sc' ?s"
    using live_update S by (auto simp: sc'_def io_def)
  have ov: "own_view ?t = own_view ?s" using own_view_Io(1) [OF u] by simp
  have "running_list ?s = running_list s" by (intro ext) (simp add: running_list_def set_pointer_def)
  moreover have "fresh_control ?s = fresh_control s" by (simp add: set_pointer_def)
  ultimately have ov': "Stepper ?t = Stepper ?s" "running_list ?t = running_list s" "live i sc' ?t" "fresh_control ?t = fresh_control s"
    using own_view_eq [OF ov] up(2) by simp_all
  have "Stepper ?s = Stepper (set_pointer i (Live sc') s0)" using S set_pointer_twice by blast
  moreover have "Pwm_users ?t = Pwm_users s" "Pwm_channels ?t = Pwm_channels s" "PWMC_SR ?t = PWMC_SR s"
    using Io_Start_pwm [OF u] by (simp_all add: pwm_setter_defs Io_SetDirection_def Io_SetOutput_def)
  ultimately have "locked_more i sc' (insert io L) ?t s0"
    using ok S ov' by (simp add: locked_more_def fun_eq_iff)
  moreover have "Stepper_lock i (k # ks) s = Stepper_lock i ks ?t"
    using u up(1) by (simp add: io_def [symmetric] Let_def)
  ultimately show ?thesis by blast
qed

lemma lock_list:
  assumes "locked_more i sc L s s0" and "0 \<le> i" "i < 2" and "\<forall>k \<in> set ks. k < 4" and "distinct (map (\<lambda>k. Stepper_GetIo i (int k)) ks)"
    and "\<forall>k \<in> set ks. Stepper_GetIo i (int k) \<notin> L \<and> line_users s0 (Stepper_GetIo i (int k)) = 0"
  shows "\<exists>t. Stepper_lock i ks s = Some (CONTROLLER_OK, t) \<and>
    locked_more i (sc\<lparr>SC_io := fold (\<lambda>k io. io[k := Stepper_GetIo i (int k)]) ks (SC_io sc)\<rparr>)
      (L \<union> (\<lambda>k. Stepper_GetIo i (int k)) ` set ks) t s0"
  using assms
proof (induction ks arbitrary: sc L s)
  case Nil
  then show ?case by simp
next
  case (Cons k ks)
  have "k < 4" "Stepper_GetIo i (int k) \<notin> L" "line_users s0 (Stepper_GetIo i (int k)) = 0" using Cons.prems by simp_all
  from lock_step [OF Cons.prems(1) this(1) Cons.prems(2,3) this(2,3), of ks] obtain t where
    t: "Stepper_lock i (k # ks) s = Stepper_lock i ks t"
      "locked_more i (sc\<lparr>SC_io := (SC_io sc)[k := Stepper_GetIo i (int k)]\<rparr>) (insert (Stepper_GetIo i (int k)) L) t s0" by blast
  have "\<forall>k' \<in> set ks. Stepper_GetIo i (int k') \<notin> insert (Stepper_GetIo i (int k)) L \<and> line_users s0 (Stepper_GetIo i (int k')) = 0"
  proof
    fix k'
    assume k': "k' \<in> set ks"
    then have "Stepper_GetIo i (int k') \<noteq> Stepper_GetIo i (int k)" using Cons.prems(5) by (simp add: image_iff) metis
    then show "Stepper_GetIo i (int k') \<notin> insert (Stepper_GetIo i (int k)) L \<and> line_users s0 (Stepper_GetIo i (int k')) = 0"
      using k' Cons.prems(6) by simp
  qed
  from Cons.IH [OF t(2) Cons.prems(2,3) _ _ this] Cons.prems(4,5) show ?case
    by (simp add: t(1) Un_insert_left Un_insert_right del: Stepper_lock.simps)
qed

lemma lock_all:
  assumes "live i sc s" "io_inv s" "length (SC_io sc) = 4" and i: "0 \<le> i" "i < 2"
    and free: "\<forall>l \<in> set (motor_io i). line_users s l = 0"
  shows "\<exists>t. Stepper_lock i [0, 1, 2, 3] s = Some (CONTROLLER_OK, t) \<and>
    locked_more i (sc\<lparr>SC_io := motor_io i\<rparr>) (set (motor_io i)) t s"
proof -
  obtain a b c d where io: "SC_io sc = [a, b, c, d]" using assms(3) by (auto simp: length_Suc_conv numeral_eq_Suc)
  have "\<forall>k \<in> set [0, 1, 2, 3]. k < (4 :: nat)"
    "\<forall>k \<in> set [0, 1, 2, 3]. Stepper_GetIo i (int k) \<notin> {} \<and> line_users s (Stepper_GetIo i (int k)) = 0"
    using free by simp_all
  from lock_list [OF locked_more_refl [OF assms(1,2)] i this(1) motor_io_lines(1) [OF i] this(2)] show ?thesis
    by (simp add: io del: Stepper_lock.simps)
qed

lemma pwm_start_free:
  assumes s: "pwm_inv s" and c: "0 \<le> c" "c < 4" "c \<notin> pwm_active s" and free: "line_users s (51 + c) = 0"
  shows "\<exists>t. Pwm_Start c s = Some (CONTROLLER_OK, t) \<and> pwm_inv t \<and> pwm_active t = insert c (pwm_active s) \<and>
    line_users t = (line_users s)(51 + c := 1) \<and> line_locked t = (line_locked s)(51 + c := True) \<and> own_view t = own_view s"
proof -
  from Pwm_Start_cases [OF s c(1,2)] c(3) free obtain u t where u: "Io_Start (51 + c) True s = Some (CONTROLLER_OK, u)"
    and t: "Pwm_Start c s = Some (CONTROLLER_OK, t)"
    and w: "pwm_with (Pwm_users s + 1) (Pwm_channels s OR mask1 (nat c)) (Pwm_channels s OR mask1 (nat c)) t u"
    by auto
  have "io_inv s" using s by (simp add: pwm_inv_def)
  note ok = io.start_okD [OF this pwm_line(2) [OF c(1,2)] u]
  show ?thesis
    using t Pwm_Start_inv [OF s u c w] pwm_with_view [OF w] ok(4,5) free own_view_Pwm [OF t] by (intro exI [of _ t]) simp
qed

lemma pwm_stop_active:
  assumes s: "pwm_inv s" and c: "c \<in> pwm_active s"
  shows "\<exists>t. Pwm_Stop c s = Some (CONTROLLER_OK, t) \<and> pwm_inv t \<and> pwm_active t = pwm_active s - {c} \<and>
    line_users t = (line_users s)(51 + c := 0) \<and> line_locked t = (line_locked s)(51 + c := False) \<and> own_view t = own_view s"
proof -
  from Pwm_Stop_ok [OF assms] obtain u t where u: "line_users u = (line_users s)(51 + c := 0)"
    "line_locked u = (line_locked s)(51 + c := False)" "io_inv u" and t: "Pwm_Stop c s = Some (CONTROLLER_OK, t)"
    and w: "pwm_with (Pwm_users s - 1) (Pwm_channels s AND NOT (mask1 (nat c))) (Pwm_channels s AND NOT (mask1 (nat c))) t u"
    by blast
  show ?thesis
    using t Pwm_Stop_inv [OF s c u(2,3) w] pwm_with_view [OF w] u own_view_Pwm_Stop [OF t] by (intro exI [of _ t]) simp
qed

text \<open>A motor in use: one user, its four lines and two channels held.\<close>

definition motor_running :: "int \<Rightarrow> StepperControl \<Rightarrow> 'a stepper_state_scheme \<Rightarrow> bool" where
  "motor_running i sc s \<longleftrightarrow> live i sc s \<and> SC_users sc = 1 \<and> SC_io sc = motor_io i \<and> pwm_inv s \<and>
     {i * 2, i * 2 + 1} \<subseteq> pwm_active s \<and> (\<forall>l \<in> set (motor_io i). line_locked s l)"

definition fresh_motor :: "int \<Rightarrow> StepperControl \<Rightarrow> StepperControl" where
  "fresh_motor i sc = sc\<lparr>SC_users := 1, SC_duty := 1023, SC_io := motor_io i, SC_position := 0, SC_positionRequested := 0,
     SC_speed := 10, SC_timerRunning := False, SC_halfStep := False, SC_bipolar := True\<rparr>"

lemma io_view_cong: "Io_pins t = Io_pins s \<Longrightarrow> line_users t = line_users s" "Io_pins t = Io_pins s \<Longrightarrow> line_locked t = line_locked s"
  by (simp_all add: line_users_def line_locked_def fun_eq_iff)

lemma Pwm_Set_view [simp]:
  "line_users (snd (Pwm_Set c d s)) = line_users s" "line_locked (snd (Pwm_Set c d s)) = line_locked s"
  "io_inv (snd (Pwm_Set c d s)) = io_inv s" "Pwm_users (snd (Pwm_Set c d s)) = Pwm_users s"
  "Pwm_channels (snd (Pwm_Set c d s)) = Pwm_channels s" "PWMC_SR (snd (Pwm_Set c d s)) = PWMC_SR s"
  by (rule io_view_cong io_inv_cong; simp add: Pwm_Set_def | simp add: Pwm_Set_def)+

lemma timer_init_view [simp]:
  "line_users (FastTimer_InitializeEntry a cb x tm rp s) = line_users s"
  "line_locked (FastTimer_InitializeEntry a cb x tm rp s) = line_locked s"
  "io_inv (FastTimer_InitializeEntry a cb x tm rp s) = io_inv s"
  "Pwm_users (FastTimer_InitializeEntry a cb x tm rp s) = Pwm_users s"
  "Pwm_channels (FastTimer_InitializeEntry a cb x tm rp s) = Pwm_channels s"
  "PWMC_SR (FastTimer_InitializeEntry a cb x tm rp s) = PWMC_SR s"
  "Stepper (FastTimer_InitializeEntry a cb x tm rp s) = Stepper s"
  by (rule io_view_cong io_inv_cong; simp add: FastTimer_InitializeEntry_def upd_entry_def
      | simp add: FastTimer_InitializeEntry_def upd_entry_def)+

lemma motor_channels:
  assumes "0 \<le> i" and "i < (2 :: int)"
  shows "0 \<le> i * 2" "i * 2 < 4" "0 \<le> i * 2 + 1" "i * 2 + 1 < 4"
  using assms by simp_all

lemma control_views [simp]:
  "fresh_control (set_pointer i p s) = fresh_control s"
  "fresh_control (FastTimer_InitializeEntry a cb x tm rp s) = fresh_control s"
  "fresh_control (stepper_users_add d s) = fresh_control s"
  "own_view (set_pointer i p s) = (Stepper (set_pointer i p s), fresh_control s, FT_heap s, FT_first s)"
  by (simp_all add: set_pointer_def own_view_def FastTimer_InitializeEntry_def upd_entry_def stepper_users_add_def)

lemma pwm_inv_more:
  assumes "Pwm_users t = Pwm_users s" "Pwm_channels t = Pwm_channels s" "PWMC_SR t = PWMC_SR s" "io_inv t"
    and more: "\<And>c. 0 \<le> c \<Longrightarrow> c < 4 \<Longrightarrow> line_locked s (51 + c) \<Longrightarrow> line_locked t (51 + c)"
  shows "pwm_active t = pwm_active s" "pwm_inv s \<Longrightarrow> pwm_inv t"
proof -
  show act: "pwm_active t = pwm_active s" using assms(2) by (simp add: pwm_active_def)
  assume s: "pwm_inv s"
  have "line_locked t (Pwm_GetChannelIo c)" if "c \<in> pwm_active s" for c
    using more [of c] pwm_inv_line [OF s that] pwm_active_range [OF that] pwm_line(1) [of c] by simp
  then show "pwm_inv t" using s assms(1-4) act by (simp add: pwm_inv_def)
qed

lemma running_list_frames [simp]:
  "running_list (set_pointer i p s) ts = running_list s ts" "running_list (stepper_users_add d s) ts = running_list s ts"
  "a \<notin> set ts \<Longrightarrow> running_list (FastTimer_InitializeEntry a cb x tm rp s) ts = running_list s ts"
  by (simp_all add: running_list_def set_pointer_def stepper_users_add_def FastTimer_InitializeEntry_def Let_def chain_upd)

lemma running_list_frames_eq [simp]:
  "running_list (set_pointer i p s) = running_list s"
  by (rule ext) simp

lemma users_add_cong: "Stepper t = Stepper s \<Longrightarrow> Stepper (stepper_users_add d t) = Stepper (stepper_users_add d s)"
  by (simp add: stepper_users_add_def)

lemma Stepper_Start_ok:
  assumes s: "live i sc s" "SC_users sc = 0" "length (SC_io sc) = 4" "pwm_inv s"
    and free: "{i * 2, i * 2 + 1} \<inter> pwm_active s = {}" "\<forall>l \<in> motor_lines i. line_users s l = 0"
  shows "\<exists>t. Stepper_Start i s = Some (CONTROLLER_OK, t) \<and> motor_running i (fresh_motor i sc) t \<and>
    pwm_active t = pwm_active s \<union> {i * 2, i * 2 + 1} \<and>
    line_users t = (\<lambda>l. if l \<in> motor_lines i then 1 else line_users s l) \<and>
    line_locked t = (\<lambda>l. l \<in> motor_lines i \<or> line_locked s l) \<and>
    Stepper t = Stepper (stepper_users_add 1 (set_pointer i (Live (fresh_motor i sc)) s)) \<and>
    fresh_control t = fresh_control s \<and> (running_list s ts \<and> fastTimerEntry i \<notin> set ts \<longrightarrow> running_list t ts)"
proof -
  have i: "0 \<le> i" "i < 2" using s(1) by (simp_all add: live_def)
  note c = motor_channels [OF i]
  have e: "51 + (i * 2 + 1) = 52 + i * 2" by simp
  let ?sc1 = "sc\<lparr>SC_users := 1\<rparr>" and ?sc2 = "sc\<lparr>SC_users := 1, SC_duty := 1023\<rparr>"
  let ?s1 = "set_pointer i (Live ?sc1) s"
  have s1: "upd_control i (\<lambda>sc. sc\<lparr>SC_users := SC_users sc + 1\<rparr>) s = Some ?s1" "live i ?sc1 ?s1"
    using live_update [OF s(1)] s(2) by simp_all
  obtain s2 where s2: "Pwm_Start (i * 2) ?s1 = Some (CONTROLLER_OK, s2)" "pwm_inv s2" "pwm_active s2 = insert (i * 2) (pwm_active s)"
    "line_users s2 = (line_users s)(51 + i * 2 := 1)" "line_locked s2 = (line_locked s)(51 + i * 2 := True)" "own_view s2 = own_view ?s1"
    using pwm_start_free [of ?s1 "i * 2"] s(4) c(1,2) free by (auto simp: motor_lines_def)
  obtain s3 where s3: "Pwm_Start (i * 2 + 1) s2 = Some (CONTROLLER_OK, s3)" "pwm_inv s3"
    "pwm_active s3 = {i * 2, i * 2 + 1} \<union> pwm_active s"
    "line_users s3 = (line_users s)(51 + i * 2 := 1, 52 + i * 2 := 1)"
    "line_locked s3 = (line_locked s)(51 + i * 2 := True, 52 + i * 2 := True)" "own_view s3 = own_view ?s1"
    using pwm_start_free [of s2 "i * 2 + 1", unfolded e] s2 c(3,4) free by (auto simp: motor_lines_def)
  have l3: "live i ?sc1 s3" using own_view_eq(4) [OF s3(6)] s1(2) by simp
  let ?s4 = "set_pointer i (Live ?sc2) s3"
  have s4: "upd_control i (\<lambda>sc. sc\<lparr>SC_duty := 1023\<rparr>) s3 = Some ?s4" "live i ?sc2 ?s4"
    using live_update [OF l3] by simp_all
  let ?s5 = "snd (Pwm_Set (i * 2 + 1) 1023 (snd (Pwm_Set (i * 2) 1023 ?s4)))"
  have s5: "own_view ?s5 = own_view ?s4" "pwm_inv ?s5 = pwm_inv s3" "pwm_active ?s5 = pwm_active s3" "line_users ?s5 = line_users s3"
    "line_locked ?s5 = line_locked s3" "io_inv ?s5 = io_inv s3"
    by (simp, (rule pwm_inv_cong; simp)+, simp_all)
  have l5: "live i ?sc2 ?s5" using own_view_eq(4) [OF s5(1)] s4(2) by simp
  have "\<forall>l \<in> set (motor_io i). line_users ?s5 l = 0"
    using free(2) motor_io_lines(3,4) [OF i] by (auto simp: s5(4) s3(4) motor_lines_def simp del: list.set set_map)
  moreover have "io_inv ?s5" using s3(2) s5(6) by (simp add: pwm_inv_def)
  ultimately obtain s6 where s6: "Stepper_lock i [0, 1, 2, 3] ?s5 = Some (CONTROLLER_OK, s6)"
    "locked_more i (?sc2\<lparr>SC_io := motor_io i\<rparr>) (set (motor_io i)) s6 ?s5"
    using lock_all [OF l5] s(3) i by auto
  note S6 = s6(2) [unfolded locked_more_def]
  then have l6: "live i (?sc2\<lparr>SC_io := motor_io i\<rparr>) s6" by blast
  let ?s7 = "set_pointer i (Live (fresh_motor i sc)) s6"
  have s7: "upd_control i (\<lambda>sc. sc\<lparr>SC_position := 0, SC_positionRequested := 0, SC_speed := 10,
      SC_timerRunning := False, SC_halfStep := False, SC_bipolar := True\<rparr>) s6 = Some ?s7" "live i (fresh_motor i sc) ?s7"
    using live_update [OF l6] by (simp_all add: fresh_motor_def)
  let ?s8 = "FastTimer_InitializeEntry (fastTimerEntry i) (Some CB_stepper) i (10 * 1000) True ?s7"
  let ?s9 = "stepper_users_add 1 ?s8"
  have run: "Stepper_Start i s = Some (CONTROLLER_OK, ?s9)"
    using i live_control [OF s(1)] s(2) s1(1) s2(1) s3(1) s4(1) s6(1) s7(1)
    by (simp add: Stepper_Start_def Let_def del: Stepper_lock.simps One_nat_def)
  have "Stepper s3 = Stepper ?s1" using own_view_eq(1) [OF s3(6)] .
  then have "Stepper ?s5 = Stepper (set_pointer i (Live ?sc2) s)"
    by (rule trans [OF own_view_eq(1) [OF s5(1)] set_pointer_twice])
  then have st: "Stepper ?s7 = Stepper (set_pointer i (Live (fresh_motor i sc)) s)"
    using set_pointer_twice [of s6 i _ ?s5] set_pointer_twice [of ?s5 i _ s] S6 by simp
  have st9: "Stepper ?s9 = Stepper (stepper_users_add 1 (set_pointer i (Live (fresh_motor i sc)) s))"
    by (rule users_add_cong) (simp add: st)
  have views: "line_users ?s9 = line_users s6" "line_locked ?s9 = line_locked s6" "pwm_inv ?s9 = pwm_inv s3"
    "pwm_active ?s9 = pwm_active s3"
  proof -
    show "line_users ?s9 = line_users s6" "line_locked ?s9 = line_locked s6" by simp_all
    have "Pwm_users ?s9 = Pwm_users s3" "Pwm_channels ?s9 = Pwm_channels s3" "PWMC_SR ?s9 = PWMC_SR s3" "io_inv ?s9"
      "\<And>c. 0 \<le> c \<Longrightarrow> c < 4 \<Longrightarrow> line_locked s3 (51 + c) \<Longrightarrow> line_locked ?s9 (51 + c)"
      using S6 by (simp_all add: s5(5))
    note pwm_inv_more [OF this]
    then show "pwm_inv ?s9 = pwm_inv s3" "pwm_active ?s9 = pwm_active s3" using s3(2) by simp_all
  qed
  have lu: "line_users ?s9 = (\<lambda>l. if l \<in> motor_lines i then 1 else line_users s l)"
    unfolding views using S6 by (auto simp: s5(4) s3(4) motor_lines_def fun_eq_iff simp del: list.set set_map)
  have ll: "line_locked ?s9 = (\<lambda>l. l \<in> motor_lines i \<or> line_locked s l)"
    unfolding views using S6 by (auto simp: s5(5) s3(5) motor_lines_def fun_eq_iff simp del: list.set set_map)
  have "live i (fresh_motor i sc) ?s9" using s7(2) by (auto simp: live_def stepper_users_add_def)
  then have "motor_running i (fresh_motor i sc) ?s9"
    using s3(2,3) views ll by (auto simp: motor_running_def fresh_motor_def motor_lines_def)
  moreover have "running_list ?s9 ts" if ts: "running_list s ts" "fastTimerEntry i \<notin> set ts"
  proof -
    have "running_list s6 = running_list s3" using S6 own_view_eq(3) [OF s5(1)] by simp
    moreover have "running_list s3 = running_list s" using own_view_eq(3) [OF s3(6)] by simp
    ultimately show ?thesis using ts by simp
  qed
  moreover have "fresh_control ?s9 = fresh_control s"
    using S6 own_view_eq(2) [OF s5(1)] own_view_eq(2) [OF s3(6)] by simp
  ultimately show ?thesis using run lu ll st9 views(4) s3(3) by (intro exI [of _ ?s9]) (simp add: Un_commute)
qed

lemma unlinked_views [simp]:
  "Io_pins (unlinked a us s) = Io_pins s" "Io_users (unlinked a us s) = Io_users s" "Io_init (unlinked a us s) = Io_init s"
  "Pwm_users (unlinked a us s) = Pwm_users s" "Pwm_channels (unlinked a us s) = Pwm_channels s"
  "PWMC_SR (unlinked a us s) = PWMC_SR s"
  by (simp_all add: unlinked_def servicing_fix_def Let_def upd_entry_def)

text \<open>Two states with the same lines, channels and subsystem pointers.\<close>

definition same_holdings :: "'a stepper_state_scheme \<Rightarrow> 'a stepper_state_scheme \<Rightarrow> bool" where
  "same_holdings t s \<longleftrightarrow> line_users t = line_users s \<and> line_locked t = line_locked s \<and> io_inv t = io_inv s \<and>
     Pwm_users t = Pwm_users s \<and> Pwm_channels t = Pwm_channels s \<and> PWMC_SR t = PWMC_SR s \<and> Stepper t = Stepper s"

lemma same_holdingsI:
  assumes "Io_pins t = Io_pins s" "Io_users t = Io_users s" "Io_init t = Io_init s" "Pwm_users t = Pwm_users s"
    "Pwm_channels t = Pwm_channels s" "PWMC_SR t = PWMC_SR s" "Stepper t = Stepper s"
  shows "same_holdings t s"
  using assms io_view_cong [OF assms(1)] io_inv_cong [OF assms(1-3)] by (simp add: same_holdings_def)

lemma same_holdings_refl [simp]: "same_holdings s s"
  by (simp add: same_holdings_def)

lemma timer_off:
  assumes "running_list s ts"
  shows "\<exists>t r. (if b then FastTimer_Cancel a s else Some (CONTROLLER_OK, s)) = Some (r, t) \<and> same_holdings t s \<and>
    running_list t (if b then removeAll a ts else ts)"
proof (cases b)
  case True
  obtain t where t: "FastTimer_Cancel a s = Some (CONTROLLER_OK, t)" "running_list t (removeAll a ts)"
    using FastTimer_Cancel_list [OF assms] by blast
  have "same_holdings t s"
    using FastTimer_Cancel_cases [OF assms t(1)] by (auto intro: same_holdingsI)
  then show ?thesis using t True by auto
qed (use assms in auto)

lemma Io_Stop_pwm:
  "Io_Stop l s = Some (r, t) \<Longrightarrow> Pwm_users t = Pwm_users s \<and> Pwm_channels t = Pwm_channels s \<and> PWMC_SR t = PWMC_SR s"
  by (intro conjI; erule io_frame_pwm)

lemma release_ok:
  assumes "io_inv s" "distinct ios" "\<forall>l \<in> set ios. io_line l \<and> line_locked s l"
  shows "\<exists>t. Stepper_release ios s = Some t \<and> io_inv t \<and> line_users t = (\<lambda>l. if l \<in> set ios then 0 else line_users s l) \<and>
    line_locked t = (\<lambda>l. l \<notin> set ios \<and> line_locked s l) \<and> own_view t = own_view s \<and>
    Pwm_users t = Pwm_users s \<and> Pwm_channels t = Pwm_channels s \<and> PWMC_SR t = PWMC_SR s"
  using assms
proof (induction ios arbitrary: s)
  case (Cons l ios)
  let ?s = "snd (Io_SetValue l False s)"
  have l: "io_line l" "line_users s l = 1" using Cons.prems io.locked_owner by (auto simp: io.locked_owner)
  obtain u where u: "Io_Stop l ?s = Some (CONTROLLER_OK, u)" "io_inv u" "line_users u = (line_users s)(l := 0)"
    "line_locked u = (line_locked s)(l := False)"
    using io.stop_used [of ?s l] Cons.prems(1) l by auto
  have ov: "own_view u = own_view s" using own_view_Io(2) [OF u(1)] by simp
  have pw: "Pwm_users u = Pwm_users s" "Pwm_channels u = Pwm_channels s" "PWMC_SR u = PWMC_SR s"
    using Io_Stop_pwm [OF u(1)] by (simp_all add: Io_SetValue_def)
  have "\<forall>k \<in> set ios. io_line k \<and> line_locked u k" using Cons.prems by (auto simp: u(4))
  from Cons.IH [OF u(2) _ this] Cons.prems(2) obtain t where
    t: "Stepper_release ios u = Some t" "io_inv t" "line_users t = (\<lambda>l. if l \<in> set ios then 0 else line_users u l)"
      "line_locked t = (\<lambda>l. l \<notin> set ios \<and> line_locked u l)" "own_view t = own_view u" "Pwm_users t = Pwm_users u"
      "Pwm_channels t = Pwm_channels u" "PWMC_SR t = PWMC_SR u" by auto
  show ?case using u t ov pw by (intro exI [of _ t]) (simp add: fun_eq_iff)
qed simp

lemma pointer_field_views [simp]:
  "line_users (s\<lparr>Stepper := x\<rparr>) = line_users s" "line_locked (s\<lparr>Stepper := x\<rparr>) = line_locked s"
  "io_inv (s\<lparr>Stepper := x\<rparr>) = io_inv s" "running_list (s\<lparr>Stepper := x\<rparr>) ts = running_list s ts"
  by (rule io_view_cong io_inv_cong; simp | simp add: running_list_def)+

lemma pointer_field_pwm [simp]:
  "pwm_inv (s\<lparr>Stepper := x\<rparr>) = pwm_inv s" "pwm_active (s\<lparr>Stepper := x\<rparr>) = pwm_active s"
  by (rule pwm_inv_cong; simp)+

lemma motor_lines_31:
  assumes "0 \<le> i" "i < 2" "0 \<le> c" "c < 4"
  shows "51 + c \<notin> set (motor_io i)"
proof -
  have "i = 0 \<or> i = 1" using assms by auto
  then show ?thesis using assms by (auto simp: Stepper_GetIo_def)
qed

lemma Stepper_Stop_ok:
  assumes m: "motor_running i sc s" and ts: "running_list s ts"
  shows "\<exists>t. Stepper_Stop i s = Some (CONTROLLER_OK, t) \<and> pwm_inv t \<and> pwm_active t = pwm_active s - {i * 2, i * 2 + 1} \<and>
    line_users t = (\<lambda>l. if l \<in> motor_lines i then 0 else line_users s l) \<and>
    line_locked t = (\<lambda>l. l \<notin> motor_lines i \<and> line_locked s l) \<and>
    Stepper t = (if ST_users (the (Stepper s)) = 1 then None
                 else Stepper (stepper_users_add (- 1) (set_pointer i Freed s))) \<and>
    running_list t (if SC_timerRunning sc then removeAll (fastTimerEntry i) ts else ts)"
proof -
  note M = m [unfolded motor_running_def]
  have i: "0 \<le> i" "i < 2" using M by (simp_all add: live_def)
  have e: "51 + (i * 2 + 1) = 52 + i * 2" by simp
  note c = motor_channels [OF i]
  obtain st where st: "Stepper s = Some st" "ST_control st ! nat i = Live sc" "length (ST_control st) = 2"
    using M by (auto simp: live_def)
  let ?s1 = "set_pointer i (Live (sc\<lparr>SC_users := 0\<rparr>)) s"
  have s1: "upd_control i (\<lambda>sc. sc\<lparr>SC_users := SC_users sc - 1\<rparr>) s = Some ?s1"
    using live_update(1) [of i sc s] M by simp
  have "running_list ?s1 ts" using ts by simp
  from timer_off [OF this, of "SC_timerRunning sc" "fastTimerEntry i"] obtain s2 r where s2: "(if SC_timerRunning sc then FastTimer_Cancel (fastTimerEntry i) ?s1 else Some (CONTROLLER_OK, ?s1)) = Some (r, s2)"
    "same_holdings s2 ?s1" "running_list s2 (if SC_timerRunning sc then removeAll (fastTimerEntry i) ts else ts)"
    by blast
  note H = s2(2) [unfolded same_holdings_def]
  have io2: "io_inv s2" "\<forall>l \<in> set (motor_io i). io_line l \<and> line_locked s2 l"
    using H M motor_io_lines(2) [OF i] by (simp_all add: pwm_inv_def)
  have H': "line_users s2 = line_users s" "line_locked s2 = line_locked s" "Pwm_users s2 = Pwm_users s"
    "Pwm_channels s2 = Pwm_channels s" "PWMC_SR s2 = PWMC_SR s" using H by simp_all
  from release_ok [OF io2(1) motor_io_lines(1) [OF i] io2(2), unfolded H']
  obtain s3 where s3: "Stepper_release (motor_io i) s2 = Some s3" "io_inv s3"
    "line_users s3 = (\<lambda>l. if l \<in> set (motor_io i) then 0 else line_users s l)"
    "line_locked s3 = (\<lambda>l. l \<notin> set (motor_io i) \<and> line_locked s l)" "own_view s3 = own_view s2"
    "Pwm_users s3 = Pwm_users s" "Pwm_channels s3 = Pwm_channels s" "PWMC_SR s3 = PWMC_SR s"
    by blast
  have "line_locked s3 (51 + d)" if "0 \<le> d" "d < 4" "line_locked s (51 + d)" for d
    using motor_lines_31 [OF i that(1,2)] that(3) by (simp add: s3(4) del: list.set)
  note p3 = pwm_inv_more [OF s3(6-8,2) this]
  have a3: "pwm_inv s3" "i * 2 \<in> pwm_active s3" using p3 M by simp_all
  obtain s4 where s4: "Pwm_Stop (i * 2) s3 = Some (CONTROLLER_OK, s4)" "pwm_inv s4" "pwm_active s4 = pwm_active s - {i * 2}"
    "line_users s4 = (line_users s3)(51 + i * 2 := 0)" "line_locked s4 = (line_locked s3)(51 + i * 2 := False)" "own_view s4 = own_view s3"
    using pwm_stop_active [OF a3] p3(1) by auto
  have a4: "i * 2 + 1 \<in> pwm_active s4" using s4(3) M by simp
  obtain s5 where s5: "Pwm_Stop (i * 2 + 1) s4 = Some (CONTROLLER_OK, s5)" "pwm_inv s5" "pwm_active s5 = pwm_active s - {i * 2, i * 2 + 1}"
    "line_users s5 = (line_users s3)(51 + i * 2 := 0, 52 + i * 2 := 0)"
    "line_locked s5 = (line_locked s3)(51 + i * 2 := False, 52 + i * 2 := False)" "own_view s5 = own_view s2"
    using pwm_stop_active [OF s4(2) a4, unfolded e] s4 s3(5) by auto
  let ?s6 = "stepper_users_add (- 1) (set_pointer i Freed s5)"
  let ?t = "if map_option ST_users (Stepper ?s6) = Some 0 then ?s6\<lparr>Stepper := None\<rparr> else ?s6"
  have run: "Stepper_Stop i s = Some (CONTROLLER_OK, ?t)"
    using i st live_control [of i sc s] M s1 s2(1) s3(1) s4(1) s5(1)
    by (simp add: Stepper_Stop_def Let_def del: Stepper_release.simps)
  have own: "Stepper s5 = Stepper ?s1" using own_view_eq(1) [OF s5(6)] H by simp
  have st6: "Stepper ?s6 = Stepper (stepper_users_add (- 1) (set_pointer i Freed s))"
    by (rule users_add_cong [OF set_pointer_twice [OF own]])
  have "Stepper ?t = (if ST_users (the (Stepper s)) = 1 then None else Stepper (stepper_users_add (- 1) (set_pointer i Freed s)))"
    unfolding st6 using st(1) by (simp add: st6) (simp add: stepper_users_add_def set_pointer_def)
  moreover have v: "line_users ?t = line_users s5" "line_locked ?t = line_locked s5" "pwm_inv ?t = pwm_inv s5"
    "pwm_active ?t = pwm_active s5" "running_list ?t = running_list s5"
    by (simp_all add: fun_eq_iff)
  moreover have "line_users ?t = (\<lambda>l. if l \<in> motor_lines i then 0 else line_users s l)"
    unfolding v by (auto simp: s5(4) s3(3) motor_lines_def fun_eq_iff simp del: list.set set_map)
  moreover have "line_locked ?t = (\<lambda>l. l \<notin> motor_lines i \<and> line_locked s l)"
    unfolding v by (auto simp: s5(5) s3(4) motor_lines_def fun_eq_iff simp del: list.set set_map)
  moreover have "running_list s5 = running_list s2" using own_view_eq(3) [OF s5(6)] .
  ultimately show ?thesis using run s5(2,3) s2(3) by (intro exI [of _ ?t]) simp
qed

subsection \<open>Using a motor\<close>

lemma Stepper_active_again:
  assumes "live i sc s" and "n \<noteq> 0"
  shows "Stepper_SetActive i n s = Some (CONTROLLER_OK, s)"
  using assms by (auto simp: live_def Stepper_SetActive_def)

lemma with_stepper_live:
  assumes "live i sc s"
  shows "with_stepper i f s = f sc s"
proof -
  have "\<not> (i < 0 \<or> 2 \<le> i)" using assms by (auto simp: live_def)
  then show ?thesis using Stepper_active_again [OF assms, of 1] live_control [OF assms] by (simp add: with_stepper_def)
qed

definition motor_view :: "'a stepper_state_scheme \<Rightarrow> Stepper_ option \<times> pio \<times> pio" where
  "motor_view s = (Stepper s, PIOA s, PIOB s)"

lemma timer_parts [simp]:
  "motor_view (upd_entry a f s) = motor_view s" "motor_view (s\<lparr>FT_first := x\<rparr>) = motor_view s"
  "motor_view (s\<lparr>FT_previous := x\<rparr>) = motor_view s" "motor_view (s\<lparr>FT_nextTime := y\<rparr>) = motor_view s"
  "motor_view (FastTimer_SetTimeTarget t s) = motor_view s" "motor_view (FastTimer_Enable s) = motor_view s"
  "motor_view (snd (FastTimer_SetActive b s)) = motor_view s"
  by (simp_all add: motor_view_def upd_entry_def FastTimer_SetTimeTarget_def FastTimer_Enable_def
      FastTimer_SetActive_def FastTimer_Init_def Let_def)

lemma timer_start_view [simp]:
  "motor_view (FastTimer_start a s) = motor_view s" "motor_view (FastTimer_link a s) = motor_view s"
  by (simp_all add: FastTimer_start_def FastTimer_link_def Let_def)

lemma Set_frame [simp]:
  "Stepper (snd (FastTimer_Set a s)) = Stepper s" "line_out (snd (FastTimer_Set a s)) = line_out s"
proof -
  have "motor_view (snd (FastTimer_Set a s)) = motor_view s"
    by (simp add: FastTimer_Set_def Let_def)
  then show "Stepper (snd (FastTimer_Set a s)) = Stepper s" "line_out (snd (FastTimer_Set a s)) = line_out s"
    by (simp_all add: motor_view_def line_out_def port_def fun_eq_iff)
qed

lemma set_pointer_timer [simp]:
  "FT_running (set_pointer i p s) = FT_running s" "FT_users (set_pointer i p s) = FT_users s"
  by (simp_all add: set_pointer_def)

lemma request_eq:
  assumes s: "live i sc s" and sc: "\<not> SC_timerRunning sc" "SC_speed sc \<noteq> 0" "SC_position sc \<noteq> p"
  defines "u \<equiv> set_pointer i (Live (sc\<lparr>SC_positionRequested := p, SC_timerRunning := True\<rparr>))
                (set_pointer i (Live (sc\<lparr>SC_positionRequested := p\<rparr>)) s)"
  shows "Stepper_SetPositionRequested i p s = Some (CONTROLLER_OK, snd (FastTimer_Set (fastTimerEntry i) u))"
    and "live i (sc\<lparr>SC_positionRequested := p, SC_timerRunning := True\<rparr>) u"
proof -
  let ?c1 = "sc\<lparr>SC_positionRequested := p\<rparr>"
  let ?s1 = "set_pointer i (Live ?c1) s"
  have l1: "live i ?c1 ?s1" using live_update(2) [OF s] by simp
  note u1 = live_update(1) [OF s, of "\<lambda>sc. sc\<lparr>SC_positionRequested := p\<rparr>"]
  have u2: "upd_control i (\<lambda>sc. sc\<lparr>SC_timerRunning := True\<rparr>) ?s1 = Some u"
    using live_update(1) [OF l1] by (simp add: u_def)
  show "live i (sc\<lparr>SC_positionRequested := p, SC_timerRunning := True\<rparr>) u"
    using live_update(2) [OF l1] by (simp add: u_def)
  have "Stepper_SetDetails i ?s1 = Some (snd (FastTimer_Set (fastTimerEntry i) u))"
    using live_control [OF l1] sc u2 by (simp add: Stepper_SetDetails_def)
  then show "Stepper_SetPositionRequested i p s = Some (CONTROLLER_OK, snd (FastTimer_Set (fastTimerEntry i) u))"
    using u1 by (simp add: Stepper_SetPositionRequested_def Stepper_move_def with_stepper_live [OF s])
qed

lemma request_starts_timer:
  assumes s: "live i sc s" "running_list s ts" "fastTimerEntry i \<notin> set ts" "\<not> FT_running s \<Longrightarrow> FT_users s = 0 \<Longrightarrow> ts = []"
    and sc: "\<not> SC_timerRunning sc" "SC_speed sc \<noteq> 0" "SC_position sc \<noteq> p"
  shows "\<exists>t. Stepper_SetPositionRequested i p s = Some (CONTROLLER_OK, t) \<and>
    live i (sc\<lparr>SC_positionRequested := p, SC_timerRunning := True\<rparr>) t \<and> running_list t (fastTimerEntry i # ts) \<and>
    line_out t = line_out s"
proof -
  let ?c1 = "sc\<lparr>SC_positionRequested := p\<rparr>" and ?c2 = "sc\<lparr>SC_positionRequested := p, SC_timerRunning := True\<rparr>"
  let ?u = "set_pointer i (Live ?c2) (set_pointer i (Live ?c1) s)"
  let ?t = "snd (FastTimer_Set (fastTimerEntry i) ?u)"
  note r = request_eq [OF s(1) sc]
  have "live i ?c2 ?t" using live_cong [of ?t ?u] r(2) by simp
  moreover have "running_list ?u ts" using s(2) by simp
  then have "running_list ?t (fastTimerEntry i # ts)"
    by (rule FastTimer_Set_list(1)) (use s(3,4) in simp_all)
  ultimately show ?thesis using r(1) by (intro exI [of _ ?t]) simp
qed

lemma stepper_first_use:
  assumes "Stepper s = None" and "0 \<le> i" and "i < 2"
  defines "sc \<equiv> (fresh_control s)\<lparr>SC_users := 0\<rparr>" and "s1 \<equiv> snd (Stepper_Init s)"
  shows "Stepper_SetActive i 1 s = map_option (\<lambda>(st, s). (if st \<noteq> CONTROLLER_OK then CONTROLLER_ERROR_SYSTEM_NOT_ACTIVE
      else CONTROLLER_OK, s)) (Stepper_Start i (set_pointer i (Live sc) s1))"
    "live i sc (set_pointer i (Live sc) s1)" "Stepper s1 = Some \<lparr>ST_users = 0, ST_control = replicate 2 Null\<rparr>"
    "line_users s1 = line_users s" "line_locked s1 = line_locked s" "pwm_inv s1 = pwm_inv s" "pwm_active s1 = pwm_active s"
    "running_list s1 ts = running_list s ts" "fresh_control s1 = fresh_control s"
proof -
  have "nat i < 2" using assms(2,3) by simp
  then have n: "replicate 2 Null ! nat i = Null" by simp
  show s1: "Stepper s1 = Some \<lparr>ST_users = 0, ST_control = replicate 2 Null\<rparr>" "line_users s1 = line_users s"
    "line_locked s1 = line_locked s" "pwm_inv s1 = pwm_inv s" "pwm_active s1 = pwm_active s"
    "running_list s1 ts = running_list s ts" "fresh_control s1 = fresh_control s"
    using assms(1) by (simp_all add: s1_def Stepper_Init_def)
  show "live i sc (set_pointer i (Live sc) s1)"
    using s1(1) assms(2,3) \<open>nat i < 2\<close> by (simp add: live_def set_pointer_def)
  have "\<not> (i < 0 \<or> 2 \<le> i)" using assms(2,3) by auto
  then show "Stepper_SetActive i 1 s = map_option (\<lambda>(st, s). (if st \<noteq> CONTROLLER_OK then CONTROLLER_ERROR_SYSTEM_NOT_ACTIVE
      else CONTROLLER_OK, s)) (Stepper_Start i (set_pointer i (Live sc) s1))"
    using assms(1) s1(1) n s1(7)
    by (simp add: Stepper_SetActive_def s1_def [symmetric] sc_def Let_def map_conv_bind_option split_def comp_def)
qed

lemma Stepper_first_start:
  assumes "pwm_inv s" and i: "0 \<le> i" "i < 2" and "Stepper s = None" and "length (SC_io (fresh_control s)) = 4"
    and "{i * 2, i * 2 + 1} \<inter> pwm_active s = {}" and "\<forall>l \<in> motor_lines i. line_users s l = 0"
    and ts: "running_list s ts" "fastTimerEntry i \<notin> set ts"
  defines "sc \<equiv> fresh_motor i (fresh_control s)"
  shows "\<exists>t. Stepper_SetActive i 1 s = Some (CONTROLLER_OK, t) \<and> motor_running i sc t \<and>
    pwm_active t = pwm_active s \<union> {i * 2, i * 2 + 1} \<and>
    line_users t = (\<lambda>l. if l \<in> motor_lines i then 1 else line_users s l) \<and>
    line_locked t = (\<lambda>l. l \<in> motor_lines i \<or> line_locked s l) \<and>
    Stepper t = Some \<lparr>ST_users = 1, ST_control = (replicate 2 Null)[nat i := Live sc]\<rparr> \<and> running_list t ts \<and>
    fresh_control t = fresh_control s"
proof -
  let ?c = "(fresh_control s)\<lparr>SC_users := 0\<rparr>"
  let ?s = "set_pointer i (Live ?c) (snd (Stepper_Init s))"
  note F = stepper_first_use [OF assms(4) i]
  have fm: "fresh_motor i ?c = sc" by (simp add: fresh_motor_def sc_def)
  have "SC_users ?c = 0" "length (SC_io ?c) = 4" "pwm_inv ?s" "{i * 2, i * 2 + 1} \<inter> pwm_active ?s = {}"
    "\<forall>l \<in> motor_lines i. line_users ?s l = 0"
    using F assms(1,5-7) by simp_all
  note start = Stepper_Start_ok [OF F(2) this, of ts]
  have v: "line_users ?s = line_users s" "line_locked ?s = line_locked s" "pwm_active ?s = pwm_active s"
    using F(4,5,7) by simp_all
  from start [unfolded fm v] obtain t where t: "Stepper_Start i ?s = Some (CONTROLLER_OK, t)"
    "motor_running i sc t" "pwm_active t = pwm_active s \<union> {i * 2, i * 2 + 1}"
    "line_users t = (\<lambda>l. if l \<in> motor_lines i then 1 else line_users s l)"
    "line_locked t = (\<lambda>l. l \<in> motor_lines i \<or> line_locked s l)"
    "Stepper t = Stepper (stepper_users_add 1 (set_pointer i (Live sc) ?s))" "fresh_control t = fresh_control ?s"
    "running_list ?s ts \<and> fastTimerEntry i \<notin> set ts \<longrightarrow> running_list t ts" by blast
  have "Stepper t = Some \<lparr>ST_users = 1, ST_control = (replicate 2 Null)[nat i := Live sc]\<rparr>"
    using t(6) F(3) by (simp add: stepper_users_add_def set_pointer_def)
  then show ?thesis using t F(1,8,9) ts by (intro exI [of _ t]) simp
qed

lemma running_motor:
  assumes "motor_running i sc s"
  shows "live i sc s" "SC_io sc = motor_io i" "distinct (SC_io sc)" "length (SC_io sc) = 4" "\<forall>l \<in> set (SC_io sc). io_line l"
proof -
  show m: "live i sc s" "SC_io sc = motor_io i" using assms by (simp_all add: motor_running_def)
  then have "0 \<le> i" "i < 2" by (simp_all add: live_def)
  then show "distinct (SC_io sc)" "length (SC_io sc) = 4" "\<forall>l \<in> set (SC_io sc). io_line l"
    using motor_io_lines m(2) by simp_all
qed

subsection \<open>Properties\<close>

text \<open>A board on which no line is held, before the subsystem is first used.\<close>

definition stepper_boot :: stepper_state where
  "stepper_boot = pwm_state.extend (pwm_boot\<lparr>Io_pins := held_pins [], Io_users := 0, Io_init := 0\<rparr>)
     \<lparr>Stepper = None, fresh_control = \<lparr>SC_users = 7, SC_bipolar = False, SC_halfStep = True, SC_speed = 3, SC_duty = 0,
        SC_acceleration = 0, SC_positionRequested = 9, SC_position = 4, SC_io = [0, 0, 0, 0], SC_timerRunning = True\<rparr>\<rparr>"

definition stepper_busy_boot :: stepper_state where
  "stepper_busy_boot = pwm_state.extend pwm_boot \<lparr>Stepper = None, fresh_control = fresh_control stepper_boot\<rparr>"

lemma stepper_boot_fields:
  "Stepper stepper_boot = None" "Stepper stepper_busy_boot = None" "length (SC_io (fresh_control stepper_boot)) = 4"
  "SC_users (fresh_control stepper_boot) = 7"
  "Io_pins stepper_boot = held_pins []" "Io_users stepper_boot = 0" "Io_init stepper_boot = 0"
  "Pwm_users stepper_boot = 0" "Pwm_channels stepper_boot = 0" "PWMC_SR stepper_boot = 0"
  "FT_first stepper_boot = FT_first pwm_boot"
  "Io_pins stepper_busy_boot = Io_pins pwm_boot" "Io_users stepper_busy_boot = Io_users pwm_boot"
  "Io_init stepper_busy_boot = Io_init pwm_boot" "Pwm_users stepper_busy_boot = Pwm_users pwm_boot"
  "Pwm_channels stepper_busy_boot = Pwm_channels pwm_boot" "PWMC_SR stepper_busy_boot = PWMC_SR pwm_boot"
  by (simp_all add: stepper_boot_def stepper_busy_boot_def pwm_state.defs pwm_boot_fields)

lemma stepper_boot_view: "line_users stepper_boot l = 0" "line_locked stepper_boot l = False"
  using held_pins_view [of stepper_boot "[]"] by (simp_all add: stepper_boot_fields)

lemma stepper_boot_inv: "pwm_inv stepper_boot" "pwm_active stepper_boot = {}" "running_list stepper_boot []"
proof -
  have "total_users (held_pins []) = 0" by code_simp
  then have "io_inv stepper_boot" using held_pins_inv(1,2) by (simp add: io_inv_def stepper_boot_fields)
  moreover show a: "pwm_active stepper_boot = {}" by (simp add: pwm_active_def stepper_boot_fields)
  ultimately show "pwm_inv stepper_boot" by (simp add: pwm_inv_def stepper_boot_fields)
  have "FT_first pwm_boot = FT_first can_boot" by (simp add: pwm_boot_def can_state.defs)
  then show "running_list stepper_boot []"
    using can_boot_inv(3) by (simp add: running_list_def stepper_boot_fields)
qed

lemma stepper_busy_inv: "pwm_inv stepper_busy_boot" "pwm_active stepper_busy_boot = {}"
  "line_users stepper_busy_boot l = line_users pwm_boot l"
proof -
  have v: "line_users stepper_busy_boot = line_users pwm_boot" "line_locked stepper_busy_boot = line_locked pwm_boot"
    by (simp_all add: line_users_def line_locked_def fun_eq_iff stepper_boot_fields)
  then show "line_users stepper_busy_boot l = line_users pwm_boot l" by simp
  have "io_inv stepper_busy_boot = io_inv pwm_boot" by (simp add: io_inv_def stepper_boot_fields)
  then show "pwm_active stepper_busy_boot = {}" "pwm_inv stepper_busy_boot"
    using pwm_boot_inv(1,2) v by (simp_all add: pwm_inv_def pwm_active_def stepper_boot_fields)
qed

text \<open>
  Starting a motor for the first time and stopping it again. When its four lines and two channels
  are free the start locks exactly those and reports success; stopping the motor releases exactly those,
  frees the subsystem and leaves the owners of all lines, the PWM channels and the running timers as
  they were.
\<close>

theorem stepper_start_stop_roundtrip:
  assumes "pwm_inv s" and "0 \<le> i" and "i < 2" and "Stepper s = None" and "length (SC_io (fresh_control s)) = 4"
    and "{i * 2, i * 2 + 1} \<inter> pwm_active s = {}" and "\<forall>l \<in> motor_lines i. line_users s l = 0"
    and "running_list s ts" and "fastTimerEntry i \<notin> set ts"
  shows "\<exists>t u. Stepper_SetActive i 1 s = Some (CONTROLLER_OK, t) \<and> Stepper_GetActive i t = 1 \<and>
    line_locked t = (\<lambda>l. l \<in> motor_lines i \<or> line_locked s l) \<and> pwm_active t = pwm_active s \<union> {i * 2, i * 2 + 1} \<and>
    Stepper_SetActive i 0 t = Some (CONTROLLER_OK, u) \<and> Stepper u = None \<and> line_users u = line_users s \<and>
    line_locked u = line_locked s \<and> pwm_active u = pwm_active s \<and> running_list u ts"
proof -
  let ?sc = "fresh_motor i (fresh_control s)"
  obtain t where t: "Stepper_SetActive i 1 s = Some (CONTROLLER_OK, t)" "motor_running i ?sc t"
    "pwm_active t = pwm_active s \<union> {i * 2, i * 2 + 1}"
    "line_users t = (\<lambda>l. if l \<in> motor_lines i then 1 else line_users s l)"
    "line_locked t = (\<lambda>l. l \<in> motor_lines i \<or> line_locked s l)"
    "Stepper t = Some \<lparr>ST_users = 1, ST_control = (replicate 2 Null)[nat i := Live ?sc]\<rparr>" "running_list t ts"
    using Stepper_first_start [OF assms] by blast
  have nr: "\<not> SC_timerRunning ?sc" by (simp add: fresh_motor_def)
  obtain u where u: "Stepper_Stop i t = Some (CONTROLLER_OK, u)" "pwm_active u = pwm_active t - {i * 2, i * 2 + 1}"
    "line_users u = (\<lambda>l. if l \<in> motor_lines i then 0 else line_users t l)"
    "line_locked u = (\<lambda>l. l \<notin> motor_lines i \<and> line_locked t l)"
    "Stepper u = (if ST_users (the (Stepper t)) = 1 then None else Stepper (stepper_users_add (- 1) (set_pointer i Freed t)))"
    "running_list u (if SC_timerRunning ?sc then removeAll (fastTimerEntry i) ts else ts)"
    using Stepper_Stop_ok [OF t(2,7)] by blast
  have i: "\<not> (i < 0 \<or> i \<ge> 2)" "nat i < 2" using assms(2,3) by auto
  have "\<not> line_locked s l" if "l \<in> motor_lines i" for l
  proof
    assume l: "line_locked s l"
    then have "io_line l" by (simp add: line_locked_def)
    then show False using io.locked_owner [of s l] l assms(1,7) that by (simp add: pwm_inv_def)
  qed
  then have "line_locked u = line_locked s" using u(4) t(5) by (auto simp: fun_eq_iff)
  moreover have "line_users u = line_users s" using u(3) t(4) assms(7) by (auto simp: fun_eq_iff)
  moreover have "pwm_active u = pwm_active s" using u(2) t(3) assms(6) by auto
  moreover have "Stepper_GetActive i t = 1" "Stepper_SetActive i 0 t = Some (CONTROLLER_OK, u)"
    using i t(6) u(1) by (simp_all add: Stepper_GetActive_def Stepper_SetActive_def)
  ultimately show ?thesis using t(1,3,5,6) u(5,6) nr by simp
qed

theorem stepper_start_stop_roundtrip_witness:
  "\<exists>t u. Stepper_SetActive 1 1 stepper_boot = Some (CONTROLLER_OK, t) \<and> line_locked t 57 \<and>
    Stepper_SetActive 1 0 t = Some (CONTROLLER_OK, u) \<and> \<not> line_locked u 57"
proof -
  have "57 \<in> motor_lines 1" by (simp add: motor_lines_def Stepper_GetIo_def)
  then show ?thesis
    using stepper_start_stop_roundtrip [OF stepper_boot_inv(1), of 1 "[]"] stepper_boot_inv(2,3)
    by (auto simp: stepper_boot_view stepper_boot_fields)
qed

text \<open>
  C34: a requested move completes. On an idle motor with a non-zero speed, requesting another position
  starts the motor's timer, and after \<open>k\<close> timer interrupts the motor is \<open>k\<close> steps closer and its coils
  show the pattern of that position; at the last of the \<open>\<bar>p - position\<bar>\<close> interrupts, and not before,
  it is at the requested position and its timer is off the running list.
\<close>

theorem stepper_move_completes:
  assumes "motor_running i sc s" and "running_list s ts" and "fastTimerEntry i \<notin> set ts"
    and "\<not> FT_running s \<Longrightarrow> FT_users s = 0 \<Longrightarrow> ts = []"
    and "\<not> SC_timerRunning sc" and "SC_speed sc \<noteq> 0" and "0 < k" and "k \<le> nat \<bar>p - SC_position sc\<bar>"
  shows "\<exists>t u sc'. Stepper_SetPositionRequested i p s = Some (CONTROLLER_OK, t) \<and> stepper_ticks k i t = Some u \<and>
    live i sc' u \<and> SC_position sc' = SC_position sc + int k * sgn (p - SC_position sc) \<and>
    map (line_out u) (SC_io sc) = coil_pattern (SC_bipolar sc) (SC_halfStep sc) (SC_position sc') \<and>
    SC_timerRunning sc' = (k < nat \<bar>p - SC_position sc\<bar>) \<and>
    running_list u (if k < nat \<bar>p - SC_position sc\<bar> then fastTimerEntry i # ts else ts)"
proof -
  note m = running_motor [OF assms(1)]
  have ne: "SC_position sc \<noteq> p" using assms(7,8) by auto
  let ?c = "sc\<lparr>SC_positionRequested := p, SC_timerRunning := True\<rparr>"
  define q where "q = SC_position sc + int k * sgn (p - SC_position sc)"
  obtain t where t: "Stepper_SetPositionRequested i p s = Some (CONTROLLER_OK, t)" "live i ?c t"
    "running_list t (fastTimerEntry i # ts)"
    using request_starts_timer [OF m(1) assms(2-6) ne] by blast
  have step: "one_step ?c = sgn (p - SC_position sc)" by (simp add: one_step_def)
  have fin: "q = p \<longleftrightarrow> \<not> k < nat \<bar>p - SC_position sc\<bar>"
    using assms(8) ne by (auto simp: q_def sgn_if split: if_splits)
  have c: "SC_io ?c = SC_io sc" "SC_bipolar ?c = SC_bipolar sc" "SC_halfStep ?c = SC_halfStep sc"
    "SC_positionRequested ?c = p" "SC_position ?c = SC_position sc" "SC_position ?c + int k * one_step ?c = q"
    by (simp_all add: step q_def)
  note move = stepper_ticks_move [OF t(2,3), of k]
  obtain u where u: "stepper_ticks k i t = Some u"
    "map (line_out u) (SC_io sc) = coil_pattern (SC_bipolar sc) (SC_halfStep sc) q"
    "if q = p then live i (?c\<lparr>SC_position := q, SC_timerRunning := False\<rparr>) u \<and>
       running_list u (removeAll (fastTimerEntry i) (fastTimerEntry i # ts))
     else live i (?c\<lparr>SC_position := q\<rparr>) u \<and> running_list u (fastTimerEntry i # ts)"
    using move [unfolded c(6)] m(3-5) assms(7,8) unfolding c(1-5) by blast
  have "removeAll (fastTimerEntry i) (fastTimerEntry i # ts) = ts" using assms(3) by simp
  then show ?thesis
    using t(1) u fin unfolding q_def [symmetric] by (cases "q = p") (auto simp del: removeAll.simps)
qed

text \<open>
  C35: the coil outputs. Whatever the position, also a negative one, the interrupt drives the motor's four
  lines and no others; neighbouring positions differ in exactly one coil in half-step mode and in two in
  full-step mode; in full-step mode two coils of a bipolar and one of a unipolar motor are energised; the
  two ends of a bipolar winding are never energised together.
\<close>

theorem stepper_coil_sequence:
  fixes sc :: StepperControl and s :: "'a io_state_scheme"
  assumes "distinct (SC_io sc)" and "\<forall>l \<in> set (SC_io sc). io_line l" and "length (SC_io sc) = 4"
  defines "pat \<equiv> \<lambda>p. map (line_out (step_output (sc\<lparr>SC_position := p\<rparr>) s)) (SC_io sc)"
  shows "(\<forall>l. io_line l \<and> l \<notin> set (SC_io sc) \<longrightarrow> line_out (step_output (sc\<lparr>SC_position := p\<rparr>) s) l = line_out s l) \<and>
    hamming (pat p) (pat (p + 1)) = (if SC_halfStep sc then 1 else 2) \<and>
    (\<not> SC_halfStep sc \<longrightarrow> length (filter id (pat p)) = (if SC_bipolar sc then 2 else 1)) \<and>
    (SC_bipolar sc \<longrightarrow> \<not> (pat p ! 0 \<and> pat p ! 1) \<and> \<not> (pat p ! 2 \<and> pat p ! 3))"
proof -
  have pat: "pat p = coil_pattern (SC_bipolar sc) (SC_halfStep sc) p" for p
    unfolding pat_def step_output_pattern
    using set_coils_levels(1) [OF assms(1,2), of "coil_pattern (SC_bipolar sc) (SC_halfStep sc) p" s] assms(3)
    by (simp add: coil_pattern_length)
  have "line_out (step_output (sc\<lparr>SC_position := p\<rparr>) s) l = line_out s l" if "io_line l" "l \<notin> set (SC_io sc)" for l
    unfolding step_output_pattern
    by (simp add: set_coils_levels(2) [OF assms(1,2) _ that] assms(3) coil_pattern_length)
  then show ?thesis
    unfolding pat
    using coil_pattern_next [of "SC_bipolar sc" p] coil_pattern_power [where p = p]
    by (cases "SC_halfStep sc"; cases "SC_bipolar sc") simp_all
qed

text \<open>
  Stopping one motor while the other one is in use frees its control block but keeps the pointer to
  it. The motor still counts as active, starting it again reports success without doing anything although
  its lines are released, and the next read of its position follows the dangling pointer.
\<close>

theorem stepper_stop_dangles:
  assumes "motor_running i sc s" and "running_list s ts" and "ST_users (the (Stepper s)) > 1"
  shows "\<exists>t. Stepper_SetActive i 0 s = Some (CONTROLLER_OK, t) \<and> (\<forall>l \<in> motor_lines i. \<not> line_locked t l) \<and>
    Stepper_GetActive i t = 1 \<and> Stepper_SetActive i 1 t = Some (CONTROLLER_OK, t) \<and> Stepper_GetPosition i t = None"
proof -
  have "live i sc s" using assms(1) by (simp add: motor_running_def)
  then obtain st where st: "Stepper s = Some st" "length (ST_control st) = 2" and i: "0 \<le> i" "i < 2" by (auto simp: live_def)
  obtain t where t: "Stepper_Stop i s = Some (CONTROLLER_OK, t)" "line_locked t = (\<lambda>l. l \<notin> motor_lines i \<and> line_locked s l)"
    "Stepper t = (if ST_users (the (Stepper s)) = 1 then None else Stepper (stepper_users_add (- 1) (set_pointer i Freed s)))"
    using Stepper_Stop_ok [OF assms(1,2)] by blast
  have n: "nat i < 2" "\<not> (i < 0 \<or> i \<ge> 2)" using i by auto
  obtain st' where st': "Stepper t = Some st'" "ST_control st' ! nat i = Freed"
    using t(3) st assms(3) n(1) by (simp add: stepper_users_add_def set_pointer_def)
  have "Stepper_SetActive i 0 s = Some (CONTROLLER_OK, t)" using t(1) n(2) by (simp add: Stepper_SetActive_def)
  moreover have "Stepper_GetActive i t = 1" "control i t = None" and again: "Stepper_SetActive i 1 t = Some (CONTROLLER_OK, t)"
    using st' n(2) by (simp_all add: Stepper_GetActive_def control_def Stepper_SetActive_def)
  moreover have "Stepper_GetPosition i t = None"
    using again \<open>control i t = None\<close> n(2) by (simp add: Stepper_GetPosition_def with_stepper_def)
  ultimately show ?thesis using t(2) by simp
qed

text \<open>
  A motor whose first PWM line somebody else holds cannot start, and the attempt is reported as an
  error, but the control block it allocated stays: the motor counts as active from then on, every later
  start reports success, and no line or channel of the motor is held; the count of motors in use is
  negative.
\<close>

theorem stepper_failed_start_stays_active:
  assumes "pwm_inv s" and "0 \<le> i" and "i < 2" and "Stepper s = None"
    and "i * 2 \<notin> pwm_active s" and "line_users s (51 + i * 2) > 0"
  shows "\<exists>t. Stepper_SetActive i 1 s = Some (CONTROLLER_ERROR_SYSTEM_NOT_ACTIVE, t) \<and> Stepper_GetActive i t = 1 \<and>
    Stepper_SetActive i 1 t = Some (CONTROLLER_OK, t) \<and> line_users t = line_users s \<and> pwm_active t = pwm_active s \<and>
    map_option ST_users (Stepper t) = Some (- 1)"
proof -
  let ?c = "(fresh_control s)\<lparr>SC_users := 0\<rparr>" and ?c1 = "(fresh_control s)\<lparr>SC_users := 1\<rparr>"
  let ?s = "set_pointer i (Live ?c) (snd (Stepper_Init s))"
  let ?s1 = "set_pointer i (Live ?c1) ?s" let ?s2 = "set_pointer i (Live ?c) ?s1"
  let ?t = "stepper_users_add (- 1) ?s2"
  note F = stepper_first_use [OF assms(4,2,3)]
  have n: "nat i < 2" "\<not> (i < 0 \<or> i \<ge> 2)" using assms(2,3) by auto
  have u1: "upd_control i (\<lambda>sc. sc\<lparr>SC_users := SC_users sc + 1\<rparr>) ?s = Some ?s1" "live i ?c1 ?s1"
    using live_update [OF F(2)] by simp_all
  have u2: "upd_control i (\<lambda>sc. sc\<lparr>SC_users := SC_users sc - 1\<rparr>) ?s1 = Some ?s2" "live i ?c ?s2"
    using live_update [OF u1(2)] by simp_all
  have "pwm_inv ?s1" "i * 2 \<notin> pwm_active ?s1" "line_users ?s1 (51 + i * 2) > 0" using F assms by simp_all
  then have pw: "Pwm_Start (i * 2) ?s1 = Some (CONTROLLER_ERROR_TOO_MANY_USERS, ?s1)"
    using Pwm_Start_cases [of ?s1 "i * 2"] motor_channels [OF assms(2,3)] by auto
  have "Stepper_Start i ?s = Some (CONTROLLER_ERROR_TOO_MANY_USERS, ?t)"
    using n(2) live_control [OF F(2)] u1(1) u2(1) pw
    by (simp add: Stepper_Start_def Stepper_undo_def)
  then have start: "Stepper_SetActive i 1 s = Some (CONTROLLER_ERROR_SYSTEM_NOT_ACTIVE, ?t)" by (simp add: F(1))
  have "live i ?c ?t" using u2(2) by (auto simp: live_def stepper_users_add_def)
  note again = Stepper_active_again [OF this, of 1]
  have "Stepper_GetActive i ?t = 1"
    using \<open>live i ?c ?t\<close> n(2) by (auto simp: Stepper_GetActive_def live_def)
  moreover have "map_option ST_users (Stepper ?t) = Some (- 1)"
    using F(3) by (simp add: stepper_users_add_def set_pointer_def)
  ultimately show ?thesis using start again F(4,7) by simp
qed

lemma started_motor:
  "\<exists>t. Stepper_SetActive 0 1 stepper_boot = Some (CONTROLLER_OK, t) \<and>
    motor_running 0 (fresh_motor 0 (fresh_control stepper_boot)) t \<and> pwm_active t = {0, 1} \<and>
    line_users t = (\<lambda>l. if l \<in> motor_lines 0 then 1 else 0) \<and> running_list t [] \<and>
    Stepper t = Some \<lparr>ST_users = 1, ST_control = [Live (fresh_motor 0 (fresh_control stepper_boot)), Null]\<rparr> \<and>
    fresh_control t = fresh_control stepper_boot"
proof -
  have "length (SC_io (fresh_control stepper_boot)) = 4" "{0 * 2, 0 * 2 + 1} \<inter> pwm_active stepper_boot = {}"
    "\<forall>l \<in> motor_lines 0. line_users stepper_boot l = 0" "fastTimerEntry 0 \<notin> set []"
    by (simp_all add: stepper_boot_fields stepper_boot_view stepper_boot_inv)
  note start = Stepper_first_start [OF stepper_boot_inv(1) _ _ stepper_boot_fields(1) this(1-3) stepper_boot_inv(3) this(4)]
  have "line_users stepper_boot = (\<lambda>_. 0)" by (rule ext) (rule stepper_boot_view)
  note start [unfolded this]
  then show ?thesis by (auto simp: stepper_boot_inv numeral_2_eq_2)
qed

theorem stepper_move_completes_witness:
  "\<exists>s t u sc'. Stepper_SetActive 0 1 stepper_boot = Some (CONTROLLER_OK, s) \<and>
    Stepper_SetPositionRequested 0 (- 3) s = Some (CONTROLLER_OK, t) \<and> stepper_ticks 3 0 t = Some u \<and>
    live 0 sc' u \<and> SC_position sc' = - 3 \<and> running_list u []"
proof -
  obtain s where s: "Stepper_SetActive 0 1 stepper_boot = Some (CONTROLLER_OK, s)"
    "motor_running 0 (fresh_motor 0 (fresh_control stepper_boot)) s" "running_list s []"
    using started_motor by blast
  have "\<not> SC_timerRunning (fresh_motor 0 (fresh_control stepper_boot))"
    "SC_speed (fresh_motor 0 (fresh_control stepper_boot)) \<noteq> 0" "SC_position (fresh_motor 0 (fresh_control stepper_boot)) = 0"
    by (simp_all add: fresh_motor_def)
  then show ?thesis using stepper_move_completes [OF s(2,3), of 3 "- 3"] s(1) by auto
qed

theorem stepper_coil_sequence_witness:
  "hamming (map (line_out (step_output (fresh_motor 0 (fresh_control stepper_boot)\<lparr>SC_position := - 1\<rparr>) stepper_boot)) (motor_io 0))
     (map (line_out (step_output (fresh_motor 0 (fresh_control stepper_boot)\<lparr>SC_position := 0\<rparr>) stepper_boot)) (motor_io 0)) = 2"
proof -
  have "SC_io (fresh_motor 0 (fresh_control stepper_boot)) = motor_io 0" "\<not> SC_halfStep (fresh_motor 0 (fresh_control stepper_boot))"
    by (simp_all add: fresh_motor_def)
  then show ?thesis
    using stepper_coil_sequence [of "fresh_motor 0 (fresh_control stepper_boot)" "- 1" stepper_boot] motor_io_lines(1,2) [of 0]
    by simp
qed

theorem stepper_failed_start_stays_active_witness:
  "\<exists>t. Stepper_SetActive 0 1 stepper_busy_boot = Some (CONTROLLER_ERROR_SYSTEM_NOT_ACTIVE, t) \<and> Stepper_GetActive 0 t = 1"
  using stepper_failed_start_stays_active [OF stepper_busy_inv(1), of 0]
  by (auto simp: stepper_busy_inv stepper_boot_fields pwm_boot_view)

lemma two_motors:
  "\<exists>s t. Stepper_SetActive 0 1 stepper_boot = Some (CONTROLLER_OK, s) \<and> Stepper_SetActive 1 1 s = Some (CONTROLLER_OK, t) \<and>
    motor_running 0 (fresh_motor 0 (fresh_control stepper_boot)) t \<and> running_list t [] \<and> ST_users (the (Stepper t)) = 2"
proof -
  let ?sc = "fresh_motor 0 (fresh_control stepper_boot)"
  obtain s where s: "Stepper_SetActive 0 1 stepper_boot = Some (CONTROLLER_OK, s)" "motor_running 0 ?sc s" "pwm_active s = {0, 1}"
    "line_users s = (\<lambda>l. if l \<in> motor_lines 0 then 1 else 0)" "running_list s []"
    "Stepper s = Some \<lparr>ST_users = 1, ST_control = [Live ?sc, Null]\<rparr>" and s7: "fresh_control s = fresh_control stepper_boot"
    using started_motor by blast
  let ?c = "(fresh_control s)\<lparr>SC_users := 0\<rparr>" and ?s = "set_pointer 1 (Live ((fresh_control s)\<lparr>SC_users := 0\<rparr>)) s"
  have l: "live 1 ?c ?s" "live 0 ?sc ?s" using s(6) by (simp_all add: live_def set_pointer_def)
  have "motor_lines 1 \<inter> motor_lines 0 = {}" by (simp add: motor_lines_def Stepper_GetIo_def)
  then have free: "\<forall>l \<in> motor_lines 1. line_users ?s l = 0" using s(4) by auto
  have "SC_users ?c = 0" "length (SC_io ?c) = 4" "pwm_inv ?s" "{1 * 2, 1 * 2 + 1} \<inter> pwm_active ?s = {}"
    using s(2,3) s7 by (simp_all add: stepper_boot_fields motor_running_def)
  from Stepper_Start_ok [OF l(1) this free, of "[]"] obtain t where t: "Stepper_Start 1 ?s = Some (CONTROLLER_OK, t)"
    "motor_running 1 (fresh_motor 1 ?c) t" "pwm_active t = pwm_active ?s \<union> {1 * 2, 1 * 2 + 1}"
    "line_locked t = (\<lambda>l. l \<in> motor_lines 1 \<or> line_locked ?s l)"
    "Stepper t = Stepper (stepper_users_add 1 (set_pointer 1 (Live (fresh_motor 1 ?c)) ?s))"
    "running_list ?s [] \<and> fastTimerEntry 1 \<notin> set [] \<longrightarrow> running_list t []" by blast
  have "Stepper_SetActive 1 1 s = Some (CONTROLLER_OK, t)"
    using s(6) t(1) by (simp add: Stepper_SetActive_def)
  moreover have "live 0 ?sc t" using t(5) s(6) by (simp add: live_def stepper_users_add_def set_pointer_def)
  then have "motor_running 0 ?sc t" using s(2) t(2-4) by (simp add: motor_running_def)
  moreover have "ST_users (the (Stepper t)) = 2" using t(5) s(6) by (simp add: stepper_users_add_def set_pointer_def)
  ultimately show ?thesis using s(1,5) t(6) by auto
qed

theorem stepper_stop_dangles_witness:
  "\<exists>s t u. Stepper_SetActive 0 1 stepper_boot = Some (CONTROLLER_OK, s) \<and> Stepper_SetActive 1 1 s = Some (CONTROLLER_OK, t) \<and>
    Stepper_SetActive 0 0 t = Some (CONTROLLER_OK, u) \<and> Stepper_SetActive 0 1 u = Some (CONTROLLER_OK, u) \<and>
    Stepper_GetPosition 0 u = None"
proof -
  obtain s t where st: "Stepper_SetActive 0 1 stepper_boot = Some (CONTROLLER_OK, s)" "Stepper_SetActive 1 1 s = Some (CONTROLLER_OK, t)"
    "motor_running 0 (fresh_motor 0 (fresh_control stepper_boot)) t" "running_list t []" "ST_users (the (Stepper t)) = 2"
    using two_motors by blast
  then show ?thesis using stepper_stop_dangles [OF st(3,4)] by auto
qed

end
