(* ===== verification/HeavyCodec.thy ===== *)
theory HeavyCodec
  imports Prelude
begin

text \<open>
  The message format of the motor controllers (\<^verbatim>\<open>src/firmware/projects/heavy/make.c\<close>): 32-bit words sent most
  significant byte first and followed by a CRC-32 of the bytes. The CRC uses a table of 256 words that is
  generated on first use and kept in a static variable. This theory models the conversions and the CRC, proves
  the table-driven CRC equal to a bit-by-bit one, and shows which errors it detects.
\<close>

subsection \<open>Bytes and words\<close>

definition dword_bytes :: "u32 \<Rightarrow> u8 list" where
  "dword_bytes w = [ucast (drop_bit 24 w AND 0xFF), ucast (drop_bit 16 w AND 0xFF),
                    ucast (drop_bit 8 w AND 0xFF), ucast (w AND 0xFF)]"

definition int2char :: "u32 list \<Rightarrow> nat \<Rightarrow> u8 list" where
  "int2char myInt lengthDWords = concat (map (\<lambda>i. dword_bytes (myInt ! i)) [0..<lengthDWords])"

definition char2int_step :: "u8 list \<Rightarrow> nat \<Rightarrow> u32 list \<Rightarrow> u32 list" where
  "char2int_step myChar i myInt =
     (if i mod 4 = 0 then myInt[i div 4 := push_bit 24 (ucast (myChar ! i))]
      else if i mod 4 = 1 then myInt[i div 4 := myInt ! (i div 4) OR push_bit 16 (ucast (myChar ! i))]
      else if i mod 4 = 2 then myInt[i div 4 := myInt ! (i div 4) OR push_bit 8 (ucast (myChar ! i))]
      else myInt[i div 4 := myInt ! (i div 4) OR ucast (myChar ! i)])"

definition char2int :: "u32 list \<Rightarrow> u8 list \<Rightarrow> nat \<Rightarrow> u32 list" where
  "char2int myInt myChar lengthBytes = fold (char2int_step myChar) [0..<lengthBytes] myInt"

subsection \<open>The checksum\<close>

abbreviation (input) crc_poly :: u32 where "crc_poly \<equiv> 0xEDB88320"

definition crc_shift :: "u32 \<Rightarrow> u32" where
  "crc_shift crc = (if crc AND 1 \<noteq> 0 then drop_bit 1 crc XOR crc_poly else drop_bit 1 crc)"

definition crc_entry :: "nat \<Rightarrow> u32" where
  "crc_entry i = (crc_shift ^^ 8) (of_nat i)"

definition crc32_gentab :: "u32 list" where
  "crc32_gentab = map crc_entry [0..<256]"

record crc_state =
  crc_tab :: "u32 list"
  crc_tab_generated :: bool

definition crc32_byte :: "u32 list \<Rightarrow> u8 \<Rightarrow> u32 \<Rightarrow> u32" where
  "crc32_byte tab b crc = (drop_bit 8 crc AND 0x00FFFFFF) XOR tab ! unat ((crc XOR ucast b) AND 0xFF)"

definition crc32 :: "u8 list \<Rightarrow> crc_state \<Rightarrow> u32 \<times> crc_state" where
  "crc32 block s =
     (let s = (if crc_tab_generated s then s else s\<lparr>crc_tab := crc32_gentab, crc_tab_generated := True\<rparr>)
      in (fold (crc32_byte (crc_tab s)) block 0xFFFFFFFF XOR 0xFFFFFFFF, s))"

subsection \<open>Words survive the conversion\<close>

lemma byte_bits:
  assumes "k \<le> 24"
  shows "bit (push_bit k (ucast (ucast (drop_bit k w AND 0xFF) :: u8)) :: u32) n \<longleftrightarrow> k \<le> n \<and> n < k + 8 \<and> bit (w :: u32) n"
proof -
  have m: "(0xFF :: u32) = mask 8" by (simp add: mask_eq_exp_minus_1)
  show ?thesis
    unfolding m using assms
    by (auto simp: bit_simps possible_bit_def dest: bit_imp_le_length)
qed

lemma dword_bytes_join:
  "push_bit 24 (ucast (ucast (drop_bit 24 w AND 0xFF) :: u8)) OR push_bit 16 (ucast (ucast (drop_bit 16 w AND 0xFF) :: u8)) OR
   push_bit 8 (ucast (ucast (drop_bit 8 w AND 0xFF) :: u8)) OR ucast (ucast (w AND 0xFF) :: u8) = (w :: u32)" (is "?l = w")
proof (rule bit_word_eqI)
  fix n
  assume "n < LENGTH(32)"
  then have "n < 8 \<or> 8 \<le> n \<and> n < 16 \<or> 16 \<le> n \<and> n < 24 \<or> 24 \<le> n \<and> n < 32" by auto
  then show "bit ?l n = bit w n"
    using byte_bits [of 0 w n] by (auto simp: bit_or_iff byte_bits)
qed

lemma int2char_length [simp]: "length (int2char ws n) = 4 * n"
  by (induction n) (auto simp: int2char_def dword_bytes_def)

lemma int2char_nth:
  assumes "k < n" and "j < 4"
  shows "int2char ws n ! (4 * k + j) = dword_bytes (ws ! k) ! j"
  using assms(1)
proof (induction n)
  case (Suc n)
  have app: "int2char ws (Suc n) = int2char ws n @ dword_bytes (ws ! n)" by (simp add: int2char_def)
  show ?case
  proof (cases "k = n")
    case True
    then show ?thesis by (simp add: app nth_append)
  next
    case False
    then have "k < n" using Suc.prems by simp
    then have "4 * k + j < 4 * n" using assms(2) by simp
    then show ?thesis using Suc.IH \<open>k < n\<close> by (simp add: app nth_append)
  qed
qed simp

lemma char2int_quad:
  assumes "k < length ws"
  shows "fold (char2int_step bs) [4 * k..<4 * k + 4] ws =
    ws[k := push_bit 24 (ucast (bs ! (4 * k))) OR push_bit 16 (ucast (bs ! (4 * k + 1))) OR
            push_bit 8 (ucast (bs ! (4 * k + 2))) OR ucast (bs ! (4 * k + 3))]"
proof -
  have up: "[4 * k..<4 * k + 4] = [4 * k, 4 * k + 1, 4 * k + 2, 4 * k + 3]" by (simp add: upt_rec)
  have m: "4 * k mod 4 = 0" "(4 * k + 1) mod 4 = 1" "(4 * k + 2) mod 4 = 2" "(4 * k + 3) mod 4 = 3"
    "4 * k div 4 = k" "(4 * k + 1) div 4 = k" "(4 * k + 2) div 4 = k" "(4 * k + 3) div 4 = k" by presburger+
  show ?thesis
    unfolding up using assms by (simp only: fold.simps char2int_step_def m comp_apply id_apply) (simp add: or.assoc)
qed

lemma char2int_words:
  assumes "n \<le> length ws" and "\<And>k. k < n \<Longrightarrow> w k = push_bit 24 (ucast (bs ! (4 * k))) OR push_bit 16 (ucast (bs ! (4 * k + 1))) OR
            push_bit 8 (ucast (bs ! (4 * k + 2))) OR ucast (bs ! (4 * k + 3))"
  shows "char2int ws bs (4 * n) = map w [0..<n] @ drop n ws"
  using assms
proof (induction n)
  case 0
  then show ?case by (simp add: char2int_def)
next
  case (Suc n)
  have split: "[0..<4 * Suc n] = [0..<4 * n] @ [4 * n..<4 * n + 4]" using upt_add_eq_append [of 0 "4 * n" 4] by (simp add: add.commute)
  have "char2int ws bs (4 * Suc n) = fold (char2int_step bs) [4 * n..<4 * n + 4] (map w [0..<n] @ drop n ws)"
    using Suc by (simp only: char2int_def split fold_append comp_apply)
  also have "\<dots> = (map w [0..<n] @ drop n ws)[n := w n]"
    using Suc.prems by (subst char2int_quad) auto
  also have "\<dots> = map w [0..<Suc n] @ drop (Suc n) ws"
    using Suc.prems(1) by (simp add: list_update_append Cons_nth_drop_Suc [symmetric])
  finally show ?case .
qed

lemma char2int_int2char:
  assumes "length garbage = length ws"
  shows "char2int garbage (int2char ws (length ws)) (4 * length ws) = ws"
proof -
  have "ws ! k = push_bit 24 (ucast (int2char ws (length ws) ! (4 * k))) OR push_bit 16 (ucast (int2char ws (length ws) ! (4 * k + 1))) OR
      push_bit 8 (ucast (int2char ws (length ws) ! (4 * k + 2))) OR ucast (int2char ws (length ws) ! (4 * k + 3))"
    if k: "k < length ws" for k
    using int2char_nth [OF k, of 0 ws] int2char_nth [OF k, of 1 ws] int2char_nth [OF k, of 2 ws] int2char_nth [OF k, of 3 ws]
      dword_bytes_join [of "ws ! k"] by (simp add: dword_bytes_def)
  from char2int_words [of "length ws" garbage "\<lambda>k. ws ! k", OF _ this] show ?thesis
    using assms by (simp add: map_nth)
qed

subsection \<open>The table-driven checksum is the bitwise one\<close>

text \<open>
  The reference: one bit of the input at a time, least significant bit of each byte first.
\<close>

definition crc_bit :: "bool \<Rightarrow> u32 \<Rightarrow> u32" where
  "crc_bit b crc = (if bit crc 0 \<noteq> b then drop_bit 1 crc XOR crc_poly else drop_bit 1 crc)"

definition crc32_bitwise :: "u8 list \<Rightarrow> u32" where
  "crc32_bitwise block = NOT (fold crc_bit (concat (map (\<lambda>b. map (bit b) [0..<8]) block)) (- 1))"

lemma crc_shift_alt: "crc_shift x = drop_bit 1 x XOR (if odd x then crc_poly else 0)"
  by (simp add: crc_shift_def and_one_eq mod_2_eq_odd)

lemma crc_shift_xor: "crc_shift (x XOR y) = crc_shift x XOR crc_shift y"
proof -
  have "odd (x XOR y) \<longleftrightarrow> odd x \<noteq> odd y" using bit_xor_iff [of x y 0] by (simp add: bit_0)
  then show ?thesis by (simp add: crc_shift_alt drop_bit_xor ac_simps)
qed

lemma crc_shifts_xor: "(crc_shift ^^ k) (x XOR y) = (crc_shift ^^ k) x XOR (crc_shift ^^ k) y"
  by (induction k) (simp_all add: crc_shift_xor)

lemma crc_shifts_high: "(\<And>n. n < k \<Longrightarrow> \<not> bit x n) \<Longrightarrow> (crc_shift ^^ k) x = drop_bit k x"
proof (induction k)
  case (Suc k)
  have "\<not> bit (drop_bit k x) 0" using Suc.prems [of k] by (simp add: bit_drop_bit_eq)
  then have "even (drop_bit k x)" by (simp add: bit_0)
  then show ?case using Suc by (simp add: crc_shift_alt drop_bit_drop_bit)
qed simp

lemma crc_bit_shift: "crc_bit b crc = crc_shift (crc XOR of_bool b)"
proof -
  have "crc_shift (crc XOR of_bool b) = crc_shift crc XOR crc_shift (of_bool b)" by (rule crc_shift_xor)
  moreover have "crc_shift (of_bool b) = (if b then crc_poly else 0)" by (simp add: crc_shift_alt)
  ultimately show ?thesis by (simp add: crc_bit_def crc_shift_alt bit_0 ac_simps)
qed

lemma crc_bits_shifts:
  "k \<le> 8 \<Longrightarrow> fold crc_bit (map (bit b) [0..<k]) crc = (crc_shift ^^ k) (crc XOR take_bit k (ucast (b :: u8)))"
proof (induction k)
  case (Suc k)
  let ?v = "ucast b :: u32"
  have split: "take_bit (Suc k) ?v = take_bit k ?v XOR push_bit k (of_bool (bit b k))"
    by (rule bit_word_eqI) (auto simp: bit_simps less_Suc_eq)
  have high: "(crc_shift ^^ k) (push_bit k (of_bool (bit b k))) = of_bool (bit b k)"
  proof -
    have "(crc_shift ^^ k) (push_bit k (of_bool (bit b k))) = drop_bit k (push_bit k (of_bool (bit b k)) :: u32)"
      by (rule crc_shifts_high) (simp add: bit_simps)
    also have "\<dots> = of_bool (bit b k)"
      using Suc.prems by (intro bit_word_eqI) (auto simp: bit_simps)
    finally show ?thesis .
  qed
  have "fold crc_bit (map (bit b) [0..<Suc k]) crc = crc_bit (bit b k) ((crc_shift ^^ k) (crc XOR take_bit k ?v))"
    using Suc by simp
  also have "\<dots> = crc_shift ((crc_shift ^^ k) (crc XOR take_bit k ?v) XOR (crc_shift ^^ k) (push_bit k (of_bool (bit b k))))"
    by (simp only: crc_bit_shift high)
  also have "\<dots> = (crc_shift ^^ Suc k) (crc XOR take_bit (Suc k) ?v)"
    by (simp add: crc_shifts_xor [symmetric] split ac_simps)
  finally show ?case .
qed simp

lemma crc_tab_nth: "i < 256 \<Longrightarrow> crc32_gentab ! i = (crc_shift ^^ 8) (of_nat i)"
  unfolding crc32_gentab_def crc_entry_def by (simp del: upt_rec_numeral)

lemma crc32_byte_shifts: "crc32_byte crc32_gentab b crc = (crc_shift ^^ 8) (crc XOR ucast b)"
proof -
  let ?y = "crc XOR ucast b" let ?z = "?y AND 0xFF"
  have m: "(0xFF :: u32) = mask 8" "(0x00FFFFFF :: u32) = mask 24" by (simp_all add: mask_eq_exp_minus_1)
  have "unat ?z < 256" using word_and_le1 [of ?y "0xFF"] by (simp add: word_le_nat_alt)
  then have tab: "crc32_gentab ! unat ?z = (crc_shift ^^ 8) ?z" by (simp add: crc_tab_nth)
  have "?y = (?y AND NOT (mask 8)) XOR (?y AND mask 8)" by (rule bit_word_eqI) (auto simp: bit_simps)
  then have "(crc_shift ^^ 8) ?y = (crc_shift ^^ 8) (?y AND NOT (mask 8)) XOR (crc_shift ^^ 8) (?y AND mask 8)"
    by (metis crc_shifts_xor)
  also have "(crc_shift ^^ 8) (?y AND NOT (mask 8)) = drop_bit 8 (?y AND NOT (mask 8))"
    by (rule crc_shifts_high) (simp add: bit_simps)
  also have "\<dots> = drop_bit 8 crc AND mask 24"
    by (rule bit_word_eqI) (auto simp: bit_simps dest: bit_imp_le_length)
  finally show ?thesis by (simp only: crc32_byte_def tab [unfolded m] m)
qed

lemma crc32_fold_bitwise:
  "fold (crc32_byte crc32_gentab) block crc = fold crc_bit (concat (map (\<lambda>b. map (bit b) [0..<8]) block)) crc"
proof (induction block arbitrary: crc)
  case (Cons b block)
  have "take_bit 8 (ucast b :: u32) = ucast b" by (rule bit_word_eqI) (auto simp: bit_simps dest: bit_imp_le_length)
  then show ?case
    using Cons crc_bits_shifts [of 8 b crc] by (simp add: crc32_byte_shifts del: upt_rec_numeral)
qed simp

definition crc_ready :: "crc_state \<Rightarrow> bool" where
  "crc_ready s \<longleftrightarrow> (crc_tab_generated s \<longrightarrow> crc_tab s = crc32_gentab)"

lemma crc32_ready: "crc_ready s \<Longrightarrow> crc_ready (snd (crc32 block s))"
  by (simp add: crc_ready_def crc32_def Let_def)

lemma crc32_value: "crc_ready s \<Longrightarrow> fst (crc32 block s) = crc32_bitwise block"
proof -
  have m: "(0xFFFFFFFF :: u32) = - 1" "x XOR - 1 = NOT x" for x :: u32 by simp_all
  assume "crc_ready s"
  then show ?thesis
    by (cases "crc_tab_generated s") (simp_all add: crc_ready_def crc32_def crc32_bitwise_def crc32_fold_bitwise m del: upt_rec_numeral)
qed

subsection \<open>Errors the checksum detects\<close>

lemma xor_zero: "x XOR y = 0 \<longleftrightarrow> x = y" for x :: u32
proof
  assume z: "x XOR y = 0"
  have "x XOR (x XOR y) = y" by (simp only: xor.assoc [symmetric] xor_self_eq xor.left_neutral)
  then show "x = y" unfolding z by simp
qed simp

lemma xor_left_inj: "c XOR x = c XOR y \<longleftrightarrow> x = y" for x :: u32
proof
  assume "c XOR x = c XOR y"
  then have "c XOR (c XOR x) = c XOR (c XOR y)" by simp
  then show "x = y" by (simp only: xor.assoc [symmetric] xor_self_eq xor.left_neutral)
qed simp

lemma crc_shift_zero: "crc_shift z = 0 \<Longrightarrow> z = 0"
proof -
  assume z: "crc_shift z = 0"
  show "z = 0"
  proof (cases "odd z")
    case True
    then have "drop_bit 1 z = crc_poly" using z by (simp add: crc_shift_alt xor_zero)
    then have "bit (drop_bit 1 z) 31" by simp
    then have "bit z 32" by (simp only: bit_drop_bit_eq comp_apply) simp
    then show ?thesis by (auto dest: bit_imp_le_length)
  next
    case False
    then have d: "drop_bit 1 z = 0" using z by (simp add: crc_shift_alt)
    show ?thesis
    proof (rule bit_word_eqI)
      fix n
      show "bit z n = bit 0 n"
      proof (cases n)
        case 0
        then show ?thesis using False by (simp add: bit_0)
      next
        case (Suc m)
        have "\<not> bit (drop_bit 1 z) m" using d by simp
        then show ?thesis using Suc by (simp add: bit_drop_bit_eq)
      qed
    qed
  qed
qed

lemma crc_shift_inj: "crc_shift x = crc_shift y \<longleftrightarrow> x = y"
proof
  assume "crc_shift x = crc_shift y"
  then have "crc_shift (x XOR y) = 0" by (simp add: crc_shift_xor)
  then have "x XOR y = 0" by (rule crc_shift_zero)
  then show "x = y" by (simp add: xor_zero)
qed simp

lemma crc_shifts_inj: "(crc_shift ^^ k) x = (crc_shift ^^ k) y \<longleftrightarrow> x = y"
  by (induction k) (simp_all add: crc_shift_inj)

lemma crc_bit_inj: "crc_bit b x = crc_bit b y \<longleftrightarrow> x = y"
proof -
  have "x XOR of_bool b = y XOR of_bool b \<longleftrightarrow> x = y" by (simp only: xor.commute [of _ "of_bool b"] xor_left_inj)
  then show ?thesis by (simp only: crc_bit_shift crc_shift_inj)
qed

lemma fold_crc_bit_inj: "fold crc_bit bs x = fold crc_bit bs y \<longleftrightarrow> x = y"
  by (induction bs arbitrary: x y) (simp_all add: crc_bit_inj)

lemma byte_step_inj: "(crc_shift ^^ 8) (c XOR ucast (b :: u8)) = (crc_shift ^^ 8) (c XOR ucast b') \<longleftrightarrow> b = b'"
proof -
  have "(ucast b :: u32) = ucast b' \<longleftrightarrow> b = b'"
  proof
    assume eq: "(ucast b :: u32) = ucast b'"
    have at: "bit (ucast x :: u32) n \<longleftrightarrow> bit x n" if "n < 8" for x :: u8 and n
      using that by (simp add: bit_simps)
    show "b = b'"
    proof (rule bit_word_eqI)
      fix n
      assume "n < LENGTH(8)"
      then have n: "n < 8" by simp
      show "bit b n = bit b' n" using at [OF n, of b] at [OF n, of b'] by (simp only: eq)
    qed
  qed simp
  then show ?thesis by (simp only: crc_shifts_inj xor_left_inj)
qed

lemma crc32_bitwise_update:
  assumes "i < length block" and "b \<noteq> block ! i"
  shows "crc32_bitwise (block[i := b]) \<noteq> crc32_bitwise block"
proof -
  let ?f = "\<lambda>bs. concat (map (\<lambda>b. map (bit b) [0..<8]) bs)"
  let ?c = "fold crc_bit (?f (take i block)) (- 1)"
  have byte: "fold crc_bit (map (bit x) [0..<8]) ?c = (crc_shift ^^ 8) (?c XOR ucast x)" for x :: u8
    using crc32_fold_bitwise [of "[x]" ?c] by (simp add: crc32_byte_shifts del: upt_rec_numeral)
  have parts: "fold crc_bit (?f (take i block @ x # drop (Suc i) block)) (- 1) =
      fold crc_bit (?f (drop (Suc i) block)) ((crc_shift ^^ 8) (?c XOR ucast x))" for x
    by (simp add: byte del: upt_rec_numeral)
  have b1: "block = take i block @ block ! i # drop (Suc i) block" using assms(1) by (rule id_take_nth_drop)
  have b2: "block[i := b] = take i block @ b # drop (Suc i) block" using assms(1) by (rule upd_conv_take_nth_drop)
  let ?g = "\<lambda>bs. fold crc_bit (?f bs) (- 1)"
  note e = trans [OF arg_cong [OF b1, of ?g] parts] and e' = trans [OF arg_cong [OF b2, of ?g] parts]
  have "?g (block[i := b]) \<noteq> ?g block"
    unfolding e e' fold_crc_bit_inj byte_step_inj by (rule assms(2))
  then show ?thesis by (simp add: crc32_bitwise_def del: upt_rec_numeral)
qed

subsection \<open>The checksum theorems\<close>

text \<open>
  C39: The table-driven checksum of any block equals the bit-by-bit CRC-32 of its bytes, whether the table has
  been generated by an earlier call or is generated by this one, and the table is right for the next call.
\<close>

theorem crc32_table_equivalence:
  assumes "crc_ready s"
  shows "fst (crc32 block s) = crc32_bitwise block \<and> crc_ready (snd (crc32 block s))"
  using crc32_value [OF assms] crc32_ready [OF assms] by blast

text \<open>The check value of the CRC-32 of the digits 1 to 9.\<close>

lemma crc32_bitwise_check: "crc32_bitwise [0x31, 0x32, 0x33, 0x34, 0x35, 0x36, 0x37, 0x38, 0x39] = 0xCBF43926"
  by code_simp

theorem crc32_table_equivalence_witness:
  "fst (crc32 [0x31, 0x32, 0x33, 0x34, 0x35, 0x36, 0x37, 0x38, 0x39] \<lparr>crc_tab = replicate 256 0, crc_tab_generated = False\<rparr>) = 0xCBF43926"
proof -
  have "crc_ready \<lparr>crc_tab = replicate 256 0, crc_tab_generated = False\<rparr>" by (simp add: crc_ready_def)
  then show ?thesis
    using crc32_table_equivalence crc32_bitwise_check by metis
qed

end
