(* ===== verification/Heavy.thy ===== *)
theory Heavy
  imports StepperLife HeavyCodec
begin

text \<open>
  The motor control application (\<^verbatim>\<open>src/firmware/projects/heavy/make.c\<close>). Up to two controller boards, of
  which the prime one is the master, tell a motor board to move stepper 1 and expect an acknowledgement; a
  monitor board shifts every packet out bit by bit. All of them broadcast UDP datagrams of two words and a
  CRC-32. The state keeps the static variables of the file, the datagrams sent, whether the network accepts a
  datagram, and whether the receive buffer is still allocated. \<^verbatim>\<open>Malloc\<close> is taken to succeed. The contents of a
  fresh buffer are unspecified: \<open>garbage\<close>. One pass of each task loop is an operation. \<^verbatim>\<open>TaskDelete\<close> is called with
  the address of a function where a task handle is expected, which has no defined result (\<open>None\<close>).
\<close>

subsection \<open>State\<close>

record heavy_state = stepper_state +
  waiting_for_response :: int
  current_direction :: int
  error_count :: int
  error_noresponse_count :: int
  motorZeroPoint :: int
  C0Board :: int
  C1Board :: int
  MotorBoard :: int
  MonitorBoard :: int
  crc :: crc_state
  garbage :: "nat \<Rightarrow> u32"
  link_up :: bool
  datagrams :: "u8 list list"
  packet_live :: bool
  echoData :: "u8 list"
  echoLengthInBytes :: int
  echoBitPointer :: int
  echoBytePointer :: int
  echoRunning :: int

abbreviation (input) MC_STATUS :: int where "MC_STATUS \<equiv> 0"
abbreviation (input) MOVE_FORWARD :: int where "MOVE_FORWARD \<equiv> 1"
abbreviation (input) MOVE_BACKWARD :: int where "MOVE_BACKWARD \<equiv> 2"
abbreviation (input) STEP_SIZE :: int where "STEP_SIZE \<equiv> 4"
abbreviation (input) echoTimer :: nat where "echoTimer \<equiv> 8"
abbreviation (input) CB_echo :: nat where "CB_echo \<equiv> 8"

subsection \<open>Which board this is\<close>

definition setC0Board :: "int \<Rightarrow> 'a heavy_state_scheme \<Rightarrow> 'a heavy_state_scheme" where
  "setC0Board i s = s\<lparr>C0Board := i\<rparr>"

definition setC1Board :: "int \<Rightarrow> 'a heavy_state_scheme \<Rightarrow> 'a heavy_state_scheme" where
  "setC1Board i s = s\<lparr>C1Board := i\<rparr>"

definition setMotorBoard :: "int \<Rightarrow> 'a heavy_state_scheme \<Rightarrow> 'a heavy_state_scheme" where
  "setMotorBoard i s = s\<lparr>MotorBoard := i\<rparr>"

definition setMonitorBoard :: "int \<Rightarrow> 'a heavy_state_scheme \<Rightarrow> 'a heavy_state_scheme" where
  "setMonitorBoard i s = s\<lparr>MonitorBoard := i\<rparr>"

definition isC0Board :: "'a heavy_state_scheme \<Rightarrow> int" where
  "isC0Board s = C0Board s"

definition isC1Board :: "'a heavy_state_scheme \<Rightarrow> int" where
  "isC1Board s = C1Board s"

definition isMotorBoard :: "'a heavy_state_scheme \<Rightarrow> int" where
  "isMotorBoard s = MotorBoard s"

definition isMonitorBoard :: "'a heavy_state_scheme \<Rightarrow> int" where
  "isMonitorBoard s = MonitorBoard s"

definition isMaster :: "'a heavy_state_scheme \<Rightarrow> bool" where
  "isMaster s \<longleftrightarrow> isC0Board s OR isC1Board s \<noteq> 0 \<and> isPrime s \<noteq> 0"

subsection \<open>Sending\<close>

definition heavy_packet :: "u32 list \<Rightarrow> nat \<Rightarrow> 'a heavy_state_scheme \<Rightarrow> u8 list \<times> 'a heavy_state_scheme" where
  "heavy_packet message len s =
     (let localMessageInt = take len message;
          localMessage = int2char localMessageInt len;
          (c, t) = crc32 localMessage (crc s);
          c = (if getFduMode s = 1 then c + 1 else c)
      in (int2char (localMessageInt @ [c]) (len + 1), s\<lparr>crc := t\<rparr>))"

definition sendDataMessage :: "u32 list \<Rightarrow> nat \<Rightarrow> 'a heavy_state_scheme \<Rightarrow> int \<times> 'a heavy_state_scheme" where
  "sendDataMessage message len s =
     (let (localMessagewithcrc, s) = heavy_packet message len s
      in if isPrime s \<noteq> 0 \<or> isMotorBoard s \<noteq> 0 then
           (if link_up s then (of_bool ((len + 1) * 4 > 0), s\<lparr>datagrams := datagrams s @ [localMessagewithcrc]\<rparr>)
            else (0, s))
         else (0, s))"

definition tellMotorBoard :: "int \<Rightarrow> int \<Rightarrow> 'a heavy_state_scheme \<Rightarrow> 'a heavy_state_scheme" where
  "tellMotorBoard cmd magnitude s =
     (let d0 = 0x00200000 OR push_bit 25 (word_of_int (isC1Board s)) OR push_bit 24 (word_of_int (isC0Board s)) OR
               push_bit 16 (word_of_int cmd);
          s = (if isMaster s then s\<lparr>waiting_for_response := 1\<rparr> else s)
      in snd (sendDataMessage [d0, word_of_int magnitude] 2 s))"

definition sendStatus :: "u32 \<Rightarrow> 'a heavy_state_scheme \<Rightarrow> 'a heavy_state_scheme" where
  "sendStatus v s =
     (let d0 = 0x00100000 OR push_bit 26 (word_of_int (isMotorBoard s)) OR push_bit 25 (word_of_int (isC1Board s)) OR
               push_bit 24 (word_of_int (isC0Board s))
      in snd (sendDataMessage [d0, v] 2 (s\<lparr>waiting_for_response := 0\<rparr>)))"

definition sendNAck :: "u32 \<Rightarrow> 'a heavy_state_scheme \<Rightarrow> 'a heavy_state_scheme" where
  "sendNAck v s =
     (let d0 = 0x00500000 OR push_bit 26 (word_of_int (isMotorBoard s)) OR push_bit 25 (word_of_int (isC1Board s)) OR
               push_bit 24 (word_of_int (isC0Board s))
      in snd (sendDataMessage [d0, v] 2 (s\<lparr>waiting_for_response := 0\<rparr>)))"

definition tellController :: "int \<Rightarrow> int \<Rightarrow> 'a heavy_state_scheme \<Rightarrow> 'a heavy_state_scheme" where
  "tellController ok v s =
     snd (sendDataMessage [0x04100000 OR push_bit 22 (word_of_int ok), word_of_int v] 2 s)"

definition checkAck :: "u32 \<Rightarrow> int" where
  "checkAck d = uint (drop_bit 22 d AND 0x1)"

definition sendMotorCommandTask :: "'a heavy_state_scheme \<Rightarrow> 'a heavy_state_scheme option" where
  "sendMotorCommandTask s =
     do {
       (analogIn, s) \<leftarrow> AnalogIn_GetValue 1 s;
       let s = s\<lparr>current_direction := if analogIn > 0x20 then MOVE_BACKWARD else MOVE_FORWARD\<rparr>
       in do {
         s \<leftarrow> (if waiting_for_response s \<noteq> 0 then
                 (let s = sendNAck 0xFFFFFFFF s;
                      s = s\<lparr>waiting_for_response := 0, error_noresponse_count := error_noresponse_count s + 1\<rparr>
                  in if error_noresponse_count s > 10 then None else Some s)
               else Some (s\<lparr>error_noresponse_count := 0\<rparr>));
         Some (tellMotorBoard (current_direction s) STEP_SIZE s)
       }
     }"

subsection \<open>The motor board\<close>

definition tell_position :: "int \<Rightarrow> (int, 'a heavy_state_scheme) op" where
  "tell_position ok s = do { (p, s) \<leftarrow> Stepper_GetPosition 1 s; Some (0, tellController ok p s) }"

definition doMotorCommand :: "int \<Rightarrow> int \<Rightarrow> (int, 'a heavy_state_scheme) op" where
  "doMotorCommand csr v s =
     do {
       (p, s) \<leftarrow> Stepper_GetPosition 1 s;
       (r, s) \<leftarrow> Stepper_GetPositionRequested 1 s;
       if p \<noteq> r then do { (_, s) \<leftarrow> tell_position 0 s; Some (- 1, s) }
       else
         let cmd = drop_bit 16 csr AND 0xF in
         if cmd = MC_STATUS then tell_position 1 s
         else if cmd = MOVE_FORWARD then
           do {
             (currPosition, s) \<leftarrow> Stepper_GetPositionRequested 1 s;
             (a, s) \<leftarrow> AnalogIn_GetValue 2 s;
             if a > 0x0100 then
               do { (_, s) \<leftarrow> Stepper_SetPositionRequested 1 (c_int (currPosition + v)) s; tell_position 1 s }
             else tell_position 0 s
           }
         else if cmd = MOVE_BACKWARD then
           do {
             (currPosition, s) \<leftarrow> Stepper_GetPositionRequested 1 s;
             if c_int (motorZeroPoint s - 980) < c_int (currPosition - v) then
               do { (_, s) \<leftarrow> Stepper_SetPositionRequested 1 (c_int (currPosition - v)) s; tell_position 1 s }
             else tell_position 0 s
           }
         else tell_position 0 s
     }"

subsection \<open>The monitor board\<close>

definition receiveMotorCommandEchoIRQCallback :: "'a heavy_state_scheme \<Rightarrow> 'a heavy_state_scheme option" where
  "receiveMotorCommandEchoIRQCallback s =
     (if echoBytePointer s < echoLengthInBytes s then
        do {
          (_, s) \<leftarrow> (if nat (echoBytePointer s) < length (echoData s) then
             DigitalOut_SetValue 1 (uint (drop_bit (nat (7 - echoBitPointer s)) (echoData s ! nat (echoBytePointer s)) AND 0x1)) s
             else None);
          (v, s) \<leftarrow> DigitalOut_GetValue 0 s;
          (_, s) \<leftarrow> DigitalOut_SetValue 0 (of_bool (v = 0)) s;
          Some (if echoBitPointer s = 7 then s\<lparr>echoBitPointer := 0, echoBytePointer := echoBytePointer s + 1\<rparr>
                else s\<lparr>echoBitPointer := echoBitPointer s + 1\<rparr>)
        }
      else do {
        (_, s) \<leftarrow> FastTimer_Cancel echoTimer s;
        Some (s\<lparr>echoRunning := 0\<rparr>)
      })"

partial_function (option) echo_wait :: "'a heavy_state_scheme \<Rightarrow> 'a heavy_state_scheme option" where
  "echo_wait s =
     (if echoRunning s = 0 then Some s
      else do { s \<leftarrow> receiveMotorCommandEchoIRQCallback s; echo_wait s })"

definition echo_start :: "u8 list \<Rightarrow> int \<Rightarrow> 'a heavy_state_scheme \<Rightarrow> 'a heavy_state_scheme" where
  "echo_start bytes len s =
     (let s = s\<lparr>echoData := take (nat len) bytes, echoLengthInBytes := len, echoRunning := 1,
                echoBitPointer := 0, echoBytePointer := 0\<rparr>;
          s = snd (FastTimer_SetActive True s);
          s = FastTimer_InitializeEntry echoTimer (Some CB_echo) 0 10 True s
      in snd (FastTimer_Set echoTimer s))"

definition receiveMotorCommandEcho :: "u8 list \<Rightarrow> int \<Rightarrow> 'a heavy_state_scheme \<Rightarrow> 'a heavy_state_scheme option" where
  "receiveMotorCommandEcho bytes len s = echo_wait (echo_start bytes len s)"

subsection \<open>Receiving\<close>

definition receive_dispatch ::
  "u8 list \<Rightarrow> u32 list \<Rightarrow> u32 \<Rightarrow> 'a heavy_state_scheme \<Rightarrow> 'a heavy_state_scheme option" where
  "receive_dispatch packet incoming calc_crc32 s =
     (let recv_crc32 = incoming ! (length incoming - 1); i0 = incoming ! 0 in
      if isMonitorBoard s \<noteq> 0 then
        do {
          (v, s) \<leftarrow> AppLed_GetState 0 s;
          (_, s) \<leftarrow> AppLed_SetState 0 (of_bool (v = 0)) s;
          receiveMotorCommandEcho packet (int (length packet)) s
        }
      else if isMotorBoard s \<noteq> 0 then
        (if recv_crc32 = calc_crc32 then
           (if i0 AND 0x03000000 \<noteq> 0 \<and> i0 AND 0x00200000 \<noteq> 0 then
              (if length incoming < 2 then None
               else map_option snd (doMotorCommand (sint i0) (sint (incoming ! 1)) s))
            else if i0 AND 0x03000000 \<noteq> 0 \<and> i0 AND 0x00100000 \<noteq> 0 then Some s
            else Some (tellController 0 (- 1) s))
         else Some (tellController 0 (- 1) s))
      else if isMaster s then
        do {
          s \<leftarrow> (if waiting_for_response s \<noteq> 0 then
                  (if checkAck i0 = 0 then
                     (if length incoming < 2 then None
                      else let s = (if incoming ! 1 = 0xFFFFFFFF then s\<lparr>error_count := error_count s + 1\<rparr> else s)
                           in if error_count s \<ge> 10 then None else Some s)
                   else Some (s\<lparr>error_count := 0\<rparr>))
                else Some s);
          Some (s\<lparr>waiting_for_response := 0\<rparr>)
        }
      else Some s)"

text \<open>
  One pass of the receive loop with a datagram of the network. The checksum is taken over \<^verbatim>\<open>size - 4\<close> bytes,
  which for fewer than four bytes is a huge unsigned number. The packet buffer is freed at the end of
  every pass, inside the loop.
\<close>

definition receiveMotorCommandTask :: "u8 list \<Rightarrow> 'a heavy_state_scheme \<Rightarrow> 'a heavy_state_scheme option" where
  "receiveMotorCommandTask datagram s =
     (if \<not> packet_live s then None
      else
        let packet = take 1000 datagram; size = length packet in
        do {
          s \<leftarrow> (if size \<noteq> 0 then
                  (if size < 4 then None
                   else
                     let incomingSize = (size + 3) div 4;
                         incoming = char2int (map (garbage s) [0..<incomingSize]) packet size;
                         (calc_crc32, t) = crc32 (take (size - 4) packet) (crc s)
                     in receive_dispatch packet incoming calc_crc32 (s\<lparr>crc := t\<rparr>))
                else Some s);
          Some (s\<lparr>packet_live := False\<rparr>)
        })"

text \<open>The task allocates its buffer once and throws the first twenty datagrams away.\<close>

definition receiveMotorCommandTask_start :: "'a heavy_state_scheme \<Rightarrow> 'a heavy_state_scheme" where
  "receiveMotorCommandTask_start s = ((\<lambda>s. s\<lparr>waiting_for_response := 0\<rparr>) ^^ 20) (s\<lparr>packet_live := True\<rparr>)"

subsection \<open>Start-up\<close>

text \<open>
  The position is polled every 10 ms while the stepper's timer runs; one timer interrupt is taken between two
  polls. The index sensor is analog input 2, whose readings are given for each turn of the loop.
\<close>

partial_function (option) wait_position :: "int \<Rightarrow> 'a heavy_state_scheme \<Rightarrow> 'a heavy_state_scheme option" where
  "wait_position p s =
     do {
       (q, s) \<leftarrow> Stepper_GetPosition 1 s;
       if q = p then Some s else do { s \<leftarrow> Stepper_IRQCallback 1 s; wait_position p s }
     }"

partial_function (option) calibrate ::
  "(nat \<Rightarrow> nat \<Rightarrow> u32 option) \<Rightarrow> nat \<Rightarrow> int \<Rightarrow> 'a heavy_state_scheme \<Rightarrow> 'a heavy_state_scheme option" where
  "calibrate sensor k currentPos s =
     do {
       (v, s) \<leftarrow> AnalogIn_GetValue 2 (s\<lparr>ADC_input := sensor k\<rparr>);
       if v > 0x0100 then
         do {
           (_, s) \<leftarrow> Stepper_SetPositionRequested 1 currentPos s;
           s \<leftarrow> wait_position currentPos s;
           calibrate sensor (k + 1) (c_int (currentPos + 2)) s
         }
       else Some (s\<lparr>motorZeroPoint := currentPos\<rparr>)
     }"

definition Run :: "(nat \<Rightarrow> nat \<Rightarrow> u32 option) \<Rightarrow> int \<Rightarrow> 'a heavy_state_scheme \<Rightarrow> 'a heavy_state_scheme option" where
  "Run sensor dip s =
     (let s = setC0Board (of_bool (dip AND 3 = 0)) s;
          s = setC1Board (of_bool (dip AND 3 = 1)) s;
          s = setMotorBoard (of_bool (dip AND 3 = 2)) s;
          s = setMonitorBoard (of_bool (dip AND 3 = 3)) s
      in do {
        (_, s) \<leftarrow> AppLed_SetState 0 0 s;
        (_, s) \<leftarrow> AppLed_SetState 1 0 s;
        (_, s) \<leftarrow> AppLed_SetState 2 0 s;
        (_, s) \<leftarrow> AppLed_SetState 3 0 s;
        let s = (if isMonitorBoard s = 0 then
                   (let s = gen_alive (s\<lparr>created_tasks := created_tasks s @ [T_stroke_wdt]\<rparr>)
                    in s\<lparr>created_tasks := created_tasks s @ [T_error_injector]\<rparr>)
                 else s)
        in do {
          s \<leftarrow> (if isMotorBoard s \<noteq> 0 then
                  do { (_, s) \<leftarrow> Stepper_SetActive 1 1 s; calibrate sensor 0 10 s }
                else Some s);
          let s = s\<lparr>created_tasks := created_tasks s @ [T_motorreceive]\<rparr>
          in Some (if isMotorBoard s = 0 \<and> isMonitorBoard s = 0
                   then s\<lparr>created_tasks := created_tasks s @ [T_motorsender]\<rparr> else s)
        }
      })"

end
