(* ===== verification/HeavyLink.thy ===== *)
theory HeavyLink
  imports Heavy
begin

text \<open>
  The motor control application at work: what a message looks like on the network and when a receiver accepts
  it, a move command from the master's task through the motor board and back, the answer to a damaged datagram,
  and the errors of the protocol.
\<close>

subsection \<open>Messages\<close>

lemma heavy_packet_bytes:
  assumes "n \<le> length ws" and "crc_ready (crc s)"
  shows "heavy_packet ws n s =
    (int2char (take n ws @ [crc32_bitwise (int2char (take n ws) n) + (if fdu_mode s = 1 then 1 else 0)]) (n + 1),
     s\<lparr>crc := snd (crc32 (int2char (take n ws) n) (crc s))\<rparr>)"
  using crc32_value [OF assms(2)] by (simp add: heavy_packet_def getFduMode_def Let_def split_def)

lemma int2char_prefix: "n \<le> length ws \<Longrightarrow> take (4 * n) (int2char (ws @ cs) m) = int2char ws n" if "n \<le> m"
proof -
  assume n: "n \<le> length ws"
  have "int2char (ws @ cs) m = int2char (ws @ cs) n @ concat (map (\<lambda>i. dword_bytes ((ws @ cs) ! i)) [n..<m])"
    using that upt_add_eq_append [of 0 n "m - n"] by (simp add: int2char_def)
  then have "take (4 * n) (int2char (ws @ cs) m) = int2char (ws @ cs) n" by simp
  also have "\<dots> = int2char ws n"
    using n by (auto simp: int2char_def nth_append intro!: arg_cong [where f = concat])
  finally show ?thesis .
qed

lemma heavy_packet_decoded:
  assumes "n \<le> length ws" and "crc_ready (crc s)"
  defines "dg \<equiv> fst (heavy_packet ws n s)"
  shows "length dg = 4 * (n + 1)" "take (4 * n) dg = int2char (take n ws) n"
    "char2int (map g [0..<n + 1]) dg (4 * (n + 1)) =
      take n ws @ [crc32_bitwise (int2char (take n ws) n) + (if fdu_mode s = 1 then 1 else 0)]"
proof -
  let ?m = "take n ws @ [crc32_bitwise (int2char (take n ws) n) + (if fdu_mode s = 1 then 1 else 0)]"
  have dg: "dg = int2char ?m (n + 1)" by (simp add: dg_def heavy_packet_bytes [OF assms(1,2)])
  have len: "length ?m = n + 1" using assms(1) by simp
  show "length dg = 4 * (n + 1)" by (simp only: dg int2char_length)
  show "take (4 * n) dg = int2char (take n ws) n"
    unfolding dg using assms(1) by (intro int2char_prefix) simp_all
  show "char2int (map g [0..<n + 1]) dg (4 * (n + 1)) = ?m"
    using char2int_int2char [of "map g [0..<n + 1]" ?m] len by (simp only: dg length_map length_upt)
qed

subsection \<open>Frames\<close>

text \<open>The part of the state the application adds, and the two fault flags it reads.\<close>

definition heavy_view :: "'a heavy_state_scheme \<Rightarrow> 'a heavy_state_ext \<times> int \<times> int" where
  "heavy_view s = (stepper_state.more s, ISPRIME s, fdu_mode s)"

lemma heavy_view_parts [simp]:
  "heavy_view (upd_entry a f s) = heavy_view s" "heavy_view (s\<lparr>FT_first := x\<rparr>) = heavy_view s"
  "heavy_view (s\<lparr>FT_previous := x\<rparr>) = heavy_view s" "heavy_view (s\<lparr>FT_nextTime := y\<rparr>) = heavy_view s"
  "heavy_view (FastTimer_SetTimeTarget t s) = heavy_view s" "heavy_view (FastTimer_Enable s) = heavy_view s"
  "heavy_view (snd (FastTimer_SetActive b s)) = heavy_view s" "heavy_view (set_pointer i p s) = heavy_view s"
  by (simp_all add: heavy_view_def upd_entry_def FastTimer_SetTimeTarget_def FastTimer_Enable_def
      FastTimer_SetActive_def FastTimer_Init_def Let_def set_pointer_def)

lemma heavy_view_start [simp]:
  "heavy_view (FastTimer_start a s) = heavy_view s" "heavy_view (FastTimer_link a s) = heavy_view s"
  by (simp_all add: FastTimer_start_def FastTimer_link_def Let_def)

lemma heavy_view_Set [simp]: "heavy_view (snd (FastTimer_Set a s)) = heavy_view s"
  by (simp add: FastTimer_Set_def Let_def)

lemma heavy_view_eq:
  assumes "heavy_view t = heavy_view s"
  shows "crc t = crc s" "datagrams t = datagrams s" "link_up t = link_up s" "MotorBoard t = MotorBoard s"
    "MonitorBoard t = MonitorBoard s" "packet_live t = packet_live s" "ISPRIME t = ISPRIME s" "fdu_mode t = fdu_mode s" "motorZeroPoint t = motorZeroPoint s"
  using assms by (cases t, cases s, simp add: heavy_view_def)+

subsection \<open>A motor board answers\<close>

definition motor_online :: "'a heavy_state_scheme \<Rightarrow> bool" where
  "motor_online s \<longleftrightarrow> isMotorBoard s \<noteq> 0 \<and> isMonitorBoard s = 0 \<and> link_up s \<and> crc_ready (crc s)"

definition reply_bytes :: "int \<Rightarrow> int \<Rightarrow> 'a heavy_state_scheme \<Rightarrow> u8 list" where
  "reply_bytes ok v s = fst (heavy_packet [0x04100000 OR push_bit 22 (word_of_int ok), word_of_int v] 2 s)"

lemma tellController_reply:
  assumes "motor_online s"
  shows "datagrams (tellController ok v s) = datagrams s @ [reply_bytes ok v s]"
    and "Stepper (tellController ok v s) = Stepper s" and "motor_online (tellController ok v s)"
    and "packet_live (tellController ok v s) = packet_live s"
  using assms crc32_ready [of "crc s"]
  by (simp_all add: tellController_def sendDataMessage_def reply_bytes_def heavy_packet_bytes motor_online_def
      isMotorBoard_def isMonitorBoard_def split_def Let_def)

lemma reply_words:
  assumes "crc_ready (crc s)"
  shows "length (reply_bytes ok v s) = 12"
    "take 2 (char2int (map g [0..<3]) (reply_bytes ok v s) 12) = [0x04100000 OR push_bit 22 (word_of_int ok), word_of_int v]"
proof -
  let ?ws = "[0x04100000 OR push_bit 22 (word_of_int ok), word_of_int v :: u32]"
  show "length (reply_bytes ok v s) = 12"
    using heavy_packet_decoded(1) [of 2 ?ws s] assms by (simp add: reply_bytes_def)
  have "char2int (map g [0..<3]) (reply_bytes ok v s) 12 =
      ?ws @ [crc32_bitwise (int2char ?ws 2) + (if fdu_mode s = 1 then 1 else 0)]"
    using heavy_packet_decoded(3) [of 2 ?ws s g] assms by (simp add: reply_bytes_def del: upt_rec_numeral)
  then show "take 2 (char2int (map g [0..<3]) (reply_bytes ok v s) 12) = ?ws" by simp
qed

subsection \<open>Damaged datagrams\<close>

lemma char2int_last:
  assumes "length ws = n + 1"
  shows "char2int ws bs (4 * (n + 1)) ! n = push_bit 24 (ucast (bs ! (4 * n))) OR push_bit 16 (ucast (bs ! (4 * n + 1))) OR
    push_bit 8 (ucast (bs ! (4 * n + 2))) OR ucast (bs ! (4 * n + 3))"
    and "length (char2int ws bs (4 * (n + 1))) = n + 1"
  using char2int_words [of "n + 1" ws "\<lambda>k. push_bit 24 (ucast (bs ! (4 * k))) OR push_bit 16 (ucast (bs ! (4 * k + 1))) OR
    push_bit 8 (ucast (bs ! (4 * k + 2))) OR ucast (bs ! (4 * k + 3))" bs] assms
  by (simp_all add: nth_append del: upt_Suc)

lemma damaged_mismatch:
  assumes "n \<le> length ws" and "crc_ready (crc m)" and "fdu_mode m \<noteq> 1" and "crc_ready r" and "i < 4 * n"
  defines "dg \<equiv> fst (heavy_packet ws n m)"
  assumes "b \<noteq> dg ! i"
  shows "char2int (map g [0..<n + 1]) (dg[i := b]) (4 * (n + 1)) ! n \<noteq> fst (crc32 (take (4 * n) (dg[i := b])) r)"
proof -
  note d = heavy_packet_decoded [OF assms(1,2), folded dg_def]
  let ?body = "int2char (take n ws) n"
  have "char2int (map g [0..<n + 1]) (dg[i := b]) (4 * (n + 1)) ! n = char2int (map g [0..<n + 1]) dg (4 * (n + 1)) ! n"
    using char2int_last(1) [of "map g [0..<n + 1]" n] assms(5) by simp
  also have "\<dots> = crc32_bitwise ?body"
    using d(3) [of g] assms(1,3) by (simp add: nth_append del: upt_Suc)
  also have "\<dots> \<noteq> crc32_bitwise (?body[i := b])"
    using crc32_bitwise_update [of i ?body b] assms(5,7) d(2) by (metis int2char_length nth_take)
  also have "?body[i := b] = take (4 * n) (dg[i := b])" using d(2) by (simp add: take_update_swap)
  finally show ?thesis using crc32_value [OF assms(4)] by metis
qed

lemma motor_receives:
  assumes "motor_online s" and "packet_live s" and "length dg = 4 * (n + 1)" and "n \<le> 249"
    and bad: "char2int (map (garbage s) [0..<n + 1]) dg (4 * (n + 1)) ! n \<noteq> fst (crc32 (take (4 * n) dg) (crc s))"
  shows "receiveMotorCommandTask dg s =
    Some ((tellController 0 (- 1) (s\<lparr>crc := snd (crc32 (take (4 * n) dg) (crc s))\<rparr>))\<lparr>packet_live := False\<rparr>)"
proof -
  have "take 1000 dg = dg" "(4 * n + 7) div 4 = n + 1" "dg \<noteq> []" using assms(3,4) by auto
  moreover have "length (char2int (map (garbage s) [0..<n + 1]) dg (4 * (n + 1))) = n + 1"
    by (rule char2int_last(2)) simp
  ultimately show ?thesis
    using assms by (simp add: receiveMotorCommandTask_def receive_dispatch_def motor_online_def
        isMotorBoard_def isMonitorBoard_def split_def Let_def del: upt_Suc)
qed

subsection \<open>A move command\<close>

lemma word_of_int_2_31:
  assumes "0 \<le> n" and "n < 2 ^ 31"
  shows "sint (word_of_int n :: u32) = n"
  using assms by (simp add: signed_of_int signed_take_bit_int_eq_self)

lemma doMotor_backward:
  assumes s: "live 1 sc s" and sc: "\<not> SC_timerRunning sc" "SC_speed sc \<noteq> 0" "SC_positionRequested sc = SC_position sc"
    and v: "c_int (SC_position sc - v) \<noteq> SC_position sc" "c_int (motorZeroPoint s - 980) < c_int (SC_position sc - v)"
    and cmd: "drop_bit 16 csr AND 0xF = (2 :: int)"
  shows "\<exists>t. doMotorCommand csr v s = Some (0, tellController 1 (SC_position sc) t) \<and> heavy_view t = heavy_view s \<and>
    live 1 (sc\<lparr>SC_positionRequested := c_int (SC_position sc - v), SC_timerRunning := True\<rparr>) t"
proof -
  let ?p = "c_int (SC_position sc - v)"
  let ?sc = "sc\<lparr>SC_positionRequested := ?p, SC_timerRunning := True\<rparr>"
  let ?u = "set_pointer 1 (Live ?sc) (set_pointer 1 (Live (sc\<lparr>SC_positionRequested := ?p\<rparr>)) s)"
  let ?t = "snd (FastTimer_Set (fastTimerEntry 1) ?u)"
  have r: "Stepper_SetPositionRequested 1 ?p s = Some (CONTROLLER_OK, ?t)"
    using request_eq(1) [OF s sc(1,2), of ?p] v(1) by simp
  have t: "live 1 ?sc ?t" using request_eq(2) [OF s sc(1,2), of ?p] v(1) live_cong [of ?t ?u] by simp
  have get: "Stepper_GetPosition 1 s = Some (SC_position sc, s)" "Stepper_GetPositionRequested 1 s = Some (SC_position sc, s)"
    "Stepper_GetPosition 1 ?t = Some (SC_position sc, ?t)"
    using sc(3) by (simp_all add: Stepper_GetPosition_def Stepper_GetPositionRequested_def with_stepper_live [OF s] with_stepper_live [OF t])
  have "doMotorCommand csr v s = Some (0, tellController 1 (SC_position sc) ?t)"
    using cmd v(2) r get by (simp add: doMotorCommand_def tell_position_def Let_def)
  then show ?thesis using t by (intro exI [of _ ?t]) simp
qed

definition master_online :: "'a heavy_state_scheme \<Rightarrow> bool" where
  "master_online s \<longleftrightarrow> (isC0Board s, isC1Board s) \<in> {(1, 0), (0, 1)} \<and> isPrime s \<noteq> 0 \<and> isMotorBoard s = 0 \<and>
     isMonitorBoard s = 0 \<and> link_up s \<and> crc_ready (crc s)"

definition command_header :: "int \<Rightarrow> 'a heavy_state_scheme \<Rightarrow> u32" where
  "command_header cmd s = 0x00200000 OR push_bit 25 (word_of_int (isC1Board s)) OR push_bit 24 (word_of_int (isC0Board s)) OR
     push_bit 16 (word_of_int cmd)"

lemma isMaster_online: "master_online s \<Longrightarrow> isMaster s"
  by (auto simp: master_online_def isMaster_def)

lemma tellMotorBoard_sends:
  assumes "master_online s"
  shows "datagrams (tellMotorBoard cmd v s) = datagrams s @ [fst (heavy_packet [command_header cmd s, word_of_int v] 2 s)]"
    and "waiting_for_response (tellMotorBoard cmd v s) = 1" and "master_online (tellMotorBoard cmd v s)"
    and "packet_live (tellMotorBoard cmd v s) = packet_live s"
  using assms crc32_ready [of "crc s"] isMaster_online [OF assms]
  by (auto simp: tellMotorBoard_def sendDataMessage_def heavy_packet_bytes master_online_def isMotorBoard_def isMonitorBoard_def
      isC0Board_def isC1Board_def isPrime_def getFduMode_def command_header_def split_def Let_def)

lemma command_header_bits:
  assumes "master_online s"
  shows "command_header 2 s AND 0x03000000 \<noteq> 0" "command_header 2 s AND 0x00200000 \<noteq> 0"
    "drop_bit 16 (sint (command_header 2 s)) AND 0xF = 2"
proof -
  have "command_header 2 s \<in> {0x01220000, 0x02220000}"
    using assms by (auto simp: master_online_def command_header_def)
  then show "command_header 2 s AND 0x03000000 \<noteq> 0" "command_header 2 s AND 0x00200000 \<noteq> 0"
    "drop_bit 16 (sint (command_header 2 s)) AND 0xF = 2" by auto
qed

lemma motor_accepts:
  assumes "motor_online s" and "packet_live s" and "crc_ready (crc m)" and "fdu_mode m \<noteq> 1"
    and "a AND 0x03000000 \<noteq> 0" and "a AND 0x00200000 \<noteq> 0"
  shows "\<exists>c. crc_ready c \<and> receiveMotorCommandTask (fst (heavy_packet [a, b] 2 m)) s =
    map_option (\<lambda>(_, s). s\<lparr>packet_live := False\<rparr>) (doMotorCommand (sint a) (sint b) (s\<lparr>crc := c\<rparr>))"
proof -
  let ?dg = "fst (heavy_packet [a, b] 2 m)"
  let ?c = "snd (crc32 (take 8 ?dg) (crc s))"
  have r: "crc_ready (crc s)" using assms(1) by (simp add: motor_online_def)
  have l: "length ?dg = 12" using heavy_packet_decoded(1) [of 2 "[a, b]" m] assms(3) by simp
  have t: "take 8 ?dg = int2char [a, b] 2" using heavy_packet_decoded(2) [of 2 "[a, b]" m] assms(3) by simp
  have "char2int (map (garbage s) [0..<3]) ?dg 12 = [a, b, crc32_bitwise (int2char [a, b] 2)]"
    using heavy_packet_decoded(3) [of 2 "[a, b]" m "garbage s"] assms(3,4) by (simp del: upt_rec_numeral)
  moreover have "take 1000 ?dg = ?dg" "?dg \<noteq> []" using l by auto
  moreover have "fst (crc32 (take 8 ?dg) (crc s)) = crc32_bitwise (int2char [a, b] 2)"
    using crc32_value [OF r] t by simp
  ultimately have "receiveMotorCommandTask ?dg s =
    map_option (\<lambda>(_, s). s\<lparr>packet_live := False\<rparr>) (doMotorCommand (sint a) (sint b) (s\<lparr>crc := ?c\<rparr>))"
    using assms l by (simp add: receiveMotorCommandTask_def receive_dispatch_def motor_online_def
        isMotorBoard_def isMonitorBoard_def split_def Let_def map_conv_bind_option comp_def del: upt_rec_numeral)
  then show ?thesis using crc32_ready [OF r] by blast
qed

lemma master_takes_ack:
  assumes "master_online m" and "packet_live m" and "waiting_for_response m \<noteq> 0" and "checkAck h = 1" and "crc_ready (crc s)"
  shows "\<exists>t. receiveMotorCommandTask (fst (heavy_packet [h, v] 2 s)) m = Some t \<and> waiting_for_response t = 0 \<and> error_count t = 0"
proof -
  let ?dg = "fst (heavy_packet [h, v] 2 s)"
  have l: "length ?dg = 12" using heavy_packet_decoded(1) [of 2 "[h, v]" s] assms(5) by simp
  let ?in = "char2int (map (garbage m) [0..<3]) ?dg 12"
  have "?in = [h, v] @ [crc32_bitwise (int2char [h, v] 2) + (if fdu_mode s = 1 then 1 else 0)]"
    using heavy_packet_decoded(3) [of 2 "[h, v]" s "garbage m"] assms(5) by (simp del: upt_rec_numeral)
  then have i0: "?in ! 0 = h" by simp
  have "take 1000 ?dg = ?dg" "?dg \<noteq> []" using l by auto
  moreover have "isMaster (m\<lparr>crc := c\<rparr>)" for c
    using isMaster_online [OF assms(1)] by (simp add: isMaster_def isC0Board_def isC1Board_def isPrime_def)
  ultimately show ?thesis
    using assms l i0 by (simp add: receiveMotorCommandTask_def receive_dispatch_def master_online_def
        isMotorBoard_def isMonitorBoard_def split_def Let_def del: upt_rec_numeral)
qed

subsection \<open>Properties\<close>

text \<open>
  What a receiver makes of a message. The datagram of \<open>n\<close> words is \<open>n + 1\<close> words long; converted back
  it holds the words that were sent, and its last word is the checksum a receiver computes over the bytes before
  it exactly when the sender's error injector is not in mode 1.
\<close>

theorem heavy_message_roundtrip:
  assumes "n \<le> length ws" and "crc_ready (crc s)" and "crc_ready r"
  shows "length (fst (heavy_packet ws n s)) = 4 * (n + 1) \<and>
    (let dg = fst (heavy_packet ws n s); incoming = char2int (map g [0..<n + 1]) dg (length dg)
     in butlast incoming = take n ws \<and>
        (last incoming = fst (crc32 (take (length dg - 4) dg) r) \<longleftrightarrow> getFduMode s \<noteq> 1))"
  using heavy_packet_decoded(1,2) [OF assms(1,2)] heavy_packet_decoded(3) [OF assms(1,2), of g] crc32_value [OF assms(3)]
  by (simp add: Let_def getFduMode_def del: upt_Suc)

text \<open>
  C40: A damaged datagram moves nothing. When one byte of the words of a message is changed on the way, the
  motor board finds the checksum wrong, keeps its motors as they are and answers with a refusal:
  the header \<open>0x04100000\<close>, whose acknowledge bit is clear, and the value -1.
\<close>

theorem heavy_damaged_refused:
  assumes "motor_online s" and "packet_live s" and "crc_ready (crc m)" and "fdu_mode m \<noteq> 1"
    and "n \<le> length ws" and "n \<le> 249" and "i < 4 * n" and "b \<noteq> fst (heavy_packet ws n m) ! i"
  shows "\<exists>t reply. receiveMotorCommandTask ((fst (heavy_packet ws n m))[i := b]) s = Some t \<and>
    Stepper t = Stepper s \<and> datagrams t = datagrams s @ [reply] \<and> length reply = 12 \<and>
    take 2 (char2int (map g [0..<3]) reply 12) = [0x04100000, 0xFFFFFFFF] \<and> checkAck 0x04100000 = 0"
proof -
  let ?dg = "(fst (heavy_packet ws n m))[i := b]"
  let ?s = "s\<lparr>crc := snd (crc32 (take (4 * n) ?dg) (crc s))\<rparr>"
  have r: "crc_ready (crc s)" using assms(1) by (simp add: motor_online_def)
  have on: "motor_online ?s"
    using assms(1) crc32_ready by (simp add: motor_online_def isMotorBoard_def isMonitorBoard_def)
  have "length ?dg = 4 * (n + 1)" using heavy_packet_decoded(1) [OF assms(5,3)] by simp
  note run = motor_receives [OF assms(1,2) this assms(6) damaged_mismatch [OF assms(5,3,4) r assms(7,8)]]
  show ?thesis
    using run tellController_reply [OF on, of 0 "- 1"] reply_words(1) [of ?s 0 "- 1"] reply_words(2) [of ?s g 0 "- 1"] on
    by (simp add: motor_online_def checkAck_def del: upt_rec_numeral)
qed

text \<open>
  C38: A backward command from the master to the motor and back. The master's datagram makes an idle motor
  board, whose end position allows it, request the position lower by the commanded steps and start the motor;
  its reply takes the master out of its waiting state and clears the master's error count.
\<close>

theorem heavy_backward_command:
  assumes master: "master_online m" "packet_live m" "fdu_mode m \<noteq> 1"
    and motor: "motor_online b" "packet_live b" "live 1 sc b"
    and idle: "\<not> SC_timerRunning sc" "SC_speed sc \<noteq> 0" "SC_positionRequested sc = SC_position sc"
    and range: "0 < v" "v < 2 ^ 31" "- (2 ^ 31) \<le> motorZeroPoint b - 980" "motorZeroPoint b - 980 < SC_position sc - v"
      "SC_position sc < 2 ^ 31"
  shows "\<exists>cmd b' reply m'. datagrams (tellMotorBoard 2 v m) = datagrams m @ [cmd] \<and>
    waiting_for_response (tellMotorBoard 2 v m) = 1 \<and> receiveMotorCommandTask cmd b = Some b' \<and>
    live 1 (sc\<lparr>SC_positionRequested := SC_position sc - v, SC_timerRunning := True\<rparr>) b' \<and>
    datagrams b' = datagrams b @ [reply] \<and> receiveMotorCommandTask reply (tellMotorBoard 2 v m) = Some m' \<and>
    waiting_for_response m' = 0 \<and> error_count m' = 0"
proof -
  have c: "c_int (SC_position sc - v) = SC_position sc - v" "c_int (motorZeroPoint b - 980) = motorZeroPoint b - 980"
    using range by (simp_all add: c_int_def signed_of_int signed_take_bit_int_eq_self)
  note h = command_header_bits [OF master(1)] and sends = tellMotorBoard_sends [OF master(1), of 2 v]
  from motor_accepts [OF motor(1,2) _ master(3) h(1,2)] master(1) obtain k where k: "crc_ready k"
    "receiveMotorCommandTask (fst (heavy_packet [command_header 2 m, word_of_int v] 2 m)) b =
      map_option (\<lambda>(_, s). s\<lparr>packet_live := False\<rparr>)
        (doMotorCommand (sint (command_header 2 m)) (sint (word_of_int v :: u32)) (b\<lparr>crc := k\<rparr>))"
    unfolding master_online_def by blast
  have "live 1 sc (b\<lparr>crc := k\<rparr>)" using motor(3) by (simp add: live_def)
  from doMotor_backward [OF this idle, of v "sint (command_header 2 m)"] obtain t where
    t: "doMotorCommand (sint (command_header 2 m)) v (b\<lparr>crc := k\<rparr>) = Some (0, tellController 1 (SC_position sc) t)"
      "heavy_view t = heavy_view (b\<lparr>crc := k\<rparr>)"
      "live 1 (sc\<lparr>SC_positionRequested := SC_position sc - v, SC_timerRunning := True\<rparr>) t"
    using c range h(3) by auto
  note e = heavy_view_eq [OF t(2)]
  have on: "motor_online t" "datagrams t = datagrams b" "packet_live t"
    using e motor(1,2) k(1) by (simp_all add: motor_online_def isMotorBoard_def isMonitorBoard_def)
  let ?b = "(tellController 1 (SC_position sc) t)\<lparr>packet_live := False\<rparr>"
  have b: "receiveMotorCommandTask (fst (heavy_packet [command_header 2 m, word_of_int v] 2 m)) b = Some ?b"
    using k(2) t(1) range(1,2) by (simp add: word_of_int_2_31)
  have lb: "live 1 (sc\<lparr>SC_positionRequested := SC_position sc - v, SC_timerRunning := True\<rparr>) ?b"
    using t(3) live_cong [of ?b t] tellController_reply(2) [OF on(1)] by simp
  have "crc_ready (crc t)" using on(1) by (simp add: motor_online_def)
  from master_takes_ack [OF sends(3) _ _ _ this, of "0x04500000" "word_of_int (SC_position sc)"] sends(2,4) master(2)
  obtain m' where "receiveMotorCommandTask (reply_bytes 1 (SC_position sc) t) (tellMotorBoard 2 v m) = Some m'"
    "waiting_for_response m' = 0" "error_count m' = 0" by (auto simp: reply_bytes_def checkAck_def)
  then show ?thesis using sends(1,2) b lb tellController_reply(1) [OF on(1), of 1 "SC_position sc"] on(2) by auto
qed

text \<open>
  A negative acknowledgement reads as a positive one. The header that \<^verbatim>\<open>sendNAck\<close> builds has the
  acknowledge bit set on every board, so a master that waits for an answer takes it for a success and clears
  its error count.
\<close>

theorem heavy_nack_reads_as_ack:
  assumes "MotorBoard s \<in> {0, 1}" and "C0Board s \<in> {0, 1}" and "C1Board s \<in> {0, 1}" and "isPrime s \<noteq> 0 \<or> isMotorBoard s \<noteq> 0"
    and "link_up s" and "crc_ready (crc s)" and "master_online m" and "packet_live m" and "waiting_for_response m \<noteq> 0"
  shows "\<exists>nack t. datagrams (sendNAck v s) = datagrams s @ [nack] \<and> receiveMotorCommandTask nack m = Some t \<and>
    waiting_for_response t = 0 \<and> error_count t = 0"
proof -
  let ?s = "s\<lparr>waiting_for_response := 0\<rparr>"
  let ?h = "0x00500000 OR push_bit 26 (word_of_int (isMotorBoard ?s)) OR push_bit 25 (word_of_int (isC1Board ?s)) OR
               push_bit 24 (word_of_int (isC0Board ?s)) :: u32"
  let ?dg = "fst (heavy_packet [?h, v] 2 ?s)"
  have "checkAck ?h = 1"
    using assms(1-3) by (auto simp: checkAck_def isMotorBoard_def isC0Board_def isC1Board_def)
  moreover have "crc_ready (crc ?s)" using assms(6) by simp
  ultimately have "\<exists>t. receiveMotorCommandTask ?dg m = Some t \<and> waiting_for_response t = 0 \<and> error_count t = 0"
    by (intro master_takes_ack [OF assms(7-9)])
  moreover have "datagrams (sendNAck v s) = datagrams s @ [?dg]"
    using assms(4,5) by (simp add: sendNAck_def sendDataMessage_def isPrime_def isMotorBoard_def isC0Board_def isC1Board_def
        heavy_packet_bytes assms(6) Let_def)
  ultimately show ?thesis by blast
qed

subsection \<open>Witnesses\<close>

text \<open>A master and a motor board whose stepper 1 has been started.\<close>

definition heavy_boot :: "int \<Rightarrow> int \<Rightarrow> heavy_state" where
  "heavy_boot c0 motor = stepper_state.extend
     (stepper_boot\<lparr>ISPRIME := 1, fdu_mode := 0,
        Stepper := Some \<lparr>ST_users = 1, ST_control = [Null, Live (fresh_motor 1 (fresh_control stepper_boot))]\<rparr>\<rparr>)
     \<lparr>waiting_for_response = 1, current_direction = 0, error_count = 3, error_noresponse_count = 0, motorZeroPoint = 0,
      C0Board = c0, C1Board = 0, MotorBoard = motor, MonitorBoard = 0,
      crc = \<lparr>crc_tab = replicate 256 0, crc_tab_generated = False\<rparr>, garbage = (\<lambda>_. 0), link_up = True, datagrams = [],
      packet_live = True, echoData = [], echoLengthInBytes = 0, echoBitPointer = 0, echoBytePointer = 0, echoRunning = 0\<rparr>"

lemma heavy_boot_online:
  "master_online (heavy_boot 1 0)" "motor_online (heavy_boot 0 1)" "packet_live (heavy_boot c0 motor)"
  "fdu_mode (heavy_boot c0 motor) = 0" "crc_ready (crc (heavy_boot c0 motor))" "waiting_for_response (heavy_boot c0 motor) = 1"
  "motorZeroPoint (heavy_boot c0 motor) = 0" "isPrime (heavy_boot c0 motor) = 1" "link_up (heavy_boot c0 motor)"
  "MotorBoard (heavy_boot c0 motor) = motor" "C0Board (heavy_boot c0 motor) = c0" "C1Board (heavy_boot c0 motor) = 0"
  "live 1 (fresh_motor 1 (fresh_control stepper_boot)) (heavy_boot c0 motor)"
  by (simp_all add: heavy_boot_def master_online_def motor_online_def stepper_state.defs crc_ready_def isPrime_def
      isC0Board_def isC1Board_def isMotorBoard_def isMonitorBoard_def live_def)

theorem heavy_message_roundtrip_witness:
  "(let dg = fst (heavy_packet [0x01210000, 4] 2 (heavy_boot 1 0)); incoming = char2int (map (\<lambda>_. 0) [0..<2 + 1]) dg (length dg)
     in butlast incoming = [0x01210000, 4] \<and> last incoming = fst (crc32 (take (length dg - 4) dg) (crc (heavy_boot 0 1))))"
  using heavy_message_roundtrip [of 2 "[0x01210000, 4]" "heavy_boot 1 0" "crc (heavy_boot 0 1)" "\<lambda>_. 0"]
  by (auto simp: heavy_boot_online getFduMode_def Let_def simp del: upt_rec_numeral)

theorem heavy_damaged_refused_witness:
  "\<exists>t reply. receiveMotorCommandTask ((fst (heavy_packet [0x01210000, 4] 2 (heavy_boot 1 0)))[7 := 5]) (heavy_boot 0 1) = Some t \<and>
    Stepper t = Stepper (heavy_boot 0 1) \<and> datagrams t = [reply] \<and>
    take 2 (char2int (map (\<lambda>_. 0) [0..<3]) reply 12) = [0x04100000, 0xFFFFFFFF]"
proof -
  have "fst (heavy_packet [0x01210000, 4] 2 (heavy_boot 1 0)) ! 7 = 4"
    using int2char_nth [of 1 3 3]
    by (simp add: heavy_packet_bytes heavy_boot_online dword_bytes_def)
  then have "5 \<noteq> fst (heavy_packet [0x01210000, 4] 2 (heavy_boot 1 0)) ! 7" by simp
  moreover have "datagrams (heavy_boot 0 1) = []" by (simp add: heavy_boot_def stepper_state.defs)
  ultimately show ?thesis
    using heavy_damaged_refused [OF heavy_boot_online(2) heavy_boot_online(3) [of 0 1] heavy_boot_online(5) [of 1 0], where n = 2 and ws = "[0x01210000, 4]" and i = 7 and b = 5 and g = "\<lambda>_. 0"]
    by (auto simp: heavy_boot_online simp del: upt_rec_numeral)
qed

theorem heavy_backward_command_witness:
  "\<exists>cmd b' reply m'. datagrams (tellMotorBoard 2 4 (heavy_boot 1 0)) = [cmd] \<and>
    receiveMotorCommandTask cmd (heavy_boot 0 1) = Some b' \<and> datagrams b' = [reply] \<and>
    receiveMotorCommandTask reply (tellMotorBoard 2 4 (heavy_boot 1 0)) = Some m' \<and> error_count m' = 0"
proof -
  let ?sc = "fresh_motor 1 (fresh_control stepper_boot)"
  have sc: "\<not> SC_timerRunning ?sc" "SC_speed ?sc \<noteq> 0" "SC_positionRequested ?sc = SC_position ?sc" "SC_position ?sc = 0"
    by (simp_all add: fresh_motor_def)
  have "datagrams (heavy_boot c0 k) = []" for c0 k by (simp add: heavy_boot_def stepper_state.defs)
  then show ?thesis
    using heavy_backward_command [OF heavy_boot_online(1,3) _ heavy_boot_online(2,3,13) sc(1-3), of 4] sc(4)
    by (simp add: heavy_boot_online) metis
qed

theorem heavy_nack_reads_as_ack_witness:
  "\<exists>nack t. datagrams (sendNAck 0xFFFFFFFF (heavy_boot 0 1)) = datagrams (heavy_boot 0 1) @ [nack] \<and>
    receiveMotorCommandTask nack (heavy_boot 1 0) = Some t \<and> error_count t = 0"
  using heavy_nack_reads_as_ack [of "heavy_boot 0 1" "heavy_boot 1 0" "0xFFFFFFFF"]
  by (simp add: heavy_boot_online) blast

end
