(* ===== verification/Decimal.thy ===== *)
theory Decimal
  imports Prelude
begin

text \<open>
  Decimal numbers as the C library prints and classifies them: the digits \<^verbatim>\<open>sprintf\<close> writes for a number,
  \<^verbatim>\<open>isdigit\<close>, and the value of a string of digits. Shared by the JSON library and the OSC system.
\<close>

text \<open>Decimal digits, most significant first, as \<^verbatim>\<open>snprintf\<close> prints an integer.\<close>

definition digit_char :: "nat \<Rightarrow> char" where
  "digit_char d = char_of (48 + d)"

fun print_nat :: "nat \<Rightarrow> string" where
  "print_nat n = (if n < 10 then [digit_char n] else print_nat (n div 10) @ [digit_char (n mod 10)])"

declare print_nat.simps [simp del]

definition print_int :: "int \<Rightarrow> string" where
  "print_int i = (if i < 0 then CHR ''-'' # print_nat (nat (- i)) else print_nat (nat i))"

definition c_isdigit :: "char \<Rightarrow> bool" where
  "c_isdigit c \<longleftrightarrow> 48 \<le> (of_char c :: nat) \<and> (of_char c :: nat) \<le> 57"

definition digit_value :: "char \<Rightarrow> nat" where
  "digit_value c = of_char c - 48"

definition read_nat :: "string \<Rightarrow> nat" where
  "read_nat cs = fold (\<lambda>c n. 10 * n + digit_value c) cs 0"

lemma digit_value_char: "d < 10 \<Longrightarrow> digit_value (digit_char d) = d \<and> c_isdigit (digit_char d) \<and> digit_char d \<noteq> CHR ''.''"
proof -
  assume "d < 10"
  then have v: "of_char (digit_char d) = 48 + d" by (simp add: digit_char_def)
  then have "digit_char d \<noteq> CHR ''.''" by (auto dest: arg_cong [where f = "of_char :: char \<Rightarrow> nat"])
  then show ?thesis using v \<open>d < 10\<close> by (simp add: digit_value_def c_isdigit_def)
qed

lemma print_nat_digits: "c \<in> set (print_nat n) \<Longrightarrow> c_isdigit c \<and> c \<noteq> CHR ''.''"
proof (induction n rule: print_nat.induct)
  case (1 n)
  then show ?case
    using digit_value_char [of n] digit_value_char [of "n mod 10"] by (cases "n < 10") (auto simp: print_nat.simps [of n])
qed

lemma read_print_nat: "read_nat (print_nat n) = n"
proof (induction n rule: print_nat.induct)
  case (1 n)
  then show ?case
    using digit_value_char [of n] digit_value_char [of "n mod 10"]
    by (cases "n < 10") (simp_all add: print_nat.simps [of n] read_nat_def)
qed

lemma print_nat_nonempty: "print_nat n \<noteq> []"
  by (simp add: print_nat.simps [of n])

lemma takeWhile_boundary:
  assumes "\<forall>c \<in> set ds. P c" and "rest \<noteq> []" and "\<not> P (hd rest)"
  shows "takeWhile P (ds @ rest) = ds"
  using assms by (induction ds) (auto simp: neq_Nil_conv)

end
