(* ===== verification/Json.thy ===== *)
theory Json
  imports Decimal Complex_Main
begin

text \<open>
  The JSON library (\<^verbatim>\<open>src/firmware/libraries/json/json.c\<close>): an encoder that appends to a caller's buffer and keeps
  a stack of what is open, and an event-driven decoder that calls back for each element. A buffer is the list of its
  bytes and a pointer into it an offset, \<open>None\<close> for the null pointer; reading or writing outside a buffer
  or outside the stack of 32 steps has no defined result. Callbacks are functions on the caller's context that
  return whether to go on. The value \<^verbatim>\<open>atof\<close> returns is taken exactly, as a rational number.
\<close>

subsection \<open>Encoder state\<close>

abbreviation (input) JSON_MAX_DEPTH :: int where "JSON_MAX_DEPTH \<equiv> 32"

datatype JsonEncode_Step = JSON_START | JSON_OBJ_START | JSON_OBJ_KEY | JSON_OBJ_VALUE | JSON_ARRAY_START | JSON_IN_ARRAY

record JsonEncode_State =
  je_steps :: "JsonEncode_Step list"
  je_depth :: int

text \<open>The state of an encode call: the state variable, the buffer and the count of bytes left.\<close>

record json_encoder = JsonEncode_State +
  je_mem :: string
  je_remaining :: int

definition je_step :: "json_encoder \<Rightarrow> JsonEncode_Step option" where
  "je_step s = (if 0 \<le> je_depth s \<and> je_depth s < JSON_MAX_DEPTH then Some (je_steps s ! nat (je_depth s)) else None)"

definition je_set_step :: "JsonEncode_Step \<Rightarrow> json_encoder \<Rightarrow> json_encoder option" where
  "je_set_step st s =
     (if 0 \<le> je_depth s \<and> je_depth s < JSON_MAX_DEPTH then Some (s\<lparr>je_steps := (je_steps s)[nat (je_depth s) := st]\<rparr>) else None)"

definition json_memcpy :: "nat \<Rightarrow> string \<Rightarrow> json_encoder \<Rightarrow> json_encoder option" where
  "json_memcpy b text s =
     (if b + length text \<le> length (je_mem s)
      then Some (s\<lparr>je_mem := take b (je_mem s) @ text @ drop (b + length text) (je_mem s)\<rparr>) else None)"

definition JsonEncode_Init :: "json_encoder \<Rightarrow> json_encoder" where
  "JsonEncode_Init s = s\<lparr>je_depth := 0, je_steps := (je_steps s)[0 := JSON_START]\<rparr>"

subsection \<open>Encoder operations\<close>

definition JsonEncode_AppendedAtom :: "json_encoder \<Rightarrow> json_encoder option" where
  "JsonEncode_AppendedAtom s =
     do {
       st \<leftarrow> je_step s;
       case st of
         JSON_OBJ_START \<Rightarrow> je_set_step JSON_OBJ_VALUE s
       | JSON_OBJ_KEY \<Rightarrow> je_set_step JSON_OBJ_VALUE s
       | JSON_ARRAY_START \<Rightarrow> je_set_step JSON_IN_ARRAY s
       | JSON_OBJ_VALUE \<Rightarrow> je_set_step JSON_OBJ_KEY s
       | _ \<Rightarrow> Some s
     }"

fun json_separator :: "JsonEncode_Step \<Rightarrow> string" where
  "json_separator JSON_OBJ_KEY = '',''"
| "json_separator JSON_IN_ARRAY = '',''"
| "json_separator JSON_OBJ_VALUE = '':''"
| "json_separator _ = ''''"

definition json_open :: "string \<Rightarrow> JsonEncode_Step \<Rightarrow> nat option \<Rightarrow> (nat option, json_encoder) op" where
  "json_open bracket start buf s =
     (case buf of
        None \<Rightarrow> Some (None, s)
      | Some b \<Rightarrow>
          do {
            st \<leftarrow> je_step s;
            let text = json_separator st @ bracket in
            if je_remaining s < int (length text) then Some (None, s)
            else do {
              s \<leftarrow> json_memcpy b text s;
              let s = s\<lparr>je_depth := je_depth s + 1\<rparr> in
              if je_depth s > JSON_MAX_DEPTH then Some (None, s)
              else do {
                s \<leftarrow> je_set_step start s;
                Some (Some (b + length text), s\<lparr>je_remaining := je_remaining s - int (length text)\<rparr>)
              }
            }
          })"

definition JsonEncode_ObjectOpen :: "nat option \<Rightarrow> (nat option, json_encoder) op" where
  "JsonEncode_ObjectOpen = json_open ''{'' JSON_OBJ_START"

definition JsonEncode_ArrayOpen :: "nat option \<Rightarrow> (nat option, json_encoder) op" where
  "JsonEncode_ArrayOpen = json_open ''['' JSON_ARRAY_START"

definition json_close :: "string \<Rightarrow> nat option \<Rightarrow> (nat option, json_encoder) op" where
  "json_close bracket buf s =
     (case buf of
        None \<Rightarrow> Some (None, s)
      | Some b \<Rightarrow>
          if je_remaining s < 1 then Some (None, s)
          else do {
            s \<leftarrow> json_memcpy b bracket s;
            s \<leftarrow> JsonEncode_AppendedAtom (s\<lparr>je_depth := je_depth s - 1\<rparr>);
            Some (Some (b + 1), s\<lparr>je_remaining := je_remaining s - 1\<rparr>)
          })"

definition JsonEncode_ObjectClose :: "nat option \<Rightarrow> (nat option, json_encoder) op" where
  "JsonEncode_ObjectClose = json_close ''}''"

definition JsonEncode_ArrayClose :: "nat option \<Rightarrow> (nat option, json_encoder) op" where
  "JsonEncode_ArrayClose = json_close '']''"

text \<open>
  Appending an atom in a step the caller allows: the separator of the step and the text, cut to the size of
  the local buffer it is printed into.
\<close>

definition json_atom ::
  "(JsonEncode_Step \<Rightarrow> bool) \<Rightarrow> (string \<Rightarrow> string) \<Rightarrow> string \<Rightarrow> nat option \<Rightarrow> (nat option, json_encoder) op" where
  "json_atom allowed trim atom buf s =
     (case buf of
        None \<Rightarrow> Some (None, s)
      | Some b \<Rightarrow>
          do {
            st \<leftarrow> je_step s;
            if \<not> allowed st then Some (None, s)
            else
              let text = trim (json_separator st @ atom) in
              if je_remaining s < int (length text) then Some (None, s)
              else do {
                s \<leftarrow> json_memcpy b text s;
                s \<leftarrow> JsonEncode_AppendedAtom s;
                Some (Some (b + length text), s\<lparr>je_remaining := je_remaining s - int (length text)\<rparr>)
              }
          })"

definition JsonEncode_String :: "nat option \<Rightarrow> string \<Rightarrow> (nat option, json_encoder) op" where
  "JsonEncode_String buf str =
     json_atom (\<lambda>st. st \<in> {JSON_ARRAY_START, JSON_OBJ_START, JSON_OBJ_KEY, JSON_IN_ARRAY, JSON_OBJ_VALUE}) id
       ([CHR 0x22] @ str @ [CHR 0x22]) buf"

definition JsonEncode_ObjectKey :: "nat option \<Rightarrow> string \<Rightarrow> (nat option, json_encoder) op" where
  "JsonEncode_ObjectKey buf key = JsonEncode_String buf key"

text \<open>The local buffer of an integer holds 11 characters, 12 with a separator.\<close>

definition JsonEncode_Int :: "nat option \<Rightarrow> int \<Rightarrow> (nat option, json_encoder) op" where
  "JsonEncode_Int buf v s =
     json_atom (\<lambda>st. st \<in> {JSON_ARRAY_START, JSON_IN_ARRAY, JSON_OBJ_VALUE})
       (take (if je_step s = Some JSON_ARRAY_START then 11 else 12)) (print_int v) buf s"

definition JsonEncode_Bool :: "nat option \<Rightarrow> bool \<Rightarrow> (nat option, json_encoder) op" where
  "JsonEncode_Bool buf v =
     json_atom (\<lambda>st. st \<in> {JSON_ARRAY_START, JSON_IN_ARRAY, JSON_OBJ_VALUE}) id (if v then ''true'' else ''false'') buf"

subsection \<open>Decoder state\<close>

datatype JsonDecode_Token =
  token_true | token_false | token_colon | token_comma | token_eof | token_error | token_left_brace | token_left_bracket |
  token_null | token_right_brace | token_right_bracket | token_number | token_maybe_negative | token_string | token_unknown

datatype JsonDecode_Step = JSON_DECODE_OBJECT_START | JSON_DECODE_IN_OBJECT | JSON_DECODE_IN_ARRAY

text \<open>A callback receives the context and returns whether to go on, and the context it leaves.\<close>

type_synonym 'c callback = "'c \<Rightarrow> bool \<times> 'c"

record 'c JsonDecode_Callbacks =
  null_callback :: "'c callback option"
  bool_callback :: "(bool \<Rightarrow> 'c callback) option"
  int_callback :: "(int \<Rightarrow> 'c callback) option"
  float_callback :: "(rat \<Rightarrow> 'c callback) option"
  string_callback :: "(string \<Rightarrow> 'c callback) option"
  start_obj_callback :: "'c callback option"
  obj_key_callback :: "(string \<Rightarrow> 'c callback) option"
  end_obj_callback :: "'c callback option"
  start_array_callback :: "'c callback option"
  end_array_callback :: "'c callback option"

record 'c JsonDecode_State =
  jd_steps :: "JsonDecode_Step list"
  jd_depth :: int
  jd_gotcomma :: bool
  jd_context :: 'c
  jd_p :: "nat option"
  jd_len :: int
  jd_mem :: string

definition JsonDecode_SetIntCallback :: "(int \<Rightarrow> 'c callback) option \<Rightarrow> 'c JsonDecode_Callbacks \<Rightarrow> 'c JsonDecode_Callbacks" where
  "JsonDecode_SetIntCallback f cb = cb\<lparr>int_callback := f\<rparr>"

definition JsonDecode_SetFloatCallback :: "(rat \<Rightarrow> 'c callback) option \<Rightarrow> 'c JsonDecode_Callbacks \<Rightarrow> 'c JsonDecode_Callbacks" where
  "JsonDecode_SetFloatCallback f cb = cb\<lparr>float_callback := f\<rparr>"

definition JsonDecode_SetBoolCallback :: "(bool \<Rightarrow> 'c callback) option \<Rightarrow> 'c JsonDecode_Callbacks \<Rightarrow> 'c JsonDecode_Callbacks" where
  "JsonDecode_SetBoolCallback f cb = cb\<lparr>bool_callback := f\<rparr>"

definition JsonDecode_SetStringCallback :: "(string \<Rightarrow> 'c callback) option \<Rightarrow> 'c JsonDecode_Callbacks \<Rightarrow> 'c JsonDecode_Callbacks" where
  "JsonDecode_SetStringCallback f cb = cb\<lparr>string_callback := f\<rparr>"

definition JsonDecode_SetStartObjCallback :: "'c callback option \<Rightarrow> 'c JsonDecode_Callbacks \<Rightarrow> 'c JsonDecode_Callbacks" where
  "JsonDecode_SetStartObjCallback f cb = cb\<lparr>start_obj_callback := f\<rparr>"

definition JsonDecode_SetObjKeyCallback :: "(string \<Rightarrow> 'c callback) option \<Rightarrow> 'c JsonDecode_Callbacks \<Rightarrow> 'c JsonDecode_Callbacks" where
  "JsonDecode_SetObjKeyCallback f cb = cb\<lparr>obj_key_callback := f\<rparr>"

definition JsonDecode_SetEndObjCallback :: "'c callback option \<Rightarrow> 'c JsonDecode_Callbacks \<Rightarrow> 'c JsonDecode_Callbacks" where
  "JsonDecode_SetEndObjCallback f cb = cb\<lparr>end_obj_callback := f\<rparr>"

definition JsonDecode_SetStartArrayCallback :: "'c callback option \<Rightarrow> 'c JsonDecode_Callbacks \<Rightarrow> 'c JsonDecode_Callbacks" where
  "JsonDecode_SetStartArrayCallback f cb = cb\<lparr>start_array_callback := f\<rparr>"

definition JsonDecode_SetEndArrayCallback :: "'c callback option \<Rightarrow> 'c JsonDecode_Callbacks \<Rightarrow> 'c JsonDecode_Callbacks" where
  "JsonDecode_SetEndArrayCallback f cb = cb\<lparr>end_array_callback := f\<rparr>"

definition JsonDecode_Init :: "'c \<Rightarrow> 'c JsonDecode_State \<Rightarrow> 'c JsonDecode_State" where
  "JsonDecode_Init ctx s = s\<lparr>jd_depth := 0, jd_gotcomma := False, jd_context := ctx, jd_p := None, jd_len := 0\<rparr>"

subsection \<open>Tokens\<close>

definition JsonDecode_GetToken :: "string \<Rightarrow> int \<Rightarrow> JsonDecode_Token" where
  "JsonDecode_GetToken text len =
     (let c = hd text in
      if c = CHR '':'' then token_colon
      else if c = CHR '','' then token_comma
      else if c = CHR ''{'' then token_left_bracket
      else if c = CHR ''}'' then token_right_bracket
      else if c = CHR ''['' then token_left_brace
      else if c = CHR '']'' then token_right_brace
      else if c = CHR 0x22 then token_string
      else if c_isdigit c then token_number
      else if c = CHR ''-'' then token_maybe_negative
      else if c = CHR ''t'' then (if len < 4 then token_unknown else if take 4 text = ''true'' then token_true else token_unknown)
      else if c = CHR ''f'' then (if len < 5 then token_unknown else if take 5 text = ''false'' then token_false else token_unknown)
      else if c = CHR ''n'' then (if len < 4 then token_unknown else if take 4 text = ''null'' then token_null else token_unknown)
      else if c = CHR 0x00 then token_eof
      else token_unknown)"

text \<open>
  The two scans. A number ends before the first character that is neither a digit nor the first point; a
  second point is an error. A string ends at the next quote that is not escaped.
\<close>

fun scan_number :: "bool \<Rightarrow> string \<Rightarrow> (nat \<times> bool) option option" where
  "scan_number gotdecimal [] = None"
| "scan_number gotdecimal (c # cs) =
     (if c = CHR ''.'' then
        (if gotdecimal then Some None else map_option (map_option (\<lambda>(n, g). (Suc n, g))) (scan_number True cs))
      else if \<not> c_isdigit c then Some (Some (0, gotdecimal))
      else map_option (map_option (\<lambda>(n, g). (Suc n, g))) (scan_number gotdecimal cs))"

fun scan_string :: "string \<Rightarrow> nat option" where
  "scan_string [] = None"
| "scan_string [c] = (if c = CHR 0x22 then Some 0 else None)"
| "scan_string (c # d # cs) =
     (if c = CHR 0x5C then map_option (\<lambda>n. n + 2) (scan_string cs)
      else if c = CHR 0x22 then Some 0
      else map_option Suc (scan_string (d # cs)))"

text \<open>\<^verbatim>\<open>atoi\<close> has no defined result when the value does not fit an \<open>int\<close>.\<close>

definition json_atoi :: "string \<Rightarrow> int option" where
  "json_atoi cs = (let n = int (read_nat (takeWhile c_isdigit cs)) in if n < 2 ^ 31 then Some n else None)"

definition json_atof :: "string \<Rightarrow> rat" where
  "json_atof cs =
     (let whole = takeWhile c_isdigit cs; rest = drop (length whole) cs;
          frac = (if rest \<noteq> [] \<and> hd rest = CHR ''.'' then takeWhile c_isdigit (tl rest) else [])
      in of_nat (read_nat whole) + of_nat (read_nat frac) / 10 ^ length frac)"

subsection \<open>The decoder\<close>

text \<open>
  One pass of the decode loop. The outcome is the new state with \<open>None\<close> to go on and \<open>Some r\<close> to return \<open>r\<close>.
\<close>

type_synonym 'c jd_outcome = "(bool option \<times> 'c JsonDecode_State) option"

definition jd_call :: "'c callback option \<Rightarrow> ('c JsonDecode_State \<Rightarrow> 'c jd_outcome) \<Rightarrow> 'c JsonDecode_State \<Rightarrow> 'c jd_outcome" where
  "jd_call cb rest s =
     (case cb of
        None \<Rightarrow> rest s
      | Some f \<Rightarrow> let (ok, c) = f (jd_context s); s = s\<lparr>jd_context := c\<rparr> in if ok then rest s else Some (Some False, s))"

definition jd_advance :: "nat \<Rightarrow> 'c JsonDecode_State \<Rightarrow> 'c jd_outcome" where
  "jd_advance n s = Some (None, s\<lparr>jd_p := map_option (\<lambda>p. p + n) (jd_p s), jd_len := jd_len s - int n\<rparr>)"

definition jd_step :: "'c JsonDecode_State \<Rightarrow> JsonDecode_Step option" where
  "jd_step s = (if 0 \<le> jd_depth s \<and> jd_depth s < JSON_MAX_DEPTH then Some (jd_steps s ! nat (jd_depth s)) else None)"

definition jd_set_step :: "JsonDecode_Step \<Rightarrow> 'c JsonDecode_State \<Rightarrow> 'c JsonDecode_State option" where
  "jd_set_step st s =
     (if 0 \<le> jd_depth s \<and> jd_depth s < JSON_MAX_DEPTH then Some (s\<lparr>jd_steps := (jd_steps s)[nat (jd_depth s) := st]\<rparr>) else None)"

definition jd_open :: "JsonDecode_Step \<Rightarrow> 'c callback option \<Rightarrow> 'c JsonDecode_State \<Rightarrow> 'c jd_outcome" where
  "jd_open st cb s =
     do {
       s \<leftarrow> jd_set_step st (s\<lparr>jd_depth := jd_depth s + 1\<rparr>);
       jd_call cb (jd_advance 1) s
     }"

definition jd_close :: "'c callback option \<Rightarrow> 'c JsonDecode_State \<Rightarrow> 'c jd_outcome" where
  "jd_close cb s = jd_call cb (jd_advance 1) (s\<lparr>jd_depth := jd_depth s - 1\<rparr>)"

definition jd_number :: "'c JsonDecode_Callbacks \<Rightarrow> string \<Rightarrow> 'c JsonDecode_State \<Rightarrow> 'c jd_outcome" where
  "jd_number cb text s =
     do {
       r \<leftarrow> scan_number False text;
       case r of
         None \<Rightarrow> Some (Some False, s)
       | Some (n, gotdecimal) \<Rightarrow>
           if gotdecimal then jd_call (map_option (\<lambda>f. f (json_atof text)) (float_callback cb)) (jd_advance n) s
           else if int_callback cb = None then jd_advance n s
           else do { v \<leftarrow> json_atoi text; jd_call (map_option (\<lambda>f. f v) (int_callback cb)) (jd_advance n) s }
     }"

definition jd_string :: "'c JsonDecode_Callbacks \<Rightarrow> nat \<Rightarrow> 'c JsonDecode_State \<Rightarrow> 'c jd_outcome" where
  "jd_string cb p s0 =
     do {
       let start = p + 1; s = s0\<lparr>jd_p := Some start, jd_len := jd_len s0 - 1\<rparr>
       in do {
         n \<leftarrow> scan_string (drop start (jd_mem s));
         let value = take n (drop start (jd_mem s));
             s = s\<lparr>jd_mem := (jd_mem s)[start + n := CHR 0x00]\<rparr>
         in do {
           st \<leftarrow> jd_step s;
           s \<leftarrow> (if st = JSON_DECODE_OBJECT_START then jd_set_step JSON_DECODE_IN_OBJECT s else Some s);
           let comma = jd_gotcomma s \<and> (st = JSON_DECODE_OBJECT_START \<or> st = JSON_DECODE_IN_OBJECT);
               s = (if comma then s\<lparr>jd_gotcomma := False\<rparr> else s);
               objkey = (st = JSON_DECODE_OBJECT_START \<or> comma)
           in jd_call (map_option (\<lambda>f. f value) (if objkey then obj_key_callback cb else string_callback cb)) (jd_advance (n + 1)) s
         }
       }
     }"

definition jd_pass :: "'c JsonDecode_Callbacks \<Rightarrow> 'c JsonDecode_State \<Rightarrow> 'c jd_outcome" where
  "jd_pass cb s0 =
     do {
       p0 \<leftarrow> jd_p s0;
       let p = p0 + length (takeWhile (\<lambda>c. c = CHR '' '') (drop p0 (jd_mem s0)));
           s = s0\<lparr>jd_p := Some p\<rparr>;
           text = drop p (jd_mem s0)
       in if text = [] then None
          else case JsonDecode_GetToken text (jd_len s) of
            token_true \<Rightarrow> jd_call (map_option (\<lambda>f. f True) (bool_callback cb)) (jd_advance 4) s
          | token_false \<Rightarrow> jd_call (map_option (\<lambda>f. f False) (bool_callback cb)) (jd_advance 5) s
          | token_null \<Rightarrow> jd_call (null_callback cb) (jd_advance 4) s
          | token_comma \<Rightarrow> jd_advance 1 (s\<lparr>jd_gotcomma := True\<rparr>)
          | token_colon \<Rightarrow> jd_advance 1 s
          | token_left_bracket \<Rightarrow> jd_open JSON_DECODE_OBJECT_START (start_obj_callback cb) s
          | token_right_bracket \<Rightarrow> jd_close (end_obj_callback cb) s
          | token_left_brace \<Rightarrow> jd_open JSON_DECODE_IN_ARRAY (start_array_callback cb) s
          | token_right_brace \<Rightarrow> jd_close (end_array_callback cb) s
          | token_number \<Rightarrow> jd_number cb text s
          | token_string \<Rightarrow> jd_string cb p s
          | _ \<Rightarrow> Some (Some False, s)
     }"

text \<open>Every pass that goes on moves the pointer forward inside the text, so the loop ends.\<close>

lemma jd_call_goes_on:
  "jd_call cb rest s = Some (None, s') \<Longrightarrow> \<exists>c. rest (s\<lparr>jd_context := c\<rparr>) = Some (None, s')"
  by (auto simp: jd_call_def Let_def split: option.splits prod.splits if_splits intro: exI [of _ "jd_context s"])

lemma jd_advance_goes_on:
  "jd_advance n s = Some (None, s') \<Longrightarrow> jd_mem s' = jd_mem s \<and> jd_p s' = map_option (\<lambda>p. p + n) (jd_p s)"
  by (auto simp: jd_advance_def)

lemma jd_set_step_fields:
  "jd_set_step st s = Some s' \<Longrightarrow> jd_mem s' = jd_mem s \<and> jd_p s' = jd_p s"
  by (auto simp: jd_set_step_def split: if_splits)

lemma scan_number_pos: "c \<noteq> [] \<Longrightarrow> c_isdigit (hd c) \<Longrightarrow> scan_number g c = Some (Some (n, h)) \<Longrightarrow> 0 < n"
  by (cases c) (auto simp: c_isdigit_def split: if_splits)

lemma token_number_digit: "JsonDecode_GetToken text len = token_number \<Longrightarrow> c_isdigit (hd text)"
  by (auto simp: JsonDecode_GetToken_def Let_def split: if_splits)

lemma jd_pass_moves:
  assumes "jd_pass cb s = Some (None, s')"
  shows "\<exists>p p'. jd_p s = Some p \<and> jd_p s' = Some p' \<and> p < p' \<and> p < length (jd_mem s) \<and> length (jd_mem s') = length (jd_mem s)"
proof -
  obtain p0 where p0: "jd_p s = Some p0" using assms by (auto simp: jd_pass_def bind_eq_Some_conv)
  define p where "p = p0 + length (takeWhile (\<lambda>c. c = CHR '' '') (drop p0 (jd_mem s)))"
  let ?s = "s\<lparr>jd_p := Some p\<rparr>" and ?text = "drop p (jd_mem s)"
  have ne: "?text \<noteq> []" using assms p0 by (auto simp: jd_pass_def p_def [symmetric] Let_def)
  then have lt: "p0 < length (jd_mem s)" by (simp add: p_def)
  have "\<exists>n > 0. jd_p s' = Some (p + n) \<and> length (jd_mem s') = length (jd_mem s)"
  proof -
    have adv: "jd_call c (jd_advance n) t = Some (None, s') \<Longrightarrow> jd_mem s' = jd_mem t \<and> jd_p s' = map_option (\<lambda>p. p + n) (jd_p t)"
      for c n t using jd_call_goes_on [of c "jd_advance n" t s'] jd_advance_goes_on by fastforce
    show ?thesis
    proof (cases "JsonDecode_GetToken ?text (jd_len s)")
      case token_number
      then show ?thesis
        using assms p0 ne scan_number_pos [OF ne token_number_digit [OF token_number], of False]
        by (auto simp: jd_pass_def p_def [symmetric] Let_def jd_number_def bind_eq_Some_conv
            split: option.splits if_splits dest!: adv jd_advance_goes_on)
    next
      case token_string
      then show ?thesis
        using assms p0 ne
        by (auto simp: jd_pass_def p_def [symmetric] Let_def jd_string_def bind_eq_Some_conv
            split: if_splits dest!: adv jd_advance_goes_on jd_set_step_fields)
    qed (use assms p0 ne in \<open>auto simp: jd_pass_def p_def [symmetric] Let_def jd_open_def jd_close_def bind_eq_Some_conv
          dest!: adv jd_advance_goes_on jd_set_step_fields\<close>)
  qed
  then show ?thesis using p0 lt by (force simp: p_def)
qed

function JsonDecode_loop :: "'c JsonDecode_Callbacks \<Rightarrow> (bool, 'c JsonDecode_State) op" where
  "JsonDecode_loop cb s =
     (if jd_len s = 0 then Some (True, s)
      else case jd_pass cb s of
             None \<Rightarrow> None
           | Some (Some r, s') \<Rightarrow> Some (r, s')
           | Some (None, s') \<Rightarrow> JsonDecode_loop cb s')"
  by pat_completeness auto
termination
  by (relation "measure (\<lambda>(cb, s). length (jd_mem s) - the (jd_p s))") (auto dest!: jd_pass_moves)

declare JsonDecode_loop.simps [simp del]

definition JsonDecode :: "'c JsonDecode_Callbacks \<Rightarrow> int \<Rightarrow> (bool, 'c JsonDecode_State) op" where
  "JsonDecode cb len s =
     JsonDecode_loop cb (s\<lparr>jd_p := (if jd_p s = None then Some 0 else jd_p s), jd_len := (if jd_len s = 0 then len else jd_len s)\<rparr>)"

end
