(* ===== verification/JsonWrite.thy ===== *)
theory JsonWrite
  imports Json
begin

text \<open>
  What the JSON encoder writes. A tree of values is written by one call per element, each given the pointer the
  one before returned; the calls produce exactly the text of the tree, keep the count of free bytes and the
  stack of open elements, and leave all other bytes of the buffer alone.
\<close>

subsection \<open>Values and their text\<close>

datatype json = JInt int | JBool bool | JString string | JArray "json list" | JObject "(string \<times> json) list"

definition json_quote :: "string \<Rightarrow> string" where
  "json_quote s = [CHR 0x22] @ s @ [CHR 0x22]"

fun json_text :: "json \<Rightarrow> string" and json_items :: "json list \<Rightarrow> string" and json_members :: "(string \<times> json) list \<Rightarrow> string" where
  "json_text (JInt i) = print_int i"
| "json_text (JBool b) = (if b then ''true'' else ''false'')"
| "json_text (JString s) = json_quote s"
| "json_text (JArray vs) = ''['' @ json_items vs @ '']''"
| "json_text (JObject ms) = ''{'' @ json_members ms @ ''}''"
| "json_items [] = ''''"
| "json_items [v] = json_text v"
| "json_items (v # w # vs) = json_text v @ '','' @ json_items (w # vs)"
| "json_members [] = ''''"
| "json_members [(k, v)] = json_quote k @ '':'' @ json_text v"
| "json_members ((k, v) # m # ms) = json_quote k @ '':'' @ json_text v @ '','' @ json_members (m # ms)"

text \<open>How deep the brackets of a value nest.\<close>

fun json_height :: "json \<Rightarrow> nat" where
  "json_height (JArray vs) = Suc (Max (insert 0 (json_height ` set vs)))"
| "json_height (JObject ms) = Suc (Max (insert 0 (json_height ` snd ` set ms)))"
| "json_height _ = 0"

text \<open>A caller that writes a value by calls of the encoder, handing each call the pointer the one before returned.\<close>

fun json_write :: "json \<Rightarrow> nat option \<Rightarrow> (nat option, json_encoder) op" and
  json_write_items :: "json list \<Rightarrow> nat option \<Rightarrow> (nat option, json_encoder) op" and
  json_write_members :: "(string \<times> json) list \<Rightarrow> nat option \<Rightarrow> (nat option, json_encoder) op" where
  "json_write (JInt i) buf s = JsonEncode_Int buf i s"
| "json_write (JBool b) buf s = JsonEncode_Bool buf b s"
| "json_write (JString t) buf s = JsonEncode_String buf t s"
| "json_write (JArray vs) buf s =
     do { (buf, s) \<leftarrow> JsonEncode_ArrayOpen buf s; (buf, s) \<leftarrow> json_write_items vs buf s; JsonEncode_ArrayClose buf s }"
| "json_write (JObject ms) buf s =
     do { (buf, s) \<leftarrow> JsonEncode_ObjectOpen buf s; (buf, s) \<leftarrow> json_write_members ms buf s; JsonEncode_ObjectClose buf s }"
| "json_write_items [] buf s = Some (buf, s)"
| "json_write_items (v # vs) buf s = do { (buf, s) \<leftarrow> json_write v buf s; json_write_items vs buf s }"
| "json_write_members [] buf s = Some (buf, s)"
| "json_write_members ((k, v) # ms) buf s =
     do { (buf, s) \<leftarrow> JsonEncode_ObjectKey buf k s; (buf, s) \<leftarrow> json_write v buf s; json_write_members ms buf s }"

fun json_ranged :: "json \<Rightarrow> bool" where
  "json_ranged (JInt i) \<longleftrightarrow> - (2 ^ 31) \<le> i \<and> i < 2 ^ 31"
| "json_ranged (JArray vs) \<longleftrightarrow> (\<forall>v \<in> set vs. json_ranged v)"
| "json_ranged (JObject ms) \<longleftrightarrow> (\<forall>m \<in> set ms. json_ranged (snd m))"
| "json_ranged _ \<longleftrightarrow> True"

subsection \<open>Numbers\<close>

lemma print_nat_length: "n < 10 ^ k \<Longrightarrow> 0 < k \<Longrightarrow> length (print_nat n) \<le> k"
proof (induction n arbitrary: k rule: print_nat.induct)
  case (1 n)
  show ?case
  proof (cases "n < 10")
    case False
    obtain j where j: "k = Suc j" using 1(3) by (cases k) auto
    have "0 < j" using 1(2) False j by (cases j) auto
    note k = j this
    then have "n div 10 < 10 ^ j" using 1(2) by (auto simp: less_mult_imp_div_less mult.commute)
    then have "length (print_nat (n div 10)) \<le> j" using 1(1) [OF False _ k(2)] by simp
    then show ?thesis using False k by (simp add: print_nat.simps [of n])
  qed (use 1(3) in \<open>simp add: print_nat.simps [of n]\<close>)
qed

lemma print_int_length:
  assumes "- (2 ^ 31) \<le> i" and "i < 2 ^ 31"
  shows "length (print_int i) \<le> 11"
proof -
  have "- i < 10000000000" "i < 10000000000" using assms by simp_all
  then have "nat (- i) < 10 ^ 10" "nat i < 10 ^ 10" by simp_all
  then show ?thesis
    using print_nat_length [of "nat (- i)" 10] print_nat_length [of "nat i" 10] by (simp add: print_int_def)
qed

subsection \<open>What the encoder writes\<close>

fun json_next :: "JsonEncode_Step \<Rightarrow> JsonEncode_Step" where
  "json_next JSON_OBJ_START = JSON_OBJ_VALUE"
| "json_next JSON_OBJ_KEY = JSON_OBJ_VALUE"
| "json_next JSON_OBJ_VALUE = JSON_OBJ_KEY"
| "json_next JSON_ARRAY_START = JSON_IN_ARRAY"
| "json_next st = st"

definition encodable :: "nat \<Rightarrow> JsonEncode_Step \<Rightarrow> json_encoder \<Rightarrow> bool" where
  "encodable b st s \<longleftrightarrow> length (je_steps s) = 32 \<and> 0 \<le> je_depth s \<and> je_depth s < 32 \<and> je_steps s ! nat (je_depth s) = st \<and>
     int b + je_remaining s \<le> int (length (je_mem s))"

definition wrote :: "nat \<Rightarrow> string \<Rightarrow> JsonEncode_Step \<Rightarrow> json_encoder \<Rightarrow> json_encoder \<Rightarrow> bool" where
  "wrote b txt st s s' \<longleftrightarrow>
     je_mem s' = take b (je_mem s) @ txt @ drop (b + length txt) (je_mem s) \<and> b + length txt \<le> length (je_mem s) \<and>
     je_remaining s' = je_remaining s - int (length txt) \<and> je_depth s' = je_depth s \<and>
     length (je_steps s') = length (je_steps s) \<and>
     take (nat (je_depth s)) (je_steps s') = take (nat (je_depth s)) (je_steps s) \<and> je_steps s' ! nat (je_depth s) = st"

lemma wrote_encodable: "encodable b st s \<Longrightarrow> wrote b txt st' s s' \<Longrightarrow> encodable (b + length txt) st' s'"
  by (auto simp: encodable_def wrote_def)

lemma wrote_trans:
  assumes "wrote b t1 st1 s s1" and "wrote (b + length t1) t2 st2 s1 s2"
  shows "wrote b (t1 @ t2) st2 s s2"
  using assms by (auto simp: wrote_def take_drop add.commute add.left_commute)

lemma je_step_encodable: "encodable b st s \<Longrightarrow> je_step s = Some st"
  by (simp add: encodable_def je_step_def)

lemma appended_atom:
  assumes "length (je_steps s) = 32" and "0 \<le> je_depth s" and "je_depth s < 32" and "je_steps s ! nat (je_depth s) = st"
  shows "JsonEncode_AppendedAtom s = Some (s\<lparr>je_steps := (je_steps s)[nat (je_depth s) := json_next st]\<rparr>)"
proof -
  have "(je_steps s)[nat (je_depth s) := st] = je_steps s" using assms by (metis list_update_id)
  then show ?thesis
    using assms by (cases st) (simp_all add: JsonEncode_AppendedAtom_def je_step_def je_set_step_def)
qed

lemma atom_writes:
  assumes s: "encodable b st s" and "allowed st" and "trim (json_separator st @ atom) = json_separator st @ atom"
    and room: "int (length (json_separator st @ atom)) \<le> je_remaining s"
  shows "\<exists>s'. json_atom allowed trim atom (Some b) s = Some (Some (b + length (json_separator st @ atom)), s') \<and>
    wrote b (json_separator st @ atom) (json_next st) s s'"
proof -
  let ?t = "json_separator st @ atom"
  let ?s1 = "s\<lparr>je_mem := take b (je_mem s) @ ?t @ drop (b + length ?t) (je_mem s)\<rparr>"
  let ?s2 = "?s1\<lparr>je_steps := (je_steps s)[nat (je_depth s) := json_next st]\<rparr>"
  let ?s' = "?s2\<lparr>je_remaining := je_remaining s - int (length ?t)\<rparr>"
  have fits: "b + length ?t \<le> length (je_mem s)" using s room by (simp add: encodable_def)
  have d: "nat (je_depth s) < 32" using s unfolding encodable_def by linarith
  have "JsonEncode_AppendedAtom ?s1 = Some ?s2"
    using s appended_atom [of ?s1 st] by (simp add: encodable_def)
  then have "json_atom allowed trim atom (Some b) s = Some (Some (b + length ?t), ?s')"
    using assms fits by (simp add: json_atom_def je_step_encodable [OF s] json_memcpy_def Let_def)
  moreover have "wrote b ?t (json_next st) s ?s'"
    using s fits d by (simp add: wrote_def encodable_def)
  ultimately show ?thesis by blast
qed

lemma open_writes:
  assumes s: "encodable b st s" and "je_depth s + 1 < 32" and "length bracket = 1"
    and room: "int (length (json_separator st @ bracket)) \<le> je_remaining s"
  shows "\<exists>s'. json_open bracket start (Some b) s = Some (Some (b + length (json_separator st @ bracket)), s') \<and>
    encodable (b + length (json_separator st @ bracket)) start s' \<and> je_depth s' = je_depth s + 1 \<and>
    take (nat (je_depth s) + 1) (je_steps s') = take (nat (je_depth s) + 1) (je_steps s) \<and>
    wrote b (json_separator st @ bracket) st s (s'\<lparr>je_depth := je_depth s\<rparr>)"
proof -
  let ?t = "json_separator st @ bracket"
  let ?s' = "s\<lparr>je_mem := take b (je_mem s) @ ?t @ drop (b + length ?t) (je_mem s), je_depth := je_depth s + 1,
    je_steps := (je_steps s)[nat (je_depth s + 1) := start], je_remaining := je_remaining s - int (length ?t)\<rparr>"
  have fits: "b + length ?t \<le> length (je_mem s)" using s room by (simp add: encodable_def)
  have "json_open bracket start (Some b) s = Some (Some (b + length ?t), ?s')"
    using assms fits
    by (simp add: json_open_def je_step_encodable [OF s] json_memcpy_def je_set_step_def encodable_def Let_def)
  moreover have "nat (je_depth s + 1) = Suc (nat (je_depth s))" using s by (simp add: encodable_def nat_add_distrib)
  ultimately show ?thesis
    using s fits assms(2) by (intro exI [of _ ?s']) (auto simp: wrote_def encodable_def)
qed

lemma close_writes:
  assumes s: "encodable b st s" and d: "1 \<le> je_depth s" and room: "1 \<le> je_remaining s" and "length bracket = 1"
  shows "\<exists>s'. json_close bracket (Some b) s = Some (Some (b + 1), s') \<and>
    wrote b bracket (json_next (je_steps s ! nat (je_depth s - 1))) (s\<lparr>je_depth := je_depth s - 1\<rparr>) s'"
proof -
  let ?d = "je_depth s - 1" let ?st = "je_steps s ! nat ?d"
  let ?s1 = "s\<lparr>je_mem := take b (je_mem s) @ bracket @ drop (b + 1) (je_mem s), je_depth := ?d\<rparr>"
  let ?s' = "?s1\<lparr>je_steps := (je_steps s)[nat ?d := json_next ?st], je_remaining := je_remaining s - 1\<rparr>"
  have fits: "b + 1 \<le> length (je_mem s)" using s room by (simp add: encodable_def)
  have n: "nat ?d < 32" using s d unfolding encodable_def by linarith
  have "JsonEncode_AppendedAtom ?s1 = Some (?s1\<lparr>je_steps := (je_steps s)[nat ?d := json_next ?st]\<rparr>)"
    using s d appended_atom [of ?s1 ?st] by (simp add: encodable_def)
  then have "json_close bracket (Some b) s = Some (Some (b + 1), ?s')"
    using assms fits by (simp add: json_close_def json_memcpy_def)
  moreover have "wrote b bracket (json_next ?st) (s\<lparr>je_depth := ?d\<rparr>) ?s'"
    using s fits assms(4) d n by (simp add: wrote_def encodable_def)
  ultimately show ?thesis by blast
qed

text \<open>
  A piece of a caller that, at a place \<open>st\<close> with \<open>h\<close> levels of nesting to spare and enough room, appends \<open>txt\<close> and
  leaves the place \<open>st'\<close>.
\<close>

definition writes ::
  "(nat option \<Rightarrow> (nat option, json_encoder) op) \<Rightarrow> string \<Rightarrow> JsonEncode_Step \<Rightarrow> JsonEncode_Step \<Rightarrow> nat \<Rightarrow> bool" where
  "writes f txt st st' h \<longleftrightarrow>
     (\<forall>b s. encodable b st s \<and> je_depth s + int h < 32 \<and> int (length txt) \<le> je_remaining s \<longrightarrow>
        (\<exists>s'. f (Some b) s = Some (Some (b + length txt), s') \<and> wrote b txt st' s s'))"

lemma writesD:
  assumes "writes f txt st st' h" and "encodable b st s" and "je_depth s + int h < 32" and "int (length txt) \<le> je_remaining s"
  obtains s' where "f (Some b) s = Some (Some (b + length txt), s')" "wrote b txt st' s s'"
  using assms unfolding writes_def by blast

lemma writes_mono: "writes f txt st st' h \<Longrightarrow> h \<le> k \<Longrightarrow> writes f txt st st' k"
  unfolding writes_def by force

lemma writes_nothing: "writes (\<lambda>buf s. Some (buf, s)) '''' st st h"
  by (auto simp: writes_def wrote_def encodable_def)

lemma writes_seq:
  assumes f: "writes f t1 st st1 h" and g: "writes g t2 st1 st2 h"
  shows "writes (\<lambda>buf s. do { (buf, s) \<leftarrow> f buf s; g buf s }) (t1 @ t2) st st2 h"
  unfolding writes_def
proof (intro allI impI, elim conjE)
  fix b s
  assume s: "encodable b st s" "je_depth s + int h < 32" "int (length (t1 @ t2)) \<le> je_remaining s"
  obtain s1 where 1: "f (Some b) s = Some (Some (b + length t1), s1)" "wrote b t1 st1 s s1"
    by (rule writesD [OF f s(1,2)]) (use s(3) in simp_all)
  have "je_depth s1 + int h < 32" "int (length t2) \<le> je_remaining s1" using s(2,3) 1(2) by (auto simp: wrote_def)
  from writesD [OF g wrote_encodable [OF s(1) 1(2)] this] obtain s2 where
    2: "g (Some (b + length t1)) s1 = Some (Some (b + length t1 + length t2), s2)" "wrote (b + length t1) t2 st2 s1 s2" .
  show "\<exists>s'. (do { (buf, s) \<leftarrow> f (Some b) s; g buf s }) = Some (Some (b + length (t1 @ t2)), s') \<and> wrote b (t1 @ t2) st2 s s'"
    using 1(1) 2(1) wrote_trans [OF 1(2) 2(2)] by (simp add: add.assoc)
qed

lemma writes_atom:
  assumes "allowed st" and "trim (json_separator st @ atom) = json_separator st @ atom"
  shows "writes (json_atom allowed trim atom) (json_separator st @ atom) st (json_next st) h"
  unfolding writes_def using atom_writes [where allowed = allowed and trim = trim and atom = atom, OF _ assms] by blast

lemma wrote_below:
  assumes "wrote b t2 st2 s1 s2" and "je_depth s1 = je_depth s + 1" and "0 \<le> je_depth s"
    and "take (nat (je_depth s) + 1) (je_steps s1) = take (nat (je_depth s) + 1) (je_steps s)" and "nat (je_depth s) < length (je_steps s)"
  shows "je_steps s2 ! nat (je_depth s) = je_steps s ! nat (je_depth s)"
    "take (nat (je_depth s)) (je_steps s2) = take (nat (je_depth s)) (je_steps s)"
proof -
  let ?d = "nat (je_depth s)"
  have "nat (je_depth s1) = ?d + 1" using assms(2,3) by (simp add: nat_add_distrib)
  then have t: "take (?d + 1) (je_steps s2) = take (?d + 1) (je_steps s)" using assms(1,4) by (simp add: wrote_def)
  then show "je_steps s2 ! ?d = je_steps s ! ?d" by (metis lessI nth_take Suc_eq_plus1)
  show "take ?d (je_steps s2) = take ?d (je_steps s)"
    using arg_cong [OF t, of "take ?d"] by (simp add: min_def)
qed

lemma writes_bracket:
  assumes body: "writes body t start st1 h" and "length br = 1" and "length br' = 1"
  shows "writes (\<lambda>buf s. do { (buf, s) \<leftarrow> json_open br start buf s; (buf, s) \<leftarrow> body buf s; json_close br' buf s })
    (json_separator st @ br @ t @ br') st (json_next st) (Suc h)"
  unfolding writes_def
proof (intro allI impI, elim conjE)
  fix b s
  let ?t1 = "json_separator st @ br"
  assume s: "encodable b st s" "je_depth s + int (Suc h) < 32" "int (length (json_separator st @ br @ t @ br')) \<le> je_remaining s"
  have "je_depth s + 1 < 32" "int (length ?t1) \<le> je_remaining s" using s(2,3) by simp_all
  from open_writes [OF s(1) this(1) assms(2) this(2), of start] obtain s1 where
    1: "json_open br start (Some b) s = Some (Some (b + length ?t1), s1)" "encodable (b + length ?t1) start s1"
      "je_depth s1 = je_depth s + 1" "take (nat (je_depth s) + 1) (je_steps s1) = take (nat (je_depth s) + 1) (je_steps s)"
      "wrote b ?t1 st s (s1\<lparr>je_depth := je_depth s\<rparr>)" by blast
  have "je_depth s1 + int h < 32" "int (length t) \<le> je_remaining s1" using s(2,3) 1(3,5) by (auto simp: wrote_def)
  from writesD [OF body 1(2) this] obtain s2 where
    2: "body (Some (b + length ?t1)) s1 = Some (Some (b + length ?t1 + length t), s2)" "wrote (b + length ?t1) t st1 s1 s2" .
  have d: "0 \<le> je_depth s" "nat (je_depth s) < length (je_steps s)" "length (je_steps s) = 32" "je_steps s ! nat (je_depth s) = st"
    using s(1) unfolding encodable_def by linarith+
  note below = wrote_below [OF 2(2) 1(3) d(1) 1(4) d(2)]
  have d2: "je_depth s2 = je_depth s + 1" using 2(2) 1(3) by (simp add: wrote_def)
  have "1 \<le> je_depth s2" "1 \<le> je_remaining s2" using d(1) d2 s(3) 1(5) 2(2) assms(2,3) by (auto simp: wrote_def)
  from close_writes [OF wrote_encodable [OF 1(2) 2(2)] this assms(3)] obtain s3 where
    3: "json_close br' (Some (b + length ?t1 + length t)) s2 = Some (Some (b + length ?t1 + length t + 1), s3)"
      "wrote (b + length ?t1 + length t) br' (json_next st) (s2\<lparr>je_depth := je_depth s\<rparr>) s3"
    using below(1) d(4) d2 by auto
  have "wrote (b + length ?t1) t st (s1\<lparr>je_depth := je_depth s\<rparr>) (s2\<lparr>je_depth := je_depth s\<rparr>)"
    using 2(2) below d 1(5) by (auto simp: wrote_def)
  then have "wrote b ((?t1 @ t) @ br') (json_next st) s s3"
    using wrote_trans [OF wrote_trans [OF 1(5)], of t st _ br'] 3(2) by (simp add: add.assoc)
  moreover have "b + length ?t1 + length t + 1 = b + length (json_separator st @ br @ t @ br')" using assms(3) by simp
  ultimately show "\<exists>s'. (do { (buf, s) \<leftarrow> json_open br start (Some b) s; (buf, s) \<leftarrow> body buf s; json_close br' buf s }) =
      Some (Some (b + length (json_separator st @ br @ t @ br')), s') \<and> wrote b (json_separator st @ br @ t @ br') (json_next st) s s'"
    using 1(1) 2(1) 3(1) by simp
qed

definition json_place :: "json \<Rightarrow> JsonEncode_Step \<Rightarrow> bool" where
  "json_place v st \<longleftrightarrow> st \<in> {JSON_ARRAY_START, JSON_IN_ARRAY, JSON_OBJ_VALUE} \<or>
     st = JSON_START \<and> (\<exists>vs ms. v = JArray vs \<or> v = JObject ms)"

lemma json_write_ext:
  "json_write_items [] = (\<lambda>buf s. Some (buf, s))" "json_write_members [] = (\<lambda>buf s. Some (buf, s))"
  "json_write_items (v # vs) = (\<lambda>buf s. do { (buf, s) \<leftarrow> json_write v buf s; json_write_items vs buf s })"
  "json_write_members ((k, v) # ms) = (\<lambda>buf s. do { (buf, s) \<leftarrow> JsonEncode_ObjectKey buf k s;
     (buf, s) \<leftarrow> json_write v buf s; json_write_members ms buf s })"
  by (intro ext, simp)+

lemma writes_key:
  assumes "st \<in> {JSON_OBJ_START, JSON_OBJ_KEY}"
  shows "writes (\<lambda>buf. JsonEncode_ObjectKey buf k) (json_separator st @ json_quote k) st JSON_OBJ_VALUE h"
  using assms writes_atom [of "\<lambda>st. st \<in> {JSON_ARRAY_START, JSON_OBJ_START, JSON_OBJ_KEY, JSON_IN_ARRAY, JSON_OBJ_VALUE}" st id "json_quote k" h]
  by (auto simp: JsonEncode_ObjectKey_def JsonEncode_String_def json_quote_def writes_def)

lemma json_writes:
  "json_ranged v \<Longrightarrow> json_place v st \<Longrightarrow>
     writes (json_write v) (json_separator st @ json_text v) st (json_next st) (json_height v)"
  "\<forall>v \<in> set vs. json_ranged v \<Longrightarrow> st \<in> {JSON_ARRAY_START, JSON_IN_ARRAY} \<Longrightarrow>
     writes (json_write_items vs) (if vs = [] then '''' else json_separator st @ json_items vs) st
       (if vs = [] then st else JSON_IN_ARRAY) (Max (insert 0 (json_height ` set vs)))"
  "\<forall>m \<in> set ms. json_ranged (snd m) \<Longrightarrow> st \<in> {JSON_OBJ_START, JSON_OBJ_KEY} \<Longrightarrow>
     writes (json_write_members ms) (if ms = [] then '''' else json_separator st @ json_members ms) st
       (if ms = [] then st else JSON_OBJ_KEY) (Max (insert 0 (json_height ` snd ` set ms)))"
proof (induction v and vs and ms arbitrary: st and st and st rule: json_text_json_items_json_members.induct)
  case (1 i)
  let ?ok = "\<lambda>st. st \<in> {JSON_ARRAY_START, JSON_IN_ARRAY, JSON_OBJ_VALUE}" and ?n = "if st = JSON_ARRAY_START then 11 else 12 :: nat"
  have ok: "?ok st" using 1(2) by (simp add: json_place_def)
  have "length (json_separator st @ print_int i) \<le> ?n" using ok 1(1) print_int_length [of i] by auto
  then have "writes (json_atom ?ok (take ?n) (print_int i)) (json_separator st @ print_int i) st (json_next st) 0"
    by (intro writes_atom ok) simp
  moreover have "JsonEncode_Int (Some b) i s = json_atom ?ok (take ?n) (print_int i) (Some b) s" if "encodable b st s" for b s
    using je_step_encodable [OF that] by (simp add: JsonEncode_Int_def)
  ultimately show ?case unfolding writes_def by simp
next
  case (2 b)
  then show ?case
    using writes_atom [of "\<lambda>st. st \<in> {JSON_ARRAY_START, JSON_IN_ARRAY, JSON_OBJ_VALUE}" st id "if b then ''true'' else ''false''" 0]
    by (simp add: json_place_def JsonEncode_Bool_def writes_def)
next
  case (3 t)
  then show ?case
    using writes_atom [of "\<lambda>st. st \<in> {JSON_ARRAY_START, JSON_OBJ_START, JSON_OBJ_KEY, JSON_IN_ARRAY, JSON_OBJ_VALUE}" st id "json_quote t" 0]
    by (auto simp: json_place_def JsonEncode_String_def json_quote_def writes_def)
next
  case (4 vs)
  have "writes (json_write_items vs) (json_items vs) JSON_ARRAY_START (if vs = [] then JSON_ARRAY_START else JSON_IN_ARRAY)
      (Max (insert 0 (json_height ` set vs)))"
    using 4 by (cases vs) fastforce+
  from writes_bracket [OF this, of "''[''" "'']''" st] show ?case
    by (simp add: writes_def JsonEncode_ArrayOpen_def JsonEncode_ArrayClose_def)
next
  case (5 ms)
  have "writes (json_write_members ms) (json_members ms) JSON_OBJ_START (if ms = [] then JSON_OBJ_START else JSON_OBJ_KEY)
      (Max (insert 0 (json_height ` snd ` set ms)))"
    using 5 by (cases ms) fastforce+
  from writes_bracket [OF this, of "''{''" "''}''" st] show ?case
    by (simp add: writes_def JsonEncode_ObjectOpen_def JsonEncode_ObjectClose_def)
next
  case 6
  then show ?case using writes_nothing [of st 0] by (simp add: writes_def)
next
  case (7 v)
  have "json_place v st" "json_next st = JSON_IN_ARRAY" using 7(3) by (auto simp: json_place_def)
  then have "writes (json_write v) (json_separator st @ json_text v) st JSON_IN_ARRAY (json_height v)"
    using 7(1) [of st] 7(2) by simp
  from writes_seq [OF this writes_nothing] show ?case by (simp add: json_write_ext)
next
  case (8 v w vs)
  let ?h = "Max (insert 0 (json_height ` set (v # w # vs)))" and ?k = "Max (insert 0 (json_height ` set (w # vs)))"
  have h: "json_height v \<le> ?h" "?k \<le> ?h" by (auto intro: Max_mono)
  have "json_place v st" "json_next st = JSON_IN_ARRAY" using 8(4) by (auto simp: json_place_def)
  then have v: "writes (json_write v) (json_separator st @ json_text v) st JSON_IN_ARRAY (json_height v)"
    using 8(1) [of st] 8(3) by simp
  have "writes (json_write_items (w # vs)) ('','' @ json_items (w # vs)) JSON_IN_ARRAY JSON_IN_ARRAY ?k"
    using 8(2) [of JSON_IN_ARRAY] 8(3) by (simp add: json_write_ext)
  from writes_seq [OF writes_mono [OF v h(1)] writes_mono [OF this h(2)]] show ?case
    by (simp add: json_write_ext)
next
  case 9
  then show ?case using writes_nothing [of st 0] by (simp add: writes_def)
next
  case (10 k v)
  have "writes (json_write v) (json_separator JSON_OBJ_VALUE @ json_text v) JSON_OBJ_VALUE JSON_OBJ_KEY (json_height v)"
    using 10(1) [of JSON_OBJ_VALUE] 10(2) by (simp add: json_place_def)
  from writes_seq [OF writes_key [OF 10(3)] writes_seq [OF this writes_nothing]] show ?case by (simp add: json_write_ext)
next
  case (11 k v m ms)
  let ?h = "Max (insert 0 (json_height ` snd ` set ((k, v) # m # ms)))" and ?k = "Max (insert 0 (json_height ` snd ` set (m # ms)))"
  have h: "json_height v \<le> ?h" "?k \<le> ?h" by (auto intro: Max_mono)
  have v: "writes (json_write v) (json_separator JSON_OBJ_VALUE @ json_text v) JSON_OBJ_VALUE JSON_OBJ_KEY (json_height v)"
    using 11(1) [of JSON_OBJ_VALUE] 11(3) by (simp add: json_place_def)
  have "writes (json_write_members (m # ms)) ('','' @ json_members (m # ms)) JSON_OBJ_KEY JSON_OBJ_KEY ?k"
    using 11(2) [of JSON_OBJ_KEY] 11(3) by (cases m) (simp add: json_write_ext)
  from writes_seq [OF writes_key [OF 11(4)] writes_seq [OF writes_mono [OF v h(1)] writes_mono [OF this h(2)]]] show ?case
    by (cases m) (simp add: json_write_ext)
qed

subsection \<open>Any sequence of calls\<close>

datatype json_call = Call_object_open | Call_object_key string | Call_object_close | Call_array_open | Call_array_close |
  Call_string string | Call_int int | Call_bool bool

fun json_exec :: "json_call \<Rightarrow> nat option \<Rightarrow> (nat option, json_encoder) op" where
  "json_exec Call_object_open buf s = JsonEncode_ObjectOpen buf s"
| "json_exec (Call_object_key k) buf s = JsonEncode_ObjectKey buf k s"
| "json_exec Call_object_close buf s = JsonEncode_ObjectClose buf s"
| "json_exec Call_array_open buf s = JsonEncode_ArrayOpen buf s"
| "json_exec Call_array_close buf s = JsonEncode_ArrayClose buf s"
| "json_exec (Call_string t) buf s = JsonEncode_String buf t s"
| "json_exec (Call_int i) buf s = JsonEncode_Int buf i s"
| "json_exec (Call_bool v) buf s = JsonEncode_Bool buf v s"

fun json_calls :: "json_call list \<Rightarrow> nat option \<Rightarrow> (nat option, json_encoder) op" where
  "json_calls [] buf s = Some (buf, s)"
| "json_calls (c # cs) buf s = do { (buf, s) \<leftarrow> json_exec c buf s; json_calls cs buf s }"

text \<open>A call changes only bytes of the room it was granted, and accounts for what it used.\<close>

definition json_stays :: "nat \<Rightarrow> nat option \<Rightarrow> json_encoder \<Rightarrow> json_encoder \<Rightarrow> bool" where
  "json_stays b r s s' \<longleftrightarrow> length (je_mem s') = length (je_mem s) \<and> take b (je_mem s') = take b (je_mem s) \<and>
     drop (b + nat (je_remaining s)) (je_mem s') = drop (b + nat (je_remaining s)) (je_mem s) \<and>
     (\<forall>b'. r = Some b' \<longrightarrow> b \<le> b' \<and> 0 \<le> je_remaining s' \<and> int b' + je_remaining s' = int b + je_remaining s)"

lemma appended_atom_frame:
  "JsonEncode_AppendedAtom s = Some s' \<Longrightarrow> je_mem s' = je_mem s \<and> je_remaining s' = je_remaining s"
proof -
  assume a: "JsonEncode_AppendedAtom s = Some s'"
  then obtain st where st: "je_step s = Some st" by (auto simp: JsonEncode_AppendedAtom_def bind_eq_Some_conv)
  show ?thesis using a by (cases st) (auto simp: JsonEncode_AppendedAtom_def st je_set_step_def split: if_splits)
qed

lemma json_memcpy_stays:
  assumes "json_memcpy b txt s = Some s1" and "int (length txt) \<le> je_remaining s"
  shows "length (je_mem s1) = length (je_mem s)" "take b (je_mem s1) = take b (je_mem s)"
    "drop (b + nat (je_remaining s)) (je_mem s1) = drop (b + nat (je_remaining s)) (je_mem s)" "je_remaining s1 = je_remaining s"
    "je_steps s1 = je_steps s" "je_depth s1 = je_depth s"
  using assms by (auto simp: json_memcpy_def add.commute split: if_splits)

lemma json_open_stays:
  assumes "json_open br st (Some b) s = Some (r, s')"
  shows "json_stays b r s s'"
  using assms
  by (auto simp: json_open_def json_stays_def je_set_step_def bind_eq_Some_conv Let_def split: if_splits dest: json_memcpy_stays)

lemma json_close_stays:
  assumes "json_close br (Some b) s = Some (r, s')" and "length br = 1"
  shows "json_stays b r s s'"
proof -
  consider "r = None" "s' = s"
    | s1 s2 where "json_memcpy b br s = Some s1" "JsonEncode_AppendedAtom (s1\<lparr>je_depth := je_depth s1 - 1\<rparr>) = Some s2"
        "1 \<le> je_remaining s" "r = Some (b + 1)" "s' = s2\<lparr>je_remaining := je_remaining s2 - 1\<rparr>"
    using assms(1) by (auto simp: json_close_def bind_eq_Some_conv split: if_splits)
  then show ?thesis
  proof cases
    case (2 s1 s2)
    then show ?thesis
      using json_memcpy_stays [OF 2(1)] appended_atom_frame [OF 2(2)] assms(2) by (auto simp: json_stays_def)
  qed (auto simp: json_stays_def)
qed

lemma json_atom_stays:
  assumes "json_atom ok trim atom (Some b) s = Some (r, s')"
  shows "json_stays b r s s'"
proof -
  consider "r = None" "s' = s"
    | tx s1 s2 where "json_memcpy b tx s = Some s1" "JsonEncode_AppendedAtom s1 = Some s2" "int (length tx) \<le> je_remaining s"
        "r = Some (b + length tx)" "s' = s2\<lparr>je_remaining := je_remaining s2 - int (length tx)\<rparr>"
    using assms by (auto simp: json_atom_def bind_eq_Some_conv Let_def split: if_splits)
  then show ?thesis
  proof cases
    case (2 tx s1 s2)
    then show ?thesis
      using json_memcpy_stays [OF 2(1,3)] appended_atom_frame [OF 2(2)] by (auto simp: json_stays_def)
  qed (auto simp: json_stays_def)
qed

lemma json_exec_stays: "json_exec c (Some b) s = Some (r, s') \<Longrightarrow> json_stays b r s s'"
  by (cases c) (auto simp: JsonEncode_ObjectOpen_def JsonEncode_ArrayOpen_def JsonEncode_ObjectClose_def JsonEncode_ArrayClose_def
      JsonEncode_ObjectKey_def JsonEncode_String_def JsonEncode_Int_def JsonEncode_Bool_def
      intro: json_open_stays json_close_stays json_atom_stays)

lemma json_exec_null: "json_exec c None s = Some (None, s)"
  by (cases c) (simp_all add: JsonEncode_ObjectOpen_def JsonEncode_ArrayOpen_def JsonEncode_ObjectClose_def JsonEncode_ArrayClose_def
      JsonEncode_ObjectKey_def JsonEncode_String_def JsonEncode_Int_def JsonEncode_Bool_def json_open_def json_close_def json_atom_def)

lemma json_calls_null: "json_calls cs None s = Some (None, s)"
  by (induction cs) (simp_all add: json_exec_null)

lemma json_stays_trans:
  assumes 1: "json_stays b (Some b1) s s1" and 2: "json_stays b1 r s1 s2" and "0 \<le> je_remaining s"
  shows "json_stays b r s s2"
proof -
  have b: "b \<le> b1" "b1 + nat (je_remaining s1) = b + nat (je_remaining s)" using 1 assms(3) by (auto simp: json_stays_def)
  then have "take b (je_mem s2) = take b (je_mem s1)"
    using 2 unfolding json_stays_def by (metis min.absorb1 take_take)
  then show ?thesis using 1 2 b by (auto simp: json_stays_def)
qed

subsection \<open>Properties\<close>


text \<open>
  The depth check comes one level late. With 31 elements open the stack of 32 steps is full; opening
  another one passes the check and writes the step after the end of the array, where the
  behaviour of the program is undefined.
\<close>

theorem json_depth_off_by_one:
  assumes "encodable b st s" and "je_depth s = 31" and "2 \<le> je_remaining s"
  shows "JsonEncode_ObjectOpen (Some b) s = None \<and> JsonEncode_ArrayOpen (Some b) s = None"
proof -
  have "length (json_separator st) \<le> 1" by (cases st) simp_all
  then show ?thesis
    using assms by (simp add: JsonEncode_ObjectOpen_def JsonEncode_ArrayOpen_def json_open_def je_step_encodable [OF assms(1)]
        json_memcpy_def je_set_step_def encodable_def Let_def)
qed

subsection \<open>Witnesses\<close>

definition json_buffer :: json_encoder where
  "json_buffer = \<lparr>je_steps = replicate 32 JSON_START, je_depth = 0, je_mem = replicate 48 (CHR 0x00), je_remaining = 40\<rparr>"


theorem json_depth_off_by_one_witness:
  "JsonEncode_ObjectOpen (Some 0) (json_buffer\<lparr>je_depth := 31\<rparr>) = None"
  using json_depth_off_by_one [of 0 JSON_START "json_buffer\<lparr>je_depth := 31\<rparr>"]
  by (simp add: encodable_def json_buffer_def)

end
