(* ===== verification/JsonRead.thy ===== *)
theory JsonRead
  imports JsonWrite
begin

text \<open>
  What the JSON decoder reports. The text of a tree of values makes the decoder call back once for each
  element, in order. With the encoder's side this gives the round trip of the library, and the limits of it: the texts
  on which the two disagree and the depth both fail to check.
\<close>

subsection \<open>Events\<close>

datatype json_event = Ev_bool bool | Ev_int int | Ev_string string | Ev_start_obj | Ev_key string | Ev_end_obj |
  Ev_start_array | Ev_end_array

fun json_events :: "json \<Rightarrow> json_event list" where
  "json_events (JInt i) = [Ev_int i]"
| "json_events (JBool b) = [Ev_bool b]"
| "json_events (JString s) = [Ev_string s]"
| "json_events (JArray vs) = [Ev_start_array] @ concat (map json_events vs) @ [Ev_end_array]"
| "json_events (JObject ms) = [Ev_start_obj] @ concat (map (\<lambda>(k, v). Ev_key k # json_events v) ms) @ [Ev_end_obj]"

fun json_fire :: "'c JsonDecode_Callbacks \<Rightarrow> json_event \<Rightarrow> 'c callback option" where
  "json_fire cb (Ev_bool b) = map_option (\<lambda>f. f b) (bool_callback cb)"
| "json_fire cb (Ev_int i) = map_option (\<lambda>f. f i) (int_callback cb)"
| "json_fire cb (Ev_string s) = map_option (\<lambda>f. f s) (string_callback cb)"
| "json_fire cb Ev_start_obj = start_obj_callback cb"
| "json_fire cb (Ev_key s) = map_option (\<lambda>f. f s) (obj_key_callback cb)"
| "json_fire cb Ev_end_obj = end_obj_callback cb"
| "json_fire cb Ev_start_array = start_array_callback cb"
| "json_fire cb Ev_end_array = end_array_callback cb"

definition json_report :: "'c JsonDecode_Callbacks \<Rightarrow> json_event \<Rightarrow> 'c \<Rightarrow> 'c" where
  "json_report cb e c = (case json_fire cb e of None \<Rightarrow> c | Some f \<Rightarrow> snd (f c))"

definition json_accepting :: "'c JsonDecode_Callbacks \<Rightarrow> bool" where
  "json_accepting cb \<longleftrightarrow> (\<forall>e f c. json_fire cb e = Some f \<longrightarrow> fst (f c))"

text \<open>The values the decoder understands: no negative numbers, and strings without quotes and escapes.\<close>

definition json_plain_string :: "string \<Rightarrow> bool" where
  "json_plain_string s \<longleftrightarrow> (\<forall>c \<in> set s. c \<noteq> CHR 0x22 \<and> c \<noteq> CHR 0x5C)"

fun json_plain :: "json \<Rightarrow> bool" where
  "json_plain (JInt i) \<longleftrightarrow> 0 \<le> i \<and> i < 2 ^ 31"
| "json_plain (JString s) \<longleftrightarrow> json_plain_string s"
| "json_plain (JArray vs) \<longleftrightarrow> (\<forall>v \<in> set vs. json_plain v)"
| "json_plain (JObject ms) \<longleftrightarrow> (\<forall>m \<in> set ms. json_plain_string (fst m) \<and> json_plain (snd m))"
| "json_plain _ \<longleftrightarrow> True"

subsection \<open>Scanning\<close>

definition json_boundary :: "string \<Rightarrow> bool" where
  "json_boundary txt \<longleftrightarrow> txt \<noteq> [] \<and> \<not> c_isdigit (hd txt) \<and> hd txt \<noteq> CHR ''.''"

lemma scan_number_digits:
  assumes "\<forall>c \<in> set ds. c_isdigit c \<and> c \<noteq> CHR ''.''" and "json_boundary rest"
  shows "scan_number g (ds @ rest) = Some (Some (length ds, g))"
  using assms by (induction ds) (auto simp: json_boundary_def neq_Nil_conv)

lemma atoi_print_nat:
  assumes "int n < 2 ^ 31" and "json_boundary rest"
  shows "json_atoi (print_nat n @ rest) = Some (int n)"
proof -
  have "takeWhile c_isdigit (print_nat n @ rest) = print_nat n"
    using assms(2) print_nat_digits [of _ n] by (intro takeWhile_boundary) (auto simp: json_boundary_def)
  then show ?thesis using assms(1) by (simp add: json_atoi_def read_print_nat)
qed

lemma scan_string_plain: "json_plain_string s \<Longrightarrow> scan_string (s @ CHR 0x22 # rest) = Some (length s)"
proof (induction s)
  case Nil
  then show ?case by (cases rest) simp_all
next
  case (Cons c s)
  then have "scan_string (s @ CHR 0x22 # rest) = Some (length s)" "c \<noteq> CHR 0x22" "c \<noteq> CHR 0x5C"
    by (simp_all add: json_plain_string_def)
  then show ?case by (cases "s @ CHR 0x22 # rest") auto
qed

subsection \<open>One pass\<close>

lemma jd_call_accepted:
  assumes "json_accepting cb" and "json_fire cb e = f"
  shows "jd_call f rest s = rest (s\<lparr>jd_context := json_report cb e (jd_context s)\<rparr>)"
proof (cases f)
  case None
  then show ?thesis using assms(2) by (simp add: jd_call_def json_report_def)
next
  case (Some g)
  then have "fst (g (jd_context s))" using assms by (auto simp: json_accepting_def)
  then show ?thesis using Some assms(2) by (simp add: jd_call_def json_report_def split_def Let_def)
qed

lemma loop_pass: "jd_len s \<noteq> 0 \<Longrightarrow> jd_pass cb s = Some (None, s') \<Longrightarrow> JsonDecode_loop cb s = JsonDecode_loop cb s'"
  by (subst JsonDecode_loop.simps) simp

lemma jd_pass_token:
  assumes "jd_p s = Some p" and "drop p (jd_mem s) = c # rest" and "c \<noteq> CHR '' ''"
  shows "jd_pass cb s =
    (case JsonDecode_GetToken (c # rest) (jd_len s) of
       token_true \<Rightarrow> jd_call (map_option (\<lambda>f. f True) (bool_callback cb)) (jd_advance 4) s
     | token_false \<Rightarrow> jd_call (map_option (\<lambda>f. f False) (bool_callback cb)) (jd_advance 5) s
     | token_null \<Rightarrow> jd_call (null_callback cb) (jd_advance 4) s
     | token_comma \<Rightarrow> jd_advance 1 (s\<lparr>jd_gotcomma := True\<rparr>)
     | token_colon \<Rightarrow> jd_advance 1 s
     | token_left_bracket \<Rightarrow> jd_open JSON_DECODE_OBJECT_START (start_obj_callback cb) s
     | token_right_bracket \<Rightarrow> jd_close (end_obj_callback cb) s
     | token_left_brace \<Rightarrow> jd_open JSON_DECODE_IN_ARRAY (start_array_callback cb) s
     | token_right_brace \<Rightarrow> jd_close (end_array_callback cb) s
     | token_number \<Rightarrow> jd_number cb (c # rest) s
     | token_string \<Rightarrow> jd_string cb p s
     | _ \<Rightarrow> Some (Some False, s))"
proof -
  have s: "s\<lparr>jd_p := Some p\<rparr> = s" using assms(1) by (cases s) simp
  have w: "p + length (takeWhile (\<lambda>c. c = CHR '' '') (drop p (jd_mem s))) = p" using assms(2,3) by simp
  show ?thesis
    unfolding jd_pass_def assms(1) bind.simps w s Let_def unfolding assms(2) by simp
qed

subsection \<open>Texts the decoder reads\<close>

text \<open>
  The decoder stands before \<open>txt\<close> with \<open>h\<close> levels of nesting to spare, and it has read it, calling back with
  \<open>evs\<close>, when the loop goes on from a state just behind it at the same depth.
\<close>

definition json_input :: "nat \<Rightarrow> string \<Rightarrow> string \<Rightarrow> nat \<Rightarrow> 'c JsonDecode_State \<Rightarrow> bool" where
  "json_input p txt rest h s \<longleftrightarrow> jd_p s = Some p \<and> drop p (jd_mem s) = txt @ rest \<and> int (length txt) \<le> jd_len s \<and>
     length (jd_steps s) = 32 \<and> 0 \<le> jd_depth s \<and> jd_depth s + int h < 32"

definition json_output ::
  "'c JsonDecode_Callbacks \<Rightarrow> nat \<Rightarrow> string \<Rightarrow> string \<Rightarrow> json_event list \<Rightarrow> 'c JsonDecode_State \<Rightarrow> 'c JsonDecode_State \<Rightarrow> bool" where
  "json_output cb p txt rest evs s s' \<longleftrightarrow> JsonDecode_loop cb s = JsonDecode_loop cb s' \<and> jd_p s' = Some (p + length txt) \<and>
     drop (p + length txt) (jd_mem s') = rest \<and> jd_len s' = jd_len s - int (length txt) \<and> jd_depth s' = jd_depth s \<and>
     length (jd_steps s') = 32 \<and> take (nat (jd_depth s)) (jd_steps s') = take (nat (jd_depth s)) (jd_steps s) \<and>
     jd_context s' = fold (json_report cb) evs (jd_context s)"

definition json_reads ::
  "'c JsonDecode_Callbacks \<Rightarrow> bool \<Rightarrow> string \<Rightarrow> json_event list \<Rightarrow> (JsonDecode_Step \<Rightarrow> bool \<Rightarrow> bool) \<Rightarrow> (JsonDecode_Step \<Rightarrow> bool \<Rightarrow> bool) \<Rightarrow> nat \<Rightarrow> bool" where
  "json_reads cb bd txt evs ok ok' h \<longleftrightarrow>
     (\<forall>s p rest. json_input p txt rest h s \<and> (bd \<longrightarrow> json_boundary rest) \<and> ok (jd_steps s ! nat (jd_depth s)) (jd_gotcomma s) \<longrightarrow>
        (\<exists>s'. json_output cb p txt rest evs s s' \<and> ok' (jd_steps s' ! nat (jd_depth s')) (jd_gotcomma s')))"

lemma json_readsD:
  assumes "json_reads cb bd txt evs ok ok' h" and "json_input p txt rest h s" and "bd \<Longrightarrow> json_boundary rest"
    and "ok (jd_steps s ! nat (jd_depth s)) (jd_gotcomma s)"
  obtains s' where "json_output cb p txt rest evs s s'" "ok' (jd_steps s' ! nat (jd_depth s')) (jd_gotcomma s')"
  using assms unfolding json_reads_def by blast

lemma json_reads_weaken:
  fixes cb :: "'a JsonDecode_Callbacks"
  assumes "json_reads cb bd txt evs ok ok' h" and "bd \<Longrightarrow> bd1" and "\<And>st g. ok1 st g \<Longrightarrow> ok st g"
    and "\<And>st g. ok' st g \<Longrightarrow> ok2 st g" and "h \<le> k"
  shows "json_reads cb bd1 txt evs ok1 ok2 k"
  unfolding json_reads_def
proof (intro allI impI, elim conjE)
  fix s :: "'a JsonDecode_State" and p rest
  assume s: "json_input p txt rest k s" "bd1 \<longrightarrow> json_boundary rest" "ok1 (jd_steps s ! nat (jd_depth s)) (jd_gotcomma s)"
  have "json_input p txt rest h s" using s(1) assms(5) by (auto simp: json_input_def)
  then show "\<exists>s'. json_output cb p txt rest evs s s' \<and> ok2 (jd_steps s' ! nat (jd_depth s')) (jd_gotcomma s')"
    by (rule json_readsD [OF assms(1)]) (use s(2,3) assms(2-4) in blast)+
qed

lemma json_reads_seq:
  fixes cb :: "'a JsonDecode_Callbacks"
  assumes 1: "json_reads cb b1 t1 e1 ok ok1 h" and 2: "json_reads cb b2 t2 e2 ok1 ok2 h" and b: "b1 \<Longrightarrow> json_boundary t2"
  shows "json_reads cb b2 (t1 @ t2) (e1 @ e2) ok ok2 h"
  unfolding json_reads_def
proof (intro allI impI, elim conjE)
  fix s :: "'a JsonDecode_State" and p rest
  assume s: "json_input p (t1 @ t2) rest h s" "b2 \<longrightarrow> json_boundary rest" "ok (jd_steps s ! nat (jd_depth s)) (jd_gotcomma s)"
  have "json_input p t1 (t2 @ rest) h s" using s(1) by (simp add: json_input_def)
  moreover have "json_boundary (t2 @ rest)" if b1 using b [OF that] by (simp add: json_boundary_def)
  ultimately obtain s1 where s1: "json_output cb p t1 (t2 @ rest) e1 s s1" "ok1 (jd_steps s1 ! nat (jd_depth s1)) (jd_gotcomma s1)"
    using json_readsD [OF 1] s(3) by blast
  have "json_input (p + length t1) t2 rest h s1" using s(1) s1(1) by (simp add: json_input_def json_output_def)
  then obtain s2 where s2: "json_output cb (p + length t1) t2 rest e2 s1 s2" "ok2 (jd_steps s2 ! nat (jd_depth s2)) (jd_gotcomma s2)"
    using json_readsD [OF 2] s(2) s1(2) by blast
  have "json_output cb p (t1 @ t2) rest (e1 @ e2) s s2"
    using s1(1) s2(1) by (simp add: json_output_def add.assoc)
  then show "\<exists>s'. json_output cb p (t1 @ t2) rest (e1 @ e2) s s' \<and> ok2 (jd_steps s' ! nat (jd_depth s')) (jd_gotcomma s')"
    using s2(2) by blast
qed

text \<open>A token that only moves on, with a change of the context and of the comma flag.\<close>

lemma json_output_pass:
  assumes "json_input p txt rest h s" and "txt \<noteq> []" and "jd_pass cb s = jd_advance (length txt) (s\<lparr>jd_context := c, jd_gotcomma := g\<rparr>)"
    and "c = fold (json_report cb) evs (jd_context s)"
  shows "\<exists>s'. json_output cb p txt rest evs s s' \<and> jd_steps s' = jd_steps s \<and> jd_depth s' = jd_depth s \<and> jd_gotcomma s' = g"
proof -
  have p: "jd_p s = Some p" "drop p (jd_mem s) = txt @ rest" "jd_len s \<noteq> 0" using assms(1,2) by (auto simp: json_input_def)
  let ?s' = "s\<lparr>jd_context := c, jd_gotcomma := g, jd_p := Some (p + length txt), jd_len := jd_len s - int (length txt)\<rparr>"
  have "jd_pass cb s = Some (None, ?s')" using assms(3) p(1) by (simp add: jd_advance_def)
  then have "JsonDecode_loop cb s = JsonDecode_loop cb ?s'" by (rule loop_pass [OF p(3)])
  moreover have "drop (p + length txt) (jd_mem s) = rest" using p(2) by (metis add.commute append_eq_conv_conj drop_drop)
  ultimately have "json_output cb p txt rest evs s ?s'" using assms(1,4) by (simp add: json_output_def json_input_def)
  then show ?thesis by (intro exI [of _ ?s']) simp
qed

lemma reads_pass:
  fixes cb :: "'a JsonDecode_Callbacks"
  assumes "txt \<noteq> []" and "\<And>st b. ok st b \<Longrightarrow> ok' st (g b)"
    and pass: "\<And>s p rest. json_input p txt rest h s \<Longrightarrow> bd \<longrightarrow> json_boundary rest \<Longrightarrow> jd_pass cb s =
      jd_advance (length txt) (s\<lparr>jd_context := fold (json_report cb) evs (jd_context s), jd_gotcomma := g (jd_gotcomma s)\<rparr>)"
  shows "json_reads cb bd txt evs ok ok' h"
  unfolding json_reads_def
proof (intro allI impI, elim conjE)
  fix s :: "'a JsonDecode_State" and p rest
  assume s: "json_input p txt rest h s" "bd \<longrightarrow> json_boundary rest" "ok (jd_steps s ! nat (jd_depth s)) (jd_gotcomma s)"
  from json_output_pass [OF s(1) assms(1) pass [OF s(1,2)] refl] obtain s' where
    "json_output cb p txt rest evs s s'" "jd_steps s' = jd_steps s" "jd_depth s' = jd_depth s" "jd_gotcomma s' = g (jd_gotcomma s)" by blast
  then show "\<exists>s'. json_output cb p txt rest evs s s' \<and> ok' (jd_steps s' ! nat (jd_depth s')) (jd_gotcomma s')"
    using assms(2) [OF s(3)] by (intro exI [of _ s']) simp
qed

lemma reads_comma:
  fixes cb :: "'a JsonDecode_Callbacks"
  shows "json_reads cb False '','' [] (\<lambda>st g. st = X) (\<lambda>st g. st = X \<and> g) h"
proof (rule reads_pass [where g = "\<lambda>_. True"])
  fix s :: "'a JsonDecode_State" and p rest
  assume "json_input p '','' rest h s"
  then show "jd_pass cb s = jd_advance (length '','') (s\<lparr>jd_context := fold (json_report cb) [] (jd_context s), jd_gotcomma := True\<rparr>)"
    by (subst jd_pass_token [of s p "CHR '',''" rest]) (simp_all add: json_input_def JsonDecode_GetToken_def)
qed simp_all

lemma reads_colon:
  fixes cb :: "'a JsonDecode_Callbacks"
  shows "json_reads cb False '':'' [] ok ok h"
proof (rule reads_pass [where g = "\<lambda>b. b"])
  fix s :: "'a JsonDecode_State" and p rest
  assume "json_input p '':'' rest h s"
  then show "jd_pass cb s = jd_advance (length '':'') (s\<lparr>jd_context := fold (json_report cb) [] (jd_context s), jd_gotcomma := jd_gotcomma s\<rparr>)"
    by (subst jd_pass_token [of s p "CHR '':''" rest]) (simp_all add: json_input_def JsonDecode_GetToken_def)
qed simp_all

lemma token_bool:
  "4 \<le> len \<Longrightarrow> JsonDecode_GetToken (''true'' @ rest) len = token_true"
  "5 \<le> len \<Longrightarrow> JsonDecode_GetToken (''false'' @ rest) len = token_false"
proof -
  have "\<not> c_isdigit (CHR ''t'')" "\<not> c_isdigit (CHR ''f'')" by code_simp+
  then show "4 \<le> len \<Longrightarrow> JsonDecode_GetToken (''true'' @ rest) len = token_true"
    "5 \<le> len \<Longrightarrow> JsonDecode_GetToken (''false'' @ rest) len = token_false"
    by (simp_all add: JsonDecode_GetToken_def)
qed

lemma reads_bool:
  fixes cb :: "'a JsonDecode_Callbacks"
  assumes cb: "json_accepting cb"
  shows "json_reads cb False (if b then ''true'' else ''false'') [Ev_bool b] ok ok h"
proof (rule reads_pass [where g = "\<lambda>b. b"])
  fix s :: "'a JsonDecode_State" and p rest
  let ?t = "if b then ''true'' else ''false''"
  assume s: "json_input p ?t rest h s"
  have f: "json_fire cb (Ev_bool b) = map_option (\<lambda>f. f b) (bool_callback cb)" by simp
  have "jd_pass cb s = jd_call (map_option (\<lambda>f. f b) (bool_callback cb)) (jd_advance (length ?t)) s"
  proof (cases b)
    case True
    then show ?thesis
      using s token_bool(1) [of "jd_len s" rest]
      by (subst jd_pass_token [of s p "CHR ''t''" "''rue'' @ rest"]) (simp_all add: json_input_def numeral_eq_Suc)
  next
    case False
    then show ?thesis
      using s token_bool(2) [of "jd_len s" rest]
      by (subst jd_pass_token [of s p "CHR ''f''" "''alse'' @ rest"]) (simp_all add: json_input_def numeral_eq_Suc)
  qed
  then show "jd_pass cb s = jd_advance (length ?t)
      (s\<lparr>jd_context := fold (json_report cb) [Ev_bool b] (jd_context s), jd_gotcomma := jd_gotcomma s\<rparr>)"
    by (simp add: jd_call_accepted [OF cb f])
qed simp_all

lemma token_digit: "c_isdigit c \<Longrightarrow> JsonDecode_GetToken (c # rest) len = token_number \<and> c \<noteq> CHR '' ''"
proof -
  assume c: "c_isdigit c"
  have "\<forall>x \<in> set (CHR 0x22 # '':,{}[] ''). \<not> c_isdigit x" by code_simp
  then have "c \<notin> set (CHR 0x22 # '':,{}[] '')" using c by blast
  then show ?thesis using c by (simp add: JsonDecode_GetToken_def)
qed

lemma reads_int:
  fixes cb :: "'a JsonDecode_Callbacks"
  assumes cb: "json_accepting cb" and i: "0 \<le> i" "i < 2 ^ 31"
  shows "json_reads cb True (print_int i) [Ev_int i] ok ok h"
proof -
  have pi: "print_int i = print_nat (nat i)" using i(1) by (simp add: print_int_def)
  obtain c cs where cs: "print_nat (nat i) = c # cs" using print_nat_nonempty by (metis neq_Nil_conv)
  have c: "c_isdigit c" using print_nat_digits [of c "nat i"] cs by simp
  show ?thesis
  proof (rule reads_pass [where g = "\<lambda>b. b"])
    fix s :: "'a JsonDecode_State" and p rest
    assume s: "json_input p (print_int i) rest h s" "True \<longrightarrow> json_boundary rest"
    have f: "json_fire cb (Ev_int i) = map_option (\<lambda>f. f i) (int_callback cb)" by simp
    have scan: "scan_number False (c # cs @ rest) = Some (Some (Suc (length cs), False))"
      using scan_number_digits [of "c # cs" rest False] print_nat_digits [of _ "nat i", unfolded cs] s(2) by simp
    have atoi: "json_atoi (c # cs @ rest) = Some i" using atoi_print_nat [of "nat i" rest] s(2) i cs by simp
    have n: "jd_number cb (c # cs @ rest) s = jd_call (map_option (\<lambda>f. f i) (int_callback cb)) (jd_advance (length (print_int i))) s"
      unfolding jd_number_def scan atoi pi cs by (cases "int_callback cb") (simp_all add: jd_call_def)
    have "jd_pass cb s = jd_number cb (c # cs @ rest) s"
      using s(1) token_digit [OF c] cs pi by (subst jd_pass_token [of s p c "cs @ rest"]) (simp_all add: json_input_def)
    then show "jd_pass cb s = jd_advance (length (print_int i))
        (s\<lparr>jd_context := fold (json_report cb) [Ev_int i] (jd_context s), jd_gotcomma := jd_gotcomma s\<rparr>)"
      by (simp add: n jd_call_accepted [OF cb f])
  qed (simp_all add: pi cs)
qed

text \<open>
  A string is a key at the start of an object and after a comma in one, otherwise a value.
\<close>

definition json_key_place :: "JsonDecode_Step \<Rightarrow> bool \<Rightarrow> bool" where
  "json_key_place st g \<longleftrightarrow> st = JSON_DECODE_OBJECT_START \<or> st = JSON_DECODE_IN_OBJECT \<and> g"

lemma string_pass:
  assumes cb: "json_accepting cb" and s: "json_input p (json_quote t) rest h s" and t: "json_plain_string t"
    and st: "jd_steps s ! nat (jd_depth s) = st"
  defines "key \<equiv> json_key_place st (jd_gotcomma s)"
  shows "\<exists>s'. json_output cb p (json_quote t) rest [if key then Ev_key t else Ev_string t] s s' \<and>
    jd_steps s' ! nat (jd_depth s') = (if st = JSON_DECODE_OBJECT_START then JSON_DECODE_IN_OBJECT else st) \<and>
    jd_gotcomma s' = (jd_gotcomma s \<and> \<not> key)"
proof -
  let ?e = "if key then Ev_key t else Ev_string t"
  let ?st = "if st = JSON_DECODE_OBJECT_START then JSON_DECODE_IN_OBJECT else st"
  have p: "jd_p s = Some p" "drop p (jd_mem s) = CHR 0x22 # t @ CHR 0x22 # rest" "int (length t + 2) \<le> jd_len s"
    and d: "length (jd_steps s) = 32" "0 \<le> jd_depth s" "jd_depth s < 32" "nat (jd_depth s) < 32"
    using s by (auto simp: json_input_def json_quote_def)
  have p1: "drop (Suc p) (jd_mem s) = t @ CHR 0x22 # rest" using p(2) by (metis add.commute drop_drop drop_Suc_Cons drop0 plus_1_eq_Suc)
  have len: "length (jd_mem s) = p + length t + 2 + length rest"
    using arg_cong [OF p(2), of length] by simp
  let ?mem = "(jd_mem s)[p + 1 + length t := CHR 0x00]"
  have mem: "drop (p + (length t + 2)) ?mem = rest"
    using p1 by (simp add: drop_update_cancel) (metis add.commute add_2_eq_Suc' add_Suc_right append_eq_conv_conj drop_drop drop_Suc_Cons drop0 plus_1_eq_Suc)
  have step: "(jd_steps s)[nat (jd_depth s) := st] = jd_steps s" using st by (metis list_update_id)
  define u where "u = s\<lparr>jd_mem := ?mem, jd_steps := (jd_steps s)[nat (jd_depth s) := ?st], jd_gotcomma := jd_gotcomma s \<and> \<not> key,
      jd_context := json_report cb ?e (jd_context s), jd_p := Some (p + (length t + 2)), jd_len := jd_len s - int (length t + 2)\<rparr>"
  have f: "json_fire cb ?e = map_option (\<lambda>f. f t) (if key then obj_key_callback cb else string_callback cb)" by simp
  have scan: "scan_string (drop (Suc p) (jd_mem s)) = Some (length t)" "take (length t) (drop (Suc p) (jd_mem s)) = t"
    unfolding p1 using scan_string_plain [OF t] by simp_all
  let ?v = "s\<lparr>jd_p := Some (p + 1), jd_len := jd_len s - 1, jd_mem := ?mem, jd_steps := (jd_steps s)[nat (jd_depth s) := ?st],
      jd_gotcomma := jd_gotcomma s \<and> \<not> key\<rparr>"
  have "jd_string cb p s = jd_call (map_option (\<lambda>f. f t) (if key then obj_key_callback cb else string_callback cb)) (jd_advance (length t + 1)) ?v"
    using d st step scan unfolding jd_string_def
    by (cases st; cases "jd_gotcomma s"; cases s) (simp_all add: jd_step_def jd_set_step_def key_def json_key_place_def Let_def del: drop_Suc)
  also have "\<dots> = Some (None, u)"
    unfolding jd_call_accepted [OF cb f] by (simp add: jd_advance_def u_def)
  finally have "jd_string cb p s = Some (None, u)" .
  moreover have "jd_pass cb s = jd_string cb p s"
    using p by (subst jd_pass_token [of s p "CHR 0x22" "t @ CHR 0x22 # rest"]) (simp_all add: JsonDecode_GetToken_def)
  moreover have "jd_len s \<noteq> 0" using p(3) by simp
  ultimately have "JsonDecode_loop cb s = JsonDecode_loop cb u" by (simp add: loop_pass)
  then have "json_output cb p (json_quote t) rest [?e] s u"
    using d mem by (simp add: json_output_def u_def json_quote_def)
  then show ?thesis using d by (intro exI [of _ u]) (simp add: u_def)
qed

lemma reads_string:
  fixes cb :: "'a JsonDecode_Callbacks"
  assumes cb: "json_accepting cb" and t: "json_plain_string t"
  shows "json_reads cb False (json_quote t) [Ev_string t]
      (\<lambda>st g. st = X \<and> X \<noteq> JSON_DECODE_OBJECT_START \<and> \<not> json_key_place st g) (\<lambda>st g. st = X) h" (is "json_reads _ _ _ _ ?ok _ _")
    and "json_reads cb False (json_quote t) [Ev_key t] json_key_place (\<lambda>st g. st = JSON_DECODE_IN_OBJECT \<and> \<not> g) h"
  unfolding json_reads_def
proof (intro allI impI, elim conjE)
  fix s :: "'a JsonDecode_State" and p rest
  assume s: "json_input p (json_quote t) rest h s" and ok: "jd_steps s ! nat (jd_depth s) = X" "X \<noteq> JSON_DECODE_OBJECT_START"
    "\<not> json_key_place (jd_steps s ! nat (jd_depth s)) (jd_gotcomma s)"
  from string_pass [OF cb s t ok(1)] ok obtain s' where
    "json_output cb p (json_quote t) rest [Ev_string t] s s'" "jd_steps s' ! nat (jd_depth s') = X" by auto
  then show "\<exists>s'. json_output cb p (json_quote t) rest [Ev_string t] s s' \<and> jd_steps s' ! nat (jd_depth s') = X" by blast
next
  show "\<forall>s p rest. json_input p (json_quote t) rest h s \<and> (False \<longrightarrow> json_boundary rest) \<and>
      json_key_place (jd_steps s ! nat (jd_depth s)) (jd_gotcomma s) \<longrightarrow>
      (\<exists>s'. json_output cb p (json_quote t) rest [Ev_key t] s s' \<and> jd_steps s' ! nat (jd_depth s') = JSON_DECODE_IN_OBJECT \<and> \<not> jd_gotcomma s')"
  proof (intro allI impI, elim conjE)
    fix s :: "'a JsonDecode_State" and p rest
    assume s: "json_input p (json_quote t) rest h s" and ok: "json_key_place (jd_steps s ! nat (jd_depth s)) (jd_gotcomma s)"
    from string_pass [OF cb s t refl] obtain s' where s': "json_output cb p (json_quote t) rest [Ev_key t] s s'" "\<not> jd_gotcomma s'"
      "jd_steps s' ! nat (jd_depth s') =
        (if jd_steps s ! nat (jd_depth s) = JSON_DECODE_OBJECT_START then JSON_DECODE_IN_OBJECT else jd_steps s ! nat (jd_depth s))"
      using ok by auto
    moreover have "jd_steps s' ! nat (jd_depth s') = JSON_DECODE_IN_OBJECT" using ok s'(3) by (auto simp: json_key_place_def)
    ultimately show "\<exists>s'. json_output cb p (json_quote t) rest [Ev_key t] s s' \<and> jd_steps s' ! nat (jd_depth s') = JSON_DECODE_IN_OBJECT \<and> \<not> jd_gotcomma s'"
      by blast
  qed
qed

lemma open_pass:
  assumes cb: "json_accepting cb" and f: "json_fire cb e = f" and s: "json_input p (c # txt) rest (Suc h) s"
    and pass: "jd_pass cb s = jd_open st f s"
  shows "\<exists>s'. JsonDecode_loop cb s = JsonDecode_loop cb s' \<and> json_input (p + 1) txt rest h s' \<and> jd_len s' = jd_len s - 1 \<and>
    jd_depth s' = jd_depth s + 1 \<and> jd_steps s' ! nat (jd_depth s') = st \<and>
    take (nat (jd_depth s) + 1) (jd_steps s') = take (nat (jd_depth s) + 1) (jd_steps s) \<and>
    jd_context s' = json_report cb e (jd_context s)"
proof -
  have p: "jd_p s = Some p" "drop p (jd_mem s) = c # txt @ rest" "1 + int (length txt) \<le> jd_len s"
    and d: "length (jd_steps s) = 32" "0 \<le> jd_depth s" "jd_depth s + 1 + int h < 32"
    using s by (auto simp: json_input_def)
  have n: "nat (jd_depth s + 1) = Suc (nat (jd_depth s))" using d(2) by (simp add: nat_add_distrib)
  have n32: "nat (jd_depth s) < 31" using d(2,3) by linarith
  let ?s' = "s\<lparr>jd_depth := jd_depth s + 1, jd_steps := (jd_steps s)[nat (jd_depth s + 1) := st],
    jd_context := json_report cb e (jd_context s), jd_p := Some (p + 1), jd_len := jd_len s - 1\<rparr>"
  have "jd_open st f s = Some (None, ?s')"
    using d p(1) by (simp add: jd_open_def jd_set_step_def jd_call_accepted [OF cb f] jd_advance_def)
  then have "JsonDecode_loop cb s = JsonDecode_loop cb ?s'" using pass p(3) by (intro loop_pass) simp_all
  moreover have "drop (p + 1) (jd_mem s) = txt @ rest" using p(2) by (metis add.commute drop_drop drop_Suc_Cons drop0 plus_1_eq_Suc)
  ultimately show ?thesis
    using d p n n32 by (intro exI [of _ ?s']) (auto simp: json_input_def)
qed

lemma close_pass:
  assumes cb: "json_accepting cb" and f: "json_fire cb e = f" and p: "jd_p s = Some p" "drop p (jd_mem s) = c # rest" "jd_len s \<noteq> 0"
    and pass: "jd_pass cb s = jd_close f s"
  shows "\<exists>s'. JsonDecode_loop cb s = JsonDecode_loop cb s' \<and> jd_p s' = Some (p + 1) \<and> drop (p + 1) (jd_mem s') = rest \<and>
    jd_len s' = jd_len s - 1 \<and> jd_depth s' = jd_depth s - 1 \<and> jd_steps s' = jd_steps s \<and>
    jd_context s' = json_report cb e (jd_context s)"
proof -
  let ?s' = "s\<lparr>jd_depth := jd_depth s - 1, jd_context := json_report cb e (jd_context s), jd_p := Some (p + 1), jd_len := jd_len s - 1\<rparr>"
  have "jd_close f s = Some (None, ?s')"
    using p(1) by (simp add: jd_close_def jd_call_accepted [OF cb f] jd_advance_def)
  then have "JsonDecode_loop cb s = JsonDecode_loop cb ?s'" using pass p(3) by (intro loop_pass) simp_all
  moreover have "drop (p + 1) (jd_mem s) = rest" using p(2) by (metis add.commute drop_drop drop_Suc_Cons drop0 plus_1_eq_Suc)
  ultimately show ?thesis by (intro exI [of _ ?s']) simp
qed

lemma reads_bracket:
  fixes cb :: "'a JsonDecode_Callbacks"
  assumes cb: "json_accepting cb" and body: "json_reads cb True t evs (\<lambda>st' _. st' = st) ok' h"
    and f: "json_fire cb e = f" "json_fire cb e' = f'"
    and opens: "\<And>s p rest. jd_p s = Some p \<Longrightarrow> drop p (jd_mem s) = c # rest \<Longrightarrow> jd_pass cb s = jd_open st f s"
    and closes: "\<And>s p rest. jd_p s = Some p \<Longrightarrow> drop p (jd_mem s) = c' # rest \<Longrightarrow> jd_pass cb s = jd_close f' s"
    and bd: "json_boundary [c']"
  shows "json_reads cb False ([c] @ t @ [c']) ([e] @ evs @ [e']) (\<lambda>st _. st = X) (\<lambda>st _. st = X) (Suc h)"
  unfolding json_reads_def
proof (intro allI impI, elim conjE)
  fix s :: "'a JsonDecode_State" and p rest
  assume s: "json_input p ([c] @ t @ [c']) rest (Suc h) s" and X: "jd_steps s ! nat (jd_depth s) = X"
  have s0: "json_input p (c # t @ [c']) rest (Suc h) s" using s by simp
  then have "jd_pass cb s = jd_open st f s" by (intro opens) (auto simp: json_input_def)
  from open_pass [OF cb f(1) s0 this] obtain s1 where
    1: "JsonDecode_loop cb s = JsonDecode_loop cb s1" "json_input (p + 1) (t @ [c']) rest h s1" "jd_len s1 = jd_len s - 1"
      "jd_depth s1 = jd_depth s + 1" "jd_steps s1 ! nat (jd_depth s1) = st"
      "take (nat (jd_depth s) + 1) (jd_steps s1) = take (nat (jd_depth s) + 1) (jd_steps s)" "jd_context s1 = json_report cb e (jd_context s)" by blast
  have "json_input (p + 1) t ([c'] @ rest) h s1" using 1(2) by (simp add: json_input_def)
  moreover have "json_boundary ([c'] @ rest)" using bd by (simp add: json_boundary_def)
  ultimately obtain s2 where 2: "json_output cb (p + 1) t ([c'] @ rest) evs s1 s2" using json_readsD [OF body] 1(5) by blast
  have d: "0 \<le> jd_depth s" "nat (jd_depth s) < length (jd_steps s)" using s by (auto simp: json_input_def)
  have d1: "nat (jd_depth s1) = nat (jd_depth s) + 1" using 1(4) d(1) by (simp add: nat_add_distrib)
  have p2: "jd_p s2 = Some (p + 1 + length t)" "drop (p + 1 + length t) (jd_mem s2) = c' # rest" "jd_len s2 \<noteq> 0"
    using 2 1(3) s by (auto simp: json_output_def json_input_def)
  from close_pass [OF cb f(2) p2 closes [OF p2(1,2)]] obtain s3 where
    3: "JsonDecode_loop cb s2 = JsonDecode_loop cb s3" "jd_p s3 = Some (p + 1 + length t + 1)" "drop (p + 1 + length t + 1) (jd_mem s3) = rest"
      "jd_len s3 = jd_len s2 - 1" "jd_depth s3 = jd_depth s2 - 1" "jd_steps s3 = jd_steps s2" "jd_context s3 = json_report cb e' (jd_context s2)" by blast
  have t: "take (nat (jd_depth s) + 1) (jd_steps s3) = take (nat (jd_depth s) + 1) (jd_steps s)"
    using 2 3(6) 1(6) d1 by (simp add: json_output_def)
  have "take (nat (jd_depth s)) (jd_steps s3) = take (nat (jd_depth s)) (jd_steps s)"
    using arg_cong [OF t, of "take (nat (jd_depth s))"] by (simp add: min_def)
  moreover have "jd_steps s3 ! nat (jd_depth s) = X" using t X by (metis less_add_one nth_take)
  ultimately have "json_output cb p ([c] @ t @ [c']) rest ([e] @ evs @ [e']) s s3" "jd_steps s3 ! nat (jd_depth s3) = X"
    using 1 2 3 by (simp_all add: json_output_def add.commute add.left_commute)
  then show "\<exists>s'. json_output cb p ([c] @ t @ [c']) rest ([e] @ evs @ [e']) s s' \<and> jd_steps s' ! nat (jd_depth s') = X" by blast
qed

subsection \<open>The text of a value\<close>

lemma boundary_chars: "json_boundary (CHR '','' # r)" "json_boundary '']''" "json_boundary ''}''"
proof -
  have "\<not> c_isdigit (CHR '','')" "\<not> c_isdigit (CHR '']'')" "\<not> c_isdigit (CHR ''}'')" by code_simp+
  then show "json_boundary (CHR '','' # r)" "json_boundary '']''" "json_boundary ''}''" by (simp_all add: json_boundary_def)
qed

lemma bracket_passes:
  assumes "jd_p s = Some p"
  shows "drop p (jd_mem s) = CHR ''['' # r \<Longrightarrow> jd_pass cb s = jd_open JSON_DECODE_IN_ARRAY (start_array_callback cb) s"
    and "drop p (jd_mem s) = CHR '']'' # r \<Longrightarrow> jd_pass cb s = jd_close (end_array_callback cb) s"
    and "drop p (jd_mem s) = CHR ''{'' # r \<Longrightarrow> jd_pass cb s = jd_open JSON_DECODE_OBJECT_START (start_obj_callback cb) s"
    and "drop p (jd_mem s) = CHR ''}'' # r \<Longrightarrow> jd_pass cb s = jd_close (end_obj_callback cb) s"
  by (simp_all add: jd_pass_token [OF assms] JsonDecode_GetToken_def)

lemma reads_nothing: "json_reads cb bd '''' [] ok ok h"
  by (auto simp: json_reads_def json_output_def json_input_def)

definition json_value_place :: "json \<Rightarrow> JsonDecode_Step \<Rightarrow> bool \<Rightarrow> bool" where
  "json_value_place v st g \<longleftrightarrow> st = JSON_DECODE_IN_ARRAY \<or> st = JSON_DECODE_IN_OBJECT \<and> \<not> g \<or> (\<exists>vs ms. v = JArray vs \<or> v = JObject ms)"

lemma json_text_reads:
  fixes cb :: "'a JsonDecode_Callbacks"
  assumes cb: "json_accepting cb"
  shows "json_plain v \<Longrightarrow> json_reads cb (\<exists>i. v = JInt i) (json_text v) (json_events v) (\<lambda>st g. st = X \<and> json_value_place v st g) (\<lambda>st g. st = X) (json_height v)"
  and "\<forall>v \<in> set vs. json_plain v \<Longrightarrow> json_reads cb True (json_items vs) (concat (map json_events vs))
     (\<lambda>st g. st = JSON_DECODE_IN_ARRAY) (\<lambda>st g. st = JSON_DECODE_IN_ARRAY) (Max (insert 0 (json_height ` set vs)))"
  and "\<forall>m \<in> set ms. json_plain_string (fst m) \<and> json_plain (snd m) \<Longrightarrow>
     json_reads cb True (json_members ms) (concat (map (\<lambda>(k, v). Ev_key k # json_events v) ms))
       json_key_place (\<lambda>_ _. True) (Max (insert 0 (json_height ` snd ` set ms)))"
proof (induction v and vs and ms arbitrary: X rule: json_text_json_items_json_members.induct)
  case (1 i)
  then have i: "0 \<le> i" "i < 2 ^ 31" by simp_all
  show ?case
    unfolding json_text.simps json_events.simps by (rule json_reads_weaken [OF reads_int [OF cb i, of "\<lambda>st g. st = X" 0]]) simp_all
next
  case (2 b)
  show ?case unfolding json_text.simps json_events.simps by (rule json_reads_weaken [OF reads_bool [OF cb, of b "\<lambda>st g. st = X" 0]]) simp_all
next
  case (3 t)
  then show ?case
    unfolding json_text.simps json_events.simps
    by (intro json_reads_weaken [OF reads_string(1) [OF cb, of t X 0]]) (auto simp: json_value_place_def json_key_place_def)
next
  case (4 vs)
  from 4 have "json_reads cb True (json_items vs) (concat (map json_events vs)) (\<lambda>st g. st = JSON_DECODE_IN_ARRAY)
      (\<lambda>st g. st = JSON_DECODE_IN_ARRAY) (Max (insert 0 (json_height ` set vs)))" by simp
  note r = reads_bracket [OF cb this _ _ bracket_passes(1) bracket_passes(2) boundary_chars(2), where e = Ev_start_array and e' = Ev_end_array and X = X]
  show ?case
    unfolding json_text.simps json_events.simps json_height.simps by (rule json_reads_weaken [OF r]) simp_all
next
  case (5 ms)
  then have "json_reads cb True (json_members ms) (concat (map (\<lambda>(k, v). Ev_key k # json_events v) ms)) json_key_place
      (\<lambda>_ _. True) (Max (insert 0 (json_height ` snd ` set ms)))" by simp
  then have "json_reads cb True (json_members ms) (concat (map (\<lambda>(k, v). Ev_key k # json_events v) ms)) (\<lambda>st' _. st' = JSON_DECODE_OBJECT_START)
      (\<lambda>_ _. True) (Max (insert 0 (json_height ` snd ` set ms)))" by (rule json_reads_weaken) (simp_all add: json_key_place_def)
  note r = reads_bracket [OF cb this _ _ bracket_passes(3) bracket_passes(4) boundary_chars(3), where e = Ev_start_obj and e' = Ev_end_obj and X = X]
  show ?case
    unfolding json_text.simps json_events.simps json_height.simps by (rule json_reads_weaken [OF r]) simp_all
next
  case 6
  show ?case using reads_nothing by simp
next
  case (7 v)
  then have "json_plain v" by simp
  let ?A = "\<lambda>st g. st = JSON_DECODE_IN_ARRAY"
  from 7(1) [OF \<open>json_plain v\<close>, of JSON_DECODE_IN_ARRAY] have "json_reads cb True (json_text v) (json_events v) ?A ?A (json_height v)"
    by (rule json_reads_weaken) (simp_all add: json_value_place_def)
  then show ?case by simp
next
  case (8 v w vs)
  let ?h = "Max (insert 0 (json_height ` set (v # w # vs)))" and ?k = "Max (insert 0 (json_height ` set (w # vs)))"
  let ?A = "\<lambda>st g. st = JSON_DECODE_IN_ARRAY"
  have h: "json_height v \<le> ?h" "?k \<le> ?h" by (auto intro: Max_mono)
  have "json_plain v" using 8(3) by simp
  from 8(1) [OF this, of JSON_DECODE_IN_ARRAY] have v: "json_reads cb True (json_text v) (json_events v) ?A ?A ?h"
    by (rule json_reads_weaken) (use h in \<open>simp_all add: json_value_place_def\<close>)
  have "\<forall>v \<in> set (w # vs). json_plain v" using 8(3) by simp
  from 8(2) [OF this] have ws: "json_reads cb True (json_items (w # vs)) (concat (map json_events (w # vs))) ?A ?A ?h"
    by (rule json_reads_weaken) (use h in simp_all)
  have "json_reads cb False '','' [] ?A ?A ?h"
    by (rule json_reads_weaken [OF reads_comma [of cb JSON_DECODE_IN_ARRAY ?h]]) simp_all
  from json_reads_seq [OF v json_reads_seq [OF this ws]] show ?case using boundary_chars(1) by simp
next
  case 9
  have "json_reads cb True [] [] json_key_place (\<lambda>_ _. True) 0"
    by (rule json_reads_weaken [OF reads_nothing [of cb True json_key_place 0]]) simp_all
  then show ?case by simp
next
  case (10 k v)
  then have p: "json_plain_string k" "json_plain v" by simp_all
  let ?V = "\<lambda>st g. st = JSON_DECODE_IN_OBJECT \<and> \<not> g"
  from 10(1) [OF p(2), of JSON_DECODE_IN_OBJECT] have "json_reads cb True (json_text v) (json_events v) ?V (\<lambda>_ _. True) (json_height v)"
    by (rule json_reads_weaken) (simp_all add: json_value_place_def)
  from json_reads_seq [OF reads_string(2) [OF cb p(1)] json_reads_seq [OF reads_colon this]] show ?case by simp
next
  case (11 k v m ms)
  let ?h = "Max (insert 0 (json_height ` snd ` set ((k, v) # m # ms)))" and ?k = "Max (insert 0 (json_height ` snd ` set (m # ms)))"
  let ?V = "\<lambda>st g. st = JSON_DECODE_IN_OBJECT \<and> \<not> g" and ?O = "\<lambda>st g. st = JSON_DECODE_IN_OBJECT"
  have h: "json_height v \<le> ?h" "?k \<le> ?h" by (auto intro: Max_mono)
  have p: "json_plain_string k" "json_plain v" using 11(3) by simp_all
  from 11(1) [OF p(2), of JSON_DECODE_IN_OBJECT] have v: "json_reads cb True (json_text v) (json_events v) ?V ?O ?h"
    by (rule json_reads_weaken) (use h in \<open>simp_all add: json_value_place_def\<close>)
  have "\<forall>m \<in> set (m # ms). json_plain_string (fst m) \<and> json_plain (snd m)" using 11(3) by simp
  from 11(2) [OF this] have ms: "json_reads cb True (json_members (m # ms)) (concat (map (\<lambda>(k, v). Ev_key k # json_events v) (m # ms)))
      json_key_place (\<lambda>_ _. True) ?h"
    by (rule json_reads_weaken) (use h in simp_all)
  have "json_reads cb False '','' [] ?O json_key_place ?h"
    by (rule json_reads_weaken [OF reads_comma [of cb JSON_DECODE_IN_OBJECT ?h]]) (simp_all add: json_key_place_def)
  from json_reads_seq [OF reads_string(2) [OF cb p(1)] json_reads_seq [OF reads_colon json_reads_seq [OF v json_reads_seq [OF this ms]]]]
  show ?case using boundary_chars(1) by simp
qed

lemma JsonDecode_text:
  fixes cb :: "'a JsonDecode_Callbacks"
  assumes cb: "json_accepting cb" and v: "json_plain v" "v = JArray vs \<or> v = JObject ms" "json_height v < 32"
    and d: "length (jd_steps d) = 32" "jd_mem d = json_text v @ rest"
  shows "\<exists>d'. JsonDecode cb (int (length (json_text v))) (JsonDecode_Init ctx d) = Some (True, d') \<and>
    jd_context d' = fold (json_report cb) (json_events v) ctx"
proof -
  define X where "X = jd_steps d ! 0"
  let ?s = "JsonDecode_Init ctx d\<lparr>jd_p := Some 0, jd_len := int (length (json_text v))\<rparr>"
  note r = json_text_reads(1) [OF cb v(1), of X]
  have no_int: "\<not> (\<exists>i. v = JInt i)" using v(2) by auto
  have "json_input 0 (json_text v) rest (json_height v) ?s" using d v(3) by (simp add: json_input_def JsonDecode_Init_def)
  moreover have "jd_steps ?s ! nat (jd_depth ?s) = X \<and> json_value_place v (jd_steps ?s ! nat (jd_depth ?s)) (jd_gotcomma ?s)"
    using v(2) by (auto simp: X_def JsonDecode_Init_def json_value_place_def)
  ultimately obtain s' where s': "json_output cb 0 (json_text v) rest (json_events v) ?s s'"
    using r no_int unfolding json_reads_def by blast
  have "JsonDecode_loop cb s' = Some (True, s')" using s' by (subst JsonDecode_loop.simps) (simp add: json_output_def)
  moreover have "JsonDecode cb (int (length (json_text v))) (JsonDecode_Init ctx d) = JsonDecode_loop cb s'"
    using s' by (simp add: JsonDecode_def JsonDecode_Init_def json_output_def)
  ultimately show ?thesis using s' by (intro exI [of _ s']) (simp add: json_output_def JsonDecode_Init_def)
qed

lemma json_plain_ranged: "json_plain v \<Longrightarrow> json_ranged v"
  by (induction v rule: json_plain.induct) auto

subsection \<open>Properties\<close>


text \<open>
  The encoder writes negative numbers but the decoder refuses them: the array of one negative number is written
  with a minus sign, and decoding those bytes reports the start of the array and fails.
\<close>

theorem json_negative_refused:
  fixes cb :: "'a JsonDecode_Callbacks"
  assumes "i < 0" and "- (2 ^ 31) \<le> i" and "json_accepting cb" and "length (jd_steps d) = 32" and "jd_mem d = json_text (JArray [JInt i]) @ rest"
  shows "\<exists>d'. JsonDecode cb (int (length (json_text (JArray [JInt i])))) (JsonDecode_Init ctx d) = Some (False, d') \<and>
    jd_context d' = json_report cb Ev_start_array ctx"
proof -
  let ?n = "length (json_text (JArray [JInt i]))"
  let ?s = "JsonDecode_Init ctx d\<lparr>jd_p := Some 0, jd_len := int ?n\<rparr>"
  let ?t = "print_nat (nat (- i)) @ '']'' @ rest"
  have mem: "jd_mem d = CHR ''['' # CHR ''-'' # ?t" using assms(1,5) by (simp add: print_int_def)
  have inp: "json_input 0 (CHR ''['' # CHR ''-'' # print_nat (nat (- i)) @ '']'') rest (Suc 0) ?s"
    using assms(1,4) mem by (simp add: json_input_def JsonDecode_Init_def print_int_def)
  have pass: "jd_pass cb ?s = jd_open JSON_DECODE_IN_ARRAY (start_array_callback cb) ?s"
    using mem by (intro bracket_passes(1) [of _ 0 "CHR ''-'' # ?t"]) (simp_all add: JsonDecode_Init_def)
  from open_pass [OF assms(3) _ inp pass, of Ev_start_array] obtain s1 where
    1: "JsonDecode_loop cb ?s = JsonDecode_loop cb s1" "json_input (0 + 1) (CHR ''-'' # print_nat (nat (- i)) @ '']'') rest 0 s1"
      "jd_context s1 = json_report cb Ev_start_array (jd_context ?s)" by auto
  then have p1: "jd_p s1 = Some 1" "drop 1 (jd_mem s1) = CHR ''-'' # ?t" "jd_len s1 \<noteq> 0" by (auto simp: json_input_def)
  have "\<not> c_isdigit (CHR ''-'')" by code_simp
  then have "JsonDecode_GetToken (CHR ''-'' # ?t) (jd_len s1) = token_maybe_negative" by (simp add: JsonDecode_GetToken_def)
  then have "jd_pass cb s1 = Some (Some False, s1)" using jd_pass_token [OF p1(1,2)] by simp
  then have "JsonDecode_loop cb s1 = Some (False, s1)" using p1(3) by (subst JsonDecode_loop.simps) simp
  then have "JsonDecode cb (int ?n) (JsonDecode_Init ctx d) = Some (False, s1)"
    using 1(1) by (simp add: JsonDecode_def JsonDecode_Init_def)
  then show ?thesis using 1(3) by (simp add: JsonDecode_Init_def)
qed

subsection \<open>Witnesses\<close>

text \<open>Callbacks that record the events.\<close>

definition json_recorder :: "json_event list JsonDecode_Callbacks" where
  "json_recorder = \<lparr>null_callback = None, bool_callback = Some (\<lambda>b c. (True, c @ [Ev_bool b])),
     int_callback = Some (\<lambda>i c. (True, c @ [Ev_int i])), float_callback = None,
     string_callback = Some (\<lambda>s c. (True, c @ [Ev_string s])), start_obj_callback = Some (\<lambda>c. (True, c @ [Ev_start_obj])),
     obj_key_callback = Some (\<lambda>s c. (True, c @ [Ev_key s])), end_obj_callback = Some (\<lambda>c. (True, c @ [Ev_end_obj])),
     start_array_callback = Some (\<lambda>c. (True, c @ [Ev_start_array])), end_array_callback = Some (\<lambda>c. (True, c @ [Ev_end_array]))\<rparr>"

lemma json_recorder_accepting: "json_accepting json_recorder"
  unfolding json_accepting_def
proof (intro allI impI)
  fix e f c
  assume "json_fire json_recorder e = Some f"
  then show "fst (f c)" by (cases e) (auto simp: json_recorder_def)
qed

definition json_decoder :: "json_event list JsonDecode_State" where
  "json_decoder = \<lparr>jd_steps = replicate 32 JSON_DECODE_IN_ARRAY, jd_depth = 7, jd_gotcomma = True, jd_context = [],
     jd_p = Some 3, jd_len = 9, jd_mem = []\<rparr>"


theorem json_negative_refused_witness:
  "\<exists>d'. JsonDecode json_recorder 4 (JsonDecode_Init [] (json_decoder\<lparr>jd_mem := ''[-5]''\<rparr>)) = Some (False, d') \<and> jd_context d' = [Ev_start_array]"
proof -
  have t: "json_text (JArray [JInt (- 5)]) = ''[-5]''" by code_simp
  have "length (jd_steps (json_decoder\<lparr>jd_mem := ''[-5]''\<rparr>)) = 32" by (simp add: json_decoder_def)
  moreover have "json_report json_recorder Ev_start_array [] = [Ev_start_array]" by (simp add: json_report_def json_recorder_def)
  ultimately show ?thesis
    using json_negative_refused [OF _ _ json_recorder_accepting, of "- 5" "json_decoder\<lparr>jd_mem := ''[-5]''\<rparr>" "[]" "[]"] t by simp
qed

text \<open>
  A space between two elements is skipped without being counted: the pointer moves, the length does not, and the decoder
  runs over the end of the text, here into the terminating zero byte.
\<close>

lemma json_space_refused:
  "map_option fst (JsonDecode json_recorder 6 (JsonDecode_Init [] (json_decoder\<lparr>jd_mem := ''[1, 2]'' @ [CHR 0x00]\<rparr>))) = Some False"
  by code_simp

end
