(* ===== verification/Servo.thy ===== *)
theory Servo
  imports FastTimer
begin

text \<open>
  The servo motors of the application board (\<^verbatim>\<open>src/firmware/libraries/servo/servo.c\<close>, application boards of version
  90 and later). One timer entry serves the four servos in turn: an interrupt moves the position of the next servo
  towards the requested one and starts its pulse, the following interrupt ends the pulse and waits out
  the rest of the servo's slot. Positions and speeds are kept with six fractional bits. The control blocks are
  allocated with unspecified contents, \<open>fresh_servos\<close>; the allocations are taken to succeed.
\<close>

subsection \<open>State\<close>

record ServoControl =
  sv_users :: int
  sv_speed :: int
  sv_positionRequested :: int
  sv_position :: int
  sv_pin :: u32
  sv_portB :: bool

record Servo_ =
  SV_users :: int
  SV_gap :: int
  SV_index :: int
  SV_state :: int
  SV_control :: "ServoControl list"

record servo_state = fasttimer_state +
  Servo :: "Servo_ option"
  fresh_servos :: "ServoControl list"

abbreviation (input) SERVO_COUNT :: int where "SERVO_COUNT \<equiv> 4"
abbreviation (input) SERVO_OFFSET :: int where "SERVO_OFFSET \<equiv> 1000"
abbreviation (input) SERVO_MIN_POSITION :: int where "SERVO_MIN_POSITION \<equiv> - 512"
abbreviation (input) SERVO_MAX_POSITION :: int where "SERVO_MAX_POSITION \<equiv> 1536"
abbreviation (input) SERVO_MID_POSITION :: int where "SERVO_MID_POSITION \<equiv> 512"
abbreviation (input) SERVO_CYCLE :: int where "SERVO_CYCLE \<equiv> 2048"
abbreviation (input) servo_entry :: nat where "servo_entry \<equiv> 9"
abbreviation (input) CB_servo :: nat where "CB_servo \<equiv> 9"

definition servo_control :: "int \<Rightarrow> 'a servo_state_scheme \<Rightarrow> ServoControl option" where
  "servo_control index s = map_option (\<lambda>S. SV_control S ! nat index) (Servo s)"

definition upd_servo :: "(Servo_ \<Rightarrow> Servo_) \<Rightarrow> 'a servo_state_scheme \<Rightarrow> 'a servo_state_scheme" where
  "upd_servo f s = s\<lparr>Servo := map_option f (Servo s)\<rparr>"

definition upd_servo_control :: "int \<Rightarrow> (ServoControl \<Rightarrow> ServoControl) \<Rightarrow> 'a servo_state_scheme \<Rightarrow> 'a servo_state_scheme" where
  "upd_servo_control index f = upd_servo (\<lambda>S. S\<lparr>SV_control := (SV_control S)[nat index := f (SV_control S ! nat index)]\<rparr>)"

subsection \<open>Starting and stopping\<close>

definition Servo_GetIo :: "int \<Rightarrow> int" where
  "Servo_GetIo index = (if index = 0 then 56 else if index = 1 then 23 else if index = 2 then 21 else if index = 3 then 22 else - 1)"

definition servo_fresh_control :: "nat \<Rightarrow> ServoControl \<Rightarrow> ServoControl" where
  "servo_fresh_control i sc =
     sc\<lparr>sv_users := 0, sv_positionRequested := push_bit 6 (SERVO_MID_POSITION + SERVO_OFFSET),
        sv_portB := (i = 0), sv_pin := push_bit (if i = 0 then 24 else if i = 1 then 23 else if i = 2 then 21 else 22) 1\<rparr>"

definition Servo_Init :: "'a servo_state_scheme \<Rightarrow> status \<times> 'a servo_state_scheme" where
  "Servo_Init s =
     (let s = s\<lparr>Servo := Some \<lparr>SV_users = 0, SV_gap = 1882, SV_index = 0, SV_state = 0,
                  SV_control = map (\<lambda>i. servo_fresh_control i (fresh_servos s ! i)) [0..<4]\<rparr>\<rparr>;
          s = FastTimer_InitializeEntry servo_entry (Some CB_servo) 0 2000 True s
      in (CONTROLLER_OK, snd (FastTimer_Set servo_entry s)))"

definition Servo_Deinit :: "(status, 'a servo_state_scheme) op" where
  "Servo_Deinit s =
     do {
       (_, s) \<leftarrow> FastTimer_Cancel servo_entry s;
       Some (CONTROLLER_OK, s\<lparr>Servo := None\<rparr>)
     }"

definition Servo_Start :: "int \<Rightarrow> (status, 'a servo_state_scheme) op" where
  "Servo_Start index s =
     (if index < 0 \<or> index \<ge> SERVO_COUNT then Some (CONTROLLER_ERROR_ILLEGAL_INDEX, s)
      else do {
        sc \<leftarrow> servo_control index s;
        if sv_users sc = 0 then
          do {
            (status, s) \<leftarrow> Io_Start (Servo_GetIo index) True s;
            if status \<noteq> CONTROLLER_OK then
              (let s = upd_servo (\<lambda>S. S\<lparr>SV_users := SV_users S - 1\<rparr>) s;
                   s = upd_servo_control index (\<lambda>sc. sc\<lparr>sv_users := sv_users sc - 1\<rparr>) s
               in Some (status, s))
            else
              (let io = Servo_GetIo index;
                   s = snd (Io_SetPio io True s);
                   s = snd (Io_SetValue io True s);
                   s = snd (Io_SetDirection io True s);
                   s = upd_servo_control index (\<lambda>sc. sc\<lparr>sv_position := push_bit 6 (SERVO_MID_POSITION + SERVO_OFFSET),
                         sv_speed := push_bit 6 1023, sv_users := sv_users sc + 1\<rparr>) s
               in Some (CONTROLLER_OK, s))
          }
        else Some (CONTROLLER_OK, s)
      })"

definition Servo_Stop :: "int \<Rightarrow> (status, 'a servo_state_scheme) op" where
  "Servo_Stop index s =
     (if index < 0 \<or> index \<ge> SERVO_COUNT then Some (CONTROLLER_ERROR_ILLEGAL_INDEX, s)
      else do {
        sc \<leftarrow> servo_control index s;
        if sv_users sc \<le> 0 then Some (CONTROLLER_ERROR_TOO_MANY_STOPS, s)
        else
          let s = upd_servo_control index (\<lambda>sc. sc\<lparr>sv_users := sv_users sc - 1\<rparr>) s in
          if sv_users sc - 1 = 0 then
            do {
              (_, s) \<leftarrow> Io_Stop (Servo_GetIo index) (snd (Io_SetDirection (Servo_GetIo index) False s));
              Some (CONTROLLER_OK, s)
            }
          else Some (CONTROLLER_OK, s)
      })"

definition Servo_SetActive :: "int \<Rightarrow> int \<Rightarrow> (status, 'a servo_state_scheme) op" where
  "Servo_SetActive index state s =
     (if index < 0 \<or> index \<ge> SERVO_COUNT then Some (CONTROLLER_ERROR_ILLEGAL_INDEX, s)
      else if state \<noteq> 0 then Servo_Start index (if Servo s = None then snd (Servo_Init s) else s)
      else if Servo s = None then Some (- 1, s)
      else do {
        (retVal, s) \<leftarrow> Servo_Stop index s;
        if retVal \<noteq> CONTROLLER_OK then Some (retVal, s)
        else
          let s = upd_servo (\<lambda>S. S\<lparr>SV_users := SV_users S - 1\<rparr>) s in
          do {
            S \<leftarrow> Servo s;
            if SV_users S \<le> 0 then Servo_Deinit s else Some (retVal, s)
          }
      })"

definition Servo_GetActive :: "int \<Rightarrow> 'a servo_state_scheme \<Rightarrow> bool" where
  "Servo_GetActive index s \<longleftrightarrow>
     \<not> (index < 0 \<or> index \<ge> SERVO_COUNT \<or> Servo s = None) \<and> sv_users (the (servo_control index s)) > 0"

subsection \<open>Position and speed\<close>

definition Servo_SetPosition :: "int \<Rightarrow> int \<Rightarrow> (status, 'a servo_state_scheme) op" where
  "Servo_SetPosition index position s =
     (if index < 0 \<or> index \<ge> SERVO_COUNT then Some (CONTROLLER_ERROR_ILLEGAL_INDEX, s)
      else do {
        (_, s) \<leftarrow> Servo_SetActive index 1 s;
        let p = (if position < SERVO_MIN_POSITION then 0 else position);
            p = (if p > SERVO_MAX_POSITION then 1023 else p)
        in do {
          _ \<leftarrow> Servo s;
          Some (CONTROLLER_OK, upd_servo_control index (\<lambda>sc. sc\<lparr>sv_positionRequested := push_bit 6 (p + SERVO_OFFSET)\<rparr>) s)
        }
      })"

definition Servo_SetSpeed :: "int \<Rightarrow> int \<Rightarrow> (status, 'a servo_state_scheme) op" where
  "Servo_SetSpeed index speed s =
     (if index < 0 \<or> index \<ge> SERVO_COUNT then Some (CONTROLLER_ERROR_ILLEGAL_INDEX, s)
      else do {
        (_, s) \<leftarrow> Servo_SetActive index 1 s;
        let v = (if speed < 1 then 1 else speed); v = (if v > 1023 then 1023 else v)
        in do {
          _ \<leftarrow> Servo s;
          Some (CONTROLLER_OK, upd_servo_control index (\<lambda>sc. sc\<lparr>sv_speed := push_bit 6 v\<rparr>) s)
        }
      })"

definition Servo_GetPosition :: "int \<Rightarrow> (int, 'a servo_state_scheme) op" where
  "Servo_GetPosition index s =
     (if index < 0 \<or> index \<ge> SERVO_COUNT then Some (0, s)
      else do {
        (_, s) \<leftarrow> Servo_SetActive index 1 s;
        sc \<leftarrow> servo_control index s;
        Some (drop_bit 6 (sv_position sc) - SERVO_OFFSET, s)
      })"

definition Servo_GetSpeed :: "int \<Rightarrow> (int, 'a servo_state_scheme) op" where
  "Servo_GetSpeed index s =
     (if index < 0 \<or> index \<ge> SERVO_COUNT then Some (0, s)
      else do {
        (_, s) \<leftarrow> Servo_SetActive index 1 s;
        sc \<leftarrow> servo_control index s;
        Some (drop_bit 6 (sv_speed sc), s)
      })"

subsection \<open>The interrupt\<close>

definition servo_move :: "ServoControl \<Rightarrow> ServoControl" where
  "servo_move sc =
     (if sv_position sc \<noteq> sv_positionRequested sc then
        (if c_int (sv_positionRequested sc - sv_position sc) < 0 then
           (let p = c_int (sv_position sc - sv_speed sc)
            in sc\<lparr>sv_position := (if p < sv_positionRequested sc then sv_positionRequested sc else p)\<rparr>)
         else
           (let p = c_int (sv_position sc + sv_speed sc)
            in sc\<lparr>sv_position := (if p > sv_positionRequested sc then sv_positionRequested sc else p)\<rparr>))
      else sc)"

definition servo_pin_write :: "(u32 \<Rightarrow> pio \<Rightarrow> pio) \<Rightarrow> ServoControl \<Rightarrow> 'a servo_state_scheme \<Rightarrow> 'a servo_state_scheme" where
  "servo_pin_write w sc s = (if sv_portB sc then s\<lparr>PIOB := w (sv_pin sc) (PIOB s)\<rparr> else s\<lparr>PIOA := w (sv_pin sc) (PIOA s)\<rparr>)"

definition Servo_IRQCallback :: "'a servo_state_scheme \<Rightarrow> 'a servo_state_scheme option" where
  "Servo_IRQCallback s =
     do {
       S \<leftarrow> Servo s;
       if SV_state S = 0 then
         let i = SV_index S + 1;
             i = (if i \<ge> SERVO_COUNT \<or> i < 0 then 0 else i);
             sc = servo_move (SV_control S ! nat i);
             s = s\<lparr>Servo := Some (S\<lparr>SV_index := i, SV_control := (SV_control S)[nat i := sc], SV_state := 1\<rparr>)\<rparr>;
             period = drop_bit 6 (sv_position sc);
             legal = (period \<ge> SERVO_MIN_POSITION + SERVO_OFFSET \<and> period \<le> SERVO_MAX_POSITION + SERVO_OFFSET);
             s = (if legal then servo_pin_write pio_CODR sc s else s)
         in Some (FastTimer_SetTime servo_entry (if legal then period else SERVO_MAX_POSITION) s)
       else if SV_state S = 1 then
         if SV_index S < 0 \<or> SV_index S \<ge> SERVO_COUNT then None
         else
           let sc = SV_control S ! nat (SV_index S);
               period = drop_bit 6 (sv_position sc);
               s = servo_pin_write pio_SODR sc (s\<lparr>Servo := Some (S\<lparr>SV_state := 0\<rparr>)\<rparr>)
           in Some (FastTimer_SetTime servo_entry (SV_gap S + (SERVO_CYCLE - period)) s)
       else Some s
     }"

subsection \<open>OSC properties\<close>

definition ServoOsc_PropertySet :: "int \<Rightarrow> int \<Rightarrow> int \<Rightarrow> (status, 'a servo_state_scheme) op" where
  "ServoOsc_PropertySet index property v s =
     do {
       (_, s) \<leftarrow> (if property = 0 then Servo_SetActive index v s
                  else if property = 1 then Servo_SetPosition index v s
                  else if property = 2 then Servo_SetSpeed index v s
                  else Some (CONTROLLER_OK, s));
       Some (CONTROLLER_OK, s)
     }"

definition ServoOsc_PropertyGet :: "int \<Rightarrow> int \<Rightarrow> (int, 'a servo_state_scheme) op" where
  "ServoOsc_PropertyGet index property s =
     (if property = 0 then Some (of_bool (Servo_GetActive index s), s)
      else if property = 1 then Servo_GetPosition index s
      else if property = 2 then Servo_GetSpeed index s
      else Some (0, s))"

subsection \<open>One slot\<close>

text \<open>
  A servo whose positions are in the legal range of pulse widths, and the specification of its motion.
\<close>

definition servo_legal :: "int \<Rightarrow> bool" where
  "servo_legal p \<longleftrightarrow> push_bit 6 (SERVO_MIN_POSITION + SERVO_OFFSET) \<le> p \<and> p \<le> push_bit 6 (SERVO_MAX_POSITION + SERVO_OFFSET)"

definition servo_ok :: "ServoControl \<Rightarrow> bool" where
  "servo_ok sc \<longleftrightarrow> servo_legal (sv_position sc) \<and> servo_legal (sv_positionRequested sc) \<and> 0 < sv_speed sc \<and> sv_speed sc \<le> push_bit 6 1023"

definition toward :: "int \<Rightarrow> int \<Rightarrow> int \<Rightarrow> int" where
  "toward goal speed p = (if p < goal then min goal (p + speed) else max goal (p - speed))"

lemma servo_move_toward:
  assumes "servo_ok sc"
  shows "servo_move sc = sc\<lparr>sv_position := toward (sv_positionRequested sc) (sv_speed sc) (sv_position sc)\<rparr>"
    and "servo_ok (servo_move sc)"
proof -
  have c: "c_int x = x" if "- 1000000 \<le> x" "x \<le> 1000000" for x
    using that by (simp add: c_int_def signed_of_int signed_take_bit_int_eq_self)
  have r: "31232 \<le> sv_position sc" "sv_position sc \<le> 162304" "31232 \<le> sv_positionRequested sc" "sv_positionRequested sc \<le> 162304"
    "0 < sv_speed sc" "sv_speed sc \<le> 65472"
    using assms by (auto simp: servo_ok_def servo_legal_def push_bit_eq_mult)
  have cs: "c_int (sv_positionRequested sc - sv_position sc) = sv_positionRequested sc - sv_position sc"
    "c_int (sv_position sc - sv_speed sc) = sv_position sc - sv_speed sc" "c_int (sv_position sc + sv_speed sc) = sv_position sc + sv_speed sc"
    using r by (intro c; linarith)+
  show m: "servo_move sc = sc\<lparr>sv_position := toward (sv_positionRequested sc) (sv_speed sc) (sv_position sc)\<rparr>"
  proof (cases "sv_position sc = sv_positionRequested sc")
    case True
    then have "sc\<lparr>sv_position := sv_positionRequested sc\<rparr> = sc" by (cases sc) simp
    then show ?thesis using True r by (simp add: servo_move_def toward_def)
  next
    case False
    then show ?thesis unfolding servo_move_def cs Let_def toward_def using r by (auto simp: min_def max_def)
  qed
  show "servo_ok (servo_move sc)"
    unfolding m using r by (auto simp: servo_ok_def servo_legal_def push_bit_eq_mult toward_def)
qed

text \<open>The line of a control block, and the part of the state the interrupt works on.\<close>

definition servo_line :: "ServoControl \<Rightarrow> int \<Rightarrow> bool" where
  "servo_line sc l \<longleftrightarrow> io_line l \<and> sv_pin sc = mask1 (nat (l mod 32)) \<and> (sv_portB sc \<longleftrightarrow> \<not> l < 32)"

definition servo_at :: "int \<Rightarrow> Servo_ \<Rightarrow> 'a servo_state_scheme \<Rightarrow> bool" where
  "servo_at st S s \<longleftrightarrow> Servo s = Some S \<and> SV_state S = st \<and> 0 \<le> SV_index S \<and> SV_index S < 4 \<and> length (SV_control S) = 4 \<and>
     SV_gap S = 1882 \<and> (\<forall>sc \<in> set (SV_control S). servo_ok sc)"

definition servo_next :: "int \<Rightarrow> int" where
  "servo_next i = (if i = 3 then 0 else i + 1)"

definition slot_time :: "'a servo_state_scheme \<Rightarrow> int" where
  "slot_time s = fte_timeInitial (FT_heap s servo_entry)"

lemma servo_pin_write_line:
  assumes "servo_line sc l"
  shows "line_out (servo_pin_write pio_SODR sc s) l" "\<not> line_out (servo_pin_write pio_CODR sc s) l"
  using assms io_line_nat [of l]
  by (auto simp: servo_line_def servo_pin_write_def line_out_def port_def pio_defs io_line_def)

lemma servo_pin_write_Servo [simp]: "Servo (servo_pin_write w sc s) = Servo s"
  by (simp add: servo_pin_write_def)

lemma SetTime_frame [simp]:
  "line_out (FastTimer_SetTime a t s) = line_out s" "Servo (FastTimer_SetTime a t s) = Servo s"
  by (simp_all add: FastTimer_SetTime_def upd_entry_def Let_def line_out_def port_def fun_eq_iff)

lemma slot_time_SetTime: "- 1000000 \<le> t \<Longrightarrow> t \<le> 1000000 \<Longrightarrow> slot_time (FastTimer_SetTime servo_entry t s) = 6 * t"
  by (simp add: slot_time_def FastTimer_SetTime_def upd_entry_def Let_def c_int_def signed_of_int signed_take_bit_int_eq_self)

lemma servo_period:
  assumes "servo_legal p"
  shows "488 \<le> drop_bit 6 p" "drop_bit 6 p \<le> 2536"
  using assms zdiv_mono1 [of 31232 p 64] zdiv_mono1 [of p 162304 64]
  by (auto simp: servo_legal_def push_bit_eq_mult drop_bit_eq_div)

definition next_slot :: "int \<times> ServoControl list \<Rightarrow> int \<times> ServoControl list" where
  "next_slot = (\<lambda>(i, cs). (servo_next i, cs[nat (servo_next i) := servo_move (cs ! nat (servo_next i))]))"

lemma servo_slot:
  assumes s: "servo_at 0 S s"
  shows "\<exists>s1 s2 S2. Servo_IRQCallback s = Some s1 \<and> Servo_IRQCallback s1 = Some s2 \<and> servo_at 0 S2 s2 \<and>
    (SV_index S2, SV_control S2) = next_slot (SV_index S, SV_control S) \<and>
    (\<forall>l. servo_line (SV_control S2 ! nat (SV_index S2)) l \<longrightarrow> \<not> line_out s1 l \<and> line_out s2 l) \<and>
    slot_time s1 = 6 * drop_bit 6 (sv_position (SV_control S2 ! nat (SV_index S2))) \<and> slot_time s1 + slot_time s2 = 6 * 3930"
proof -
  let ?i = "servo_next (SV_index S)" let ?c = "servo_move (SV_control S ! nat ?i)" let ?p = "drop_bit 6 (sv_position ?c)"
  let ?S1 = "S\<lparr>SV_index := ?i, SV_control := (SV_control S)[nat ?i := ?c], SV_state := 1\<rparr>"
  let ?S2 = "?S1\<lparr>SV_state := 0\<rparr>"
  have i: "0 \<le> ?i" "?i < 4" "nat ?i < 4" "(if SV_index S + 1 \<ge> 4 \<or> SV_index S + 1 < 0 then 0 else SV_index S + 1) = ?i"
    using s by (auto simp: servo_at_def servo_next_def)
  have ok: "servo_ok (SV_control S ! nat ?i)" using s i(3) by (auto simp: servo_at_def)
  note move = servo_move_toward [OF ok]
  have p: "488 \<le> ?p" "?p \<le> 2536" using servo_period [of "sv_position ?c"] move(2) by (auto simp: servo_ok_def)
  let ?t1 = "servo_pin_write pio_CODR ?c (s\<lparr>Servo := Some ?S1\<rparr>)"
  let ?s1 = "FastTimer_SetTime servo_entry ?p ?t1"
  let ?s2 = "FastTimer_SetTime servo_entry (1882 + (2048 - ?p)) (servo_pin_write pio_SODR ?c (?s1\<lparr>Servo := Some ?S2\<rparr>))"
  have S: "Servo s = Some S" "SV_state S = 0" "SV_gap S = 1882" "length (SV_control S) = 4" using s by (simp_all add: servo_at_def)
  have 1: "Servo_IRQCallback s = Some ?s1"
    using i(4) p by (simp add: Servo_IRQCallback_def S Let_def)
  have "Servo ?s1 = Some ?S1" by simp
  then have 2: "Servo_IRQCallback ?s1 = Some ?s2"
    using i(1-3) S by (simp add: Servo_IRQCallback_def Let_def)
  have "servo_at 0 ?S2 ?s2"
    using s i move(2) by (auto simp: servo_at_def dest!: set_update_subset_insert [THEN subsetD])
  moreover have "slot_time ?s1 = 6 * ?p" "slot_time ?s2 = 6 * (1882 + (2048 - ?p))"
    using p by (intro slot_time_SetTime; simp)+
  moreover have "\<not> line_out ?s1 l \<and> line_out ?s2 l" if "servo_line ?c l" for l by (simp add: servo_pin_write_line [OF that])
  ultimately show ?thesis
    using 1 2 i(3) S(4) by (intro exI [of _ ?s1] exI [of _ ?s2] exI [of _ ?S2]) (simp add: next_slot_def)
qed

subsection \<open>Rounds\<close>

fun servo_ticks :: "nat \<Rightarrow> 'a servo_state_scheme \<Rightarrow> 'a servo_state_scheme option" where
  "servo_ticks 0 s = Some s"
| "servo_ticks (Suc n) s = do { s \<leftarrow> Servo_IRQCallback s; servo_ticks n s }"

lemma servo_ticks_slots:
  assumes "servo_at 0 S s"
  shows "\<exists>t T. servo_ticks (2 * n) s = Some t \<and> servo_at 0 T t \<and> (SV_index T, SV_control T) = (next_slot ^^ n) (SV_index S, SV_control S)"
  using assms
proof (induction n arbitrary: s S)
  case (Suc n)
  from servo_slot [OF Suc.prems] obtain s1 s2 S2 where 1: "Servo_IRQCallback s = Some s1" "Servo_IRQCallback s1 = Some s2" "servo_at 0 S2 s2"
    "(SV_index S2, SV_control S2) = next_slot (SV_index S, SV_control S)" by blast
  from Suc.IH [OF 1(3)] 1 show ?case by (simp add: funpow_swap1)
qed (intro exI conjI; simp)

lemma four_slots:
  assumes "0 \<le> i" and "i < 4" and "length cs = 4"
  shows "(next_slot ^^ 4) (i, cs) = (i, map servo_move cs)"
proof -
  obtain a b c d where cs: "cs = [a, b, c, d]" using assms(3) by (auto simp: length_Suc_conv numeral_eq_Suc)
  have "i = 0 \<or> i = 1 \<or> i = 2 \<or> i = 3" using assms(1,2) by auto
  then show ?thesis by (auto simp: cs next_slot_def servo_next_def numeral_eq_Suc)
qed

lemma servo_rounds:
  assumes "0 \<le> i" and "i < 4" and "length cs = 4"
  shows "(next_slot ^^ (4 * n)) (i, cs) = (i, map (servo_move ^^ n) cs)"
proof (induction n)
  case (Suc n)
  have "(next_slot ^^ (4 * Suc n)) (i, cs) = (next_slot ^^ 4) ((next_slot ^^ (4 * n)) (i, cs))"
    by (simp add: funpow_add)
  also have "\<dots> = (i, map servo_move (map (servo_move ^^ n) cs))" using Suc four_slots [OF assms(1,2), of "map (servo_move ^^ n) cs"] assms(3) by simp
  finally show ?case by simp
qed simp

lemma toward_steps:
  assumes "0 < v"
  shows "(toward g v ^^ n) p = (if p < g then min g (p + int n * v) else max g (p - int n * v))"
  using assms by (induction n) (auto simp: toward_def algebra_simps min_def max_def)

lemma servo_moves:
  assumes "servo_ok sc"
  shows "(servo_move ^^ n) sc = sc\<lparr>sv_position := (toward (sv_positionRequested sc) (sv_speed sc) ^^ n) (sv_position sc)\<rparr> \<and> servo_ok ((servo_move ^^ n) sc)"
proof (induction n)
  case (Suc n)
  then have ok: "servo_ok ((servo_move ^^ n) sc)" by blast
  show ?case using servo_move_toward [OF ok] Suc by simp
qed (use assms in simp)

subsection \<open>Properties\<close>

text \<open>
  C26: One slot of the refresh cycle. From a state in which all four servos have legal positions, the next two
  interrupts serve the next servo: its position moves towards the requested one by at most its speed, its line is low for
  exactly the microseconds its position stands for and high for the rest, and the two times add up
  to 3930 microseconds whatever the position, so the pulse rate does not depend on where the servos are.
\<close>

theorem servo_slot_cycle:
  assumes "servo_at 0 S s" and "sc = SV_control S ! nat (servo_next (SV_index S))" and "servo_line sc l"
  shows "\<exists>s1 s2 S2. Servo_IRQCallback s = Some s1 \<and> Servo_IRQCallback s1 = Some s2 \<and> servo_at 0 S2 s2 \<and>
    SV_control S2 = (SV_control S)[nat (servo_next (SV_index S)) :=
      sc\<lparr>sv_position := toward (sv_positionRequested sc) (sv_speed sc) (sv_position sc)\<rparr>] \<and>
    \<not> line_out s1 l \<and> line_out s2 l \<and>
    slot_time s1 = 6 * drop_bit 6 (toward (sv_positionRequested sc) (sv_speed sc) (sv_position sc)) \<and>
    slot_time s1 + slot_time s2 = 6 * 3930"
proof -
  have i: "nat (servo_next (SV_index S)) < length (SV_control S)" using assms(1) by (auto simp: servo_at_def servo_next_def)
  then have "servo_ok sc" using assms(1,2) by (auto simp: servo_at_def)
  note move = servo_move_toward(1) [OF this]
  from servo_slot [OF assms(1)] obtain s1 s2 S2 where 1: "Servo_IRQCallback s = Some s1" "Servo_IRQCallback s1 = Some s2" "servo_at 0 S2 s2"
    "(SV_index S2, SV_control S2) = next_slot (SV_index S, SV_control S)"
    "\<forall>l. servo_line (SV_control S2 ! nat (SV_index S2)) l \<longrightarrow> \<not> line_out s1 l \<and> line_out s2 l"
    "slot_time s1 = 6 * drop_bit 6 (sv_position (SV_control S2 ! nat (SV_index S2)))" "slot_time s1 + slot_time s2 = 6 * 3930" by blast
  have c: "SV_control S2 = (SV_control S)[nat (servo_next (SV_index S)) := servo_move sc]" "SV_control S2 ! nat (SV_index S2) = servo_move sc"
    using 1(4) i by (simp_all add: next_slot_def assms(2))
  have "servo_line (servo_move sc) l" using assms(3) by (simp add: move servo_line_def)
  then show ?thesis using 1 c move by auto
qed

text \<open>
  C27: Every servo gets there. After as many rounds of eight interrupts as the distance divided by the speed, rounded up, the
  position of a servo is the requested one, however the others move.
\<close>

theorem servo_reaches_position:
  assumes "servo_at 0 S s" and "i < 4" and "\<bar>sv_positionRequested (SV_control S ! i) - sv_position (SV_control S ! i)\<bar> \<le> int n * sv_speed (SV_control S ! i)"
  shows "\<exists>t T. servo_ticks (8 * n) s = Some t \<and> servo_at 0 T t \<and>
    SV_control T ! i = (SV_control S ! i)\<lparr>sv_position := sv_positionRequested (SV_control S ! i)\<rparr>"
proof -
  let ?c = "SV_control S ! i"
  from servo_ticks_slots [OF assms(1), of "4 * n"] obtain t T where
    t: "servo_ticks (8 * n) s = Some t" "servo_at 0 T t" "(SV_index T, SV_control T) = (next_slot ^^ (4 * n)) (SV_index S, SV_control S)"
    by (auto simp: mult.assoc [symmetric])
  have S: "0 \<le> SV_index S" "SV_index S < 4" "length (SV_control S) = 4" using assms(1) by (simp_all add: servo_at_def)
  have ok: "servo_ok ?c" using assms(1,2) by (auto simp: servo_at_def)
  then have v: "0 < sv_speed ?c" by (simp add: servo_ok_def)
  have "SV_control T ! i = (servo_move ^^ n) ?c"
    using t(3) servo_rounds [OF S] assms(2) S(3) by simp
  also have "\<dots> = ?c\<lparr>sv_position := sv_positionRequested ?c\<rparr>"
    using servo_moves [OF ok, of n] toward_steps [OF v] assms(3) by (simp add: min_def max_def)
  finally show ?thesis using t(1,2) by blast
qed

subsection \<open>A running servo\<close>

definition servo_example_S :: Servo_ where
  "servo_example_S = \<lparr>SV_users = 0, SV_gap = 1882, SV_index = 0, SV_state = 0, SV_control =
     map (\<lambda>i. servo_fresh_control i \<lparr>sv_users = 1, sv_speed = push_bit 6 300, sv_positionRequested = 0, sv_position = push_bit 6 1000,
       sv_pin = 0, sv_portB = False\<rparr>) [0..<4]\<rparr>"

definition servo_example :: servo_state where
  "servo_example = fasttimer_state.extend ft_boot \<lparr>Servo = Some servo_example_S, fresh_servos = []\<rparr>"

lemma servo_example_at: "servo_at 0 servo_example_S servo_example"
  by (simp add: servo_at_def servo_example_def fasttimer_state.defs servo_example_S_def numeral_eq_Suc)
    (code_simp)

theorem servo_slot_cycle_witness:
  "\<exists>s1 s2 S2. Servo_IRQCallback servo_example = Some s1 \<and> Servo_IRQCallback s1 = Some s2 \<and> servo_at 0 S2 s2 \<and>
    \<not> line_out s1 23 \<and> line_out s2 23 \<and> slot_time s1 = 6 * 1300 \<and> slot_time s1 + slot_time s2 = 6 * 3930"
proof -
  let ?sc = "SV_control servo_example_S ! 1"
  have n: "servo_next (SV_index servo_example_S) = 1" by code_simp
  have l: "servo_line ?sc 23" by code_simp
  have t: "drop_bit 6 (toward (sv_positionRequested ?sc) (sv_speed ?sc) (sv_position ?sc)) = 1300" by code_simp
  show ?thesis using servo_slot_cycle [OF servo_example_at _ l] n t by auto
qed

theorem servo_reaches_position_witness:
  "\<exists>t T. servo_ticks 16 servo_example = Some t \<and> sv_position (SV_control T ! 2) = push_bit 6 1512 \<and> servo_at 0 T t"
proof -
  let ?sc = "SV_control servo_example_S ! 2"
  have d: "\<bar>sv_positionRequested ?sc - sv_position ?sc\<bar> \<le> int 2 * sv_speed ?sc" by code_simp
  have g: "sv_positionRequested ?sc = push_bit 6 1512" by code_simp
  obtain t T where "servo_ticks (8 * 2) servo_example = Some t" "servo_at 0 T t"
    "SV_control T ! 2 = ?sc\<lparr>sv_position := sv_positionRequested ?sc\<rparr>"
    using servo_reaches_position [OF servo_example_at, of 2 2] d by auto
  then show ?thesis using g by (intro exI [of _ t] exI [of _ T]) simp
qed

subsection \<open>The first stop\<close>

lemma io_frame_servo [simp]:
  "Servo (snd (Io_SetDirection i v s)) = Servo s"
  "Io_Stop i s = Some (r, s') \<Longrightarrow> Servo s' = Servo s"
  by (auto simp: Io_SetDirection_def Io_SetOutput_def Io_SetInput_def set_line_def on_port_def Io_Stop_def pin_drop_def
      Io_Deinit_def Let_def split: if_splits)

lemma io_frame_timers:
  "running_list (snd (Io_SetDirection i v s)) xs \<longleftrightarrow> running_list s xs"
  "Io_Stop i s = Some (r, s') \<Longrightarrow> running_list s' xs \<longleftrightarrow> running_list s xs"
  by (auto simp: running_list_def Io_SetDirection_def Io_SetOutput_def Io_SetInput_def set_line_def on_port_def Io_Stop_def
      pin_drop_def Io_Deinit_def Let_def split: if_splits)

lemma upd_servo_frame [simp]:
  "line_users (upd_servo f s) = line_users s" "line_locked (upd_servo f s) = line_locked s" "io_inv (upd_servo f s) = io_inv s"
  "running_list (upd_servo f s) xs \<longleftrightarrow> running_list s xs" "Servo (upd_servo f s) = map_option f (Servo s)"
  by (simp_all add: upd_servo_def line_users_def line_locked_def io_inv_def running_list_def fun_eq_iff)

lemma servicing_fix_io [simp]:
  "Io_pins (servicing_fix a pe nxt s) = Io_pins s" "Io_users (servicing_fix a pe nxt s) = Io_users s"
  "Io_init (servicing_fix a pe nxt s) = Io_init s"
  by (simp_all add: servicing_fix_def Let_def)

lemma unlinked_io [simp]:
  "Io_pins (unlinked a us s) = Io_pins s" "Io_users (unlinked a us s) = Io_users s" "Io_init (unlinked a us s) = Io_init s"
  by (simp_all add: unlinked_def upd_entry_def Let_def)

lemma unlinked_owner_view [simp]: "line_users (unlinked a us s) = line_users s" "line_locked (unlinked a us s) = line_locked s"
  by (simp_all add: line_users_def line_locked_def fun_eq_iff)

lemma servo_lines:
  assumes "0 \<le> i" and "i < 4"
  shows "io_line (Servo_GetIo i)" "0 \<le> j \<Longrightarrow> j < 4 \<Longrightarrow> Servo_GetIo j = Servo_GetIo i \<longleftrightarrow> j = i"
  using assms by (auto simp: Servo_GetIo_def io_line_def)

text \<open>
  The first stop takes everything down. The count of started servos is never raised, so when one of two running
  servos is stopped, the module is freed and its timer entry cancelled while the line of the other
  servo stays locked, and stopping the other servo is refused: nothing releases that line any more.
\<close>

theorem servo_first_stop_frees_all:
  assumes "io_inv s" and "running_list s xs" and "Servo s = Some S" and "SV_users S \<le> 1" and "length (SV_control S) = 4"
    and "0 \<le> i" and "i < 4" and "sv_users (SV_control S ! nat i) = 1" and "line_users s (Servo_GetIo i) = 1"
    and "0 \<le> j" and "j < 4" and "j \<noteq> i" and "line_locked s (Servo_GetIo j)"
  shows "\<exists>s'. Servo_SetActive i 0 s = Some (CONTROLLER_OK, s') \<and> Servo s' = None \<and> running_list s' (removeAll servo_entry xs) \<and>
    line_users s' (Servo_GetIo i) = 0 \<and> line_locked s' (Servo_GetIo j) \<and> \<not> Servo_GetActive j s' \<and>
    Servo_SetActive j 0 s' = Some (- 1, s')"
proof -
  let ?io = "Servo_GetIo i"
  let ?t = "upd_servo_control i (\<lambda>sc. sc\<lparr>sv_users := sv_users sc - 1\<rparr>) s"
  let ?d = "snd (Io_SetDirection ?io False ?t)"
  note lines = servo_lines [OF assms(6,7)]
  have sc: "servo_control i s = Some (SV_control S ! nat i)" by (simp add: servo_control_def assms(3))
  have t: "io_inv ?d" "line_users ?d = line_users s" "line_locked ?d = line_locked s" "running_list ?d xs"
    using assms(1,2) by (simp_all add: upd_servo_control_def io_frame_timers)
  obtain S1 where S1: "Servo ?d = Some S1" "SV_users S1 = SV_users S" using assms(3) by (simp add: upd_servo_control_def)
  obtain u where u: "Io_Stop ?io ?d = Some (CONTROLLER_OK, u)" "io_inv u" "line_users u = (line_users s)(?io := 0)"
    "line_locked u = (line_locked s)(?io := False)"
    using io.stop_used [of ?d ?io] t lines(1) assms(9) by auto
  have stop: "Servo_Stop i s = Some (CONTROLLER_OK, u)"
    using assms(6,7,8) u(1) by (simp add: Servo_Stop_def sc Let_def)
  let ?v = "upd_servo (\<lambda>S. S\<lparr>SV_users := SV_users S - 1\<rparr>) u"
  have Su: "Servo u = Some S1" using io_frame_servo(2) [OF u(1)] S1(1) by simp
  have v: "running_list ?v xs" "Servo ?v = Some (S1\<lparr>SV_users := SV_users S - 1\<rparr>)"
    using t(4) S1 io_frame_timers(2) [OF u(1), of xs] Su by simp_all
  obtain w where w: "FastTimer_Cancel servo_entry ?v = Some (CONTROLLER_OK, w)" "running_list w (removeAll servo_entry xs)"
    using FastTimer_Cancel_list [OF v(1)] by blast
  have ow: "line_users w = line_users u" "line_locked w = line_locked u"
    using FastTimer_Cancel_cases [OF v(1) w(1)] by auto
  let ?s' = "w\<lparr>Servo := None\<rparr>"
  have "Servo_SetActive i 0 s = Some (CONTROLLER_OK, ?s')"
    using assms(3,4,6,7) by (simp add: Servo_SetActive_def stop Su S1(2) Servo_Deinit_def w(1) Let_def)
  moreover have "running_list ?s' (removeAll servo_entry xs)" using w(2) by (simp add: running_list_def)
  moreover have "line_users ?s' = line_users w" "line_locked ?s' = line_locked w"
    by (simp_all add: line_users_def line_locked_def fun_eq_iff)
  moreover have "Servo_GetIo j \<noteq> ?io" using lines(2) assms(10-12) by simp
  ultimately show ?thesis
    using u(3,4) ow assms(10,11,13) by (simp add: Servo_GetActive_def Servo_SetActive_def)
qed

definition servo_pair :: servo_state where
  "servo_pair =
     (let s = fasttimer_state.extend ft_boot \<lparr>Servo = None, fresh_servos = replicate 4 \<lparr>sv_users = 0, sv_speed = 0,
        sv_positionRequested = 0, sv_position = 0, sv_pin = 0, sv_portB = False\<rparr>\<rparr>;
          s = snd (the (Servo_SetActive 2 1 s))
      in snd (the (Servo_SetActive 3 1 s)))"

lemma servo_pair_fields:
  "io_inv servo_pair" "running_list servo_pair [servo_entry]" "map_option SV_users (Servo servo_pair) = Some 0"
  "map_option (\<lambda>S. map sv_users (SV_control S)) (Servo servo_pair) = Some [0, 0, 1, 1]"
  "line_users servo_pair (Servo_GetIo 2) = 1" "line_locked servo_pair (Servo_GetIo 3)"
  by code_simp+

theorem servo_first_stop_frees_all_witness:
  "\<exists>s'. Servo_SetActive 2 0 servo_pair = Some (CONTROLLER_OK, s') \<and> Servo s' = None \<and> running_list s' [] \<and>
    line_locked s' (Servo_GetIo 3) \<and> Servo_SetActive 3 0 s' = Some (- 1, s')"
proof -
  obtain S where S: "Servo servo_pair = Some S" "SV_users S = 0" "map sv_users (SV_control S) = [0, 0, 1, 1]"
    using servo_pair_fields(3,4) by auto
  have "length (map sv_users (SV_control S)) = 4" by (simp add: S(3))
  then have l: "length (SV_control S) = 4" by simp
  have "map sv_users (SV_control S) ! 2 = 1" by (simp add: S(3))
  then have "sv_users (SV_control S ! 2) = 1" using l by (subst (asm) nth_map) simp_all
  then show ?thesis
    using servo_first_stop_frees_all [OF servo_pair_fields(1,2) S(1), of 2 3] servo_pair_fields(5,6) S(2) l by auto
qed

end
