(* ===== verification/AesField.thy ===== *)
theory AesField
  imports Prelude
begin

text \<open>
  The byte arithmetic of the AES standard (FIPS 197), independent of the library's tables: the field of
  256 elements with the polynomial \<open>x\<^sup>8 + x\<^sup>4 + x\<^sup>3 + x + 1\<close>, the multiplicative inverse in it, the affine
  transformation, and from these the substitution of bytes (S-box) and its inverse. The tables of
  \<^verbatim>\<open>src/firmware/libraries/aes/aes.c\<close> are compared with these definitions in AesTables.
\<close>

subsection \<open>The field\<close>

text \<open>Multiplication by \<open>x\<close>, then by any byte, from its highest power of \<open>x\<close> to its lowest.\<close>

definition xtime :: "u8 \<Rightarrow> u8" where
  "xtime a = push_bit 1 a XOR (if bit a 7 then 0x1b else 0)"

definition gf_times :: "u8 \<Rightarrow> u8 \<Rightarrow> u8" where
  "gf_times a b = foldr (\<lambda>n s. xtime s XOR (if bit b n then a else 0)) [0..<8] 0"

text \<open>The multiplicative inverse, and zero for zero.\<close>

definition gf_inverse :: "u8 \<Rightarrow> u8" where
  "gf_inverse a = (case find (\<lambda>c. gf_times a c = 1) (map of_nat [0..<256]) of Some c \<Rightarrow> c | None \<Rightarrow> 0)"

subsection \<open>The substitution of bytes\<close>

definition rot8 :: "nat \<Rightarrow> u8 \<Rightarrow> u8" where
  "rot8 k a = push_bit k a OR drop_bit (8 - k) a"

definition sbox_affine :: "u8 \<Rightarrow> u8" where
  "sbox_affine a = a XOR rot8 1 a XOR rot8 2 a XOR rot8 3 a XOR rot8 4 a XOR 0x63"

definition inv_sbox_affine :: "u8 \<Rightarrow> u8" where
  "inv_sbox_affine a = rot8 1 a XOR rot8 3 a XOR rot8 6 a XOR 0x05"

definition sbox :: "u8 \<Rightarrow> u8" where
  "sbox b = sbox_affine (gf_inverse b)"

definition inv_sbox :: "u8 \<Rightarrow> u8" where
  "inv_sbox b = gf_inverse (inv_sbox_affine b)"

subsection \<open>The laws of the field\<close>

text \<open>Multiplication commutes with every linear map that commutes with \<open>xtime\<close>, multiplication itself included.\<close>

lemma xtime_zero [simp]: "xtime 0 = 0"
  by (simp add: xtime_def)

lemma xtime_xor: "xtime (a XOR b) = xtime a XOR xtime b"
  by (rule bit_word_eqI) (auto simp: xtime_def bit_simps)

lemma gf_times_linear:
  assumes "\<And>x y. f (x XOR y) = f x XOR f y" and "\<And>x. f (xtime x) = xtime (f x)"
  shows "gf_times (f a) b = f (gf_times a b)"
proof -
  have "f 0 = 0" using assms(1) [of 0 0] by simp
  then have "foldr (\<lambda>n s. xtime s XOR (if bit b n then f a else 0)) ns 0 =
      f (foldr (\<lambda>n s. xtime s XOR (if bit b n then a else 0)) ns 0)" for ns
    by (induction ns) (simp_all add: assms)
  then show ?thesis by (simp add: gf_times_def)
qed

lemma gf_times_xor: "gf_times (a XOR a') b = gf_times a b XOR gf_times a' b"
proof -
  have "foldr (\<lambda>n s. xtime s XOR (if bit b n then a XOR a' else 0)) ns 0 =
      foldr (\<lambda>n s. xtime s XOR (if bit b n then a else 0)) ns 0 XOR
      foldr (\<lambda>n s. xtime s XOR (if bit b n then a' else 0)) ns 0" for ns
    by (induction ns) (simp_all add: xtime_xor ac_simps)
  then show ?thesis by (simp add: gf_times_def)
qed

lemma gf_times_xtime: "gf_times (xtime a) b = xtime (gf_times a b)"
  by (rule gf_times_linear) (simp_all add: xtime_xor)

lemma gf_times_one: "gf_times 1 b = b"
proof -
  let ?f = "\<lambda>n s. xtime s XOR (if bit b n then 1 else 0)"
  have out: "\<not> bit x k" if "8 \<le> k" for x :: u8 and k using that bit_imp_le_length [of x k] by auto
  have "foldr ?f [8 - k..<8] 0 = drop_bit (8 - k) b" if "k \<le> 8" for k
    using that
  proof (induction k)
    case 0
    show ?case by (rule bit_word_eqI) (simp add: bit_simps out)
  next
    case (Suc k)
    let ?n = "8 - Suc k"
    have n: "8 - k = Suc ?n" "[?n..<8] = ?n # [8 - k..<8]"
      using Suc.prems by (simp_all add: upt_conv_Cons Suc_diff_le flip: Suc_diff_le)
    have "foldr ?f [?n..<8] 0 = ?f ?n (drop_bit (Suc ?n) b)" using Suc n by simp
    also have "\<dots> = drop_bit ?n b"
    proof (rule bit_word_eqI)
      fix i assume "i < LENGTH(8)"
      then have i: "i < 8" by simp
      have "xtime (drop_bit (Suc ?n) b) = push_bit 1 (drop_bit (Suc ?n) b)"
        using out [of "Suc ?n + 7" b] by (simp only: xtime_def bit_drop_bit_eq comp_def) simp
      then show "bit (?f ?n (drop_bit (Suc ?n) b)) i \<longleftrightarrow> bit (drop_bit ?n b) i"
        using i by (cases i) (simp_all only: bit_xor_iff bit_push_bit_iff, simp_all add: bit_simps)
    qed
    finally show ?case .
  qed
  from this [of 8] show ?thesis by (simp add: gf_times_def)
qed

lemma gf_times_right_commute: "gf_times (gf_times a b) c = gf_times (gf_times a c) b"
  by (rule gf_times_linear [symmetric]) (simp_all add: gf_times_xor gf_times_xtime)

lemma gf_times_commute: "gf_times a b = gf_times b a"
  using gf_times_right_commute [of 1 a b] by (simp add: gf_times_one)

lemma gf_times_assoc: "gf_times (gf_times a b) c = gf_times a (gf_times b c)"
  by (metis gf_times_commute gf_times_right_commute)

lemma gf_times_zero: "gf_times 0 b = 0"
  using gf_times_xor [of 0 0 b] by simp

lemma gf_inverse_unique:
  assumes "gf_times a c = 1"
  shows "gf_inverse a = c"
proof -
  have unique: "d = c" if "gf_times a d = 1" for d
    by (metis assms that gf_times_assoc gf_times_commute gf_times_one)
  have "c \<in> set (map of_nat [0..<256])"
    using unsigned_less [where 'a = nat and w = c] image_eqI [of c of_nat "unat c"] by auto
  then have "find (\<lambda>c. gf_times a c = 1) (map of_nat [0..<256]) \<noteq> None"
    using assms unfolding find_None_iff by blast
  then obtain d where "find (\<lambda>c. gf_times a c = 1) (map of_nat [0..<256]) = Some d" by blast
  moreover from this have "gf_times a d = 1" by (auto simp: find_Some_iff)
  ultimately show ?thesis using unique [of d] by (simp add: gf_inverse_def)
qed

lemma gf_inverse_zero: "gf_inverse 0 = 0"
  by (auto simp: gf_inverse_def gf_times_zero find_Some_iff split: option.splits)

subsection \<open>Powers of a generator\<close>

text \<open>
  Every byte but zero is a power of \<open>x + 1\<close>: the 255 powers in order, and for each byte from 1 the exponent.
\<close>

definition gf_step :: "u8 \<Rightarrow> u8" where
  "gf_step a = xtime a XOR a"

definition gf_powers :: "u8 list" where
  "gf_powers =
    [0x01, 0x03, 0x05, 0x0f, 0x11, 0x33, 0x55, 0xff, 0x1a, 0x2e, 0x72, 0x96, 0xa1, 0xf8, 0x13, 0x35,
     0x5f, 0xe1, 0x38, 0x48, 0xd8, 0x73, 0x95, 0xa4, 0xf7, 0x02, 0x06, 0x0a, 0x1e, 0x22, 0x66, 0xaa,
     0xe5, 0x34, 0x5c, 0xe4, 0x37, 0x59, 0xeb, 0x26, 0x6a, 0xbe, 0xd9, 0x70, 0x90, 0xab, 0xe6, 0x31,
     0x53, 0xf5, 0x04, 0x0c, 0x14, 0x3c, 0x44, 0xcc, 0x4f, 0xd1, 0x68, 0xb8, 0xd3, 0x6e, 0xb2, 0xcd,
     0x4c, 0xd4, 0x67, 0xa9, 0xe0, 0x3b, 0x4d, 0xd7, 0x62, 0xa6, 0xf1, 0x08, 0x18, 0x28, 0x78, 0x88,
     0x83, 0x9e, 0xb9, 0xd0, 0x6b, 0xbd, 0xdc, 0x7f, 0x81, 0x98, 0xb3, 0xce, 0x49, 0xdb, 0x76, 0x9a,
     0xb5, 0xc4, 0x57, 0xf9, 0x10, 0x30, 0x50, 0xf0, 0x0b, 0x1d, 0x27, 0x69, 0xbb, 0xd6, 0x61, 0xa3,
     0xfe, 0x19, 0x2b, 0x7d, 0x87, 0x92, 0xad, 0xec, 0x2f, 0x71, 0x93, 0xae, 0xe9, 0x20, 0x60, 0xa0,
     0xfb, 0x16, 0x3a, 0x4e, 0xd2, 0x6d, 0xb7, 0xc2, 0x5d, 0xe7, 0x32, 0x56, 0xfa, 0x15, 0x3f, 0x41,
     0xc3, 0x5e, 0xe2, 0x3d, 0x47, 0xc9, 0x40, 0xc0, 0x5b, 0xed, 0x2c, 0x74, 0x9c, 0xbf, 0xda, 0x75,
     0x9f, 0xba, 0xd5, 0x64, 0xac, 0xef, 0x2a, 0x7e, 0x82, 0x9d, 0xbc, 0xdf, 0x7a, 0x8e, 0x89, 0x80,
     0x9b, 0xb6, 0xc1, 0x58, 0xe8, 0x23, 0x65, 0xaf, 0xea, 0x25, 0x6f, 0xb1, 0xc8, 0x43, 0xc5, 0x54,
     0xfc, 0x1f, 0x21, 0x63, 0xa5, 0xf4, 0x07, 0x09, 0x1b, 0x2d, 0x77, 0x99, 0xb0, 0xcb, 0x46, 0xca,
     0x45, 0xcf, 0x4a, 0xde, 0x79, 0x8b, 0x86, 0x91, 0xa8, 0xe3, 0x3e, 0x42, 0xc6, 0x51, 0xf3, 0x0e,
     0x12, 0x36, 0x5a, 0xee, 0x29, 0x7b, 0x8d, 0x8c, 0x8f, 0x8a, 0x85, 0x94, 0xa7, 0xf2, 0x0d, 0x17,
     0x39, 0x4b, 0xdd, 0x7c, 0x84, 0x97, 0xa2, 0xfd, 0x1c, 0x24, 0x6c, 0xb4, 0xc7, 0x52, 0xf6]"

definition gf_logs :: "nat list" where
  "gf_logs =
    [0, 25, 1, 50, 2, 26, 198, 75, 199, 27, 104, 51, 238, 223, 3, 100, 4, 224, 14, 52,
     141, 129, 239, 76, 113, 8, 200, 248, 105, 28, 193, 125, 194, 29, 181, 249, 185, 39, 106, 77,
     228, 166, 114, 154, 201, 9, 120, 101, 47, 138, 5, 33, 15, 225, 36, 18, 240, 130, 69, 53,
     147, 218, 142, 150, 143, 219, 189, 54, 208, 206, 148, 19, 92, 210, 241, 64, 70, 131, 56, 102,
     221, 253, 48, 191, 6, 139, 98, 179, 37, 226, 152, 34, 136, 145, 16, 126, 110, 72, 195, 163,
     182, 30, 66, 58, 107, 40, 84, 250, 133, 61, 186, 43, 121, 10, 21, 155, 159, 94, 202, 78,
     212, 172, 229, 243, 115, 167, 87, 175, 88, 168, 80, 244, 234, 214, 116, 79, 174, 233, 213, 231,
     230, 173, 232, 44, 215, 117, 122, 235, 22, 11, 245, 89, 203, 95, 176, 156, 169, 81, 160, 127,
     12, 246, 111, 23, 196, 73, 236, 216, 67, 31, 45, 164, 118, 123, 183, 204, 187, 62, 90, 251,
     96, 177, 134, 59, 82, 161, 108, 170, 85, 41, 157, 151, 178, 135, 144, 97, 190, 220, 252, 188,
     149, 207, 205, 55, 63, 91, 209, 83, 57, 132, 60, 65, 162, 109, 71, 20, 42, 158, 93, 86,
     242, 211, 171, 68, 17, 146, 217, 35, 32, 46, 137, 180, 124, 184, 38, 119, 153, 227, 165, 103,
     74, 237, 222, 197, 49, 254, 24, 13, 99, 140, 128, 192, 247, 112, 7]"


lemma gf_times_step: "gf_times (gf_step a) b = gf_step (gf_times a b)"
  by (simp add: gf_step_def gf_times_xor gf_times_xtime)

lemma gf_times_steps: "gf_times ((gf_step ^^ k) a) b = (gf_step ^^ k) (gf_times a b)"
  by (induction k) (simp_all add: gf_times_step)

lemma gf_powers_length: "length gf_powers = 255" "length gf_logs = 255"
  by code_simp+

lemma gf_powers_step: "map gf_step gf_powers = tl gf_powers @ [1]"
  by code_simp

lemma gf_powers_logs: "map (\<lambda>k. gf_powers ! k) gf_logs = map of_nat [1..<256]"
  by code_simp

lemma gf_logs_range: "list_all (\<lambda>k. k < 255) gf_logs"
  by code_simp

lemma gf_powers_Suc: "k < 255 \<Longrightarrow> gf_step (gf_powers ! k) = (gf_powers @ [1]) ! Suc k"
  using arg_cong [OF gf_powers_step, of "\<lambda>xs. xs ! k"] gf_powers_length
  by (auto simp: nth_append nth_tl)

lemma gf_powers_nth: "k \<le> 255 \<Longrightarrow> (gf_powers @ [1]) ! k = (gf_step ^^ k) 1"
proof (induction k)
  case 0
  show ?case by (simp add: gf_powers_def)
next
  case (Suc k)
  then have "gf_powers ! k = (gf_step ^^ k) 1" by (simp add: nth_append gf_powers_length)
  then show ?case using gf_powers_Suc [of k] Suc.prems by simp
qed

text \<open>The inverse of a power of the generator.\<close>

lemma gf_powers_times:
  assumes "k < 255"
  shows "gf_times (gf_powers ! k) (gf_powers ! ((255 - k) mod 255)) = 1"
proof -
  have g: "gf_powers ! j = (gf_step ^^ j) 1" if "j < 255" for j
    using gf_powers_nth [of j] that by (simp add: nth_append gf_powers_length)
  have "(gf_step ^^ 255) 1 = 1" using gf_powers_nth [of 255] by (simp add: nth_append gf_powers_length)
  moreover have "gf_times (gf_powers ! k) (gf_powers ! ((255 - k) mod 255)) = (gf_step ^^ (k + (255 - k) mod 255)) 1"
    using assms by (simp only: g gf_times_steps gf_times_one mod_less_divisor) (simp add: funpow_add)
  ultimately show ?thesis using assms by (cases "k = 0") simp_all
qed

lemma gf_inverse_power: "k < 255 \<Longrightarrow> gf_inverse (gf_powers ! k) = gf_powers ! ((255 - k) mod 255)"
  by (rule gf_inverse_unique [OF gf_powers_times])

lemma gf_logs_nth:
  assumes "b \<noteq> 0"
  shows "gf_logs ! (unat b - 1) < 255" "gf_powers ! (gf_logs ! (unat b - 1)) = b"
proof -
  have b: "unat b < 256" "unat b \<noteq> 0" using unsigned_less [where 'a = nat and w = b] assms by (simp_all add: unat_eq_0)
  then show "gf_logs ! (unat b - 1) < 255"
    using gf_logs_range gf_powers_length(2) by (simp add: list_all_length)
  show "gf_powers ! (gf_logs ! (unat b - 1)) = b"
    using arg_cong [OF gf_powers_logs, of "\<lambda>xs. xs ! (unat b - 1)"] b gf_powers_length(2)
    by (simp del: upt_Suc)
qed

lemma gf_inverse_log:
  assumes "b \<noteq> 0"
  shows "gf_inverse b = gf_powers ! ((255 - gf_logs ! (unat b - 1)) mod 255)"
  using gf_inverse_power [OF gf_logs_nth(1) [OF assms]] gf_logs_nth(2) [OF assms] by simp

lemma gf_inverse_times: "b \<noteq> 0 \<Longrightarrow> gf_times b (gf_inverse b) = 1"
  using gf_powers_times [OF gf_logs_nth(1), of b] by (simp add: gf_inverse_log gf_logs_nth(2) del: One_nat_def)

lemma gf_inverse_inverse: "gf_inverse (gf_inverse b) = b"
proof (cases "b = 0")
  case False
  then have "gf_times (gf_inverse b) b = 1" using gf_inverse_times gf_times_commute by metis
  then show ?thesis by (rule gf_inverse_unique)
qed (simp add: gf_inverse_zero)

lemma bit_rot8:
  assumes "0 < k" and "k < 8" and "i < 8"
  shows "bit (rot8 k a) i \<longleftrightarrow> bit a (if k \<le> i then i - k else i + 8 - k)"
proof -
  have "\<not> bit a (i + 8 - k)" if "k \<le> i" using that bit_imp_le_length [of a "i + 8 - k"] by auto
  then show ?thesis using assms by (auto simp: rot8_def bit_simps add.commute)
qed

lemma inv_sbox_affine_affine: "inv_sbox_affine (sbox_affine a) = a"
proof (rule bit_word_eqI)
  fix i assume "i < LENGTH(8)"
  then have i: "i \<in> {0, 1, 2, 3, 4, 5, 6, 7}" by auto
  define c :: u8 where "c = 0x63"
  define d :: u8 where "d = 0x05"
  have "list_all (\<lambda>j. (bit (0x63 :: u8) j \<longleftrightarrow> j \<in> {0, 1, 5, 6}) \<and> (bit (0x05 :: u8) j \<longleftrightarrow> j \<in> {0, 2})) [0..<8]"
    by code_simp
  then have cbits: "bit c j \<longleftrightarrow> j \<in> {0, 1, 5, 6}" "bit d j \<longleftrightarrow> j \<in> {0, 2}" if "j < 8" for j
    using that by (simp_all add: list_all_iff c_def d_def)
  note bits = bit_xor_iff bit_rot8 inv_sbox_affine_def [folded d_def] sbox_affine_def [folded c_def] cbits
  from i show "bit (inv_sbox_affine (sbox_affine a)) i \<longleftrightarrow> bit a i"
    by (elim insertE emptyE) (simp_all add: bits, argo+)
qed

lemma inv_sbox_sbox: "inv_sbox (sbox b) = b"
  by (simp add: inv_sbox_def sbox_def inv_sbox_affine_affine gf_inverse_inverse)

text \<open>The whole substitution as a list.\<close>

lemma sbox_log:
  "map (\<lambda>k. sbox_affine (gf_powers ! ((255 - k) mod 255))) gf_logs = map (\<lambda>n. sbox (of_nat n)) [1..<256]"
proof (rule nth_equalityI)
  fix i assume "i < length (map (\<lambda>k. sbox_affine (gf_powers ! ((255 - k) mod 255))) gf_logs)"
  then have i: "i < 255" by (simp add: gf_powers_length)
  then have u: "unat (of_nat (Suc i) :: u8) = Suc i" by (simp add: unsigned_of_nat take_bit_nat_eq_self del: of_nat_Suc)
  then have "(of_nat (Suc i) :: u8) \<noteq> 0" by (metis nat.distinct(1) unsigned_0)
  from gf_inverse_log [OF this, unfolded u] i
  show "map (\<lambda>k. sbox_affine (gf_powers ! ((255 - k) mod 255))) gf_logs ! i = map (\<lambda>n. sbox (of_nat n)) [1..<256] ! i"
    by (simp add: gf_powers_length sbox_def del: of_nat_Suc)
qed (simp add: gf_powers_length)

end
