(* ===== verification/Aes.thy ===== *)
theory Aes
  imports AesTables
begin

text \<open>
  The AES library (\<^verbatim>\<open>src/firmware/libraries/aes/aes.c\<close>): key expansion for encryption and decryption, the
  unrolled table-driven rounds on a block of four words, and the block-by-block encryption and decryption of a
  buffer with its padding. The words a key expansion writes are the list of the round keys.
\<close>

subsection \<open>Words and bytes\<close>

definition GETU32 :: "u8 list \<Rightarrow> nat \<Rightarrow> u32" where
  "GETU32 p k =
     push_bit 24 (ucast (p ! k)) XOR push_bit 16 (ucast (p ! (k + 1))) XOR push_bit 8 (ucast (p ! (k + 2))) XOR ucast (p ! (k + 3))"

definition PUTU32 :: "u32 \<Rightarrow> u8 list" where
  "PUTU32 st = [ucast (drop_bit 24 st), ucast (drop_bit 16 st), ucast (drop_bit 8 st), ucast st]"

type_synonym aes_state = "u32 \<times> u32 \<times> u32 \<times> u32"

subsection \<open>Key expansion\<close>

text \<open>The substituted and rotated word that starts a group of key words, and the one without rotation of long keys.\<close>

definition key_rotated :: "u32 \<Rightarrow> u32" where
  "key_rotated temp =
     (Te4 ! unat (drop_bit 16 temp AND 0xff) AND 0xff000000) XOR
     (Te4 ! unat (drop_bit 8 temp AND 0xff) AND 0x00ff0000) XOR
     (Te4 ! unat (temp AND 0xff) AND 0x0000ff00) XOR
     (Te4 ! unat (drop_bit 24 temp) AND 0x000000ff)"

definition key_substituted :: "u32 \<Rightarrow> u32" where
  "key_substituted temp =
     (Te4 ! unat (drop_bit 24 temp) AND 0xff000000) XOR
     (Te4 ! unat (drop_bit 16 temp AND 0xff) AND 0x00ff0000) XOR
     (Te4 ! unat (drop_bit 8 temp AND 0xff) AND 0x0000ff00) XOR
     (Te4 ! unat (temp AND 0xff) AND 0x000000ff)"

text \<open>The next word is the exclusive or of the word \<open>n\<close> places back and the one before it.\<close>

definition key_next :: "nat \<Rightarrow> u32 list \<Rightarrow> u32 list" where
  "key_next n rk = rk @ [rk ! (length rk - n) XOR last rk]"

definition key_group128 :: "nat \<Rightarrow> u32 list \<Rightarrow> u32 list" where
  "key_group128 i rk =
     (let rk = rk @ [rk ! (length rk - 4) XOR key_rotated (last rk) XOR rcon ! i]
      in (key_next 4 ^^ 3) rk)"

definition key_group192 :: "nat \<Rightarrow> u32 list \<Rightarrow> u32 list" where
  "key_group192 i rk =
     (let rk = rk @ [rk ! (length rk - 6) XOR key_rotated (last rk) XOR rcon ! i];
          rk = (key_next 6 ^^ 3) rk
      in if i + 1 = 8 then rk else (key_next 6 ^^ 2) rk)"

definition key_group256 :: "nat \<Rightarrow> u32 list \<Rightarrow> u32 list" where
  "key_group256 i rk =
     (let rk = rk @ [rk ! (length rk - 8) XOR key_rotated (last rk) XOR rcon ! i];
          rk = (key_next 8 ^^ 3) rk
      in if i + 1 = 7 then rk
         else let rk = rk @ [rk ! (length rk - 8) XOR key_substituted (last rk)]
              in (key_next 8 ^^ 3) rk)"

definition Aes_SetupEncrypt :: "u8 list \<Rightarrow> int \<Rightarrow> nat \<times> u32 list" where
  "Aes_SetupEncrypt key keybits =
     (let rk = [GETU32 key 0, GETU32 key 4, GETU32 key 8, GETU32 key 12]
      in if keybits = 128 then (10, fold key_group128 [0..<10] rk)
         else let rk = rk @ [GETU32 key 16, GETU32 key 20]
              in if keybits = 192 then (12, fold key_group192 [0..<8] rk)
                 else let rk = rk @ [GETU32 key 24, GETU32 key 28]
                      in if keybits = 256 then (14, fold key_group256 [0..<7] rk) else (0, rk))"

definition swap_round_keys :: "nat \<Rightarrow> nat \<Rightarrow> u32 list \<Rightarrow> u32 list" where
  "swap_round_keys i j rk = fold (\<lambda>k rk. rk[i + k := rk ! (j + k), j + k := rk ! (i + k)]) [0..<4] rk"

function invert_order :: "nat \<Rightarrow> nat \<Rightarrow> u32 list \<Rightarrow> u32 list" where
  "invert_order i j rk = (if i < j then invert_order (i + 4) (j - 4) (swap_round_keys i j rk) else rk)"
  by pat_completeness auto
termination
  by (relation "measure (\<lambda>(i, j, rk). j - i)") auto

definition inv_mix_word :: "u32 \<Rightarrow> u32" where
  "inv_mix_word w =
     Td0 ! unat (Te4 ! unat (drop_bit 24 w) AND 0xff) XOR
     Td1 ! unat (Te4 ! unat (drop_bit 16 w AND 0xff) AND 0xff) XOR
     Td2 ! unat (Te4 ! unat (drop_bit 8 w AND 0xff) AND 0xff) XOR
     Td3 ! unat (Te4 ! unat (w AND 0xff) AND 0xff)"

definition inv_mix_key :: "nat \<Rightarrow> u32 list \<Rightarrow> u32 list" where
  "inv_mix_key i rk = fold (\<lambda>k rk. rk[4 * i + k := inv_mix_word (rk ! (4 * i + k))]) [0..<4] rk"

definition Aes_SetupDecrypt :: "u8 list \<Rightarrow> int \<Rightarrow> nat \<times> u32 list" where
  "Aes_SetupDecrypt key keybits =
     (let (nrounds, rk) = Aes_SetupEncrypt key keybits;
          rk = invert_order 0 (4 * nrounds) rk;
          rk = fold inv_mix_key [1..<nrounds] rk
      in (nrounds, rk))"

subsection \<open>One block\<close>

definition te_word :: "u32 \<Rightarrow> u32 \<Rightarrow> u32 \<Rightarrow> u32 \<Rightarrow> u32 \<Rightarrow> u32" where
  "te_word a b c d k =
     Te0 ! unat (drop_bit 24 a) XOR Te1 ! unat (drop_bit 16 b AND 0xff) XOR
     Te2 ! unat (drop_bit 8 c AND 0xff) XOR Te3 ! unat (d AND 0xff) XOR k"

definition te_last :: "u32 \<Rightarrow> u32 \<Rightarrow> u32 \<Rightarrow> u32 \<Rightarrow> u32 \<Rightarrow> u32" where
  "te_last a b c d k =
     (Te4 ! unat (drop_bit 24 a) AND 0xff000000) XOR (Te4 ! unat (drop_bit 16 b AND 0xff) AND 0x00ff0000) XOR
     (Te4 ! unat (drop_bit 8 c AND 0xff) AND 0x0000ff00) XOR (Te4 ! unat (d AND 0xff) AND 0x000000ff) XOR k"

definition td_word :: "u32 \<Rightarrow> u32 \<Rightarrow> u32 \<Rightarrow> u32 \<Rightarrow> u32 \<Rightarrow> u32" where
  "td_word a b c d k =
     Td0 ! unat (drop_bit 24 a) XOR Td1 ! unat (drop_bit 16 b AND 0xff) XOR
     Td2 ! unat (drop_bit 8 c AND 0xff) XOR Td3 ! unat (d AND 0xff) XOR k"

definition td_last :: "u32 \<Rightarrow> u32 \<Rightarrow> u32 \<Rightarrow> u32 \<Rightarrow> u32 \<Rightarrow> u32" where
  "td_last a b c d k =
     (Td4 ! unat (drop_bit 24 a) AND 0xff000000) XOR (Td4 ! unat (drop_bit 16 b AND 0xff) AND 0x00ff0000) XOR
     (Td4 ! unat (drop_bit 8 c AND 0xff) AND 0x0000ff00) XOR (Td4 ! unat (d AND 0xff) AND 0x000000ff) XOR k"

definition first_key :: "u32 list \<Rightarrow> u8 list \<Rightarrow> aes_state" where
  "first_key rk p = (GETU32 p 0 XOR rk ! 0, GETU32 p 4 XOR rk ! 1, GETU32 p 8 XOR rk ! 2, GETU32 p 12 XOR rk ! 3)"

fun te_round :: "u32 list \<Rightarrow> nat \<Rightarrow> aes_state \<Rightarrow> aes_state" where
  "te_round rk r (s0, s1, s2, s3) =
     (te_word s0 s1 s2 s3 (rk ! (4 * r)), te_word s1 s2 s3 s0 (rk ! (4 * r + 1)),
      te_word s2 s3 s0 s1 (rk ! (4 * r + 2)), te_word s3 s0 s1 s2 (rk ! (4 * r + 3)))"

fun td_round :: "u32 list \<Rightarrow> nat \<Rightarrow> aes_state \<Rightarrow> aes_state" where
  "td_round rk r (s0, s1, s2, s3) =
     (td_word s0 s3 s2 s1 (rk ! (4 * r)), td_word s1 s0 s3 s2 (rk ! (4 * r + 1)),
      td_word s2 s1 s0 s3 (rk ! (4 * r + 2)), td_word s3 s2 s1 s0 (rk ! (4 * r + 3)))"

text \<open>The unrolled rounds: nine always, two more for more than ten and two more for more than twelve.\<close>

definition unrolled :: "(nat \<Rightarrow> aes_state \<Rightarrow> aes_state) \<Rightarrow> nat \<Rightarrow> aes_state \<Rightarrow> aes_state" where
  "unrolled f nrounds s =
     (let t = (f 9 \<circ> f 8 \<circ> f 7 \<circ> f 6 \<circ> f 5 \<circ> f 4 \<circ> f 3 \<circ> f 2 \<circ> f 1) s
      in if nrounds > 10 then
           (let t = f 11 (f 10 t) in if nrounds > 12 then f 13 (f 12 t) else t)
         else t)"

definition Aes_DoEncrypt :: "u32 list \<Rightarrow> nat \<Rightarrow> u8 list \<Rightarrow> u8 list" where
  "Aes_DoEncrypt rk nrounds plaintext =
     (let (t0, t1, t2, t3) = unrolled (te_round rk) nrounds (first_key rk plaintext);
          rk = drop (4 * nrounds) rk
      in PUTU32 (te_last t0 t1 t2 t3 (rk ! 0)) @ PUTU32 (te_last t1 t2 t3 t0 (rk ! 1)) @
         PUTU32 (te_last t2 t3 t0 t1 (rk ! 2)) @ PUTU32 (te_last t3 t0 t1 t2 (rk ! 3)))"

definition Aes_DoDecrypt :: "u32 list \<Rightarrow> nat \<Rightarrow> u8 list \<Rightarrow> u8 list" where
  "Aes_DoDecrypt rk nrounds ciphertext =
     (let (t0, t1, t2, t3) = unrolled (td_round rk) nrounds (first_key rk ciphertext);
          rk = drop (4 * nrounds) rk
      in PUTU32 (td_last t0 t3 t2 t1 (rk ! 0)) @ PUTU32 (td_last t1 t0 t3 t2 (rk ! 1)) @
         PUTU32 (td_last t2 t1 t0 t3 (rk ! 2)) @ PUTU32 (td_last t3 t2 t1 t0 (rk ! 3)))"

subsection \<open>Buffers\<close>

text \<open>
  The input is the bytes of the given length. The result is the value returned, \<open>- 1\<close> for failure, and the bytes
  written to the output buffer.
\<close>

abbreviation (input) BLOCK_SIZE :: nat where "BLOCK_SIZE \<equiv> 16"

function encrypt_loop :: "(u8 list \<Rightarrow> u8 list) \<Rightarrow> int \<Rightarrow> u8 list \<Rightarrow> int option \<times> u8 list" where
  "encrypt_loop enc outlen input =
     (if input = [] then (Some outlen, [])
      else
        let j = min BLOCK_SIZE (length input);
            plaintext = take j input @ replicate (BLOCK_SIZE - j) (of_nat (BLOCK_SIZE - j));
            ciphertext = enc plaintext;
            rest = drop j input
        in if outlen < int BLOCK_SIZE then (None, [])
           else
             let outlen = outlen - int BLOCK_SIZE
             in if j = BLOCK_SIZE \<and> rest = [] then
                  let padding = enc (replicate BLOCK_SIZE (of_nat BLOCK_SIZE))
                  in if outlen < int BLOCK_SIZE then (None, ciphertext)
                     else (Some (outlen - int BLOCK_SIZE), ciphertext @ padding)
                else let (r, written) = encrypt_loop enc outlen rest in (r, ciphertext @ written))"
  by pat_completeness auto
termination
  by (relation "measure (\<lambda>(enc, outlen, input). length input)") auto

function decrypt_loop :: "(u8 list \<Rightarrow> u8 list) \<Rightarrow> int \<Rightarrow> u8 list \<Rightarrow> int option \<times> u8 list" where
  "decrypt_loop dec outlen input =
     (if input = [] then (Some outlen, [])
      else if length input < BLOCK_SIZE then (None, [])
      else
        let plaintext = dec (take BLOCK_SIZE input);
            rest = drop BLOCK_SIZE input
        in if length rest < BLOCK_SIZE then
             let padlen = uint (plaintext ! (BLOCK_SIZE - 1)); datalen = int BLOCK_SIZE - padlen
             in if padlen < 1 \<or> padlen > 16 then (None, [])
                else if outlen < datalen then (None, [])
                else if rest = [] then (Some (outlen - datalen), take (nat datalen) plaintext)
                else (None, take (nat datalen) plaintext)
           else if outlen < int BLOCK_SIZE then (None, [])
           else let (r, written) = decrypt_loop dec (outlen - int BLOCK_SIZE) rest in (r, plaintext @ written))"
  by pat_completeness auto
termination
  by (relation "measure (\<lambda>(dec, outlen, input). length input)") auto

declare invert_order.simps [simp del] encrypt_loop.simps [simp del] decrypt_loop.simps [simp del]

definition Aes_Encrypt :: "int \<Rightarrow> u8 list \<Rightarrow> u8 list \<Rightarrow> int \<times> u8 list" where
  "Aes_Encrypt outlen input password =
     (let (nrounds, rk) = Aes_SetupEncrypt (take BLOCK_SIZE password) 128;
          (r, written) = encrypt_loop (Aes_DoEncrypt rk nrounds) outlen input
      in (case r of None \<Rightarrow> - 1 | Some left \<Rightarrow> outlen - left, written))"

definition Aes_Decrypt :: "int \<Rightarrow> u8 list \<Rightarrow> u8 list \<Rightarrow> int \<times> u8 list" where
  "Aes_Decrypt outlen input password =
     (let (nrounds, rk) = Aes_SetupDecrypt (take BLOCK_SIZE password) 128;
          (r, written) = decrypt_loop (Aes_DoDecrypt rk nrounds) outlen input
      in (case r of None \<Rightarrow> - 1 | Some left \<Rightarrow> outlen - left, written))"

end
