(* ===== verification/AesSpec.thy ===== *)
theory AesSpec
  imports Aes
begin

text \<open>
  The AES library against the standard: the cipher on a block of sixteen bytes as the standard defines it, by
  substitution (the S-box of AesField, not the library's table), row shifts, column mixing and round keys, the equality of the table-driven rounds and key expansions with
  it, and the round trip of a buffer through encryption and decryption.
\<close>

subsection \<open>The standard cipher\<close>

text \<open>A block is sixteen bytes, column after column.\<close>

definition add_key :: "u8 list \<Rightarrow> u8 list \<Rightarrow> u8 list" where
  "add_key s k = map2 (XOR) s k"

definition shift_rows :: "u8 list \<Rightarrow> u8 list" where
  "shift_rows s = map (\<lambda>i. s ! ((i + 4 * (i mod 4)) mod 16)) [0..<16]"

definition inv_shift_rows :: "u8 list \<Rightarrow> u8 list" where
  "inv_shift_rows s = map (\<lambda>i. s ! ((i + 12 * (i mod 4)) mod 16)) [0..<16]"

fun mix_column :: "u8 list \<Rightarrow> u8 list" where
  "mix_column [a, b, c, d] =
     [xtime a XOR (xtime b XOR b) XOR c XOR d, a XOR xtime b XOR (xtime c XOR c) XOR d,
      a XOR b XOR xtime c XOR (xtime d XOR d), (xtime a XOR a) XOR b XOR c XOR xtime d]"
| "mix_column _ = []"

definition times_9 :: "u8 \<Rightarrow> u8" where "times_9 a = xtime (xtime (xtime a)) XOR a"
definition times_11 :: "u8 \<Rightarrow> u8" where "times_11 a = xtime (xtime (xtime a)) XOR xtime a XOR a"
definition times_13 :: "u8 \<Rightarrow> u8" where "times_13 a = xtime (xtime (xtime a)) XOR xtime (xtime a) XOR a"
definition times_14 :: "u8 \<Rightarrow> u8" where "times_14 a = xtime (xtime (xtime a)) XOR xtime (xtime a) XOR xtime a"

fun inv_mix_column :: "u8 list \<Rightarrow> u8 list" where
  "inv_mix_column [a, b, c, d] =
     [times_14 a XOR times_11 b XOR times_13 c XOR times_9 d, times_9 a XOR times_14 b XOR times_11 c XOR times_13 d,
      times_13 a XOR times_9 b XOR times_14 c XOR times_11 d, times_11 a XOR times_13 b XOR times_9 c XOR times_14 d]"
| "inv_mix_column _ = []"

definition columns :: "(u8 list \<Rightarrow> u8 list) \<Rightarrow> u8 list \<Rightarrow> u8 list" where
  "columns f s = f (take 4 s) @ f (take 4 (drop 4 s)) @ f (take 4 (drop 8 s)) @ f (take 4 (drop 12 s))"

definition sub_shift :: "u8 list \<Rightarrow> u8 list" where
  "sub_shift s = shift_rows (map sbox s)"

definition inv_sub_shift :: "u8 list \<Rightarrow> u8 list" where
  "inv_sub_shift s = map inv_sbox (inv_shift_rows s)"

text \<open>The cipher and the equivalent inverse cipher for given round keys.\<close>

definition cipher_with :: "(nat \<Rightarrow> u8 list) \<Rightarrow> nat \<Rightarrow> u8 list \<Rightarrow> u8 list" where
  "cipher_with key n p =
     add_key (sub_shift (fold (\<lambda>r s. add_key (columns mix_column (sub_shift s)) (key r)) [1..<n] (add_key p (key 0)))) (key n)"

definition decipher_with :: "(nat \<Rightarrow> u8 list) \<Rightarrow> nat \<Rightarrow> u8 list \<Rightarrow> u8 list" where
  "decipher_with key n c =
     add_key (inv_sub_shift (fold (\<lambda>r s. add_key (columns inv_mix_column (inv_sub_shift s)) (key r)) [1..<n] (add_key c (key 0)))) (key n)"

text \<open>Key expansion, word by word, for a key of \<open>nk\<close> words.\<close>

function aes_key_word :: "nat \<Rightarrow> u8 list \<Rightarrow> nat \<Rightarrow> u8 list" where
  "aes_key_word nk key i =
     (if nk = 0 \<or> i < nk then take 4 (drop (4 * i) key)
      else
        let t = aes_key_word nk key (i - 1);
            t = (if i mod nk = 0 then add_key (map sbox (rotate1 t)) [(xtime ^^ (i div nk - 1)) 1, 0, 0, 0]
                 else if nk > 6 \<and> i mod nk = 4 then map sbox t else t)
        in add_key (aes_key_word nk key (i - nk)) t)"
  by pat_completeness auto
termination
  by (relation "measure (\<lambda>(nk, key, i). i)") auto

declare aes_key_word.simps [simp del]

definition aes_round_key :: "nat \<Rightarrow> u8 list \<Rightarrow> nat \<Rightarrow> u8 list" where
  "aes_round_key nk key r = concat (map (aes_key_word nk key) [4 * r..<4 * r + 4])"

definition aes_cipher :: "u8 list \<Rightarrow> u8 list \<Rightarrow> u8 list" where
  "aes_cipher key p = (let nk = length key div 4 in cipher_with (aes_round_key nk key) (nk + 6) p)"

subsection \<open>Words as columns\<close>

lemma PUTU32_word4 [simp]: "PUTU32 (word4 [a, b, c, d]) = [a, b, c, d]"
  by (simp add: PUTU32_def)

lemma length_PUTU32 [simp]: "length (PUTU32 w) = 4"
  by (simp add: PUTU32_def)

lemma word4_PUTU32: "word4 (PUTU32 w) = w"
  by (simp add: PUTU32_def word4_of_bytes)

lemma word_cases:
  obtains a b c d where "w = word4 [a, b, c, d]"
  using word4_of_bytes [of w, symmetric] by blast

lemma PUTU32_xor: "PUTU32 (v XOR w) = add_key (PUTU32 v) (PUTU32 w)"
  by (cases v rule: word_cases; cases w rule: word_cases) (simp add: word4_xor add_key_def)

lemma word4_and: "word4 [a, b, c, d] AND word4 [a', b', c', d'] = word4 [a AND a', b AND b', c AND c', d AND d']"
  by (rule bit_word_eqI) (simp add: bit_simps bit_word4)

lemma byte_masks:
  "word4 [a, b, c, d] AND 0xff000000 = word4 [a, 0, 0, 0]" "word4 [a, b, c, d] AND 0x00ff0000 = word4 [0, b, 0, 0]"
  "word4 [a, b, c, d] AND 0x0000ff00 = word4 [0, 0, c, 0]" "word4 [a, b, c, d] AND 0x000000ff = word4 [0, 0, 0, d]"
proof -
  have m: "(0xff000000 :: u32) = word4 [- 1, 0, 0, 0]" "(0x00ff0000 :: u32) = word4 [0, - 1, 0, 0]"
    "(0x0000ff00 :: u32) = word4 [0, 0, - 1, 0]" "(0x000000ff :: u32) = word4 [0, 0, 0, - 1]" by code_simp+
  show "word4 [a, b, c, d] AND 0xff000000 = word4 [a, 0, 0, 0]" "word4 [a, b, c, d] AND 0x00ff0000 = word4 [0, b, 0, 0]"
    "word4 [a, b, c, d] AND 0x0000ff00 = word4 [0, 0, c, 0]" "word4 [a, b, c, d] AND 0x000000ff = word4 [0, 0, 0, d]"
    unfolding m word4_and by simp_all
qed

lemmas byte_lookups = byte_index(1) byte_index(2) [of "drop_bit 16 w" for w] byte_index(2) [of "drop_bit 8 w" for w] byte_index(2) [of w for w]

lemma word4_xor4:
  "word4 [a0, a1, a2, a3] XOR word4 [b0, b1, b2, b3] XOR word4 [c0, c1, c2, c3] XOR word4 [d0, d1, d2, d3] XOR k =
     word4 [a0 XOR b0 XOR c0 XOR d0, a1 XOR b1 XOR c1 XOR d1, a2 XOR b2 XOR c2 XOR d2, a3 XOR b3 XOR c3 XOR d3] XOR k"
  by (simp add: word4_xor flip: xor.assoc)

lemma te_word_bytes:
  "PUTU32 (te_word (word4 [a0, a1, a2, a3]) (word4 [b0, b1, b2, b3]) (word4 [c0, c1, c2, c3]) (word4 [d0, d1, d2, d3]) k) =
     add_key (mix_column [sbox a0, sbox b1, sbox c2, sbox d3]) (PUTU32 k)"
  unfolding te_word_def byte_lookups word4_bytes te_lookup te_column_def word4_xor4 PUTU32_xor PUTU32_word4 by (simp add: ac_simps)

lemma td_word_bytes:
  "PUTU32 (td_word (word4 [a0, a1, a2, a3]) (word4 [b0, b1, b2, b3]) (word4 [c0, c1, c2, c3]) (word4 [d0, d1, d2, d3]) k) =
     add_key (inv_mix_column [inv_sbox a0, inv_sbox b1, inv_sbox c2, inv_sbox d3]) (PUTU32 k)"
  unfolding td_word_def byte_lookups word4_bytes td_lookup word4_xor4 PUTU32_xor PUTU32_word4
  by (simp add: times_9_def times_11_def times_13_def times_14_def ac_simps)

lemma te_last_bytes:
  "PUTU32 (te_last (word4 [a0, a1, a2, a3]) (word4 [b0, b1, b2, b3]) (word4 [c0, c1, c2, c3]) (word4 [d0, d1, d2, d3]) k) =
     add_key [sbox a0, sbox b1, sbox c2, sbox d3] (PUTU32 k)"
  unfolding te_last_def byte_lookups word4_bytes unfolding sbox_lookup byte_masks word4_xor4 PUTU32_xor PUTU32_word4 by simp

lemma td_last_bytes:
  "PUTU32 (td_last (word4 [a0, a1, a2, a3]) (word4 [b0, b1, b2, b3]) (word4 [c0, c1, c2, c3]) (word4 [d0, d1, d2, d3]) k) =
     add_key [inv_sbox a0, inv_sbox b1, inv_sbox c2, inv_sbox d3] (PUTU32 k)"
  unfolding td_last_def byte_lookups word4_bytes unfolding sbox_lookup byte_masks word4_xor4 PUTU32_xor PUTU32_word4 by simp

lemma inv_mix_word_bytes: "PUTU32 (inv_mix_word (word4 [a, b, c, d])) = inv_mix_column [a, b, c, d]"
  unfolding inv_mix_word_def byte_lookups word4_bytes sbox_lookup td_lookup inv_sbox_sbox word4_xor PUTU32_word4
  by (simp add: times_9_def times_11_def times_13_def times_14_def ac_simps)

subsection \<open>Blocks of sixteen bytes\<close>

lemma block_cases:
  assumes "length s = 16"
  obtains a b c d e f g h i j k l m n p q where "s = [a, b, c, d, e, f, g, h, i, j, k, l, m, n, p, q]"
  using assms by (auto simp: numeral_eq_Suc length_Suc_conv)

lemma shift_rows_block:
  "shift_rows [a, b, c, d, e, f, g, h, i, j, k, l, m, n, p, q] = [a, f, k, q, e, j, p, d, i, n, c, h, m, b, g, l]"
  "inv_shift_rows [a, b, c, d, e, f, g, h, i, j, k, l, m, n, p, q] = [a, n, k, h, e, b, p, l, i, f, c, q, m, j, g, d]"
  by (simp_all add: shift_rows_def inv_shift_rows_def upt_rec)

lemma sub_shift_block:
  "sub_shift [a, b, c, d, e, f, g, h, i, j, k, l, m, n, p, q] =
     [sbox a, sbox f, sbox k, sbox q, sbox e, sbox j, sbox p, sbox d, sbox i, sbox n, sbox c, sbox h, sbox m, sbox b, sbox g, sbox l]"
  "inv_sub_shift [a, b, c, d, e, f, g, h, i, j, k, l, m, n, p, q] =
     [inv_sbox a, inv_sbox n, inv_sbox k, inv_sbox h, inv_sbox e, inv_sbox b, inv_sbox p, inv_sbox l,
      inv_sbox i, inv_sbox f, inv_sbox c, inv_sbox q, inv_sbox m, inv_sbox j, inv_sbox g, inv_sbox d]"
  by (simp_all add: sub_shift_def inv_sub_shift_def shift_rows_block)

lemma columns_block:
  "columns F [a, b, c, d, e, f, g, h, i, j, k, l, m, n, p, q] = F [a, b, c, d] @ F [e, f, g, h] @ F [i, j, k, l] @ F [m, n, p, q]"
  by (simp add: columns_def)

lemma add_key_append: "length a = length b \<Longrightarrow> add_key a b @ add_key c d = add_key (a @ c) (b @ d)"
  by (simp add: add_key_def)

lemma length_blocks [simp]:
  "length (add_key s k) = min (length s) (length k)" "length (sub_shift s) = 16" "length (inv_sub_shift s) = 16"
  by (simp_all add: add_key_def sub_shift_def inv_sub_shift_def shift_rows_def inv_shift_rows_def)

lemma length_columns [simp]: "length s = 16 \<Longrightarrow> length (columns mix_column s) = 16" "length s = 16 \<Longrightarrow> length (columns inv_mix_column s) = 16"
  by (erule block_cases, simp add: columns_block)+

subsection \<open>The rounds of the library\<close>

fun state_bytes :: "aes_state \<Rightarrow> u8 list" where
  "state_bytes (s0, s1, s2, s3) = PUTU32 s0 @ PUTU32 s1 @ PUTU32 s2 @ PUTU32 s3"

definition key_bytes :: "u32 list \<Rightarrow> nat \<Rightarrow> u8 list" where
  "key_bytes rk r = PUTU32 (rk ! (4 * r)) @ PUTU32 (rk ! (4 * r + 1)) @ PUTU32 (rk ! (4 * r + 2)) @ PUTU32 (rk ! (4 * r + 3))"

lemma length_state_bytes [simp]: "length (state_bytes s) = 16" "length (key_bytes rk r) = 16"
  by (cases s; simp add: key_bytes_def)+

lemma aes_state_cases:
  obtains a b c d e f g h i j k l m n p q
  where "s = (word4 [a, b, c, d], word4 [e, f, g, h], word4 [i, j, k, l], word4 [m, n, p, q])"
proof (cases s)
  case (fields s0 s1 s2 s3)
  then show thesis
    using that by (cases s0 rule: word_cases; cases s1 rule: word_cases; cases s2 rule: word_cases; cases s3 rule: word_cases) blast
qed

lemma te_round_bytes: "state_bytes (te_round rk r s) = add_key (columns mix_column (sub_shift (state_bytes s))) (key_bytes rk r)"
  by (cases s rule: aes_state_cases)
    (simp add: te_word_bytes sub_shift_block columns_block key_bytes_def add_key_append del: mix_column.simps, simp add: add_key_append)

lemma td_round_bytes: "state_bytes (td_round rk r s) = add_key (columns inv_mix_column (inv_sub_shift (state_bytes s))) (key_bytes rk r)"
  by (cases s rule: aes_state_cases)
    (simp add: td_word_bytes sub_shift_block columns_block key_bytes_def add_key_append del: inv_mix_column.simps, simp add: add_key_append)

lemma first_key_bytes:
  assumes "length p = 16"
  shows "state_bytes (first_key rk p) = add_key p (key_bytes rk 0)"
proof -
  have g: "GETU32 p k = word4 [p ! k, p ! (k + 1), p ! (k + 2), p ! (k + 3)]" for p k by (simp add: GETU32_def word4.simps)
  show ?thesis
    by (rule block_cases [OF assms]) (simp add: first_key_def g PUTU32_xor key_bytes_def add_key_append numeral_2_eq_2)
qed

lemma unrolled_fold:
  assumes "n = 10 \<or> n = 12 \<or> n = 14"
  shows "unrolled f n s = fold f [1..<n] s"
proof -
  have u: "[Suc 0..<10] = [1, 2, 3, 4, 5, 6, 7, 8, 9]" by (simp add: upt_rec)
  have "[1..<12::nat] = [1..<10] @ [10, 11]" "[1..<14::nat] = [1..<10] @ [10, 11, 12, 13]"
    by (simp_all add: upt_rec)
  with assms show ?thesis by (elim disjE) (simp_all add: unrolled_def Let_def u)
qed

lemma fold_bytes:
  assumes "\<And>r s. state_bytes (f r s) = g r (state_bytes s)"
  shows "state_bytes (fold f rs s) = fold g rs (state_bytes s)"
  by (induction rs arbitrary: s) (simp_all add: assms)

lemma DoEncrypt_cipher:
  assumes "n = 10 \<or> n = 12 \<or> n = 14" and "length p = 16" and "4 * n \<le> length rk"
  shows "Aes_DoEncrypt rk n p = cipher_with (key_bytes rk) n p"
proof -
  let ?t = "unrolled (te_round rk) n (first_key rk p)"
  have t: "state_bytes ?t = fold (\<lambda>r s. add_key (columns mix_column (sub_shift s)) (key_bytes rk r)) [1..<n] (add_key p (key_bytes rk 0))"
    unfolding unrolled_fold [OF assms(1)] fold_bytes [where f = "te_round rk" and g = "\<lambda>r s. add_key (columns mix_column (sub_shift s)) (key_bytes rk r)", OF te_round_bytes] first_key_bytes [OF assms(2)] ..
  have "Aes_DoEncrypt rk n p = add_key (sub_shift (state_bytes ?t)) (key_bytes rk n)"
    by (cases ?t rule: aes_state_cases)
      (simp add: Aes_DoEncrypt_def Let_def te_last_bytes sub_shift_block key_bytes_def assms(3) add_key_append)
  then show ?thesis by (simp add: t cipher_with_def)
qed

lemma DoDecrypt_decipher:
  assumes "n = 10 \<or> n = 12 \<or> n = 14" and "length c = 16" and "4 * n \<le> length rk"
  shows "Aes_DoDecrypt rk n c = decipher_with (key_bytes rk) n c"
proof -
  let ?t = "unrolled (td_round rk) n (first_key rk c)"
  have t: "state_bytes ?t = fold (\<lambda>r s. add_key (columns inv_mix_column (inv_sub_shift s)) (key_bytes rk r)) [1..<n] (add_key c (key_bytes rk 0))"
    unfolding unrolled_fold [OF assms(1)] fold_bytes [where f = "td_round rk" and g = "\<lambda>r s. add_key (columns inv_mix_column (inv_sub_shift s)) (key_bytes rk r)", OF td_round_bytes] first_key_bytes [OF assms(2)] ..
  have "Aes_DoDecrypt rk n c = add_key (inv_sub_shift (state_bytes ?t)) (key_bytes rk n)"
    by (cases ?t rule: aes_state_cases)
      (simp add: Aes_DoDecrypt_def Let_def td_last_bytes sub_shift_block key_bytes_def assms(3) add_key_append)
  then show ?thesis by (simp add: t decipher_with_def)
qed

subsection \<open>The inverse cipher\<close>

lemma add_key_twice: "length k = length s \<Longrightarrow> add_key (add_key s k) k = s"
  by (rule nth_equalityI) (simp_all add: add_key_def xor.assoc)

lemma inv_sub_shift_sub_shift: "length s = 16 \<Longrightarrow> inv_sub_shift (sub_shift s) = s"
  by (erule block_cases) (simp add: sub_shift_block inv_sbox_sbox)

lemma inv_mix_mix: "inv_mix_column (mix_column [a, b, c, d]) = [a, b, c, d]"
  by (simp add: times_9_def times_11_def times_13_def times_14_def xtime_xor ac_simps)

lemma columns_append:
  assumes "length a = 4" and "length b = 4" and "length c = 4" and "length d = 4"
  shows "columns F (a @ b @ c @ d) = F a @ F b @ F c @ F d"
  using assms by (simp add: columns_def)

lemma inv_mix_columns_mix:
  assumes "length s = 16"
  shows "columns inv_mix_column (columns mix_column s) = s"
proof -
  have l: "length (mix_column [a, b, c, d]) = 4" for a b c d by simp
  show ?thesis
    by (rule block_cases [OF assms])
      (simp add: columns_block columns_append [OF l l l l] inv_mix_mix del: mix_column.simps inv_mix_column.simps)
qed

lemma inv_mix_column_xor:
  "inv_mix_column [a XOR a', b XOR b', c XOR c', d XOR d'] = add_key (inv_mix_column [a, b, c, d]) (inv_mix_column [a', b', c', d'])"
  by (simp add: add_key_def times_9_def times_11_def times_13_def times_14_def xtime_xor ac_simps)

lemma inv_mix_columns_xor:
  assumes "length s = 16" and "length k = 16"
  shows "columns inv_mix_column (add_key s k) = add_key (columns inv_mix_column s) (columns inv_mix_column k)"
proof -
  have l: "length (inv_mix_column [a, b, c, d]) = length (inv_mix_column [a', b', c', d'])" for a b c d a' b' c' d' by simp
  have add: "add_key (x # xs) (y # ys) = (x XOR y) # add_key xs ys" "add_key [] [] = []" for x y xs ys by (simp_all add: add_key_def)
  show ?thesis
    by (rule block_cases [OF assms(1)], rule block_cases [OF assms(2)])
      (simp only: columns_block add inv_mix_column_xor add_key_append l length_append)
qed

lemma decipher_cipher:
  assumes "\<And>r. length (K r) = 16" and "length p = 16" and "0 < n"
    and "D 0 = K n" and "D n = K 0" and "\<And>r. 0 < r \<Longrightarrow> r < n \<Longrightarrow> D r = columns inv_mix_column (K (n - r))"
  shows "decipher_with D n (cipher_with K n p) = p"
proof -
  define T where "T r = fold (\<lambda>r s. add_key (columns mix_column (sub_shift s)) (K r)) [1..<Suc r] (add_key p (K 0))" for r
  have T_Suc: "T (Suc r) = add_key (columns mix_column (sub_shift (T r))) (K (Suc r))" for r by (simp add: T_def)
  have lT: "length (T r) = 16" for r by (cases r) (simp_all add: T_Suc, simp_all add: T_def assms(1,2))
  let ?dec = "\<lambda>j. fold (\<lambda>r s. add_key (columns inv_mix_column (inv_sub_shift s)) (D r)) [1..<Suc j] (add_key (cipher_with K n p) (D 0))"
  have c: "cipher_with K n p = add_key (sub_shift (T (n - 1))) (K n)" using assms(3) by (simp add: cipher_with_def T_def)
  have dec: "j < n \<Longrightarrow> ?dec j = sub_shift (T (n - 1 - j))" for j
  proof (induction j)
    case 0
    then show ?case by (simp add: c assms(1,4) add_key_twice)
  next
    case (Suc j)
    obtain m where m: "n - 1 - j = Suc m" "n - Suc j = Suc m" "m = n - 1 - Suc j" using Suc.prems by (metis Suc_diff_Suc Suc_lessD diff_Suc_eq_diff_pred)
    have "?dec (Suc j) = add_key (columns inv_mix_column (inv_sub_shift (sub_shift (T (Suc m))))) (D (Suc j))"
      using Suc m(1) by simp
    also have "\<dots> = add_key (columns inv_mix_column (T (Suc m))) (columns inv_mix_column (K (Suc m)))"
      using Suc.prems m(2) by (simp add: inv_sub_shift_sub_shift lT assms(6))
    also have "\<dots> = sub_shift (T m)"
      by (simp add: T_Suc inv_mix_columns_xor assms(1) inv_mix_columns_mix add_key_twice)
    finally show ?case using m(3) by simp
  qed
  have "fold (\<lambda>r s. add_key (columns inv_mix_column (inv_sub_shift s)) (D r)) [1..<n] (add_key (cipher_with K n p) (D 0)) = sub_shift (T 0)"
    using dec [of "n - 1"] assms(3) by simp
  then have "decipher_with D n (cipher_with K n p) = add_key (T 0) (K 0)"
    by (simp add: decipher_with_def inv_sub_shift_sub_shift lT assms(5))
  then show ?thesis by (simp add: T_def add_key_twice assms(1,2))
qed

subsection \<open>Key expansion\<close>

text \<open>The words written so far are the first words of the expanded key.\<close>

definition expanded :: "nat \<Rightarrow> u8 list \<Rightarrow> u32 list \<Rightarrow> bool" where
  "expanded nk key rk \<longleftrightarrow> nk \<le> length rk \<and> (\<forall>i < length rk. PUTU32 (rk ! i) = aes_key_word nk key i)"

lemma key_rotated_bytes: "PUTU32 (key_rotated w) = map sbox (rotate1 (PUTU32 w))"
proof -
  obtain a b c d where w: "w = word4 [a, b, c, d]" by (rule word_cases)
  show ?thesis
    unfolding w key_rotated_def byte_lookups word4_bytes unfolding sbox_lookup byte_masks word4_xor PUTU32_word4 by simp
qed

lemma key_substituted_bytes: "PUTU32 (key_substituted w) = map sbox (PUTU32 w)"
proof -
  obtain a b c d where w: "w = word4 [a, b, c, d]" by (rule word_cases)
  show ?thesis
    unfolding w key_substituted_def byte_lookups word4_bytes unfolding sbox_lookup byte_masks word4_xor PUTU32_word4 by simp
qed

lemma rcon_bytes:
  assumes "i < 10"
  shows "PUTU32 (rcon ! i) = [(xtime ^^ i) 1, 0, 0, 0]"
proof -
  have "list_all (\<lambda>i. PUTU32 (rcon ! i) = [(xtime ^^ i) 1, 0, 0, 0]) [0..<10]" by code_simp
  then show ?thesis using assms by (simp add: list_all_iff)
qed

lemma expanded_append:
  assumes "expanded nk key rk" and "PUTU32 w = aes_key_word nk key (length rk)"
  shows "expanded nk key (rk @ [w])"
  using assms by (auto simp: expanded_def nth_append less_Suc_eq)

lemma expanded_word:
  assumes "expanded nk key rk" and "0 < nk"
  shows "aes_key_word nk key (length rk) =
    (let t = PUTU32 (last rk); i = length rk;
         t = (if i mod nk = 0 then add_key (map sbox (rotate1 t)) [(xtime ^^ (i div nk - 1)) 1, 0, 0, 0]
              else if nk > 6 \<and> i mod nk = 4 then map sbox t else t)
     in add_key (PUTU32 (rk ! (i - nk))) t)"
proof -
  have "rk \<noteq> []" using assms by (auto simp: expanded_def)
  then have "PUTU32 (last rk) = aes_key_word nk key (length rk - 1)" using assms(1) by (simp add: expanded_def last_conv_nth)
  moreover have "PUTU32 (rk ! (length rk - nk)) = aes_key_word nk key (length rk - nk)"
    using assms \<open>rk \<noteq> []\<close> by (simp add: expanded_def)
  ultimately show ?thesis
    using assms by (subst aes_key_word.simps) (auto simp: Let_def expanded_def)
qed

lemma expanded_next:
  assumes "expanded nk key rk" and "0 < nk" and "length rk mod nk \<noteq> 0" and "nk > 6 \<Longrightarrow> length rk mod nk \<noteq> 4"
  shows "expanded nk key (key_next nk rk)"
  unfolding key_next_def using assms
  by (intro expanded_append) (auto simp: expanded_word PUTU32_xor Let_def)

lemma length_key_next [simp]: "length (key_next n rk) = Suc (length rk)"
  by (simp add: key_next_def)

lemma expanded_nexts:
  assumes "expanded nk key rk" and "length rk = nk * q + m" and "0 < m" and "m + n \<le> nk" and "nk > 6 \<Longrightarrow> 4 < m \<or> m + n \<le> 4"
  shows "expanded nk key ((key_next nk ^^ n) rk) \<and> length ((key_next nk ^^ n) rk) = nk * q + (m + n)"
  using assms(4,5)
proof (induction n)
  case (Suc n)
  let ?rk = "(key_next nk ^^ n) rk"
  have "nk > 6 \<Longrightarrow> 4 < m \<or> m + n \<le> 4" using Suc.prems(2) by fastforce
  then have IH: "expanded nk key ?rk" "length ?rk = nk * q + (m + n)" using Suc.IH Suc.prems(1) by simp_all
  then have "length ?rk mod nk = m + n" using Suc.prems(1) by simp
  moreover have "nk > 6 \<Longrightarrow> m + n \<noteq> 4" using Suc.prems(2) by fastforce
  ultimately have "expanded nk key (key_next nk ?rk)"
    using expanded_next [OF IH(1)] Suc.prems(1) assms(3) by simp
  then show ?case using IH(2) by simp
qed (simp add: assms(1,2))

lemma expanded_rotated:
  assumes "expanded nk key rk" and "0 < nk" and "length rk = nk * (i + 1)" and "i < 10"
  shows "expanded nk key (rk @ [rk ! (length rk - nk) XOR key_rotated (last rk) XOR rcon ! i])"
  by (rule expanded_append [OF assms(1)])
    (use expanded_word [OF assms(1,2)] assms(2-4) in \<open>simp add: PUTU32_xor key_rotated_bytes rcon_bytes Let_def\<close>)

lemma key_group128_expanded:
  assumes "expanded 4 key rk" and "length rk = 4 * (i + 1)" and "i < 10"
  shows "expanded 4 key (key_group128 i rk) \<and> length (key_group128 i rk) = 4 * (i + 2)"
proof -
  define rk1 where "rk1 = rk @ [rk ! (length rk - 4) XOR key_rotated (last rk) XOR rcon ! i]"
  have 1: "expanded 4 key rk1" "length rk1 = 4 * (i + 1) + 1"
    using expanded_rotated [OF assms(1) _ assms(2,3)] assms(2) by (simp_all add: rk1_def)
  show ?thesis
    using expanded_nexts [OF 1, of 3] by (simp add: key_group128_def Let_def flip: rk1_def)
qed

lemma fold_expanded:
  assumes "\<And>i rk. i < n \<Longrightarrow> P i rk \<Longrightarrow> P (Suc i) (f i rk)" and "P 0 rk"
  shows "P n (fold f [0..<n] rk)"
  using assms by (induction n) auto

lemma first_words:
  assumes "length key = 4 * nk" and "length rk = nk" and "\<And>i. i < nk \<Longrightarrow> rk ! i = GETU32 key (4 * i)"
  shows "expanded nk key rk"
proof -
  have "PUTU32 (GETU32 key (4 * i)) = aes_key_word nk key i" if "i < nk" for i
  proof -
    have "GETU32 key (4 * i) = word4 [key ! (4 * i), key ! (4 * i + 1), key ! (4 * i + 2), key ! (4 * i + 3)]"
      by (simp add: GETU32_def word4.simps)
    moreover have "take 4 (drop (4 * i) key) = [key ! (4 * i), key ! (4 * i + 1), key ! (4 * i + 2), key ! (4 * i + 3)]"
      using that assms(1) by (intro nth_equalityI) (auto simp: nth_Cons numeral_eq_Suc less_Suc_eq)
    ultimately show ?thesis using that by (subst aes_key_word.simps) simp
  qed
  then show ?thesis by (simp add: expanded_def assms(2,3))
qed

lemma key_bytes_expanded:
  assumes "expanded nk key rk" and "4 * r + 4 \<le> length rk"
  shows "key_bytes rk r = aes_round_key nk key r"
proof -
  have "[4 * r..<4 * r + 4] = [4 * r, 4 * r + 1, 4 * r + 2, 4 * r + 3]" by (simp add: upt_rec)
  then show ?thesis using assms by (simp add: key_bytes_def aes_round_key_def expanded_def)
qed

lemma key_group192_expanded:
  assumes "expanded 6 key rk" and "length rk = 6 * (i + 1)" and "i < 8"
  shows "expanded 6 key (key_group192 i rk) \<and> length (key_group192 i rk) = (if i = 7 then 52 else 6 * (i + 2))"
proof -
  define rk1 where "rk1 = rk @ [rk ! (length rk - 6) XOR key_rotated (last rk) XOR rcon ! i]"
  define rk4 where "rk4 = (key_next 6 ^^ 3) rk1"
  have 1: "expanded 6 key rk1" "length rk1 = 6 * (i + 1) + 1"
    using expanded_rotated [OF assms(1) _ assms(2)] assms(2,3) by (simp_all add: rk1_def)
  have 4: "expanded 6 key rk4" "length rk4 = 6 * (i + 1) + 4" using expanded_nexts [OF 1, of 3] by (simp_all add: rk4_def)
  have "expanded 6 key ((key_next 6 ^^ 2) rk4) \<and> length ((key_next 6 ^^ 2) rk4) = 6 * (i + 1) + 6"
    using expanded_nexts [OF 4, of 2] by simp
  with 4 show ?thesis
    unfolding key_group192_def Let_def rk1_def [symmetric] rk4_def [symmetric] using assms(3) by auto
qed

lemma expanded_substituted:
  assumes "expanded 8 key rk" and "length rk mod 8 = 4"
  shows "expanded 8 key (rk @ [rk ! (length rk - 8) XOR key_substituted (last rk)])"
  using assms by (intro expanded_append) (simp_all add: expanded_word PUTU32_xor key_substituted_bytes Let_def)

lemma key_group256_expanded:
  assumes "expanded 8 key rk" and "length rk = 8 * (i + 1)" and "i < 7"
  shows "expanded 8 key (key_group256 i rk) \<and> length (key_group256 i rk) = (if i = 6 then 60 else 8 * (i + 2))"
proof -
  define rk1 where "rk1 = rk @ [rk ! (length rk - 8) XOR key_rotated (last rk) XOR rcon ! i]"
  define rk4 where "rk4 = (key_next 8 ^^ 3) rk1"
  define rk5 where "rk5 = rk4 @ [rk4 ! (length rk4 - 8) XOR key_substituted (last rk4)]"
  have 1: "expanded 8 key rk1" "length rk1 = 8 * (i + 1) + 1"
    using expanded_rotated [OF assms(1) _ assms(2)] assms(2,3) by (simp_all add: rk1_def)
  have 4: "expanded 8 key rk4" "length rk4 = 8 * (i + 1) + 4" using expanded_nexts [OF 1, of 3] by (simp_all add: rk4_def)
  have "length rk4 mod 8 = 4" unfolding 4(2) by simp
  then have 5: "expanded 8 key rk5" "length rk5 = 8 * (i + 1) + 5"
    using expanded_substituted [OF 4(1)] 4(2) by (simp_all add: rk5_def)
  have "expanded 8 key ((key_next 8 ^^ 3) rk5) \<and> length ((key_next 8 ^^ 3) rk5) = 8 * (i + 1) + 8"
    using expanded_nexts [OF 5, of 3] by simp
  with 4 show ?thesis
    unfolding key_group256_def Let_def rk1_def [symmetric] rk4_def [symmetric] rk5_def [symmetric] using assms(3) by auto
qed

lemma fold_groups:
  assumes "\<And>i rk. i < n \<Longrightarrow> expanded nk key rk \<Longrightarrow> length rk = nk * (i + 1) \<Longrightarrow>
      expanded nk key (f i rk) \<and> length (f i rk) = (if i = n - 1 then m else nk * (i + 2))"
    and "0 < n" and "expanded nk key rk" and "length rk = nk"
  shows "expanded nk key (fold f [0..<n] rk) \<and> length (fold f [0..<n] rk) = m"
proof -
  have "expanded nk key (fold f [0..<n - 1] rk) \<and> length (fold f [0..<n - 1] rk) = nk * (n - 1 + 1)"
    by (rule fold_expanded [where P = "\<lambda>i rk. expanded nk key rk \<and> length rk = nk * (i + 1)"]) (use assms in auto)
  moreover have "[0..<n] = [0..<n - 1] @ [n - 1]" using assms(2) by (metis Suc_pred' upt_Suc_append zero_le)
  ultimately show ?thesis using assms(1) [of "n - 1"] assms(2) by simp
qed

lemma SetupEncrypt_expanded:
  assumes "length key = 4 * nk" and "nk = 4 \<or> nk = 6 \<or> nk = 8"
  shows "\<exists>rk. Aes_SetupEncrypt key (int (32 * nk)) = (nk + 6, rk) \<and> expanded nk key rk \<and> length rk = 4 * (nk + 7)"
proof -
  let ?r4 = "[GETU32 key 0, GETU32 key 4, GETU32 key 8, GETU32 key 12]"
  let ?r6 = "?r4 @ [GETU32 key 16, GETU32 key 20]"
  let ?r8 = "?r6 @ [GETU32 key 24, GETU32 key 28]"
  consider "nk = 4" | "nk = 6" | "nk = 8" using assms(2) by blast
  then show ?thesis
  proof cases
    case 1
    then have "expanded 4 key ?r4" by (intro first_words) (auto simp: assms less_Suc_eq numeral_eq_Suc)
    then have "expanded 4 key (fold key_group128 [0..<10] ?r4) \<and> length (fold key_group128 [0..<10] ?r4) = 44"
      by (intro fold_groups) (auto simp: key_group128_expanded)
    then show ?thesis using 1 by (simp add: Aes_SetupEncrypt_def)
  next
    case 2
    then have "expanded 6 key ?r6" by (intro first_words) (auto simp: assms less_Suc_eq numeral_eq_Suc)
    then have "expanded 6 key (fold key_group192 [0..<8] ?r6) \<and> length (fold key_group192 [0..<8] ?r6) = 52"
      by (intro fold_groups) (auto simp: key_group192_expanded)
    then show ?thesis using 2 by (simp add: Aes_SetupEncrypt_def)
  next
    case 3
    then have "expanded 8 key ?r8" by (intro first_words) (auto simp: assms less_Suc_eq numeral_eq_Suc)
    then have "expanded 8 key (fold key_group256 [0..<7] ?r8) \<and> length (fold key_group256 [0..<7] ?r8) = 60"
      by (intro fold_groups) (auto simp: key_group256_expanded)
    then show ?thesis using 3 by (simp add: Aes_SetupEncrypt_def)
  qed
qed

subsection \<open>The key schedule for decryption\<close>

lemma word_index: "k < 4 \<Longrightarrow> l < 4 \<Longrightarrow> 4 * r + k = 4 * i + l \<longleftrightarrow> r = i \<and> k = (l :: nat)"
  by presburger

lemma swap_words:
  assumes "n \<le> 4" and "i < j" and "4 * j + 4 \<le> length rk" and "k < 4" and "4 * r + k < length rk"
  shows "fold (\<lambda>k rk. rk[4 * i + k := rk ! (4 * j + k), 4 * j + k := rk ! (4 * i + k)]) [0..<n] rk ! (4 * r + k) =
      (if k < n \<and> r = i then rk ! (4 * j + k) else if k < n \<and> r = j then rk ! (4 * i + k) else rk ! (4 * r + k)) \<and>
    length (fold (\<lambda>k rk. rk[4 * i + k := rk ! (4 * j + k), 4 * j + k := rk ! (4 * i + k)]) [0..<n] rk) = length rk"
  using assms(1,4,5)
proof (induction n arbitrary: k r)
  case (Suc n)
  let ?X = "fold (\<lambda>k rk. rk[4 * i + k := rk ! (4 * j + k), 4 * j + k := rk ! (4 * i + k)]) [0..<n] rk"
  have X: "length ?X = length rk" "?X ! (4 * i + n) = rk ! (4 * i + n)" "?X ! (4 * j + n) = rk ! (4 * j + n)"
    using Suc.IH [of n i] Suc.IH [of n j] Suc.prems(1) assms(2,3) by simp_all
  have "?X ! (4 * r + k) = (if k < n \<and> r = i then rk ! (4 * j + k) else if k < n \<and> r = j then rk ! (4 * i + k) else rk ! (4 * r + k))"
    using Suc.IH [of k r] Suc.prems by simp
  then show ?case
    using Suc.prems assms(2,3) X word_index [of n k i r] word_index [of n k j r]
    by (auto simp: nth_list_update less_Suc_eq)
qed simp

lemma key_bytes_swap:
  assumes "i < j" and "4 * j + 4 \<le> length rk"
  shows "4 * r + 4 \<le> length rk \<Longrightarrow> key_bytes (swap_round_keys (4 * i) (4 * j) rk) r = key_bytes rk (if r = i then j else if r = j then i else r)"
    and "length (swap_round_keys (4 * i) (4 * j) rk) = length rk"
proof -
  note w = swap_words [OF order_refl assms, folded swap_round_keys_def]
  show "length (swap_round_keys (4 * i) (4 * j) rk) = length rk" using w [of 0 i] assms by simp
  assume r: "4 * r + 4 \<le> length rk"
  show "key_bytes (swap_round_keys (4 * i) (4 * j) rk) r = key_bytes rk (if r = i then j else if r = j then i else r)"
    using w [of 0 r] w [of 1 r] w [of 2 r] w [of 3 r] r by (simp add: key_bytes_def)
qed

lemma invert_order_keys:
  assumes "4 * j + 4 \<le> length rk" and "4 * r + 4 \<le> length rk"
  shows "key_bytes (invert_order (4 * i) (4 * j) rk) r = key_bytes rk (if i \<le> r \<and> r \<le> j then i + j - r else r) \<and>
    length (invert_order (4 * i) (4 * j) rk) = length rk"
  using assms
proof (induction "j - i" arbitrary: i j rk rule: less_induct)
  case less
  show ?case
  proof (cases "i < j")
    case True
    let ?rk = "swap_round_keys (4 * i) (4 * j) rk"
    have l: "length ?rk = length rk" using key_bytes_swap(2) [OF True less.prems(1)] .
    have "key_bytes (invert_order (4 * (i + 1)) (4 * (j - 1)) ?rk) r = key_bytes ?rk (if i + 1 \<le> r \<and> r \<le> j - 1 then i + 1 + (j - 1) - r else r)"
      "length (invert_order (4 * (i + 1)) (4 * (j - 1)) ?rk) = length ?rk"
      using less.hyps [of "j - 1" "i + 1" ?rk] less.prems True l by auto
    moreover have "4 * (if i + 1 \<le> r \<and> r \<le> j - 1 then i + 1 + (j - 1) - r else r) + 4 \<le> length rk" using less.prems True by auto
    moreover have "invert_order (4 * i) (4 * j) rk = invert_order (4 * (i + 1)) (4 * (j - 1)) ?rk"
      using True by (subst invert_order.simps) (simp add: right_diff_distrib' add.commute)
    ultimately show ?thesis using key_bytes_swap(1) [OF True less.prems(1)] True l less.prems(2) by auto
  next
    case False
    then have "i \<le> r \<and> r \<le> j \<Longrightarrow> i + j - r = r" by auto
    with False show ?thesis by (subst (1 2) invert_order.simps) auto
  qed
qed

lemma inv_mix_words:
  assumes "n \<le> 4" and "4 * i + 4 \<le> length rk" and "k < 4" and "4 * r + k < length rk"
  shows "fold (\<lambda>k rk. rk[4 * i + k := inv_mix_word (rk ! (4 * i + k))]) [0..<n] rk ! (4 * r + k) =
      (if k < n \<and> r = i then inv_mix_word (rk ! (4 * r + k)) else rk ! (4 * r + k)) \<and>
    length (fold (\<lambda>k rk. rk[4 * i + k := inv_mix_word (rk ! (4 * i + k))]) [0..<n] rk) = length rk"
  using assms(1,3,4)
proof (induction n arbitrary: k r)
  case (Suc n)
  let ?X = "fold (\<lambda>k rk. rk[4 * i + k := inv_mix_word (rk ! (4 * i + k))]) [0..<n] rk"
  have X: "length ?X = length rk" "?X ! (4 * i + n) = rk ! (4 * i + n)"
    using Suc.IH [of n i] Suc.prems(1) assms(2) by simp_all
  have "?X ! (4 * r + k) = (if k < n \<and> r = i then inv_mix_word (rk ! (4 * r + k)) else rk ! (4 * r + k))"
    using Suc.IH [of k r] Suc.prems by simp
  then show ?case
    using Suc.prems assms(2) X word_index [of n k i r] by (auto simp: nth_list_update less_Suc_eq)
qed simp

lemma columns_key: "columns inv_mix_column (key_bytes rk r) =
    PUTU32 (inv_mix_word (rk ! (4 * r))) @ PUTU32 (inv_mix_word (rk ! (4 * r + 1))) @
    PUTU32 (inv_mix_word (rk ! (4 * r + 2))) @ PUTU32 (inv_mix_word (rk ! (4 * r + 3)))"
proof -
  have "inv_mix_column (PUTU32 w) = PUTU32 (inv_mix_word w)" for w
    by (cases w rule: word_cases) (simp only: inv_mix_word_bytes PUTU32_word4)
  then show ?thesis by (simp add: key_bytes_def columns_append)
qed

lemma key_bytes_inv_mix:
  assumes "4 * i + 4 \<le> length rk"
  shows "4 * r + 4 \<le> length rk \<Longrightarrow> key_bytes (inv_mix_key i rk) r = (if r = i then columns inv_mix_column (key_bytes rk r) else key_bytes rk r)"
    and "length (inv_mix_key i rk) = length rk"
proof -
  note w = inv_mix_words [OF order_refl assms, folded inv_mix_key_def]
  show "length (inv_mix_key i rk) = length rk" using w [of 0 i] assms by simp
  assume r: "4 * r + 4 \<le> length rk"
  show "key_bytes (inv_mix_key i rk) r = (if r = i then columns inv_mix_column (key_bytes rk r) else key_bytes rk r)"
    using w [of 0 r] w [of 1 r] w [of 2 r] w [of 3 r] r unfolding columns_key by (simp add: key_bytes_def)
qed

lemma inv_mix_keys:
  assumes "4 * n \<le> length rk" and "4 * r + 4 \<le> length rk"
  shows "key_bytes (fold inv_mix_key [1..<n] rk) r = (if 0 < r \<and> r < n then columns inv_mix_column (key_bytes rk r) else key_bytes rk r) \<and>
    length (fold inv_mix_key [1..<n] rk) = length rk"
  using assms
proof (induction n)
  case (Suc n)
  then show ?case using key_bytes_inv_mix [of n "fold inv_mix_key [1..<n] rk"] by (cases n) (auto simp: less_Suc_eq)
qed simp

lemma SetupDecrypt_keys:
  assumes "Aes_SetupEncrypt key bits = (n, rk)" and "length rk = 4 * (n + 1)" and "r \<le> n"
  shows "\<exists>dk. Aes_SetupDecrypt key bits = (n, dk) \<and> length dk = length rk \<and>
    key_bytes dk r = (if 0 < r \<and> r < n then columns inv_mix_column (key_bytes rk (n - r)) else key_bytes rk (n - r))"
proof -
  let ?rk = "invert_order 0 (4 * n) rk"
  have i: "key_bytes ?rk q = key_bytes rk (n - q)" if "q \<le> n" for q
    using invert_order_keys [of n rk q 0] assms(2) that by simp
  have l: "length ?rk = length rk" using invert_order_keys [of n rk 0 0] assms(2) by simp
  show ?thesis
    using inv_mix_keys [of n ?rk r] assms by (simp add: Aes_SetupDecrypt_def i l)
qed

subsection \<open>Buffers\<close>

text \<open>What the buffer functions need of a cipher, and what they make of it.\<close>

locale block_cipher =
  fixes enc dec :: "u8 list \<Rightarrow> u8 list"
  assumes length_enc: "length p = 16 \<Longrightarrow> length (enc p) = 16"
    and dec_enc: "length p = 16 \<Longrightarrow> dec (enc p) = p"
begin

lemma encrypt_first:
  assumes "m \<noteq> []" and "16 \<le> out" and "j = min 16 (length m)" and "c = enc (take j m @ replicate (16 - j) (of_nat (16 - j)))"
  shows "encrypt_loop enc out m =
    (if length m = 16 then
       (if out < 32 then (None, c) else (Some (out - 32), c @ enc (replicate 16 16)))
     else let (r, written) = encrypt_loop enc (out - 16) (drop j m) in (r, c @ written))"
  using assms by (subst encrypt_loop.simps) (auto simp: Let_def)

lemma decrypt_last:
  assumes "length c = 16" and "dec c = p" and "uint (p ! 15) = 16 - int k" and "k < 16" and "int k \<le> out"
  shows "decrypt_loop dec out c = (Some (out - int k), take k p)"
  using assms by (subst decrypt_loop.simps) (auto simp: Let_def)

lemma decrypt_first:
  assumes "length c = 16" and "16 \<le> length d" and "16 \<le> out"
  shows "decrypt_loop dec out (c @ d) = (let (r, written) = decrypt_loop dec (out - 16) d in (r, dec c @ written))"
  using assms by (subst decrypt_loop.simps) (auto simp: Let_def)

lemma padding:
  fixes m p :: "u8 list"
  assumes "length m < 16" and "p = m @ replicate (16 - length m) (of_nat (16 - length m))"
  shows "length p = 16" "uint (p ! 15) = 16 - int (length m)" "take (length m) p = m"
proof -
  have u: "uint (of_nat k :: u8) = int k" if "k \<le> 16" for k
    using that by (simp add: unsigned_of_nat take_bit_nat_eq_self)
  have last: "p ! 15 = of_nat (16 - length m)" unfolding assms(2) using assms(1) by (simp only: nth_append) simp
  show "uint (p ! 15) = 16 - int (length m)" unfolding last u [OF diff_le_self] using assms(1) by (simp add: of_nat_diff)
qed (use assms in simp_all)

lemma encrypt_decrypt:
  assumes "m \<noteq> []" and "16 * (int (length m) div 16 + 1) \<le> out" and "int (length m) \<le> out'"
  shows "\<exists>c. encrypt_loop enc out m = (Some (out - 16 * (int (length m) div 16 + 1)), c) \<and>
    int (length c) = 16 * (int (length m) div 16 + 1) \<and> decrypt_loop dec out' c = (Some (out' - int (length m)), m)"
  using assms
proof (induction "length m" arbitrary: m out out' rule: less_induct)
  case less
  have nil: "encrypt_loop enc x [] = (Some x, [])" for x by (subst encrypt_loop.simps) simp
  consider (short) "length m < 16" | (one) "length m = 16" | (more) "length m > 16" by linarith
  then show ?case
  proof cases
    case short
    let ?p = "m @ replicate (16 - length m) (of_nat (16 - length m))"
    note p = padding [OF short refl]
    have "encrypt_loop enc out m = (Some (out - 16), enc ?p)"
      using encrypt_first [OF less.prems(1) _ refl refl, of out] short less.prems(2) by (simp add: nil)
    moreover have "decrypt_loop dec out' (enc ?p) = (Some (out' - int (length m)), m)"
      using decrypt_last [OF length_enc [OF p(1)] dec_enc [OF p(1)] p(2) short less.prems(3)] p(3) by simp
    ultimately show ?thesis using short length_enc [OF p(1)] by simp
  next
    case one
    let ?q = "[] @ replicate (16 - length ([] :: u8 list)) (of_nat (16 - length ([] :: u8 list)))"
    note q = padding [of "[]" ?q, simplified]
    have "encrypt_loop enc out m = (Some (out - 32), enc m @ enc (replicate 16 16))"
      using encrypt_first [OF less.prems(1) _ refl refl, of out] one less.prems(2) by simp
    moreover have "decrypt_loop dec out' (enc m @ enc (replicate 16 16)) = (Some (out' - 16), m)"
      using decrypt_first [OF length_enc [OF one], of "enc (replicate 16 16)" out']
        decrypt_last [of "enc (replicate 16 16)" "replicate 16 16" 0 "out' - 16"] one less.prems(3)
      by (simp add: length_enc dec_enc)
    ultimately show ?thesis using one by (simp add: length_enc)
  next
    case more
    define m' k where "m' = drop 16 m" and "k = int (length m') div 16"
    have l: "length (take 16 m) = 16" "length m' < length m" "m' \<noteq> []" "int (length m) = int (length m') + 16"
      using more by (auto simp: m'_def)
    have m: "take 16 m @ m' = m" by (simp add: m'_def)
    have d: "int (length m) div 16 = k + 1" unfolding l(4) by (simp add: k_def)
    have o: "16 \<le> out" "16 * (k + 1) \<le> out - 16" "int (length m') \<le> out' - 16" "16 \<le> out'"
      using less.prems(2,3) l(4) d by (simp_all add: k_def)
    obtain c where c: "encrypt_loop enc (out - 16) m' = (Some (out - 16 - 16 * (k + 1)), c)" "int (length c) = 16 * (k + 1)"
      "decrypt_loop dec (out' - 16) c = (Some (out' - 16 - int (length m')), m')"
      using less.hyps [OF l(2,3), of "out - 16" "out' - 16"] o(2,3) by (auto simp: k_def)
    have "encrypt_loop enc out m = (Some (out - 16 * (k + 2)), enc (take 16 m) @ c)"
      using encrypt_first [OF less.prems(1) o(1) refl refl] more c(1) by (simp add: min_absorb1 flip: m'_def)
    moreover have "0 \<le> k" by (simp add: k_def)
    then have "int 16 \<le> int (length c)" using c(2) by simp
    then have "16 \<le> length c" by (simp only: of_nat_le_iff)
    then have "decrypt_loop dec out' (enc (take 16 m) @ c) = (Some (out' - int (length m)), m)"
      using decrypt_first [OF length_enc [OF l(1)] _ o(4), of c] c(3) by (simp add: dec_enc [OF l(1)] m l(4))
    ultimately show ?thesis unfolding d using c(2) length_enc [OF l(1)] by (intro exI [of _ "enc (take 16 m) @ c"]) simp
  qed
qed

end

text \<open>The key the library uses: the first sixteen bytes of the password.\<close>

definition aes_key :: "u8 list \<Rightarrow> u8 list" where
  "aes_key password = take 16 (password @ replicate 16 0)"

definition aes_enc :: "u8 list \<Rightarrow> u8 list \<Rightarrow> u8 list" where
  "aes_enc password = (let (n, rk) = Aes_SetupEncrypt (aes_key password) 128 in Aes_DoEncrypt rk n)"

definition aes_dec :: "u8 list \<Rightarrow> u8 list \<Rightarrow> u8 list" where
  "aes_dec password = (let (n, dk) = Aes_SetupDecrypt (aes_key password) 128 in Aes_DoDecrypt dk n)"

lemma block_roundtrip:
  assumes "length key = 4 * nk" and "nk = 4 \<or> nk = 6 \<or> nk = 8" and "length p = 16"
  shows "\<exists>n rk dk. Aes_SetupEncrypt key (int (32 * nk)) = (n, rk) \<and> Aes_SetupDecrypt key (int (32 * nk)) = (n, dk) \<and>
    length (Aes_DoEncrypt rk n p) = 16 \<and> Aes_DoEncrypt rk n p = aes_cipher key p \<and> Aes_DoDecrypt dk n (Aes_DoEncrypt rk n p) = p"
proof -
  obtain rk where rk: "Aes_SetupEncrypt key (int (32 * nk)) = (nk + 6, rk)" "expanded nk key rk" "length rk = 4 * (nk + 7)"
    using SetupEncrypt_expanded [OF assms(1,2)] by blast
  have n: "nk + 6 = 10 \<or> nk + 6 = 12 \<or> nk + 6 = 14" using assms(2) by auto
  obtain dk where dk: "Aes_SetupDecrypt key (int (32 * nk)) = (nk + 6, dk)" "length dk = length rk"
    using SetupDecrypt_keys [OF rk(1), of 0] rk(3) by auto
  have keys: "key_bytes dk r = (if 0 < r \<and> r < nk + 6 then columns inv_mix_column (key_bytes rk (nk + 6 - r)) else key_bytes rk (nk + 6 - r))"
    if "r \<le> nk + 6" for r using SetupDecrypt_keys [OF rk(1), of r] rk(3) dk that by auto
  have enc: "Aes_DoEncrypt rk (nk + 6) p = cipher_with (key_bytes rk) (nk + 6) p"
    using DoEncrypt_cipher [OF n assms(3)] rk(3) by simp
  have len: "length (cipher_with K m p) = 16" if "\<And>r. length (K r) = 16" for K m by (simp add: cipher_with_def that)
  have same: "fold (\<lambda>r s. add_key (columns mix_column (sub_shift s)) (key_bytes rk r)) xs s =
      fold (\<lambda>r s. add_key (columns mix_column (sub_shift s)) (aes_round_key nk key r)) xs s" if "\<forall>r \<in> set xs. r < nk + 6" for xs s
    using that by (induction xs arbitrary: s) (simp_all add: key_bytes_expanded [OF rk(2)] rk(3))
  have "cipher_with (key_bytes rk) (nk + 6) p = aes_cipher key p"
    using same [of "[1..<nk + 6]"] assms(1) by (simp add: aes_cipher_def cipher_with_def key_bytes_expanded [OF rk(2)] rk(3))
  moreover have "Aes_DoDecrypt dk (nk + 6) (cipher_with (key_bytes rk) (nk + 6) p) = p"
    using DoDecrypt_decipher [OF n, of "cipher_with (key_bytes rk) (nk + 6) p" dk] len [of "key_bytes rk" "nk + 6"] decipher_cipher [of "key_bytes rk" p "nk + 6" "key_bytes dk"]
      rk(3) dk(2) keys assms(3) by simp
  moreover have "length (cipher_with (key_bytes rk) (nk + 6) p) = 16" by (rule len) simp
  ultimately show ?thesis using rk(1) dk(1) enc by simp
qed

lemma aes_block:
  assumes "length p = 16"
  shows "length (aes_enc password p) = 16" "aes_dec password (aes_enc password p) = p"
proof -
  have "length (aes_key password) = 4 * 4" by (simp add: aes_key_def)
  then obtain n rk dk where "Aes_SetupEncrypt (aes_key password) 128 = (n, rk)" "Aes_SetupDecrypt (aes_key password) 128 = (n, dk)"
    "length (Aes_DoEncrypt rk n p) = 16" "Aes_DoDecrypt dk n (Aes_DoEncrypt rk n p) = p"
    using block_roundtrip [of "aes_key password" 4 p] assms by auto
  then show "length (aes_enc password p) = 16" "aes_dec password (aes_enc password p) = p"
    by (simp_all add: aes_enc_def aes_dec_def)
qed

interpretation aes: block_cipher "aes_enc password" "aes_dec password" for password
  by unfold_locales (simp_all add: aes_block)

lemma Aes_Encrypt_loop:
  assumes "16 \<le> length password"
  shows "Aes_Encrypt out m password = (case encrypt_loop (aes_enc password) out m of (r, c) \<Rightarrow> (case r of None \<Rightarrow> - 1 | Some left \<Rightarrow> out - left, c))"
    and "Aes_Decrypt out m password = (case decrypt_loop (aes_dec password) out m of (r, c) \<Rightarrow> (case r of None \<Rightarrow> - 1 | Some left \<Rightarrow> out - left, c))"
  using assms by (simp_all add: Aes_Encrypt_def Aes_Decrypt_def aes_enc_def aes_dec_def aes_key_def split: prod.splits)

subsection \<open>Properties\<close>

text \<open>
  C18: The table-driven cipher is the standard one. For a key of 128, 192 or 256 bits the key expansion and the
  unrolled rounds over the look-up tables give the block that the cipher of the standard gives: byte substitution, row
  shifts, column mixing and the round keys of the standard key expansion. The substitution of the standard is computed
  from the field of 256 elements (the multiplicative inverse, then the affine transformation), and the library's tables
  are compared with it entry by entry.
\<close>

theorem aes_tables_equivalence:
  assumes "length key = 4 * nk" and "nk = 4 \<or> nk = 6 \<or> nk = 8" and "length p = 16"
  shows "(case Aes_SetupEncrypt key (int (32 * nk)) of (nrounds, rk) \<Rightarrow> Aes_DoEncrypt rk nrounds p) = aes_cipher key p"
  using block_roundtrip [OF assms] by auto

text \<open>The bytes written for a message: none for the empty one, else the next larger multiple of sixteen.\<close>

definition aes_written :: "u8 list \<Rightarrow> int" where
  "aes_written m = (if m = [] then 0 else 16 * (int (length m) div 16 + 1))"

text \<open>
  C17: What is encrypted is decrypted. For every password of at least sixteen bytes and every message, with room for the
  bytes written in the cipher buffer and for the message in the other, \<^verbatim>\<open>Aes_Encrypt\<close> returns the length of the message
  rounded up to the next larger multiple of sixteen (but nothing is written, and zero returned, for the empty message),
  and \<^verbatim>\<open>Aes_Decrypt\<close> of the bytes written returns the length of the message and writes the message.
\<close>

theorem aes_buffer_roundtrip:
  assumes "16 \<le> length password" and "aes_written m \<le> out" and "int (length m) \<le> out'"
  shows "\<exists>c. Aes_Encrypt out m password = (aes_written m, c) \<and> int (length c) = aes_written m \<and>
    Aes_Decrypt out' c password = (int (length m), m)"
proof (cases "m = []")
  case True
  then show ?thesis
    by (simp add: Aes_Encrypt_loop [OF assms(1)] aes_written_def encrypt_loop.simps [of _ _ "[]"] decrypt_loop.simps [of _ _ "[]"])
next
  case False
  then have room: "16 * (int (length m) div 16 + 1) \<le> out" using assms(2) by (simp add: aes_written_def)
  show ?thesis
    using aes.encrypt_decrypt [OF False room assms(3), of password] False
    by (auto simp: Aes_Encrypt_loop [OF assms(1)] aes_written_def)
qed

definition aes_password :: "u8 list" where
  "aes_password = map of_nat [0..<16]"

theorem aes_tables_equivalence_witness:
  "(case Aes_SetupEncrypt aes_password 128 of (nrounds, rk) \<Rightarrow> Aes_DoEncrypt rk nrounds (replicate 16 7)) =
     aes_cipher aes_password (replicate 16 7)"
  using aes_tables_equivalence [of aes_password 4 "replicate 16 7"] by (simp add: aes_password_def)

theorem aes_buffer_roundtrip_witness:
  "\<exists>c. Aes_Encrypt 100 [1, 2, 3] aes_password = (16, c) \<and> length c = 16 \<and> Aes_Decrypt 3 c aes_password = (3, [1, 2, 3])"
  using aes_buffer_roundtrip [of aes_password "[1, 2, 3]" 100 3] by (simp add: aes_password_def aes_written_def)

end
