(* ===== verification/OscPattern.thy ===== *)
theory OscPattern
  imports Decimal "HOL-Library.Sublist"
begin

text \<open>
  Address patterns of the OSC system (\<^verbatim>\<open>src/firmware/core/makingthings/osc_patternmatch.c\<close>) and the two functions of
  \<^verbatim>\<open>osc.c\<close> that look up what an address names: the matching of an index and of a property. A string is
  the list of its characters without the terminating null.
\<close>

subsection \<open>The matcher\<close>

text \<open>The scan of a bracket expression for a character: the verdict and where the scan stopped.\<close>

fun bracket_scan :: "bool \<Rightarrow> char \<Rightarrow> string \<Rightarrow> (bool \<times> string) option" where
  "bracket_scan negated c [] = None"
| "bracket_scan negated c (x # xs) =
     (if x = CHR '']'' then Some (negated, x # xs)
      else if xs \<noteq> [] \<and> hd xs = CHR ''-'' \<and> tl xs \<noteq> [] \<and> of_char x \<le> (of_char c :: nat) \<and> of_char c \<le> (of_char (hd (tl xs)) :: nat)
      then Some (\<not> negated, x # xs)
      else if x = c then Some (\<not> negated, x # xs)
      else bracket_scan negated c xs)"

fun after_char :: "char \<Rightarrow> string \<Rightarrow> string option" where
  "after_char e [] = None"
| "after_char e (x # xs) = (if x = e then Some xs else after_char e xs)"

text \<open>What follows a bracket expression that accepts the character, if it does.\<close>

definition bracket_rest :: "string \<Rightarrow> char \<Rightarrow> string option" where
  "bracket_rest pattern c =
     (if tl pattern = [] then None
      else
        let negated = (hd (tl pattern) = CHR ''!'');
            p = (if negated then tl pattern else pattern)
        in case bracket_scan negated c p of
             None \<Rightarrow> None
           | Some (result, q) \<Rightarrow> if \<not> result then None else after_char (CHR '']'') q)"

text \<open>
  The loop of a list of alternatives visits the positions of the test at which the rest of the pattern is tried: behind
  each alternative that was found, and where the loop stands when it reaches the closing brace.
\<close>

function list_tries :: "string \<Rightarrow> string \<Rightarrow> string \<Rightarrow> string list" where
  "list_tries test pattern tp =
     (case pattern of
        [] \<Rightarrow> []
      | x # xs \<Rightarrow>
          if x = CHR '','' then tp # list_tries test xs test
          else if x = CHR ''}'' then [tp]
          else if tp \<noteq> [] \<and> hd tp = x then list_tries test xs (tl tp)
          else
            let p = dropWhile (\<lambda>y. y \<noteq> CHR '','' \<and> y \<noteq> CHR ''}'') pattern
            in list_tries test (if p \<noteq> [] \<and> hd p = CHR '','' then tl p else p) test)"
  by pat_completeness auto
termination
proof (relation "measure (\<lambda>(test, pattern, tp). length pattern)", goal_cases)
  case (4 test pattern tp x xs p)
  then show ?case
    using length_dropWhile_le [of "\<lambda>y. y \<noteq> CHR '','' \<and> y \<noteq> CHR ''}''" xs]
    by (cases p) (auto split: if_splits simp: le_imp_less_Suc)
qed auto

declare list_tries.simps [simp del]

text \<open>A rest of the pattern is shorter than the pattern.\<close>

lemma after_char_shorter: "after_char e xs = Some ys \<Longrightarrow> length ys < length xs"
  by (induction xs) (auto split: if_splits)

lemma bracket_scan_shorter: "bracket_scan n c xs = Some (r, ys) \<Longrightarrow> length ys \<le> length xs"
  by (induction xs) (auto split: if_splits)

lemma bracket_rest_shorter: "bracket_rest p c = Some q \<Longrightarrow> length q < length p"
  using after_char_shorter bracket_scan_shorter
  by (fastforce simp: bracket_rest_def Let_def split: if_splits option.splits)

function Osc_PatternMatch :: "string \<Rightarrow> string \<Rightarrow> bool" where
  "Osc_PatternMatch pattern test =
     (case pattern of
        [] \<Rightarrow> test = []
      | x # xs \<Rightarrow>
          if test = [] then x = CHR ''*'' \<and> Osc_PatternMatch xs test
          else if x = CHR ''?'' then Osc_PatternMatch xs (tl test)
          else if x = CHR ''*'' then Osc_PatternMatch xs test \<or> Osc_PatternMatch pattern (tl test)
          else if x = CHR '']'' \<or> x = CHR ''}'' then False
          else if x = CHR ''['' then
            (case bracket_rest pattern (hd test) of None \<Rightarrow> False | Some rest \<Rightarrow> Osc_PatternMatch rest (tl test))
          else if x = CHR ''{'' then
            (case after_char (CHR ''}'') pattern of
               None \<Rightarrow> False
             | Some rest \<Rightarrow> list_ex (Osc_PatternMatch rest) (list_tries test xs test))
          else if x = CHR 0x5C then
            (if xs = [] then False else hd xs = hd test \<and> Osc_PatternMatch (tl xs) (tl test))
          else x = hd test \<and> Osc_PatternMatch xs (tl test))"
  by pat_completeness auto
termination
  by (relation "measures [\<lambda>(pattern, test). length pattern, \<lambda>(pattern, test). length test]")
    (auto dest: bracket_rest_shorter after_char_shorter)

declare Osc_PatternMatch.simps [simp del]

subsection \<open>Indices and properties\<close>

text \<open>
  The number of a single index with the bits \<open>- 1\<close>, or the number \<open>- 1\<close> with the bits of all indices that match a pattern;
  both are \<open>- 1\<close> when there is no index.
\<close>

definition match_bits :: "nat \<Rightarrow> string \<Rightarrow> int" where
  "match_bits count message =
     fold (\<lambda>i b. c_int (push_bit 1 b) OR of_bool (Osc_PatternMatch message (print_nat i))) (rev [0..<count]) 0"

definition Osc_NumberMatch :: "nat \<Rightarrow> string \<Rightarrow> int \<times> int" where
  "Osc_NumberMatch count message =
     (let digits = takeWhile c_isdigit message;
          n = fold (\<lambda>c n. c_int (n * 10 + int (digit_value c))) digits 0;
          message = drop (length digits) message
      in if n \<ge> int count then (- 1, - 1)
         else if message \<noteq> [] \<and> hd message \<in> {CHR ''*'', CHR ''?'', CHR ''['', CHR ''{''} then (- 1, match_bits count message)
         else if digits = [] then (- 1, - 1)
         else (n, - 1))"

fun Osc_PropertyLookup :: "string list \<Rightarrow> string \<Rightarrow> int" where
  "Osc_PropertyLookup [] property = - 1"
| "Osc_PropertyLookup (p # ps) property =
     (if property = p then 0 else let i = Osc_PropertyLookup ps property in if i = - 1 then - 1 else i + 1)"

subsection \<open>What a pattern means\<close>

text \<open>
  A pattern is a sequence of items. The code accepts more than the characters listed in a class: the bracket or
  exclamation mark that opens it, and the hyphen of each range. A list whose last alternative does not fit
  matches as if it were not there.
\<close>

datatype osc_item = Literal char | Any_char | Any_string | Class bool "(char \<times> char) list" | Choice "string list"

definition range_accepts :: "char \<Rightarrow> char \<times> char \<Rightarrow> bool" where
  "range_accepts c = (\<lambda>(a, b). ((of_char a :: nat) \<le> of_char c \<and> (of_char c :: nat) \<le> of_char b) \<or> c = a \<or> c = b \<or> (a \<noteq> b \<and> c = CHR ''-''))"

definition class_accepts :: "bool \<Rightarrow> (char \<times> char) list \<Rightarrow> char \<Rightarrow> bool" where
  "class_accepts neg rs c \<longleftrightarrow> (c = (if neg then CHR ''!'' else CHR ''['') \<or> (\<exists>r \<in> set rs. range_accepts c r)) \<noteq> neg"

fun item_matches :: "osc_item list \<Rightarrow> string \<Rightarrow> bool" where
  "item_matches [] t \<longleftrightarrow> t = []"
| "item_matches (Literal c # ps) t \<longleftrightarrow> t \<noteq> [] \<and> hd t = c \<and> item_matches ps (tl t)"
| "item_matches (Any_char # ps) t \<longleftrightarrow> t \<noteq> [] \<and> item_matches ps (tl t)"
| "item_matches (Any_string # ps) t \<longleftrightarrow> (\<exists>n \<le> length t. item_matches ps (drop n t))"
| "item_matches (Class neg rs # ps) t \<longleftrightarrow> t \<noteq> [] \<and> class_accepts neg rs (hd t) \<and> item_matches ps (tl t)"
| "item_matches (Choice as # ps) t \<longleftrightarrow> t \<noteq> [] \<and>
     ((\<exists>a \<in> set as. prefix a t \<and> item_matches ps (drop (length a) t)) \<or> (\<not> prefix (last as) t \<and> item_matches ps t))"

text \<open>How an item is written: a special character is escaped, a range of one character is the character.\<close>

definition special :: "char \<Rightarrow> bool" where
  "special c \<longleftrightarrow> c \<in> {CHR ''?'', CHR ''*'', CHR ''['', CHR '']'', CHR ''{'', CHR ''}'', CHR 0x5C}"

definition range_text :: "char \<times> char \<Rightarrow> string" where
  "range_text = (\<lambda>(a, b). if a = b then [a] else [a, CHR ''-'', b])"

fun choice_text :: "string list \<Rightarrow> string" where
  "choice_text [] = []"
| "choice_text [a] = a"
| "choice_text (a # as) = a @ CHR '','' # choice_text as"

fun item_text :: "osc_item \<Rightarrow> string" where
  "item_text (Literal c) = (if special c then [CHR 0x5C, c] else [c])"
| "item_text Any_char = ''?''"
| "item_text Any_string = ''*''"
| "item_text (Class neg rs) = ''['' @ (if neg then ''!'' else []) @ concat (map range_text rs) @ '']''"
| "item_text (Choice as) = ''{'' @ choice_text as @ ''}''"

definition pattern_text :: "osc_item list \<Rightarrow> string" where
  "pattern_text ps = concat (map item_text ps)"

definition class_char :: "char \<Rightarrow> bool" where
  "class_char c \<longleftrightarrow> c \<notin> {CHR '']'', CHR ''!'', CHR ''-''}"

fun item_ok :: "osc_item \<Rightarrow> bool" where
  "item_ok (Class neg rs) \<longleftrightarrow> (\<forall>r \<in> set rs. class_char (fst r) \<and> class_char (snd r))"
| "item_ok (Choice as) \<longleftrightarrow> as \<noteq> [] \<and> (\<forall>a \<in> set as. CHR '','' \<notin> set a \<and> CHR ''}'' \<notin> set a)"
| "item_ok _ \<longleftrightarrow> True"

subsection \<open>Classes\<close>

lemma after_char_skip: "e \<notin> set xs \<Longrightarrow> after_char e (xs @ e # rest) = Some rest"
  by (induction xs) auto

lemma ranges_head:
  assumes "\<forall>r \<in> set rs. class_char (fst r) \<and> class_char (snd r)"
  shows "\<exists>x xs. concat (map range_text rs) @ CHR '']'' # rest = x # xs \<and> x \<noteq> CHR ''-'' \<and> x \<noteq> CHR ''!''"
  using assms by (cases rs) (auto simp: range_text_def class_char_def split: prod.splits)

lemma bracket_scan_plain:
  assumes "x \<noteq> CHR '']''" and "y \<noteq> CHR ''-''"
  shows "bracket_scan n c (x # y # ys) = (if x = c then Some (\<not> n, x # y # ys) else bracket_scan n c (y # ys))"
  using assms by simp

lemma bracket_scan_range:
  assumes "class_char a" and "class_char b" and "a \<noteq> b" and "y \<noteq> CHR ''-''"
  shows "bracket_scan n c (a # CHR ''-'' # b # y # ys) =
    (if (of_char a \<le> (of_char c :: nat) \<and> of_char c \<le> (of_char b :: nat)) \<or> a = c then Some (\<not> n, a # CHR ''-'' # b # y # ys)
     else if c = CHR ''-'' then Some (\<not> n, CHR ''-'' # b # y # ys)
     else if b = c then Some (\<not> n, b # y # ys)
     else bracket_scan n c (y # ys))"
  using assms by (auto simp: class_char_def)

lemma bracket_scan_ranges:
  assumes "\<forall>r \<in> set rs. class_char (fst r) \<and> class_char (snd r)"
  shows "\<exists>q. bracket_scan n c (concat (map range_text rs) @ CHR '']'' # rest) =
      Some ((\<exists>r \<in> set rs. range_accepts c r) \<noteq> n, q) \<and> after_char (CHR '']'') q = Some rest"
  using assms
proof (induction rs)
  case Nil
  then show ?case by simp
next
  case (Cons r rs)
  obtain a b where r: "r = (a, b)" by (cases r)
  define tail where "tail = concat (map range_text rs) @ CHR '']'' # rest"
  have ab: "class_char a" "class_char b" and ok: "\<forall>r \<in> set rs. class_char (fst r) \<and> class_char (snd r)"
    using Cons.prems r by auto
  obtain y ys where y: "tail = y # ys" "y \<noteq> CHR ''-''" using ranges_head [OF ok, of rest] tail_def by auto
  obtain q where q: "bracket_scan n c tail = Some ((\<exists>r \<in> set rs. range_accepts c r) \<noteq> n, q)" "after_char (CHR '']'') q = Some rest"
    using Cons.IH [OF ok] tail_def by auto
  have nb: "CHR '']'' \<notin> set (concat (map range_text rs))"
    using ok by (auto simp: range_text_def class_char_def split: prod.splits if_splits)
  have skip: "after_char (CHR '']'') (zs @ tail) = Some rest" if "CHR '']'' \<notin> set zs" for zs
    using after_char_skip [of "CHR '']''" "zs @ concat (map range_text rs)" rest] that nb by (simp add: tail_def)
  have a: "a \<noteq> CHR '']''" "b \<noteq> CHR '']''" using ab by (auto simp: class_char_def)
  let ?in = "\<exists>r \<in> set rs. range_accepts c r"
  have split_in: "(\<exists>r' \<in> set (r # rs). range_accepts c r') \<longleftrightarrow> range_accepts c (a, b) \<or> ?in" by (simp add: r)
  have found: "\<exists>q. bracket_scan n c xs = Some (True \<noteq> n, q) \<and> after_char (CHR '']'') q = Some rest"
    if "bracket_scan n c xs = Some (\<not> n, zs @ tail)" "CHR '']'' \<notin> set zs" for xs zs using that skip by auto
  show ?case
  proof (cases "a = b")
    case True
    have t: "concat (map range_text (r # rs)) @ CHR '']'' # rest = a # tail" using True by (simp add: r range_text_def tail_def)
    have acc: "range_accepts c (a, b) \<longleftrightarrow> a = c" using True by (auto simp: range_accepts_def)
    show ?thesis unfolding t split_in acc
      using q found [of "a # tail" "[a]"] bracket_scan_plain [OF a(1) y(2), of n c ys, folded y(1)] a by (cases "a = c") simp_all
  next
    case False
    have t: "concat (map range_text (r # rs)) @ CHR '']'' # rest = a # CHR ''-'' # b # tail"
      using False by (simp add: r range_text_def tail_def)
    have acc: "range_accepts c (a, b) \<longleftrightarrow> ((of_char a \<le> (of_char c :: nat) \<and> of_char c \<le> (of_char b :: nat)) \<or> a = c) \<or> c = CHR ''-'' \<or> b = c"
      using False by (auto simp: range_accepts_def)
    note scan = bracket_scan_range [OF ab False y(2), of n c ys, folded y(1)]
    consider "(of_char a \<le> (of_char c :: nat) \<and> of_char c \<le> (of_char b :: nat)) \<or> a = c"
      | "\<not> ((of_char a \<le> (of_char c :: nat) \<and> of_char c \<le> (of_char b :: nat)) \<or> a = c)" "c = CHR ''-''"
      | "\<not> ((of_char a \<le> (of_char c :: nat) \<and> of_char c \<le> (of_char b :: nat)) \<or> a = c)" "c \<noteq> CHR ''-''" "b = c"
      | "\<not> ((of_char a \<le> (of_char c :: nat) \<and> of_char c \<le> (of_char b :: nat)) \<or> a = c)" "c \<noteq> CHR ''-''" "b \<noteq> c"
      by blast
    then show ?thesis
    proof cases
      case 1
      show ?thesis unfolding t split_in acc
        using found [of "a # CHR ''-'' # b # tail" "[a, CHR ''-'', b]", unfolded scan if_P [OF 1]] 1 a
        unfolding scan if_P [OF 1] by simp
    next
      case 2
      show ?thesis unfolding t split_in acc
        using found [of "a # CHR ''-'' # b # tail" "[CHR ''-'', b]", unfolded scan if_not_P [OF 2(1)] if_P [OF 2(2)]] 2 a
        unfolding scan if_not_P [OF 2(1)] if_P [OF 2(2)] by simp
    next
      case 3
      show ?thesis unfolding t split_in acc
        using found [of "a # CHR ''-'' # b # tail" "[b]", unfolded scan if_not_P [OF 3(1)] if_not_P [OF 3(2)] if_P [OF 3(3)]] 3 a
        unfolding scan if_not_P [OF 3(1)] if_not_P [OF 3(2)] if_P [OF 3(3)] by simp
    next
      case 4
      show ?thesis unfolding t split_in acc
        using q 4 unfolding scan if_not_P [OF 4(1)] if_not_P [OF 4(2)] if_not_P [OF 4(3)] by auto
    qed
  qed
qed

lemma bracket_rest_class:
  assumes "\<forall>r \<in> set rs. class_char (fst r) \<and> class_char (snd r)"
  shows "bracket_rest (item_text (Class neg rs) @ rest) c = (if class_accepts neg rs c then Some rest else None)"
proof -
  define tail where "tail = concat (map range_text rs) @ CHR '']'' # rest"
  define lead where "lead = (if neg then CHR ''!'' else CHR ''['')"
  obtain x xs where x: "tail = x # xs" "x \<noteq> CHR ''-''" "x \<noteq> CHR ''!''" using ranges_head [OF assms, of rest] tail_def by auto
  obtain q where q: "bracket_scan neg c tail = Some ((\<exists>r \<in> set rs. range_accepts c r) \<noteq> neg, q)" "after_char (CHR '']'') q = Some rest"
    using bracket_scan_ranges [OF assms] tail_def by blast
  have nb: "CHR '']'' \<notin> set (concat (map range_text rs))"
    using assms by (auto simp: range_text_def class_char_def split: prod.splits if_splits)
  have lead_scan: "bracket_scan neg c (lead # tail) = (if lead = c then Some (\<not> neg, lead # tail) else bracket_scan neg c tail)"
    using bracket_scan_plain [of lead x neg c xs] x by (auto simp: lead_def)
  have skip: "after_char (CHR '']'') (lead # tail) = Some rest"
    using after_char_skip [of "CHR '']''" "lead # concat (map range_text rs)" rest] nb by (auto simp: tail_def lead_def)
  have p: "item_text (Class neg rs) @ rest = (if neg then CHR ''['' # lead # tail else lead # tail)"
    by (simp add: lead_def tail_def)
  show ?thesis
    using lead_scan q skip x unfolding p
    by (cases neg) (auto simp: bracket_rest_def lead_def class_accepts_def)
qed

subsection \<open>Alternatives\<close>

lemma tries_alternative:
  assumes "\<forall>c \<in> set a. c \<noteq> CHR '','' \<and> c \<noteq> CHR ''}''" and "e = CHR '','' \<or> e = CHR ''}''"
  shows "list_tries test (a @ e # xs) tp =
    (if prefix a tp then list_tries test (e # xs) (drop (length a) tp)
     else list_tries test (if e = CHR '','' then xs else e # xs) test)"
  using assms(1)
proof (induction a arbitrary: tp)
  case Nil
  then show ?case by simp
next
  case (Cons x a)
  have x: "x \<noteq> CHR '',''" "x \<noteq> CHR ''}''" and a: "\<forall>c \<in> set a. c \<noteq> CHR '','' \<and> c \<noteq> CHR ''}''" using Cons.prems by auto
  show ?case
  proof (cases "tp \<noteq> [] \<and> hd tp = x")
    case True
    then obtain ts where ts: "tp = x # ts" by (cases tp) auto
    have "list_tries test ((x # a) @ e # xs) tp = list_tries test (a @ e # xs) ts"
      using x by (simp add: ts list_tries.simps [of test "x # a @ e # xs" "x # ts"])
    then show ?thesis using Cons.IH [OF a, of ts] ts by simp
  next
    case False
    have "dropWhile (\<lambda>y. y \<noteq> CHR '','' \<and> y \<noteq> CHR ''}'') ((x # a) @ e # xs) = e # xs"
      using x a assms(2) by (induction a) auto
    then have "list_tries test ((x # a) @ e # xs) tp = list_tries test (if e = CHR '','' then xs else e # xs) test"
      using x False assms(2) unfolding list_tries.simps [of test "(x # a) @ e # xs" tp] by auto
    then show ?thesis using False by (cases tp) auto
  qed
qed

lemma tries_end: "list_tries test (CHR ''}'' # xs) tp = [tp]"
  by (simp add: list_tries.simps [of test "CHR ''}'' # xs" tp])

lemma tries_next: "list_tries test (CHR '','' # xs) tp = tp # list_tries test xs test"
  by (simp add: list_tries.simps [of test "CHR '','' # xs" tp])

lemma tries_choice:
  assumes "as \<noteq> []" and "\<forall>a \<in> set as. CHR '','' \<notin> set a \<and> CHR ''}'' \<notin> set a"
  shows "set (list_tries test (choice_text as @ CHR ''}'' # rest) test) =
    {drop (length a) test | a. a \<in> set as \<and> prefix a test} \<union> (if prefix (last as) test then {} else {test})"
  using assms
proof (induction as rule: choice_text.induct)
  case 1
  then show ?case by simp
next
  case (2 a)
  have "\<forall>c \<in> set a. c \<noteq> CHR '','' \<and> c \<noteq> CHR ''}''" using 2 by auto
  then show ?case using tries_alternative [of a "CHR ''}''" test rest test] by (auto simp: tries_end)
next
  case (3 a b bs)
  have a: "\<forall>c \<in> set a. c \<noteq> CHR '','' \<and> c \<noteq> CHR ''}''" and ok: "\<forall>a \<in> set (b # bs). CHR '','' \<notin> set a \<and> CHR ''}'' \<notin> set a"
    using 3 by auto
  show ?case
    using tries_alternative [OF a, of "CHR '',''" test "choice_text (b # bs) @ CHR ''}'' # rest" test] 3(1) [OF _ ok]
    by (auto simp: tries_next)
qed

lemma choice_closed:
  assumes "\<forall>a \<in> set as. CHR '','' \<notin> set a \<and> CHR ''}'' \<notin> set a"
  shows "after_char (CHR ''}'') (choice_text as @ CHR ''}'' # rest) = Some rest"
proof -
  have "CHR ''}'' \<notin> set (choice_text as)" using assms by (induction as rule: choice_text.induct) auto
  then show ?thesis by (rule after_char_skip)
qed

subsection \<open>One item\<close>

lemma match_nil: "Osc_PatternMatch [] t \<longleftrightarrow> t = []"
  by (simp add: Osc_PatternMatch.simps [of "[]" t])

lemma match_literal:
  "Osc_PatternMatch (item_text (Literal c) @ xs) t \<longleftrightarrow> t \<noteq> [] \<and> hd t = c \<and> Osc_PatternMatch xs (tl t)"
  by (cases t) (auto simp: Osc_PatternMatch.simps [of "_ # _"] special_def)

lemma match_any: "Osc_PatternMatch (CHR ''?'' # xs) t \<longleftrightarrow> t \<noteq> [] \<and> Osc_PatternMatch xs (tl t)"
  by (simp add: Osc_PatternMatch.simps [of "_ # _" t])

lemma ex_drop: "(\<exists>n \<le> length (c # t). P (drop n (c # t))) \<longleftrightarrow> P (c # t) \<or> (\<exists>n \<le> length t. P (drop n t))"
proof
  assume "\<exists>n \<le> length (c # t). P (drop n (c # t))"
  then obtain n where "n \<le> Suc (length t)" "P (drop n (c # t))" by auto
  then show "P (c # t) \<or> (\<exists>n \<le> length t. P (drop n t))" by (cases n) auto
next
  assume "P (c # t) \<or> (\<exists>n \<le> length t. P (drop n t))"
  then show "\<exists>n \<le> length (c # t). P (drop n (c # t))"
    by (auto intro: exI [of _ 0] exI [of _ "Suc _"])
qed

lemma match_star: "Osc_PatternMatch (CHR ''*'' # xs) t \<longleftrightarrow> (\<exists>n \<le> length t. Osc_PatternMatch xs (drop n t))"
proof (induction t)
  case Nil
  then show ?case by (simp add: Osc_PatternMatch.simps [of "_ # _" "[]"])
next
  case (Cons c t)
  then show ?case unfolding ex_drop by (simp add: Osc_PatternMatch.simps [of "_ # _" "c # t"])
qed

lemma match_class:
  assumes "\<forall>r \<in> set rs. class_char (fst r) \<and> class_char (snd r)"
  shows "Osc_PatternMatch (item_text (Class neg rs) @ xs) t \<longleftrightarrow>
    t \<noteq> [] \<and> class_accepts neg rs (hd t) \<and> Osc_PatternMatch xs (tl t)"
proof -
  obtain ys where ys: "item_text (Class neg rs) @ xs = CHR ''['' # ys" by simp
  show ?thesis using bracket_rest_class [OF assms, of neg xs "hd t"] unfolding ys
    by (simp add: Osc_PatternMatch.simps [of "_ # _" t])
qed

lemma match_choice:
  assumes "item_ok (Choice as)"
  shows "Osc_PatternMatch (item_text (Choice as) @ xs) t \<longleftrightarrow> t \<noteq> [] \<and>
     ((\<exists>a \<in> set as. prefix a t \<and> Osc_PatternMatch xs (drop (length a) t)) \<or> (\<not> prefix (last as) t \<and> Osc_PatternMatch xs t))"
proof -
  have ok: "as \<noteq> []" "\<forall>a \<in> set as. CHR '','' \<notin> set a \<and> CHR ''}'' \<notin> set a" using assms by auto
  have whole: "item_text (Choice as) @ xs = CHR ''{'' # choice_text as @ CHR ''}'' # xs" by simp
  have "Osc_PatternMatch (CHR ''{'' # choice_text as @ CHR ''}'' # xs) t \<longleftrightarrow>
      t \<noteq> [] \<and> list_ex (Osc_PatternMatch xs) (list_tries t (choice_text as @ CHR ''}'' # xs) t)"
    using choice_closed [OF ok(2), of xs] by (simp add: Osc_PatternMatch.simps [of "_ # _" t])
  then show ?thesis unfolding whole list_ex_iff tries_choice [OF ok] by (auto split: if_splits)
qed

text \<open>
  C11: For every pattern of literal characters, question marks, asterisks, character classes and lists of alternatives, the
  recursive matcher decides exactly the relation that the items describe.
\<close>
theorem osc_pattern_semantics:
  assumes "list_all item_ok ps"
  shows "Osc_PatternMatch (pattern_text ps) t \<longleftrightarrow> item_matches ps t"
  using assms
proof (induction ps arbitrary: t)
  case Nil
  then show ?case by (simp add: pattern_text_def match_nil)
next
  case (Cons p ps)
  have whole: "pattern_text (p # ps) = item_text p @ pattern_text ps" by (simp add: pattern_text_def)
  have ok: "item_ok p" "list_all item_ok ps" using Cons.prems by simp_all
  note IH = Cons.IH [OF ok(2)]
  show ?case
  proof (cases p)
    case (Literal c)
    then show ?thesis unfolding whole unfolding Literal match_literal IH by simp
  next
    case Any_char
    then show ?thesis using match_any unfolding whole unfolding Any_char by (simp add: IH)
  next
    case Any_string
    then show ?thesis using match_star unfolding whole unfolding Any_string by (simp add: IH)
  next
    case (Class neg rs)
    then have rs: "\<forall>r \<in> set rs. class_char (fst r) \<and> class_char (snd r)" using ok(1) by simp
    show ?thesis unfolding whole unfolding Class match_class [OF rs] IH by simp
  next
    case (Choice as)
    then have "item_ok (Choice as)" using ok(1) by simp
    then show ?thesis unfolding whole unfolding Choice by (simp only: match_choice IH item_matches.simps)
  qed
qed

lemma osc_pattern_semantics_witness:
  "Osc_PatternMatch ''a*[0-4]{x,yy}'' ''abc3yy''"
proof -
  let ?ps = "[Literal CHR ''a'', Any_string, Class False [(CHR ''0'', CHR ''4'')], Choice [''x'', ''yy'']]"
  have "list_all item_ok ?ps" by code_simp
  moreover have "item_matches ?ps ''abc3yy''" by code_simp
  moreover have "pattern_text ?ps = ''a*[0-4]{x,yy}''" by code_simp
  ultimately show ?thesis using osc_pattern_semantics [of ?ps "''abc3yy''"] by simp
qed

text \<open>
  A list of alternatives whose last one does not fit is skipped, and a class accepts the bracket that
  opens it.
\<close>
lemma osc_choice_skipped: "Osc_PatternMatch ''{a,b}x'' ''x''" "Osc_PatternMatch ''[abc]'' ''[''"
  by code_simp+

subsection \<open>Indices\<close>

lemma c_int_small: "- (2 ^ 31) \<le> x \<Longrightarrow> x < 2 ^ 31 \<Longrightarrow> c_int x = x"
  by (simp add: c_int_def signed_take_bit_int_eq_self)

lemma read_digits_int:
  assumes "int n < 2 ^ 31"
  shows "fold (\<lambda>c n. c_int (n * 10 + int (digit_value c))) (print_nat n) 0 = int n"
  using assms
proof (induction n rule: print_nat.induct)
  case (1 n)
  show ?case
  proof (cases "n < 10")
    case True
    then show ?thesis using digit_value_char [of n] by (simp add: print_nat.simps [of n] c_int_small)
  next
    case False
    have "int (n div 10) * 10 + int (n mod 10) = int n" by presburger
    moreover have "fold (\<lambda>c n. c_int (n * 10 + int (digit_value c))) (print_nat (n div 10)) 0 = int (n div 10)"
      using 1 False by simp
    ultimately show ?thesis
      using False digit_value_char [of "n mod 10"] 1(2) by (simp add: print_nat.simps [of n] c_int_small)
  qed
qed

lemma match_bits_from:
  assumes "k \<le> 31"
  defines "f m \<equiv> (\<lambda>i b. c_int (push_bit 1 b) OR of_bool (Osc_PatternMatch m (print_nat i)))"
  shows "0 \<le> fold (f m) (rev [j..<j + k]) 0 \<and> fold (f m) (rev [j..<j + k]) 0 < 2 ^ k \<and>
    (\<forall>i. bit (fold (f m) (rev [j..<j + k]) 0) i \<longleftrightarrow> i < k \<and> Osc_PatternMatch m (print_nat (j + i)))"
  using assms(1)
proof (induction k arbitrary: j)
  case 0
  then show ?case by simp
next
  case (Suc k)
  define b where "b = fold (f m) (rev [Suc j..<Suc j + k]) 0"
  have IH: "0 \<le> b" "b < 2 ^ k" "\<And>i. bit b i \<longleftrightarrow> i < k \<and> Osc_PatternMatch m (print_nat (Suc j + i))"
    using Suc.IH [of "Suc j"] Suc.prems b_def by auto
  have "(2 :: int) ^ Suc k \<le> 2 ^ 31" using Suc.prems by (intro power_increasing) auto
  then have small: "c_int (push_bit 1 b) = push_bit 1 b"
    using IH(1,2) by (intro c_int_small) (auto simp: push_bit_eq_mult)
  have upt: "[j..<j + Suc k] = j # [Suc j..<Suc j + k]" by (simp add: upt_conv_Cons)
  have "fold (f m) (rev [j..<j + Suc k]) 0 = f m j b"
    unfolding upt by (simp only: rev.simps fold_append fold.simps b_def comp_apply id_apply)
  then have eq: "fold (f m) (rev [j..<j + Suc k]) 0 = push_bit 1 b OR of_bool (Osc_PatternMatch m (print_nat j))"
    by (simp only: f_def small)
  have bits: "bit (push_bit 1 b OR of_bool c) i \<longleftrightarrow> (if i = 0 then c else bit b (i - 1))" for c i
    by (cases c; cases i) (simp_all add: or_one_eq bit_0 bit_Suc)
  have "push_bit 1 b < 2 ^ Suc k" "0 \<le> push_bit 1 b" using IH by (simp_all add: push_bit_eq_mult)
  then have range: "0 \<le> push_bit 1 b OR of_bool c" "push_bit 1 b OR of_bool c < 2 ^ Suc k" for c
    by (cases c; simp add: or_one_eq)+
  show ?case unfolding eq bits using IH range by (auto split: if_splits)
qed

lemma number_of_digits:
  assumes "i < count" and "count \<le> 31"
  shows "Osc_NumberMatch count (print_nat i) = (int i, - 1)"
proof -
  have "int i < 2 ^ 31" using assms by simp
  moreover have digits: "takeWhile c_isdigit (print_nat i) = print_nat i" using print_nat_digits by (simp add: takeWhile_eq_all_conv)
  ultimately show ?thesis
    using assms(1) print_nat_nonempty [of i] by (simp add: Osc_NumberMatch_def Let_def read_digits_int digits del: takeWhile_eq_all_conv)
qed

text \<open>
  The digits of an index below the number of indices select that index alone; a pattern selects by its bits exactly the
  indices whose digits it matches, for at most 31 indices.
\<close>
theorem osc_number_match:
  assumes "0 < count" and "count \<le> 31"
  shows "(\<forall>i < count. Osc_NumberMatch count (print_nat i) = (int i, - 1)) \<and>
    (\<forall>p \<in> {CHR ''*'', CHR ''?'', CHR ''['', CHR ''{''}. \<forall>ps. \<exists>bits \<ge> 0.
      Osc_NumberMatch count (p # ps) = (- 1, bits) \<and>
      (\<forall>i. bit bits i \<longleftrightarrow> i < count \<and> Osc_PatternMatch (p # ps) (print_nat i)))"
proof (intro conjI ballI allI impI)
  fix i assume "i < count"
  then show "Osc_NumberMatch count (print_nat i) = (int i, - 1)" using assms(2) by (rule number_of_digits)
next
  fix p ps assume p: "p \<in> {CHR ''*'', CHR ''?'', CHR ''['', CHR ''{''}"
  then have "\<not> c_isdigit p" by (auto simp: c_isdigit_def)
  then have "Osc_NumberMatch count (p # ps) = (- 1, match_bits count (p # ps))"
    using assms(1) p by (simp add: Osc_NumberMatch_def)
  then show "\<exists>bits \<ge> 0. Osc_NumberMatch count (p # ps) = (- 1, bits) \<and>
      (\<forall>i. bit bits i \<longleftrightarrow> i < count \<and> Osc_PatternMatch (p # ps) (print_nat i))"
    using match_bits_from [OF assms(2), of "p # ps" 0] by (auto simp: match_bits_def)
qed

lemma osc_number_match_witness:
  "Osc_NumberMatch 8 ''5'' = (5, - 1) \<and> (\<exists>bits. Osc_NumberMatch 8 ''[0-4]'' = (- 1, bits) \<and> bit bits 3)"
proof
  have "print_nat 5 = ''5''" by code_simp
  then show "Osc_NumberMatch 8 ''5'' = (5, - 1)" using osc_number_match [of 8] by (auto dest: spec [of _ 5])
  have "Osc_PatternMatch ''[0-4]'' (print_nat 3)" by code_simp
  then show "\<exists>bits. Osc_NumberMatch 8 ''[0-4]'' = (- 1, bits) \<and> bit bits 3" using osc_number_match [of 8] by fastforce
qed

text \<open>With 64 indices the pattern for all of them is taken for no index at all.\<close>
lemma osc_number_match_64: "Osc_NumberMatch 64 ''*'' = (- 1, - 1)"
proof -
  define g where "g = (\<lambda>b. c_int (push_bit 1 b) OR 1)"
  have all: "Osc_PatternMatch ''*'' t" for t using match_star [of "[]" t] by (auto simp: match_nil)
  have "fold (\<lambda>i. g) xs b = (g ^^ length xs) b" for xs :: "nat list" and b
    by (induction xs arbitrary: b) (simp_all add: funpow_swap1)
  then have "match_bits 64 ''*'' = (g ^^ 64) 0" by (simp add: match_bits_def all g_def)
  moreover have "(g ^^ 64) 0 = - 1"
  proof -
    have up: "(g ^^ k) 0 = 2 ^ k - 1" if "k \<le> 31" for k
      using that
    proof (induction k)
      case (Suc k)
      have "(2 :: int) ^ k \<le> 2 ^ 30" using Suc.prems by (intro power_increasing) auto
      then have "c_int (push_bit 1 (2 ^ k - 1)) = 2 * (2 ^ k - 1)" by (subst c_int_small) (auto simp: push_bit_eq_mult)
      then show ?case using Suc by (simp add: g_def or_one_eq)
    qed simp
    have "g (2 ^ 31 - 1) = - 1" "g (- 1) = - 1" by (simp_all add: g_def c_int_def)
    moreover from this(2) have "(g ^^ k) (- 1) = - 1" for k by (induction k) simp_all
    moreover have "(g ^^ 64) 0 = (g ^^ 32) (g ((g ^^ 31) 0))" by (simp flip: funpow_add add: funpow_swap1 numeral_eq_Suc)
    ultimately show ?thesis using up [of 31] by simp
  qed
  ultimately show ?thesis by (simp add: Osc_NumberMatch_def c_isdigit_def)
qed

end
