(* ===== verification/OscMessage.thy ===== *)
theory OscMessage
  imports OscPattern
begin

text \<open>
  OSC messages as bytes (\<^verbatim>\<open>src/firmware/core/makingthings/osc.c\<close>): writing an address, a type tag and arguments, and
  reading them back. A byte is a \<open>char\<close>; the memory a pointer points into is the list of its bytes and the
  pointer an offset, so a read outside is \<open>None\<close>. A writer returns the bytes it puts at its pointer, or \<open>None\<close> for the
  null pointer when they do not fit, with the count of free bytes it leaves. The \<^verbatim>\<open>int\<close> stores and loads are those of
  the little-endian processor.
\<close>

subsection \<open>Words in memory\<close>

abbreviation (input) NUL :: char where "NUL \<equiv> CHR 0x00"

definition Osc_EndianSwap :: "u32 \<Rightarrow> u32" where
  "Osc_EndianSwap a =
     push_bit 24 (a AND 0x000000FF) OR push_bit 8 (a AND 0x0000FF00) OR drop_bit 8 (a AND 0x00FF0000) OR drop_bit 24 (a AND 0xFF000000)"

definition store_int :: "u32 \<Rightarrow> string" where
  "store_int v = map (\<lambda>k. char_of (unat (drop_bit k v AND 0xFF))) [0, 8, 16, 24]"

definition char_word :: "char \<Rightarrow> u32" where
  "char_word c = of_nat (of_char c)"

definition load_int :: "string \<Rightarrow> u32 option" where
  "load_int m =
     (if length m < 4 then None
      else Some (char_word (m ! 0) OR push_bit 8 (char_word (m ! 1)) OR push_bit 16 (char_word (m ! 2)) OR push_bit 24 (char_word (m ! 3))))"

text \<open>The memory from a pointer on, the C string at a pointer.\<close>

definition mem_at :: "string \<Rightarrow> int \<Rightarrow> string option" where
  "mem_at mem p = (if 0 \<le> p \<and> p \<le> int (length mem) then Some (drop (nat p) mem) else None)"

definition c_string :: "string \<Rightarrow> int \<Rightarrow> string option" where
  "c_string mem p =
     do {
       m \<leftarrow> mem_at mem p;
       if NUL \<in> set m then Some (takeWhile (\<lambda>c. c \<noteq> NUL) m) else None
     }"

definition Osc_ReadInt :: "string \<Rightarrow> int \<Rightarrow> int option" where
  "Osc_ReadInt mem p = map_option (\<lambda>v. sint (Osc_EndianSwap v)) (mem_at mem p \<bind> load_int)"

text \<open>A float is its 32 bits.\<close>

definition Osc_ReadFloat :: "string \<Rightarrow> int \<Rightarrow> u32 option" where
  "Osc_ReadFloat mem p = map_option Osc_EndianSwap (mem_at mem p \<bind> load_int)"

text \<open>The number of bytes that fill up a length to a multiple of four; the remainder has the sign of the length.\<close>

definition pad4 :: "int \<Rightarrow> int" where
  "pad4 n = (let pad = sgn n * (\<bar>n\<bar> mod 4) in if pad \<noteq> 0 then 4 - pad else 0)"

definition padding :: "nat \<Rightarrow> string" where
  "padding n = replicate (nat (pad4 (int n))) NUL"

subsection \<open>Writing\<close>

definition Osc_WritePaddedString :: "int \<Rightarrow> string \<Rightarrow> string option \<times> int" where
  "Osc_WritePaddedString len str =
     (let tagLen = length str + 1;
          tagPadLen = int tagLen + pad4 (int tagLen);
          len = len - tagPadLen
      in (if len \<ge> 0 then Some (str @ [NUL] @ padding tagLen) else None, len))"

definition Osc_WritePaddedBlob :: "int \<Rightarrow> string \<Rightarrow> string option \<times> int" where
  "Osc_WritePaddedBlob len blob =
     (let blen = length blob; padLength = int blen + pad4 (int blen)
      in if len < padLength + 4 then (None, len)
         else (Some (store_int (Osc_EndianSwap (of_nat blen)) @ blob @ padding blen), len - 4 - padLength))"

definition Osc_WriteTimetag :: "int \<Rightarrow> u32 \<Rightarrow> u32 \<Rightarrow> string option \<times> int" where
  "Osc_WriteTimetag len a b =
     (if len < 8 then (None, len) else (Some (store_int (Osc_EndianSwap a) @ store_int (Osc_EndianSwap b)), len - 8))"

definition Osc_CreateBundle :: "int \<Rightarrow> u32 \<Rightarrow> u32 \<Rightarrow> string option \<times> int" where
  "Osc_CreateBundle len a b =
     (case Osc_WritePaddedString len ''#bundle'' of
        (None, len) \<Rightarrow> (None, len)
      | (Some head, len) \<Rightarrow>
          (case Osc_WriteTimetag len a b of
             (None, len) \<Rightarrow> (None, len)
           | (Some timetag, len) \<Rightarrow> (Some (head @ timetag), len)))"

text \<open>
  The arguments a caller passes after the format. Taking an argument of another type than the one that was passed, or
  more than were passed, has no defined result.
\<close>

datatype osc_arg = Arg_int u32 | Arg_float u32 | Arg_string string | Arg_blob string

fun write_args :: "string \<Rightarrow> osc_arg list \<Rightarrow> int \<Rightarrow> (string option \<times> int) option" where
  "write_args [] args len = Some (Some [], len)"
| "write_args (f # fs) args len =
     (let put = (\<lambda>args bytes len. map_option (\<lambda>(r, len). (map_option (\<lambda>rest. bytes @ rest) r, len)) (write_args fs args len))
      in if f = CHR ''i'' then
           (let len = len - 4
            in if len \<ge> 0 then (case args of Arg_int v # args \<Rightarrow> put args (store_int (Osc_EndianSwap v)) len | _ \<Rightarrow> None)
               else Some (None, len))
         else if f = CHR ''f'' then
           (let len = len - 4
            in if len \<ge> 0 then (case args of Arg_float v # args \<Rightarrow> put args (store_int (Osc_EndianSwap v)) len | _ \<Rightarrow> None)
               else Some (None, len))
         else if f = CHR ''s'' then
           (case args of
              Arg_string str # args \<Rightarrow>
                (case Osc_WritePaddedString len str of (None, len) \<Rightarrow> Some (None, len) | (Some bytes, len) \<Rightarrow> put args bytes len)
            | _ \<Rightarrow> None)
         else if f = CHR ''b'' then
           (case args of
              Arg_blob blob # args \<Rightarrow>
                (case Osc_WritePaddedBlob len blob of (None, len) \<Rightarrow> Some (None, len) | (Some bytes, len) \<Rightarrow> put args bytes len)
            | _ \<Rightarrow> None)
         else Some (None, len))"

definition Osc_CreateMessageInternal :: "int \<Rightarrow> string \<Rightarrow> string \<Rightarrow> osc_arg list \<Rightarrow> (string option \<times> int) option" where
  "Osc_CreateMessageInternal len address format args =
     (case Osc_WritePaddedString len address of
        (None, len) \<Rightarrow> Some (None, len)
      | (Some a, len) \<Rightarrow>
          (case Osc_WritePaddedString len format of
             (None, len) \<Rightarrow> Some (None, len)
           | (Some t, len) \<Rightarrow>
               map_option (\<lambda>(r, len). (map_option (\<lambda>rest. a @ t @ rest) r, len)) (write_args (tl format) args len)))"

definition Osc_CreateMessageToBuf :: "int \<Rightarrow> string \<Rightarrow> string \<Rightarrow> osc_arg list \<Rightarrow> (status \<times> string option \<times> int) option" where
  "Osc_CreateMessageToBuf len address format args =
     (if format = [] \<or> hd format \<noteq> CHR '','' then Some (CONTROLLER_ERROR_BAD_DATA, None, len)
      else map_option (\<lambda>r. (CONTROLLER_OK, r)) (Osc_CreateMessageInternal len address format args))"

subsection \<open>Reading\<close>

text \<open>How many bytes lie before the type tag, if it comes before the end of the message.\<close>

fun find_tag :: "string \<Rightarrow> int \<Rightarrow> nat option option" where
  "find_tag [] len = None"
| "find_tag (c # m) len =
     (if c \<noteq> CHR '','' then
        (if len > 0 then map_option (map_option Suc) (find_tag m (len - 1)) else Some None)
      else Some (if len \<le> 0 then None else Some 0))"

definition Osc_FindDataTag :: "string \<Rightarrow> int \<Rightarrow> int \<Rightarrow> int option option" where
  "Osc_FindDataTag mem p len = mem_at mem p \<bind> (\<lambda>m. map_option (map_option (\<lambda>k. p + int k)) (find_tag m len))"

text \<open>Conversions between \<^verbatim>\<open>float\<close> and \<^verbatim>\<open>int\<close>: towards zero, undefined outside the range; to the nearest, ties to even.\<close>

definition float_to_int :: "u32 \<Rightarrow> int option" where
  "float_to_int w =
     (let e = uint (drop_bit 23 w AND 0xFF);
          f = uint (w AND 0x7FFFFF);
          m = (if e = 0 then f else f + 2 ^ 23);
          x = (if e = 0 then 1 else e) - 150;
          v = (if x \<ge> 0 then m * 2 ^ nat x else m div 2 ^ nat (- x));
          v = (if bit w 31 then - v else v)
      in if e = 255 \<or> v < - (2 ^ 31) \<or> v \<ge> 2 ^ 31 then None else Some v)"

fun top_bit :: "nat \<Rightarrow> nat" where
  "top_bit n = (if n < 2 then 0 else Suc (top_bit (n div 2)))"

declare top_bit.simps [simp del]

definition int_to_float :: "int \<Rightarrow> u32" where
  "int_to_float i =
     (let a = nat \<bar>i\<bar>; n = top_bit a;
          q = (if n \<le> 23 then a * 2 ^ (23 - n)
               else let s = n - 23; q = a div 2 ^ s; r = a mod 2 ^ s
                    in if 2 * r > 2 ^ s \<or> (2 * r = 2 ^ s \<and> odd q) then q + 1 else q)
      in if a = 0 then 0 else of_bool (i < 0) * 2 ^ 31 + of_nat ((n + 126) * 2 ^ 23 + q))"

text \<open>The values stored through the pointers a caller passes; a string or blob is a pointer into the message.\<close>

datatype osc_value = Val_int int | Val_float u32 | Val_string int | Val_blob int int

fun extract_data :: "string \<Rightarrow> string \<Rightarrow> string \<Rightarrow> int \<Rightarrow> osc_value list option" where
  "extract_data mem [] tags p = Some []"
| "extract_data mem (f # fs) tags p =
     (let t = (case tags of [] \<Rightarrow> NUL | t # _ \<Rightarrow> t);
          go = (\<lambda>v p. map_option (\<lambda>vs. v # vs) (extract_data mem fs (tl tags) p));
          skip = (\<lambda>n. n + pad4 n)
      in if f = CHR ''i'' \<and> t = CHR ''i'' then Osc_ReadInt mem p \<bind> (\<lambda>i. go (Val_int i) (p + 4))
         else if f = CHR ''i'' \<and> t = CHR ''f'' then
           Osc_ReadFloat mem p \<bind> float_to_int \<bind> (\<lambda>i. go (Val_int i) (p + 4))
         else if f = CHR ''f'' \<and> t = CHR ''f'' then Osc_ReadFloat mem p \<bind> (\<lambda>w. go (Val_float w) (p + 4))
         else if f = CHR ''f'' \<and> t = CHR ''i'' then Osc_ReadInt mem p \<bind> (\<lambda>i. go (Val_float (int_to_float i)) (p + 4))
         else if f = CHR ''s'' \<and> t = CHR ''s'' then
           c_string mem p \<bind> (\<lambda>str. go (Val_string p) (p + skip (int (length str) + 1)))
         else if f = CHR ''b'' \<and> t = CHR ''b'' then
           Osc_ReadInt mem p \<bind> (\<lambda>n. go (Val_blob (p + 4) n) (p + 4 + c_int (skip n)))
         else if f = CHR ''b'' \<and> t = CHR ''s'' then
           c_string mem p \<bind> (\<lambda>str. let n = int (length str) + 1 in go (Val_blob p n) (p + skip n))
         else Some [])"

definition Osc_ExtractData :: "string \<Rightarrow> int \<Rightarrow> string \<Rightarrow> osc_value list option" where
  "Osc_ExtractData mem p format =
     do {
       tag \<leftarrow> c_string mem p;
       tags \<leftarrow> c_string mem (p + 1);
       let tagLen = int (length tag) + 1 in extract_data mem format tags (p + tagLen + pad4 tagLen)
     }"

subsection \<open>Words and bytes\<close>

lemma swap_masks:
  "Osc_EndianSwap a =
     push_bit 24 (take_bit 8 a) OR push_bit 16 (take_bit 8 (drop_bit 8 a)) OR
     push_bit 8 (take_bit 8 (drop_bit 16 a)) OR take_bit 8 (drop_bit 24 a)"
proof -
  have m: "a AND 0x000000FF = take_bit 8 a" "a AND 0x0000FF00 = push_bit 8 (take_bit 8 (drop_bit 8 a))"
    "a AND 0x00FF0000 = push_bit 16 (take_bit 8 (drop_bit 16 a))" "a AND 0xFF000000 = push_bit 24 (take_bit 8 (drop_bit 24 a))"
  proof -
    have k: "(0xFF :: u32) = push_bit 0 (mask 8)" "(0xFF00 :: u32) = push_bit 8 (mask 8)" "(0xFF0000 :: u32) = push_bit 16 (mask 8)"
      "(0xFF000000 :: u32) = push_bit 24 (mask 8)" by (simp_all add: mask_eq_exp_minus_1)
    show "a AND 0x000000FF = take_bit 8 a" "a AND 0x0000FF00 = push_bit 8 (take_bit 8 (drop_bit 8 a))"
      "a AND 0x00FF0000 = push_bit 16 (take_bit 8 (drop_bit 16 a))" "a AND 0xFF000000 = push_bit 24 (take_bit 8 (drop_bit 24 a))"
      unfolding k by (rule bit_word_eqI; auto simp: bit_simps)+
  qed
  show ?thesis unfolding Osc_EndianSwap_def m
    by (rule bit_word_eqI) (auto simp: bit_simps)
qed

lemma bit_swap:
  "bit (Osc_EndianSwap a) n \<longleftrightarrow>
    (if n < 8 then bit a (n + 24) else if n < 16 then bit a (n + 8) else if n < 24 then bit a (n - 8) else n < 32 \<and> bit a (n - 24))"
  unfolding swap_masks by (auto simp: bit_simps add.commute)

lemma word_byte_cases:
  assumes "n < 32"
  obtains "n < 8" | k where "n = k + 8" "k < 8" | k where "n = k + 16" "k < 8" | k where "n = k + 24" "k < (8 :: nat)"
proof -
  consider "n < 8" | "8 \<le> n" "n < 16" | "16 \<le> n" "n < 24" | "24 \<le> n" using assms by fastforce
  then show ?thesis
  proof cases
    case 2 then show ?thesis using that(2) [of "n - 8"] by simp
  next
    case 3 then show ?thesis using that(3) [of "n - 16"] by simp
  next
    case 4 then show ?thesis using that(4) [of "n - 24"] assms by simp
  qed (rule that(1))
qed

lemma swap_swap [simp]: "Osc_EndianSwap (Osc_EndianSwap a) = a"
proof (rule bit_word_eqI)
  fix n assume "n < LENGTH(32)"
  then have "n < 32" by simp
  then show "bit (Osc_EndianSwap (Osc_EndianSwap a)) n = bit a n"
    by (cases rule: word_byte_cases) (simp_all add: bit_swap add.commute)
qed

lemma length_store_int [simp]: "length (store_int v) = 4"
  by (simp add: store_int_def)

lemma char_word_of: "char_word (char_of (unat (x AND 0xFF :: u32))) = x AND 0xFF"
proof -
  have "(0xFF :: u32) = mask 8" by (simp add: mask_eq_exp_minus_1)
  then have "x AND 0xFF = take_bit 8 x" by (simp add: take_bit_eq_mask)
  moreover have "unat (take_bit 8 x) < 256" using take_bit_nat_less_exp [of 8 "unat x"] by (simp add: unsigned_take_bit_eq)
  ultimately show ?thesis by (simp add: char_word_def)
qed

lemma load_store_int [simp]: "load_int (store_int v @ m) = Some v"
proof -
  have "(0xFF :: u32) = mask 8" by (simp add: mask_eq_exp_minus_1)
  then have byte: "x AND 0xFF = take_bit 8 x" for x :: u32 by (simp add: take_bit_eq_mask)
  have "take_bit 8 v OR push_bit 8 (take_bit 8 (drop_bit 8 v)) OR push_bit 16 (take_bit 8 (drop_bit 16 v)) OR
      push_bit 24 (take_bit 8 (drop_bit 24 v)) = v"
  proof (rule bit_word_eqI)
    fix n assume "n < LENGTH(32)"
    then have "n < 32" by simp
    then show "bit (take_bit 8 v OR push_bit 8 (take_bit 8 (drop_bit 8 v)) OR push_bit 16 (take_bit 8 (drop_bit 16 v)) OR
      push_bit 24 (take_bit 8 (drop_bit 24 v))) n = bit v n"
      by (cases rule: word_byte_cases) (auto simp: bit_simps add.commute)
  qed
  then show ?thesis using char_word_of by (simp add: load_int_def store_int_def nth_append byte)
qed


subsection \<open>The layout of a message\<close>

definition padded :: "string \<Rightarrow> string" where
  "padded str = str @ [NUL] @ padding (length str + 1)"

fun arg_tag :: "osc_arg \<Rightarrow> char" where
  "arg_tag (Arg_int v) = CHR ''i''"
| "arg_tag (Arg_float w) = CHR ''f''"
| "arg_tag (Arg_string str) = CHR ''s''"
| "arg_tag (Arg_blob b) = CHR ''b''"

fun arg_bytes :: "osc_arg \<Rightarrow> string" where
  "arg_bytes (Arg_int v) = store_int (Osc_EndianSwap v)"
| "arg_bytes (Arg_float w) = store_int (Osc_EndianSwap w)"
| "arg_bytes (Arg_string str) = padded str"
| "arg_bytes (Arg_blob b) = store_int (Osc_EndianSwap (of_nat (length b))) @ b @ padding (length b)"

definition format_of :: "osc_arg list \<Rightarrow> string" where
  "format_of args = CHR '','' # map arg_tag args"

definition message_bytes :: "string \<Rightarrow> osc_arg list \<Rightarrow> string" where
  "message_bytes address args = padded address @ padded (format_of args) @ concat (map arg_bytes args)"

lemma pad4_range: "0 \<le> n \<Longrightarrow> 0 \<le> pad4 n \<and> pad4 n < 4 \<and> (n + pad4 n) mod 4 = 0"
proof -
  assume n: "0 \<le> n"
  have p: "pad4 n = (if n mod 4 \<noteq> 0 then 4 - n mod 4 else 0)" using n by (cases "n = 0") (auto simp: pad4_def Let_def)
  show ?thesis unfolding p by presburger
qed

lemma length_padding [simp]: "int (length (padding n)) = pad4 (int n)"
  using pad4_range [of "int n"] by (simp add: padding_def)

lemma WritePaddedString_eq:
  "Osc_WritePaddedString len str =
    (if int (length (padded str)) \<le> len then Some (padded str) else None, len - int (length (padded str)))"
  by (auto simp: Osc_WritePaddedString_def padded_def Let_def algebra_simps)

lemma WritePaddedBlob_eq:
  "Osc_WritePaddedBlob len b =
    (if int (length (arg_bytes (Arg_blob b))) \<le> len then (Some (arg_bytes (Arg_blob b)), len - int (length (arg_bytes (Arg_blob b))))
     else (None, len))"
  by (auto simp: Osc_WritePaddedBlob_def Let_def algebra_simps)

lemma write_args_eq:
  assumes "0 \<le> len"
  shows "\<exists>len'. write_args (map arg_tag args) args len =
    Some (if int (length (concat (map arg_bytes args))) \<le> len then
            (Some (concat (map arg_bytes args)), len - int (length (concat (map arg_bytes args))))
          else (None, len'))"
  using assms
proof (induction args arbitrary: len)
  case Nil
  then show ?case by simp
next
  case (Cons a args)
  define n where "n = int (length (arg_bytes a))"
  define bytes where "bytes = arg_bytes a"
  define rest where "rest = concat (map arg_bytes args)"
  have n: "n = int (length bytes)" by (simp add: n_def bytes_def)
  have one: "write_args (map arg_tag (a # args)) (a # args) len =
      (if n \<le> len then map_option (\<lambda>(r, len). (map_option (\<lambda>rest. bytes @ rest) r, len)) (write_args (map arg_tag args) args (len - n))
       else Some (None, if \<exists>b. a = Arg_blob b then len else len - n))"
    by (cases a) (auto simp: n_def bytes_def WritePaddedString_eq WritePaddedBlob_eq Let_def simp del: of_nat_add length_append arg_bytes.simps(4))
  show ?case
  proof (cases "n \<le> len")
    case True
    then obtain len' where "write_args (map arg_tag args) args (len - n) =
        Some (if int (length rest) \<le> len - n then (Some rest, len - n - int (length rest)) else (None, len'))"
      using Cons.IH [of "len - n"] rest_def by auto
    then show ?thesis using True unfolding one
      by (auto simp: n simp flip: bytes_def rest_def)
  next
    case False
    then have "\<not> int (length (concat (map arg_bytes (a # args)))) \<le> len" by (simp add: n_def)
    then show ?thesis using False unfolding one by auto
  qed
qed

text \<open>
  A message is written exactly in the layout of the protocol, whenever it fits into the free bytes, which decrease by its
  length; otherwise the writer reports the lack of room.
\<close>
lemma osc_message_written:
  "\<exists>len'. Osc_CreateMessageInternal len address (format_of args) args =
    Some (if int (length (message_bytes address args)) \<le> len
          then (Some (message_bytes address args), len - int (length (message_bytes address args))) else (None, len'))"
proof -
  let ?a = "int (length (padded address))" and ?t = "int (length (padded (format_of args)))"
  let ?b = "int (length (concat (map arg_bytes args)))"
  have total: "int (length (message_bytes address args)) = ?a + ?t + ?b" by (simp add: message_bytes_def)
  have tags: "tl (format_of args) = map arg_tag args" by (simp add: format_of_def)
  show ?thesis
  proof (cases "?a + ?t \<le> len")
    case True
    then obtain len' where "write_args (map arg_tag args) args (len - ?a - ?t) =
        Some (if ?b \<le> len - ?a - ?t then (Some (concat (map arg_bytes args)), len - ?a - ?t - ?b) else (None, len'))"
      using write_args_eq [of "len - ?a - ?t" args] by auto
    then show ?thesis using True unfolding total
      by (auto simp: Osc_CreateMessageInternal_def WritePaddedString_eq message_bytes_def tags simp del: of_nat_add length_append)
  next
    case False
    then show ?thesis unfolding total
      by (auto simp: Osc_CreateMessageInternal_def WritePaddedString_eq simp del: of_nat_add length_append)
  qed
qed

subsection \<open>Reading a message back\<close>

lemma mem_at_append [simp]: "mem_at (pre @ m) (int (length pre)) = Some m"
  by (simp add: mem_at_def)

lemma takeWhile_NUL: "NUL \<notin> set str \<Longrightarrow> takeWhile (\<lambda>c. c \<noteq> NUL) (str @ NUL # post) = str"
  by (induction str) auto

lemma c_string_padded [simp]: "NUL \<notin> set str \<Longrightarrow> c_string (pre @ padded str @ post) (int (length pre)) = Some str"
  by (simp add: c_string_def padded_def takeWhile_NUL)

lemma length_padded: "int (length (padded str)) = int (length str) + 1 + pad4 (int (length str) + 1)"
  by (simp add: padded_def algebra_simps)

lemma c_string_tl: "NUL \<notin> set (c # str) \<Longrightarrow> c_string (pre @ padded (c # str) @ post) (int (length pre) + 1) = Some str"
  using mem_at_append [of "pre @ [c]" "str @ [NUL] @ padding (length (c # str) + 1) @ post"]
  by (simp add: c_string_def padded_def takeWhile_NUL add.commute)

lemma find_tag_skip:
  assumes "CHR '','' \<notin> set xs" and "int (length xs) < len"
  shows "find_tag (xs @ CHR '','' # m) len = Some (Some (length xs))"
  using assms by (induction xs arbitrary: len) auto

lemma sint_int:
  assumes "int n < 2 ^ 31"
  shows "sint (of_nat n :: u32) = int n"
  using assms by (simp add: sint_uint unsigned_of_nat take_bit_nat_eq_self signed_take_bit_int_eq_self take_bit_int_eq_self of_nat_take_bit)

fun arg_ok :: "osc_arg \<Rightarrow> bool" where
  "arg_ok (Arg_string str) \<longleftrightarrow> NUL \<notin> set str"
| "arg_ok (Arg_blob b) \<longleftrightarrow> int (length b) < 2 ^ 31 - 4"
| "arg_ok _ \<longleftrightarrow> True"

text \<open>What a value read from a message says about the argument.\<close>

fun holds :: "string \<Rightarrow> osc_arg \<Rightarrow> osc_value \<Rightarrow> bool" where
  "holds mem (Arg_int v) (Val_int i) \<longleftrightarrow> i = sint v"
| "holds mem (Arg_float w) (Val_float w') \<longleftrightarrow> w' = w"
| "holds mem (Arg_string str) (Val_string p) \<longleftrightarrow> c_string mem p = Some str"
| "holds mem (Arg_blob b) (Val_blob p n) \<longleftrightarrow> n = int (length b) \<and> map_option (take (nat n)) (mem_at mem p) = Some b"
| "holds mem _ _ \<longleftrightarrow> False"

lemma extract_step:
  assumes "arg_ok a"
  shows "\<exists>v. holds (pre @ arg_bytes a @ post) a v \<and>
    extract_data (pre @ arg_bytes a @ post) (arg_tag a # fs) (arg_tag a # ts) (int (length pre)) =
      map_option (\<lambda>vs. v # vs) (extract_data (pre @ arg_bytes a @ post) fs ts (int (length (pre @ arg_bytes a))))"
proof (cases a)
  case (Arg_int v)
  then show ?thesis by (intro exI [of _ "Val_int (sint v)"]) (simp add: Osc_ReadInt_def)
next
  case (Arg_float w)
  then show ?thesis by (intro exI [of _ "Val_float w"]) (simp add: Osc_ReadFloat_def)
next
  case (Arg_string str)
  then have "NUL \<notin> set str" using assms by simp
  then show ?thesis unfolding Arg_string
    by (intro exI [of _ "Val_string (int (length pre))"])
      (simp add: length_padded algebra_simps) 
next
  case (Arg_blob b)
  have n: "int (length b) < 2 ^ 31" "0 \<le> pad4 (int (length b))" "int (length b) + pad4 (int (length b)) < 2 ^ 31"
    using assms Arg_blob pad4_range [of "int (length b)"] by auto
  then have c: "c_int (int (length b) + pad4 (int (length b))) = int (length b) + pad4 (int (length b))"
    by (intro c_int_small) auto
  have at: "mem_at (pre @ arg_bytes a @ post) (int (length pre) + 4) = Some (b @ padding (length b) @ post)"
    using mem_at_append [of "pre @ store_int (Osc_EndianSwap (of_nat (length b)))" "b @ padding (length b) @ post"] by (simp add: Arg_blob)
  then show ?thesis
    by (intro exI [of _ "Val_blob (int (length pre) + 4) (int (length b))"])
      (simp add: Arg_blob Osc_ReadInt_def sint_int [OF n(1)] c algebra_simps)
qed

lemma extract_args:
  assumes "list_all arg_ok args"
  shows "\<exists>vs. extract_data (pre @ concat (map arg_bytes args) @ post) (map arg_tag args) (map arg_tag args) (int (length pre)) = Some vs \<and>
    list_all2 (holds (pre @ concat (map arg_bytes args) @ post)) args vs"
  using assms
proof (induction args arbitrary: pre)
  case Nil
  then show ?case by simp
next
  case (Cons a args)
  let ?mem = "pre @ arg_bytes a @ concat (map arg_bytes args) @ post"
  obtain v where v: "holds ?mem a v" "extract_data ?mem (arg_tag a # map arg_tag args) (arg_tag a # map arg_tag args) (int (length pre)) =
      map_option (\<lambda>vs. v # vs) (extract_data ?mem (map arg_tag args) (map arg_tag args) (int (length (pre @ arg_bytes a))))"
    using extract_step [of a pre "concat (map arg_bytes args) @ post" "map arg_tag args" "map arg_tag args"] Cons.prems by auto
  obtain vs where "extract_data ?mem (map arg_tag args) (map arg_tag args) (int (length (pre @ arg_bytes a))) = Some vs"
      "list_all2 (holds ?mem) args vs"
    using Cons.IH [of "pre @ arg_bytes a"] Cons.prems by auto
  then show ?case using v by auto
qed

text \<open>Finding the tag behind bytes without a comma, and reading what follows the tag.\<close>

lemma format_not_null: "NUL \<notin> set (format_of args)"
proof -
  have "arg_tag a \<noteq> NUL" for a by (cases a) auto
  then have "NUL \<notin> arg_tag ` set args" by (metis imageE)
  then show ?thesis by (simp add: format_of_def)
qed

lemma find_tag_at:
  assumes "CHR '','' \<notin> set xs" and "int (length xs) < len" and "mem = pre @ xs @ padded (format_of args) @ post"
  shows "Osc_FindDataTag mem (int (length pre)) len = Some (Some (int (length pre) + int (length xs)))"
proof -
  obtain ts where ts: "padded (format_of args) = CHR '','' # ts" by (simp add: padded_def format_of_def)
  show ?thesis using find_tag_skip [OF assms(1,2), of "ts @ post"]
    unfolding assms(3) Osc_FindDataTag_def mem_at_append by (simp add: ts)
qed

lemma extract_at:
  assumes "list_all arg_ok args" and "mem = pre @ padded (format_of args) @ concat (map arg_bytes args) @ post"
  shows "\<exists>vs. Osc_ExtractData mem (int (length pre)) (map arg_tag args) = Some vs \<and> list_all2 (holds mem) args vs"
proof -
  define tags where "tags = padded (format_of args)"
  define data where "data = concat (map arg_bytes args)"
  have t1: "c_string mem (int (length pre)) = Some (format_of args)"
    using c_string_padded [OF format_not_null] by (simp add: assms(2))
  have t2: "c_string mem (int (length pre) + 1) = Some (map arg_tag args)"
    using c_string_tl [of "CHR '',''" "map arg_tag args" pre "data @ post"] format_not_null [of args]
    by (simp add: assms(2) format_of_def data_def)
  have len: "int (length (format_of args)) + 1 + pad4 (int (length (format_of args)) + 1) = int (length tags)"
    by (simp add: tags_def length_padded)
  obtain vs where "extract_data mem (map arg_tag args) (map arg_tag args) (int (length (pre @ tags))) = Some vs"
    "list_all2 (holds mem) args vs"
    using extract_args [OF assms(1), of "pre @ tags" post] by (auto simp: assms(2) tags_def)
  moreover have "int (length (pre @ tags)) = int (length pre) + (int (length (format_of args)) + 1) + pad4 (int (length (format_of args)) + 1)"
    using len by simp
  ultimately show ?thesis using t1 t2 by (auto simp: Osc_ExtractData_def Let_def algebra_simps)
qed



subsection \<open>Integers and floats\<close>

lemma top_bit_bounds: "0 < n \<Longrightarrow> 2 ^ top_bit n \<le> n \<and> n < 2 ^ Suc (top_bit n)"
proof (induction n rule: top_bit.induct)
  case (1 n)
  then show ?case by (cases "n < 2") (auto simp: top_bit.simps [of n])
qed

text \<open>Every integer that a float can hold exactly is converted there and back.\<close>
lemma float_of_int_exact:
  assumes "\<bar>i\<bar> < 2 ^ 24"
  shows "float_to_int (int_to_float i) = Some i"
proof (cases "i = 0")
  case True
  then show ?thesis by (simp add: int_to_float_def float_to_int_def)
next
  case False
  define a where "a = nat \<bar>i\<bar>"
  define n where "n = top_bit a"
  have a: "0 < a" "a < 2 ^ 24" using False assms by (auto simp: a_def)
  have n: "2 ^ n \<le> a" "a < 2 ^ Suc n" using top_bit_bounds [OF a(1)] n_def by auto
  have n23: "n \<le> 23"
  proof (rule ccontr)
    assume "\<not> n \<le> 23"
    then have "(2 :: nat) ^ 24 \<le> 2 ^ n" by (intro power_increasing) auto
    then show False using n(1) a(2) by linarith
  qed
  define q where "q = a * 2 ^ (23 - n)"
  have q: "2 ^ 23 \<le> q" "q < 2 ^ 24"
  proof -
    have p: "(2 :: nat) ^ n * 2 ^ (23 - n) = 2 ^ 23" using n23 by (simp flip: power_add)
    have "2 ^ n * 2 ^ (23 - n) \<le> q" using n(1) by (simp add: q_def)
    then show "2 ^ 23 \<le> q" unfolding p .
    have "q < 2 ^ Suc n * 2 ^ (23 - n)" using n(2) by (simp add: q_def)
    then show "q < 2 ^ 24" using p by (simp add: mult.assoc)
  qed
  define f where "f = q - 2 ^ 23"
  have f: "f < 2 ^ 23" "q = f + 2 ^ 23" using q by (auto simp: f_def)
  define sgn_bit :: nat where "sgn_bit = of_bool (i < 0)"
  define N where "N = sgn_bit * 2 ^ 31 + ((n + 127) * 2 ^ 23 + f)"
  have "int_to_float i = of_nat N"
    using False a n23 f(2) by (simp add: int_to_float_def a_def [symmetric] n_def [symmetric] q_def [symmetric] N_def sgn_bit_def algebra_simps)
  moreover have N: "N < 2 ^ 32" using n23 f by (simp add: N_def sgn_bit_def)
  ultimately have u: "unat (int_to_float i) = N" by (simp add: unsigned_of_nat take_bit_nat_eq_self)
  have mask: "(0xFF :: u32) = mask 8" "(0x7FFFFF :: u32) = mask 23" by (simp_all add: mask_eq_exp_minus_1)
  have nat_e: "unat (take_bit 8 (drop_bit 23 (int_to_float i))) = N div 2 ^ 23 mod 2 ^ 8"
    using N by (simp only: unsigned_take_bit_eq unsigned_drop_bit_eq u) (simp add: take_bit_eq_mod drop_bit_eq_div)
  have e: "uint (drop_bit 23 (int_to_float i) AND 0xFF) = int (N div 2 ^ 23 mod 2 ^ 8)"
    using arg_cong [OF nat_e, of int] unfolding mask take_bit_eq_mask [symmetric] by (simp only: uint_nat)
  have "N div 2 ^ 23 = sgn_bit * 2 ^ 8 + (n + 127)" using f(1) by (simp add: N_def)
  then have e': "uint (drop_bit 23 (int_to_float i) AND 0xFF) = int n + 127" unfolding e using n23 by simp
  have fr: "uint (int_to_float i AND 0x7FFFFF) = int f"
  proof -
    have split_N: "N = f + (sgn_bit * 2 ^ 8 + (n + 127)) * 2 ^ 23" by (simp add: N_def)
    have "N mod 2 ^ 23 = f" unfolding split_N mod_mult_self1 using f(1) by (rule mod_less)
    then have "unat (take_bit 23 (int_to_float i)) = f" by (simp only: unsigned_take_bit_eq u) (simp add: take_bit_eq_mod)
    then show ?thesis unfolding mask take_bit_eq_mask [symmetric] by (simp only: uint_nat)
  qed
  have s31: "bit (int_to_float i) 31 \<longleftrightarrow> i < 0"
  proof -
    have "bit (unat (int_to_float i)) 31 \<longleftrightarrow> bit (int_to_float i) 31" by (simp add: bit_unsigned_iff)
    then have "bit (int_to_float i) 31 \<longleftrightarrow> odd (N div 2 ^ 31)" by (simp only: u bit_iff_odd)
    moreover have "N div 2 ^ 31 = sgn_bit" using n23 f(1) by (simp add: N_def)
    ultimately show ?thesis by (simp add: sgn_bit_def)
  qed
  have m: "(if int n + 127 - 150 \<ge> 0 then (int f + 2 ^ 23) * 2 ^ nat (int n + 127 - 150) else (int f + 2 ^ 23) div 2 ^ nat (- (int n + 127 - 150))) = int a"
  proof -
    have "int f + 2 ^ 23 = int a * 2 ^ (23 - n)" using arg_cong [OF f(2), of int] by (simp add: q_def)
    moreover have "nat (- (int n + 127 - 150)) = 23 - n" "nat (int n + 127 - 150) = 0" using n23 by simp_all
    ultimately show ?thesis using n23 by simp
  qed
  have r: "(if i < 0 then - int a else int a) = i" by (simp add: a_def)
  have nz: "int n + 127 \<noteq> 0" "int n + 127 \<noteq> 255" using n23 by simp_all
  show ?thesis unfolding float_to_int_def Let_def e' fr s31 if_not_P [OF nz(1)] m r using nz(2) assms by auto
qed

end
