(* ===== verification/Osc.thy ===== *)
theory Osc
  imports OscMessage Inputs
begin

text \<open>
  The OSC system (\<^verbatim>\<open>src/firmware/core/makingthings/osc.c\<close>): channels that collect outgoing messages in a buffer and send them as
  one packet, the dispatch of incoming packets to the subsystems that registered, and the helpers by which a subsystem
  reads and writes its properties.

  The structures are allocated when the system becomes active; following a null pointer has no defined result. A channel's
  buffer of 600 bytes is the list of the bytes before the write pointer, its incoming buffer the memory messages are
  read from, with pointers as offsets. The receive function of a subsystem is a code pointer, interpreted
  by the parameter \<open>recv\<close> as a function on the whole state. What the network and USB functions are given is appended to \<open>Osc_out\<close>;
  \<open>Osc_send_result\<close> is what they return. A semaphore is a flag (\<open>True\<close>: it can be taken). \<open>Osc_null\<close> is what a read through the
  null pointer delivers on this processor, \<open>None\<close> if it traps. Strings are not null, so the tests for null strings are left out.
\<close>

subsection \<open>State\<close>

datatype osc_sender = UdpPacketSend | UsbPacketSend | TcpPacketSend

record OscChannel =
  och_incoming :: string
  och_written :: "string option"
  och_remaining :: int
  och_messages :: int
  och_replyAddress :: int
  och_replyPort :: int
  och_sendMessage :: "osc_sender option"
  och_semaphore :: "bool option"
  och_running :: bool

record OscSubsystem =
  sub_name :: string
  sub_receiveMessage :: nat
  sub_async :: "nat option"

datatype osc_sent = Datagram int int string | Slip string | Stream string

datatype osc_task = Osc_UdpTask | Osc_UsbTask | Osc_AsyncTask

record osc_state = inputs_state +
  Osc_active :: bool
  Osc_running :: bool
  Osc_channel :: "OscChannel option list"
  Osc_subsystem :: "OscSubsystem option list"
  Osc_registeredSubsystems :: int
  Osc_scratch1 :: bool
  Osc_scratch2 :: bool
  Osc_tasks :: "osc_task list"
  Osc_tcpSocket :: bool
  Osc_udpSendPort :: int
  Osc_send_result :: int
  Osc_stack :: string
  Osc_null :: "char option"
  Osc_fresh :: OscChannel
  Osc_out :: "osc_sent list"

abbreviation (input) OSC_MAX_MESSAGE_IN :: nat where "OSC_MAX_MESSAGE_IN \<equiv> 200"
abbreviation (input) OSC_MAX_MESSAGE_OUT :: int where "OSC_MAX_MESSAGE_OUT \<equiv> 600"
abbreviation (input) OSC_SUBSYSTEM_COUNT :: nat where "OSC_SUBSYSTEM_COUNT \<equiv> 18"
abbreviation (input) OSC_CHANNEL_COUNT :: nat where "OSC_CHANNEL_COUNT \<equiv> 3"
abbreviation (input) OSC_CHANNEL_UDP :: int where "OSC_CHANNEL_UDP \<equiv> 0"
abbreviation (input) OSC_CHANNEL_USB :: int where "OSC_CHANNEL_USB \<equiv> 1"
abbreviation (input) OSC_CHANNEL_TCP :: int where "OSC_CHANNEL_TCP \<equiv> 2"

definition osc_channel :: "int \<Rightarrow> 'a osc_state_scheme \<Rightarrow> OscChannel option" where
  "osc_channel c s = (if Osc_active s \<and> 0 \<le> c \<and> c < int OSC_CHANNEL_COUNT then Osc_channel s ! nat c else None)"

definition set_channel :: "int \<Rightarrow> OscChannel \<Rightarrow> 'a osc_state_scheme \<Rightarrow> 'a osc_state_scheme" where
  "set_channel c ch s = s\<lparr>Osc_channel := (Osc_channel s)[nat c := Some ch]\<rparr>"

definition bad_channel :: "int \<Rightarrow> bool" where
  "bad_channel c \<longleftrightarrow> c < 0 \<or> c \<ge> int OSC_CHANNEL_COUNT"

subsection \<open>Activation\<close>

definition Osc_SetActive :: "bool \<Rightarrow> bool \<Rightarrow> bool \<Rightarrow> bool \<Rightarrow> 'a osc_state_scheme \<Rightarrow> 'a osc_state_scheme option" where
  "Osc_SetActive state udptask usbtask async s =
     (if state \<and> \<not> Osc_active s then
        Some (s\<lparr>Osc_active := True, Osc_running := True,
                Osc_channel := replicate OSC_CHANNEL_COUNT None, Osc_subsystem := replicate OSC_SUBSYSTEM_COUNT None,
                Osc_registeredSubsystems := 0, Osc_scratch1 := True, Osc_scratch2 := True,
                Osc_tasks := (if udptask then [Osc_UdpTask] else []) @ (if usbtask then [Osc_UsbTask] else []) @
                  (if async then [Osc_AsyncTask] else [])\<rparr>)
      else if \<not> state \<and> Osc_active s then
        (if Osc_UsbTask \<in> set (Osc_tasks s) \<and> Osc_UdpTask \<in> set (Osc_tasks s) then
           Some (s\<lparr>Osc_active := False, Osc_tasks := filter (\<lambda>t. t = Osc_AsyncTask) (Osc_tasks s)\<rparr>)
         else None)
      else Some s)"

definition Osc_GetActive :: "'a osc_state_scheme \<Rightarrow> bool" where
  "Osc_GetActive s \<longleftrightarrow> Osc_active s"

definition Osc_GetRunning :: "'a osc_state_scheme \<Rightarrow> bool" where
  "Osc_GetRunning s \<longleftrightarrow> Osc_active s \<and> Osc_running s"

definition Osc_RegisterSubsystem :: "string \<Rightarrow> nat \<Rightarrow> nat option \<Rightarrow> (status, 'a osc_state_scheme) op" where
  "Osc_RegisterSubsystem name receive async s =
     (if \<not> Osc_active s then None
      else
        let subsystem = Osc_registeredSubsystems s;
            s = s\<lparr>Osc_registeredSubsystems := subsystem + 1\<rparr>
        in if subsystem > int OSC_SUBSYSTEM_COUNT then Some (CONTROLLER_ERROR_ILLEGAL_INDEX, s)
           else if subsystem \<ge> int OSC_SUBSYSTEM_COUNT then None
           else Some (CONTROLLER_OK, s\<lparr>Osc_subsystem := (Osc_subsystem s)[nat subsystem :=
                  Some \<lparr>sub_name = name, sub_receiveMessage = receive, sub_async = async\<rparr>]\<rparr>))"

subsection \<open>Channels\<close>

definition Osc_ResetChannel :: "OscChannel \<Rightarrow> OscChannel" where
  "Osc_ResetChannel ch = ch\<lparr>och_written := Some [], och_remaining := OSC_MAX_MESSAGE_OUT, och_messages := 0\<rparr>"

definition Osc_SetReplyAddress :: "int \<Rightarrow> int \<Rightarrow> (status, 'a osc_state_scheme) op" where
  "Osc_SetReplyAddress channel replyAddress s =
     (if bad_channel channel then Some (CONTROLLER_ERROR_ILLEGAL_INDEX, s)
      else do {
        ch \<leftarrow> osc_channel channel s;
        Some (CONTROLLER_OK, set_channel channel (ch\<lparr>och_replyAddress := replyAddress\<rparr>) s)
      })"

definition Osc_SetReplyPort :: "int \<Rightarrow> int \<Rightarrow> (status, 'a osc_state_scheme) op" where
  "Osc_SetReplyPort channel replyPort s =
     (if bad_channel channel then Some (CONTROLLER_ERROR_ILLEGAL_INDEX, s)
      else do {
        ch \<leftarrow> osc_channel channel s;
        Some (CONTROLLER_OK, set_channel channel (ch\<lparr>och_replyPort := replyPort\<rparr>) s)
      })"

text \<open>The semaphore of a channel is created when it is first taken.\<close>

definition Osc_Lock :: "OscChannel \<Rightarrow> status \<times> OscChannel" where
  "Osc_Lock ch =
     (let ch = (if och_semaphore ch = None then ch\<lparr>och_semaphore := Some True\<rparr> else ch)
      in if och_semaphore ch = Some True then (CONTROLLER_OK, ch\<lparr>och_semaphore := Some False\<rparr>)
         else (CONTROLLER_ERROR_LOCK_ERROR, ch))"

definition Osc_Unlock :: "OscChannel \<Rightarrow> OscChannel" where
  "Osc_Unlock ch = ch\<lparr>och_semaphore := Some True\<rparr>"

definition Osc_LockScratchBuf1 :: "'a osc_state_scheme \<Rightarrow> status \<times> 'a osc_state_scheme" where
  "Osc_LockScratchBuf1 s =
     (if Osc_scratch1 s then (CONTROLLER_OK, s\<lparr>Osc_scratch1 := False\<rparr>) else (CONTROLLER_ERROR_LOCK_ERROR, s))"

definition Osc_UnlockScratchBuf1 :: "'a osc_state_scheme \<Rightarrow> status \<times> 'a osc_state_scheme" where
  "Osc_UnlockScratchBuf1 s =
     (if Osc_scratch1 s then (CONTROLLER_ERROR_LOCK_ERROR, s) else (CONTROLLER_OK, s\<lparr>Osc_scratch1 := True\<rparr>))"

definition Osc_LockScratchBuf2 :: "'a osc_state_scheme \<Rightarrow> status \<times> 'a osc_state_scheme" where
  "Osc_LockScratchBuf2 s =
     (if Osc_scratch2 s then (CONTROLLER_OK, s\<lparr>Osc_scratch2 := False\<rparr>) else (CONTROLLER_ERROR_LOCK_ERROR, s))"

definition Osc_UnlockScratchBuf2 :: "'a osc_state_scheme \<Rightarrow> status \<times> 'a osc_state_scheme" where
  "Osc_UnlockScratchBuf2 s =
     (if Osc_scratch2 s then (CONTROLLER_ERROR_LOCK_ERROR, s) else (CONTROLLER_OK, s\<lparr>Osc_scratch2 := True\<rparr>))"

subsection \<open>Sending\<close>

definition Osc_UdpPacketSend :: "string \<Rightarrow> int \<Rightarrow> int \<Rightarrow> (int, 'a osc_state_scheme) op" where
  "Osc_UdpPacketSend packet replyAddress replyPort s =
     (if replyAddress \<noteq> 0 \<and> replyPort \<noteq> 0 then
        Some (Osc_send_result s, s\<lparr>Osc_out := Osc_out s @ [Datagram replyAddress (Osc_udpSendPort s) packet]\<rparr>)
      else Some (CONTROLLER_ERROR_NO_ADDRESS, s))"

definition Osc_UsbPacketSend :: "string \<Rightarrow> int \<Rightarrow> int \<Rightarrow> (int, 'a osc_state_scheme) op" where
  "Osc_UsbPacketSend packet replyAddress replyPort s = Some (Osc_send_result s, s\<lparr>Osc_out := Osc_out s @ [Slip packet]\<rparr>)"

text \<open>The length goes ahead as digits in an array of four bytes; bytes the digits do not reach are what the stack held.\<close>

definition Osc_TcpPacketSend :: "string \<Rightarrow> int \<Rightarrow> int \<Rightarrow> (int, 'a osc_state_scheme) op" where
  "Osc_TcpPacketSend packet replyAddress replyPort s =
     (let digits = print_int (int (length packet)) @ [NUL]
      in if length digits > 4 then None
         else
           let s = s\<lparr>Osc_out := Osc_out s @ [Stream (take 4 (digits @ Osc_stack s)), Stream packet]\<rparr>;
               s = (if Osc_send_result s = 0 then s\<lparr>Osc_tcpSocket := False\<rparr> else s)
           in Some (Osc_send_result s, s))"

definition osc_send :: "osc_sender \<Rightarrow> string \<Rightarrow> int \<Rightarrow> int \<Rightarrow> (int, 'a osc_state_scheme) op" where
  "osc_send sender =
     (case sender of UdpPacketSend \<Rightarrow> Osc_UdpPacketSend | UsbPacketSend \<Rightarrow> Osc_UsbPacketSend | TcpPacketSend \<Rightarrow> Osc_TcpPacketSend)"

definition Osc_SendPacketInternal :: "OscChannel \<Rightarrow> 'a osc_state_scheme \<Rightarrow> (status \<times> OscChannel \<times> 'a osc_state_scheme) option" where
  "Osc_SendPacketInternal ch s =
     (if och_messages ch = 0 then Some (CONTROLLER_OK, ch, s)
      else do {
        buffer \<leftarrow> och_written ch;
        sender \<leftarrow> och_sendMessage ch;
        let start = (if och_messages ch = 1 then 20 else 0);
            len = OSC_MAX_MESSAGE_OUT - och_remaining ch - start
        in if len < 0 \<or> start + len > int (length buffer) then None
           else do {
             (_, s) \<leftarrow> osc_send sender (take (nat len) (drop (nat start) buffer)) (och_replyAddress ch) (och_replyPort ch) s;
             Some (CONTROLLER_OK, Osc_ResetChannel ch, s)
           }
      })"

definition Osc_SendPacket :: "int \<Rightarrow> (status, 'a osc_state_scheme) op" where
  "Osc_SendPacket channel s =
     (if bad_channel channel then Some (CONTROLLER_ERROR_ILLEGAL_INDEX, s)
      else do {
        ch \<leftarrow> osc_channel channel s;
        if och_messages ch = 0 then Some (CONTROLLER_OK, s)
        else
          let (locked, ch) = Osc_Lock ch
          in if locked \<noteq> CONTROLLER_OK then Some (CONTROLLER_ERROR_LOCK_ERROR, s)
             else do {
               (r, ch, s) \<leftarrow> Osc_SendPacketInternal ch s;
               Some (r, set_channel channel (Osc_Unlock ch) s)
             }
      })"

text \<open>
  One attempt to append a message. The outcome is a status to return at once, with the channel still locked,
  or whether the message was written; if it was not, the collected messages have been sent.
\<close>

definition create_pass ::
  "string \<Rightarrow> string \<Rightarrow> osc_arg list \<Rightarrow> OscChannel \<Rightarrow> 'a osc_state_scheme \<Rightarrow> ((status + bool) \<times> OscChannel \<times> 'a osc_state_scheme) option" where
  "create_pass address format args ch s =
     do {
       written \<leftarrow> och_written ch;
       (case (if written = [] then Osc_CreateBundle (och_remaining ch) 0 0 else (Some [], och_remaining ch)) of
          (None, len) \<Rightarrow> Some (Inl CONTROLLER_ERROR_INSUFFICIENT_RESOURCES, ch, s)
        | (Some head, len) \<Rightarrow>
            do {
              let len = len - 4;
              (msg, len) \<leftarrow> (if len > 0 then Osc_CreateMessageInternal len address format args else Some (None, len));
              (case msg of
                 Some m \<Rightarrow>
                   Some (Inr True,
                     ch\<lparr>och_written := Some (written @ head @ store_int (Osc_EndianSwap (of_nat (length m))) @ m),
                        och_remaining := len, och_messages := och_messages ch + 1\<rparr>, s)
               | None \<Rightarrow> map_option (\<lambda>(_, ch, s). (Inr False, ch, s)) (Osc_SendPacketInternal ch s))
            })
     }"

definition Osc_CreateMessage :: "int \<Rightarrow> string \<Rightarrow> string \<Rightarrow> osc_arg list \<Rightarrow> (status, 'a osc_state_scheme) op" where
  "Osc_CreateMessage channel address format args s =
     (if format = [] \<or> hd format \<noteq> CHR '','' then Some (CONTROLLER_ERROR_BAD_DATA, s)
      else if bad_channel channel then Some (CONTROLLER_ERROR_ILLEGAL_INDEX, s)
      else do {
        ch \<leftarrow> osc_channel channel s;
        if \<not> och_running ch then Some (CONTROLLER_ERROR_SUBSYSTEM_INACTIVE, s)
        else if channel = OSC_CHANNEL_UDP \<and> och_replyAddress ch = 0 then Some (CONTROLLER_ERROR_NO_ADDRESS, s)
        else if och_sendMessage ch = None then Some (CONTROLLER_ERROR_RESOURCE_MISSING, s)
        else
          let (locked, ch) = Osc_Lock ch
          in if locked \<noteq> CONTROLLER_OK then Some (CONTROLLER_ERROR_LOCK_ERROR, s)
             else
               let ch = (if och_written ch = None then Osc_ResetChannel ch else ch)
               in do {
                    (r, ch, s) \<leftarrow> create_pass address format args ch s;
                    (r, ch, s) \<leftarrow> (if r = Inr False then create_pass address format args ch s else Some (r, ch, s));
                    Some (case r of
                            Inl e \<Rightarrow> (e, set_channel channel ch s)
                          | Inr ok \<Rightarrow>
                              (if ok then CONTROLLER_OK else CONTROLLER_ERROR_ILLEGAL_PARAMETER_VALUE, set_channel channel (Osc_Unlock ch) s))
                  }
      })"

definition Osc_Quicky :: "int \<Rightarrow> string \<Rightarrow> string \<Rightarrow> (status, 'a osc_state_scheme) op" where
  "Osc_Quicky channel preamble str = Osc_CreateMessage channel ''/debug'' '',ss'' [Arg_string preamble, Arg_string str]"

end
