(* ===== verification/OscReceive.thy ===== *)
theory OscReceive
  imports Osc
begin

text \<open>
  Receiving in the OSC system (\<^verbatim>\<open>src/firmware/core/makingthings/osc.c\<close>): a packet is a message or a bundle of elements; a message
  goes to every registered subsystem whose name its address matches, and the helpers of a subsystem set or report
  properties. A message is read where it lies in the incoming buffer of its channel, in which the code replaces slashes by string
  terminators while it works.
\<close>

subsection \<open>The incoming buffer\<close>

definition osc_mem :: "int \<Rightarrow> 'a osc_state_scheme \<Rightarrow> string option" where
  "osc_mem channel s = map_option och_incoming (osc_channel channel s)"

definition osc_byte :: "int \<Rightarrow> int \<Rightarrow> 'a osc_state_scheme \<Rightarrow> char option" where
  "osc_byte channel p s =
     do {
       mem \<leftarrow> osc_mem channel s;
       if 0 \<le> p \<and> p < int (length mem) then Some (mem ! nat p) else None
     }"

definition osc_poke :: "int \<Rightarrow> int \<Rightarrow> char \<Rightarrow> 'a osc_state_scheme \<Rightarrow> 'a osc_state_scheme option" where
  "osc_poke channel p c s =
     do {
       ch \<leftarrow> osc_channel channel s;
       if 0 \<le> p \<and> p < int (length (och_incoming ch))
       then Some (set_channel channel (ch\<lparr>och_incoming := (och_incoming ch)[nat p := c]\<rparr>) s)
       else None
     }"

definition osc_string :: "int \<Rightarrow> int \<Rightarrow> 'a osc_state_scheme \<Rightarrow> string option" where
  "osc_string channel p s = osc_mem channel s \<bind> (\<lambda>mem. c_string mem p)"

text \<open>\<^verbatim>\<open>strcmp\<close> reads up to the first difference.\<close>

fun strcmp_eq :: "string \<Rightarrow> string \<Rightarrow> bool option" where
  "strcmp_eq [] t = None"
| "strcmp_eq (c # m) [] = Some (c = NUL)"
| "strcmp_eq (c # m) (x # t) = (if c = x then strcmp_eq m t else Some False)"

text \<open>\<^verbatim>\<open>strchr\<close> for a slash: how far it is.\<close>

definition slash_at :: "string \<Rightarrow> nat option" where
  "slash_at str = (let k = length (takeWhile (\<lambda>c. c \<noteq> CHR ''/'') str) in if k < length str then Some k else None)"

subsection \<open>Replies\<close>

text \<open>A reply whose address, or text, is put together in a scratch buffer of 100 bytes.\<close>

definition scratch :: "string \<Rightarrow> string" where
  "scratch str = take 99 str"

definition scratch_reply :: "int \<Rightarrow> string \<Rightarrow> string \<Rightarrow> osc_arg list \<Rightarrow> (status, 'a osc_state_scheme) op" where
  "scratch_reply channel address format args s =
     do {
       let (_, s) = Osc_LockScratchBuf1 s;
       (r, s) \<leftarrow> Osc_CreateMessage channel address format args s;
       let (_, s) = Osc_UnlockScratchBuf1 s;
       Some (r, s)
     }"

definition Osc_SubsystemError :: "int \<Rightarrow> string \<Rightarrow> string \<Rightarrow> (status, 'a osc_state_scheme) op" where
  "Osc_SubsystemError channel subsystem str =
     scratch_reply channel (scratch (''/'' @ subsystem @ ''/error'')) '',s'' [Arg_string str]"

definition Osc_SendError :: "int \<Rightarrow> string \<Rightarrow> status \<Rightarrow> (status, 'a osc_state_scheme) op" where
  "Osc_SendError channel subsystemName error =
     Osc_SubsystemError channel subsystemName
       (if error = CONTROLLER_ERROR_UNKNOWN_PROPERTY then ''Unknown Property''
        else if error = CONTROLLER_ERROR_NO_PROPERTY then ''No Property''
        else if error = CONTROLLER_ERROR_INCORRECT_DATA_TYPE then ''Incorrect Data Type''
        else if error = CONTROLLER_ERROR_ILLEGAL_INDEX then ''Bad Index''
        else if error = CONTROLLER_ERROR_BAD_FORMAT then ''Bad Format''
        else if error = CONTROLLER_ERROR_NO_TYPE_TAG then ''No Type Tag''
        else if error = CONTROLLER_ERROR_BAD_DATA then ''Bad Data''
        else ''Error'')"

text \<open>One message for each of some items.\<close>

primrec each :: "('b \<Rightarrow> 'a osc_state_scheme \<Rightarrow> 'a osc_state_scheme option) \<Rightarrow> 'b list \<Rightarrow> 'a osc_state_scheme \<Rightarrow> 'a osc_state_scheme option" where
  "each f [] s = Some s"
| "each f (x # xs) s = f x s \<bind> each f xs"

definition done_with :: "('r \<times> 's) option \<Rightarrow> 's option" where
  "done_with r = map_option snd r"

subsection \<open>Messages\<close>

definition osc_sub :: "nat \<Rightarrow> 'a osc_state_scheme \<Rightarrow> OscSubsystem option" where
  "osc_sub i s = (if Osc_active s \<and> i < OSC_SUBSYSTEM_COUNT then Osc_subsystem s ! i else None)"

text \<open>
  The subsystems are asked in the order they registered. A matching one gets what follows the slash, or the end
  of the message. The number of matches is counted.
\<close>

primrec receive_loop ::
  "(nat \<Rightarrow> int \<Rightarrow> int \<Rightarrow> int \<Rightarrow> (status, 'a osc_state_scheme) op) \<Rightarrow> int \<Rightarrow> int \<Rightarrow> int \<Rightarrow> int option \<Rightarrow> nat list \<Rightarrow>
    nat \<Rightarrow> (nat, 'a osc_state_scheme) op" where
  "receive_loop recv channel p len slash [] count s = Some (count, s)"
| "receive_loop recv channel p len slash (i # is) count s =
     do {
       sub \<leftarrow> osc_sub i s;
       pattern \<leftarrow> osc_string channel (p + 1) s;
       if Osc_PatternMatch pattern (sub_name sub) then
         do {
           (_, s) \<leftarrow> (case slash of
                         Some q \<Rightarrow> recv (sub_receiveMessage sub) channel (q + 1) (len - (q - p) - 1) s
                       | None \<Rightarrow> osc_string channel p s \<bind>
                           (\<lambda>m. recv (sub_receiveMessage sub) channel (p + int (length m)) 0 s));
           receive_loop recv channel p len slash is (Suc count) s
         }
       else receive_loop recv channel p len slash is count s
     }"

definition Osc_ReceiveMessage ::
  "(nat \<Rightarrow> int \<Rightarrow> int \<Rightarrow> int \<Rightarrow> (status, 'a osc_state_scheme) op) \<Rightarrow> int \<Rightarrow> int \<Rightarrow> int \<Rightarrow> (status, 'a osc_state_scheme) op" where
  "Osc_ReceiveMessage recv channel p len s =
     do {
       c \<leftarrow> osc_byte channel p s;
       if c \<noteq> CHR ''/'' then Some (CONTROLLER_ERROR_BAD_DATA, s)
       else do {
         message \<leftarrow> osc_string channel p s;
         if int (length message) > len mod 2 ^ 32 then Some (CONTROLLER_ERROR_BAD_DATA, s)
         else do {
           next_char \<leftarrow> osc_byte channel (p + 1) s;
           if next_char = NUL \<or> next_char = CHR '' '' then
             do {
               s \<leftarrow> each (\<lambda>i s. osc_sub i s \<bind> (\<lambda>sub. done_with (Osc_CreateMessage channel ''/'' '',s'' [Arg_string (sub_name sub)] s)))
                     [0..<nat (Osc_registeredSubsystems s)] s;
               Some (CONTROLLER_OK, s)
             }
           else
             let slash = map_option (\<lambda>k. p + 1 + int k) (slash_at (tl message))
             in do {
               s \<leftarrow> (case slash of Some q \<Rightarrow> osc_poke channel q NUL s | None \<Rightarrow> Some s);
               (count, s) \<leftarrow> receive_loop recv channel p len slash [0..<nat (Osc_registeredSubsystems s)] 0 s;
               s \<leftarrow> (if count = 0 then
                        osc_string channel (p + 1) s \<bind>
                          (\<lambda>m. done_with (scratch_reply channel ''/error'' '',s'' [Arg_string (scratch (''No Subsystem Match - '' @ m))] s))
                      else Some s);
               Some (CONTROLLER_OK, s)
             }
         }
       }
     }"

text \<open>
  A packet, and the elements of a bundle from a position on. An element is a packet again; its length comes
  first and is not required to be positive.
\<close>

datatype osc_job = Packet | Elements

partial_function (option) osc_receive ::
  "(nat \<Rightarrow> int \<Rightarrow> int \<Rightarrow> int \<Rightarrow> (status, 'a osc_state_scheme) op) \<Rightarrow> int \<Rightarrow> osc_job \<Rightarrow> int \<Rightarrow> int \<Rightarrow> (status, 'a osc_state_scheme) op" where
  "osc_receive recv channel job p len s =
     (case job of
        Packet \<Rightarrow>
          do {
            c \<leftarrow> osc_byte channel p s;
            s \<leftarrow> (if c = CHR ''/'' then done_with (Osc_ReceiveMessage recv channel p len s)
                   else if c = CHR ''#'' then
                     do {
                       m \<leftarrow> osc_mem channel s \<bind> (\<lambda>mem. mem_at mem p);
                       bundle \<leftarrow> strcmp_eq m ''#bundle'';
                       if bundle then osc_receive recv channel Elements (p + 16) (len - 16) s \<bind> (\<lambda>(r, s). Some s) else Some s
                     }
                   else done_with (Osc_CreateMessage channel ''/error'' '',s'' [Arg_string ''Packet Error''] s));
            Osc_SendPacket channel s
          }
      | Elements \<Rightarrow>
          (if len > 0 then
             do {
               mem \<leftarrow> osc_mem channel s;
               n \<leftarrow> Osc_ReadInt mem p;
               let p = p + 4; len = len - 4 in
               do {
                 s \<leftarrow> (if n \<le> len then osc_receive recv channel Packet p n s \<bind> (\<lambda>(r, s). Some s) else Some s);
                 osc_receive recv channel Elements (p + n) (c_int (len - n)) s
               }
             }
           else Some (CONTROLLER_OK, s)))"

definition Osc_ReceivePacket ::
  "(nat \<Rightarrow> int \<Rightarrow> int \<Rightarrow> int \<Rightarrow> (status, 'a osc_state_scheme) op) \<Rightarrow> int \<Rightarrow> int \<Rightarrow> int \<Rightarrow> (status, 'a osc_state_scheme) op" where
  "Osc_ReceivePacket recv channel p len s = osc_receive recv channel Packet p len s"

subsection \<open>Helpers of a subsystem\<close>

text \<open>The loop over the indices whose bit is set.\<close>

primrec bit_loop :: "(nat \<Rightarrow> 'a osc_state_scheme \<Rightarrow> 'a osc_state_scheme option) \<Rightarrow> nat list \<Rightarrow> int \<Rightarrow> 'a osc_state_scheme \<Rightarrow> 'a osc_state_scheme option" where
  "bit_loop f [] bits s = Some s"
| "bit_loop f (i # is) bits s =
     (if bits > 0 then (if odd bits then f i s else Some s) \<bind> bit_loop f is (drop_bit 1 bits) else Some s)"

text \<open>The selected indices: a single number, or those of the bits.\<close>

definition each_index :: "int \<Rightarrow> int \<Rightarrow> nat \<Rightarrow> (int \<Rightarrow> 'a osc_state_scheme \<Rightarrow> 'a osc_state_scheme option) \<Rightarrow> 'a osc_state_scheme \<Rightarrow> 'a osc_state_scheme option" where
  "each_index number bits count f s = (if number \<noteq> - 1 then f number s else bit_loop (\<lambda>i. f (int i)) [0..<count] bits s)"

definition help_names :: "int \<Rightarrow> string \<Rightarrow> string list \<Rightarrow> (status, 'a osc_state_scheme) op" where
  "help_names channel address names s =
     map_option (\<lambda>s. (CONTROLLER_OK, s))
       (each (\<lambda>name s. done_with (scratch_reply channel (scratch address) '',s'' [Arg_string name] s)) names s)"

definition Osc_IntReceiverHelper ::
  "int \<Rightarrow> int \<Rightarrow> int \<Rightarrow> string \<Rightarrow> (int \<Rightarrow> int \<Rightarrow> (status, 'a osc_state_scheme) op) \<Rightarrow> (int \<Rightarrow> (int, 'a osc_state_scheme) op) \<Rightarrow> string list \<Rightarrow>
    (status, 'a osc_state_scheme) op" where
  "Osc_IntReceiverHelper channel p len subsystemName propertySet propertyGet propertyNames s =
     do {
       c \<leftarrow> osc_byte channel p s;
       if c = NUL \<or> c = CHR '' '' then help_names channel (''/'' @ subsystemName) propertyNames s
       else do {
         message \<leftarrow> osc_string channel p s;
         let propertyIndex = Osc_PropertyLookup propertyNames message in
         if propertyIndex = - 1 then Some (CONTROLLER_ERROR_UNKNOWN_PROPERTY, s)
         else do {
           mem \<leftarrow> osc_mem channel s;
           tag \<leftarrow> Osc_FindDataTag mem p len;
           (case tag of
              None \<Rightarrow> Some (CONTROLLER_ERROR_NO_TYPE_TAG, s)
            | Some tag \<Rightarrow>
                do {
                  t \<leftarrow> osc_byte channel (tag + 1) s;
                  if t = CHR ''i'' \<or> t = CHR ''f'' then
                    Osc_ExtractData mem tag ''i'' \<bind>
                      (\<lambda>vs. case vs of
                         [Val_int v] \<Rightarrow> propertySet propertyIndex v s \<bind> (\<lambda>(_, s). Some (CONTROLLER_OK, s))
                       | _ \<Rightarrow> Some (CONTROLLER_ERROR_BAD_DATA, s))
                  else do {
                    (v, s) \<leftarrow> propertyGet propertyIndex s;
                    (_, s) \<leftarrow> scratch_reply channel (scratch (''/'' @ subsystemName @ ''/'' @ propertyNames ! nat propertyIndex)) '',i''
                      [Arg_int (word_of_int v)] s;
                    Some (CONTROLLER_OK, s)
                  }
                })
         }
       }
     }"

text \<open>
  The index part of an address: the pattern of the index is cut off at the slash for a moment. Without a slash the
  code writes through the null pointer; with one it reads through another null pointer, at \<^verbatim>\<open>*propHelp\<close>.
\<close>

definition index_of :: "int \<Rightarrow> int \<Rightarrow> int \<Rightarrow> nat \<Rightarrow> ((int \<times> int) option, 'a osc_state_scheme) op" where
  "index_of channel p prop indexCount s =
     do {
       s \<leftarrow> osc_poke channel prop NUL s;
       message \<leftarrow> osc_string channel p s;
       let (number, bits) = Osc_NumberMatch indexCount message in
       if number = - 1 \<and> bits = - 1 then Some (None, s)
       else do {
         s \<leftarrow> osc_poke channel prop (CHR ''/'') s;
         Some (Some (number, bits), s)
       }
     }"

definition Osc_IndexIntReceiverHelper ::
  "int \<Rightarrow> int \<Rightarrow> int \<Rightarrow> nat \<Rightarrow> string \<Rightarrow> (int \<Rightarrow> int \<Rightarrow> int \<Rightarrow> (status, 'a osc_state_scheme) op) \<Rightarrow>
    (int \<Rightarrow> int \<Rightarrow> (int, 'a osc_state_scheme) op) \<Rightarrow> string list \<Rightarrow> (status, 'a osc_state_scheme) op" where
  "Osc_IndexIntReceiverHelper channel p len indexCount subsystemName propertySet propertyGet propertyNames s =
     do {
       c \<leftarrow> osc_byte channel p s;
       if c = NUL \<or> c = CHR '' '' then
         map_option (\<lambda>s. (CONTROLLER_OK, s))
           (each (\<lambda>i s. done_with (scratch_reply channel (scratch (''/'' @ subsystemName)) '',i'' [Arg_int (of_nat i)] s)) [0..<indexCount] s)
       else do {
         message \<leftarrow> osc_string channel p s;
         prop \<leftarrow> map_option (\<lambda>k. p + int k) (slash_at message);
         (index, s) \<leftarrow> index_of channel p prop indexCount s;
         (case index of
            None \<Rightarrow> Some (CONTROLLER_ERROR_ILLEGAL_INDEX, s)
          | Some (number, bits) \<Rightarrow>
              do {
                help \<leftarrow> Osc_null s;
                if help = NUL \<or> help = CHR '' '' then help_names channel (''/'' @ subsystemName @ ''/'' @ print_int number) propertyNames s
                else do {
                  property \<leftarrow> osc_string channel (prop + 1) s;
                  let propertyIndex = Osc_PropertyLookup propertyNames property in
                  if propertyIndex = - 1 then Some (CONTROLLER_ERROR_UNKNOWN_PROPERTY, s)
                  else do {
                    mem \<leftarrow> osc_mem channel s;
                    tag \<leftarrow> Osc_FindDataTag mem p len;
                    (case tag of
                       None \<Rightarrow> Some (CONTROLLER_ERROR_NO_TYPE_TAG, s)
                     | Some tag \<Rightarrow>
                         do {
                           t \<leftarrow> osc_byte channel (tag + 1) s;
                           if t = CHR ''i'' \<or> t = CHR ''f'' then
                             Osc_ExtractData mem tag ''i'' \<bind>
                               (\<lambda>vs. case vs of
                                  [Val_int v] \<Rightarrow>
                                    map_option (\<lambda>s. (CONTROLLER_OK, s))
                                      (each_index number bits indexCount (\<lambda>i s. done_with (propertySet i propertyIndex v s)) s)
                                | _ \<Rightarrow> Some (CONTROLLER_ERROR_INCORRECT_DATA_TYPE, s))
                           else
                             map_option (\<lambda>s. (CONTROLLER_OK, s))
                               (each_index number bits indexCount
                                 (\<lambda>i s. do {
                                    (v, s) \<leftarrow> propertyGet i propertyIndex s;
                                    done_with (scratch_reply channel
                                      (scratch (''/'' @ subsystemName @ ''/'' @ print_int i @ ''/'' @ propertyNames ! nat propertyIndex))
                                      '',i'' [Arg_int (word_of_int v)] s)
                                  }) s)
                         })
                  }
                }
              })
       }
     }"

definition Osc_GeneralReceiverHelper ::
  "int \<Rightarrow> int \<Rightarrow> int \<Rightarrow> string \<Rightarrow> (int \<Rightarrow> int \<Rightarrow> int \<Rightarrow> (status, 'a osc_state_scheme) op) \<Rightarrow>
    (int \<Rightarrow> int \<Rightarrow> (status, 'a osc_state_scheme) op) \<Rightarrow> string list \<Rightarrow> (status, 'a osc_state_scheme) op" where
  "Osc_GeneralReceiverHelper channel p len subsystemName propertySet propertyGet propertyNames s =
     do {
       c \<leftarrow> osc_byte channel p s;
       if c = NUL \<or> c = CHR '' '' then help_names channel (''/'' @ subsystemName) propertyNames s
       else do {
         message \<leftarrow> osc_string channel p s;
         let propertyIndex = Osc_PropertyLookup propertyNames message in
         if propertyIndex = - 1 then Some (CONTROLLER_ERROR_UNKNOWN_PROPERTY, s)
         else do {
           mem \<leftarrow> osc_mem channel s;
           tag \<leftarrow> Osc_FindDataTag mem p len;
           (case tag of
              None \<Rightarrow> Osc_SubsystemError channel subsystemName ''No type tag'' s
            | Some tag \<Rightarrow>
                do {
                  t \<leftarrow> osc_byte channel (tag + 1) s;
                  if t \<noteq> NUL then
                    do {
                      (r, s) \<leftarrow> propertySet propertyIndex tag channel s;
                      Some (if r \<noteq> CONTROLLER_OK then CONTROLLER_ERROR_BAD_DATA else CONTROLLER_OK, s)
                    }
                  else propertyGet propertyIndex channel s \<bind> (\<lambda>(_, s). Some (CONTROLLER_OK, s))
                })
         }
       }
     }"

text \<open>
  A blob property is read into the first scratch buffer and its address put together in the second; the getter returns
  the size and the contents.
\<close>

definition blob_reply :: "int \<Rightarrow> string \<Rightarrow> (int \<times> string, 'a osc_state_scheme) op \<Rightarrow> 'a osc_state_scheme \<Rightarrow> 'a osc_state_scheme option" where
  "blob_reply channel address get s =
     do {
       let (_, s) = Osc_LockScratchBuf1 s;
       let (_, s) = Osc_LockScratchBuf2 s;
       ((n, contents), s) \<leftarrow> get s;
       if n < 0 \<or> n > int (length contents) then None
       else do {
         (_, s) \<leftarrow> Osc_CreateMessage channel (scratch address) '',b'' [Arg_blob (take (nat n) contents)] s;
         let (_, s) = Osc_UnlockScratchBuf1 s;
         let (_, s) = Osc_UnlockScratchBuf2 s;
         Some s
       }
     }"

definition Osc_BlobReceiverHelper ::
  "int \<Rightarrow> int \<Rightarrow> int \<Rightarrow> string \<Rightarrow> (int \<Rightarrow> int \<Rightarrow> int \<Rightarrow> (status, 'a osc_state_scheme) op) \<Rightarrow>
    (int \<Rightarrow> (int \<times> string, 'a osc_state_scheme) op) \<Rightarrow> string list \<Rightarrow> (status, 'a osc_state_scheme) op" where
  "Osc_BlobReceiverHelper channel p len subsystemName blobPropertySet blobPropertyGet blobPropertyNames s =
     do {
       message \<leftarrow> osc_string channel p s;
       let propertyIndex = Osc_PropertyLookup blobPropertyNames message in
       if propertyIndex = - 1 then Some (CONTROLLER_ERROR_UNKNOWN_PROPERTY, s)
       else do {
         mem \<leftarrow> osc_mem channel s;
         tag \<leftarrow> Osc_FindDataTag mem p len;
         (case tag of
            None \<Rightarrow> Some (CONTROLLER_ERROR_NO_TYPE_TAG, s)
          | Some tag \<Rightarrow>
              do {
                t \<leftarrow> osc_byte channel (tag + 1) s;
                if t = CHR ''b'' then
                  Osc_ExtractData mem tag ''b'' \<bind>
                    (\<lambda>vs. case vs of
                       [Val_blob q n] \<Rightarrow> blobPropertySet propertyIndex q n s \<bind> (\<lambda>(_, s). Some (CONTROLLER_OK, s))
                     | _ \<Rightarrow> Some (CONTROLLER_ERROR_BAD_DATA, s))
                else if t = CHR ''s'' then
                  Osc_ExtractData mem tag ''s'' \<bind>
                    (\<lambda>vs. case vs of
                       [Val_string q] \<Rightarrow>
                         c_string mem q \<bind>
                           (\<lambda>str. blobPropertySet propertyIndex q (int (length str)) s \<bind> (\<lambda>(_, s). Some (CONTROLLER_OK, s)))
                     | _ \<Rightarrow> Some (CONTROLLER_ERROR_BAD_DATA, s))
                else if t \<noteq> NUL then Some (CONTROLLER_ERROR_BAD_DATA, s)
                else
                  map_option (\<lambda>s. (CONTROLLER_OK, s))
                    (blob_reply channel (''/'' @ subsystemName @ ''/'' @ blobPropertyNames ! nat propertyIndex) (blobPropertyGet propertyIndex) s)
              })
       }
     }"

definition Osc_IndexBlobReceiverHelper ::
  "int \<Rightarrow> int \<Rightarrow> int \<Rightarrow> nat \<Rightarrow> string \<Rightarrow> (int \<Rightarrow> int \<Rightarrow> int \<Rightarrow> int \<Rightarrow> (status, 'a osc_state_scheme) op) \<Rightarrow>
    (int \<Rightarrow> int \<Rightarrow> (int \<times> string, 'a osc_state_scheme) op) \<Rightarrow> string list \<Rightarrow> (status, 'a osc_state_scheme) op" where
  "Osc_IndexBlobReceiverHelper channel p len indexCount subsystemName blobPropertySet blobPropertyGet blobPropertyNames s =
     do {
       message \<leftarrow> osc_string channel p s;
       (case slash_at message of
          None \<Rightarrow> Some (CONTROLLER_ERROR_BAD_FORMAT, s)
        | Some k \<Rightarrow>
            let prop = p + int k in
            do {
              property \<leftarrow> osc_string channel (prop + 1) s;
              let propertyIndex = Osc_PropertyLookup blobPropertyNames property in
              if propertyIndex = - 1 then Some (CONTROLLER_ERROR_UNKNOWN_PROPERTY, s)
              else do {
                (index, s) \<leftarrow> index_of channel p prop indexCount s;
                (case index of
                   None \<Rightarrow> Some (CONTROLLER_ERROR_ILLEGAL_INDEX, s)
                 | Some (number, bits) \<Rightarrow>
                     do {
                       mem \<leftarrow> osc_mem channel s;
                       tag \<leftarrow> Osc_FindDataTag mem p len;
                       (case tag of
                          None \<Rightarrow> Some (CONTROLLER_ERROR_NO_TYPE_TAG, s)
                        | Some tag \<Rightarrow>
                            do {
                              t \<leftarrow> osc_byte channel (tag + 1) s;
                              if t = CHR ''b'' \<or> t = CHR ''s'' then
                                Osc_ExtractData mem tag ''b'' \<bind>
                                  (\<lambda>vs. case vs of
                                     [Val_blob q n] \<Rightarrow>
                                       map_option (\<lambda>s. (CONTROLLER_OK, s))
                                         (each_index number bits indexCount (\<lambda>i s. done_with (blobPropertySet i propertyIndex q n s)) s)
                                   | _ \<Rightarrow> Some (CONTROLLER_ERROR_INCORRECT_DATA_TYPE, s))
                              else
                                map_option (\<lambda>s. (CONTROLLER_OK, s))
                                  (each_index number bits indexCount
                                    (\<lambda>i. blob_reply channel
                                       (''/'' @ subsystemName @ ''/'' @ print_int i @ ''/'' @ blobPropertyNames ! nat propertyIndex)
                                       (blobPropertyGet i propertyIndex)) s)
                            })
                     })
              }
            })
     }"

subsection \<open>Tasks\<close>

text \<open>
  What each task does to its new channel before its loop, and one pass of the loop, given what the network or USB function received.
  The contents of a new channel are those of \<open>Osc_fresh\<close>. The management of the TCP socket is not modelled.
\<close>

definition Osc_UdpTask_start :: "'a osc_state_scheme \<Rightarrow> 'a osc_state_scheme option" where
  "Osc_UdpTask_start s =
     (if Osc_active s then
        Some (set_channel OSC_CHANNEL_UDP
          ((Osc_ResetChannel ((Osc_fresh s)\<lparr>och_replyPort := Osc_udpSendPort s, och_sendMessage := Some UdpPacketSend\<rparr>))\<lparr>och_running := True\<rparr>) s)
      else None)"

definition Osc_UsbTask_start :: "'a osc_state_scheme \<Rightarrow> 'a osc_state_scheme option" where
  "Osc_UsbTask_start s =
     (if Osc_active s then
        Some (set_channel OSC_CHANNEL_USB
          ((Osc_ResetChannel ((Osc_fresh s)\<lparr>och_sendMessage := Some UsbPacketSend\<rparr>))\<lparr>och_running := True\<rparr>) s)
      else None)"

definition Osc_TcpTask_start :: "'a osc_state_scheme \<Rightarrow> 'a osc_state_scheme option" where
  "Osc_TcpTask_start s =
     (if Osc_active s then
        Some (set_channel OSC_CHANNEL_TCP
          ((Osc_ResetChannel ((Osc_fresh s)\<lparr>och_sendMessage := Some TcpPacketSend\<rparr>))\<lparr>och_running := True, och_semaphore := None\<rparr>) s)
      else None)"

text \<open>The received bytes are put at the beginning of the incoming buffer.\<close>

definition osc_incoming :: "int \<Rightarrow> string \<Rightarrow> 'a osc_state_scheme \<Rightarrow> 'a osc_state_scheme option" where
  "osc_incoming channel bytes s =
     do {
       ch \<leftarrow> osc_channel channel s;
       Some (set_channel channel (ch\<lparr>och_incoming := bytes @ drop (length bytes) (och_incoming ch)\<rparr>) s)
     }"

definition Osc_UdpTask_pass ::
  "(nat \<Rightarrow> int \<Rightarrow> int \<Rightarrow> int \<Rightarrow> (status, 'a osc_state_scheme) op) \<Rightarrow> int \<Rightarrow> string \<Rightarrow> 'a osc_state_scheme \<Rightarrow> 'a osc_state_scheme option" where
  "Osc_UdpTask_pass recv address bytes s =
     (if bytes = [] then Some s
      else do {
        s \<leftarrow> osc_incoming OSC_CHANNEL_UDP bytes s;
        (_, s) \<leftarrow> Osc_SetReplyAddress OSC_CHANNEL_UDP address s;
        done_with (Osc_ReceivePacket recv OSC_CHANNEL_UDP 0 (int (length bytes)) s)
      })"

definition Osc_UsbTask_pass ::
  "(nat \<Rightarrow> int \<Rightarrow> int \<Rightarrow> int \<Rightarrow> (status, 'a osc_state_scheme) op) \<Rightarrow> string \<Rightarrow> 'a osc_state_scheme \<Rightarrow> 'a osc_state_scheme option" where
  "Osc_UsbTask_pass recv bytes s =
     (if bytes = [] then Some s
      else do {
        s \<leftarrow> osc_incoming OSC_CHANNEL_USB bytes s;
        done_with (Osc_ReceivePacket recv OSC_CHANNEL_USB 0 (int (length bytes)) s)
      })"

text \<open>On TCP the packet is taken to start behind four bytes of length.\<close>

definition Osc_TcpTask_pass ::
  "(nat \<Rightarrow> int \<Rightarrow> int \<Rightarrow> int \<Rightarrow> (status, 'a osc_state_scheme) op) \<Rightarrow> string \<Rightarrow> 'a osc_state_scheme \<Rightarrow> 'a osc_state_scheme option" where
  "Osc_TcpTask_pass recv bytes s =
     (if bytes = [] then Some s
      else do {
        s \<leftarrow> osc_incoming OSC_CHANNEL_TCP bytes s;
        done_with (Osc_ReceivePacket recv OSC_CHANNEL_TCP 4 (int (length bytes) - 4) s)
      })"

text \<open>The asynchronous task asks every subsystem for messages and sends them; the destination is a channel, or negative.\<close>

primrec async_loop :: "(nat \<Rightarrow> int \<Rightarrow> (int, 'a osc_state_scheme) op) \<Rightarrow> int \<Rightarrow> nat list \<Rightarrow> int \<Rightarrow> (int, 'a osc_state_scheme) op" where
  "async_loop poll channel [] newMsgs s = Some (newMsgs, s)"
| "async_loop poll channel (i # is) newMsgs s =
     do {
       sub \<leftarrow> osc_sub i s;
       (n, s) \<leftarrow> (case sub_async sub of Some a \<Rightarrow> poll a channel s | None \<Rightarrow> Some (0, s));
       async_loop poll channel is (c_int (newMsgs + n)) s
     }"

definition Osc_AsyncTask_pass :: "(nat \<Rightarrow> int \<Rightarrow> (int, 'a osc_state_scheme) op) \<Rightarrow> int \<Rightarrow> int \<Rightarrow> (int, 'a osc_state_scheme) op" where
  "Osc_AsyncTask_pass poll channel newMsgs s =
     (if channel < 0 then Some (newMsgs, s)
      else do {
        (newMsgs, s) \<leftarrow> async_loop poll channel [0..<nat (Osc_registeredSubsystems s)] newMsgs s;
        if newMsgs > 0 then Osc_SendPacket channel s \<bind> (\<lambda>(_, s). Some (0, s)) else Some (newMsgs, s)
      })"

end
