(* ===== verification/OscOutbox.thy ===== *)
theory OscOutbox
  imports OscReceive
begin

text \<open>
  What the channels of the OSC system promise (\<^verbatim>\<open>src/firmware/core/makingthings/osc.c\<close>): the buffer of a channel stands for the list of
  the messages it holds, and a sequence of messages and send requests refines an outbox that keeps, sends and never
  loses or reorders the messages it accepted.
\<close>

subsection \<open>What a channel holds\<close>

text \<open>The buffer that collects some messages, and the packet it becomes: a single message travels without the bundle.\<close>

definition bundle_head :: string where
  "bundle_head = padded ''#bundle'' @ store_int (Osc_EndianSwap 0) @ store_int (Osc_EndianSwap 0)"

definition element :: "string \<Rightarrow> string" where
  "element m = store_int (Osc_EndianSwap (of_nat (length m))) @ m"

definition buffer_of :: "string list \<Rightarrow> string" where
  "buffer_of ms = (if ms = [] then [] else bundle_head @ concat (map element ms))"

definition packet_of :: "string list \<Rightarrow> string" where
  "packet_of ms = (if length ms = 1 then hd ms else buffer_of ms)"

definition holds_messages :: "OscChannel \<Rightarrow> string list \<Rightarrow> bool" where
  "holds_messages ch ms \<longleftrightarrow>
     och_written ch = Some (buffer_of ms) \<and> och_messages ch = int (length ms) \<and>
     och_remaining ch = OSC_MAX_MESSAGE_OUT - int (length (buffer_of ms)) \<and> 0 \<le> och_remaining ch"

definition fits :: "string list \<Rightarrow> bool" where
  "fits ms \<longleftrightarrow> int (length (buffer_of ms)) \<le> OSC_MAX_MESSAGE_OUT"

lemma length_bundle_head [simp]: "length bundle_head = 16"
  by code_simp

lemma length_element [simp]: "length (element m) = length m + 4"
  by (simp add: element_def)

lemma bundle_written:
  "Osc_CreateBundle len 0 0 = (if 16 \<le> len then (Some bundle_head, len - 16) else (None, len - 8))"
proof -
  have "length (padded ''#bundle'') = 8" by code_simp
  then show ?thesis by (auto simp: Osc_CreateBundle_def WritePaddedString_eq Osc_WriteTimetag_def bundle_head_def)
qed

lemma buffer_snoc:
  "buffer_of (ms @ [m]) = (if ms = [] then bundle_head else buffer_of ms) @ element m"
  by (simp add: buffer_of_def)

text \<open>What sending a packet does to the state.\<close>

definition emitted :: "OscChannel \<Rightarrow> 'a osc_state_scheme \<Rightarrow> string \<Rightarrow> osc_sent list" where
  "emitted ch s packet =
     (case och_sendMessage ch of
        Some UdpPacketSend \<Rightarrow>
          (if och_replyAddress ch \<noteq> 0 \<and> och_replyPort ch \<noteq> 0 then [Datagram (och_replyAddress ch) (Osc_udpSendPort s) packet] else [])
      | Some UsbPacketSend \<Rightarrow> [Slip packet]
      | Some TcpPacketSend \<Rightarrow> [Stream (take 4 (print_int (int (length packet)) @ [NUL] @ Osc_stack s)), Stream packet]
      | None \<Rightarrow> [])"

definition transmit :: "OscChannel \<Rightarrow> string \<Rightarrow> 'a osc_state_scheme \<Rightarrow> 'a osc_state_scheme" where
  "transmit ch packet s =
     s\<lparr>Osc_out := Osc_out s @ emitted ch s packet,
       Osc_tcpSocket := (if och_sendMessage ch = Some TcpPacketSend \<and> Osc_send_result s = 0 then False else Osc_tcpSocket s)\<rparr>"

lemma print_int_digits:
  assumes "n < 1000"
  shows "length (print_int (int n)) \<le> 3"
  using assms by (simp add: print_int_def print_nat.simps [of n] print_nat.simps [of "n div 10"] print_nat.simps [of "n div 100"] div_mult2_eq [symmetric])

lemma send_transmits:
  assumes "och_sendMessage ch = Some sender" and "length packet < 1000"
  shows "\<exists>r. osc_send sender packet (och_replyAddress ch) (och_replyPort ch) s = Some (r, transmit ch packet s)"
  using assms print_int_digits [of "length packet"]
  by (cases sender) (auto simp: osc_send_def transmit_def emitted_def Osc_UdpPacketSend_def Osc_UsbPacketSend_def Osc_TcpPacketSend_def Let_def)

lemma send_internal:
  assumes "holds_messages ch ms" and "och_sendMessage ch \<noteq> None"
  shows "Osc_SendPacketInternal ch s =
    Some (CONTROLLER_OK, if ms = [] then ch else Osc_ResetChannel ch, if ms = [] then s else transmit ch (packet_of ms) s)"
proof (cases "ms = []")
  case True
  then show ?thesis using assms by (simp add: Osc_SendPacketInternal_def holds_messages_def)
next
  case False
  obtain sender where sender: "och_sendMessage ch = Some sender" using assms(2) by blast
  define start :: int where "start = (if och_messages ch = 1 then 20 else 0)"
  have h: "och_written ch = Some (buffer_of ms)" "och_messages ch = int (length ms)"
    "och_remaining ch = 600 - int (length (buffer_of ms))" "length (buffer_of ms) \<le> 600"
    using assms(1) by (auto simp: holds_messages_def)
  have long: "start \<le> int (length (buffer_of ms))" "take (nat (int (length (buffer_of ms)) - start)) (drop (nat start) (buffer_of ms)) = packet_of ms"
  proof -
    show "start \<le> int (length (buffer_of ms))" using False h(2) by (cases ms) (auto simp: start_def buffer_of_def)
    show "take (nat (int (length (buffer_of ms)) - start)) (drop (nat start) (buffer_of ms)) = packet_of ms"
    proof (cases "length ms = 1")
      case True
      then obtain m where m: "ms = [m]" by (cases ms) auto
      have "drop 20 (bundle_head @ element m) = m" by (simp add: element_def)
      then show ?thesis using h(2) by (simp add: m start_def buffer_of_def packet_of_def)
    next
      case not: False
      then show ?thesis using h(2) by (simp add: start_def packet_of_def)
    qed
  qed
  have short: "length (packet_of ms) < 1000"
  proof -
    have "length (packet_of ms) \<le> length (buffer_of ms)" by (cases ms) (auto simp: packet_of_def buffer_of_def)
    then show ?thesis using h(4) by simp
  qed
  obtain r where "osc_send sender (packet_of ms) (och_replyAddress ch) (och_replyPort ch) s = Some (r, transmit ch (packet_of ms) s)"
    using send_transmits [OF sender short] by blast
  moreover have "OSC_MAX_MESSAGE_OUT - och_remaining ch - start = int (length (buffer_of ms)) - start" using h(3) by simp
  ultimately show ?thesis using False h(2) long(1)
    unfolding Osc_SendPacketInternal_def Let_def start_def [symmetric] h(1) sender bind.bind_lunit by (simp only: long(2)) simp
qed


definition stored :: "OscChannel \<Rightarrow> string list \<Rightarrow> OscChannel" where
  "stored ch ms =
     ch\<lparr>och_written := Some (buffer_of ms), och_remaining := OSC_MAX_MESSAGE_OUT - int (length (buffer_of ms)), och_messages := int (length ms)\<rparr>"

lemma stored_holds: "holds_messages (stored ch ms) ms \<longleftrightarrow> fits ms"
  by (simp add: holds_messages_def stored_def fits_def)

lemma holds_stored: "holds_messages ch ms \<longleftrightarrow> ch = stored ch ms \<and> fits ms"
  by (cases ch) (auto simp: holds_messages_def stored_def fits_def)

lemma reset_stored: "Osc_ResetChannel ch = stored ch []"
  by (simp add: Osc_ResetChannel_def stored_def buffer_of_def)

lemma stored_stored [simp]: "stored (stored ch ms) ms' = stored ch ms'"
  by (simp add: stored_def)

lemma message_length: "8 \<le> length (message_bytes address args)"
proof -
  have "4 \<le> length (padded str)" for str
  proof -
    have "int (length (padded str)) mod 4 = 0" using pad4_range [of "int (length str) + 1"] by (simp add: length_padded)
    moreover have "0 < length (padded str)" by (simp add: padded_def)
    ultimately show ?thesis by presburger
  qed
  from this [of address] this [of "format_of args"] show ?thesis by (simp add: message_bytes_def)
qed

lemma create_pass_eq:
  assumes "holds_messages ch ms" and "och_sendMessage ch \<noteq> None"
    and m_def: "m = message_bytes address args"
  shows "create_pass address (format_of args) args ch s =
    Some (if fits (ms @ [m]) then (Inr True, stored ch (ms @ [m]), s)
          else (Inr False, if ms = [] then ch else stored ch [], if ms = [] then s else transmit ch (packet_of ms) s))"
proof -
  define room where "room = och_remaining ch - (if ms = [] then 16 else 0)"
  have h: "och_written ch = Some (buffer_of ms)" "och_messages ch = int (length ms)"
    "och_remaining ch = 600 - int (length (buffer_of ms))" "0 \<le> och_remaining ch"
    using assms(1) by (auto simp: holds_messages_def)
  have "bundle_head \<noteq> []" using length_bundle_head by (metis list.size(3) zero_neq_numeral)
  then have empty: "buffer_of ms = [] \<longleftrightarrow> ms = []" by (simp add: buffer_of_def)
  have head: "(if buffer_of ms = [] then Osc_CreateBundle (och_remaining ch) 0 0 else (Some [], och_remaining ch)) =
      (Some (if ms = [] then bundle_head else []), room)"
    using h by (simp add: empty bundle_written room_def) (simp add: buffer_of_def)
  have long: "8 \<le> int (length m)" using message_length [of address args] m_def by simp
  have fits: "fits (ms @ [m]) \<longleftrightarrow> int (length m) \<le> room - 4"
    using h(3) by (auto simp: fits_def buffer_snoc room_def) (simp_all add: buffer_of_def)
  obtain len' where w: "Osc_CreateMessageInternal (room - 4) address (format_of args) args =
      Some (if int (length m) \<le> room - 4 then (Some m, room - 4 - int (length m)) else (None, len'))"
    using osc_message_written [of "room - 4" address args] m_def by auto
  have new: "ch\<lparr>och_written := Some (buffer_of ms @ (if ms = [] then bundle_head else []) @ store_int (Osc_EndianSwap (of_nat (length m))) @ m),
      och_remaining := room - 4 - int (length m), och_messages := int (length ms) + 1\<rparr> = stored ch (ms @ [m])"
    using h(3) by (simp add: stored_def buffer_snoc element_def room_def) (simp add: buffer_of_def)
  show ?thesis
  proof (cases "fits (ms @ [m])")
    case True
    then have "0 < room - 4" "int (length m) \<le> room - 4" using fits long by linarith+
    then show ?thesis using True new w unfolding create_pass_def h(1) bind.bind_lunit head
      by (simp add: Let_def h(2))
  next
    case False
    then have no: "\<not> int (length m) \<le> room - 4" using fits by simp
    show ?thesis
      using False no w send_internal [OF assms(1,2), of s] unfolding create_pass_def h(1) bind.bind_lunit head
      by (cases "0 < room - 4") (simp_all add: Let_def reset_stored)
  qed
qed


subsection \<open>The outbox\<close>

text \<open>
  What a channel promises: it keeps the messages that were accepted, in order, and sends the ones it holds when the next
  does not fit or the sender asks for it.
\<close>

datatype osc_call = Create string "osc_arg list" | Send

fun outbox_call :: "osc_call \<Rightarrow> string list \<Rightarrow> status \<times> string list \<times> string list list" where
  "outbox_call (Create address args) held =
     (let m = message_bytes address args; sent = (if held = [] then [] else [held])
      in if fits (held @ [m]) then (CONTROLLER_OK, held @ [m], [])
         else if fits [m] then (CONTROLLER_OK, [m], sent)
         else (CONTROLLER_ERROR_ILLEGAL_PARAMETER_VALUE, [], sent))"
| "outbox_call Send held = (CONTROLLER_OK, [], if held = [] then [] else [held])"

fun outbox_run :: "osc_call list \<Rightarrow> string list \<Rightarrow> status list \<times> string list \<times> string list list" where
  "outbox_run [] held = ([], held, [])"
| "outbox_run (c # cs) held =
     (let (r, held, sent) = outbox_call c held; (rs, held, sents) = outbox_run cs held in (r # rs, held, sent @ sents))"

fun osc_do :: "int \<Rightarrow> osc_call \<Rightarrow> (status, 'a osc_state_scheme) op" where
  "osc_do channel (Create address args) s = Osc_CreateMessage channel address (format_of args) args s"
| "osc_do channel Send s = Osc_SendPacket channel s"

primrec osc_calls :: "int \<Rightarrow> osc_call list \<Rightarrow> (status list, 'a osc_state_scheme) op" where
  "osc_calls channel [] s = Some ([], s)"
| "osc_calls channel (c # cs) s =
     do {
       (r, s) \<leftarrow> osc_do channel c s;
       (rs, s) \<leftarrow> osc_calls channel cs s;
       Some (r # rs, s)
     }"

fun accepted :: "osc_call list \<Rightarrow> status list \<Rightarrow> string list" where
  "accepted (Create address args # cs) (r # rs) = (if r = CONTROLLER_OK then [message_bytes address args] else []) @ accepted cs rs"
| "accepted (Send # cs) (r # rs) = accepted cs rs"
| "accepted _ _ = []"

lemma outbox_conserves:
  assumes "outbox_run cs held = (rs, held', sent)"
  shows "concat sent @ held' = held @ accepted cs rs"
  using assms
proof (induction cs arbitrary: held rs held' sent)
  case Nil
  then show ?case by simp
next
  case (Cons c cs)
  obtain r h1 s1 where one: "outbox_call c held = (r, h1, s1)" by (cases "outbox_call c held")
  obtain rs2 s2 where rest: "outbox_run cs h1 = (rs2, held', s2)" "rs = r # rs2" "sent = s1 @ s2"
    using Cons.prems one by (auto split: prod.splits)
  have "concat s1 @ h1 = held @ accepted [c] [r]"
    using one by (cases c) (auto simp: Let_def split: if_splits)
  moreover have "accepted (c # cs) (r # rs2) = accepted [c] [r] @ accepted cs rs2" by (cases c) auto
  ultimately show ?case using Cons.IH [OF rest(1)] rest(2,3) by (metis append_assoc concat_append)
qed

lemma outbox_fits:
  assumes "outbox_run cs held = (rs, held', sent)" and "fits held"
  shows "fits held' \<and> list_all fits sent"
  using assms
proof (induction cs arbitrary: held rs held' sent)
  case Nil
  then show ?case by simp
next
  case (Cons c cs)
  obtain r h1 s1 where one: "outbox_call c held = (r, h1, s1)" by (cases "outbox_call c held")
  obtain rs2 s2 where rest: "outbox_run cs h1 = (rs2, held', s2)" "rs = r # rs2" "sent = s1 @ s2"
    using Cons.prems one by (auto split: prod.splits)
  have "fits h1 \<and> list_all fits s1"
    using one Cons.prems(2) by (cases c) (auto simp: Let_def fits_def buffer_of_def split: if_splits)
  then show ?case using Cons.IH [OF rest(1)] rest(3) by simp
qed

definition ready :: "int \<Rightarrow> OscChannel \<Rightarrow> bool" where
  "ready channel ch \<longleftrightarrow> och_running ch \<and> och_sendMessage ch \<noteq> None \<and> och_semaphore ch \<noteq> Some False \<and>
     (channel = OSC_CHANNEL_UDP \<longrightarrow> och_replyAddress ch \<noteq> 0)"

text \<open>A channel of an active system that may send and holds some messages.\<close>

definition channel_at :: "int \<Rightarrow> OscChannel \<Rightarrow> string list \<Rightarrow> 'a osc_state_scheme \<Rightarrow> bool" where
  "channel_at channel ch ms s \<longleftrightarrow> osc_channel channel s = Some ch \<and> length (Osc_channel s) = OSC_CHANNEL_COUNT \<and>
     ready channel ch \<and> holds_messages ch ms"

lemma lock_ready:
  assumes "ready channel ch"
  shows "Osc_Lock ch = (CONTROLLER_OK, ch\<lparr>och_semaphore := Some False\<rparr>)"
  using assms by (cases ch; cases "och_semaphore ch") (auto simp: Osc_Lock_def ready_def Let_def)

lemma emitted_same:
  "emitted (stored ch ms) s p = emitted ch s p" "och_sendMessage (stored ch ms) = och_sendMessage ch"
  "emitted (ch\<lparr>och_semaphore := x\<rparr>) s p = emitted ch s p" "och_sendMessage (ch\<lparr>och_semaphore := x\<rparr>) = och_sendMessage ch"
  by (simp_all add: emitted_def stored_def split: option.split osc_sender.split)

lemma transmit_stored [simp]: "transmit (stored ch ms) = transmit ch" "transmit (ch\<lparr>och_semaphore := x\<rparr>) = transmit ch"
  by (rule ext, rule ext, simp only: transmit_def emitted_same)+

lemma channel_transmit [simp]: "osc_channel c (transmit ch packet s) = osc_channel c s" "Osc_channel (transmit ch packet s) = Osc_channel s"
  by (simp_all add: transmit_def osc_channel_def)

lemma channel_valid: "osc_channel c s = Some ch \<Longrightarrow> 0 \<le> c \<and> c < 3 \<and> Osc_active s \<and> Osc_channel s ! nat c = Some ch"
  by (simp add: osc_channel_def split: if_splits)

text \<open>The messages a call leaves in the channel, and the packets it sends.\<close>

definition after_call :: "int \<Rightarrow> OscChannel \<Rightarrow> string list \<Rightarrow> string list list \<Rightarrow> 'a osc_state_scheme \<Rightarrow> 'a osc_state_scheme" where
  "after_call channel ch held sent s =
     set_channel channel (Osc_Unlock (stored ch held)) (fold (\<lambda>b. transmit ch (packet_of b)) sent s)"

lemma create_message_eq:
  assumes "channel_at channel ch ms s"
  shows "Osc_CreateMessage channel address (format_of args) args s =
    (case outbox_call (Create address args) ms of (r, held, sent) \<Rightarrow> Some (r, after_call channel ch held sent s))"
proof -
  define m where "m = message_bytes address args"
  have ch: "osc_channel channel s = Some ch" "ready channel ch" "holds_messages ch ms" "\<not> bad_channel channel"
    using assms channel_valid [of channel s ch] by (auto simp: channel_at_def bad_channel_def)
  define ch1 where "ch1 = ch\<lparr>och_semaphore := Some False\<rparr>"
  have stored1: "stored ch1 ms' = (stored ch ms')\<lparr>och_semaphore := Some False\<rparr>" for ms' by (simp add: ch1_def stored_def)
  have unlock: "Osc_Unlock (stored ch1 ms') = Osc_Unlock (stored ch ms')" for ms' by (simp add: stored1 Osc_Unlock_def)
  have h1: "holds_messages ch1 ms" "och_sendMessage ch1 \<noteq> None" "och_written ch1 \<noteq> None"
    using ch by (auto simp: ch1_def holds_messages_def ready_def)
  have s1: "ch1 = stored ch1 ms" using h1(1) holds_stored by blast
  have start: "Osc_CreateMessage channel address (format_of args) args s =
    do {
      (r, c', s) \<leftarrow> create_pass address (format_of args) args ch1 s;
      (r, c', s) \<leftarrow> (if r = Inr False then create_pass address (format_of args) args c' s else Some (r, c', s));
      Some (case r of Inl e \<Rightarrow> (e, set_channel channel c' s)
            | Inr ok \<Rightarrow> (if ok then CONTROLLER_OK else CONTROLLER_ERROR_ILLEGAL_PARAMETER_VALUE, set_channel channel (Osc_Unlock c') s))
    }"
  proof -
    have "(format_of args = [] \<or> hd (format_of args) \<noteq> CHR '','') = False" by (simp add: format_of_def)
    moreover have "bad_channel channel = False" "(\<not> och_running ch) = False" "(channel = OSC_CHANNEL_UDP \<and> och_replyAddress ch = 0) = False"
      "(och_sendMessage ch = None) = False" "(och_written ch1 = None) = False" "(CONTROLLER_OK \<noteq> CONTROLLER_OK) = False"
      using ch h1(3) by (auto simp: ready_def)
    ultimately show ?thesis
      by (simp only: Osc_CreateMessage_def if_False ch(1) bind.bind_lunit lock_ready [OF ch(2)] Let_def prod.case flip: ch1_def)
  qed
  note first = create_pass_eq [OF h1(1,2) m_def, of s]
  show ?thesis
  proof (cases "fits (ms @ [m])")
    case True
    then show ?thesis unfolding start first by (simp add: after_call_def unlock Let_def flip: m_def)
  next
    case no: False
    define s2 where "s2 = (if ms = [] then s else transmit ch1 (packet_of ms) s)"
    have h2: "holds_messages (stored ch1 []) []" "och_sendMessage (stored ch1 []) \<noteq> None"
      using h1(2) by (simp_all add: stored_holds fits_def buffer_of_def) (simp add: stored_def)
    have c2: "(if ms = [] then ch1 else stored ch1 []) = stored ch1 []" using s1 by (cases "ms = []") auto
    note second = create_pass_eq [OF h2 m_def, of s2]
    have t: "transmit ch1 = transmit ch" by (simp add: ch1_def)
    show ?thesis using no second unfolding start first c2
      by (auto simp: after_call_def unlock Let_def s2_def t simp flip: m_def)
  qed
qed


lemma send_packet_eq:
  assumes "channel_at channel ch ms s"
  shows "Osc_SendPacket channel s =
    Some (CONTROLLER_OK, if ms = [] then s else after_call channel ch [] [ms] s)"
proof -
  have ch: "osc_channel channel s = Some ch" "ready channel ch" "holds_messages ch ms" "\<not> bad_channel channel"
    using assms channel_valid [of channel s ch] by (auto simp: channel_at_def bad_channel_def)
  have m: "och_messages ch = 0 \<longleftrightarrow> ms = []" using ch(3) by (simp add: holds_messages_def)
  have h1: "holds_messages (ch\<lparr>och_semaphore := Some False\<rparr>) ms" "och_sendMessage (ch\<lparr>och_semaphore := Some False\<rparr>) \<noteq> None"
    using ch by (auto simp: holds_messages_def ready_def)
  have unlock: "Osc_Unlock (Osc_ResetChannel (ch\<lparr>och_semaphore := Some False\<rparr>)) = Osc_Unlock (stored ch [])"
    unfolding reset_stored by (simp add: Osc_Unlock_def stored_def)
  show ?thesis
    using ch(4) m send_internal [OF h1, of s] unlock
    by (cases "ms = []") (simp_all add: Osc_SendPacket_def ch(1) lock_ready [OF ch(2)] after_call_def)
qed

lemma emitted_cong: "Osc_udpSendPort t = Osc_udpSendPort s \<Longrightarrow> Osc_stack t = Osc_stack s \<Longrightarrow> emitted ch t = emitted ch s"
  by (rule ext) (simp add: emitted_def split: option.split osc_sender.split)

lemma transmit_parts [simp]:
  "Osc_udpSendPort (transmit ch p s) = Osc_udpSendPort s" "Osc_stack (transmit ch p s) = Osc_stack s"
  "Osc_active (transmit ch p s) = Osc_active s"
  by (simp_all add: transmit_def)

lemma after_call_state:
  assumes "channel_at channel ch ms s" and "fits held"
  shows "channel_at channel (Osc_Unlock (stored ch held)) held (after_call channel ch held sent s)"
    and "Osc_out (after_call channel ch held sent s) = Osc_out s @ concat (map (emitted ch s \<circ> packet_of) sent)"
    and "emitted ch' (after_call channel ch held sent s) = emitted ch' s"
proof -
  define t where "t = fold (\<lambda>b. transmit ch (packet_of b)) sent s"
  have keep: "Osc_channel t = Osc_channel s \<and> Osc_active t = Osc_active s \<and> Osc_udpSendPort t = Osc_udpSendPort s \<and> Osc_stack t = Osc_stack s"
    unfolding t_def by (induction sent arbitrary: s) simp_all
  have out: "Osc_out (fold (\<lambda>b. transmit ch (packet_of b)) sent s) = Osc_out s @ concat (map (emitted ch s \<circ> packet_of) sent)"
  proof (induction sent arbitrary: s)
    case Nil
    then show ?case by simp
  next
    case (Cons b sent)
    have "emitted ch (transmit ch (packet_of b) s) = emitted ch s" by (rule emitted_cong) simp_all
    then show ?case using Cons.IH [of "transmit ch (packet_of b) s"] by (simp add: transmit_def comp_def)
  qed
  have v: "0 \<le> channel" "channel < 3" "Osc_active s" "length (Osc_channel s) = 3" "ready channel ch"
    using assms(1) channel_valid [of channel s ch] by (auto simp: channel_at_def)
  show "channel_at channel (Osc_Unlock (stored ch held)) held (after_call channel ch held sent s)"
    using v assms(2) keep
    by (auto simp: channel_at_def after_call_def t_def set_channel_def osc_channel_def nat_less_iff ready_def Osc_Unlock_def stored_def
      holds_messages_def fits_def)
  show "Osc_out (after_call channel ch held sent s) = Osc_out s @ concat (map (emitted ch s \<circ> packet_of) sent)"
    using out by (simp add: after_call_def set_channel_def)
  show "emitted ch' (after_call channel ch held sent s) = emitted ch' s"
    using keep by (intro emitted_cong) (simp_all add: after_call_def set_channel_def t_def)
qed

lemma osc_do_eq:
  assumes "channel_at channel ch ms s" and "outbox_call c ms = (r, held, sent)"
  shows "\<exists>s' ch'. osc_do channel c s = Some (r, s') \<and> channel_at channel ch' held s' \<and>
    Osc_out s' = Osc_out s @ concat (map (emitted ch s \<circ> packet_of) sent) \<and> emitted ch' s' = emitted ch s"
proof -
  have f: "fits ms" using assms(1) by (simp add: channel_at_def holds_stored)
  have fh: "fits held" using outbox_fits [of "[c]" ms "[r]" held sent] assms(2) f by simp
  have em: "emitted (Osc_Unlock (stored ch held)) s = emitted ch s" by (rule ext) (simp add: Osc_Unlock_def emitted_same)
  show ?thesis
  proof (cases c)
    case (Create address args)
    then have "osc_do channel c s = Some (r, after_call channel ch held sent s)"
      using create_message_eq [OF assms(1), of address args] assms(2) by simp
    then show ?thesis using after_call_state [OF assms(1) fh, where sent = sent] em by auto
  next
    case Send
    then have o: "r = CONTROLLER_OK" "held = []" "sent = (if ms = [] then [] else [ms])" using assms(2) by auto
    show ?thesis
    proof (cases "ms = []")
      case True
      then show ?thesis using Send o send_packet_eq [OF assms(1)] assms(1) by auto
    next
      case False
      then have "osc_do channel c s = Some (r, after_call channel ch held sent s)" using Send o send_packet_eq [OF assms(1)] by simp
      then show ?thesis using after_call_state [OF assms(1) fh, where sent = sent] em by auto
    qed
  qed
qed

lemma osc_calls_eq:
  assumes "channel_at channel ch ms s"
  shows "\<exists>rs held sent s' ch'. outbox_run cs ms = (rs, held, sent) \<and> osc_calls channel cs s = Some (rs, s') \<and>
    channel_at channel ch' held s' \<and> Osc_out s' = Osc_out s @ concat (map (emitted ch s \<circ> packet_of) sent) \<and>
    emitted ch' s' = emitted ch s"
  using assms
proof (induction cs arbitrary: ch ms s)
  case Nil
  then show ?case by auto
next
  case (Cons c cs)
  obtain r h1 s1 where one: "outbox_call c ms = (r, h1, s1)" by (cases "outbox_call c ms")
  obtain t ch1 where t: "osc_do channel c s = Some (r, t)" "channel_at channel ch1 h1 t"
      "Osc_out t = Osc_out s @ concat (map (emitted ch s \<circ> packet_of) s1)" "emitted ch1 t = emitted ch s"
    using osc_do_eq [OF Cons.prems one] by blast
  obtain rs held sent s' ch' where "outbox_run cs h1 = (rs, held, sent)" "osc_calls channel cs t = Some (rs, s')"
      "channel_at channel ch' held s'" "Osc_out s' = Osc_out t @ concat (map (emitted ch1 t \<circ> packet_of) sent)"
      "emitted ch' s' = emitted ch1 t"
    using Cons.IH [OF t(2)] by blast
  then show ?case using one t by (auto simp: comp_def)
qed

text \<open>
  C4: Any sequence of messages and send requests on a ready channel returns as the outbox does, leaves the channel ready
  with the messages the outbox holds, and sends exactly the packets of the outbox, none longer than the buffer. The messages
  sent and held are all the accepted ones in their order.
\<close>
theorem osc_outbox_refinement:
  assumes "channel_at channel ch ms s"
  shows "\<exists>rs held sent s' ch'. outbox_run cs ms = (rs, held, sent) \<and> osc_calls channel cs s = Some (rs, s') \<and>
    channel_at channel ch' held s' \<and> Osc_out s' = Osc_out s @ concat (map (emitted ch s \<circ> packet_of) sent) \<and>
    list_all fits sent \<and> concat sent @ held = ms @ accepted cs rs"
proof -
  have "fits ms" using assms by (simp add: channel_at_def holds_stored)
  then show ?thesis using osc_calls_eq [OF assms] outbox_conserves outbox_fits by fast
qed

subsection \<open>The shape of what is sent\<close>

text \<open>A message starts with a slash and takes whole words; a packet is a message or a bundle of at least two.\<close>

definition osc_message :: "string \<Rightarrow> bool" where
  "osc_message m \<longleftrightarrow> m \<noteq> [] \<and> hd m = CHR ''/'' \<and> length m mod 4 = 0"

definition osc_packet :: "string \<Rightarrow> bool" where
  "osc_packet p \<longleftrightarrow> length p \<le> 600 \<and>
     (osc_message p \<or> (\<exists>es. 2 \<le> length es \<and> list_all osc_message es \<and> p = bundle_head @ concat (map element es)))"

fun call_typed :: "osc_call \<Rightarrow> bool" where
  "call_typed (Create address args) \<longleftrightarrow> address \<noteq> [] \<and> hd address = CHR ''/''"
| "call_typed Send \<longleftrightarrow> True"

lemma padded_words: "length (padded str) mod 4 = 0"
proof -
  have "int (length (padded str)) mod 4 = 0" using pad4_range [of "int (length str) + 1"] by (simp add: length_padded)
  then show ?thesis by presburger
qed

lemma arg_words: "length (arg_bytes a) mod 4 = 0"
proof (cases a)
  case (Arg_blob b)
  have "int (length (arg_bytes a)) mod 4 = 0" using pad4_range [of "int (length b)"] by (simp add: Arg_blob)
  then show ?thesis by presburger
qed (simp_all add: padded_words)

lemma message_typed: "address \<noteq> [] \<Longrightarrow> hd address = CHR ''/'' \<Longrightarrow> osc_message (message_bytes address args)"
proof -
  have "length (concat (map arg_bytes args)) mod 4 = 0"
    using arg_words by (induction args) (auto simp: mod_add_eq [of _ 4, symmetric])
  moreover have "length (message_bytes address args) =
      length (padded address) + length (padded (format_of args)) + length (concat (map arg_bytes args))"
    by (simp add: message_bytes_def)
  ultimately have "length (message_bytes address args) mod 4 = 0"
    using padded_words [of address] padded_words [of "format_of args"] by presburger
  moreover assume "address \<noteq> []" "hd address = CHR ''/''"
  ultimately show ?thesis by (simp add: osc_message_def) (simp add: message_bytes_def padded_def)
qed

lemma outbox_typed:
  assumes "outbox_run cs held = (rs, held', sent)" and "list_all call_typed cs" and "list_all osc_message held"
  shows "list_all (\<lambda>b. b \<noteq> [] \<and> list_all osc_message b) sent"
  using assms
proof (induction cs arbitrary: held rs held' sent)
  case Nil
  then show ?case by simp
next
  case (Cons c cs)
  obtain r h1 s1 where one: "outbox_call c held = (r, h1, s1)" by (cases "outbox_call c held")
  obtain rs2 s2 where rest: "outbox_run cs h1 = (rs2, held', s2)" "rs = r # rs2" "sent = s1 @ s2"
    using Cons.prems one by (auto split: prod.splits)
  have "list_all osc_message h1 \<and> list_all (\<lambda>b. b \<noteq> [] \<and> list_all osc_message b) s1"
    using one Cons.prems(2,3) message_typed by (cases c) (auto simp: Let_def split: if_splits)
  then show ?case using Cons.IH [OF rest(1)] Cons.prems(2) rest(3) by simp
qed

lemma packet_typed: "b \<noteq> [] \<Longrightarrow> list_all osc_message b \<Longrightarrow> fits b \<Longrightarrow> osc_packet (packet_of b)"
proof (cases "length b = 1")
  case True
  assume b: "list_all osc_message b" "fits b"
  obtain m where m: "b = [m]" using True by (cases b) auto
  then have "length m \<le> 600" using b(2) by (simp add: fits_def buffer_of_def)
  then show ?thesis using b m by (simp add: packet_of_def osc_packet_def)
next
  case False
  assume b: "b \<noteq> []" "list_all osc_message b" "fits b"
  then have "2 \<le> length b" using False by (cases b rule: list.exhaust; cases "tl b") auto
  then show ?thesis using b False by (auto simp: packet_of_def osc_packet_def buffer_of_def fits_def)
qed

text \<open>
  C13: Whatever is sent over a channel is well formed: when the callers give addresses that start with a slash, every packet that a
  sequence of messages and send requests puts on the channel is a message of whole words or a bundle of at least two such messages, each
  behind its length, and is at most as long as the buffer.
\<close>
theorem osc_packets_wellformed:
  assumes "channel_at channel ch ms s" and "list_all osc_message ms" and "list_all call_typed cs"
  shows "\<exists>rs s' packets. osc_calls channel cs s = Some (rs, s') \<and> Osc_out s' = Osc_out s @ concat (map (emitted ch s) packets) \<and>
    list_all osc_packet packets"
proof -
  have f: "fits ms" using assms(1) by (simp add: channel_at_def holds_stored)
  obtain rs held sent s' where r: "outbox_run cs ms = (rs, held, sent)" "osc_calls channel cs s = Some (rs, s')"
    "Osc_out s' = Osc_out s @ concat (map (emitted ch s \<circ> packet_of) sent)"
    using osc_calls_eq [OF assms(1)] by blast
  have "list_all osc_packet (map packet_of sent)"
    using outbox_typed [OF r(1) assms(3,2)] outbox_fits [OF r(1) f] packet_typed by (auto simp: list_all_iff)
  then show ?thesis using r(2,3) by (auto intro!: exI [of _ "map packet_of sent"] simp: comp_def)
qed

subsection \<open>A channel from the start\<close>

lemma usb_channel_ready:
  assumes "\<not> Osc_active s" and "och_semaphore (Osc_fresh s) \<noteq> Some False"
  shows "\<exists>s1 s2 ch. Osc_SetActive True udp usb async s = Some s1 \<and> Osc_UsbTask_start s1 = Some s2 \<and>
    channel_at OSC_CHANNEL_USB ch [] s2 \<and> och_sendMessage ch = Some UsbPacketSend \<and> Osc_out s2 = Osc_out s"
proof -
  define ch where "ch = (Osc_ResetChannel ((Osc_fresh s)\<lparr>och_sendMessage := Some UsbPacketSend\<rparr>))\<lparr>och_running := True\<rparr>"
  obtain s1 where s1: "Osc_SetActive True udp usb async s = Some s1" "Osc_active s1" "length (Osc_channel s1) = 3"
      "Osc_fresh s1 = Osc_fresh s" "Osc_out s1 = Osc_out s"
    using assms(1) by (simp add: Osc_SetActive_def)
  then have s2: "Osc_UsbTask_start s1 = Some (set_channel 1 ch s1)" by (simp add: Osc_UsbTask_start_def ch_def)
  have "osc_channel 1 (set_channel 1 ch s1) = Some ch" "length (Osc_channel (set_channel 1 ch s1)) = 3"
    using s1 by (simp_all add: osc_channel_def set_channel_def)
  moreover have "ready 1 ch" "holds_messages ch []"
    using assms(2) by (simp_all add: ready_def ch_def holds_messages_def Osc_ResetChannel_def buffer_of_def)
  moreover have "och_sendMessage ch = Some UsbPacketSend" by (simp add: ch_def Osc_ResetChannel_def)
  ultimately show ?thesis using s1 s2 by (auto simp: channel_at_def set_channel_def)
qed

definition osc_boot :: osc_state where
  "osc_boot = inputs_state.extend inputs_boot
     \<lparr>Osc_active = False, Osc_running = False, Osc_channel = [], Osc_subsystem = [], Osc_registeredSubsystems = 0,
      Osc_scratch1 = False, Osc_scratch2 = False, Osc_tasks = [], Osc_tcpSocket = False, Osc_udpSendPort = 10000,
      Osc_send_result = 1, Osc_stack = replicate 4 NUL, Osc_null = Some (CHR 0x18),
      Osc_fresh = \<lparr>och_incoming = replicate 200 NUL, och_written = None, och_remaining = 0, och_messages = 0,
        och_replyAddress = 0, och_replyPort = 0, och_sendMessage = None, och_semaphore = None, och_running = False\<rparr>,
      Osc_out = []\<rparr>"

lemma osc_boot_fields:
  "\<not> Osc_active osc_boot" "och_semaphore (Osc_fresh osc_boot) = None" "och_incoming (Osc_fresh osc_boot) = replicate 200 NUL"
  "Osc_null osc_boot = Some (CHR 0x18)" "Osc_out osc_boot = []" "inputs_state.truncate osc_boot = inputs_boot"
  by (simp_all add: osc_boot_def inputs_state.defs)

lemma osc_outbox_refinement_witness:
  "\<exists>s s' :: osc_state. osc_calls OSC_CHANNEL_USB [Create ''/a'' [Arg_int 1], Create ''/b'' [], Send] s = Some ([0, 0, 0], s') \<and>
     Osc_out s' = [Slip (packet_of [message_bytes ''/a'' [Arg_int 1], message_bytes ''/b'' []])]"
proof -
  let ?cs = "[Create ''/a'' [Arg_int 1], Create ''/b'' [], Send]"
  obtain s :: osc_state and ch where s: "channel_at OSC_CHANNEL_USB ch [] s" "och_sendMessage ch = Some UsbPacketSend" "Osc_out s = []"
    using usb_channel_ready [of osc_boot True True True] osc_boot_fields by auto
  have small: "fits [message_bytes ''/a'' [Arg_int 1]]" "fits [message_bytes ''/a'' [Arg_int 1], message_bytes ''/b'' []]" by code_simp+
  have run: "outbox_run ?cs [] = ([0, 0, 0], [], [[message_bytes ''/a'' [Arg_int 1], message_bytes ''/b'' []]])"
    using small by (simp add: Let_def)
  have "emitted ch s p = [Slip p]" for p using s(2) by (simp add: emitted_def)
  then show ?thesis using osc_outbox_refinement [OF s(1), of ?cs] s(3) unfolding run by auto
qed

lemma osc_packets_wellformed_witness:
  "\<exists>(s :: osc_state) s' p. osc_calls OSC_CHANNEL_USB [Create ''/a'' [Arg_int 1], Send] s = Some ([0, 0], s') \<and>
     Osc_out s' = [Slip p] \<and> osc_packet p"
proof -
  let ?cs = "[Create ''/a'' [Arg_int 1], Send]"
  obtain s :: osc_state and ch where s: "channel_at OSC_CHANNEL_USB ch [] s" "och_sendMessage ch = Some UsbPacketSend" "Osc_out s = []"
    using usb_channel_ready [of osc_boot True True True] osc_boot_fields by auto
  have em: "emitted ch s p = [Slip p]" for p using s(2) by (simp add: emitted_def)
  obtain rs s' packets where r: "osc_calls OSC_CHANNEL_USB ?cs s = Some (rs, s')" "Osc_out s' = concat (map (emitted ch s) packets)"
    "list_all osc_packet packets"
    using osc_packets_wellformed [OF s(1), of ?cs] s(3) by auto
  have small: "fits [message_bytes ''/a'' [Arg_int 1]]" by code_simp
  obtain t where "osc_calls OSC_CHANNEL_USB ?cs s = Some ([0, 0], t)" "Osc_out t = [Slip (packet_of [message_bytes ''/a'' [Arg_int 1]])]"
    using osc_calls_eq [OF s(1), of ?cs] s(3) small by (auto simp: em)
  then show ?thesis using r by (cases packets) (auto simp: em)
qed

end
