(* ===== verification/OscDispatch.thy ===== *)
theory OscDispatch
  imports OscOutbox
begin

text \<open>
  From a packet to a device: what the OSC system does with a message that addresses a property of an indexed subsystem. The
  contract a device has to keep is a locale, interpreted on the LEDs and digital outputs of the application board.
\<close>

subsection \<open>The receive functions of the devices\<close>

definition AppLedOsc_ReceiveMessage :: "int \<Rightarrow> int \<Rightarrow> int \<Rightarrow> (status, 'a osc_state_scheme) op" where
  "AppLedOsc_ReceiveMessage channel p len s =
     do {
       (status, s) \<leftarrow> Osc_IndexIntReceiverHelper channel p len 4 ''appled'' AppLedOsc_PropertySet AppLedOsc_PropertyGet
         [''active'', ''state''] s;
       if status \<noteq> CONTROLLER_OK then Osc_SendError channel ''appled'' status s else Some (CONTROLLER_OK, s)
     }"

definition DigitalOutOsc_ReceiveMessage :: "int \<Rightarrow> int \<Rightarrow> int \<Rightarrow> (status, 'a osc_state_scheme) op" where
  "DigitalOutOsc_ReceiveMessage channel p len s =
     do {
       (status, s) \<leftarrow> Osc_IndexIntReceiverHelper channel p len 8 ''digitalout'' DigitalOutOsc_PropertySet DigitalOutOsc_PropertyGet
         [''active'', ''value''] s;
       if status \<noteq> CONTROLLER_OK then Osc_SendError channel ''digitalout'' status s else Some (CONTROLLER_OK, s)
     }"

definition LedOsc_ReceiveMessage :: "int \<Rightarrow> int \<Rightarrow> int \<Rightarrow> (status, 'a osc_state_scheme) op" where
  "LedOsc_ReceiveMessage channel p len s =
     do {
       (status, s) \<leftarrow> Osc_IntReceiverHelper channel p len ''led'' LedOsc_PropertySet LedOsc_PropertyGet [''active'', ''state''] s;
       if status \<noteq> CONTROLLER_OK then Osc_SendError channel ''led'' status s \<bind> (\<lambda>(_, s). Some (CONTROLLER_OK, s))
       else Some (CONTROLLER_OK, s)
     }"

subsection \<open>Memory\<close>

definition has_mem :: "int \<Rightarrow> string \<Rightarrow> 'a osc_state_scheme \<Rightarrow> bool" where
  "has_mem c mem s \<longleftrightarrow> osc_mem c s = Some mem \<and> length (Osc_channel s) = OSC_CHANNEL_COUNT"

definition put_mem :: "int \<Rightarrow> string \<Rightarrow> 'a osc_state_scheme \<Rightarrow> 'a osc_state_scheme" where
  "put_mem c mem s = (case osc_channel c s of Some ch \<Rightarrow> set_channel c (ch\<lparr>och_incoming := mem\<rparr>) s | None \<Rightarrow> s)"

lemma has_mem_channel:
  assumes "has_mem c mem s"
  obtains ch where "osc_channel c s = Some ch" "och_incoming ch = mem" "0 \<le> c" "c < 3" "Osc_active s" "Osc_channel s ! nat c = Some ch"
    "length (Osc_channel s) = 3"
  using assms by (auto simp: has_mem_def osc_mem_def osc_channel_def split: if_splits)

lemma put_mem_channel:
  assumes "osc_channel c s = Some ch" and "length (Osc_channel s) = 3"
  shows "osc_channel c (put_mem c mem s) = Some (ch\<lparr>och_incoming := mem\<rparr>)" "length (Osc_channel (put_mem c mem s)) = 3"
  using assms channel_valid [OF assms(1)] by (auto simp: put_mem_def osc_channel_def set_channel_def)

lemma put_mem_has: "has_mem c m s \<Longrightarrow> has_mem c m' (put_mem c m' s)"
  by (erule has_mem_channel) (simp add: has_mem_def osc_mem_def put_mem_channel)

lemma put_mem_put:
  assumes "has_mem c m s"
  shows "put_mem c m2 (put_mem c m1 s) = put_mem c m2 s"
proof -
  obtain ch where ch: "osc_channel c s = Some ch" "length (Osc_channel s) = 3" using assms by (rule has_mem_channel)
  have "put_mem c m2 (put_mem c m1 s) = set_channel c (ch\<lparr>och_incoming := m2\<rparr>) (put_mem c m1 s)"
    using put_mem_channel [OF ch, of m1] by (simp add: put_mem_def [of c m2])
  then show ?thesis using ch by (simp add: put_mem_def set_channel_def)
qed

lemma put_mem_same:
  assumes "has_mem c m s"
  shows "put_mem c m s = s"
proof -
  obtain ch where ch: "osc_channel c s = Some ch" "och_incoming ch = m" "Osc_channel s ! nat c = Some ch"
    using assms by (rule has_mem_channel)
  then have "ch\<lparr>och_incoming := m\<rparr> = ch" by (cases ch) simp
  moreover have "(Osc_channel s)[nat c := Some ch] = Osc_channel s" using ch(3) by (metis list_update_id)
  ultimately show ?thesis using ch(1) by (simp add: put_mem_def set_channel_def)
qed

lemma byte_at: "has_mem c (a @ x # b) s \<Longrightarrow> p = int (length a) \<Longrightarrow> osc_byte c p s = Some x"
  by (simp add: has_mem_def osc_byte_def)

lemma string_at:
  assumes "has_mem c (a @ str @ NUL # b) s" and "p = int (length a)" and "NUL \<notin> set str"
  shows "osc_string c p s = Some str"
  using assms by (simp add: has_mem_def osc_string_def c_string_def takeWhile_NUL)

lemma poke_at:
  assumes "has_mem c (a @ y # b) s" and "p = int (length a)"
  shows "osc_poke c p x s = Some (put_mem c (a @ x # b) s)"
  using assms by (auto elim!: has_mem_channel simp: osc_poke_def put_mem_def)

lemma put_mem_parts [simp]:
  "Osc_null (put_mem c m s) = Osc_null s" "osc_sub i (put_mem c m s) = osc_sub i s"
  "Osc_registeredSubsystems (put_mem c m s) = Osc_registeredSubsystems s" "Osc_out (put_mem c m s) = Osc_out s"
  by (auto simp: put_mem_def set_channel_def osc_sub_def split: option.split)

lemma slash_at_first: "CHR ''/'' \<notin> set a \<Longrightarrow> slash_at (a @ CHR ''/'' # b) = Some (length a)"
proof -
  assume "CHR ''/'' \<notin> set a"
  then have "takeWhile (\<lambda>c. c \<noteq> CHR ''/'') (a @ CHR ''/'' # b) = a" by (induction a) auto
  then show ?thesis by (simp add: slash_at_def)
qed

subsection \<open>An indexed property\<close>

lemma digit_not: "c \<in> set (print_nat i) \<Longrightarrow> c \<notin> {NUL, CHR '' '', CHR ''/'', CHR '',''}"
  using print_nat_digits [of c i] by (auto simp: c_isdigit_def)

text \<open>The part of the helper behind the look-up of index and property.\<close>

definition index_tail ::
  "int \<Rightarrow> int \<Rightarrow> int \<Rightarrow> nat \<Rightarrow> string \<Rightarrow> (int \<Rightarrow> int \<Rightarrow> int \<Rightarrow> (status, 'a osc_state_scheme) op) \<Rightarrow>
    (int \<Rightarrow> int \<Rightarrow> (int, 'a osc_state_scheme) op) \<Rightarrow> string list \<Rightarrow> int \<Rightarrow> int \<Rightarrow> int \<Rightarrow> (status, 'a osc_state_scheme) op" where
  "index_tail channel p len count name pset pget props number bits j s =
     do {
       mem \<leftarrow> osc_mem channel s;
       tag \<leftarrow> Osc_FindDataTag mem p len;
       (case tag of
          None \<Rightarrow> Some (CONTROLLER_ERROR_NO_TYPE_TAG, s)
        | Some tag \<Rightarrow>
            do {
              t \<leftarrow> osc_byte channel (tag + 1) s;
              if t = CHR ''i'' \<or> t = CHR ''f'' then
                Osc_ExtractData mem tag ''i'' \<bind>
                  (\<lambda>vs. case vs of
                     [Val_int v] \<Rightarrow> map_option (\<lambda>s. (CONTROLLER_OK, s)) (each_index number bits count (\<lambda>i s. done_with (pset i j v s)) s)
                   | _ \<Rightarrow> Some (CONTROLLER_ERROR_INCORRECT_DATA_TYPE, s))
              else
                map_option (\<lambda>s. (CONTROLLER_OK, s))
                  (each_index number bits count
                    (\<lambda>i s. do {
                       (v, s) \<leftarrow> pget i j s;
                       done_with (scratch_reply channel (scratch (''/'' @ name @ ''/'' @ print_int i @ ''/'' @ props ! nat j))
                         '',i'' [Arg_int (word_of_int v)] s)
                     }) s)
            })
     }"

lemma index_helper_found:
  assumes mem: "has_mem c (pre @ print_nat i @ CHR ''/'' # pname @ NUL # post) s" and p: "p = int (length pre)"
    and i: "i < count" "count \<le> 31" and pname: "NUL \<notin> set pname" "Osc_PropertyLookup props pname = j" "j \<noteq> - 1"
    and null: "Osc_null s = Some b" "b \<noteq> NUL" "b \<noteq> CHR '' ''"
  shows "Osc_IndexIntReceiverHelper c p len count name pset pget props s =
    index_tail c p len count name pset pget props (int i) (- 1) j s"
proof -
  let ?idx = "print_nat i"
  have idx: "?idx \<noteq> []" "NUL \<notin> set ?idx" "CHR ''/'' \<notin> set ?idx" using print_nat_nonempty digit_not by auto
  obtain d ds where d: "?idx = d # ds" using idx(1) by (cases ?idx) auto
  have first: "osc_byte c p s = Some d" using byte_at [of c pre d "ds @ CHR ''/'' # pname @ NUL # post" s] mem p d by simp
  have d_ok: "d \<noteq> NUL" "d \<noteq> CHR '' ''" using digit_not [of d i] d by auto
  have str: "osc_string c p s = Some (?idx @ CHR ''/'' # pname)"
    using string_at [of c pre "?idx @ CHR ''/'' # pname" post s] mem p idx(2) pname(1) by simp
  have slash: "slash_at (?idx @ CHR ''/'' # pname) = Some (length ?idx)" using idx(3) by (rule slash_at_first)
  define q where "q = p + int (length ?idx)"
  have q: "q = int (length (pre @ ?idx))" by (simp add: q_def p)
  define cut where "cut = put_mem c ((pre @ ?idx) @ NUL # pname @ NUL # post) s"
  have mem': "has_mem c ((pre @ ?idx) @ CHR ''/'' # pname @ NUL # post) s" using mem by simp
  have poke1: "osc_poke c q NUL s = Some cut" unfolding cut_def by (rule poke_at [OF mem' q])
  have cut_mem: "has_mem c ((pre @ ?idx) @ NUL # pname @ NUL # post) cut" unfolding cut_def by (rule put_mem_has [OF mem'])
  have str_cut: "osc_string c p cut = Some ?idx" using string_at [of c pre ?idx "pname @ NUL # post" cut] cut_mem p idx(2) by simp
  have number: "Osc_NumberMatch count ?idx = (int i, - 1)" using number_of_digits i by simp
  have "osc_poke c q (CHR ''/'') cut = Some (put_mem c ((pre @ ?idx) @ CHR ''/'' # pname @ NUL # post) cut)"
    by (rule poke_at [OF cut_mem q])
  also have "put_mem c ((pre @ ?idx) @ CHR ''/'' # pname @ NUL # post) cut = s"
    unfolding cut_def put_mem_put [OF mem'] by (rule put_mem_same [OF mem'])
  finally have poke2: "osc_poke c q (CHR ''/'') cut = Some s" .
  have index: "index_of c p q count s = Some (Some (int i, - 1), s)"
    by (simp add: index_of_def poke1 str_cut number poke2)
  have property: "osc_string c (q + 1) s = Some pname"
    using string_at [of c "pre @ ?idx @ [CHR ''/'']" pname post s "q + 1"] mem q pname(1) by simp
  show ?thesis unfolding Osc_IndexIntReceiverHelper_def index_tail_def
    using d_ok null pname(2,3) by (simp add: first str slash index property flip: q_def)
qed

text \<open>With one integer behind the tag the property is set; with none it is read and reported.\<close>

lemma tail_memory:
  assumes "has_mem c (pre @ xs @ padded (format_of args) @ concat (map arg_bytes args) @ post) s" and "p = int (length pre)"
    and "CHR '','' \<notin> set xs" and "int (length xs) < len"
  shows "osc_mem c s = Some (pre @ xs @ padded (format_of args) @ concat (map arg_bytes args) @ post)"
    and "Osc_FindDataTag (pre @ xs @ padded (format_of args) @ concat (map arg_bytes args) @ post) p len = Some (Some (p + int (length xs)))"
    and "osc_byte c (p + int (length xs) + 1) s = Some (case args of [] \<Rightarrow> NUL | a # _ \<Rightarrow> arg_tag a)"
proof -
  let ?data = "concat (map arg_bytes args) @ post"
  show "osc_mem c s = Some (pre @ xs @ padded (format_of args) @ ?data)" using assms(1) by (simp add: has_mem_def)
  show "Osc_FindDataTag (pre @ xs @ padded (format_of args) @ ?data) p len = Some (Some (p + int (length xs)))"
    using find_tag_at [OF assms(3,4) refl, of pre args ?data] assms(2) by simp
  obtain ys where "padded (format_of args) = CHR '','' # (case args of [] \<Rightarrow> NUL | a # _ \<Rightarrow> arg_tag a) # ys"
    by (cases args) (auto simp: padded_def format_of_def)
  then show "osc_byte c (p + int (length xs) + 1) s = Some (case args of [] \<Rightarrow> NUL | a # _ \<Rightarrow> arg_tag a)"
    using byte_at [of c "pre @ xs @ [CHR '','']" "case args of [] \<Rightarrow> NUL | a # _ \<Rightarrow> arg_tag a" "ys @ ?data" s] assms(1,2)
    by (simp add: add.commute)
qed

lemma index_tail_set:
  assumes "has_mem c (pre @ xs @ padded (format_of [Arg_int v]) @ arg_bytes (Arg_int v) @ post) s" and "p = int (length pre)"
    and "CHR '','' \<notin> set xs" and "int (length xs) < len" and "number \<noteq> - 1"
  shows "index_tail c p len count name pset pget props number bits j s =
    map_option (\<lambda>s. (CONTROLLER_OK, s)) (done_with (pset number j (sint v) s))"
proof -
  let ?mem = "pre @ xs @ padded (format_of [Arg_int v]) @ concat (map arg_bytes [Arg_int v]) @ post"
  have m: "has_mem c ?mem s" using assms(1) by simp
  note t = tail_memory [OF m assms(2,3,4)]
  obtain vs where vs: "Osc_ExtractData ?mem (int (length (pre @ xs))) (map arg_tag [Arg_int v]) = Some vs" "list_all2 (holds ?mem) [Arg_int v] vs"
    using extract_at [of "[Arg_int v]" ?mem "pre @ xs" post] by auto
  have "vs = [Val_int (sint v)]"
  proof -
    obtain x where "vs = [x]" "holds ?mem (Arg_int v) x" using vs(2) by (auto simp: list_all2_Cons1)
    then show ?thesis by (cases x) auto
  qed
  then have ex: "Osc_ExtractData ?mem (p + int (length xs)) ''i'' = Some [Val_int (sint v)]" using vs(1) assms(2) by simp
  show ?thesis unfolding index_tail_def t(1,2) bind.bind_lunit option.case t(3)
    by (simp only: list.case arg_tag.simps simp_thms if_True ex bind.bind_lunit osc_value.case)
      (simp add: each_index_def assms(5))
qed

lemma index_tail_get:
  assumes "has_mem c (pre @ xs @ padded (format_of []) @ post) s" and "p = int (length pre)"
    and "CHR '','' \<notin> set xs" and "int (length xs) < len" and "number \<noteq> - 1"
  shows "index_tail c p len count name pset pget props number bits j s =
    map_option (\<lambda>s. (CONTROLLER_OK, s))
      (do {
         (v, s) \<leftarrow> pget number j s;
         done_with (scratch_reply c (scratch (''/'' @ name @ ''/'' @ print_int number @ ''/'' @ props ! nat j)) '',i'' [Arg_int (word_of_int v)] s)
       })"
proof -
  let ?mem = "pre @ xs @ padded (format_of []) @ concat (map arg_bytes []) @ post"
  have m: "has_mem c ?mem s" using assms(1) by simp
  note t = tail_memory [OF m assms(2,3,4)]
  show ?thesis unfolding index_tail_def t(1,2) bind.bind_lunit option.case t(3)
    by (simp add: each_index_def assms(5))
qed

subsection \<open>A message on its way to a subsystem\<close>

lemma literal_match:
  assumes "\<forall>c \<in> set name. \<not> special c"
  shows "Osc_PatternMatch name t \<longleftrightarrow> t = name"
  using assms
proof (induction name arbitrary: t)
  case Nil
  then show ?case by (simp add: match_nil)
next
  case (Cons c name)
  then have "item_text (Literal c) @ name = c # name" by simp
  then show ?case using match_literal [of c name t] Cons by (cases t) auto
qed

lemma loop_others:
  assumes "\<forall>i \<in> set is. \<exists>sub. osc_sub i s = Some sub \<and> sub_name sub \<noteq> name" and "osc_string c (p + 1) s = Some name"
    and "\<forall>c \<in> set name. \<not> special c"
  shows "receive_loop recv c p len slash (is @ js) n s = receive_loop recv c p len slash js n s"
  using assms(1)
proof (induction "is")
  case Nil
  then show ?case by simp
next
  case (Cons i "is")
  then obtain sub where "osc_sub i s = Some sub" "sub_name sub \<noteq> name" by auto
  then show ?case using Cons assms(2) by (simp add: literal_match [OF assms(3)])
qed

text \<open>Exactly one registered subsystem has a name.\<close>

definition registered :: "nat \<Rightarrow> string \<Rightarrow> nat \<Rightarrow> 'a osc_state_scheme \<Rightarrow> bool" where
  "registered k name code s \<longleftrightarrow> int k < Osc_registeredSubsystems s \<and>
     (\<exists>sub. osc_sub k s = Some sub \<and> sub_name sub = name \<and> sub_receiveMessage sub = code) \<and>
     (\<forall>i. int i < Osc_registeredSubsystems s \<longrightarrow> i \<noteq> k \<longrightarrow> (\<exists>sub. osc_sub i s = Some sub \<and> sub_name sub \<noteq> name))"

text \<open>The memory in which a subsystem finds its part of a message: the slash behind the name has become a terminator.\<close>

definition heard :: "int \<Rightarrow> string \<Rightarrow> string \<Rightarrow> 'a osc_state_scheme \<Rightarrow> 'a osc_state_scheme" where
  "heard c name rest s = put_mem c (CHR ''/'' # name @ NUL # rest) s"

definition plain_name :: "string \<Rightarrow> bool" where
  "plain_name name \<longleftrightarrow> name \<noteq> [] \<and> hd name \<noteq> CHR '' '' \<and> (\<forall>c \<in> set name. \<not> special c \<and> c \<noteq> NUL \<and> c \<noteq> CHR ''/'' \<and> c \<noteq> CHR '','')"

lemma message_to_subsystem:
  assumes mem: "has_mem c (CHR ''/'' # name @ CHR ''/'' # path @ NUL # post) s" and name: "plain_name name" and path: "NUL \<notin> set path"
    and reg: "registered k name code s" and len: "int (length name + length path) + 2 \<le> len" "len < 2 ^ 32"
    and recv: "recv code c (int (length name) + 2) (len - int (length name) - 2) (heard c name (path @ NUL # post) s) = Some (r, t)"
    and keeps: "osc_mem c t = osc_mem c (heard c name (path @ NUL # post) s)" "\<And>i. osc_sub i t = osc_sub i s"
  shows "Osc_ReceiveMessage recv c 0 len s = Some (CONTROLLER_OK, t)"
proof -
  obtain d ds where d: "name = d # ds" using name by (cases name) (auto simp: plain_name_def)
  have d_ok: "d \<noteq> NUL" "d \<noteq> CHR '' ''" using name d by (auto simp: plain_name_def)
  have noname: "NUL \<notin> set name" "CHR ''/'' \<notin> set name" "\<forall>c \<in> set name. \<not> special c" using name by (auto simp: plain_name_def)
  have b0: "osc_byte c 0 s = Some (CHR ''/'')" using byte_at [of c "[]" "CHR ''/''" _ s 0] mem by simp
  have b1: "osc_byte c (0 + 1) s = Some d" using byte_at [of c "[CHR ''/'']" d _ s 1] mem d by simp
  have str: "osc_string c 0 s = Some (CHR ''/'' # name @ CHR ''/'' # path)"
    using string_at [of c "[]" "CHR ''/'' # name @ CHR ''/'' # path" post s 0] mem noname path by simp
  have fit: "\<not> int (length (CHR ''/'' # name @ CHR ''/'' # path)) > len mod 2 ^ 32" using len by simp
  have slash: "slash_at (tl (CHR ''/'' # name @ CHR ''/'' # path)) = Some (length name)" using slash_at_first noname(2) by simp
  define t0 where "t0 = heard c name (path @ NUL # post) s"
  have poke: "osc_poke c (0 + 1 + int (length name)) NUL s = Some t0"
    using poke_at [of c "CHR ''/'' # name" "CHR ''/''" "path @ NUL # post" s "0 + 1 + int (length name)"] mem by (simp add: t0_def heard_def)
  have mem0: "has_mem c (CHR ''/'' # name @ NUL # path @ NUL # post) t0" unfolding t0_def heard_def by (rule put_mem_has [OF mem])
  have sub0: "osc_sub i t0 = osc_sub i s" "Osc_registeredSubsystems t0 = Osc_registeredSubsystems s" for i by (simp_all add: t0_def heard_def)
  have pat0: "osc_string c (0 + 1) t0 = Some name" using string_at [of c "[CHR ''/'']" name "path @ NUL # post" t0] mem0 noname(1) by simp
  then have patt: "osc_string c (0 + 1) t = Some name" using keeps(1) by (simp add: osc_string_def t0_def)
  define n where "n = nat (Osc_registeredSubsystems s)"
  have k: "k < n" and subk: "\<exists>sub. osc_sub k s = Some sub \<and> sub_name sub = name \<and> sub_receiveMessage sub = code"
    and others: "\<And>i. i < n \<Longrightarrow> i \<noteq> k \<Longrightarrow> \<exists>sub. osc_sub i s = Some sub \<and> sub_name sub \<noteq> name"
    using reg by (auto simp: registered_def n_def)
  have upt: "[0..<n] = [0..<k] @ k # [Suc k..<n]"
    using k by (metis le_add_same_cancel1 less_imp_add_positive upt_add_eq_append upt_conv_Cons zero_le)
  have before: "\<forall>i \<in> set [0..<k]. \<exists>sub. osc_sub i t0 = Some sub \<and> sub_name sub \<noteq> name" using others k sub0 by auto
  have after: "\<forall>i \<in> set [Suc k..<n]. \<exists>sub. osc_sub i t = Some sub \<and> sub_name sub \<noteq> name" using others keeps(2) by auto
  let ?slash = "Some (0 + 1 + int (length name))"
  have call: "receive_loop recv c 0 len ?slash (k # js) m t0 = receive_loop recv c 0 len ?slash js (Suc m) t" for js m
  proof -
    obtain sub where "osc_sub k t0 = Some sub" "sub_name sub = name" "sub_receiveMessage sub = code" using subk sub0 by auto
    moreover have "recv code c (0 + 1 + int (length name) + 1) (len - (0 + 1 + int (length name) - 0) - 1) t0 = Some (r, t)"
      using recv by (simp add: t0_def algebra_simps)
    ultimately show ?thesis using pat0 by (simp add: literal_match [OF noname(3)])
  qed
  have "receive_loop recv c 0 len ?slash [0..<n] 0 t0 = Some (1, t)"
    unfolding upt loop_others [OF before pat0 noname(3)] call
    using loop_others [OF after patt noname(3), of recv len ?slash "[]" "Suc 0"] by simp
  then show ?thesis unfolding Osc_ReceiveMessage_def
    using d_ok fit by (simp add: b0 str b1 [simplified] slash [simplified] poke [simplified] sub0 Let_def flip: n_def)
qed

subsection \<open>The contract of a device\<close>

text \<open>The receive function of an indexed subsystem, as the devices instantiate it.\<close>

definition index_device ::
  "string \<Rightarrow> nat \<Rightarrow> string list \<Rightarrow> (int \<Rightarrow> int \<Rightarrow> int \<Rightarrow> (status, 'a osc_state_scheme) op) \<Rightarrow> (int \<Rightarrow> int \<Rightarrow> (int, 'a osc_state_scheme) op) \<Rightarrow>
    int \<Rightarrow> int \<Rightarrow> int \<Rightarrow> (status, 'a osc_state_scheme) op" where
  "index_device name count props pset pget channel p len s =
     do {
       (status, s) \<leftarrow> Osc_IndexIntReceiverHelper channel p len count name pset pget props s;
       if status \<noteq> CONTROLLER_OK then Osc_SendError channel name status s else Some (CONTROLLER_OK, s)
     }"

lemma osc_part:
  fixes s t :: "'a osc_state_scheme"
  assumes "inputs_state.more t = inputs_state.more s"
  shows "Osc_active t = Osc_active s" "Osc_channel t = Osc_channel s" "Osc_subsystem t = Osc_subsystem s" "Osc_out t = Osc_out s"
    "Osc_udpSendPort t = Osc_udpSendPort s" "Osc_stack t = Osc_stack s"
  using assms by (cases s; cases t; simp)+

lemma osc_part_channel:
  fixes s t :: "'a osc_state_scheme"
  assumes "inputs_state.more t = inputs_state.more s"
  shows "osc_channel c t = osc_channel c s" "osc_mem c t = osc_mem c s" "osc_sub i t = osc_sub i s"
  using osc_part [OF assms] by (simp_all add: osc_channel_def osc_mem_def osc_sub_def)

text \<open>The address of property \<open>pname\<close> of index \<open>i\<close>, and a message for it in the incoming buffer.\<close>

definition property_address :: "string \<Rightarrow> nat \<Rightarrow> string \<Rightarrow> string" where
  "property_address name i pname = ''/'' @ name @ ''/'' @ print_nat i @ ''/'' @ pname"

definition packet_received :: "int \<Rightarrow> string \<Rightarrow> 'a osc_state_scheme \<Rightarrow> bool" where
  "packet_received c msg s \<longleftrightarrow> (\<exists>ch post. channel_at c ch [] s \<and> och_incoming ch = msg @ post) \<and> length msg \<le> OSC_MAX_MESSAGE_IN \<and>
     (\<exists>b. Osc_null s = Some b \<and> b \<noteq> NUL \<and> b \<noteq> CHR '' '')"

text \<open>The state in which a device hears a message: the slash behind its name has become a terminator.\<close>

definition heard_at :: "int \<Rightarrow> string \<Rightarrow> 'a osc_state_scheme \<Rightarrow> 'a osc_state_scheme \<Rightarrow> bool" where
  "heard_at c name s h \<longleftrightarrow> (\<exists>rest. has_mem c (CHR ''/'' # name @ CHR ''/'' # rest) s \<and> h = heard c name rest s)"

subsection \<open>The reply to a read\<close>

lemma lookup_nth: "Osc_PropertyLookup props pname = j \<Longrightarrow> j \<noteq> - 1 \<Longrightarrow> 0 \<le> j \<and> props ! nat j = pname"
  by (induction props arbitrary: j) (auto simp: Let_def nat_add_distrib split: if_splits)

lemma scratch_same [simp]:
  "channel_at c ch ms (s\<lparr>Osc_scratch1 := x\<rparr>) = channel_at c ch ms s" "Osc_out (s\<lparr>Osc_scratch1 := x\<rparr>) = Osc_out s"
  "osc_mem c (s\<lparr>Osc_scratch1 := x\<rparr>) = osc_mem c s" "osc_sub i (s\<lparr>Osc_scratch1 := x\<rparr>) = osc_sub i s"
  by (simp_all add: channel_at_def osc_channel_def osc_mem_def osc_sub_def)

lemma emitted_scratch [simp]: "emitted ch (s\<lparr>Osc_scratch1 := x\<rparr>) = emitted ch s"
  by (rule emitted_cong) simp_all

lemma scratch_locks:
  fixes s :: "'a osc_state_scheme"
  shows "\<exists>x. snd (Osc_LockScratchBuf1 s) = s\<lparr>Osc_scratch1 := x\<rparr>" "\<exists>x. snd (Osc_UnlockScratchBuf1 s) = s\<lparr>Osc_scratch1 := x\<rparr>"
  by (rule exI [of _ "False"], simp add: Osc_LockScratchBuf1_def, rule exI [of _ "True"], simp add: Osc_UnlockScratchBuf1_def)

lemma fits_reply:
  assumes "length address \<le> 99"
  shows "fits [message_bytes address [Arg_int w]]"
proof -
  have "length (padded address) \<le> 103" using assms pad4_range [of "int (length address) + 1"] length_padded [of address] by simp
  moreover have "length (padded (format_of [Arg_int w])) = 4" by (simp add: format_of_def padded_def padding_def pad4_def Let_def)
  ultimately show ?thesis by (simp add: fits_def buffer_of_def message_bytes_def)
qed

lemma after_call_mem:
  assumes "channel_at c ch ms s"
  shows "osc_mem c (after_call c ch held [] s) = osc_mem c s" "osc_sub i (after_call c ch held [] s) = osc_sub i s"
proof -
  have "0 \<le> c" "c < 3" using assms channel_valid [of c s ch] by (auto simp: channel_at_def)
  then have at: "osc_channel c (after_call c ch held [] s) = Some (Osc_Unlock (stored ch held))"
    using assms by (auto simp: after_call_def osc_channel_def set_channel_def channel_at_def nat_less_iff split: if_splits)
  have "och_incoming (Osc_Unlock (stored ch held)) = och_incoming ch" by (simp add: Osc_Unlock_def stored_def)
  then show "osc_mem c (after_call c ch held [] s) = osc_mem c s" using at assms by (simp add: osc_mem_def channel_at_def)
  show "osc_sub i (after_call c ch held [] s) = osc_sub i s" by (simp add: osc_sub_def after_call_def set_channel_def)
qed

text \<open>A short reply on a channel that holds nothing is stored there and nothing is sent yet.\<close>

lemma scratch_reply_stored:
  assumes "channel_at c ch [] s" and "length address \<le> 99"
  shows "\<exists>t ch'. scratch_reply c (scratch address) '',i'' [Arg_int w] s = Some (CONTROLLER_OK, t) \<and>
    channel_at c ch' [message_bytes address [Arg_int w]] t \<and> Osc_out t = Osc_out s \<and> emitted ch' t = emitted ch s \<and>
    osc_mem c t = osc_mem c s \<and> (\<forall>i. osc_sub i t = osc_sub i s)"
proof -
  let ?m = "message_bytes address [Arg_int w]"
  obtain x where lock: "snd (Osc_LockScratchBuf1 s) = s\<lparr>Osc_scratch1 := x\<rparr>" using scratch_locks(1) by blast
  define u where "u = s\<lparr>Osc_scratch1 := x\<rparr>"
  have u: "channel_at c ch [] u" using assms(1) by (simp add: u_def)
  define w' where "w' = after_call c ch [?m] [] u"
  have created: "Osc_CreateMessage c address '',i'' [Arg_int w] u = Some (CONTROLLER_OK, w')"
    using create_message_eq [OF u, of address "[Arg_int w]"] fits_reply [OF assms(2), of w] by (simp add: format_of_def w'_def)
  obtain y where unlock: "snd (Osc_UnlockScratchBuf1 w') = w'\<lparr>Osc_scratch1 := y\<rparr>" using scratch_locks(2) by blast
  have "scratch address = address" using assms(2) by (simp add: scratch_def)
  then have "scratch_reply c (scratch address) '',i'' [Arg_int w] s = Some (CONTROLLER_OK, w'\<lparr>Osc_scratch1 := y\<rparr>)"
    using created lock unlock by (simp add: scratch_reply_def u_def split_beta)
  moreover note state = after_call_state [OF u fits_reply [OF assms(2), of w], where sent = "[]", folded w'_def]
  moreover note mem = after_call_mem [OF u, where held = "[?m]", folded w'_def]
  moreover have "emitted (Osc_Unlock (stored ch [?m])) w' = emitted ch s"
    by (rule ext) (simp add: Osc_Unlock_def emitted_same state(3) u_def)
  ultimately show ?thesis
    by (intro exI [of _ "w'\<lparr>Osc_scratch1 := y\<rparr>"] exI [of _ "Osc_Unlock (stored ch [?m])"]) (simp add: u_def)
qed

subsection \<open>Devices\<close>

locale osc_device =
  fixes name :: string and count :: nat and props :: "string list"
    and pset :: "int \<Rightarrow> int \<Rightarrow> int \<Rightarrow> (status, 'a osc_state_scheme) op"
    and pget :: "int \<Rightarrow> int \<Rightarrow> (int, 'a osc_state_scheme) op"
  assumes plain: "plain_name name"
    and few: "count \<le> 31"
    and set_keeps: "\<And>i j v s r t. pset i j v s = Some (r, t) \<Longrightarrow> inputs_state.more t = inputs_state.more s"
    and get_keeps: "\<And>i j s v t. pget i j s = Some (v, t) \<Longrightarrow> inputs_state.more t = inputs_state.more s"
begin

lemma device_tail:
  assumes rec: "packet_received c (message_bytes (property_address name i pname) args) s" and i: "i < count"
    and pname: "NUL \<notin> set pname" "CHR '','' \<notin> set pname" and j: "Osc_PropertyLookup props pname = j" "j \<noteq> - 1"
    and reg: "registered k name code s" and recv: "recv code = index_device name count props pset pget"
  shows "\<exists>pre xs post h. heard_at c name s h \<and>
    has_mem c (pre @ xs @ padded (format_of args) @ concat (map arg_bytes args) @ post) h \<and>
    length pre = length name + 2 \<and> CHR '','' \<notin> set xs \<and>
    int (length xs) < int (length (message_bytes (property_address name i pname) args)) - int (length pre) \<and>
    (\<forall>t. index_tail c (int (length pre)) (int (length (message_bytes (property_address name i pname) args)) - int (length pre))
        count name pset pget props (int i) (- 1) j h = Some (CONTROLLER_OK, t) \<longrightarrow>
      osc_mem c t = osc_mem c h \<longrightarrow> (\<forall>i. osc_sub i t = osc_sub i s) \<longrightarrow>
      Osc_ReceiveMessage recv c 0 (int (length (message_bytes (property_address name i pname) args))) s = Some (CONTROLLER_OK, t))"
proof -
  let ?addr = "property_address name i pname"
  define path where "path = print_nat i @ CHR ''/'' # pname"
  define pad where "pad = padding (length ?addr + 1)"
  define fmt where "fmt = padded (format_of args)"
  define data where "data = concat (map arg_bytes args)"
  define len where "len = int (length (message_bytes ?addr args))"
  obtain ch post b where ch: "channel_at c ch [] s" "och_incoming ch = message_bytes ?addr args @ post"
    and short: "length (message_bytes ?addr args) \<le> 200" and b: "Osc_null s = Some b" "b \<noteq> NUL" "b \<noteq> CHR '' ''"
    using rec by (auto simp: packet_received_def)
  have addr: "?addr = CHR ''/'' # name @ CHR ''/'' # path" by (simp add: property_address_def path_def)
  have msg: "message_bytes ?addr args = CHR ''/'' # name @ CHR ''/'' # path @ NUL # pad @ fmt @ data"
    unfolding message_bytes_def padded_def [of ?addr] by (simp add: addr pad_def fmt_def data_def)
  define rest where "rest = pad @ fmt @ data @ post"
  have mem: "has_mem c (CHR ''/'' # name @ CHR ''/'' # path @ NUL # rest) s"
    using ch by (simp add: has_mem_def channel_at_def osc_mem_def msg rest_def)
  define h where "h = heard c name (path @ NUL # rest) s"
  have mem_h: "has_mem c (CHR ''/'' # name @ NUL # path @ NUL # rest) h" unfolding h_def heard_def by (rule put_mem_has [OF mem])
  define pre where "pre = CHR ''/'' # name @ [NUL]"
  define xs where "xs = path @ NUL # pad"
  have pre: "length pre = length name + 2" by (simp add: pre_def)
  have lens: "len = int (length pre) + int (length xs) + int (length fmt) + int (length data)"
    by (simp add: len_def msg pre_def xs_def)
  have fmt_pos: "0 < length fmt" by (simp add: fmt_def padded_def)
  have path_ok: "NUL \<notin> set path" "CHR '','' \<notin> set path" using pname digit_not [of _ i] by (auto simp: path_def)
  have comma: "CHR '','' \<notin> set xs" using path_ok by (auto simp: xs_def pad_def padding_def)
  have null_h: "Osc_null h = Some b" using b(1) by (simp add: h_def heard_def)
  have helper: "Osc_IndexIntReceiverHelper c (int (length pre)) (len - int (length pre)) count name pset pget props h =
      index_tail c (int (length pre)) (len - int (length pre)) count name pset pget props (int i) (- 1) j h"
    using index_helper_found [of c pre i pname rest h "int (length pre)" count props j b] mem_h i few pname(1) j null_h b(2,3)
    by (simp add: pre_def path_def)
  have "Osc_ReceiveMessage recv c 0 len s = Some (CONTROLLER_OK, t)"
    if "index_tail c (int (length pre)) (len - int (length pre)) count name pset pget props (int i) (- 1) j h = Some (CONTROLLER_OK, t)"
      "osc_mem c t = osc_mem c h" "\<forall>i. osc_sub i t = osc_sub i s" for t
  proof (rule message_to_subsystem [OF mem plain path_ok(1) reg])
    show "int (length name + length path) + 2 \<le> len" by (simp add: lens pre_def xs_def)
    show "len < 2 ^ 32" using short by (simp add: len_def)
    show "recv code c (int (length name) + 2) (len - int (length name) - 2) (heard c name (path @ NUL # rest) s) = Some (CONTROLLER_OK, t)"
      using that(1) helper unfolding recv index_device_def h_def [symmetric]
      by (simp add: pre algebra_simps)
  qed (use that in \<open>simp_all add: h_def\<close>)
  moreover have "heard_at c name s h" using mem by (auto simp: heard_at_def h_def)
  moreover have "has_mem c (pre @ xs @ padded (format_of args) @ concat (map arg_bytes args) @ post) h"
    using mem_h by (simp add: pre_def xs_def rest_def fmt_def data_def)
  moreover have "int (length xs) < len - int (length pre)" using lens fmt_pos by linarith
  ultimately show ?thesis unfolding len_def [symmetric] using pre comma by blast
qed

text \<open>A message with one integer sets the property and nothing is sent.\<close>

lemma set_received:
  assumes rec: "packet_received c (message_bytes (property_address name i pname) [Arg_int v]) s" and i: "i < count"
    and pname: "NUL \<notin> set pname" "CHR '','' \<notin> set pname" and j: "Osc_PropertyLookup props pname = j" "j \<noteq> - 1"
    and reg: "registered k name code s" and recv: "recv code = index_device name count props pset pget"
    and total: "\<And>h. heard_at c name s h \<Longrightarrow> pset (int i) j (sint v) h \<noteq> None"
  shows "\<exists>h r t. heard_at c name s h \<and> pset (int i) j (sint v) h = Some (r, t) \<and>
    Osc_ReceivePacket recv c 0 (int (length (message_bytes (property_address name i pname) [Arg_int v]))) s = Some (CONTROLLER_OK, t) \<and>
    Osc_out t = Osc_out s"
proof -
  define len where "len = int (length (message_bytes (property_address name i pname) [Arg_int v]))"
  obtain pre xs post h where h: "heard_at c name s h"
    "has_mem c (pre @ xs @ padded (format_of [Arg_int v]) @ concat (map arg_bytes [Arg_int v]) @ post) h"
    "CHR '','' \<notin> set xs" "int (length xs) < len - int (length pre)"
    "\<And>t. index_tail c (int (length pre)) (len - int (length pre)) count name pset pget props (int i) (- 1) j h = Some (CONTROLLER_OK, t) \<Longrightarrow>
      osc_mem c t = osc_mem c h \<Longrightarrow> (\<forall>i. osc_sub i t = osc_sub i s) \<Longrightarrow> Osc_ReceiveMessage recv c 0 len s = Some (CONTROLLER_OK, t)"
    using device_tail [where recv = recv, OF rec i pname j reg recv] unfolding len_def by blast
  obtain r t where t: "pset (int i) j (sint v) h = Some (r, t)" using total [OF h(1)] by auto
  note more = set_keeps [OF t]
  have "index_tail c (int (length pre)) (len - int (length pre)) count name pset pget props (int i) (- 1) j h = Some (CONTROLLER_OK, t)"
    using index_tail_set [of c pre xs v post h "int (length pre)" "len - int (length pre)" "int i"] h(2,3,4) t by (simp add: done_with_def)
  moreover have "osc_mem c t = osc_mem c h" "osc_sub i t = osc_sub i h" for i using osc_part_channel [OF more] by auto
  moreover have sub: "osc_sub i h = osc_sub i s" and out: "Osc_out h = Osc_out s" for i using h(1) by (auto simp: heard_at_def heard_def)
  ultimately have msg: "Osc_ReceiveMessage recv c 0 len s = Some (CONTROLLER_OK, t)" using h(5) by simp
  obtain ch post' where ch: "channel_at c ch [] s" "och_incoming ch = message_bytes (property_address name i pname) [Arg_int v] @ post'"
    using rec by (auto simp: packet_received_def)
  have "osc_byte c 0 s = Some (CHR ''/'')"
    using ch by (simp add: osc_byte_def osc_mem_def channel_at_def message_bytes_def padded_def property_address_def)
  moreover have "Osc_SendPacket c t = Some (CONTROLLER_OK, t)"
  proof -
    obtain ch' where "osc_channel c h = Some ch'" "och_messages ch' = 0"
      using h(1) ch(1) by (auto simp: heard_at_def heard_def channel_at_def put_mem_channel holds_messages_def)
    then show ?thesis using osc_part_channel(1) [OF more, of c] channel_valid [of c h ch'] by (simp add: Osc_SendPacket_def bad_channel_def)
  qed
  ultimately have "Osc_ReceivePacket recv c 0 len s = Some (CONTROLLER_OK, t)"
    using msg unfolding Osc_ReceivePacket_def by (subst osc_receive.simps) (simp add: done_with_def)
  then show ?thesis using h(1) t out osc_part(4) [OF more] unfolding len_def by auto
qed

text \<open>A message without arguments is answered with the value under the same address.\<close>

lemma get_received:
  assumes rec: "packet_received c (message_bytes (property_address name i pname) []) s" and i: "i < count"
    and pname: "NUL \<notin> set pname" "CHR '','' \<notin> set pname" and j: "Osc_PropertyLookup props pname = j" "j \<noteq> - 1"
    and reg: "registered k name code s" and recv: "recv code = index_device name count props pset pget"
    and total: "\<And>h. heard_at c name s h \<Longrightarrow> pget (int i) j h \<noteq> None"
    and short: "length (property_address name i pname) \<le> 99" and ch: "osc_channel c s = Some ch"
  shows "\<exists>h v u t. heard_at c name s h \<and> pget (int i) j h = Some (v, u) \<and>
    Osc_ReceivePacket recv c 0 (int (length (message_bytes (property_address name i pname) []))) s = Some (CONTROLLER_OK, t) \<and>
    Osc_out t = Osc_out s @ emitted ch s (message_bytes (property_address name i pname) [Arg_int (word_of_int v)])"
proof -
  define len where "len = int (length (message_bytes (property_address name i pname) []))"
  obtain pre xs post h where h: "heard_at c name s h"
    "has_mem c (pre @ xs @ padded (format_of []) @ concat (map arg_bytes []) @ post) h"
    "CHR '','' \<notin> set xs" "int (length xs) < len - int (length pre)"
    "\<And>t. index_tail c (int (length pre)) (len - int (length pre)) count name pset pget props (int i) (- 1) j h = Some (CONTROLLER_OK, t) \<Longrightarrow>
      osc_mem c t = osc_mem c h \<Longrightarrow> (\<forall>i. osc_sub i t = osc_sub i s) \<Longrightarrow> Osc_ReceiveMessage recv c 0 len s = Some (CONTROLLER_OK, t)"
    using device_tail [where recv = recv, OF rec i pname j reg recv] unfolding len_def by blast
  obtain v u where u: "pget (int i) j h = Some (v, u)" using total [OF h(1)] by auto
  note more = get_keeps [OF u]
  have chan: "channel_at c ch [] s" using rec ch by (auto simp: packet_received_def channel_at_def)
  obtain ch1 where ch1: "channel_at c ch1 [] h" "emitted ch1 h = emitted ch s" "Osc_out h = Osc_out s"
  proof -
    obtain rest where h_eq: "h = put_mem c rest s" using h(1) by (auto simp: heard_at_def heard_def)
    have len3: "length (Osc_channel s) = 3" using chan by (simp add: channel_at_def)
    have "channel_at c (ch\<lparr>och_incoming := rest\<rparr>) [] h"
      using chan put_mem_channel [OF ch len3, of rest] by (simp add: channel_at_def h_eq ready_def holds_messages_def)
    moreover have "Osc_udpSendPort h = Osc_udpSendPort s" "Osc_stack h = Osc_stack s" "Osc_out h = Osc_out s"
      by (simp_all add: h_eq put_mem_def set_channel_def split: option.split)
    moreover from this have "emitted (ch\<lparr>och_incoming := rest\<rparr>) h = emitted ch s"
      by (intro ext) (simp add: emitted_def split: option.split osc_sender.split)
    ultimately show ?thesis using that by blast
  qed
  have ch1u: "channel_at c ch1 [] u" "emitted ch1 u = emitted ch s" "Osc_out u = Osc_out s"
    using ch1 osc_part [OF more] osc_part_channel [OF more] emitted_cong [of u h ch1] by (simp_all add: channel_at_def)
  let ?addr = "property_address name i pname"
  let ?m = "message_bytes ?addr [Arg_int (word_of_int v)]"
  have addr: "''/'' @ name @ ''/'' @ print_int (int i) @ ''/'' @ props ! nat j = ?addr"
    using lookup_nth [OF j] by (simp add: property_address_def print_int_def)
  obtain t ch2 where t: "scratch_reply c (scratch ?addr) '',i'' [Arg_int (word_of_int v)] u = Some (CONTROLLER_OK, t)"
    "channel_at c ch2 [?m] t" "Osc_out t = Osc_out u" "emitted ch2 t = emitted ch1 u" "osc_mem c t = osc_mem c u" "\<And>i. osc_sub i t = osc_sub i u"
    using scratch_reply_stored [OF ch1u(1) short] by blast
  have "index_tail c (int (length pre)) (len - int (length pre)) count name pset pget props (int i) (- 1) j h = Some (CONTROLLER_OK, t)"
    using index_tail_get [of c pre xs post h "int (length pre)" "len - int (length pre)" "int i"] h(2,3,4) u t(1)
    unfolding addr [symmetric] by (simp add: done_with_def)
  moreover have "osc_mem c t = osc_mem c h" "osc_sub i t = osc_sub i h" for i using t(5,6) osc_part_channel [OF more] by auto
  moreover have sub: "osc_sub i h = osc_sub i s" for i using h(1) by (auto simp: heard_at_def heard_def)
  ultimately have msg: "Osc_ReceiveMessage recv c 0 len s = Some (CONTROLLER_OK, t)" using h(5) by simp
  have "osc_byte c 0 s = Some (CHR ''/'')"
    using rec ch by (auto simp: packet_received_def osc_byte_def osc_mem_def channel_at_def message_bytes_def padded_def property_address_def)
  moreover have "Osc_SendPacket c t = Some (CONTROLLER_OK, after_call c ch2 [] [[?m]] t)" using send_packet_eq [OF t(2)] by simp
  ultimately have "Osc_ReceivePacket recv c 0 len s = Some (CONTROLLER_OK, after_call c ch2 [] [[?m]] t)"
    using msg unfolding Osc_ReceivePacket_def by (subst osc_receive.simps) (simp add: done_with_def)
  moreover have "Osc_out (after_call c ch2 [] [[?m]] t) = Osc_out s @ emitted ch s ?m"
    using after_call_state(2) [OF t(2), of "[]" "[[?m]]"] t(3,4) ch1u by (simp add: fits_def buffer_of_def packet_of_def)
  ultimately show ?thesis using h(1) u unfolding len_def by blast
qed

end

end
