(* ===== verification/OscDevices.thy ===== *)
theory OscDevices
  imports OscDispatch
begin

text \<open>
  The LEDs and the digital outputs of the application board as devices of the OSC system: their property handlers leave the
  OSC state alone, so a message reaches them and is answered as the contract of \<open>osc_device\<close> says.
\<close>

subsection \<open>What an operation on the lines leaves alone\<close>

lemma io_rest [simp]:
  "io_state.more (snd (set_line w i s)) = io_state.more s"
  "Io_Start i lk s = Some (r, t) \<Longrightarrow> io_state.more t = io_state.more s"
  "Io_Stop i s = Some (r, t) \<Longrightarrow> io_state.more t = io_state.more s"
  by (auto simp: set_line_def on_port_def Io_Start_def Io_Stop_def pin_take_def pin_drop_def Io_Init_def Io_Deinit_def Let_def
      split: if_splits)

lemma io_setters_rest [simp]:
  "io_state.more (snd (Io_SetValue i v s)) = io_state.more s" "io_state.more (snd (Io_SetPio i v s)) = io_state.more s"
  "io_state.more (snd (Io_SetDirection i v s)) = io_state.more s"
  by (simp_all add: Io_SetValue_def Io_SetPio_def Io_PioEnable_def Io_PioDisable_def Io_SetDirection_def Io_SetOutput_def
      Io_SetInput_def)

lemma io_leds_rest:
  fixes s t :: "'a leds_state_scheme"
  shows "io_state.more t = io_state.more s \<Longrightarrow> leds_state.more t = leds_state.more s"
  by (cases s; cases t; simp)

lemma leds_dout_rest:
  fixes s t :: "'a digitalout_state_scheme"
  shows "leds_state.more t = leds_state.more s \<Longrightarrow> digitalout_state.more t = digitalout_state.more s"
  by (cases s; cases t; simp)

lemma dout_inputs_rest:
  fixes s t :: "'a inputs_state_scheme"
  shows "digitalout_state.more t = digitalout_state.more s \<Longrightarrow> inputs_state.more t = inputs_state.more s"
  by (cases s; cases t; simp)

lemmas io_dout_rest = leds_dout_rest [OF io_leds_rest]
lemmas leds_inputs_rest = dout_inputs_rest [OF leds_dout_rest]

lemmas leds_rest [simp] = io_rest [THEN io_leds_rest] io_setters_rest [THEN io_leds_rest]
lemmas dout_rest [simp] = io_rest [THEN io_dout_rest] io_setters_rest [THEN io_dout_rest]

lemma appled_add_rest [simp]: "leds_state.more (appled_add i d s) = leds_state.more s"
  by (simp add: appled_add_def)

lemma dout_add_rest [simp]:
  "digitalout_state.more (dout_add i d s) = digitalout_state.more s"
  "digitalout_state.more (dout_enable_add i d s) = digitalout_state.more s"
  by (simp_all add: dout_add_def dout_enable_add_def)

lemma AppLed_Start_rest [simp]: "AppLed_Start i s = Some (r, t) \<Longrightarrow> leds_state.more t = leds_state.more s"
  by (auto simp: AppLed_Start_def Let_def split: if_splits Option.bind_splits)

lemma AppLed_Stop_rest [simp]: "AppLed_Stop i s = Some (r, t) \<Longrightarrow> leds_state.more t = leds_state.more s"
  by (auto simp: AppLed_Stop_def Let_def split: if_splits Option.bind_splits)

lemma appled_property_rest:
  "AppLedOsc_PropertySet i j v s = Some (r, t) \<Longrightarrow> leds_state.more t = leds_state.more s"
  "AppLedOsc_PropertyGet i j s = Some (w, t) \<Longrightarrow> leds_state.more t = leds_state.more s"
  by (auto simp: AppLedOsc_PropertySet_def AppLedOsc_PropertyGet_def AppLed_SetActive_def AppLed_SetState_def AppLed_GetState_def
      split: if_splits Option.bind_splits)

lemma DigitalOut_Start_rest [simp]: "DigitalOut_Start i s = Some (r, t) \<Longrightarrow> digitalout_state.more t = digitalout_state.more s"
  by (auto simp: DigitalOut_Start_def DigitalOut_enable_def Let_def split: if_splits Option.bind_splits)

lemma DigitalOut_Stop_rest [simp]: "DigitalOut_Stop i s = Some (r, t) \<Longrightarrow> digitalout_state.more t = digitalout_state.more s"
  by (auto simp: DigitalOut_Stop_def Let_def split: if_splits Option.bind_splits)

lemma dout_property_rest:
  "DigitalOutOsc_PropertySet i j v s = Some (r, t) \<Longrightarrow> digitalout_state.more t = digitalout_state.more s"
  "DigitalOutOsc_PropertyGet i j s = Some (w, t) \<Longrightarrow> digitalout_state.more t = digitalout_state.more s"
  by (auto simp: DigitalOutOsc_PropertySet_def DigitalOutOsc_PropertyGet_def DigitalOut_SetActive_def DigitalOut_SetValue_def
      DigitalOut_GetValue_def split: if_splits Option.bind_splits)

subsection \<open>The devices\<close>

interpretation appled_osc: osc_device "''appled''" 4 "[''active'', ''state'']" AppLedOsc_PropertySet AppLedOsc_PropertyGet
  by unfold_locales
    (auto simp: plain_name_def special_def dest: appled_property_rest [THEN leds_inputs_rest])

interpretation dout_osc: osc_device "''digitalout''" 8 "[''active'', ''value'']" DigitalOutOsc_PropertySet DigitalOutOsc_PropertyGet
  by unfold_locales
    (auto simp: plain_name_def special_def dest: dout_property_rest [THEN dout_inputs_rest])

lemma osc_receivers:
  "AppLedOsc_ReceiveMessage = index_device ''appled'' 4 [''active'', ''state''] AppLedOsc_PropertySet AppLedOsc_PropertyGet"
  "DigitalOutOsc_ReceiveMessage =
     index_device ''digitalout'' 8 [''active'', ''value''] DigitalOutOsc_PropertySet DigitalOutOsc_PropertyGet"
  by (intro ext; simp only: AppLedOsc_ReceiveMessage_def DigitalOutOsc_ReceiveMessage_def index_device_def)+

text \<open>Hearing a message changes nothing a device looks at.\<close>

lemma channel_update_parts [simp]:
  "line_users (s\<lparr>Osc_channel := x\<rparr>) = line_users s" "line_locked (s\<lparr>Osc_channel := x\<rparr>) = line_locked s"
  "io_inv (s\<lparr>Osc_channel := x\<rparr>) = io_inv s" "line_out (s\<lparr>Osc_channel := x\<rparr>) = line_out s"
  by (simp_all add: line_users_def line_locked_def io_inv_def line_out_def port_def fun_eq_iff)

lemma heard_parts:
  assumes "heard_at c name s h"
  shows "AppLed_users h = AppLed_users s" "DigitalOut_users h = DigitalOut_users s"
    "DigitalOut_enableUsers h = DigitalOut_enableUsers s" "line_users h = line_users s" "line_locked h = line_locked s"
    "io_inv h = io_inv s" "line_out h = line_out s" "PIOA h = PIOA s" "PIOB h = PIOB s"
proof -
  obtain mem where "h = put_mem c mem s" using assms by (auto simp: heard_at_def heard_def)
  then consider "h = s" | x where "h = s\<lparr>Osc_channel := x\<rparr>"
    by (cases "osc_channel c s") (simp_all add: put_mem_def set_channel_def)
  then show "AppLed_users h = AppLed_users s" "DigitalOut_users h = DigitalOut_users s"
    "DigitalOut_enableUsers h = DigitalOut_enableUsers s" "line_users h = line_users s" "line_locked h = line_locked s"
    "io_inv h = io_inv s" "line_out h = line_out s" "PIOA h = PIOA s" "PIOB h = PIOB s"
    by (cases; simp)+
qed

lemma heard_inv:
  assumes "heard_at c name s h"
  shows "appled_inv h = appled_inv s" "dout_inv h = dout_inv s"
  by (simp_all add: appled_inv_def dout_inv_def dout_active_def heard_parts [OF assms])

subsection \<open>Setting an LED\<close>

lemma plain_properties:
  "NUL \<notin> set ''state''" "CHR '','' \<notin> set ''state''" "NUL \<notin> set ''value''" "CHR '','' \<notin> set ''value''"
  "Osc_PropertyLookup [''active'', ''state''] ''state'' = 1" "Osc_PropertyLookup [''active'', ''value''] ''value'' = 1"
  by (simp_all add: Let_def)

lemma appled_set_state:
  assumes inv: "appled_inv s" and i: "appled_index i"
    and free: "AppLed_users s ! nat i > 0 \<or> line_users s (AppLed_GetIo i) = 0"
  shows "\<exists>t. AppLedOsc_PropertySet i 1 v s = Some (CONTROLLER_OK, t) \<and> AppLed_users t ! nat i > 0 \<and>
    line_locked t (AppLed_GetIo i) \<and> (line_out t (AppLed_GetIo i) \<longleftrightarrow> v = 0)"
proof -
  have io: "io_line (AppLed_GetIo i)" by (rule appled_line [OF i])
  obtain u where u: "(if AppLed_users s ! nat i < 1 then AppLed_Start i s else Some (CONTROLLER_OK, s)) = Some (CONTROLLER_OK, u)"
    "AppLed_users u ! nat i > 0" "line_locked u (AppLed_GetIo i)"
  proof (cases "AppLed_users s ! nat i > 0")
    case True
    then show ?thesis using that [of s] appled_invD [OF inv i] by simp
  next
    case False
    then have z: "AppLed_users s ! nat i = 0" using appled_invD(4) [OF inv i] by simp
    obtain u where "AppLed_Start i s = Some (CONTROLLER_OK, u)" "AppLed_users u = (AppLed_users s)[nat i := 1]"
      "line_locked u (AppLed_GetIo i)"
      using AppLed_Start_first [OF inv i z] free z by auto
    then show ?thesis using that [of u] z appled_invD [OF inv i] by simp
  qed
  have "AppLed_SetState i v s = Some (CONTROLLER_OK, snd (Io_SetValue (AppLed_GetIo i) (v = 0) u))"
    using i u(1) by (simp add: AppLed_SetState_def appled_index_def)
  then show ?thesis using u(2,3) io by (simp add: AppLedOsc_PropertySet_def line_out_SetValue)
qed

text \<open>
  C3: A packet with the message \<open>/appled/i/state\<close> and one integer, received on a channel of the OSC system in which the LEDs are
  registered, turns LED \<open>i\<close> on exactly when the integer is not zero: the handler finds the subsystem, the index and the
  property in the address, starts the LED when nobody has, and drives its line (an LED is lit by a low level); the LED
  then owns its line, the packet is accepted and nothing is sent back.
\<close>
theorem osc_sets_led:
  assumes rec: "packet_received c (message_bytes (property_address ''appled'' i ''state'') [Arg_int v]) s" and i: "i < 4"
    and reg: "registered k ''appled'' code s" and recv: "recv code = AppLedOsc_ReceiveMessage"
    and inv: "appled_inv s" and free: "AppLed_users s ! i > 0 \<or> line_users s (AppLed_GetIo (int i)) = 0"
  shows "\<exists>t. Osc_ReceivePacket recv c 0 (int (length (message_bytes (property_address ''appled'' i ''state'') [Arg_int v]))) s =
      Some (CONTROLLER_OK, t) \<and>
    AppLed_users t ! i > 0 \<and> line_locked t (AppLed_GetIo (int i)) \<and> (line_out t (AppLed_GetIo (int i)) \<longleftrightarrow> v = 0) \<and>
    Osc_out t = Osc_out s"
proof -
  have idx: "appled_index (int i)" using i by (simp add: appled_index_def)
  have zero: "sint v = 0 \<longleftrightarrow> v = 0" by (metis signed_0 signed_word_eqI)
  have set: "\<exists>t. AppLedOsc_PropertySet (int i) 1 (sint v) h = Some (CONTROLLER_OK, t) \<and> AppLed_users t ! i > 0 \<and>
      line_locked t (AppLed_GetIo (int i)) \<and> (line_out t (AppLed_GetIo (int i)) \<longleftrightarrow> v = 0)"
    if "heard_at c ''appled'' s h" for h
    using appled_set_state [of h "int i" "sint v"] inv free idx heard_parts [OF that] heard_inv [OF that] zero by simp
  have total: "AppLedOsc_PropertySet (int i) 1 (sint v) h \<noteq> None" if "heard_at c ''appled'' s h" for h using set [OF that] by auto
  obtain h r t where t: "heard_at c ''appled'' s h" "AppLedOsc_PropertySet (int i) 1 (sint v) h = Some (r, t)"
    "Osc_ReceivePacket recv c 0 (int (length (message_bytes (property_address ''appled'' i ''state'') [Arg_int v]))) s =
      Some (CONTROLLER_OK, t)" "Osc_out t = Osc_out s"
    using appled_osc.set_received [where recv = recv, OF rec i plain_properties(1,2,5) _ reg _ total] recv osc_receivers(1) by auto
  then show ?thesis using set [OF t(1)] by auto
qed

text \<open>
  C14: A packet with the message \<open>/digitalout/i/value\<close> and no arguments is answered: the line of an output in use is read and its
  level, 0 or 1, is sent from the channel the packet came in on, in one packet whose address is the address asked for.
\<close>
theorem osc_reads_output:
  assumes rec: "packet_received c (message_bytes (property_address ''digitalout'' i ''value'') []) s" and i: "i < 8"
    and reg: "registered k ''digitalout'' code s" and recv: "recv code = DigitalOutOsc_ReceiveMessage"
    and used: "DigitalOut_users s ! i > 0" and ch: "osc_channel c s = Some ch"
  shows "\<exists>t. Osc_ReceivePacket recv c 0 (int (length (message_bytes (property_address ''digitalout'' i ''value'') []))) s =
      Some (CONTROLLER_OK, t) \<and>
    Osc_out t = Osc_out s @ emitted ch s (message_bytes (property_address ''digitalout'' i ''value'')
      [Arg_int (of_bool (line_level s (DigitalOut_GetIo (int i))))])"
proof -
  let ?io = "DigitalOut_GetIo (int i)" and ?addr = "property_address ''digitalout'' i ''value''"
  have io: "io_line ?io" by (rule dout_lines(1)) (use i in \<open>simp add: dout_index_def\<close>)
  have get: "DigitalOutOsc_PropertyGet (int i) 1 h = Some (of_bool (line_level s ?io), h)" if "heard_at c ''digitalout'' s h" for h
  proof -
    have "line_level h ?io = line_level s ?io" using heard_parts [OF that] by (simp add: line_level_def port_def)
    then show ?thesis
      using used i io heard_parts [OF that] by (simp add: DigitalOutOsc_PropertyGet_def DigitalOut_GetValue_def Io_GetValue_level)
  qed
  then have total: "DigitalOutOsc_PropertyGet (int i) 1 h \<noteq> None" if "heard_at c ''digitalout'' s h" for h using that by simp
  have short: "length ?addr \<le> 99" using i by (simp add: property_address_def print_nat.simps [of i])
  obtain h w u t where t: "heard_at c ''digitalout'' s h" "DigitalOutOsc_PropertyGet (int i) 1 h = Some (w, u)"
    "Osc_ReceivePacket recv c 0 (int (length (message_bytes ?addr []))) s = Some (CONTROLLER_OK, t)"
    "Osc_out t = Osc_out s @ emitted ch s (message_bytes ?addr [Arg_int (word_of_int w)])"
    using dout_osc.get_received [where recv = recv, OF rec i plain_properties(3,4,6) _ reg _ total short ch] recv osc_receivers(2)
    by auto
  then show ?thesis using get [OF t(1)] by auto
qed

subsection \<open>An OSC system with one device\<close>

text \<open>The system is switched on, its USB task starts, a device registers and a packet comes in.\<close>

definition usb_system :: "string \<Rightarrow> string \<Rightarrow> 'a osc_state_scheme \<Rightarrow> 'a osc_state_scheme option" where
  "usb_system name packet s =
     do {
       s \<leftarrow> Osc_SetActive True True True True s;
       s \<leftarrow> Osc_UsbTask_start s;
       (_, s) \<leftarrow> Osc_RegisterSubsystem name 0 None s;
       osc_incoming OSC_CHANNEL_USB packet s
     }"

lemma usb_system_ready:
  assumes boot: "\<not> Osc_active b" "och_semaphore (Osc_fresh b) = None" "och_incoming (Osc_fresh b) = replicate 200 NUL"
    "Osc_null b = Some (CHR 0x18)" and short: "length packet \<le> 200"
  shows "\<exists>s ch. usb_system name packet b = Some s \<and> packet_received 1 packet s \<and> registered 0 name 0 s \<and> osc_channel 1 s = Some ch \<and>
    och_sendMessage ch = Some UsbPacketSend \<and> Osc_out s = Osc_out b \<and>
    AppLed_users s = AppLed_users b \<and> DigitalOut_users s = DigitalOut_users b \<and> appled_inv s = appled_inv b \<and>
    line_users s = line_users b \<and> line_level s = line_level b"
proof -
  define ch0 where "ch0 = (Osc_ResetChannel ((Osc_fresh b)\<lparr>och_sendMessage := Some UsbPacketSend\<rparr>))\<lparr>och_running := True\<rparr>"
  define ch where "ch = ch0\<lparr>och_incoming := packet @ drop (length packet) (replicate 200 NUL)\<rparr>"
  define s where "s = b\<lparr>Osc_active := True, Osc_running := True, Osc_channel := [None, Some ch, None],
    Osc_subsystem := (replicate 18 None)[0 := Some \<lparr>sub_name = name, sub_receiveMessage = 0, sub_async = None\<rparr>],
    Osc_registeredSubsystems := 1, Osc_scratch1 := True, Osc_scratch2 := True,
    Osc_tasks := [Osc_UdpTask, Osc_UsbTask, Osc_AsyncTask]\<rparr>"
  have in0: "och_incoming ch0 = replicate 200 NUL" using boot(3) by (simp add: ch0_def Osc_ResetChannel_def)
  have "usb_system name packet b = Some s"
    using boot(1) in0 by (simp add: usb_system_def Osc_SetActive_def Osc_UsbTask_start_def Osc_RegisterSubsystem_def osc_incoming_def
      osc_channel_def set_channel_def s_def ch_def numeral_3_eq_3 flip: ch0_def)
  moreover have chan: "osc_channel 1 s = Some ch" by (simp add: osc_channel_def s_def)
  moreover have send: "och_sendMessage ch = Some UsbPacketSend" "ready 1 ch" "holds_messages ch []"
    using boot(2) by (simp_all add: ch_def ch0_def Osc_ResetChannel_def ready_def holds_messages_def buffer_of_def)
  moreover have "packet_received 1 packet s"
    unfolding packet_received_def using chan send short boot(4)
    by (intro conjI exI [of _ ch] exI [of _ "drop (length packet) (replicate 200 NUL)"] exI [of _ "CHR 0x18"])
      (simp_all add: channel_at_def s_def ch_def)
  moreover have "registered 0 name 0 s" by (simp add: registered_def osc_sub_def s_def)
  moreover have io: "line_users s = line_users b" "line_level s = line_level b" "line_locked s = line_locked b" "io_inv s = io_inv b"
    by (simp_all add: s_def line_users_def line_level_def line_locked_def io_inv_def port_def fun_eq_iff)
  moreover have "AppLed_users s = AppLed_users b" "DigitalOut_users s = DigitalOut_users b" "Osc_out s = Osc_out b"
    by (simp_all add: s_def)
  ultimately show ?thesis by (auto simp: appled_inv_def)
qed

lemma osc_boot_parts: "AppLed_users osc_boot = replicate 4 0" "line_users osc_boot = line_users leds_boot" "appled_inv osc_boot"
proof -
  have pins: "Io_pins osc_boot = Io_pins leds_boot" "Io_users osc_boot = Io_users leds_boot" "Io_init osc_boot = Io_init leds_boot"
    "AppLed_users osc_boot = replicate 4 0"
    by (simp_all add: osc_boot_def inputs_state.defs inputs_boot_def digitalout_state.defs dout_boot_def leds_state.defs
      leds_boot_def fasttimer_state.defs)
  then show users: "AppLed_users osc_boot = replicate 4 0" and "line_users osc_boot = line_users leds_boot"
    by (simp_all add: line_users_def fun_eq_iff)
  have "io_inv osc_boot" using leds_boot_inv(1) by (simp add: appled_inv_def io_inv_def pins)
  then show "appled_inv osc_boot" by (intro appled_invI) (auto simp: users appled_index_def)
qed

lemma osc_boot_low: "\<not> line_level osc_boot l"
proof -
  have "PIO_PDSR (PIOA osc_boot) = 0" "PIO_PDSR (PIOB osc_boot) = 0"
    by (simp_all add: osc_boot_def inputs_state.defs inputs_boot_def digitalout_state.defs dout_boot_def leds_state.defs
      leds_boot_def fasttimer_state.defs ft_boot_def io_state.defs io_boot_def Let_def)
  then show ?thesis by (simp add: line_level_def port_def)
qed

theorem osc_sets_led_witness:
  "\<exists>s t :: osc_state. usb_system ''appled'' (message_bytes ''/appled/2/state'' [Arg_int 1]) osc_boot = Some s \<and>
     Osc_ReceivePacket (\<lambda>_. AppLedOsc_ReceiveMessage) 1 0 24 s = Some (CONTROLLER_OK, t) \<and>
     line_locked t (AppLed_GetIo 2) \<and> \<not> line_out t (AppLed_GetIo 2) \<and> Osc_out t = []"
proof -
  let ?msg = "message_bytes (property_address ''appled'' 2 ''state'') [Arg_int 1]"
  have addr: "property_address ''appled'' 2 ''state'' = ''/appled/2/state''" by code_simp
  have len: "length ?msg = 24" unfolding addr by code_simp
  obtain s :: osc_state where s: "usb_system ''appled'' ?msg osc_boot = Some s" "packet_received 1 ?msg s" "registered 0 ''appled'' 0 s"
    "Osc_out s = []" "AppLed_users s = AppLed_users osc_boot" "appled_inv s" "line_users s = line_users osc_boot"
    using usb_system_ready [of osc_boot ?msg "''appled''"] osc_boot_fields osc_boot_parts(3) len by auto
  have free: "line_users s (AppLed_GetIo (int 2)) = 0" using s(7) osc_boot_parts(2) leds_boot_inv(2) by simp
  show ?thesis
    using osc_sets_led [where recv = "\<lambda>_. AppLedOsc_ReceiveMessage", OF s(2) _ s(3) refl s(6) disjI2, OF _ free] s(1,4) len
    unfolding addr by auto
qed

theorem osc_reads_output_witness:
  "\<exists>s t :: osc_state. usb_system ''digitalout'' (message_bytes ''/digitalout/5/value'' [])
      (osc_boot\<lparr>DigitalOut_users := (replicate 8 0)[5 := 1]\<rparr>) = Some s \<and>
     Osc_ReceivePacket (\<lambda>_. DigitalOutOsc_ReceiveMessage) 1 0 24 s = Some (CONTROLLER_OK, t) \<and>
     Osc_out t = [Slip (message_bytes ''/digitalout/5/value'' [Arg_int 0])]"
proof -
  let ?b = "osc_boot\<lparr>DigitalOut_users := (replicate 8 0)[5 := 1]\<rparr>"
  let ?msg = "message_bytes (property_address ''digitalout'' 5 ''value'') []"
  have addr: "property_address ''digitalout'' 5 ''value'' = ''/digitalout/5/value''" by code_simp
  have len: "length ?msg = 24" unfolding addr by code_simp
  obtain s :: osc_state and ch where s: "usb_system ''digitalout'' ?msg ?b = Some s" "packet_received 1 ?msg s" "registered 0 ''digitalout'' 0 s"
    "osc_channel 1 s = Some ch" "och_sendMessage ch = Some UsbPacketSend" "Osc_out s = []" "DigitalOut_users s = DigitalOut_users ?b"
    "line_level s = line_level ?b"
    using usb_system_ready [of ?b ?msg "''digitalout''"] osc_boot_fields len by auto
  have used: "DigitalOut_users s ! 5 > 0" using s(7) by simp
  have "emitted ch s p = [Slip p]" for p using s(5) by (simp add: emitted_def)
  moreover have "\<not> line_level s (DigitalOut_GetIo (int 5))"
    using osc_boot_low [of "DigitalOut_GetIo (int 5)"] unfolding s(8) by (simp add: line_level_def port_def split: if_splits)
  ultimately show ?thesis
    using osc_reads_output [where recv = "\<lambda>_. DigitalOutOsc_ReceiveMessage", OF s(2) _ s(3) refl used s(4)] s(1,6) len
    unfolding addr by auto
qed

subsection \<open>A bundle that never ends\<close>

text \<open>
  An element whose length is -4 leads the loop back to the position it came from, with the same number of bytes left; what stands behind it
  is taken for a packet each time.
\<close>

lemma negative_element:
  assumes mem: "osc_mem c s = Some (bundle_head @ store_int (Osc_EndianSwap (- 4)) @ CHR ''#'' # NUL # rest)"
    and ch: "osc_channel c s = Some ch" "och_messages ch = 0" and len: "0 < len" "len < 2 ^ 31"
  shows "osc_receive recv c Elements 16 len s = None"
proof (rule ccontr)
  assume "osc_receive recv c Elements 16 len s \<noteq> None"
  then obtain y where y: "osc_receive recv c Elements 16 len s = Some y" by auto
  define P where "P = (\<lambda>recv' (c' :: int) job (p :: int) l s' (z :: int \<times> 'a osc_state_scheme). recv' = recv \<longrightarrow> c' = c \<longrightarrow> s' = s \<longrightarrow>
    \<not> (job = Elements \<and> p = 16 \<and> l = len) \<and> (job = Packet \<and> p = 20 \<longrightarrow> snd z = s))"
  have head: "length (bundle_head @ store_int (Osc_EndianSwap (- 4))) = 20" by simp
  have n: "Osc_ReadInt (bundle_head @ store_int (Osc_EndianSwap (- 4)) @ CHR ''#'' # NUL # rest) 16 = Some (- 4)"
    by (simp add: Osc_ReadInt_def mem_at_def)
  have at20: "osc_byte c 20 s = Some (CHR ''#'')" "osc_mem c s \<bind> (\<lambda>mem. mem_at mem 20) = Some (CHR ''#'' # NUL # rest)"
    using mem by (simp_all add: osc_byte_def mem_at_def nth_append)
  have idle: "Osc_SendPacket c s = Some (CONTROLLER_OK, s)"
    using ch channel_valid [OF ch(1)] by (simp add: Osc_SendPacket_def bad_channel_def)
  have "P recv c Elements 16 len s y"
  proof (rule osc_receive.raw_induct [OF _ y])
    fix rec recv' c' job p l s' z
    assume IH: "\<And>recv' c' job p l s' z. rec recv' c' job p l s' = Some z \<Longrightarrow> P recv' c' job p l s' z"
      and body: "(case job of
        Packet \<Rightarrow>
          do {
            ch \<leftarrow> osc_byte c' p s';
            s' \<leftarrow> (if ch = CHR ''/'' then done_with (Osc_ReceiveMessage recv' c' p l s')
                   else if ch = CHR ''#'' then
                     do {
                       m \<leftarrow> osc_mem c' s' \<bind> (\<lambda>mem. mem_at mem p);
                       bundle \<leftarrow> strcmp_eq m ''#bundle'';
                       if bundle then rec recv' c' Elements (p + 16) (l - 16) s' \<bind> (\<lambda>(r, s). Some s) else Some s'
                     }
                   else done_with (Osc_CreateMessage c' ''/error'' '',s'' [Arg_string ''Packet Error''] s'));
            Osc_SendPacket c' s'
          }
      | Elements \<Rightarrow>
          (if l > 0 then
             do {
               mem \<leftarrow> osc_mem c' s';
               n \<leftarrow> Osc_ReadInt mem p;
               let p = p + 4; l = l - 4 in
               do {
                 s' \<leftarrow> (if n \<le> l then rec recv' c' Packet p n s' \<bind> (\<lambda>(r, s). Some s) else Some s');
                 rec recv' c' Elements (p + n) (c_int (l - n)) s'
               }
             }
           else Some (CONTROLLER_OK, s'))) = Some z"
    show "P recv' c' job p l s' z"
      unfolding P_def
    proof (intro impI conjI notI)
      assume same: "recv' = recv" "c' = c" "s' = s"
      { assume job: "job = Packet \<and> p = 20"
        then have "Some (CONTROLLER_OK, s) = Some z" using body at20 idle by (simp add: same)
        then show "snd z = s" by auto }
      { assume job: "job = Elements \<and> p = 16 \<and> l = len"
        have "c_int len = len" using len by (simp add: c_int_small)
        then obtain r t where "rec recv c Packet 20 (- 4) s = Some (r, t)" "rec recv c Elements 16 len t = Some z"
          using body len mem n job by (auto simp: same Let_def split: Option.bind_splits)
        moreover from IH [OF this(1)] have "t = s" by (simp add: P_def)
        ultimately show False using IH [of recv c Elements 16 len s z] by (simp add: P_def) }
    qed
  qed
  then show False by (simp add: P_def)
qed



end
