(* ===== verification/SerialPort.thy ===== *)
theory SerialPort
  imports OscOutbox "HOL-Library.Signed_Division"
begin

text \<open>
  The serial ports (\<^verbatim>\<open>src/firmware/core/makingthings/serial.c\<close>, \<^verbatim>\<open>serial_isr.c\<close>): two USARTs, each with a queue of received characters that
  its interrupt fills and a queue of characters the interrupt sends. A queue of FreeRTOS is its capacity and contents; the null pointer and
  a deleted queue are \<open>None\<close>. What the interrupts do while a call waits is a parameter \<open>env\<close> of the operations that wait, applied to the longest time they wait.
\<close>

abbreviation (input) CONTROLLER_ERROR_QUEUE_ERROR :: status where "CONTROLLER_ERROR_QUEUE_ERROR \<equiv> - 18"

subsection \<open>State\<close>

type_synonym byte_queue = "nat \<times> u8 list"

record usart =
  US_CSR :: u32
  US_IMR :: u32
  US_BRGR :: u32
  US_MR :: u32
  US_TTGR :: u32
  US_RHR :: u32
  US_sent :: "u8 list"
  US_receiver :: bool
  US_transmitter :: bool
  US_break :: bool

record Serial_ =
  sp_active :: bool
  sp_baud :: int
  sp_bits :: int
  sp_parity :: int
  sp_stopBits :: int
  sp_hardwareHandshake :: int
  sp_rxQSize :: int
  sp_txQSize :: int
  sp_detailsInitialized :: bool
  sp_at91UARTRegs :: "nat option"
  sp_receiveQueue :: "byte_queue option"
  sp_transmitQueue :: "byte_queue option"

record serial_state = osc_state +
  Serial :: "Serial_ list"
  USART :: "usart list"
  AIC_IMR :: u32

abbreviation (input) SERIAL_PORTS :: int where "SERIAL_PORTS \<equiv> 2"
abbreviation (input) DEFAULT_SERIAL_Q_LEN :: int where "DEFAULT_SERIAL_Q_LEN \<equiv> 100"

definition bad_port :: "int \<Rightarrow> bool" where
  "bad_port index \<longleftrightarrow> index < 0 \<or> index \<ge> SERIAL_PORTS"

definition serial_port :: "int \<Rightarrow> 'a serial_state_scheme \<Rightarrow> Serial_" where
  "serial_port index s = Serial s ! nat index"

definition upd_port :: "int \<Rightarrow> (Serial_ \<Rightarrow> Serial_) \<Rightarrow> 'a serial_state_scheme \<Rightarrow> 'a serial_state_scheme" where
  "upd_port index f s = s\<lparr>Serial := (Serial s)[nat index := f (Serial s ! nat index)]\<rparr>"

text \<open>Registers are reached through the pointer that starting the port sets.\<close>

definition usart_of :: "int \<Rightarrow> 'a serial_state_scheme \<Rightarrow> usart option" where
  "usart_of index s = map_option (\<lambda>k. USART s ! k) (sp_at91UARTRegs (serial_port index s))"

definition upd_usart :: "int \<Rightarrow> (usart \<Rightarrow> usart) \<Rightarrow> 'a serial_state_scheme \<Rightarrow> 'a serial_state_scheme option" where
  "upd_usart index f s =
     map_option (\<lambda>k. s\<lparr>USART := (USART s)[k := f (USART s ! k)]\<rparr>) (sp_at91UARTRegs (serial_port index s))"

subsection \<open>Register writes\<close>

abbreviation (input) US_RXRDY :: nat where "US_RXRDY \<equiv> 0"
abbreviation (input) US_TXRDY :: nat where "US_TXRDY \<equiv> 1"

definition us_errors :: u32 where
  "us_errors = mask1 5 OR mask1 6 OR mask1 7"

definition us_CR :: "nat set \<Rightarrow> usart \<Rightarrow> usart" where
  "us_CR cmd u =
     u\<lparr>US_receiver := (if 5 \<in> cmd then False else if 4 \<in> cmd then True else US_receiver u),
       US_transmitter := (if 7 \<in> cmd then False else if 6 \<in> cmd then True else US_transmitter u),
       US_CSR := (if 8 \<in> cmd then US_CSR u AND NOT us_errors else US_CSR u),
       US_break := (if 10 \<in> cmd then False else if 9 \<in> cmd then True else US_break u)\<rparr>"

definition us_IER :: "u32 \<Rightarrow> usart \<Rightarrow> usart" where
  "us_IER m u = u\<lparr>US_IMR := US_IMR u OR m\<rparr>"

definition us_IDR :: "u32 \<Rightarrow> usart \<Rightarrow> usart" where
  "us_IDR m u = u\<lparr>US_IMR := US_IMR u AND NOT m\<rparr>"

definition us_THR :: "u8 \<Rightarrow> usart \<Rightarrow> usart" where
  "us_THR c u = u\<lparr>US_sent := US_sent u @ [c]\<rparr>"

subsection \<open>Settings\<close>

definition Serial_SetDefault :: "int \<Rightarrow> 'a serial_state_scheme \<Rightarrow> status \<times> 'a serial_state_scheme" where
  "Serial_SetDefault index s =
     (if bad_port index then (CONTROLLER_ERROR_ILLEGAL_INDEX, s)
      else (CONTROLLER_OK, upd_port index (\<lambda>sp. sp\<lparr>sp_baud := 9600, sp_bits := 8, sp_stopBits := 1, sp_parity := 0,
              sp_hardwareHandshake := 0, sp_detailsInitialized := True\<rparr>) s))"

definition with_details :: "int \<Rightarrow> 'a serial_state_scheme \<Rightarrow> 'a serial_state_scheme" where
  "with_details index s = (if sp_detailsInitialized (serial_port index s) then s else snd (Serial_SetDefault index s))"

text \<open>The divisor of the clock for a rate, rounded; a rate of zero divides by zero.\<close>

definition baud_divisor :: "int \<Rightarrow> int option" where
  "baud_divisor baud =
     (let d = c_int (baud * 16)
      in if d = 0 then None
         else let v = 479232000 sdiv d in Some (if v smod 10 \<ge> 5 then v sdiv 10 + 1 else v sdiv 10))"

definition serial_mode :: "Serial_ \<Rightarrow> u32" where
  "serial_mode sp =
     (if sp_hardwareHandshake sp \<noteq> 0 then 2 else 0) OR
     (push_bit 6 (word_of_int (sp_bits sp - 5)) AND push_bit 6 3) OR
     (if sp_stopBits sp = 2 then push_bit 12 2 else 0) OR
     (if sp_parity sp = 0 then push_bit 9 4 else if sp_parity sp = - 1 then push_bit 9 1 else 0)"

definition Serial_SetDetails :: "int \<Rightarrow> (status, 'a serial_state_scheme) op" where
  "Serial_SetDetails index s =
     (if bad_port index then Some (CONTROLLER_ERROR_ILLEGAL_INDEX, s)
      else if sp_active (serial_port index s) then
        do {
          s \<leftarrow> upd_usart index (us_CR {2, 3, 5, 7}) s;
          let sp = serial_port index s;
          baudValue \<leftarrow> baud_divisor (sp_baud sp);
          s \<leftarrow> upd_usart index (\<lambda>u. u\<lparr>US_BRGR := word_of_int baudValue, US_MR := serial_mode sp\<rparr>) s;
          s \<leftarrow> upd_usart index (us_CR {4, 6}) s;
          Some (CONTROLLER_OK, s)
        }
      else Some (CONTROLLER_OK, s))"

definition serial_set :: "int \<Rightarrow> (Serial_ \<Rightarrow> Serial_) \<Rightarrow> (status, 'a serial_state_scheme) op" where
  "serial_set index f s =
     (if bad_port index then Some (CONTROLLER_ERROR_ILLEGAL_INDEX, s)
      else let s = upd_port index f (with_details index s)
           in Serial_SetDetails index s \<bind> (\<lambda>(_, s). Some (CONTROLLER_OK, s)))"

definition Serial_SetBaud :: "int \<Rightarrow> int \<Rightarrow> (status, 'a serial_state_scheme) op" where
  "Serial_SetBaud index baud = serial_set index (\<lambda>sp. sp\<lparr>sp_baud := baud\<rparr>)"

text \<open>The test looks at the number of bits in use, not at the new one.\<close>

definition Serial_SetBits :: "int \<Rightarrow> int \<Rightarrow> (status, 'a serial_state_scheme) op" where
  "Serial_SetBits index bits =
     serial_set index (\<lambda>sp. if sp_bits sp \<ge> 5 \<and> sp_bits sp \<le> 8 then sp\<lparr>sp_bits := bits\<rparr> else sp\<lparr>sp_bits := 8\<rparr>)"

definition Serial_SetParity :: "int \<Rightarrow> int \<Rightarrow> (status, 'a serial_state_scheme) op" where
  "Serial_SetParity index parity =
     serial_set index (\<lambda>sp. if parity \<ge> - 1 \<and> parity \<le> 1 then sp\<lparr>sp_parity := parity\<rparr> else sp\<lparr>sp_parity := 1\<rparr>)"

definition Serial_SetStopBits :: "int \<Rightarrow> int \<Rightarrow> (status, 'a serial_state_scheme) op" where
  "Serial_SetStopBits index stopBits =
     serial_set index (\<lambda>sp. if stopBits = 1 \<or> stopBits = 2 then sp\<lparr>sp_stopBits := stopBits\<rparr> else sp\<lparr>sp_stopBits := 1\<rparr>)"

definition Serial_SetHardwareHandshake :: "int \<Rightarrow> int \<Rightarrow> (status, 'a serial_state_scheme) op" where
  "Serial_SetHardwareHandshake index hardwareHandshake = serial_set index (\<lambda>sp. sp\<lparr>sp_hardwareHandshake := hardwareHandshake\<rparr>)"

definition serial_get :: "int \<Rightarrow> (Serial_ \<Rightarrow> int) \<Rightarrow> 'a serial_state_scheme \<Rightarrow> int \<times> 'a serial_state_scheme" where
  "serial_get index f s =
     (if bad_port index then (CONTROLLER_ERROR_ILLEGAL_INDEX, s)
      else let s = with_details index s in (f (serial_port index s), s))"

definition Serial_GetBaud :: "int \<Rightarrow> 'a serial_state_scheme \<Rightarrow> int \<times> 'a serial_state_scheme" where
  "Serial_GetBaud index = serial_get index sp_baud"

definition Serial_GetBits :: "int \<Rightarrow> 'a serial_state_scheme \<Rightarrow> int \<times> 'a serial_state_scheme" where
  "Serial_GetBits index = serial_get index sp_bits"

definition Serial_GetParity :: "int \<Rightarrow> 'a serial_state_scheme \<Rightarrow> int \<times> 'a serial_state_scheme" where
  "Serial_GetParity index = serial_get index sp_parity"

definition Serial_GetStopBits :: "int \<Rightarrow> 'a serial_state_scheme \<Rightarrow> int \<times> 'a serial_state_scheme" where
  "Serial_GetStopBits index = serial_get index sp_stopBits"

definition Serial_GetHardwareHandshake :: "int \<Rightarrow> 'a serial_state_scheme \<Rightarrow> int \<times> 'a serial_state_scheme" where
  "Serial_GetHardwareHandshake index = serial_get index sp_hardwareHandshake"

subsection \<open>Activation\<close>

text \<open>
  The peripheral, the two lines that are configured and the mask of lines that are taken. For port 0 the code has the two kinds of
  numbers the wrong way round: the lines are the masks 1 and 2, the mask is made of the numbers 0 and 1.
\<close>

definition serial_pins :: "int \<Rightarrow> nat \<times> int \<times> int \<times> u64" where
  "serial_pins index = (if index = 1 then (7, 5, 6, push_bit 5 1 OR push_bit 6 1) else (6, 1, 2, 0 OR 1))"

definition Serial_Init :: "int \<Rightarrow> (status, 'a serial_state_scheme) op" where
  "Serial_Init index s =
     (if bad_port index then Some (CONTROLLER_ERROR_ILLEGAL_INDEX, s)
      else
        let (id, rxPin, txPin, pins) = serial_pins index;
            s = upd_port index (\<lambda>sp. sp\<lparr>sp_at91UARTRegs := Some (nat index)\<rparr>) s;
            s = s\<lparr>PMC_PCSR := PMC_PCSR s OR mask1 id\<rparr>;
            s = with_details index s;
            (status, s) = Io_StartBits pins False s
        in if status \<noteq> CONTROLLER_OK then Some (status, s)
           else
             let s = snd (Io_SetPeripheralA rxPin s);
                 s = snd (Io_SetPeripheralA txPin s);
                 s = snd (Io_SetPio rxPin False s);
                 s = snd (Io_SetPio txPin False s);
                 s = upd_port index (\<lambda>sp. sp\<lparr>sp_rxQSize := (if sp_rxQSize sp = 0 then DEFAULT_SERIAL_Q_LEN else sp_rxQSize sp)\<rparr>) s;
                 s = upd_port index (\<lambda>sp. sp\<lparr>sp_receiveQueue := Some (nat (sp_rxQSize sp), [])\<rparr>) s;
                 s = upd_port index (\<lambda>sp. sp\<lparr>sp_txQSize := (if sp_txQSize sp = 0 then DEFAULT_SERIAL_Q_LEN else sp_txQSize sp)\<rparr>) s;
                 s = upd_port index (\<lambda>sp. sp\<lparr>sp_transmitQueue := Some (nat (sp_txQSize sp), [])\<rparr>) s
             in do {
               s \<leftarrow> upd_usart index (\<lambda>u. (us_IDR (- 1) u)\<lparr>US_TTGR := 0\<rparr>) s;
               (_, s) \<leftarrow> Serial_SetDetails index s;
               let s = s\<lparr>AIC_IMR := AIC_IMR s OR mask1 id\<rparr>;
               s \<leftarrow> upd_usart index (us_IER (mask1 US_RXRDY)) s;
               Some (CONTROLLER_OK, upd_port index (\<lambda>sp. sp\<lparr>sp_active := True\<rparr>) s)
             })"

definition Serial_Deinit :: "int \<Rightarrow> 'a serial_state_scheme \<Rightarrow> status \<times> 'a serial_state_scheme" where
  "Serial_Deinit index s =
     (if bad_port index then (CONTROLLER_ERROR_ILLEGAL_INDEX, s)
      else (CONTROLLER_OK, upd_port index (\<lambda>sp. sp\<lparr>sp_receiveQueue := None, sp_transmitQueue := None, sp_active := False\<rparr>) s))"

definition Serial_SetActive :: "int \<Rightarrow> int \<Rightarrow> (status, 'a serial_state_scheme) op" where
  "Serial_SetActive index state s =
     (if bad_port index then Some (CONTROLLER_ERROR_ILLEGAL_INDEX, s)
      else
        let sp = serial_port index s
        in if state \<noteq> 0 \<and> \<not> sp_active sp then Serial_Init index s
           else if state = 0 \<and> sp_active sp then Some (Serial_Deinit index s)
           else Some (CONTROLLER_OK, s))"

definition Serial_GetActive :: "int \<Rightarrow> 'a serial_state_scheme \<Rightarrow> u8" where
  "Serial_GetActive index s = (if bad_port index then illegal_as_bool else of_bool (sp_active (serial_port index s)))"

text \<open>The operations below start the port when it is not active.\<close>

definition serial_started :: "int \<Rightarrow> (status, 'a serial_state_scheme) op" where
  "serial_started index s = (if sp_active (serial_port index s) then Some (CONTROLLER_OK, s) else Serial_SetActive index 1 s)"

subsection \<open>Characters\<close>

definition queue_send :: "u8 \<Rightarrow> byte_queue \<Rightarrow> byte_queue option" where
  "queue_send c q = (if length (snd q) < fst q then Some (fst q, snd q @ [c]) else None)"

text \<open>A null queue has no defined result, which is the outer option.\<close>

definition serial_send :: "int \<Rightarrow> u8 \<Rightarrow> (bool, 'a serial_state_scheme) op" where
  "serial_send index c s =
     map_option
       (\<lambda>q. case queue_send c q of Some q \<Rightarrow> (True, upd_port index (\<lambda>sp. sp\<lparr>sp_transmitQueue := Some q\<rparr>) s) | None \<Rightarrow> (False, s))
       (sp_transmitQueue (serial_port index s))"

definition serial_receive :: "int \<Rightarrow> (u8 option, 'a serial_state_scheme) op" where
  "serial_receive index s =
     map_option
       (\<lambda>q. case snd q of
              c # cs \<Rightarrow> (Some c, upd_port index (\<lambda>sp. sp\<lparr>sp_receiveQueue := Some (fst q, cs)\<rparr>) s)
            | [] \<Rightarrow> (None, s))
       (sp_receiveQueue (serial_port index s))"

primrec write_loop ::
  "(int \<Rightarrow> 'a serial_state_scheme \<Rightarrow> 'a serial_state_scheme) \<Rightarrow> int \<Rightarrow> int \<Rightarrow> u8 list \<Rightarrow> (bool, 'a serial_state_scheme) op" where
  "write_loop env index timeout [] s = Some (True, s)"
| "write_loop env index timeout (c # cs) s =
     do {
       (ok, s) \<leftarrow> serial_send index c s;
       (ok, s) \<leftarrow> (if \<not> ok \<and> timeout \<noteq> 0 then serial_send index c (env timeout s) else Some (ok, s));
       if ok then write_loop env index timeout cs s else Some (False, s)
     }"

definition Serial_Write ::
  "(int \<Rightarrow> 'a serial_state_scheme \<Rightarrow> 'a serial_state_scheme) \<Rightarrow> int \<Rightarrow> u8 list \<Rightarrow> int \<Rightarrow> int \<Rightarrow> (status, 'a serial_state_scheme) op" where
  "Serial_Write env index buffer count timeout s =
     (if bad_port index then Some (CONTROLLER_ERROR_ILLEGAL_INDEX, s)
      else do {
        (status, s) \<leftarrow> serial_started index s;
        if status \<noteq> CONTROLLER_OK then Some (status, s)
        else do {
          (ok, s) \<leftarrow> write_loop env index timeout (if count < 0 then buffer else take (nat count) buffer) s;
          if \<not> ok then Some (CONTROLLER_ERROR_QUEUE_ERROR, s)
          else if count < 0 \<or> count > int (length buffer) then None
          else upd_usart index (us_IER (mask1 US_TXRDY)) s \<bind> (\<lambda>s. Some (CONTROLLER_OK, s))
        }
      })"

primrec read_loop ::
  "(int \<Rightarrow> 'a serial_state_scheme \<Rightarrow> 'a serial_state_scheme) \<Rightarrow> int \<Rightarrow> int \<Rightarrow> nat \<Rightarrow> (u8 list, 'a serial_state_scheme) op" where
  "read_loop env index timeout 0 s = Some ([], s)"
| "read_loop env index timeout (Suc n) s =
     do {
       (c, s) \<leftarrow> serial_receive index s;
       (c, s) \<leftarrow> (if c = None \<and> timeout \<noteq> 0 then serial_receive index (env timeout s) else Some (c, s));
       (case c of
          None \<Rightarrow> Some ([], s)
        | Some c \<Rightarrow> read_loop env index timeout n s \<bind> (\<lambda>(cs, s). Some (c # cs, s)))
     }"

text \<open>The number of bytes read, or an error, and the bytes stored in the buffer.\<close>

definition Serial_Read ::
  "(int \<Rightarrow> 'a serial_state_scheme \<Rightarrow> 'a serial_state_scheme) \<Rightarrow> int \<Rightarrow> int \<Rightarrow> int \<Rightarrow> (int \<times> u8 list, 'a serial_state_scheme) op" where
  "Serial_Read env index n timeout s =
     (if bad_port index then Some ((CONTROLLER_ERROR_ILLEGAL_INDEX, []), s)
      else do {
        (status, s) \<leftarrow> serial_started index s;
        if status \<noteq> CONTROLLER_OK then Some ((status, []), s)
        else read_loop env index timeout (nat n) s \<bind> (\<lambda>(cs, s). Some ((int (length cs), cs), s))
      })"

definition Serial_GetReadable :: "int \<Rightarrow> 'a serial_state_scheme \<Rightarrow> int option" where
  "Serial_GetReadable index s =
     (if bad_port index then Some CONTROLLER_ERROR_ILLEGAL_INDEX
      else map_option (\<lambda>q. int (length (snd q))) (sp_receiveQueue (serial_port index s)))"

definition Serial_SetChar :: "int \<Rightarrow> int \<Rightarrow> (status, 'a serial_state_scheme) op" where
  "Serial_SetChar index character s =
     (if bad_port index then Some (CONTROLLER_ERROR_ILLEGAL_INDEX, s)
      else do {
        (status, s) \<leftarrow> serial_started index s;
        if status \<noteq> CONTROLLER_OK then Some (status, s)
        else if 0 \<le> character \<and> character < 256 then
          do {
            (ok, s) \<leftarrow> serial_send index (word_of_int character) s;
            if \<not> ok then Some (CONTROLLER_ERROR_QUEUE_ERROR, s)
            else upd_usart index (us_IER (mask1 US_TXRDY)) s \<bind> (\<lambda>s. Some (CONTROLLER_OK, s))
          }
        else Some (CONTROLLER_OK, s)
      })"

definition Serial_GetChar :: "int \<Rightarrow> (int, 'a serial_state_scheme) op" where
  "Serial_GetChar index s =
     (if bad_port index then Some (CONTROLLER_ERROR_ILLEGAL_INDEX, s)
      else do {
        (status, s) \<leftarrow> serial_started index s;
        if status \<noteq> CONTROLLER_OK then Some (- 1, s)
        else serial_receive index s \<bind> (\<lambda>(c, s). Some (case c of None \<Rightarrow> - 1 | Some c \<Rightarrow> uint c, s))
      })"

text \<open>Each character that is read makes the queue shorter, so emptying it ends.\<close>

primrec flush_loop :: "nat \<Rightarrow> int \<Rightarrow> 'a serial_state_scheme \<Rightarrow> 'a serial_state_scheme option" where
  "flush_loop 0 index s = Some s"
| "flush_loop (Suc n) index s = Serial_GetChar index s \<bind> (\<lambda>(_, s). flush_loop n index s)"

definition Serial_Flush :: "int \<Rightarrow> 'a serial_state_scheme \<Rightarrow> 'a serial_state_scheme option" where
  "Serial_Flush index s = (if bad_port index then Some s else Serial_GetReadable index s \<bind> (\<lambda>n. flush_loop (nat n) index s))"

subsection \<open>Errors and breaks\<close>

definition Serial_ClearErrors :: "int \<Rightarrow> 'a serial_state_scheme \<Rightarrow> 'a serial_state_scheme option" where
  "Serial_ClearErrors index s =
     (if bad_port index then Some s
      else do {
        u \<leftarrow> usart_of index s;
        if US_CSR u AND us_errors \<noteq> 0 then upd_usart index (us_CR {8}) s else Some s
      })"

text \<open>Whether there was an error, and the three flags (overrun, frame, parity).\<close>

definition Serial_GetErrors :: "int \<Rightarrow> 'a serial_state_scheme \<Rightarrow> (bool \<times> bool \<times> bool \<times> bool) option" where
  "Serial_GetErrors index s =
     (if bad_port index then Some (False, False, False, False)
      else do {
        u \<leftarrow> usart_of index s;
        let ovre = bit (US_CSR u) 5; fr = bit (US_CSR u) 6; par = bit (US_CSR u) 7
        in Some (ovre \<or> fr \<or> par, ovre, fr, par)
      })"

definition Serial_StartBreak :: "int \<Rightarrow> 'a serial_state_scheme \<Rightarrow> 'a serial_state_scheme option" where
  "Serial_StartBreak index s = (if bad_port index then Some s else upd_usart index (us_CR {9}) s)"

definition Serial_StopBreak :: "int \<Rightarrow> 'a serial_state_scheme \<Rightarrow> 'a serial_state_scheme option" where
  "Serial_StopBreak index s = (if bad_port index then Some s else upd_usart index (us_CR {10}) s)"

subsection \<open>The interrupt\<close>

text \<open>Both ports are served, through the register pointer of each, which is null for a port that was never started.\<close>

definition isr_transmit :: "int \<Rightarrow> 'a serial_state_scheme \<Rightarrow> 'a serial_state_scheme option" where
  "isr_transmit index s =
     do {
       q \<leftarrow> sp_transmitQueue (serial_port index s);
       (case snd q of
          c # cs \<Rightarrow>
            upd_usart index (us_THR c) (upd_port index (\<lambda>sp. sp\<lparr>sp_transmitQueue := Some (fst q, cs)\<rparr>) s)
        | [] \<Rightarrow> upd_usart index (us_IDR (mask1 US_TXRDY)) s)
     }"

definition isr_receive :: "int \<Rightarrow> 'a serial_state_scheme \<Rightarrow> 'a serial_state_scheme option" where
  "isr_receive index s =
     do {
       u \<leftarrow> usart_of index s;
       q \<leftarrow> sp_receiveQueue (serial_port index s);
       Some (case queue_send (ucast (US_RHR u)) q of
               Some q \<Rightarrow> upd_port index (\<lambda>sp. sp\<lparr>sp_receiveQueue := Some q\<rparr>) s
             | None \<Rightarrow> s)
     }"

definition isr_port :: "int \<Rightarrow> 'a serial_state_scheme \<Rightarrow> 'a serial_state_scheme option" where
  "isr_port index s =
     do {
       u \<leftarrow> usart_of index s;
       let ulStatus = US_CSR u AND US_IMR u;
       s \<leftarrow> (if bit ulStatus US_TXRDY then isr_transmit index s else Some s);
       if bit ulStatus US_RXRDY then isr_receive index s else Some s
     }"

definition SerialIsr_Handler :: "'a serial_state_scheme \<Rightarrow> 'a serial_state_scheme option" where
  "SerialIsr_Handler s = isr_port 0 s \<bind> isr_port 1"

subsection \<open>OSC\<close>

definition SerialOsc_IntPropertySet :: "int \<Rightarrow> int \<Rightarrow> int \<Rightarrow> (status, 'a serial_state_scheme) op" where
  "SerialOsc_IntPropertySet index property v s =
     map_option (\<lambda>(_, s). (CONTROLLER_OK, s))
       (if property = 0 then Serial_SetActive index v s
        else if property = 1 then Serial_SetChar index v s
        else if property = 2 then Serial_SetBaud index v s
        else if property = 3 then Serial_SetBits index v s
        else if property = 4 then Serial_SetStopBits index v s
        else if property = 5 then Serial_SetParity index v s
        else if property = 6 then Serial_SetHardwareHandshake index v s
        else Some (CONTROLLER_OK, s))"

definition SerialOsc_IntPropertyGet :: "int \<Rightarrow> int \<Rightarrow> (int, 'a serial_state_scheme) op" where
  "SerialOsc_IntPropertyGet index property s =
     (if property = 0 then Some (uint (Serial_GetActive index s), s)
      else if property = 1 then Serial_GetChar index s
      else if property = 2 then Some (Serial_GetBaud index s)
      else if property = 3 then Some (Serial_GetBits index s)
      else if property = 4 then Some (Serial_GetStopBits index s)
      else if property = 5 then Some (Serial_GetParity index s)
      else if property = 6 then Some (Serial_GetHardwareHandshake index s)
      else if property = 7 then map_option (\<lambda>n. (n, s)) (Serial_GetReadable index s)
      else Some (0, s))"

text \<open>
  The getter returns how much it asked for, whatever it read; the rest of the scratch buffer keeps what was there (\<open>old\<close>).
\<close>

definition SerialOsc_BlobPropertyGet ::
  "(int \<Rightarrow> 'a serial_state_scheme \<Rightarrow> 'a serial_state_scheme) \<Rightarrow> string \<Rightarrow> int \<Rightarrow> int \<Rightarrow> (int \<times> string, 'a serial_state_scheme) op" where
  "SerialOsc_BlobPropertyGet env old index property s =
     (if property = 0 then
        do {
          n \<leftarrow> Serial_GetReadable index s;
          let xfer = min n (int (length old));
          ((_, cs), s) \<leftarrow> (if xfer > 0 then Serial_Read env index xfer 100 s else Some ((0, []), s));
          Some ((xfer, map (\<lambda>c. char_of (unat c)) cs @ drop (length cs) old), s)
        }
      else Some ((0, old), s))"

definition SerialOsc_BlobPropertySet ::
  "(int \<Rightarrow> 'a serial_state_scheme \<Rightarrow> 'a serial_state_scheme) \<Rightarrow> int \<Rightarrow> int \<Rightarrow> int \<Rightarrow> int \<Rightarrow> int \<Rightarrow> (status, 'a serial_state_scheme) op" where
  "SerialOsc_BlobPropertySet env channel index property p n s =
     (if property = 0 then
        do {
          m \<leftarrow> osc_mem channel s \<bind> (\<lambda>mem. mem_at mem p);
          (_, s) \<leftarrow> Serial_Write env index (map (\<lambda>c. of_nat (of_char c)) m) n 100 s;
          Some (CONTROLLER_OK, s)
        }
      else Some (CONTROLLER_OK, s))"

definition SerialOsc_ReceiveMessage ::
  "(int \<Rightarrow> 'a serial_state_scheme \<Rightarrow> 'a serial_state_scheme) \<Rightarrow> string \<Rightarrow> int \<Rightarrow> int \<Rightarrow> int \<Rightarrow> (status, 'a serial_state_scheme) op" where
  "SerialOsc_ReceiveMessage env old channel p len s =
     do {
       (status, s) \<leftarrow> Osc_IndexIntReceiverHelper channel p len 2 ''serial'' SerialOsc_IntPropertySet SerialOsc_IntPropertyGet
         [''active'', ''char'', ''baud'', ''bits'', ''stopbits'', ''parity'', ''hardwarehandshake'', ''readable''] s;
       (status, s) \<leftarrow> (if status \<noteq> CONTROLLER_OK then
           Osc_IndexBlobReceiverHelper channel p len 2 ''serial'' (SerialOsc_BlobPropertySet env channel)
             (SerialOsc_BlobPropertyGet env old) [''block''] s
         else Some (status, s));
       if status \<noteq> CONTROLLER_OK then Osc_SendError channel ''serial'' status s else Some (CONTROLLER_OK, s)
     }"

subsection \<open>Characters leave in order\<close>

text \<open>A port with some characters waiting to be sent, some enabled interrupts and some characters sent.\<close>

definition tx_state :: "int \<Rightarrow> nat \<Rightarrow> u8 list \<Rightarrow> u32 \<Rightarrow> u8 list \<Rightarrow> 'a serial_state_scheme \<Rightarrow> 'a serial_state_scheme" where
  "tx_state i n q m x s =
     s\<lparr>Serial := (Serial s)[nat i := (Serial s ! nat i)\<lparr>sp_transmitQueue := Some (n, q)\<rparr>],
       USART := (USART s)[nat i := (USART s ! nat i)\<lparr>US_IMR := m, US_sent := x\<rparr>]\<rparr>"

text \<open>Both ports have been started, the transmitter of port \<open>i\<close> is ready for a character and nothing was received.\<close>

definition both_started :: "'a serial_state_scheme \<Rightarrow> bool" where
  "both_started s \<longleftrightarrow> length (Serial s) = 2 \<and> length (USART s) = 2 \<and>
     (\<forall>k < 2. sp_active (Serial s ! k) \<and> sp_at91UARTRegs (Serial s ! k) = Some k)"

definition transmits :: "int \<Rightarrow> 'a serial_state_scheme \<Rightarrow> bool" where
  "transmits i s \<longleftrightarrow> \<not> bad_port i \<and> both_started s \<and> bit (US_CSR (USART s ! nat i)) US_TXRDY \<and>
     \<not> bit (US_CSR (USART s ! nat i)) US_RXRDY \<and>
     (\<forall>n. bit (US_CSR (USART s ! nat (1 - i)) AND US_IMR (USART s ! nat (1 - i))) n \<longrightarrow> 1 < n)"

lemma usart_updates: "(u :: usart)\<lparr>US_sent := x, US_IMR := y\<rparr> = u\<lparr>US_IMR := y, US_sent := x\<rparr>"
  by (cases u) simp

lemma tx_port [simp]:
  assumes "\<not> bad_port i" and "both_started s"
  shows "serial_port i (tx_state i n q m x s) = (Serial s ! nat i)\<lparr>sp_transmitQueue := Some (n, q)\<rparr>"
    and "usart_of i (tx_state i n q m x s) = Some ((USART s ! nat i)\<lparr>US_IMR := m, US_sent := x\<rparr>)"
    and "serial_port (1 - i) (tx_state i n q m x s) = Serial s ! nat (1 - i)"
    and "usart_of (1 - i) (tx_state i n q m x s) = Some (USART s ! nat (1 - i))"
    and "upd_port i (\<lambda>sp. sp\<lparr>sp_transmitQueue := Some (n, q')\<rparr>) (tx_state i n q m x s) = tx_state i n q' m x s"
    and "upd_usart i (us_THR c) (tx_state i n q m x s) = Some (tx_state i n q m (x @ [c]) s)"
    and "upd_usart i (us_IER e) (tx_state i n q m x s) = Some (tx_state i n q (m OR e) x s)"
    and "upd_usart i (us_IDR e) (tx_state i n q m x s) = Some (tx_state i n q (m AND NOT e) x s)"
proof -
  have "i = 0 \<or> i = 1" using assms(1) by (auto simp: bad_port_def)
  then have i: "nat i < 2" "nat i \<noteq> nat (1 - i)" "nat (1 - i) < 2" by auto
  then show "serial_port i (tx_state i n q m x s) = (Serial s ! nat i)\<lparr>sp_transmitQueue := Some (n, q)\<rparr>"
    "usart_of i (tx_state i n q m x s) = Some ((USART s ! nat i)\<lparr>US_IMR := m, US_sent := x\<rparr>)"
    "serial_port (1 - i) (tx_state i n q m x s) = Serial s ! nat (1 - i)"
    "usart_of (1 - i) (tx_state i n q m x s) = Some (USART s ! nat (1 - i))"
    "upd_port i (\<lambda>sp. sp\<lparr>sp_transmitQueue := Some (n, q')\<rparr>) (tx_state i n q m x s) = tx_state i n q' m x s"
    "upd_usart i (us_THR c) (tx_state i n q m x s) = Some (tx_state i n q m (x @ [c]) s)"
    "upd_usart i (us_IER e) (tx_state i n q m x s) = Some (tx_state i n q (m OR e) x s)"
    "upd_usart i (us_IDR e) (tx_state i n q m x s) = Some (tx_state i n q (m AND NOT e) x s)"
    using assms(2) unfolding tx_state_def serial_port_def usart_of_def upd_port_def upd_usart_def us_THR_def us_IER_def us_IDR_def both_started_def
    by (simp_all add: usart_updates)
qed

lemma write_loop_fits:
  assumes "\<not> bad_port i" and "both_started s" and "length q + length cs \<le> n"
  shows "write_loop env i 0 cs (tx_state i n q m x s) = Some (True, tx_state i n (q @ cs) m x s)"
  using assms(3)
proof (induction cs arbitrary: q)
  case (Cons c cs)
  have "serial_send i c (tx_state i n q m x s) = Some (True, tx_state i n (q @ [c]) m x s)"
    using Cons.prems assms(1,2) by (simp add: serial_send_def queue_send_def)
  then show ?case using Cons.IH [of "q @ [c]"] Cons.prems by simp
qed simp

primrec interrupts :: "nat \<Rightarrow> 'a serial_state_scheme \<Rightarrow> 'a serial_state_scheme option" where
  "interrupts 0 s = Some s"
| "interrupts (Suc n) s = SerialIsr_Handler s \<bind> interrupts n"

lemma transmit_interrupt:
  assumes t: "transmits i s" and m: "bit m US_TXRDY"
  shows "SerialIsr_Handler (tx_state i n (c # q) m x s) = Some (tx_state i n q m (x @ [c]) s)"
proof -
  have i: "\<not> bad_port i" "both_started s" using t by (auto simp: transmits_def)
  have own: "isr_port i (tx_state i n (c # q) m x s) = Some (tx_state i n q m (x @ [c]) s)"
    using t m i by (simp add: isr_port_def isr_transmit_def transmits_def bit_and_iff)
  have other: "isr_port (1 - i) (tx_state i n q' m x' s) = Some (tx_state i n q' m x' s)" for q' x'
  proof -
    have "\<not> bit (US_CSR (USART s ! nat (1 - i)) AND US_IMR (USART s ! nat (1 - i))) 0"
      "\<not> bit (US_CSR (USART s ! nat (1 - i)) AND US_IMR (USART s ! nat (1 - i))) 1" using t by (auto simp: transmits_def)
    then show ?thesis using i by (simp add: isr_port_def)
  qed
  have "i = 0 \<or> i = 1" using i(1) by (auto simp: bad_port_def)
  then show ?thesis using own other by (auto simp: SerialIsr_Handler_def)
qed

lemma transmit_interrupts:
  assumes "transmits i s" and "bit m US_TXRDY"
  shows "interrupts (length q) (tx_state i n (q @ r) m x s) = Some (tx_state i n r m (x @ q) s)"
  using transmit_interrupt [OF assms] by (induction q arbitrary: x) auto

lemma tx_state_self:
  assumes "sp_transmitQueue (Serial s ! nat i) = Some (n, q)"
  shows "tx_state i n q (US_IMR (USART s ! nat i)) (US_sent (USART s ! nat i)) s = s"
proof -
  have "(Serial s ! nat i)\<lparr>sp_transmitQueue := Some (n, q)\<rparr> = Serial s ! nat i" by (rule Serial_.equality) (simp_all add: assms)
  then show ?thesis by (simp add: tx_state_def)
qed

text \<open>
  Characters written to a serial port leave it in order: when they fit into the queue behind the characters that wait there, the
  write succeeds, and as many transmit interrupts as there are characters send exactly those, the ones that waited first.
\<close>
theorem serial_sends_in_order:
  assumes "transmits i s" and "sp_transmitQueue (serial_port i s) = Some (n, q)" and "length q + length cs \<le> n"
  shows "\<exists>t u. Serial_Write env i cs (int (length cs)) 0 s = Some (CONTROLLER_OK, t) \<and>
    interrupts (length q + length cs) t = Some u \<and>
    US_sent (USART u ! nat i) = US_sent (USART s ! nat i) @ q @ cs \<and> sp_transmitQueue (serial_port i u) = Some (n, [])"
proof -
  let ?m = "US_IMR (USART s ! nat i)" and ?x = "US_sent (USART s ! nat i)"
  define t where "t = tx_state i n (q @ cs) (?m OR mask1 US_TXRDY) ?x s"
  have i: "\<not> bad_port i" "both_started s" using assms(1) by (auto simp: transmits_def)
  have s: "tx_state i n q ?m ?x s = s" using tx_state_self assms(2) by (simp add: serial_port_def)
  have "nat i < 2" using i(1) by (auto simp: bad_port_def)
  then have "serial_started i s = Some (CONTROLLER_OK, s)" using i(2) by (simp add: serial_started_def both_started_def serial_port_def)
  moreover have "write_loop env i 0 cs s = Some (True, tx_state i n (q @ cs) ?m ?x s)"
    using write_loop_fits [OF i assms(3), of env ?m ?x] unfolding s .
  ultimately have "Serial_Write env i cs (int (length cs)) 0 s = Some (CONTROLLER_OK, t)"
    using i by (simp add: Serial_Write_def t_def)
  moreover have "interrupts (length q + length cs) t = Some (tx_state i n [] (?m OR mask1 US_TXRDY) (?x @ q @ cs) s)"
    using transmit_interrupts [OF assms(1), of "?m OR mask1 US_TXRDY" "q @ cs" n "[]" ?x] by (simp add: t_def bit_or_iff)
  moreover have "US_sent (USART (tx_state i n [] (?m OR mask1 US_TXRDY) (?x @ q @ cs) s) ! nat i) = ?x @ q @ cs"
    using \<open>nat i < 2\<close> i(2) by (simp add: tx_state_def both_started_def)
  ultimately show ?thesis using i by auto
qed

subsection \<open>The lines of port 0\<close>

lemma upd_port_parts [simp]:
  "line_users (upd_port i f s) = line_users s" "line_locked (upd_port i f s) = line_locked s" "io_inv (upd_port i f s) = io_inv s"
  "line_pio (upd_port i f s) = line_pio s" "Io_pins (upd_port i f s) = Io_pins s" "USART (upd_port i f s) = USART s"
  "length (Serial (upd_port i f s)) = length (Serial s)"
  by (simp_all add: upd_port_def line_users_def line_locked_def io_inv_def line_pio_def port_def fun_eq_iff)

lemma upd_port_same [simp]: "nat i < length (Serial s) \<Longrightarrow> serial_port i (upd_port i f s) = f (serial_port i s)"
  by (simp add: upd_port_def serial_port_def)

lemma serial_field_parts [simp]:
  "line_users (s\<lparr>USART := x\<rparr>) = line_users s" "line_locked (s\<lparr>USART := x\<rparr>) = line_locked s" "line_pio (s\<lparr>USART := x\<rparr>) = line_pio s"
  "line_users (s\<lparr>AIC_IMR := y\<rparr>) = line_users s" "line_locked (s\<lparr>AIC_IMR := y\<rparr>) = line_locked s" "line_pio (s\<lparr>AIC_IMR := y\<rparr>) = line_pio s"
  "line_users (s\<lparr>PMC_PCSR := z\<rparr>) = line_users s" "line_locked (s\<lparr>PMC_PCSR := z\<rparr>) = line_locked s" "line_pio (s\<lparr>PMC_PCSR := z\<rparr>) = line_pio s"
  "io_inv (s\<lparr>PMC_PCSR := z\<rparr>) = io_inv s" "length (Serial (s\<lparr>PMC_PCSR := z\<rparr>)) = length (Serial s)"
  "serial_port i (s\<lparr>USART := x\<rparr>) = serial_port i s" "serial_port i (s\<lparr>AIC_IMR := y\<rparr>) = serial_port i s"
  "serial_port i (s\<lparr>PMC_PCSR := z\<rparr>) = serial_port i s"
  by (simp_all add: line_users_def line_locked_def line_pio_def port_def serial_port_def io_inv_def fun_eq_iff)

lemma upd_usart_some:
  assumes "sp_at91UARTRegs (serial_port i s) = Some k"
  shows "\<exists>x. upd_usart i f s = Some (s\<lparr>USART := x\<rparr>)"
  using assms by (intro exI [of _ "(USART s)[k := f (USART s ! k)]"]) (simp add: upd_usart_def)

lemma io_serial [simp]:
  "Serial (snd (set_line w i s)) = Serial s" "Serial (pin_take lk n s) = Serial s"
  by (auto simp: set_line_def on_port_def pin_take_def Io_Init_def Let_def split: if_splits)

lemma io_setters_serial [simp]:
  "serial_port p (snd (Io_SetPio i v s)) = serial_port p s" "serial_port p (snd (Io_SetPeripheralA i s)) = serial_port p s"
  "serial_port p (pin_take lk n s) = serial_port p s"
  "Serial (snd (Io_SetPio i v s)) = Serial s" "Serial (snd (Io_SetPeripheralA i s)) = Serial s"
  by (simp_all add: serial_port_def Io_SetPio_def Io_PioEnable_def Io_PioDisable_def Io_SetPeripheralA_def)

lemma peripheral_parts [simp]:
  "line_users (snd (Io_SetPeripheralA i s)) = line_users s" "line_locked (snd (Io_SetPeripheralA i s)) = line_locked s"
  "line_pio (snd (Io_SetPeripheralA i s)) = line_pio s"
  by (simp_all add: Io_SetPeripheralA_def)
    (auto simp: fun_eq_iff line_pio_def port_def set_line_def on_port_def pio_ASR_def)

lemma StartBits_none: "\<forall>i \<in> set is. \<not> bit bits i \<Longrightarrow> Io_StartBits_loop bits lk is s = (None, s)"
  by (induction "is") auto

lemma StartBits_line0:
  assumes "pin_available lk (Io_pins s ! 0)"
  shows "Io_StartBits 1 lk s = (CONTROLLER_OK, pin_take lk 0 s)"
proof -
  have "[0..<64] = (0 :: nat) # [1..<64]" by (simp add: upt_conv_Cons)
  moreover have "Io_StartBits_loop 1 lk [1..<64] t = (None, t)" for t :: "'a io_state_scheme"
    by (rule StartBits_none) (auto simp: bit_1_iff)
  ultimately show ?thesis using assms by (simp add: Io_StartBits_def)
qed

lemma with_details_parts [simp]:
  "line_users (with_details i s) = line_users s" "line_locked (with_details i s) = line_locked s" "line_pio (with_details i s) = line_pio s"
  "Io_pins (with_details i s) = Io_pins s" "io_inv (with_details i s) = io_inv s" "length (Serial (with_details i s)) = length (Serial s)"
  by (auto simp: with_details_def Serial_SetDefault_def)

lemma with_details_port:
  assumes "nat i < length (Serial s)"
  shows "sp_active (serial_port i (with_details i s)) = sp_active (serial_port i s)"
    "sp_at91UARTRegs (serial_port i (with_details i s)) = sp_at91UARTRegs (serial_port i s)"
  using assms by (auto simp: with_details_def Serial_SetDefault_def)

lemma pin_take_line:
  assumes "io_inv s" and "pin_available False (Io_pins s ! 0)"
  shows "line_users (pin_take False 0 s) = (line_users s)(0 := line_users s 0 + 1)" "line_pio (pin_take False 0 s) = line_pio s"
    "line_locked (pin_take False 0 s) = line_locked s"
proof -
  have take: "Io_Start 0 False s = Some (CONTROLLER_OK, pin_take False 0 s)"
    using assms by (simp add: Io_Start_def bad_index_def io_inv_length)
  have users: "IoPin_users (Io_pins s ! 0) < 125" using assms(2) by (simp add: pin_available_def)
  show "line_pio (pin_take False 0 s) = line_pio s" using line_view_Start(3) [OF take] .
  have pins: "Io_pins (pin_take False 0 s) = (Io_pins s)[0 := \<lparr>IoPin_users = IoPin_users (Io_pins s ! 0) + 1,
      IoPin_lock = IoPin_lock (Io_pins s ! 0)\<rparr>]" and len: "length (Io_pins s) = 64"
    using assms(1) by (auto simp: pin_take_def Io_Init_def Let_def io_inv_length)
  have "unat (IoPin_users (Io_pins s ! 0) + 1) = unat (IoPin_users (Io_pins s ! 0)) + 1"
    using unat_users_Suc [OF users] by simp
  then show "line_users (pin_take False 0 s) = (line_users s)(0 := line_users s 0 + 1)"
    by (auto simp: fun_eq_iff line_users_def pins nth_list_update len io_line_def)
  show "line_locked (pin_take False 0 s) = line_locked s"
    by (auto simp: fun_eq_iff line_locked_def pins nth_list_update len io_line_def)
qed

text \<open>
  C33: Starting serial port 0 takes the receive line, line 0, but hands lines 1 and 2 to the peripheral instead of lines 0 and 1: line 0 stays as
  it was, so nothing can be received, and line 2 is lost by its owner, even one that holds it locked.
\<close>
theorem serial_port0_wrong_lines:
  assumes "io_inv s" and "line_users s 0 < 125" and "\<not> line_locked s 0" and "2 \<le> length (Serial s)" and "\<not> sp_active (serial_port 0 s)"
  shows "\<exists>t. Serial_SetActive 0 1 s = Some (CONTROLLER_OK, t) \<and> sp_active (serial_port 0 t) \<and>
    line_users t = (line_users s)(0 := line_users s 0 + 1) \<and> line_locked t = line_locked s \<and>
    line_pio t 0 = line_pio s 0 \<and> \<not> line_pio t 1 \<and> \<not> line_pio t 2"
proof -
  have len: "length (Io_pins s) = 64" and n: "nat 0 < length (Serial s)"
    using assms(1,4) by (auto simp: io_inv_length)
  define s1 where "s1 = with_details 0 ((upd_port 0 (\<lambda>sp. sp\<lparr>sp_at91UARTRegs := Some 0\<rparr>) s)
    \<lparr>PMC_PCSR := PMC_PCSR (upd_port 0 (\<lambda>sp. sp\<lparr>sp_at91UARTRegs := Some 0\<rparr>) s) OR mask1 6\<rparr>)"
  have s1: "line_users s1 = line_users s" "line_locked s1 = line_locked s" "line_pio s1 = line_pio s" "Io_pins s1 = Io_pins s"
    "length (Serial s1) = length (Serial s)"
    by (simp_all add: s1_def)
  have port1: "\<not> sp_active (serial_port 0 s1)" "sp_at91UARTRegs (serial_port 0 s1) = Some 0"
    using assms(5) n by (simp_all add: s1_def with_details_port)
  have inv1: "io_inv s1" using assms(1) by (simp add: s1_def)
  have avail: "pin_available False (Io_pins s1 ! 0)"
    using assms(2,3) by (simp add: s1 pin_available_def line_users_def line_locked_def io_line_def word_less_nat_alt)
  note taken = pin_take_line [OF inv1 avail]
  define s2 where "s2 = snd (Io_SetPio 2 False (snd (Io_SetPio 1 False (snd (Io_SetPeripheralA 2 (snd (Io_SetPeripheralA 1 (pin_take False 0 s1))))))))"
  have s2: "line_users s2 = (line_users s)(0 := line_users s 0 + 1)" "line_locked s2 = line_locked s" "serial_port 0 s2 = serial_port 0 s1"
    "length (Serial s2) = length (Serial s)"
    using taken by (simp_all add: s2_def s1)
  have pio: "line_pio s2 0 = line_pio s 0" "\<not> line_pio s2 1" "\<not> line_pio s2 2"
    using taken by (simp_all add: s2_def s1 line_pio_SetPio io_line_def)
  define s3 where "s3 =
    upd_port 0 (\<lambda>sp. sp\<lparr>sp_transmitQueue := Some (nat (sp_txQSize sp), [])\<rparr>)
    (upd_port 0 (\<lambda>sp. sp\<lparr>sp_txQSize := (if sp_txQSize sp = 0 then DEFAULT_SERIAL_Q_LEN else sp_txQSize sp)\<rparr>)
    (upd_port 0 (\<lambda>sp. sp\<lparr>sp_receiveQueue := Some (nat (sp_rxQSize sp), [])\<rparr>)
    (upd_port 0 (\<lambda>sp. sp\<lparr>sp_rxQSize := (if sp_rxQSize sp = 0 then DEFAULT_SERIAL_Q_LEN else sp_rxQSize sp)\<rparr>) s2)))"
  have port3: "\<not> sp_active (serial_port 0 s3)" "sp_at91UARTRegs (serial_port 0 s3) = Some 0" and len3: "nat 0 < length (Serial s3)"
    and view3: "line_users s3 = line_users s2" "line_locked s3 = line_locked s2" "line_pio s3 = line_pio s2"
    using port1 n by (simp_all add: s3_def s2)
  obtain x where x: "upd_usart 0 (\<lambda>u. (us_IDR (- 1) u)\<lparr>US_TTGR := 0\<rparr>) s3 = Some (s3\<lparr>USART := x\<rparr>)"
    using upd_usart_some [OF port3(2)] by blast
  define s4 where "s4 = s3\<lparr>USART := x, AIC_IMR := AIC_IMR s3 OR mask1 6\<rparr>"
  have port4: "sp_at91UARTRegs (serial_port 0 s4) = Some 0" using port3 by (simp add: s4_def)
  obtain y where y: "upd_usart 0 (us_IER (mask1 US_RXRDY)) s4 = Some (s4\<lparr>USART := y\<rparr>)" using upd_usart_some [OF port4] by blast
  define t where "t = upd_port 0 (\<lambda>sp. sp\<lparr>sp_active := True\<rparr>) (s4\<lparr>USART := y\<rparr>)"
  have details: "Serial_SetDetails 0 (s3\<lparr>USART := x\<rparr>) = Some (CONTROLLER_OK, s3\<lparr>USART := x\<rparr>)"
    using port3 by (simp add: Serial_SetDetails_def bad_port_def)
  have "Serial_Init 0 s = Some (CONTROLLER_OK, t)"
    unfolding Serial_Init_def serial_pins_def Let_def split
    using StartBits_line0 [OF avail]
    by (simp add: bad_port_def x details y flip: s1_def s2_def s3_def s4_def t_def)
  then have "Serial_SetActive 0 1 s = Some (CONTROLLER_OK, t)" using assms(5) by (simp add: Serial_SetActive_def bad_port_def)
  moreover have "sp_active (serial_port 0 t)" using len3 by (simp add: t_def s4_def)
  moreover have "line_users t = line_users s2" "line_locked t = line_locked s2" "line_pio t = line_pio s2"
    by (simp_all add: t_def s4_def view3)
  ultimately show ?thesis using s2 pio by auto
qed

subsection \<open>A board with serial ports\<close>

definition idle_port :: Serial_ where
  "idle_port = \<lparr>sp_active = False, sp_baud = 0, sp_bits = 0, sp_parity = 0, sp_stopBits = 0, sp_hardwareHandshake = 0, sp_rxQSize = 0,
     sp_txQSize = 0, sp_detailsInitialized = False, sp_at91UARTRegs = None, sp_receiveQueue = None, sp_transmitQueue = None\<rparr>"

definition idle_usart :: usart where
  "idle_usart = \<lparr>US_CSR = 0, US_IMR = 0, US_BRGR = 0, US_MR = 0, US_TTGR = 0, US_RHR = 0, US_sent = [], US_receiver = False,
     US_transmitter = False, US_break = False\<rparr>"

definition serial_boot :: serial_state where
  "serial_boot = osc_state.extend osc_boot \<lparr>Serial = replicate 2 idle_port, USART = replicate 2 idle_usart, AIC_IMR = 0\<rparr>"

definition started_port :: "nat \<Rightarrow> Serial_" where
  "started_port k = idle_port\<lparr>sp_active := True, sp_baud := 9600, sp_bits := 8, sp_stopBits := 1, sp_detailsInitialized := True,
     sp_at91UARTRegs := Some k, sp_receiveQueue := Some (100, []), sp_transmitQueue := Some (100, [])\<rparr>"

definition serial_running :: serial_state where
  "serial_running = serial_boot\<lparr>Serial := [started_port 0, started_port 1], USART := [idle_usart\<lparr>US_CSR := 2\<rparr>, idle_usart]\<rparr>"

lemma serial_sends_in_order_witness:
  "\<exists>t u. Serial_Write (\<lambda>_ s. s) 0 [1, 2, 3] 3 0 serial_running = Some (CONTROLLER_OK, t) \<and> interrupts 3 t = Some u \<and>
     US_sent (USART u ! 0) = [1, 2, 3]"
proof -
  have "transmits 0 serial_running"
    by (auto simp: transmits_def bad_port_def both_started_def serial_running_def started_port_def idle_usart_def less_2_cases_iff)
  moreover have "sp_transmitQueue (serial_port 0 serial_running) = Some (100, [])"
    by (simp add: serial_port_def serial_running_def started_port_def)
  moreover have "US_sent (USART serial_running ! 0) = []" by (simp add: serial_running_def idle_usart_def)
  ultimately show ?thesis using serial_sends_in_order [of 0 serial_running 100 "[]" "[1, 2, 3]" "\<lambda>_ s. s"] by (auto simp: numeral_3_eq_3)
qed

lemma serial_port0_wrong_lines_witness:
  "\<exists>t. Serial_SetActive 0 1 serial_boot = Some (CONTROLLER_OK, t) \<and> line_users t 0 = 1 \<and> line_users t 1 = 0 \<and> line_users t 2 = 0 \<and>
     \<not> line_pio t 1 \<and> \<not> line_pio t 2"
proof -
  have pins: "Io_pins serial_boot = Io_pins io_boot" "Io_users serial_boot = Io_users io_boot" "Io_init serial_boot = Io_init io_boot"
    by (simp_all add: serial_boot_def osc_state.defs osc_boot_def inputs_state.defs inputs_boot_def digitalout_state.defs dout_boot_def
      leds_state.defs leds_boot_def fasttimer_state.defs ft_boot_def io_state.defs)
  have inv: "io_inv serial_boot" using io_boot_inv by (simp add: io_inv_def pins)
  have users: "line_users serial_boot l = 0" "\<not> line_locked serial_boot 0" for l
    by (auto simp: line_users_def line_locked_def pins io_boot_def Let_def io_line_def)
  have "Serial serial_boot = replicate 2 idle_port" by (simp add: serial_boot_def osc_state.defs)
  then have "2 \<le> length (Serial serial_boot)" "\<not> sp_active (serial_port 0 serial_boot)"
    by (simp_all add: serial_port_def idle_port_def)
  then show ?thesis using serial_port0_wrong_lines [OF inv _ users(2)] users(1) by fastforce
qed

text \<open>
  The settings reach the registers only when the port is active, and starting a port makes it active last: after the first start neither
  the receiver nor the transmitter is enabled and no rate is set.
\<close>

lemma serial_details_inactive:
  "\<not> bad_port index \<Longrightarrow> \<not> sp_active (serial_port index s) \<Longrightarrow> Serial_SetDetails index s = Some (CONTROLLER_OK, s)"
  by (simp add: Serial_SetDetails_def)

lemma serial_isr_unstarted: "sp_at91UARTRegs (serial_port 0 s) = None \<Longrightarrow> SerialIsr_Handler s = None"
  by (simp add: SerialIsr_Handler_def isr_port_def usart_of_def)

end
