(* ===== verification/XBee.thy ===== *)
theory XBee
  imports SerialPort
begin

text \<open>
  XBee radio modules on serial port 0 (\<^verbatim>\<open>src/firmware/libraries/xbee/xbee.c\<close>, \<^verbatim>\<open>xbee.h\<close>): packets with a start byte, a length and a checksum are
  collected byte by byte by a small state machine, created for the different kinds of message, and reported by OSC. The structure of a packet is
  packed, so its bytes are the identifier, the payload and the checksum in this order. \<open>XBee_stack\<close> is what a packet on the stack contains before it is
  written.
\<close>

subsection \<open>Packets\<close>

record XBeePacket =
  xp_apiId :: u8
  xp_payload :: "u8 list"
  xp_crc :: u8
  xp_dataPtr :: "int option"
  xp_rxState :: int
  xp_length :: int
  xp_index :: int

abbreviation (input) XBEE_PACKET_RX_START :: int where "XBEE_PACKET_RX_START \<equiv> 0"
abbreviation (input) XBEE_PACKET_RX_LENGTH_1 :: int where "XBEE_PACKET_RX_LENGTH_1 \<equiv> 1"
abbreviation (input) XBEE_PACKET_RX_LENGTH_2 :: int where "XBEE_PACKET_RX_LENGTH_2 \<equiv> 2"
abbreviation (input) XBEE_PACKET_RX_PAYLOAD :: int where "XBEE_PACKET_RX_PAYLOAD \<equiv> 3"
abbreviation (input) XBEE_PACKET_RX_CRC :: int where "XBEE_PACKET_RX_CRC \<equiv> 4"
abbreviation (input) XBEE_PACKET_STARTBYTE :: int where "XBEE_PACKET_STARTBYTE \<equiv> 0x7E"
abbreviation (input) XBEE_MAX_PACKET_SIZE :: int where "XBEE_MAX_PACKET_SIZE \<equiv> 100"

abbreviation (input) XBEE_TX64 :: u8 where "XBEE_TX64 \<equiv> 0x00"
abbreviation (input) XBEE_TX16 :: u8 where "XBEE_TX16 \<equiv> 0x01"
abbreviation (input) XBEE_TXSTATUS :: u8 where "XBEE_TXSTATUS \<equiv> 0x89"
abbreviation (input) XBEE_RX64 :: u8 where "XBEE_RX64 \<equiv> 0x80"
abbreviation (input) XBEE_RX16 :: u8 where "XBEE_RX16 \<equiv> 0x81"
abbreviation (input) XBEE_ATCOMMAND :: u8 where "XBEE_ATCOMMAND \<equiv> 0x08"
abbreviation (input) XBEE_ATCOMMANDRESPONSE :: u8 where "XBEE_ATCOMMANDRESPONSE \<equiv> 0x88"
abbreviation (input) XBEE_IO64 :: u8 where "XBEE_IO64 \<equiv> 0x82"
abbreviation (input) XBEE_IO16 :: u8 where "XBEE_IO16 \<equiv> 0x83"

record XBeeSubsystem =
  xb_currentPkt :: XBeePacket
  xb_packetIndex :: int
  xb_autosend :: bool
  xb_waitingForConfirm :: bool

record xbee_state = serial_state +
  XBee :: "XBeeSubsystem option"
  XBee_stack :: XBeePacket
  System_asyncInterval :: int
  EEPROM_XBEE_AUTOSEND :: int

text \<open>The byte at an offset into the structure, and writing there; the checksum follows the payload. Nothing writes behind it on purpose.\<close>

definition packet_byte :: "int \<Rightarrow> XBeePacket \<Rightarrow> u8 option" where
  "packet_byte i p =
     (if i = 0 then Some (xp_apiId p)
      else if 0 < i \<and> i \<le> int (length (xp_payload p)) then Some (xp_payload p ! nat (i - 1))
      else None)"

definition packet_poke :: "int \<Rightarrow> u8 \<Rightarrow> XBeePacket \<Rightarrow> XBeePacket option" where
  "packet_poke i c p =
     (if i = 0 then Some (p\<lparr>xp_apiId := c\<rparr>)
      else if 0 < i \<and> i \<le> int (length (xp_payload p)) then Some (p\<lparr>xp_payload := (xp_payload p)[nat (i - 1) := c]\<rparr>)
      else None)"

definition XBee_ResetPacket :: "XBeePacket \<Rightarrow> XBeePacket" where
  "XBee_ResetPacket p =
     p\<lparr>xp_dataPtr := Some 0, xp_crc := 0, xp_rxState := XBEE_PACKET_RX_START, xp_length := 0, xp_index := 0, xp_apiId := 0,
       xp_payload := replicate 100 0\<rparr>"

definition XBee_IsBusyPacket :: "XBeePacket \<Rightarrow> bool" where
  "XBee_IsBusyPacket p \<longleftrightarrow> xp_rxState p \<noteq> XBEE_PACKET_RX_START"

subsection \<open>Activation\<close>

text \<open>Deactivating an active subsystem frees it and then reads the pointer to the packet from the freed memory.\<close>

definition xbee_create :: "'a xbee_state_scheme \<Rightarrow> 'a xbee_state_scheme" where
  "xbee_create s =
     s\<lparr>XBee := Some \<lparr>xb_currentPkt = XBee_ResetPacket (XBee_stack s), xb_packetIndex = 0,
         xb_autosend = (EEPROM_XBEE_AUTOSEND s = 1), xb_waitingForConfirm = False\<rparr>\<rparr>"

definition XBee_SetActive :: "int \<Rightarrow> (status, 'a xbee_state_scheme) op" where
  "XBee_SetActive state s =
     (if state \<noteq> 0 then
        (case XBee s of
           Some _ \<Rightarrow> Some (CONTROLLER_OK, s)
         | None \<Rightarrow>
             do {
               (status, s) \<leftarrow> Serial_SetActive 0 1 s;
               if status \<noteq> CONTROLLER_OK then Some (CONTROLLER_ERROR_SUBSYSTEM_INACTIVE, s)
               else do {
                 (_, s) \<leftarrow> Serial_SetBaud 0 9600 s;
                 (_, s) \<leftarrow> Serial_SetBits 0 8 s;
                 (_, s) \<leftarrow> Serial_SetParity 0 0 s;
                 (_, s) \<leftarrow> Serial_SetStopBits 0 1 s;
                 Some (CONTROLLER_OK, xbee_create s)
               }
             })
      else do {
        (_, s) \<leftarrow> Serial_SetActive 0 0 s;
        if XBee s \<noteq> None then None else Some (CONTROLLER_OK, s)
      })"

definition XBee_GetActive :: "'a xbee_state_scheme \<Rightarrow> u8" where
  "XBee_GetActive s = Serial_GetActive 0 s"

definition XBee_Write :: "(int \<Rightarrow> 'a xbee_state_scheme \<Rightarrow> 'a xbee_state_scheme) \<Rightarrow> u8 list \<Rightarrow> int \<Rightarrow> int \<Rightarrow> (status, 'a xbee_state_scheme) op" where
  "XBee_Write env buffer count timeout s = Serial_Write env 0 buffer count timeout s"

definition XBee_Read :: "(int \<Rightarrow> 'a xbee_state_scheme \<Rightarrow> 'a xbee_state_scheme) \<Rightarrow> int \<Rightarrow> int \<Rightarrow> (int \<times> u8 list, 'a xbee_state_scheme) op" where
  "XBee_Read env count timeout s = Serial_Read env 0 count timeout s"

definition on_xbee :: "(XBeeSubsystem \<Rightarrow> XBeeSubsystem) \<Rightarrow> 'a xbee_state_scheme \<Rightarrow> 'a xbee_state_scheme" where
  "on_xbee f s = s\<lparr>XBee := map_option f (XBee s)\<rparr>"

text \<open>The result of starting is not looked at.\<close>

definition XBee_GetAutoSend :: "bool \<Rightarrow> (bool, 'a xbee_state_scheme) op" where
  "XBee_GetAutoSend init s =
     do {
       (_, s) \<leftarrow> XBee_SetActive 1 s;
       let s = (if init then on_xbee (\<lambda>x. x\<lparr>xb_autosend := (EEPROM_XBEE_AUTOSEND s = 1)\<rparr>) s else s);
       x \<leftarrow> XBee s;
       Some (xb_autosend x, s)
     }"

definition XBee_SetAutoSend :: "int \<Rightarrow> 'a xbee_state_scheme \<Rightarrow> 'a xbee_state_scheme option" where
  "XBee_SetAutoSend onoff s =
     do {
       (_, s) \<leftarrow> XBee_SetActive 1 s;
       x \<leftarrow> XBee s;
       if of_bool (xb_autosend x) \<noteq> onoff
       then Some ((on_xbee (\<lambda>x. x\<lparr>xb_autosend := to_bool onoff\<rparr>) s)\<lparr>EEPROM_XBEE_AUTOSEND := onoff\<rparr>)
       else Some s
     }"

subsection \<open>Receiving\<close>

text \<open>One received character; the result of the call, when it ends with this character, comes first.\<close>

definition xbee_rx :: "int \<Rightarrow> XBeePacket \<Rightarrow> (int option \<times> XBeePacket) option" where
  "xbee_rx c p =
     (if xp_rxState p = XBEE_PACKET_RX_START then
        Some (None, if c = XBEE_PACKET_STARTBYTE then p\<lparr>xp_rxState := XBEE_PACKET_RX_LENGTH_1\<rparr> else p)
      else if xp_rxState p = XBEE_PACKET_RX_LENGTH_1 then
        Some (None, p\<lparr>xp_length := c * 2 ^ 8, xp_rxState := XBEE_PACKET_RX_LENGTH_2\<rparr>)
      else if xp_rxState p = XBEE_PACKET_RX_LENGTH_2 then
        (let n = c_int (xp_length p + c)
         in Some (None, p\<lparr>xp_length := n, xp_crc := 0,
              xp_rxState := (if n > XBEE_MAX_PACKET_SIZE then XBEE_PACKET_RX_START else XBEE_PACKET_RX_PAYLOAD)\<rparr>))
      else if xp_rxState p = XBEE_PACKET_RX_PAYLOAD then
        do {
          d \<leftarrow> xp_dataPtr p;
          p \<leftarrow> packet_poke d (word_of_int c) p;
          let k = c_int (xp_index p + 1);
          Some (None, p\<lparr>xp_dataPtr := Some (d + 1), xp_index := k,
            xp_rxState := (if k \<ge> xp_length p then XBEE_PACKET_RX_CRC else XBEE_PACKET_RX_PAYLOAD),
            xp_crc := xp_crc p + word_of_int c\<rparr>)
        }
      else if xp_rxState p = XBEE_PACKET_RX_CRC then
        (let p = p\<lparr>xp_crc := xp_crc p + word_of_int c, xp_rxState := XBEE_PACKET_RX_START\<rparr>
         in if xp_crc p = 0xFF then Some (Some 1, p) else Some (Some 0, XBee_ResetPacket p))
      else Some (None, p))"

text \<open>
  The characters in the queue are read one by one. The outer loop runs once and then once for each tick before the time is over, sleeping for one tick
  in between: with a timeout of \<open>n > 0\<close> it makes \<open>n\<close> passes.
\<close>

primrec rx_loop :: "nat \<Rightarrow> XBeePacket \<Rightarrow> (int option \<times> XBeePacket, 'a xbee_state_scheme) op" where
  "rx_loop 0 p s = Some ((None, p), s)"
| "rx_loop (Suc n) p s =
     do {
       (c, s) \<leftarrow> Serial_GetChar 0 s;
       if c = - 1 then Some ((None, p), s)
       else do {
         (r, p) \<leftarrow> xbee_rx c p;
         (case r of Some v \<Rightarrow> Some ((Some v, p), s) | None \<Rightarrow> rx_loop n p s)
       }
     }"

primrec rx_passes ::
  "(int \<Rightarrow> 'a xbee_state_scheme \<Rightarrow> 'a xbee_state_scheme) \<Rightarrow> bool \<Rightarrow> nat \<Rightarrow> XBeePacket \<Rightarrow> (int \<times> XBeePacket, 'a xbee_state_scheme) op" where
  "rx_passes env sleeps 0 p s = Some ((0, p), s)"
| "rx_passes env sleeps (Suc k) p s =
     do {
       s \<leftarrow> Serial_ClearErrors 0 s;
       n \<leftarrow> Serial_GetReadable 0 s;
       ((r, p), s) \<leftarrow> rx_loop (nat n) p s;
       (case r of
          Some v \<Rightarrow> Some ((v, p), s)
        | None \<Rightarrow> rx_passes env sleeps k p (if sleeps then env 1 s else s))
     }"

definition XBee_GetPacket ::
  "(int \<Rightarrow> 'a xbee_state_scheme \<Rightarrow> 'a xbee_state_scheme) \<Rightarrow> XBeePacket \<Rightarrow> int \<Rightarrow> (int \<times> XBeePacket, 'a xbee_state_scheme) op" where
  "XBee_GetPacket env p timeout s =
     do {
       (status, s) \<leftarrow> XBee_SetActive 1 s;
       if status \<noteq> CONTROLLER_OK then Some ((CONTROLLER_ERROR_SUBSYSTEM_INACTIVE, p), s)
       else rx_passes env (timeout > 0) (max 1 (nat timeout)) p s
     }"

subsection \<open>Sending\<close>

text \<open>Results of writing single characters are not looked at.\<close>

definition set_char :: "int \<Rightarrow> 'a xbee_state_scheme \<Rightarrow> 'a xbee_state_scheme option" where
  "set_char c s = map_option snd (Serial_SetChar 0 c s)"

definition send_size :: "XBeePacket \<Rightarrow> int \<Rightarrow> int" where
  "send_size p datalength =
     (if xp_apiId p = XBEE_TX64 then datalength + 11
      else if xp_apiId p = XBEE_TX16 then datalength + 5
      else if xp_apiId p = XBEE_ATCOMMAND then (if datalength > 0 then 8 else 4)
      else 0)"

primrec send_bytes :: "nat \<Rightarrow> int \<Rightarrow> XBeePacket \<Rightarrow> (XBeePacket, 'a xbee_state_scheme) op" where
  "send_bytes 0 i p s = Some (p, s)"
| "send_bytes (Suc n) i p s =
     do {
       c \<leftarrow> packet_byte i p;
       s \<leftarrow> set_char (uint c) s;
       send_bytes n (i + 1) (p\<lparr>xp_crc := xp_crc p + c\<rparr>) s
     }"

definition XBee_SendPacket :: "XBeePacket \<Rightarrow> int \<Rightarrow> (status \<times> XBeePacket, 'a xbee_state_scheme) op" where
  "XBee_SendPacket p datalength s =
     do {
       (status, s) \<leftarrow> XBee_SetActive 1 s;
       if status \<noteq> CONTROLLER_OK then Some ((CONTROLLER_ERROR_SUBSYSTEM_INACTIVE, p), s)
       else do {
         s \<leftarrow> set_char XBEE_PACKET_STARTBYTE s;
         let size = send_size p datalength;
         s \<leftarrow> set_char (drop_bit 8 size AND 0xFF) s;
         s \<leftarrow> set_char (size AND 0xFF) s;
         (p, s) \<leftarrow> (if size < 0 then None else send_bytes (nat size) 0 (p\<lparr>xp_crc := 0\<rparr>) s);
         s \<leftarrow> set_char (0xFF - uint (xp_crc p)) s;
         Some ((CONTROLLER_OK, p), s)
       }
     }"

subsection \<open>Creating packets\<close>

primrec poke_all :: "u8 list \<Rightarrow> int \<Rightarrow> XBeePacket \<Rightarrow> XBeePacket option" where
  "poke_all [] i p = Some p"
| "poke_all (c # cs) i p = packet_poke i c p \<bind> poke_all cs (i + 1)"

text \<open>
  Offsets into the structure: the frame identifier is byte 1; a command and its parameters follow, or an address, options and data. A command is the memory
  at its pointer, with the terminator.
\<close>

definition XBee_CreateATCommandPacket :: "XBeePacket \<Rightarrow> u8 \<Rightarrow> string \<Rightarrow> u8 list \<Rightarrow> XBeePacket option" where
  "XBee_CreateATCommandPacket p frameID cmd params =
     do {
       p \<leftarrow> poke_all [XBEE_ATCOMMAND, frameID] 0 p;
       p \<leftarrow> (if length cmd < 2 then None else poke_all [of_nat (of_char (cmd ! 0)), of_nat (of_char (cmd ! 1))] 2 p);
       poke_all params 4 p
     }"

definition XBee_CreateTX16Packet :: "XBeePacket \<Rightarrow> u8 \<Rightarrow> u16 \<Rightarrow> u8 \<Rightarrow> u8 list \<Rightarrow> XBeePacket option" where
  "XBee_CreateTX16Packet p frameID destination options data =
     do {
       p \<leftarrow> poke_all [XBEE_TX16, frameID, ucast (drop_bit 8 destination), ucast (destination AND 0xFF), options] 0 p;
       poke_all data 5 (p\<lparr>xp_length := int (length data) + 5\<rparr>)
     }"

text \<open>The mask of byte \<open>i\<close> of the address is \<open>0xFF * i\<close>, so some bits are lost and the first byte is always zero.\<close>

definition XBee_CreateTX64Packet :: "XBeePacket \<Rightarrow> u8 \<Rightarrow> u64 \<Rightarrow> u8 \<Rightarrow> u8 list \<Rightarrow> XBeePacket option" where
  "XBee_CreateTX64Packet p frameID destination options data =
     do {
       p \<leftarrow> poke_all ([XBEE_TX64, frameID] @
              map (\<lambda>i. ucast (drop_bit (8 * i) destination AND of_nat (0xFF * i))) [0..<8] @ [options]) 0 p;
       poke_all data 11 (p\<lparr>xp_length := int (length data) + 5\<rparr>)
     }"

definition XBee_IntToBigEndianArray :: "int \<Rightarrow> u8 list" where
  "XBee_IntToBigEndianArray v =
     [word_of_int (drop_bit 24 v AND 0xFF), word_of_int (drop_bit 16 v AND 0xFF), word_of_int (drop_bit 8 v AND 0xFF), word_of_int (v AND 0xFF)]"

subsection \<open>Reading packets\<close>

text \<open>Payload byte \<open>i\<close>, which is byte \<open>i + 1\<close> of the structure.\<close>

definition payload_at :: "int \<Rightarrow> XBeePacket \<Rightarrow> u8 option" where
  "payload_at i p = packet_byte (i + 1) p"

definition address16 :: "XBeePacket \<Rightarrow> u16 option" where
  "address16 p =
     do {
       a \<leftarrow> payload_at 0 p;
       b \<leftarrow> payload_at 1 p;
       Some (push_bit 8 (ucast a) + ucast b)
     }"

text \<open>The shift of each step is eight times its number, so the address that was there and all but two bytes are shifted out.\<close>

primrec address64 :: "nat list \<Rightarrow> u64 \<Rightarrow> XBeePacket \<Rightarrow> u64 option" where
  "address64 [] a p = Some a"
| "address64 (i # is) a p = payload_at (int i) p \<bind> (\<lambda>b. address64 is (push_bit (i * 8) a + ucast b) p)"

text \<open>Source address, signal strength, options, where the data begin in the payload, and their length.\<close>

definition XBee_ReadRX16Packet :: "XBeePacket \<Rightarrow> (u16 \<times> u8 \<times> u8 \<times> int \<times> u8) option option" where
  "XBee_ReadRX16Packet p =
     (if xp_apiId p \<noteq> XBEE_RX16 then Some None
      else do {
        src \<leftarrow> address16 p;
        rssi \<leftarrow> payload_at 2 p;
        opts \<leftarrow> payload_at 3 p;
        Some (Some (src, rssi, opts, 4, word_of_int (xp_length p - 5)))
      })"

definition XBee_ReadRX64Packet :: "u64 \<Rightarrow> XBeePacket \<Rightarrow> (u64 \<times> u8 \<times> u8 \<times> int \<times> u8) option option" where
  "XBee_ReadRX64Packet address p =
     (if xp_apiId p \<noteq> XBEE_RX64 then Some None
      else do {
        src \<leftarrow> address64 [0..<8] address p;
        rssi \<leftarrow> payload_at 8 p;
        opts \<leftarrow> payload_at 9 p;
        Some (Some (src, rssi, opts, 10, word_of_int (xp_length p - 11)))
      })"

text \<open>
  The inputs of a sample: the digital ones are two bytes, which are read again for each enabled input as long as they are zero; each enabled analog input is two
  bytes and is stored over the digital ones.
\<close>

definition io_step ::
  "nat \<Rightarrow> bool \<Rightarrow> XBeePacket \<Rightarrow> int \<times> int \<times> int list \<Rightarrow> (int \<times> int \<times> int list) option" where
  "io_step i enabled p st =
     (let (ptr, digitalins, ins) = st
      in if i < 9 then
           (let ins = ins[i := 0]
            in if \<not> enabled then Some (ptr, digitalins, ins)
               else do {
                 (ptr, digitalins) \<leftarrow>
                   (if digitalins = 0 then
                      do {
                        a \<leftarrow> payload_at ptr p;
                        b \<leftarrow> payload_at (ptr + 1) p;
                        Some (ptr + 2, (push_bit 8 (uint a)) OR uint b)
                      }
                    else Some (ptr, digitalins));
                 Some (ptr, digitalins, ins[i := (drop_bit i digitalins AND 1) * 1023])
               })
         else if \<not> enabled then Some (ptr, digitalins, ins)
         else do {
           a \<leftarrow> payload_at ptr p;
           b \<leftarrow> payload_at (ptr + 1) p;
           Some (ptr + 2, digitalins, ins[i - 9 := (push_bit 8 (uint a)) OR uint b])
         })"

primrec io_steps :: "nat list \<Rightarrow> int \<Rightarrow> XBeePacket \<Rightarrow> int \<times> int \<times> int list \<Rightarrow> int list option" where
  "io_steps [] channelIndicators p st = Some (snd (snd st))"
| "io_steps (i # is) channelIndicators p st = io_step i (odd channelIndicators) p st \<bind> io_steps is (drop_bit 1 channelIndicators) p"

definition XBee_GetIOValues :: "XBeePacket \<Rightarrow> int list \<Rightarrow> int list option option" where
  "XBee_GetIOValues p inputs =
     (if xp_apiId p = XBEE_IO16 \<or> xp_apiId p = XBEE_IO64 then
        let at = (if xp_apiId p = XBEE_IO16 then 5 else 11)
        in do {
          a \<leftarrow> payload_at at p;
          b \<leftarrow> payload_at (at + 1) p;
          map_option Some (io_steps [0..<15] (push_bit 8 (uint a) OR uint b) p (at + 2, 0, inputs))
        }
      else Some None)"

definition XBee_ReadIO16Packet :: "int list \<Rightarrow> XBeePacket \<Rightarrow> (u16 \<times> u8 \<times> u8 \<times> int list) option option" where
  "XBee_ReadIO16Packet inputs p =
     (if xp_apiId p \<noteq> XBEE_IO16 then Some None
      else do {
        src \<leftarrow> address16 p;
        rssi \<leftarrow> payload_at 2 p;
        opts \<leftarrow> payload_at 3 p;
        ins \<leftarrow> XBee_GetIOValues p inputs;
        Some (map_option (\<lambda>ins. (src, rssi, opts, ins)) ins)
      })"

text \<open>The test is for a data packet, whose inputs \<open>XBee_GetIOValues\<close> refuses to read.\<close>

definition XBee_ReadIO64Packet :: "int list \<Rightarrow> u64 \<Rightarrow> XBeePacket \<Rightarrow> (u64 \<times> u8 \<times> u8 \<times> int list) option option" where
  "XBee_ReadIO64Packet inputs address p =
     (if xp_apiId p \<noteq> XBEE_RX64 then Some None
      else do {
        src \<leftarrow> address64 [0..<8] address p;
        rssi \<leftarrow> payload_at 8 p;
        opts \<leftarrow> payload_at 9 p;
        ins \<leftarrow> XBee_GetIOValues p inputs;
        Some (map_option (\<lambda>ins. (src, rssi, opts, ins)) ins)
      })"

primrec response_value :: "nat \<Rightarrow> int \<Rightarrow> int \<Rightarrow> XBeePacket \<Rightarrow> int option" where
  "response_value 0 i v p = Some v"
| "response_value (Suc n) i v p = payload_at i p \<bind> (\<lambda>c. response_value n (i + 1) (c_int (v * 2 ^ 8 + uint c)) p)"

definition XBee_ReadAtResponsePacket :: "XBeePacket \<Rightarrow> (u8 \<times> string \<times> u8 \<times> int) option option" where
  "XBee_ReadAtResponsePacket p =
     (if xp_apiId p \<noteq> XBEE_ATCOMMANDRESPONSE then Some None
      else do {
        frameID \<leftarrow> payload_at 0 p;
        c \<leftarrow> payload_at 1 p;
        d \<leftarrow> payload_at 2 p;
        status \<leftarrow> payload_at 3 p;
        v \<leftarrow> response_value (nat (xp_length p - 5)) 4 0 p;
        Some (Some (frameID, [char_of (unat c), char_of (unat d)], status, v))
      })"

definition XBee_ReadTXStatusPacket :: "XBeePacket \<Rightarrow> (u8 \<times> u8) option option" where
  "XBee_ReadTXStatusPacket p =
     (if xp_apiId p \<noteq> XBEE_TXSTATUS then Some None
      else do {
        frameID \<leftarrow> payload_at 0 p;
        status \<leftarrow> payload_at 1 p;
        Some (Some (frameID, status))
      })"

subsection \<open>Configuration\<close>

definition at_command :: "u8 \<Rightarrow> string \<Rightarrow> u8 list \<Rightarrow> 'a xbee_state_scheme \<Rightarrow> 'a xbee_state_scheme option" where
  "at_command frameID cmd params s =
     do {
       p \<leftarrow> XBee_CreateATCommandPacket (XBee_stack s) frameID cmd params;
       (_, s) \<leftarrow> XBee_SendPacket p (int (length params)) s;
       Some s
     }"

abbreviation (input) terminated :: "string \<Rightarrow> string" where "terminated str \<equiv> str @ [NUL]"

definition request :: "string \<Rightarrow> (status, 'a xbee_state_scheme) op" where
  "request cmd s = map_option (\<lambda>s. (CONTROLLER_OK, s)) (at_command 0x52 cmd [] s)"

definition XBeeConfig_SetPacketApiMode ::
  "(int \<Rightarrow> 'a xbee_state_scheme \<Rightarrow> 'a xbee_state_scheme) \<Rightarrow> int \<Rightarrow> 'a xbee_state_scheme \<Rightarrow> 'a xbee_state_scheme option" where
  "XBeeConfig_SetPacketApiMode env v s =
     do {
       (status, s) \<leftarrow> XBee_SetActive 1 s;
       if status \<noteq> CONTROLLER_OK then Some s
       else if v \<noteq> 0 then
         do {
           (_, s) \<leftarrow> Serial_Write env 0 (map (\<lambda>c. of_nat (of_char c)) ''+++'') 3 0 s;
           (_, s) \<leftarrow> Serial_Write env 0 (map (\<lambda>c. of_nat (of_char c)) (''ATAP1,CN'' @ [CHR 0x0D])) 9 0 (env 1025 s);
           Serial_Flush 0 (env 50 s)
         }
       else at_command 0 (terminated ''AP'') [0, 0, 0, 0] s
     }"

definition XBeeConfig_RequestPacketApiMode :: "(status, 'a xbee_state_scheme) op" where
  "XBeeConfig_RequestPacketApiMode = request (terminated ''AP'')"

definition XBeeConfig_RequestATResponse :: "string \<Rightarrow> (status, 'a xbee_state_scheme) op" where
  "XBeeConfig_RequestATResponse cmd = request cmd"

text \<open>The name of the line is printed into two bytes, one fewer than it takes with its terminator.\<close>

definition io_command :: "int \<Rightarrow> string option" where
  "io_command pin = (let cmd = terminated (''D'' @ print_int pin) in if length cmd > 2 then None else Some cmd)"

definition XBeeConfig_SetIO :: "int \<Rightarrow> int \<Rightarrow> 'a xbee_state_scheme \<Rightarrow> 'a xbee_state_scheme option" where
  "XBeeConfig_SetIO pin v s = io_command pin \<bind> (\<lambda>cmd. at_command 0 cmd (XBee_IntToBigEndianArray v) s)"

definition XBeeConfig_RequestIO :: "int \<Rightarrow> (status, 'a xbee_state_scheme) op" where
  "XBeeConfig_RequestIO pin s = io_command pin \<bind> (\<lambda>cmd. request cmd s)"

definition XBeeConfig_WriteStateToMemory :: "'a xbee_state_scheme \<Rightarrow> 'a xbee_state_scheme option" where
  "XBeeConfig_WriteStateToMemory = at_command 0 (terminated ''WR'') [0, 0, 0, 0]"

definition XBeeConfig_SetAddress :: "u16 \<Rightarrow> 'a xbee_state_scheme \<Rightarrow> 'a xbee_state_scheme option" where
  "XBeeConfig_SetAddress address = at_command 0 (terminated ''MY'') (XBee_IntToBigEndianArray (uint address))"

definition XBeeConfig_RequestAddress :: "(status, 'a xbee_state_scheme) op" where
  "XBeeConfig_RequestAddress = request (terminated ''MY'')"

definition XBeeConfig_SetPanID :: "u16 \<Rightarrow> 'a xbee_state_scheme \<Rightarrow> 'a xbee_state_scheme option" where
  "XBeeConfig_SetPanID panid = at_command 0 (terminated ''ID'') (XBee_IntToBigEndianArray (uint panid))"

definition XBeeConfig_RequestPanID :: "(status, 'a xbee_state_scheme) op" where
  "XBeeConfig_RequestPanID = request (terminated ''ID'')"

definition XBeeConfig_SetChannel :: "u8 \<Rightarrow> 'a xbee_state_scheme \<Rightarrow> 'a xbee_state_scheme option" where
  "XBeeConfig_SetChannel channel = at_command 0 (terminated ''CH'') (XBee_IntToBigEndianArray (uint channel))"

definition XBeeConfig_RequestChannel :: "(status, 'a xbee_state_scheme) op" where
  "XBeeConfig_RequestChannel = request (terminated ''CH'')"

definition XBeeConfig_SetSampleRate :: "u16 \<Rightarrow> 'a xbee_state_scheme \<Rightarrow> 'a xbee_state_scheme option" where
  "XBeeConfig_SetSampleRate rate = at_command 0 (terminated ''IR'') (XBee_IntToBigEndianArray (uint rate))"

definition XBeeConfig_RequestSampleRate :: "(status, 'a xbee_state_scheme) op" where
  "XBeeConfig_RequestSampleRate = request (terminated ''IR'')"

subsection \<open>OSC\<close>

text \<open>
  A new packet is reported by a message of its kind and reset. The address of a data packet with a 64-bit address is passed as an argument of 64 bits
  where the format says \<^verbatim>\<open>int\<close>, which has no defined result.
\<close>

definition status_text :: "u8 \<Rightarrow> string" where
  "status_text status =
     (if status = 0 then ''Success'' else if status = 1 then ''No acknowledgement received''
      else if status = 2 then ''CCA Failure'' else if status = 3 then ''Purged'' else ''No status received'')"

definition at_report :: "string \<Rightarrow> int \<Rightarrow> string \<times> osc_arg list" where
  "at_report cmd v =
     (let one = (\<lambda>name. (''/xbeeconfig/'' @ name, [Arg_int (word_of_int v)]))
      in if cmd = ''IR'' then one ''samplerate'' else if cmd = ''MY'' then one ''address'' else if cmd = ''CH'' then one ''channel''
         else if cmd = ''ID'' then one ''panid'' else (''/xbeeconfig/at-command'', [Arg_string cmd, Arg_int (word_of_int v)]))"

definition packet_report :: "XBeePacket \<Rightarrow> (string \<times> osc_arg list) option option" where
  "packet_report p =
     (if xp_apiId p = XBEE_RX16 then
        XBee_ReadRX16Packet p \<bind>
          (\<lambda>r. case r of None \<Rightarrow> Some None
                | Some (src, rssi, opts, d, n) \<Rightarrow>
                    if d + uint n > int (length (xp_payload p)) then None
                    else Some (Some (''/xbee/rx16'', [Arg_int (ucast src), Arg_int (ucast rssi), Arg_int (ucast opts),
                           Arg_blob (map (\<lambda>c. char_of (unat c)) (take (unat n) (drop (nat d) (xp_payload p))))])))
      else if xp_apiId p = XBEE_RX64 then None
      else if xp_apiId p = XBEE_IO16 then
        map_option (map_option (\<lambda>(src, rssi, opts, ins).
            (''/xbee/io16'', [Arg_int (ucast src), Arg_int (ucast rssi)] @ map (\<lambda>v. Arg_int (word_of_int v)) ins)))
          (XBee_ReadIO16Packet (replicate 9 0) p)
      else if xp_apiId p = XBEE_IO64 then Some None
      else if xp_apiId p = XBEE_TXSTATUS then
        map_option (map_option (\<lambda>(frameID, status). (''/xbee/tx-status'', [Arg_int (ucast frameID), Arg_string (status_text status)])))
          (XBee_ReadTXStatusPacket p)
      else if xp_apiId p = XBEE_ATCOMMANDRESPONSE then
        map_option (map_option (\<lambda>(frameID, cmd, status, v). at_report (takeWhile (\<lambda>c. c \<noteq> NUL) cmd) v)) (XBee_ReadAtResponsePacket p)
      else Some None)"

definition XBeeOsc_HandleNewPacket :: "XBeePacket \<Rightarrow> int \<Rightarrow> (u8 \<times> XBeePacket, 'a xbee_state_scheme) op" where
  "XBeeOsc_HandleNewPacket p channel s =
     do {
       r \<leftarrow> packet_report p;
       s \<leftarrow> (case r of
                None \<Rightarrow> Some s
              | Some (address, args) \<Rightarrow>
                  done_with (Osc_CreateMessage channel address
                    (if xp_apiId p = XBEE_RX16 then '',iiib'' else if xp_apiId p = XBEE_IO16 then '',iiiiiiiiiii''
                     else if xp_apiId p = XBEE_TXSTATUS then '',is'' else if length args = 1 then '',i'' else '',si'') args s));
       Some ((xp_apiId p, XBee_ResetPacket p), s)
     }"

text \<open>Reading into, and reporting, the packet of the subsystem.\<close>

definition get_current :: "(int \<Rightarrow> 'a xbee_state_scheme \<Rightarrow> 'a xbee_state_scheme) \<Rightarrow> int \<Rightarrow> (int, 'a xbee_state_scheme) op" where
  "get_current env timeout s =
     do {
       x \<leftarrow> XBee s;
       ((r, p), s) \<leftarrow> XBee_GetPacket env (xb_currentPkt x) timeout s;
       Some (r, on_xbee (\<lambda>x. x\<lparr>xb_currentPkt := p\<rparr>) s)
     }"

definition handle_current :: "int \<Rightarrow> 'a xbee_state_scheme \<Rightarrow> 'a xbee_state_scheme option" where
  "handle_current channel s =
     do {
       x \<leftarrow> XBee s;
       ((_, p), s) \<leftarrow> XBeeOsc_HandleNewPacket (xb_currentPkt x) channel s;
       Some (on_xbee (\<lambda>x. x\<lparr>xb_currentPkt := p\<rparr>) s)
     }"

text \<open>The packet that is read into is one on the stack that was never reset, the one that is reported is that of the subsystem.\<close>

definition get_message :: "(int \<Rightarrow> 'a xbee_state_scheme \<Rightarrow> 'a xbee_state_scheme) \<Rightarrow> int \<Rightarrow> 'a xbee_state_scheme \<Rightarrow> 'a xbee_state_scheme option" where
  "get_message env channel s =
     do {
       ((r, _), s) \<leftarrow> XBee_GetPacket env (XBee_stack s) 500 s;
       if r \<noteq> 0 then handle_current channel s else Some s
     }"

definition int_reply :: "int \<Rightarrow> string \<Rightarrow> int \<Rightarrow> 'a osc_state_scheme \<Rightarrow> 'a osc_state_scheme option" where
  "int_reply channel address v s = done_with (Osc_CreateMessage channel address '',i'' [Arg_int (word_of_int v)] s)"

text \<open>One integer from the data of a message, or an error message.\<close>

definition with_int ::
  "int \<Rightarrow> int \<Rightarrow> string \<Rightarrow> (int \<Rightarrow> 'a osc_state_scheme \<Rightarrow> 'a osc_state_scheme option) \<Rightarrow> (status, 'a osc_state_scheme) op" where
  "with_int channel typedata name f s =
     do {
       mem \<leftarrow> osc_mem channel s;
       vs \<leftarrow> Osc_ExtractData mem typedata ''i'';
       (case vs of
          [Val_int v] \<Rightarrow> map_option (\<lambda>s. (CONTROLLER_OK, s)) (f v s)
        | _ \<Rightarrow> Osc_SubsystemError channel name ''Incorrect data - need an int'' s)
     }"

definition XBeeOsc_PropertySet :: "int \<Rightarrow> int \<Rightarrow> int \<Rightarrow> (status, 'a xbee_state_scheme) op" where
  "XBeeOsc_PropertySet property typedata channel =
     (if property = 0 then with_int channel typedata ''xbee'' (\<lambda>v s. done_with (XBee_SetActive v s))
      else if property = 1 \<or> property = 2 then Osc_SubsystemError channel ''xbee'' ''Property is read-only''
      else if property = 3 then with_int channel typedata ''xbee'' XBee_SetAutoSend
      else (\<lambda>s. Some (CONTROLLER_OK, s)))"

definition XBeeOsc_PropertyGet :: "(int \<Rightarrow> 'a xbee_state_scheme \<Rightarrow> 'a xbee_state_scheme) \<Rightarrow> int \<Rightarrow> int \<Rightarrow> (status, 'a xbee_state_scheme) op" where
  "XBeeOsc_PropertyGet env property channel s =
     (if property = 1 \<or> property = 2
      then Osc_SubsystemError channel ''xbee'' ''Can't get specific messages - use /xbee/get-message instead.'' s
      else map_option (\<lambda>s. (CONTROLLER_OK, s))
        (if property = 0 then int_reply channel ''/xbee/active'' (uint (XBee_GetActive s)) s
         else if property = 3 then XBee_GetAutoSend False s \<bind> (\<lambda>(b, s). int_reply channel ''/xbee/autosend'' (of_bool b) s)
         else if property = 4 then get_message env channel s
         else Some s))"

definition XBeeOsc_ReceiveMessage ::
  "(int \<Rightarrow> 'a xbee_state_scheme \<Rightarrow> 'a xbee_state_scheme) \<Rightarrow> int \<Rightarrow> int \<Rightarrow> int \<Rightarrow> (status, 'a xbee_state_scheme) op" where
  "XBeeOsc_ReceiveMessage env channel p len s =
     do {
       (_, s) \<leftarrow> XBee_SetActive 1 s;
       (status, s) \<leftarrow> Osc_GeneralReceiverHelper channel p len ''xbee'' XBeeOsc_PropertySet (XBeeOsc_PropertyGet env)
         [''active'', ''io16'', ''rx16'', ''autosend'', ''get-message''] s;
       if status \<noteq> CONTROLLER_OK then Osc_SendError channel ''xbee'' status s else Some (CONTROLLER_OK, s)
     }"

text \<open>A command is sent together with a query of the same setting until an answer arrives.\<close>

partial_function (option) confirm_loop ::
  "(int \<Rightarrow> 'a xbee_state_scheme \<Rightarrow> 'a xbee_state_scheme) \<Rightarrow> string \<Rightarrow> u8 list \<Rightarrow> int \<Rightarrow> 'a xbee_state_scheme \<Rightarrow> 'a xbee_state_scheme option" where
  "confirm_loop env cmd params channel s =
     do {
       s \<leftarrow> at_command 0x53 cmd params s;
       s \<leftarrow> at_command 0x52 cmd [] s;
       (r, s) \<leftarrow> get_current env 5 s;
       if r \<noteq> 0 then handle_current channel s else confirm_loop env cmd params channel (env 1 s)
     }"

definition confirm ::
  "(int \<Rightarrow> 'a xbee_state_scheme \<Rightarrow> 'a xbee_state_scheme) \<Rightarrow> string \<Rightarrow> int \<Rightarrow> int \<Rightarrow> 'a xbee_state_scheme \<Rightarrow> 'a xbee_state_scheme option" where
  "confirm env cmd v channel s =
     do {
       _ \<leftarrow> XBee s;
       let s = env (System_asyncInterval s + 1) (on_xbee (\<lambda>x. x\<lparr>xb_waitingForConfirm := True\<rparr>) s);
       _ \<leftarrow> XBee s;
       s \<leftarrow> confirm_loop env cmd (XBee_IntToBigEndianArray v) channel
         (on_xbee (\<lambda>x. x\<lparr>xb_currentPkt := XBee_ResetPacket (xb_currentPkt x)\<rparr>) s);
       Some (on_xbee (\<lambda>x. x\<lparr>xb_waitingForConfirm := False\<rparr>) s)
     }"

definition XBeeConfigOsc_PropertySet ::
  "(int \<Rightarrow> 'a xbee_state_scheme \<Rightarrow> 'a xbee_state_scheme) \<Rightarrow> int \<Rightarrow> int \<Rightarrow> int \<Rightarrow> (status, 'a xbee_state_scheme) op" where
  "XBeeConfigOsc_PropertySet env property typedata channel s =
     (let one_int = (\<lambda>f. with_int channel typedata ''xbeeconfig'' f s);
          ok = map_option (\<lambda>s. (CONTROLLER_OK, s));
          wrong = (\<lambda>str. Osc_SubsystemError channel ''xbeeconfig'' str s)
      in if property = 0 then one_int (\<lambda>v s. done_with (XBee_SetActive v s))
         else if property = 1 then one_int (\<lambda>v. XBeeConfig_SetAddress (word_of_int v))
         else if property = 2 then one_int (\<lambda>v. XBeeConfig_SetPanID (word_of_int v))
         else if property = 3 then one_int (\<lambda>v. XBeeConfig_SetChannel (word_of_int v))
         else if property = 4 then one_int (\<lambda>v. XBeeConfig_SetSampleRate (word_of_int v))
         else if property = 5 then one_int (\<lambda>_. XBeeConfig_WriteStateToMemory)
         else if 6 \<le> property \<and> property \<le> 14 then one_int (XBeeConfig_SetIO (property - 6))
         else if property = 15 then one_int (XBeeConfig_SetPacketApiMode env)
         else if property = 16 \<or> property = 18 \<or> property = 19 then
           do {
             mem \<leftarrow> osc_mem channel s;
             vs \<leftarrow> Osc_ExtractData mem typedata ''si'';
             (case vs of
                [Val_string q, Val_int v] \<Rightarrow>
                  do {
                    cmd \<leftarrow> mem_at mem q;
                    ok (if property = 16 then at_command 0 cmd (XBee_IntToBigEndianArray v) s
                        else if property = 18 then
                          at_command 0 cmd (XBee_IntToBigEndianArray v) s \<bind> at_command 0 (terminated ''WR'') []
                        else confirm env cmd v channel s)
                  }
              | [Val_string q] \<Rightarrow>
                  if property = 16 then mem_at mem q \<bind> (\<lambda>cmd. XBeeConfig_RequestATResponse cmd s)
                  else wrong ''Incorrect data - need a string and an int''
              | _ \<Rightarrow> wrong (if property = 16 then ''Incorrect data - need a string, optionally followed by an int''
                            else ''Incorrect data - need a string and an int''))
           }
         else Some (CONTROLLER_OK, s))"

definition XBeeConfigOsc_PropertyGet ::
  "(int \<Rightarrow> 'a xbee_state_scheme \<Rightarrow> 'a xbee_state_scheme) \<Rightarrow> int \<Rightarrow> int \<Rightarrow> (status, 'a xbee_state_scheme) op" where
  "XBeeConfigOsc_PropertyGet env property channel s =
     (if property = 0 then map_option (\<lambda>s. (CONTROLLER_OK, s)) (int_reply channel ''/xbeeconfig/active'' (uint (XBee_GetActive s)) s)
      else if property = 1 then XBeeConfig_RequestAddress s
      else if property = 2 then XBeeConfig_RequestPanID s
      else if property = 3 then XBeeConfig_RequestChannel s
      else if property = 4 then XBeeConfig_RequestSampleRate s
      else if 6 \<le> property \<and> property \<le> 14 then XBeeConfig_RequestIO (property - 6) s
      else if property = 15 then XBeeConfig_RequestPacketApiMode s
      else if property = 17 then map_option (\<lambda>s. (CONTROLLER_OK, s)) (get_message env channel s)
      else Some (CONTROLLER_OK, s))"

definition XBeeConfigOsc_ReceiveMessage ::
  "(int \<Rightarrow> 'a xbee_state_scheme \<Rightarrow> 'a xbee_state_scheme) \<Rightarrow> int \<Rightarrow> int \<Rightarrow> int \<Rightarrow> (status, 'a xbee_state_scheme) op" where
  "XBeeConfigOsc_ReceiveMessage env channel p len s =
     do {
       (_, s) \<leftarrow> XBee_SetActive 1 s;
       (status, s) \<leftarrow> Osc_GeneralReceiverHelper channel p len ''xbeeconfig'' (XBeeConfigOsc_PropertySet env) (XBeeConfigOsc_PropertyGet env)
         [''active'', ''address'', ''panid'', ''channel'', ''samplerate'', ''write'', ''io0'', ''io1'', ''io2'', ''io3'', ''io4'', ''io5'',
          ''io6'', ''io7'', ''io8'', ''packet-mode'', ''at-command'', ''get-message'', ''write-command'', ''confirm''] s;
       if status \<noteq> CONTROLLER_OK then Osc_SendError channel ''xbeeconfig'' status s else Some (CONTROLLER_OK, s)
     }"

text \<open>All packets that are there are reported; a negative result counts as a packet too.\<close>

partial_function (option) xbee_async_loop ::
  "(int \<Rightarrow> 'a xbee_state_scheme \<Rightarrow> 'a xbee_state_scheme) \<Rightarrow> int \<Rightarrow> int \<Rightarrow> (int, 'a xbee_state_scheme) op" where
  "xbee_async_loop env channel newMsgs s =
     do {
       (r, s) \<leftarrow> get_current env 0 s;
       if r \<noteq> 0 then handle_current channel s \<bind> xbee_async_loop env channel (c_int (newMsgs + 1)) else Some (newMsgs, s)
     }"

definition XBeeOsc_Async :: "(int \<Rightarrow> 'a xbee_state_scheme \<Rightarrow> 'a xbee_state_scheme) \<Rightarrow> int \<Rightarrow> (int, 'a xbee_state_scheme) op" where
  "XBeeOsc_Async env channel s =
     do {
       (_, s) \<leftarrow> XBee_SetActive 1 s;
       (autosend, s) \<leftarrow> XBee_GetAutoSend False s;
       x \<leftarrow> XBee s;
       if \<not> autosend \<or> xb_waitingForConfirm x then Some (0, s) else xbee_async_loop env channel 0 s
     }"

subsection \<open>Sending a packet\<close>

text \<open>The bytes of a packet, and what is sent for some bytes with a checksum.\<close>

definition packet_bytes :: "XBeePacket \<Rightarrow> u8 list" where
  "packet_bytes p = xp_apiId p # xp_payload p"

definition xbee_wire :: "u8 list \<Rightarrow> u8 \<Rightarrow> u8 list" where
  "xbee_wire bs crc = [0x7E, of_nat (length bs div 256), of_nat (length bs mod 256)] @ bs @ [crc]"

lemma packet_byte_nth: "i < length (packet_bytes p) \<Longrightarrow> packet_byte (int i) p = Some (packet_bytes p ! i)"
  by (cases i) (auto simp: packet_byte_def packet_bytes_def)

lemma set_char_tx:
  assumes "both_started s" and "length q < n" and "0 \<le> c" and "c < 256"
  shows "set_char c (tx_state 0 n q m x s) = Some (tx_state 0 n (q @ [word_of_int c]) (m OR mask1 US_TXRDY) x s)"
proof -
  have i: "\<not> bad_port 0" by (simp add: bad_port_def)
  have "sp_active (serial_port 0 (tx_state 0 n q m x s))" using assms(1) i by (simp add: both_started_def)
  then show ?thesis
    using assms i by (simp add: set_char_def Serial_SetChar_def serial_started_def serial_send_def queue_send_def)
qed

lemma send_bytes_tx:
  assumes "both_started s" and "i + k \<le> length (packet_bytes p)" and "length q + k \<le> n"
  shows "send_bytes k (int i) p (tx_state 0 n q (m OR mask1 US_TXRDY) x s) =
    Some (p\<lparr>xp_crc := xp_crc p + sum_list (take k (drop i (packet_bytes p)))\<rparr>,
      tx_state 0 n (q @ take k (drop i (packet_bytes p))) (m OR mask1 US_TXRDY) x s)"
  using assms(2,3)
proof (induction k arbitrary: i p q)
  case (Suc k)
  let ?c = "packet_bytes p ! i"
  have i: "i < length (packet_bytes p)" using Suc.prems by simp
  have "set_char (uint ?c) (tx_state 0 n q (m OR mask1 US_TXRDY) x s) = Some (tx_state 0 n (q @ [?c]) (m OR mask1 US_TXRDY) x s)"
    using set_char_tx [OF assms(1), of q n "uint ?c"] Suc.prems uint_lt2p [of ?c] by (simp add: or.assoc)
  moreover have "packet_bytes (p\<lparr>xp_crc := xp_crc p + ?c\<rparr>) = packet_bytes p" by (simp add: packet_bytes_def)
  moreover have "take (Suc k) (drop i (packet_bytes p)) = ?c # take k (drop (Suc i) (packet_bytes p))"
    using i by (simp flip: Cons_nth_drop_Suc)
  ultimately show ?case
    using Suc.IH [of "Suc i" "p\<lparr>xp_crc := xp_crc p + ?c\<rparr>" "q @ [?c]"] Suc.prems
    by (simp add: packet_byte_nth [OF i] add.commute add.assoc)
qed simp

lemma send_packet_tx:
  assumes "both_started s" and "XBee s \<noteq> None" and "sp_transmitQueue (serial_port 0 s) = Some (n, q)"
    and "send_size p datalength = int k" and "k \<le> 100" and "k \<le> length (packet_bytes p)" and "length q + k + 4 \<le> n"
  shows "\<exists>p'. XBee_SendPacket p datalength s = Some ((CONTROLLER_OK, p'),
    tx_state 0 n (q @ xbee_wire (take k (packet_bytes p)) (0xFF - sum_list (take k (packet_bytes p))))
      (US_IMR (USART s ! 0) OR mask1 US_TXRDY) (US_sent (USART s ! 0)) s)"
proof -
  let ?m = "US_IMR (USART s ! 0)" and ?x = "US_sent (USART s ! 0)" and ?bs = "take k (packet_bytes p)"
  define p' where "p' = p\<lparr>xp_crc := sum_list ?bs\<rparr>"
  have s: "tx_state 0 n q ?m ?x s = s" using tx_state_self [of s 0 n q] assms(3) by (simp add: serial_port_def)
  have active: "XBee_SetActive 1 s = Some (CONTROLLER_OK, s)" using assms(2) by (auto simp: XBee_SetActive_def)
  note char = set_char_tx [OF assms(1)]
  have start: "set_char 0x7E s = Some (tx_state 0 n (q @ [0x7E]) (?m OR mask1 US_TXRDY) ?x s)"
    using char [of q n "0x7E" ?m ?x] assms(7) unfolding s by simp
  have "drop_bit 8 (int k) = 0" using assms(5) by (simp add: drop_bit_eq_div)
  then have high: "set_char (drop_bit 8 (int k) AND 0xFF) (tx_state 0 n (q @ [0x7E]) (?m OR mask1 US_TXRDY) ?x s) =
      Some (tx_state 0 n (q @ [0x7E, 0]) (?m OR mask1 US_TXRDY) ?x s)"
    using char [of "q @ [0x7E]" n 0 "?m OR mask1 US_TXRDY" ?x] assms(7) by (simp add: or.assoc)
  have "int k AND 0xFF = int k" using assms(5) take_bit_eq_mask [of 8 "int k"] by (simp add: mask_eq_exp_minus_1 take_bit_int_eq_self)
  then have low: "set_char (int k AND 0xFF) (tx_state 0 n (q @ [0x7E, 0]) (?m OR mask1 US_TXRDY) ?x s) =
      Some (tx_state 0 n (q @ [0x7E, 0, of_nat k]) (?m OR mask1 US_TXRDY) ?x s)"
    using char [of "q @ [0x7E, 0]" n "int k" "?m OR mask1 US_TXRDY" ?x] assms(5,7) by (simp add: or.assoc)
  have bytes: "send_bytes k 0 (p\<lparr>xp_crc := 0\<rparr>) (tx_state 0 n (q @ [0x7E, 0, of_nat k]) (?m OR mask1 US_TXRDY) ?x s) =
      Some (p', tx_state 0 n (q @ [0x7E, 0, of_nat k] @ ?bs) (?m OR mask1 US_TXRDY) ?x s)"
    using send_bytes_tx [OF assms(1), of 0 k "p\<lparr>xp_crc := 0\<rparr>" "q @ [0x7E, 0, of_nat k]" n ?m ?x] assms(6,7)
    by (simp add: p'_def packet_bytes_def)
  have sum: "word_of_int (0xFF - uint (xp_crc p')) = (0xFF - sum_list ?bs :: u8)" by (simp add: p'_def)
  have "uint (xp_crc p') < 256" using uint_lt2p [of "xp_crc p'"] by simp
  then have range: "0 \<le> 0xFF - uint (xp_crc p')" "0xFF - uint (xp_crc p') < 256" using uint_ge_0 [of "xp_crc p'"] by linarith+
  have "length (q @ [0x7E, 0, of_nat k] @ ?bs) < n" using assms(6,7) by simp
  from char [OF this range, of "?m OR mask1 US_TXRDY" ?x]
  have crc: "set_char (0xFF - uint (xp_crc p')) (tx_state 0 n (q @ [0x7E, 0, of_nat k] @ ?bs) (?m OR mask1 US_TXRDY) ?x s) =
      Some (tx_state 0 n (q @ [0x7E, 0, of_nat k] @ ?bs @ [0xFF - sum_list ?bs]) (?m OR mask1 US_TXRDY) ?x s)"
    unfolding sum by (simp add: or.assoc)
  have "length ?bs = k" using assms(6) by simp
  then have "xbee_wire ?bs (0xFF - sum_list ?bs) = [0x7E, 0, of_nat k] @ ?bs @ [0xFF - sum_list ?bs]"
    using assms(5) by (simp add: xbee_wire_def)
  then show ?thesis
    by (intro exI [of _ p']) (simp add: XBee_SendPacket_def active start assms(4) high low bytes crc [unfolded append_Cons append_Nil] Let_def del: One_nat_def)
qed

subsection \<open>Receiving a packet\<close>

text \<open>A packet of which \<open>i\<close> bytes have been collected.\<close>

definition collecting :: "int \<Rightarrow> int \<Rightarrow> int \<Rightarrow> u8 \<Rightarrow> u8 list \<Rightarrow> XBeePacket" where
  "collecting st n i crc bs =
     \<lparr>xp_apiId = hd bs, xp_payload = tl bs, xp_crc = crc, xp_dataPtr = Some i, xp_rxState = st, xp_length = n, xp_index = i\<rparr>"

text \<open>Characters none of which ends the call.\<close>

primrec rx_silent :: "u8 list \<Rightarrow> XBeePacket \<Rightarrow> XBeePacket option" where
  "rx_silent [] p = Some p"
| "rx_silent (c # cs) p = xbee_rx (uint c) p \<bind> (\<lambda>(r, p). if r = None then rx_silent cs p else None)"

lemma rx_silent_append: "rx_silent (cs @ ds) p = rx_silent cs p \<bind> rx_silent ds"
  by (induction cs arbitrary: p) (auto split: Option.bind_split prod.splits)

lemma poke_collecting:
  assumes "0 \<le> i" and "i < int (length bs)"
  shows "packet_poke i c (collecting st n j crc bs) = Some (collecting st n j crc (bs[nat i := c]))"
proof (cases bs)
  case (Cons b bs')
  have "nat i = Suc (nat (i - 1))" if "i \<noteq> 0" using assms(1) that by simp
  then show ?thesis using assms Cons by (auto simp: packet_poke_def collecting_def)
qed (use assms in simp)

lemma rx_silent_payload:
  assumes "i + length cs = n" and "n \<le> length bs" and "length bs \<le> 101" and "cs \<noteq> []"
  shows "rx_silent cs (collecting XBEE_PACKET_RX_PAYLOAD (int n) (int i) crc bs) =
    Some (collecting XBEE_PACKET_RX_CRC (int n) (int n) (crc + sum_list cs) (take i bs @ cs @ drop n bs))"
  using assms
proof (induction cs arbitrary: i crc bs)
  case (Cons c cs)
  let ?bs = "bs[i := c]"
  have i: "i < length bs" using Cons.prems by simp
  have poke: "packet_poke (int i) c (collecting XBEE_PACKET_RX_PAYLOAD (int n) (int i) crc bs) =
      Some (collecting XBEE_PACKET_RX_PAYLOAD (int n) (int i) crc ?bs)"
    using poke_collecting [of "int i" bs] i by simp
  have small: "c_int (int i + 1) = int (Suc i)" using i Cons.prems by (simp add: c_int_small)
  have byte: "xbee_rx (uint c) (collecting XBEE_PACKET_RX_PAYLOAD (int n) (int i) crc bs) =
      Some (None, collecting (if Suc i \<ge> n then XBEE_PACKET_RX_CRC else XBEE_PACKET_RX_PAYLOAD) (int n) (int (Suc i)) (crc + c) ?bs)"
    using poke small by (simp add: xbee_rx_def collecting_def)
  have split: "take (Suc i) ?bs = take i bs @ [c]" "drop n ?bs = drop n bs"
    using i Cons.prems by (simp_all add: take_Suc_conv_app_nth)
  show ?case
  proof (cases "cs = []")
    case True
    then have "n = Suc i" using Cons.prems by simp
    moreover have "?bs = take i bs @ c # drop (Suc i) bs" using i by (simp add: upd_conv_take_nth_drop)
    ultimately show ?thesis using True byte by simp
  next
    case False
    then have "\<not> Suc i \<ge> n" using Cons.prems by (cases cs) auto
    then show ?thesis
      using Cons.IH [of "Suc i" ?bs "crc + c"] Cons.prems False byte split by (simp add: add.assoc)
  qed
qed simp

lemma rx_silent_wire:
  assumes "bs \<noteq> []" and "length bs \<le> 100"
  shows "rx_silent ([0x7E, of_nat (length bs div 256), of_nat (length bs mod 256)] @ bs) (XBee_ResetPacket p) =
    Some (collecting XBEE_PACKET_RX_CRC (int (length bs)) (int (length bs)) (sum_list bs) (bs @ replicate (101 - length bs) 0))"
proof -
  have "XBee_ResetPacket p = collecting XBEE_PACKET_RX_START 0 0 0 (replicate 101 0)"
    by (cases p) (simp add: XBee_ResetPacket_def collecting_def flip: replicate_Suc)
  moreover have "rx_silent [0x7E, of_nat (length bs div 256), of_nat (length bs mod 256)] (collecting XBEE_PACKET_RX_START 0 0 0 (replicate 101 0)) =
      Some (collecting XBEE_PACKET_RX_PAYLOAD (int (length bs)) 0 0 (replicate 101 0))"
    using assms(2) by (simp add: xbee_rx_def collecting_def c_int_small unsigned_of_nat take_bit_nat_eq_self take_bit_int_eq_self)
  ultimately show ?thesis
    using rx_silent_payload [of 0 bs "length bs" "replicate 101 0" 0] assms unfolding rx_silent_append
    by (simp del: rx_silent.simps)
qed

text \<open>Port 0 with some characters waiting to be read.\<close>

abbreviation (input) rx_state :: "nat \<Rightarrow> u8 list \<Rightarrow> 'a serial_state_scheme \<Rightarrow> 'a serial_state_scheme" where
  "rx_state n q s \<equiv> upd_port 0 (\<lambda>sp. sp\<lparr>sp_receiveQueue := Some (n, q)\<rparr>) s"

lemma rx_state_again [simp]: "Serial s \<noteq> [] \<Longrightarrow> rx_state n q (rx_state m r s) = rx_state n q s"
  by (simp add: upd_port_def)

lemma GetChar_rx:
  assumes "Serial s \<noteq> []" and "sp_active (serial_port 0 s)"
  shows "Serial_GetChar 0 (rx_state n (c # q) s) = Some (uint c, rx_state n q s)"
  using assms by (simp add: Serial_GetChar_def bad_port_def serial_started_def serial_receive_def)

lemma rx_loop_step:
  assumes "Serial s \<noteq> []" and "sp_active (serial_port 0 s)" and "xbee_rx (uint c) p = Some (r, p')"
  shows "rx_loop (Suc k) p (rx_state n (c # q) s) =
    (case r of Some v \<Rightarrow> Some ((Some v, p'), rx_state n q s) | None \<Rightarrow> rx_loop k p' (rx_state n q s))"
proof -
  have "uint c \<noteq> - 1" using uint_ge_0 [of c] by linarith
  then show ?thesis using assms by (simp add: GetChar_rx)
qed

lemma rx_loop_silent:
  assumes "Serial s \<noteq> []" and "sp_active (serial_port 0 s)" and "rx_silent cs p = Some p'"
  shows "rx_loop (length cs + k) p (rx_state n (cs @ q) s) = rx_loop k p' (rx_state n q s)"
  using assms(3)
proof (induction cs arbitrary: p)
  case (Cons c cs)
  from Cons.prems obtain p1 where p1: "xbee_rx (uint c) p = Some (None, p1)" and rest: "rx_silent cs p1 = Some p'"
    by (auto split: Option.bind_splits if_splits)
  show ?case using rx_loop_step [OF assms(1,2) p1] Cons.IH [OF rest] by simp
qed simp

text \<open>The port is reached through its registers, the subsystem has been started, and some characters are waiting.\<close>

definition xbee_receives :: "nat \<Rightarrow> u8 list \<Rightarrow> 'a xbee_state_scheme \<Rightarrow> bool" where
  "xbee_receives n q s \<longleftrightarrow> XBee s \<noteq> None \<and> Serial s \<noteq> [] \<and> sp_active (serial_port 0 s) \<and> sp_at91UARTRegs (serial_port 0 s) \<noteq> None \<and>
     sp_receiveQueue (serial_port 0 s) = Some (n, q)"

lemma xbee_get_wire:
  assumes "xbee_receives n (xbee_wire bs crc @ q) s" and "bs \<noteq> []" and "length bs \<le> 100"
  shows "\<exists>t. sp_receiveQueue (serial_port 0 t) = Some (n, q) \<and>
    XBee_GetPacket env (XBee_ResetPacket p) timeout s =
      Some (if sum_list bs + crc = 0xFF
            then (1, collecting XBEE_PACKET_RX_START (int (length bs)) (int (length bs)) 0xFF (bs @ replicate (101 - length bs) 0))
            else (0, XBee_ResetPacket p), t)"
proof -
  let ?w = "[0x7E, of_nat (length bs div 256), of_nat (length bs mod 256)] @ bs"
  obtain k where k: "sp_at91UARTRegs (serial_port 0 s) = Some k" using assms(1) by (auto simp: xbee_receives_def)
  obtain u where clear: "Serial_ClearErrors 0 s = Some (s\<lparr>USART := u\<rparr>)"
  proof (cases "US_CSR (USART s ! k) AND us_errors \<noteq> 0")
    case True
    then show thesis using upd_usart_some [OF k, of "us_CR {8}"] k that by (auto simp: Serial_ClearErrors_def bad_port_def usart_of_def)
  next
    case False
    then show thesis using that [of "USART s"] k by (simp add: Serial_ClearErrors_def bad_port_def usart_of_def)
  qed
  define s1 where "s1 = s\<lparr>USART := u\<rparr>"
  have s1: "Serial s1 \<noteq> []" "sp_active (serial_port 0 s1)" "sp_receiveQueue (serial_port 0 s1) = Some (n, xbee_wire bs crc @ q)"
    using assms(1) by (simp_all add: s1_def xbee_receives_def)
  have "(serial_port 0 s1)\<lparr>sp_receiveQueue := Some (n, xbee_wire bs crc @ q)\<rparr> = serial_port 0 s1"
    by (rule Serial_.equality) (simp_all add: s1(3))
  then have self: "rx_state n (xbee_wire bs crc @ q) s1 = s1" by (simp add: upd_port_def serial_port_def)
  have wire: "xbee_wire bs crc @ q = ?w @ crc # q" by (simp add: xbee_wire_def)
  define N where "N = length ?w + Suc (length q)"
  have readable: "Serial_GetReadable 0 s1 = Some (int N)"
    using s1(3) unfolding wire by (simp add: Serial_GetReadable_def bad_port_def N_def)
  let ?p = "collecting XBEE_PACKET_RX_CRC (int (length bs)) (int (length bs)) (sum_list bs) (bs @ replicate (101 - length bs) 0)"
  let ?v = "if sum_list bs + crc = 0xFF then 1 else (0 :: int)"
  let ?q = "if sum_list bs + crc = 0xFF
    then collecting XBEE_PACKET_RX_START (int (length bs)) (int (length bs)) 0xFF (bs @ replicate (101 - length bs) 0) else XBee_ResetPacket p"
  have last: "xbee_rx (uint crc) ?p = Some (Some ?v, ?q)"
    by (cases p) (simp add: xbee_rx_def collecting_def XBee_ResetPacket_def)
  have "rx_loop N (XBee_ResetPacket p) s1 = Some ((Some ?v, ?q), rx_state n q s1)"
    using rx_loop_silent [OF s1(1,2) rx_silent_wire [OF assms(2,3)], of "Suc (length q)" p n "crc # q"]
      rx_loop_step [OF s1(1,2) last, of "length q" n q] self
    unfolding wire N_def by simp
  moreover obtain j where j: "max 1 (nat timeout) = Suc j" by (cases "max 1 (nat timeout)") auto
  ultimately have "XBee_GetPacket env (XBee_ResetPacket p) timeout s = Some ((?v, ?q), rx_state n q s1)"
    using assms(1) readable unfolding XBee_GetPacket_def j
    by (auto simp: XBee_SetActive_def xbee_receives_def clear simp del: rx_loop.simps simp flip: s1_def)
  moreover have "sp_receiveQueue (serial_port 0 (rx_state n q s1)) = Some (n, q)" using s1(1) by simp
  ultimately show ?thesis by (intro exI [of _ "rx_state n q s1"]) auto
qed


lemma sum_list_changed: "i < length bs \<Longrightarrow> sum_list (bs[i := c]) = sum_list bs + (c - bs ! i)" for bs :: "u8 list"
  by (induction bs arbitrary: i) (auto simp: algebra_simps split: nat.splits)


subsection \<open>A board with a radio\<close>

definition empty_packet :: XBeePacket where
  "empty_packet = collecting XBEE_PACKET_RX_START 0 0 0 (replicate 101 0)"

definition xbee_running :: xbee_state where
  "xbee_running = serial_state.extend serial_running
     \<lparr>XBee = Some \<lparr>xb_currentPkt = empty_packet, xb_packetIndex = 0, xb_autosend = False, xb_waitingForConfirm = False\<rparr>,
      XBee_stack = empty_packet, System_asyncInterval = 10, EEPROM_XBEE_AUTOSEND = 0\<rparr>"

lemma xbee_running_parts [simp]:
  "Serial xbee_running = [started_port 0, started_port 1]" "USART xbee_running = [idle_usart\<lparr>US_CSR := 2\<rparr>, idle_usart]" "XBee xbee_running \<noteq> None"
  by (simp_all add: xbee_running_def serial_running_def serial_boot_def serial_state.defs osc_state.defs)

lemma xbee_running_receives: "xbee_receives 100 q (rx_state 100 q xbee_running)"
  by (simp add: xbee_receives_def upd_port_def serial_port_def started_port_def)



end
