(* ===== verification/Base64.thy ===== *)
theory Base64
  imports Prelude
begin

text \<open>
  The Base64 library (\<^verbatim>\<open>src/firmware/libraries/base64/base64.c\<close>): the encoder, which writes as many characters as the
  destination has room for, and the decoder, which stops at the first group it cannot read. Buffers are the lists of
  the bytes read and written; characters are bytes. A negative size of the destination would be taken for unlimited room.
\<close>

subsection \<open>The alphabet\<close>

definition b64str :: "u8 list" where
  "b64str = map (\<lambda>c. of_nat (of_char c)) ''ABCDEFGHIJKLMNOPQRSTUVWXYZabcdefghijklmnopqrstuvwxyz0123456789+/''"

text \<open>The value of a character, \<open>- 1\<close> when it is not in the alphabet, and the table of all values.\<close>

definition B64 :: "u8 \<Rightarrow> int" where
  "B64 ch =
     (case map_of (zip (map (\<lambda>c. of_nat (of_char c))
        ''ABCDEFGHIJKLMNOPQRSTUVWXYZabcdefghijklmnopqrstuvwxyz0123456789+/'') [0..<64]) ch of
        Some v \<Rightarrow> int v
      | None \<Rightarrow> - 1)"

definition b64 :: "int list" where
  "b64 = map (\<lambda>i. B64 (of_nat i)) [0..<256]"

definition isbase64 :: "u8 \<Rightarrow> bool" where
  "isbase64 ch \<longleftrightarrow> 0 \<le> b64 ! unat ch"

abbreviation (input) pad :: u8 where "pad \<equiv> 61"

subsection \<open>Encoding\<close>

definition b64char :: "int \<Rightarrow> u8" where
  "b64char v = b64str ! nat (v AND 0x3f)"

text \<open>The four characters for at most three source bytes.\<close>

definition encode_group :: "u8 list \<Rightarrow> u8 list" where
  "encode_group src =
     (let n = length src; s = (\<lambda>i. uint (src ! i))
      in [b64char (drop_bit 2 (s 0)),
          b64char (push_bit 4 (s 0) + (if n > 1 then drop_bit 4 (s 1) else 0)),
          (if n > 1 then b64char (push_bit 2 (s 1) + (if n > 2 then drop_bit 6 (s 2) else 0)) else pad),
          (if n > 2 then b64char (s 2) else pad)])"

text \<open>
  The loop writes character after character until the destination is full or the source is used up. The
  result is the number of characters written and the contents of the destination, ended with a null if there is room.
\<close>

fun encode_loop :: "nat \<Rightarrow> u8 list \<Rightarrow> u8 list" where
  "encode_loop dest_size [] = []"
| "encode_loop dest_size (a # src) =
     (if dest_size \<le> 4 then take dest_size (encode_group (take 3 (a # src)))
      else encode_group (take 3 (a # src)) @ encode_loop (dest_size - 4) (drop 2 src))"

definition Base64_Encode :: "int \<Rightarrow> u8 list \<Rightarrow> (int \<times> u8 list) option" where
  "Base64_Encode dest_size src =
     (if dest_size < 0 then None
      else let written = encode_loop (nat dest_size) src
           in Some (int (length written), if int (length written) < dest_size then written @ [0] else written))"

subsection \<open>Decoding\<close>

definition to_char :: "int \<Rightarrow> u8" where
  "to_char v = word_of_int v"

definition b64_at :: "u8 \<Rightarrow> int" where
  "b64_at ch = b64 ! unat ch"

text \<open>
  The loop gives the bytes decoded and the number of source characters left when it stops. A destination that is full does not
  stop it, but nothing more is written.
\<close>

fun b64_decode_loop :: "u8 list \<Rightarrow> u8 list \<times> nat" where
  "b64_decode_loop (a # b # src) =
     (let src_size = length src + 2 in
      if \<not> isbase64 a \<or> \<not> isbase64 b then ([], src_size)
      else
        let x = to_char (push_bit 2 (b64_at a) OR drop_bit 4 (b64_at b)) in
        case src of
          [] \<Rightarrow> ([x], src_size)
        | c # src' \<Rightarrow>
            if c = pad then (if src_size \<noteq> 4 \<or> hd src' \<noteq> pad then ([x], src_size) else ([x], 0))
            else if \<not> isbase64 c then ([x], src_size)
            else
              let y = to_char ((push_bit 4 (b64_at b) AND 0xf0) OR drop_bit 2 (b64_at c)) in
              case src' of
                [] \<Rightarrow> ([x, y], src_size)
              | d # rest \<Rightarrow>
                  if d = pad then (if src_size \<noteq> 4 then ([x, y], src_size) else ([x, y], 0))
                  else if \<not> isbase64 d then ([x, y], src_size)
                  else
                    let z = to_char ((push_bit 6 (b64_at c) AND 0xc0) OR b64_at d);
                        (out, left) = b64_decode_loop rest
                    in ([x, y, z] @ out, left))"
| "b64_decode_loop src = ([], length src)"

text \<open>Success, the new value of \<^verbatim>\<open>dest_size\<close> and the bytes written.\<close>

definition Base64_Decode :: "int \<Rightarrow> u8 list \<Rightarrow> (bool \<times> int \<times> u8 list) option" where
  "Base64_Decode dest_size src =
     (if dest_size < 0 then None
      else let (out, left) = b64_decode_loop src; written = take (nat dest_size) out
           in Some (left = 0, int (length written), written))"

subsection \<open>Six bits\<close>

lemma b64_at_B64: "b64_at ch = B64 ch"
  using unsigned_less [of ch, where ?'a = nat] by (simp add: b64_at_def b64_def)

lemma isbase64_B64: "isbase64 ch \<longleftrightarrow> 0 \<le> B64 ch"
  by (simp add: isbase64_def flip: b64_at_def add: b64_at_B64)

lemma b64str_facts: "length b64str = 64" "distinct b64str" "pad \<notin> set b64str"
  by (simp_all add: b64str_def)

lemma B64_b64str: "B64 ch = (case map_of (zip b64str [0..<64]) ch of Some v \<Rightarrow> int v | None \<Rightarrow> - 1)"
  by (simp only: B64_def b64str_def)

lemma six_bits:
  assumes "n < 64"
  shows "B64 (b64str ! n) = int n"
proof -
  have "map_of (zip b64str [0..<64]) (b64str ! n) = Some ([0..<64] ! n)"
    using assms b64str_facts by (intro map_of_zip_nth) simp_all
  then show ?thesis using assms by (simp add: B64_b64str)
qed

lemma and_63: "v AND 63 = take_bit 6 (v :: int)"
  by (simp add: take_bit_eq_mask mask_eq_exp_minus_1)

lemma b64char_facts [simp]: "b64_at (b64char v) = take_bit 6 v" "isbase64 (b64char v)" "b64char v \<noteq> pad"
proof -
  have range: "nat (take_bit 6 v) < 64" "0 \<le> take_bit 6 v" using take_bit_int_less_exp [of 6 v] by simp_all
  then have "b64char v \<in> set b64str" using b64str_facts(1) by (simp add: b64char_def and_63)
  then show "b64char v \<noteq> pad" using b64str_facts(3) by auto
  show "b64_at (b64char v) = take_bit 6 v" "isbase64 (b64char v)"
    using six_bits [OF range(1)] range(2) by (simp_all add: b64_at_B64 isbase64_B64 b64char_def and_63)
qed

lemma isbase64_pad [simp]: "\<not> isbase64 pad"
proof -
  have "map_of (zip b64str [0..<64]) pad = None" using b64str_facts by (simp add: map_of_zip_is_None)
  then show ?thesis by (simp add: isbase64_B64 B64_b64str)
qed

subsection \<open>One group\<close>

lemma high_low:
  "push_bit 4 (uint (a :: u8)) + drop_bit 4 (uint (b :: u8)) = push_bit 4 (uint a) OR drop_bit 4 (uint b)"
  "push_bit 2 (uint a) + drop_bit 6 (uint b) = push_bit 2 (uint a) OR drop_bit 6 (uint b)"
  by (rule disjunctive_add_eq_or, rule bit_eqI, simp add: bit_simps, use bit_imp_le_length [of b] in fastforce)+

lemma two_up: "\<not> n < 2 \<Longrightarrow> Suc (Suc (n - 2)) = n" "\<not> n < 4 \<Longrightarrow> Suc (Suc (Suc (Suc (n - 4)))) = n" "\<not> n < 6 \<Longrightarrow> 6 + (n - 6) = n"
  by simp_all

lemma high_bits: "bit (240 :: int) n \<longleftrightarrow> 4 \<le> n \<and> n < 8" "bit (192 :: int) n \<longleftrightarrow> 6 \<le> n \<and> n < 8" "\<not> bit (b :: u8) (8 + n)"
proof -
  have "(240 :: int) = push_bit 4 (mask 4)" "(192 :: int) = push_bit 6 (mask 2)" by (simp_all add: mask_eq_exp_minus_1 push_bit_eq_mult)
  note masks = this
  show "bit (240 :: int) n \<longleftrightarrow> 4 \<le> n \<and> n < 8" "bit (192 :: int) n \<longleftrightarrow> 6 \<le> n \<and> n < 8" unfolding masks by (auto simp: bit_simps)
  show "\<not> bit b (8 + n)" using bit_imp_le_length [of b "8 + n"] by auto
qed

lemma first_byte:
  "to_char (push_bit 2 (take_bit 6 (drop_bit 2 (uint (a :: u8)))) OR drop_bit 4 (take_bit 6 (push_bit 4 (uint a) + drop_bit 4 (uint (b :: u8))))) = a"
  "to_char (push_bit 2 (take_bit 6 (drop_bit 2 (uint a))) OR drop_bit 4 (take_bit 6 (push_bit 4 (uint a)))) = a"
  unfolding high_low
  by (rule bit_word_eqI, auto simp: to_char_def bit_simps two_up high_bits not_le)+

lemma second_byte:
  "to_char ((push_bit 4 (take_bit 6 (push_bit 4 (uint (a :: u8)) + drop_bit 4 (uint (b :: u8)))) AND 0xf0) OR
     drop_bit 2 (take_bit 6 (push_bit 2 (uint b) + drop_bit 6 (uint (c :: u8))))) = b"
  "to_char ((push_bit 4 (take_bit 6 (push_bit 4 (uint a) + drop_bit 4 (uint b))) AND 0xf0) OR drop_bit 2 (take_bit 6 (push_bit 2 (uint b)))) = b"
  unfolding high_low
  by (rule bit_word_eqI, auto simp: to_char_def bit_simps two_up high_bits not_le)+

lemma third_byte:
  "to_char ((push_bit 6 (take_bit 6 (push_bit 2 (uint (b :: u8)) + drop_bit 6 (uint (c :: u8)))) AND 0xc0) OR take_bit 6 (uint c)) = c"
  unfolding high_low
  by (rule bit_word_eqI, auto simp: to_char_def bit_simps two_up high_bits not_le)

lemmas group_bytes = first_byte second_byte third_byte

subsection \<open>Encoding and decoding\<close>

lemma encode_group_length [simp]: "length (encode_group src) = 4"
  by (simp add: encode_group_def Let_def)

lemma encode_group_cases:
  "encode_group [a] = [b64char (drop_bit 2 (uint a)), b64char (push_bit 4 (uint a)), pad, pad]"
  "encode_group [a, b] = [b64char (drop_bit 2 (uint a)), b64char (push_bit 4 (uint a) + drop_bit 4 (uint b)), b64char (push_bit 2 (uint b)), pad]"
  "encode_group [a, b, c] = [b64char (drop_bit 2 (uint a)), b64char (push_bit 4 (uint a) + drop_bit 4 (uint b)),
     b64char (push_bit 2 (uint b) + drop_bit 6 (uint c)), b64char (uint c)]"
  by (simp_all add: encode_group_def)

text \<open>The characters for a source when the destination has room for all of them.\<close>

fun b64_text :: "u8 list \<Rightarrow> u8 list" where
  "b64_text (a # b # c # src) = encode_group [a, b, c] @ b64_text src"
| "b64_text [] = []"
| "b64_text src = encode_group src"

lemma b64_text_length: "length (b64_text src) = 4 * ((length src + 2) div 3)"
proof (induction src rule: b64_text.induct)
  case (1 a b c src)
  have "(length (a # b # c # src) + 2) div 3 = (length src + 2) div 3 + 1" using div_add_self2 [of 3 "length src + 2"] by simp
  then show ?case using 1 by simp
qed auto

lemma encode_loop_text: "encode_loop n src = take n (b64_text src)"
proof (induction src arbitrary: n rule: b64_text.induct)
  case (1 a b c src)
  then show ?case by (simp add: take_Cons' numeral_3_eq_3)
qed (auto simp: numeral_2_eq_2)

lemma decode_text: "b64_decode_loop (b64_text src) = (src, 0)"
  by (induction src rule: b64_text.induct) (simp_all add: encode_group_cases group_bytes Let_def)

text \<open>
  C22: Decoding what was encoded gives the source again, and nothing else, when the destinations have room: the encoder returns four characters for each group of
  up to three bytes and writes a null behind them, and the decoder succeeds with the number of bytes of the source.
\<close>
theorem base64_roundtrip:
  assumes "4 * ((int (length src) + 2) div 3) < n" and "int (length src) \<le> m"
  shows "\<exists>text. Base64_Encode n src = Some (4 * ((int (length src) + 2) div 3), text @ [0]) \<and>
    Base64_Decode m text = Some (True, int (length src), src)"
proof -
  have len: "int (length (b64_text src)) = 4 * ((int (length src) + 2) div 3)" by (simp add: b64_text_length zdiv_int)
  then have "encode_loop (nat n) src = b64_text src" using assms(1) by (simp add: encode_loop_text)
  then have "Base64_Encode n src = Some (4 * ((int (length src) + 2) div 3), b64_text src @ [0])"
    using len assms(1) by (auto simp: Base64_Encode_def Let_def)
  moreover have "Base64_Decode m (b64_text src) = Some (True, int (length src), src)"
    using assms(2) by (simp add: Base64_Decode_def decode_text)
  ultimately show ?thesis by blast
qed

lemma base64_roundtrip_witness:
  "\<exists>text. Base64_Encode 256 [116, 101, 115, 116] = Some (8, text @ [0]) \<and> Base64_Decode 256 text = Some (True, 4, [116, 101, 115, 116])"
  using base64_roundtrip [of "[116, 101, 115, 116]" 256 256] by simp

text \<open>Neither function writes more than the destination has room for; a short destination gets the beginning.\<close>

lemma base64_encode_prefix: "0 \<le> n \<Longrightarrow> Base64_Encode n src = Some (k, out) \<Longrightarrow> k \<le> n \<and> int (length out) \<le> n \<and> take (nat k) out = take (nat n) (b64_text src)"
  by (auto simp: Base64_Encode_def Let_def encode_loop_text)

lemma base64_decode_room: "Base64_Decode m src = Some (ok, k, out) \<Longrightarrow> int (length out) = k \<and> k \<le> m"
  by (auto simp: Base64_Decode_def split: if_splits prod.splits)

end
