(* ===== verification/OscInputs.thy ===== *)
theory OscInputs
  imports OscDevices
begin

text \<open>
  The inputs and the plain I/O lines as OSC subsystems: their receive functions (\<^verbatim>\<open>io.c\<close>, \<^verbatim>\<open>analogin.c\<close>, \<^verbatim>\<open>digitalin.c\<close>), and the asynchronous
  reports of the analog inputs, one message for each channel whose value has changed since it was reported last.
\<close>

subsection \<open>Receive functions\<close>

definition AnalogInOsc_ReceiveMessage :: "int \<Rightarrow> int \<Rightarrow> int \<Rightarrow> (status, 'a osc_state_scheme) op" where
  "AnalogInOsc_ReceiveMessage channel p len s =
     do {
       (status, s) \<leftarrow> Osc_IndexIntReceiverHelper channel p len 8 ''analogin'' AnalogInOsc_PropertySet AnalogInOsc_PropertyGet
         [''active'', ''value'', ''autosend''] s;
       if status \<noteq> CONTROLLER_OK then Osc_SendError channel ''analogin'' status s else Some (CONTROLLER_OK, s)
     }"

definition DigitalInOsc_ReceiveMessage :: "int \<Rightarrow> int \<Rightarrow> int \<Rightarrow> (status, 'a osc_state_scheme) op" where
  "DigitalInOsc_ReceiveMessage channel p len s =
     do {
       (status, s) \<leftarrow> Osc_IndexIntReceiverHelper channel p len 8 ''digitalin'' DigitalInOsc_PropertySet DigitalInOsc_PropertyGet
         [''active'', ''value''] s;
       if status \<noteq> CONTROLLER_OK then Osc_SendError channel ''digitalin'' status s else Some (CONTROLLER_OK, s)
     }"

text \<open>A message that is not for a line is tried as one for a port.\<close>

definition IoOsc_ReceiveMessage :: "int \<Rightarrow> int \<Rightarrow> int \<Rightarrow> (status, 'a osc_state_scheme) op" where
  "IoOsc_ReceiveMessage channel p len s =
     do {
       (status, s) \<leftarrow> Osc_IndexIntReceiverHelper channel p len 64 ''io'' IoOsc_IndexIntPropertySet
         (\<lambda>i j s. map_option (\<lambda>v. (v, s)) (IoOsc_IndexIntPropertyGet i j s)) [''active'', ''value'', ''output'', ''pio'', ''pullup''] s;
       (status, s) \<leftarrow>
         (if status \<noteq> CONTROLLER_OK then
            Osc_IntReceiverHelper channel p len ''io'' (\<lambda>j v s. Some (IoOsc_IntPropertySet j (word_of_int v) s))
              (\<lambda>j s. Some (sint (IoOsc_IntPropertyGet j s), s)) [''porta'', ''portamask'', ''portb'', ''portbmask''] s
          else Some (status, s));
       if status \<noteq> CONTROLLER_OK then Osc_SendError channel ''io'' status s else Some (CONTROLLER_OK, s)
     }"

subsection \<open>Asynchronous reports\<close>

primrec analogin_async_loop :: "nat list \<Rightarrow> int \<Rightarrow> int \<Rightarrow> (int, 'a osc_state_scheme) op" where
  "analogin_async_loop [] channel newMsgs s = Some (newMsgs, s)"
| "analogin_async_loop (i # is) channel newMsgs s =
     do {
       (autosend, s) \<leftarrow> AnalogIn_GetAutoSend (int i) s;
       if \<not> autosend then analogin_async_loop is channel newMsgs s
       else do {
         (v, s) \<leftarrow> AnalogIn_GetValue (int i) s;
         a \<leftarrow> AnalogIn s;
         if v \<noteq> AI_lastValues a ! i then
           do {
             let s = on_ain (\<lambda>a. a\<lparr>AI_lastValues := (AI_lastValues a)[i := v]\<rparr>) s;
             (_, s) \<leftarrow> Osc_CreateMessage channel (scratch (''/analogin/'' @ print_nat i @ ''/value'')) '',i'' [Arg_int (word_of_int v)] s;
             analogin_async_loop is channel (newMsgs + 1) s
           }
         else analogin_async_loop is channel newMsgs s
       }
     }"

definition AnalogInOsc_Async :: "int \<Rightarrow> (int, 'a osc_state_scheme) op" where
  "AnalogInOsc_Async channel s = analogin_async_loop [0..<8] channel 0 s"

subsection \<open>What is reported\<close>

text \<open>Calls on a channel depend on the OSC part of the state only, and leave the inputs alone.\<close>

lemma report_part:
  fixes s t :: "'a osc_state_scheme"
  assumes "inputs_state.more t = inputs_state.more s"
  shows "channel_at c ch ms t = channel_at c ch ms s" "emitted ch t = emitted ch s" "Osc_out t = Osc_out s"
proof -
  have "Osc_active t = Osc_active s" "Osc_channel t = Osc_channel s" "Osc_out t = Osc_out s" "Osc_udpSendPort t = Osc_udpSendPort s"
    "Osc_stack t = Osc_stack s"
    using assms by (cases s; cases t; simp)+
  note parts = this
  show "channel_at c ch ms t = channel_at c ch ms s" using parts(1,2) by (simp add: channel_at_def osc_channel_def)
  show "emitted ch t = emitted ch s" using parts(4,5) by (rule emitted_cong)
  show "Osc_out t = Osc_out s" by (rule parts(3))
qed

lemma transmit_inputs [simp]: "AnalogIn (transmit ch p s) = AnalogIn s" "ADC_input (transmit ch p s) = ADC_input s"
  by (simp_all add: transmit_def)

lemma after_call_inputs [simp]:
  "AnalogIn (after_call c ch held sent s) = AnalogIn s" "ADC_input (after_call c ch held sent s) = ADC_input s"
proof -
  have "AnalogIn (fold (\<lambda>b. transmit ch (packet_of b)) sent t) = AnalogIn t" "ADC_input (fold (\<lambda>b. transmit ch (packet_of b)) sent t) = ADC_input t"
    for t :: "'a osc_state_scheme"
    by (induction sent arbitrary: t) simp_all
  then show "AnalogIn (after_call c ch held sent s) = AnalogIn s" "ADC_input (after_call c ch held sent s) = ADC_input s"
    by (simp_all add: after_call_def set_channel_def)
qed

lemma on_ain_more [simp]: "inputs_state.more (on_ain f s) = inputs_state.more s"
  by (simp add: on_ain_def)

text \<open>The inputs are all in use, no conversion is under way, and every channel that is reported delivers \<open>v\<close>.\<close>

definition converts :: "(nat \<Rightarrow> u32) \<Rightarrow> AnalogIn_ \<Rightarrow> 'a inputs_state_scheme \<Rightarrow> bool" where
  "converts v a s \<longleftrightarrow> AnalogIn s = Some a \<and> length (AI_channelUsers a) = 8 \<and> length (AI_lastValues a) = 8 \<and>
     (\<forall>i < 8. AI_channelUsers a ! i > 0) \<and> AI_semaphore a = Some True \<and> AI_doneSemaphore a = Some False \<and>
     (\<forall>i < 8. bit (AI_autosend a) i \<longrightarrow> ADC_input s i = Some (v i))"

abbreviation (input) reading :: "(nat \<Rightarrow> u32) \<Rightarrow> nat \<Rightarrow> int" where "reading v i \<equiv> uint (v i AND 0xFFFF)"

lemma converts_user:
  assumes "converts v a s" and "i < 8"
  shows "converts v (ain_add (int i) 1 a) (on_ain (ain_add (int i) 1) s)"
  using assms by (auto simp: converts_def nth_list_update ain_add_def on_ain_def)

lemma get_autosend:
  assumes "converts v a s" and "i < 8"
  shows "AnalogIn_GetAutoSend (int i) s = Some (bit (AI_autosend a) i, on_ain (ain_add (int i) 1) s)"
  using assms AnalogIn_SetActive_held [of s a "int i"]
  by (simp add: converts_def AnalogIn_GetAutoSend_def shift_ok_def ain_add_def)

lemma get_value:
  assumes "converts v a s" and "i < 8" and "bit (AI_autosend a) i"
  shows "\<exists>t a'. AnalogIn_GetValue (int i) s = Some (reading v i, t) \<and> converts v a' t \<and> AI_autosend a' = AI_autosend a \<and>
    AI_lastValues a' = AI_lastValues a \<and> inputs_state.more t = inputs_state.more s"
proof -
  have a: "AnalogIn s = Some a" "length (AI_channelUsers a) = 8" "AI_channelUsers a ! nat (int i) > 0" "AI_semaphore a = Some True"
    "AI_doneSemaphore a = Some False" "ADC_input s i = Some (v i)"
    using assms by (simp_all add: converts_def)
  let ?s = "adc_select (mask1 i) (on_ain (\<lambda>a. a\<lparr>AI_semaphore := Some False\<rparr>) (on_ain (ain_add (int i) 1) s))"
  define t where "t = give_semaphore (on_ain (\<lambda>a. a\<lparr>AI_doneSemaphore := Some False\<rparr>) (AnalogInIsr_Handler (?s\<lparr>ADC_LCDR := v i, ADC_CDR := (ADC_CDR ?s)[i := v i]\<rparr>)))"
  define a' where "a' = ain_add (int i) 1 a"
  have "AnalogIn_GetValue (int i) s = Some (reading v i, t)"
    using a assms(2) AnalogIn_SetActive_held [of s a "int i"]
    by (simp add: AnalogIn_GetValue_def t_def take_semaphore_def take_done_def adc_convert_def adc_select_def AnalogInIsr_Handler_def
        give_semaphore_def on_ain_def ain_add_def)
  moreover have "AnalogIn t = Some a'"
    using a by (cases a) (simp add: t_def a'_def take_semaphore_def adc_select_def AnalogInIsr_Handler_def give_semaphore_def on_ain_def ain_add_def)
  moreover have "ADC_input t = ADC_input s"
    by (simp add: t_def adc_select_def AnalogInIsr_Handler_def give_semaphore_def on_ain_def)
  moreover have "inputs_state.more t = inputs_state.more s"
    by (simp add: t_def adc_select_def AnalogInIsr_Handler_def give_semaphore_def on_ain_def)
  ultimately show ?thesis using assms(1,2) by (intro exI [of _ t] exI [of _ a']) (auto simp: converts_def a'_def ain_add_def nth_list_update)
qed

text \<open>The message for a value, and the channels whose value is to be reported.\<close>

definition value_report :: "(nat \<Rightarrow> u32) \<Rightarrow> nat \<Rightarrow> osc_call" where
  "value_report v i = Create (''/analogin/'' @ print_nat i @ ''/value'') [Arg_int (word_of_int (reading v i))]"

definition changed :: "(nat \<Rightarrow> u32) \<Rightarrow> AnalogIn_ \<Rightarrow> nat list \<Rightarrow> nat list" where
  "changed v a is = filter (\<lambda>i. bit (AI_autosend a) i \<and> reading v i \<noteq> AI_lastValues a ! i) is"

lemma report_call:
  fixes s :: "'a osc_state_scheme"
  assumes "channel_at c ch ms s" and "i < 8" and "outbox_call (value_report v i) ms = (r, held, sent)"
  shows "\<exists>t ch'. Osc_CreateMessage c (scratch (''/analogin/'' @ print_nat i @ ''/value'')) '',i'' [Arg_int (word_of_int (reading v i))] s =
      Some (r, t) \<and> channel_at c ch' held t \<and> Osc_out t = Osc_out s @ concat (map (emitted ch s \<circ> packet_of) sent) \<and>
    emitted ch' t = emitted ch s \<and> AnalogIn t = AnalogIn s \<and> ADC_input t = ADC_input s"
proof -
  let ?address = "''/analogin/'' @ print_nat i @ ''/value''" and ?args = "[Arg_int (word_of_int (reading v i))]"
  have "length (print_nat i) = 1" using assms(2) by (simp add: print_nat.simps [of i])
  then have short: "scratch ?address = ?address" by (simp add: scratch_def)
  have format: "format_of ?args = '',i''" by (simp add: format_of_def)
  obtain t ch' where t: "osc_do c (value_report v i) s = Some (r, t)" "channel_at c ch' held t"
      "Osc_out t = Osc_out s @ concat (map (emitted ch s \<circ> packet_of) sent)" "emitted ch' t = emitted ch s"
    using osc_do_eq [OF assms(1,3)] by blast
  then have create: "Osc_CreateMessage c ?address '',i'' ?args s = Some (r, t)" by (simp add: value_report_def flip: format)
  have "Osc_CreateMessage c ?address '',i'' ?args s = Some (r, after_call c ch held sent s)"
    using create_message_eq [OF assms(1), of ?address ?args] assms(3) unfolding format value_report_def by simp
  then have "AnalogIn t = AnalogIn s" "ADC_input t = ADC_input s" using create by auto
  then show ?thesis using t create short by auto
qed

lemma async_step:
  fixes s :: "'a osc_state_scheme"
  assumes "converts v a s" and "channel_at c ch ms s" and "i < 8"
  shows "\<exists>t a' ch' rs held sent. analogin_async_loop (i # is) c n s = analogin_async_loop is c (n + int (length (changed v a [i]))) t \<and>
    outbox_run (map (value_report v) (changed v a [i])) ms = (rs, held, sent) \<and> channel_at c ch' held t \<and>
    Osc_out t = Osc_out s @ concat (map (emitted ch s \<circ> packet_of) sent) \<and> emitted ch' t = emitted ch s \<and> converts v a' t \<and>
    AI_autosend a' = AI_autosend a \<and>
    AI_lastValues a' = (if bit (AI_autosend a) i then (AI_lastValues a)[i := reading v i] else AI_lastValues a)"
proof -
  let ?s = "on_ain (ain_add (int i) 1) s" and ?a = "ain_add (int i) 1 a"
  have auto1: "AnalogIn_GetAutoSend (int i) s = Some (bit (AI_autosend a) i, ?s)" by (rule get_autosend [OF assms(1,3)])
  have s1: "converts v ?a ?s" "channel_at c ch ms ?s" "emitted ch ?s = emitted ch s" "Osc_out ?s = Osc_out s"
    using converts_user [OF assms(1,3)] assms(2) report_part [of ?s s] by simp_all
  have fields: "AI_autosend ?a = AI_autosend a" "AI_lastValues ?a = AI_lastValues a" by (simp_all add: ain_add_def)
  show ?thesis
  proof (cases "bit (AI_autosend a) i")
    case False
    then show ?thesis using auto1 s1 fields by (intro exI [of _ ?s] exI [of _ ?a] exI [of _ ch]) (simp add: changed_def)
  next
    case True
    then obtain t a1 where t: "AnalogIn_GetValue (int i) ?s = Some (reading v i, t)" "converts v a1 t" "AI_autosend a1 = AI_autosend a"
        "AI_lastValues a1 = AI_lastValues a" "inputs_state.more t = inputs_state.more ?s"
      using get_value [OF s1(1) assms(3)] fields by auto
    have a1: "AnalogIn t = Some a1" using t(2) by (simp add: converts_def)
    have s2: "channel_at c ch ms t" "emitted ch t = emitted ch s" "Osc_out t = Osc_out s"
      using s1(2-4) report_part [OF t(5)] by simp_all
    show ?thesis
    proof (cases "reading v i = AI_lastValues a ! i")
      case eq: True
      then have "(AI_lastValues a)[i := reading v i] = AI_lastValues a" by (metis list_update_id)
      then show ?thesis using auto1 True t a1 s2 eq by (intro exI [of _ t] exI [of _ a1] exI [of _ ch]) (simp add: changed_def)
    next
      case ne: False
      let ?t = "on_ain (\<lambda>a. a\<lparr>AI_lastValues := (AI_lastValues a)[i := reading v i]\<rparr>) t"
      let ?a2 = "a1\<lparr>AI_lastValues := (AI_lastValues a1)[i := reading v i]\<rparr>"
      have c2: "converts v ?a2 ?t" using t(2) by (simp add: converts_def)
      have s3: "channel_at c ch ms ?t" "emitted ch ?t = emitted ch s" "Osc_out ?t = Osc_out s"
        using s2 report_part [of ?t t] by simp_all
      obtain r h1 st1 where one: "outbox_call (value_report v i) ms = (r, h1, st1)" by (cases "outbox_call (value_report v i) ms")
      obtain u ch1 where u: "Osc_CreateMessage c (scratch (''/analogin/'' @ print_nat i @ ''/value'')) '',i''
          [Arg_int (word_of_int (reading v i))] ?t = Some (r, u)" "channel_at c ch1 h1 u"
          "Osc_out u = Osc_out s @ concat (map (emitted ch s \<circ> packet_of) st1)" "emitted ch1 u = emitted ch s"
          "AnalogIn u = AnalogIn ?t" "ADC_input u = ADC_input ?t"
        using report_call [OF s3(1) assms(3) one] unfolding s3(2,3) by blast
      have "converts v ?a2 u" using c2 u(5,6) by (simp add: converts_def)
      then show ?thesis using auto1 True t(1,3,4) a1 ne u(1-4) one
        by (intro exI [of _ u] exI [of _ ?a2] exI [of _ ch1] exI [of _ "[r]"] exI [of _ h1] exI [of _ st1]) (simp add: changed_def)
    qed
  qed
qed

lemma outbox_run_append:
  "outbox_run (cs @ ds) held =
    (let (rs, h1, s1) = outbox_run cs held; (rs', h2, s2) = outbox_run ds h1 in (rs @ rs', h2, s1 @ s2))"
  by (induction cs arbitrary: held) (auto simp: Let_def split: prod.splits)

lemma async_loop_reports:
  fixes s :: "'a osc_state_scheme"
  assumes "converts v a s" and "channel_at c ch ms s" and "set is \<subseteq> {..<8}" and "distinct is"
  shows "\<exists>t a' ch' rs held sent. analogin_async_loop is c n s = Some (n + int (length (changed v a is)), t) \<and>
    outbox_run (map (value_report v) (changed v a is)) ms = (rs, held, sent) \<and> channel_at c ch' held t \<and>
    Osc_out t = Osc_out s @ concat (map (emitted ch s \<circ> packet_of) sent) \<and> converts v a' t \<and> AI_autosend a' = AI_autosend a \<and>
    (\<forall>i < 8. AI_lastValues a' ! i = (if i \<in> set is \<and> bit (AI_autosend a) i then reading v i else AI_lastValues a ! i))"
  using assms
proof (induction "is" arbitrary: s a ch ms n)
  case Nil
  then show ?case by (auto simp: changed_def)
next
  case (Cons i "is")
  have i: "i < 8" "i \<notin> set is" "set is \<subseteq> {..<8}" "distinct is" using Cons.prems(3,4) by auto
  obtain t a1 ch1 rs1 h1 st1 where t:
      "analogin_async_loop (i # is) c n s = analogin_async_loop is c (n + int (length (changed v a [i]))) t"
      "outbox_run (map (value_report v) (changed v a [i])) ms = (rs1, h1, st1)" "channel_at c ch1 h1 t"
      "Osc_out t = Osc_out s @ concat (map (emitted ch s \<circ> packet_of) st1)" "emitted ch1 t = emitted ch s" "converts v a1 t"
      "AI_autosend a1 = AI_autosend a"
      "AI_lastValues a1 = (if bit (AI_autosend a) i then (AI_lastValues a)[i := reading v i] else AI_lastValues a)"
    using async_step [OF Cons.prems(1,2) i(1), of "is" n] by blast
  have len: "length (AI_lastValues a) = 8" using Cons.prems(1) by (simp add: converts_def)
  have other: "AI_lastValues a1 ! j = AI_lastValues a ! j" if "j \<noteq> i" for j using that t(8) by simp
  have "AI_lastValues a1 ! j = AI_lastValues a ! j" if "j \<in> set is" for j using that i(2) other by metis
  then have rest: "changed v a1 is = changed v a is" using t(7) by (auto simp: changed_def intro!: filter_cong)
  have all: "changed v a (i # is) = changed v a [i] @ changed v a is" by (simp add: changed_def)
  obtain w a' ch' rs held st2 where w: "analogin_async_loop is c (n + int (length (changed v a [i]))) t =
        Some (n + int (length (changed v a [i])) + int (length (changed v a is)), w)"
      "outbox_run (map (value_report v) (changed v a is)) h1 = (rs, held, st2)" "channel_at c ch' held w"
      "Osc_out w = Osc_out t @ concat (map (emitted ch1 t \<circ> packet_of) st2)" "converts v a' w" "AI_autosend a' = AI_autosend a"
      "\<forall>j < 8. AI_lastValues a' ! j = (if j \<in> set is \<and> bit (AI_autosend a) j then reading v j else AI_lastValues a1 ! j)"
    using Cons.IH [OF t(6,3) i(3,4), of "n + int (length (changed v a [i]))"] unfolding rest t(7) by blast
  have "analogin_async_loop (i # is) c n s = Some (n + int (length (changed v a (i # is))), w)" using t(1) w(1) by (simp add: all)
  moreover have "outbox_run (map (value_report v) (changed v a (i # is))) ms = (rs1 @ rs, held, st1 @ st2)"
    using t(2) w(2) by (simp add: all outbox_run_append)
  moreover have "Osc_out w = Osc_out s @ concat (map (emitted ch s \<circ> packet_of) (st1 @ st2))" using w(4) t(4,5) by simp
  moreover have "\<forall>j < 8. AI_lastValues a' ! j =
      (if j \<in> set (i # is) \<and> bit (AI_autosend a) j then reading v j else AI_lastValues a ! j)"
    using w(7) len other t(8) i(1) by (auto simp: nth_list_update)
  ultimately show ?case using w(3,5,6) by blast
qed

text \<open>
  C23: A pass of the asynchronous reports puts exactly one message into the channel for each channel that reports and whose reading differs from the value it reported
  last, in the order of the channels; it returns their number and remembers the readings, so a second pass with the same readings reports nothing.
\<close>
theorem analogin_async_reports_changes:
  fixes s :: "'a osc_state_scheme"
  assumes "converts v a s" and "channel_at c ch ms s"
  shows "\<exists>t u ch' rs held sent. AnalogInOsc_Async c s = Some (int (length (changed v a [0..<8])), t) \<and>
    outbox_run (map (value_report v) (changed v a [0..<8])) ms = (rs, held, sent) \<and> channel_at c ch' held t \<and>
    Osc_out t = Osc_out s @ concat (map (emitted ch s \<circ> packet_of) sent) \<and>
    AnalogInOsc_Async c t = Some (0, u) \<and> Osc_out u = Osc_out t \<and> (\<exists>ch''. channel_at c ch'' held u)"
proof -
  have all: "set [0..<8] \<subseteq> {..<8 :: nat}" "distinct [0..<8 :: nat]" by auto
  obtain t a' ch' rs held sent where t: "AnalogInOsc_Async c s = Some (int (length (changed v a [0..<8])), t)"
      "outbox_run (map (value_report v) (changed v a [0..<8])) ms = (rs, held, sent)" "channel_at c ch' held t"
      "Osc_out t = Osc_out s @ concat (map (emitted ch s \<circ> packet_of) sent)" "converts v a' t" "AI_autosend a' = AI_autosend a"
      "\<forall>i < 8. AI_lastValues a' ! i = (if i \<in> set [0..<8] \<and> bit (AI_autosend a) i then reading v i else AI_lastValues a ! i)"
    using async_loop_reports [OF assms all, of 0] by (auto simp: AnalogInOsc_Async_def)
  have "changed v a' [0..<8] = []" using t(6,7) by (auto simp: changed_def filter_empty_conv)
  then obtain u ch'' where "AnalogInOsc_Async c t = Some (0, u)" "Osc_out u = Osc_out t" "channel_at c ch'' held u"
    using async_loop_reports [OF t(5,3) all, of 0] by (auto simp: AnalogInOsc_Async_def)
  then show ?thesis using t(1-4) by blast
qed

lemma analogin_async_reports_changes_witness:
  "\<exists>(s :: osc_state) t u. AnalogInOsc_Async OSC_CHANNEL_USB s = Some (1, t) \<and> AnalogInOsc_Async OSC_CHANNEL_USB t = Some (0, u)"
proof -
  obtain s :: osc_state and ch where s: "channel_at OSC_CHANNEL_USB ch [] s"
    using usb_channel_ready [of osc_boot True True True] osc_boot_fields by auto
  let ?a = "ain_used\<lparr>AI_channelUsers := replicate 8 1, AI_autosend := 4\<rparr>"
  let ?s = "s\<lparr>AnalogIn := Some ?a, ADC_input := (\<lambda>_. Some 700)\<rparr>"
  have c: "converts (\<lambda>_. 700) ?a ?s" by (simp add: converts_def ain_used_def)
  have "channel_at OSC_CHANNEL_USB ch [] ?s" using s report_part(1) [of ?s s] by simp
  moreover have "changed (\<lambda>_. 700) ?a [0..<8] = [2]" by (simp add: changed_def ain_used_def upt_rec)
  ultimately show ?thesis using analogin_async_reports_changes [OF c] by fastforce
qed

end
