(* ===== verification/Spi.thy ===== *)
theory Spi
  imports OscReceive
begin

text \<open>
  The SPI bus (\<^verbatim>\<open>src/firmware/core/makingthings/spi.c\<close>) and its two devices: the EEPROM (\<^verbatim>\<open>eeprom.c\<close>, on select line 3) and the DIP switch of the application
  board (\<^verbatim>\<open>src/firmware/libraries/dipswitch/dipswitch.c\<close>, on select line 2). What is wired to a select line is an automaton that answers each byte, which is
  told whether the byte is the last of its frame.
\<close>

abbreviation (input) CONTROLLER_ERROR_BAD_ADDRESS :: status where "CONTROLLER_ERROR_BAD_ADDRESS \<equiv> - 15"

subsection \<open>State\<close>

codatatype spi_slave = Slave (xfer: "u8 \<Rightarrow> bool \<Rightarrow> u8 \<times> spi_slave")

record DipSwitchSubsystem =
  dip_users :: int
  dip_lastValue :: int
  dip_autosend :: int

record spi_state = osc_state +
  Spi_users :: int
  Spi_channels :: int
  Spi_semaphore :: "bool option"
  SPI_CSR :: "u32 list"
  SPI_MR :: u32
  SPI_enabled :: bool
  SPI_slaves :: "spi_slave list"
  Eeprom_users :: int
  DipSwitch :: "DipSwitchSubsystem option"
  DipSwitch_fresh :: DipSwitchSubsystem
  autosend_stack :: "u8 list"
  spi_stack :: "nat \<Rightarrow> u8"

subsection \<open>Starting and stopping channels\<close>

definition Spi_GetChannelIo :: "int \<Rightarrow> int" where
  "Spi_GetChannelIo channel =
     (if channel = 0 then 12 else if channel = 1 then 13 else if channel = 2 then 8 else if channel = 3 then 9 else 0)"

definition Spi_GetChannelPeripheralA :: "int \<Rightarrow> int" where
  "Spi_GetChannelPeripheralA channel =
     (if channel = 0 \<or> channel = 1 then 1 else if channel = 2 \<or> channel = 3 then 0 else - 1)"

definition spi_bits :: u64 where
  "spi_bits = push_bit 16 7"

definition Spi_Init :: "'a spi_state_scheme \<Rightarrow> status \<times> 'a spi_state_scheme" where
  "Spi_Init s =
     (let (status, s) = Io_StartBits spi_bits True s
      in if status \<noteq> CONTROLLER_OK then (status, s)
         else
           let miso = mask1 16 :: u32; bus = mask1 16 OR mask1 17 OR mask1 18 :: u32;
               s = s\<lparr>PMC_PCSR := PMC_PCSR s OR mask1 4,
                     SPI_MR := mask1 0 OR mask1 1 OR push_bit 16 0xF OR mask1 4,
                     PIOA := pio_ASR bus (pio_ODR miso (pio_PPUDR miso (pio_PDR bus (PIOA s)))),
                     SPI_enabled := True,
                     Spi_semaphore := (if Spi_semaphore s = None then Some True else Spi_semaphore s)\<rparr>
           in (CONTROLLER_OK, s))"

definition Spi_Deinit :: "'a spi_state_scheme \<Rightarrow> 'a spi_state_scheme" where
  "Spi_Deinit s = snd (Io_StopBits spi_bits (s\<lparr>SPI_enabled := False\<rparr>))"

text \<open>A user is counted for the first channel only.\<close>

definition Spi_Start :: "int \<Rightarrow> (status, 'a spi_state_scheme) op" where
  "Spi_Start channel s =
     (if channel < 0 \<or> channel > 3 then Some (CONTROLLER_ERROR_ILLEGAL_INDEX, s)
      else if bit (Spi_channels s) (nat channel) then Some (CONTROLLER_ERROR_CANT_LOCK, s)
      else
        let io = Spi_GetChannelIo channel
        in do {
          (status, s) \<leftarrow> Io_Start io True s;
          if status \<noteq> CONTROLLER_OK then Some (status, s)
          else do {
            let s = snd (Io_SetPio io False s);
            let s = snd (if Spi_GetChannelPeripheralA channel \<noteq> 0 then Io_SetPeripheralA io s else Io_SetPeripheralB io s);
            (status, s) \<leftarrow>
              (if Spi_users s = 0 then
                 (let (status, s) = Spi_Init s
                  in if status \<noteq> CONTROLLER_OK then map_option (\<lambda>(_, s). (status, s)) (Io_Stop io s)
                     else Some (CONTROLLER_OK, s\<lparr>Spi_users := Spi_users s + 1\<rparr>))
               else Some (CONTROLLER_OK, s));
            if status \<noteq> CONTROLLER_OK then Some (status, s)
            else Some (CONTROLLER_OK, s\<lparr>Spi_channels := Spi_channels s OR push_bit (nat channel) 1\<rparr>)
          }
        })"

definition Spi_Stop :: "int \<Rightarrow> (status, 'a spi_state_scheme) op" where
  "Spi_Stop channel s =
     (if channel < 0 \<or> channel > 3 then Some (CONTROLLER_ERROR_ILLEGAL_INDEX, s)
      else if Spi_users s \<le> 0 then Some (CONTROLLER_ERROR_TOO_MANY_STOPS, s)
      else if \<not> bit (Spi_channels s) (nat channel) then Some (CONTROLLER_ERROR_NOT_LOCKED, s)
      else do {
        (_, s) \<leftarrow> Io_Stop (Spi_GetChannelIo channel) s;
        let s = s\<lparr>Spi_channels := Spi_channels s AND NOT (push_bit (nat channel) 1), Spi_users := Spi_users s - 1\<rparr>;
        Some (CONTROLLER_OK, if Spi_users s = 0 then Spi_Deinit s else s)
      })"

definition Spi_Configure :: "int \<Rightarrow> int \<Rightarrow> int \<Rightarrow> int \<Rightarrow> int \<Rightarrow> (status, 'a spi_state_scheme) op" where
  "Spi_Configure channel bits clockDivider delayBeforeSPCK delayBetweenTransfers s =
     (if channel < 0 \<or> channel > 31 then None
      else if \<not> bit (Spi_channels s) (nat channel) then Some (CONTROLLER_ERROR_NOT_LOCKED, s)
      else if bits < 8 \<or> bits > 16 \<or> clockDivider < 0 \<or> clockDivider > 255 \<or> delayBeforeSPCK < 0 \<or> delayBeforeSPCK > 255 \<or>
        delayBetweenTransfers < 0 \<or> delayBetweenTransfers > 255 then Some (CONTROLLER_ERROR_ILLEGAL_PARAMETER_VALUE, s)
      else
        let csr = mask1 1 OR push_bit 4 (word_of_int (bits - 8)) OR push_bit 8 (word_of_int clockDivider) OR
              push_bit 16 (word_of_int delayBeforeSPCK) OR push_bit 24 (word_of_int delayBetweenTransfers)
        in Some (CONTROLLER_OK, s\<lparr>SPI_CSR := (SPI_CSR s)[nat channel := csr]\<rparr>))"

subsection \<open>Transfers\<close>

definition Spi_Lock :: "(bool, 'a spi_state_scheme) op" where
  "Spi_Lock s = map_option (\<lambda>free. (free, s\<lparr>Spi_semaphore := Some False\<rparr>)) (Spi_semaphore s)"

definition Spi_Unlock :: "'a spi_state_scheme \<Rightarrow> 'a spi_state_scheme option" where
  "Spi_Unlock s = map_option (\<lambda>_. s\<lparr>Spi_semaphore := Some True\<rparr>) (Spi_semaphore s)"

primrec spi_exchange :: "u8 list \<Rightarrow> spi_slave \<Rightarrow> u8 list \<times> spi_slave" where
  "spi_exchange [] d = ([], d)"
| "spi_exchange (c # cs) d =
     (let (r, d) = xfer d c (cs = []); (rs, d) = spi_exchange cs d in (r # rs, d))"

text \<open>
  The unit is at rest before, since the last byte of every block has been awaited. The select line stays active from the first byte to the last; a unit that is
  not enabled never answers.
\<close>

definition Spi_ReadWriteBlock :: "int \<Rightarrow> u8 list \<Rightarrow> (u8 list, 'a spi_state_scheme) op" where
  "Spi_ReadWriteBlock channel buffer s =
     (if channel < 0 \<or> channel > 3 then None
      else if buffer \<noteq> [] \<and> \<not> SPI_enabled s then None
      else
        let n = nat channel;
            s = s\<lparr>SPI_CSR := (SPI_CSR s)[n := SPI_CSR s ! n OR mask1 3]\<rparr>;
            (answer, d) = spi_exchange buffer (SPI_slaves s ! n);
            s = s\<lparr>SPI_slaves := (SPI_slaves s)[n := d]\<rparr>;
            s = s\<lparr>SPI_CSR := (SPI_CSR s)[n := SPI_CSR s ! n AND NOT (mask1 3)]\<rparr>
        in Some (answer, s))"

subsection \<open>EEPROM\<close>

abbreviation (input) EEPROM_DEVICE :: int where "EEPROM_DEVICE \<equiv> 3"
abbreviation (input) EEPROM_SIZE :: int where "EEPROM_SIZE \<equiv> 32 * 1024"

definition Eeprom_Stop :: "(status, 'a spi_state_scheme) op" where
  "Eeprom_Stop s =
     (if Eeprom_users s \<le> 0 then Some (CONTROLLER_ERROR_NOT_LOCKED, s)
      else
        let s = s\<lparr>Eeprom_users := Eeprom_users s - 1\<rparr>
        in if Eeprom_users s = 0 then map_option (\<lambda>(_, s). (CONTROLLER_OK, s)) (Spi_Stop EEPROM_DEVICE s) else Some (CONTROLLER_OK, s))"

definition Eeprom_Start :: "(status, 'a spi_state_scheme) op" where
  "Eeprom_Start s =
     (let first = Eeprom_users s = 0; s = s\<lparr>Eeprom_users := Eeprom_users s + 1\<rparr>
      in if first then
           do {
             (status, s) \<leftarrow> Spi_Start EEPROM_DEVICE s;
             if status \<noteq> CONTROLLER_OK then Some (status, s\<lparr>Eeprom_users := Eeprom_users s - 1\<rparr>)
             else do {
               (status, s) \<leftarrow> Spi_Configure EEPROM_DEVICE 8 4 0 1 s;
               if status \<noteq> CONTROLLER_OK then map_option (\<lambda>(_, s). (status, s)) (Eeprom_Stop s)
               else Some (CONTROLLER_OK, s)
             }
           }
         else Some (CONTROLLER_OK, s))"

definition Eeprom_SetActive :: "int \<Rightarrow> (status, 'a spi_state_scheme) op" where
  "Eeprom_SetActive state = (if state \<noteq> 0 then Eeprom_Start else Eeprom_Stop)"

definition Eeprom_GetActive :: "'a spi_state_scheme \<Rightarrow> bool" where
  "Eeprom_GetActive s \<longleftrightarrow> Eeprom_users s > 0"

definition Eeprom_WriteEnable :: "'a spi_state_scheme \<Rightarrow> 'a spi_state_scheme option" where
  "Eeprom_WriteEnable s = done_with (Spi_ReadWriteBlock EEPROM_DEVICE [0x06] s)"

partial_function (option) Eeprom_Ready :: "'a spi_state_scheme \<Rightarrow> 'a spi_state_scheme option" where
  "Eeprom_Ready s =
     do {
       (c, s) \<leftarrow> Spi_ReadWriteBlock EEPROM_DEVICE [0x05, 0] s;
       if c ! 1 \<noteq> 0xFF then Some s else Eeprom_Ready s
     }"

definition eeprom_started :: "(status, 'a spi_state_scheme) op" where
  "eeprom_started s = (if Eeprom_users s = 0 then Eeprom_Start s else Some (CONTROLLER_OK, s))"

definition Eeprom_Write :: "int \<Rightarrow> u8 list \<Rightarrow> (status, 'a spi_state_scheme) op" where
  "Eeprom_Write address buffer s =
     (if address < 0 \<or> address \<ge> EEPROM_SIZE then Some (CONTROLLER_ERROR_BAD_ADDRESS, s)
      else do {
        (status, s) \<leftarrow> eeprom_started s;
        if status \<noteq> CONTROLLER_OK then Some (status, s)
        else do {
          (_, s) \<leftarrow> Spi_Lock s;
          s \<leftarrow> Eeprom_Ready s;
          s \<leftarrow> Eeprom_WriteEnable s;
          (_, s) \<leftarrow> Spi_ReadWriteBlock EEPROM_DEVICE
            ([0x02, word_of_int (drop_bit 8 address), word_of_int (address AND 0xFF)] @ buffer) s;
          s \<leftarrow> Spi_Unlock s;
          Some (CONTROLLER_OK, s)
        }
      })"

text \<open>
  Reading fills the rest of the frame with a zero and bytes that were never written (\<open>spi_stack\<close>), which the chip does not look at. The buffer keeps what it
  contained when there is an error.
\<close>

definition Eeprom_Read :: "int \<Rightarrow> u8 list \<Rightarrow> (status \<times> u8 list, 'a spi_state_scheme) op" where
  "Eeprom_Read address buffer s =
     (if address < 0 \<or> address > EEPROM_SIZE then Some ((CONTROLLER_ERROR_BAD_ADDRESS, buffer), s)
      else do {
        (status, s) \<leftarrow> eeprom_started s;
        if status \<noteq> CONTROLLER_OK then Some ((status, buffer), s)
        else do {
          (_, s) \<leftarrow> Spi_Lock s;
          s \<leftarrow> Eeprom_Ready s;
          (c, s) \<leftarrow> Spi_ReadWriteBlock EEPROM_DEVICE
            ([0x03, word_of_int (drop_bit 8 address), word_of_int (address AND 0xFF)] @ map (\<lambda>i. if i = 0 then 0 else spi_stack s i) [0..<length buffer]) s;
          s \<leftarrow> Spi_Unlock s;
          Some ((CONTROLLER_OK, drop 3 c), s)
        }
      })"

subsection \<open>DIP switch\<close>

text \<open>An \<^verbatim>\<open>int\<close> in memory.\<close>

definition int_bytes :: "int \<Rightarrow> u8 list" where
  "int_bytes v = map (\<lambda>k. word_of_int (drop_bit (8 * k) v)) [0..<4]"

definition bytes_int :: "u8 list \<Rightarrow> int" where
  "bytes_int bs = sint (foldr (\<lambda>b w. push_bit 8 w OR ucast b) bs (0 :: u32))"

abbreviation (input) DIPSWITCH_DEVICE :: int where "DIPSWITCH_DEVICE \<equiv> 2"
abbreviation (input) EEPROM_DIPSWITCH_AUTOSEND :: int where "EEPROM_DIPSWITCH_AUTOSEND \<equiv> 31 * 1024 + 212"

definition on_dip :: "(DipSwitchSubsystem \<Rightarrow> DipSwitchSubsystem) \<Rightarrow> 'a spi_state_scheme \<Rightarrow> 'a spi_state_scheme" where
  "on_dip f s = s\<lparr>DipSwitch := map_option f (DipSwitch s)\<rparr>"

definition DipSwitch_Stop :: "(status, 'a spi_state_scheme) op" where
  "DipSwitch_Stop s =
     do {
       d \<leftarrow> DipSwitch s;
       if dip_users d \<le> 0 then Some (CONTROLLER_ERROR_TOO_MANY_STOPS, s)
       else
         let s = on_dip (\<lambda>d. d\<lparr>dip_users := dip_users d - 1\<rparr>) s
         in if dip_users d = 1 then map_option (\<lambda>(_, s). (CONTROLLER_OK, s)) (Spi_Stop DIPSWITCH_DEVICE s) else Some (CONTROLLER_OK, s)
     }"

definition DipSwitch_Start :: "(status, 'a spi_state_scheme) op" where
  "DipSwitch_Start s =
     do {
       d \<leftarrow> DipSwitch s;
       let s = on_dip (\<lambda>d. d\<lparr>dip_users := dip_users d + 1\<rparr>) s;
       if dip_users d = 0 then
         do {
           (status, s) \<leftarrow> Spi_Start DIPSWITCH_DEVICE s;
           if status \<noteq> CONTROLLER_OK then Some (status, on_dip (\<lambda>d. d\<lparr>dip_users := dip_users d - 1\<rparr>) s)
           else do {
             (status, s) \<leftarrow> Spi_Configure DIPSWITCH_DEVICE 8 4 0 1 s;
             if status \<noteq> CONTROLLER_OK then map_option (\<lambda>(_, s). (status, s)) (DipSwitch_Stop s)
             else Some (CONTROLLER_OK, s)
           }
         }
       else Some (CONTROLLER_OK, s)
     }"

text \<open>
  Reading the setting, once the subsystem exists. Whether the EEPROM could be read is not looked at: then the local variable keeps what was on the stack.
\<close>

definition dip_read_autosend :: "'a spi_state_scheme \<Rightarrow> 'a spi_state_scheme option" where
  "dip_read_autosend s =
     do {
       ((_, bs), s) \<leftarrow> Eeprom_Read EEPROM_DIPSWITCH_AUTOSEND (autosend_stack s) s;
       Some (on_dip (\<lambda>d. d\<lparr>dip_autosend := of_bool (bytes_int bs = 1)\<rparr>) s)
     }"

text \<open>Deactivating frees the subsystem and then reads the user count through the freed pointer, or through the null pointer.\<close>

definition DipSwitch_SetActive :: "int \<Rightarrow> (status, 'a spi_state_scheme) op" where
  "DipSwitch_SetActive state s =
     (if state \<noteq> 0 then
        (case DipSwitch s of
           Some _ \<Rightarrow> Some (CONTROLLER_OK, s)
         | None \<Rightarrow> dip_read_autosend (s\<lparr>DipSwitch := Some ((DipSwitch_fresh s)\<lparr>dip_users := 0, dip_lastValue := 0\<rparr>)\<rparr>) \<bind> DipSwitch_Start)
      else None)"

definition DipSwitch_GetActive :: "'a spi_state_scheme \<Rightarrow> bool option" where
  "DipSwitch_GetActive s = map_option (\<lambda>d. dip_users d > 0) (DipSwitch s)"

definition DipSwitch_GetValue :: "(int, 'a spi_state_scheme) op" where
  "DipSwitch_GetValue s =
     do {
       (_, s) \<leftarrow> DipSwitch_SetActive 1 s;
       d \<leftarrow> DipSwitch s;
       (status, s) \<leftarrow> (if dip_users d = 0 then DipSwitch_Start s else Some (CONTROLLER_OK, s));
       if status \<noteq> CONTROLLER_OK then Some (status, s)
       else do {
         (_, s) \<leftarrow> Spi_Lock s;
         (c, s) \<leftarrow> Spi_ReadWriteBlock DIPSWITCH_DEVICE [0xFE, 0xFF] s;
         s \<leftarrow> Spi_Unlock s;
         Some (push_bit 8 (uint (c ! 1) AND 1) OR push_bit 7 (uint (c ! 0) AND 1) OR drop_bit 1 (uint (c ! 1)), s)
       }
     }"

definition DipSwitch_GetValueChannel :: "int \<Rightarrow> (u8, 'a spi_state_scheme) op" where
  "DipSwitch_GetValueChannel channel s =
     (if channel < 0 \<or> channel > 7 then Some (illegal_as_bool, s)
      else do {
        (val, s) \<leftarrow> DipSwitch_GetValue s;
        Some (if val < 0 then 0 else word_of_int (drop_bit (nat channel) val AND 1), s)
      })"

definition DipSwitch_GetAutoSend :: "bool \<Rightarrow> (bool, 'a spi_state_scheme) op" where
  "DipSwitch_GetAutoSend init s =
     do {
       (_, s) \<leftarrow> DipSwitch_SetActive 1 s;
       s \<leftarrow> (if init then dip_read_autosend s else Some s);
       d \<leftarrow> DipSwitch s;
       Some (dip_autosend d \<noteq> 0, s)
     }"

definition DipSwitch_SetAutoSend :: "int \<Rightarrow> 'a spi_state_scheme \<Rightarrow> 'a spi_state_scheme option" where
  "DipSwitch_SetAutoSend onoff s =
     do {
       (_, s) \<leftarrow> DipSwitch_SetActive 1 s;
       d \<leftarrow> DipSwitch s;
       if dip_autosend d \<noteq> onoff
       then done_with (Eeprom_Write EEPROM_DIPSWITCH_AUTOSEND (int_bytes onoff) (on_dip (\<lambda>d. d\<lparr>dip_autosend := onoff\<rparr>) s))
       else Some s
     }"

definition DipSwitchOsc_PropertySet :: "int \<Rightarrow> int \<Rightarrow> (status, 'a spi_state_scheme) op" where
  "DipSwitchOsc_PropertySet property v s =
     map_option (\<lambda>s. (CONTROLLER_OK, s))
       (if property = 0 then done_with (DipSwitch_SetActive v s)
        else if property = 2 then DipSwitch_SetAutoSend v s
        else Some s)"

definition DipSwitchOsc_PropertyGet :: "int \<Rightarrow> (int, 'a spi_state_scheme) op" where
  "DipSwitchOsc_PropertyGet property s =
     (if property = 0 then map_option (\<lambda>b. (of_bool b, s)) (DipSwitch_GetActive s)
      else if property = 1 then DipSwitch_GetValue s
      else if property = 2 then map_option (\<lambda>(b, s). (of_bool b, s)) (DipSwitch_GetAutoSend False s)
      else Some (0, s))"

definition DipSwitchOsc_ReceiveMessage :: "int \<Rightarrow> int \<Rightarrow> int \<Rightarrow> (status, 'a spi_state_scheme) op" where
  "DipSwitchOsc_ReceiveMessage channel p len s =
     do {
       (status, s) \<leftarrow> Osc_IntReceiverHelper channel p len ''dipswitch'' DipSwitchOsc_PropertySet DipSwitchOsc_PropertyGet
         [''active'', ''value'', ''autosend''] s;
       if status \<noteq> CONTROLLER_OK then Osc_SendError channel ''dipswitch'' status s else Some (CONTROLLER_OK, s)
     }"

definition DipSwitchOsc_Async :: "int \<Rightarrow> (int, 'a spi_state_scheme) op" where
  "DipSwitchOsc_Async channel s =
     do {
       (autosend, s) \<leftarrow> DipSwitch_GetAutoSend False s;
       if \<not> autosend then Some (0, s)
       else do {
         (v, s) \<leftarrow> DipSwitch_GetValue s;
         d \<leftarrow> DipSwitch s;
         if v \<noteq> dip_lastValue d then
           do {
             (_, s) \<leftarrow> Osc_CreateMessage channel ''/dipswitch/value'' '',i'' [Arg_int (word_of_int v)] (on_dip (\<lambda>d. d\<lparr>dip_lastValue := v\<rparr>) s);
             Some (1, s)
           }
         else Some (0, s)
       }
     }"

end
