(* ===== verification/SpiDevices.thy ===== *)
theory SpiDevices
  imports Spi OscDevices
begin

text \<open>
  What is kept on the SPI bus: the EEPROM keeps the bytes that are written to it, provided the chip does what its documentation says, and the
  user count of the bus does not survive a second device.
\<close>

subsection \<open>The chip\<close>

text \<open>
  A serial EEPROM of 32 KB with pages of 64 bytes: a status frame is answered with \<open>0xFF\<close> as long as the chip is busy, a frame that enables writing by
  anything, a read frame with the bytes behind its address, and a write frame, once writing was enabled, changes the bytes behind its
  address, if they are in one page. After writing, the chip is busy for some polls and writing is disabled again.
\<close>

definition eeprom_address :: "u8 \<Rightarrow> u8 \<Rightarrow> nat" where
  "eeprom_address hi lo = 256 * unat hi + unat lo"

definition written :: "nat \<Rightarrow> u8 list \<Rightarrow> (nat \<Rightarrow> u8) \<Rightarrow> nat \<Rightarrow> u8" where
  "written a cs mem x = (if a \<le> x \<and> x < a + length cs then cs ! (x - a) else mem x)"

definition one_page :: "nat \<Rightarrow> u8 list \<Rightarrow> bool" where
  "one_page a cs \<longleftrightarrow> cs \<noteq> [] \<and> a mod 64 + length cs \<le> 64 \<and> a + length cs \<le> 32768"

definition read_from :: "nat \<Rightarrow> nat \<Rightarrow> (nat \<Rightarrow> u8) \<Rightarrow> u8 list" where
  "read_from a n mem = map (\<lambda>i. mem ((a + i) mod 32768)) [0..<n]"

datatype write_latch = Writable | Protected

coinductive eeprom_chip :: "(nat \<Rightarrow> u8) \<Rightarrow> write_latch \<Rightarrow> nat \<Rightarrow> spi_slave \<Rightarrow> bool" where
  "(\<And>c. \<exists>r status d'. spi_exchange [0x05, c] d = ([r, status], d') \<and> (status = 0xFF \<longleftrightarrow> busy > 0) \<and> eeprom_chip mem enabled (busy - 1) d') \<Longrightarrow>
   (busy = 0 \<Longrightarrow> \<exists>r d'. spi_exchange [0x06] d = ([r], d') \<and> eeprom_chip mem Writable 0 d') \<Longrightarrow>
   (\<And>hi lo cs. busy = 0 \<Longrightarrow> cs \<noteq> [] \<Longrightarrow> \<exists>a b c d'. spi_exchange ([0x03, hi, lo] @ cs) d =
      ([a, b, c] @ read_from (eeprom_address hi lo) (length cs) mem, d') \<and> eeprom_chip mem enabled 0 d') \<Longrightarrow>
   (\<And>hi lo cs. busy = 0 \<Longrightarrow> enabled = Writable \<Longrightarrow> one_page (eeprom_address hi lo) cs \<Longrightarrow> \<exists>rs d' n. spi_exchange ([0x02, hi, lo] @ cs) d = (rs, d') \<and>
      eeprom_chip (written (eeprom_address hi lo) cs mem) Protected n d') \<Longrightarrow>
   eeprom_chip mem enabled busy d"

lemma chip_status: "eeprom_chip mem enabled busy d \<Longrightarrow>
    \<exists>r status d'. spi_exchange [0x05, c] d = ([r, status], d') \<and> (status = 0xFF \<longleftrightarrow> busy > 0) \<and> eeprom_chip mem enabled (busy - 1) d'"
  by (erule eeprom_chip.cases) blast

lemma chip_enable: "eeprom_chip mem enabled 0 d \<Longrightarrow> \<exists>r d'. spi_exchange [0x06] d = ([r], d') \<and> eeprom_chip mem Writable 0 d'"
  by (erule eeprom_chip.cases) blast

lemma chip_read: "eeprom_chip mem enabled 0 d \<Longrightarrow> cs \<noteq> [] \<Longrightarrow> \<exists>a b c d'. spi_exchange ([0x03, hi, lo] @ cs) d =
    ([a, b, c] @ read_from (eeprom_address hi lo) (length cs) mem, d') \<and> eeprom_chip mem enabled 0 d'"
  by (erule eeprom_chip.cases) blast

lemma chip_write: "eeprom_chip mem Writable 0 d \<Longrightarrow> one_page (eeprom_address hi lo) cs \<Longrightarrow>
    \<exists>rs d' n. spi_exchange ([0x02, hi, lo] @ cs) d = (rs, d') \<and> eeprom_chip (written (eeprom_address hi lo) cs mem) Protected n d'"
  by (erule eeprom_chip.cases) blast

subsection \<open>The driver on the chip\<close>

definition eeprom_at :: "(nat \<Rightarrow> u8) \<Rightarrow> write_latch \<Rightarrow> nat \<Rightarrow> 'a spi_state_scheme \<Rightarrow> bool" where
  "eeprom_at mem enabled busy s \<longleftrightarrow> Eeprom_users s > 0 \<and> SPI_enabled s \<and> Spi_semaphore s \<noteq> None \<and> length (SPI_slaves s) = 4 \<and>
     eeprom_chip mem enabled busy (SPI_slaves s ! 3)"

lemma eeprom_block:
  assumes "eeprom_at mem enabled busy s" and "spi_exchange buffer (SPI_slaves s ! 3) = (answer, d)" and "eeprom_chip mem' enabled' busy' d"
  shows "\<exists>t. Spi_ReadWriteBlock 3 buffer s = Some (answer, t) \<and> eeprom_at mem' enabled' busy' t"
  using assms by (simp add: eeprom_at_def Spi_ReadWriteBlock_def)

lemma eeprom_ready:
  assumes "eeprom_at mem enabled busy s"
  shows "\<exists>t. Eeprom_Ready s = Some t \<and> eeprom_at mem enabled 0 t"
  using assms
proof (induction busy arbitrary: s)
  case 0
  obtain r status d where d: "spi_exchange [0x05, 0] (SPI_slaves s ! 3) = ([r, status], d)" "status \<noteq> 0xFF" "eeprom_chip mem enabled 0 d"
    using chip_status [of mem enabled 0 "SPI_slaves s ! 3" 0] 0 by (auto simp: eeprom_at_def)
  then obtain t where "Spi_ReadWriteBlock 3 [0x05, 0] s = Some ([r, status], t)" "eeprom_at mem enabled 0 t"
    using eeprom_block [OF 0 d(1,3)] by blast
  then show ?case using d(2) by (subst Eeprom_Ready.simps) simp
next
  case (Suc busy)
  obtain r d where d: "spi_exchange [0x05, 0] (SPI_slaves s ! 3) = ([r, 0xFF], d)" "eeprom_chip mem enabled busy d"
    using chip_status [of mem enabled "Suc busy" "SPI_slaves s ! 3" 0] Suc.prems by (auto simp: eeprom_at_def)
  then obtain t where "Spi_ReadWriteBlock 3 [0x05, 0] s = Some ([r, 0xFF], t)" "eeprom_at mem enabled busy t"
    using eeprom_block [OF Suc.prems d(1,2)] by blast
  then show ?case using Suc.IH [of t] by (subst Eeprom_Ready.simps) simp
qed

lemma eeprom_lock:
  assumes "eeprom_at mem enabled busy s"
  shows "\<exists>free t. Spi_Lock s = Some (free, t) \<and> eeprom_at mem enabled busy t" "\<exists>t. Spi_Unlock s = Some t \<and> eeprom_at mem enabled busy t"
    "eeprom_started s = Some (CONTROLLER_OK, s)"
  using assms by (auto simp: eeprom_at_def Spi_Lock_def Spi_Unlock_def eeprom_started_def)

lemma address_bytes:
  assumes "0 \<le> a" and "a < 32768"
  shows "eeprom_address (word_of_int (drop_bit 8 a)) (word_of_int (a AND 0xFF)) = nat a"
proof -
  have hi: "drop_bit 8 a = a div 256" "a AND 0xFF = a mod 256"
    using take_bit_eq_mask [of 8 a] by (simp_all add: drop_bit_eq_div mask_eq_exp_minus_1 take_bit_eq_mod)
  have "uint (word_of_int (a div 256) :: u8) = a div 256" "uint (word_of_int (a mod 256) :: u8) = a mod 256"
    using assms by (simp_all add: unsigned_of_int take_bit_int_eq_self)
  then have "unat (word_of_int (a div 256) :: u8) = nat (a div 256)" "unat (word_of_int (a mod 256) :: u8) = nat (a mod 256)"
    by (simp_all flip: nat_uint_eq)
  moreover have "256 * nat (a div 256) + nat (a mod 256) = nat a" using assms(1) by (simp add: nat_div_distrib nat_mod_distrib)
  ultimately show ?thesis unfolding hi eeprom_address_def by simp
qed

lemma eeprom_write:
  assumes "eeprom_at mem enabled busy s" and "0 \<le> a" and "one_page (nat a) buffer"
  shows "\<exists>t n. Eeprom_Write a buffer s = Some (CONTROLLER_OK, t) \<and> eeprom_at (written (nat a) buffer mem) Protected n t"
proof -
  have "0 < length buffer" and small: "nat a + length buffer \<le> 32768" using assms(3) by (simp_all add: one_page_def)
  then have a: "a < 32768" using assms(2) by linarith
  let ?hi = "word_of_int (drop_bit 8 a) :: u8" and ?lo = "word_of_int (a AND 0xFF) :: u8"
  obtain free s1 where s1: "Spi_Lock s = Some (free, s1)" "eeprom_at mem enabled busy s1" using eeprom_lock(1) [OF assms(1)] by blast
  obtain s2 where s2: "Eeprom_Ready s1 = Some s2" "eeprom_at mem enabled 0 s2" using eeprom_ready [OF s1(2)] by blast
  then obtain r d where d: "spi_exchange [0x06] (SPI_slaves s2 ! 3) = ([r], d)" "eeprom_chip mem Writable 0 d"
    using chip_enable [of mem enabled "SPI_slaves s2 ! 3"] by (auto simp: eeprom_at_def)
  obtain s3 where s3: "Eeprom_WriteEnable s2 = Some s3" "eeprom_at mem Writable 0 s3"
    using eeprom_block [OF s2(2) d] by (auto simp: Eeprom_WriteEnable_def done_with_def)
  then obtain rs d' n where d': "spi_exchange ([0x02, ?hi, ?lo] @ buffer) (SPI_slaves s3 ! 3) = (rs, d')"
      "eeprom_chip (written (nat a) buffer mem) Protected n d'"
    using chip_write [of mem "SPI_slaves s3 ! 3" ?hi ?lo buffer] assms(3) unfolding address_bytes [OF assms(2) a] by (auto simp: eeprom_at_def)
  obtain s4 where s4: "Spi_ReadWriteBlock 3 ([0x02, ?hi, ?lo] @ buffer) s3 = Some (rs, s4)" "eeprom_at (written (nat a) buffer mem) Protected n s4"
    using eeprom_block [OF s3(2) d'] by blast
  obtain t where t: "Spi_Unlock s4 = Some t" "eeprom_at (written (nat a) buffer mem) Protected n t" using eeprom_lock(2) [OF s4(2)] by blast
  have "Eeprom_Write a buffer s = Some (CONTROLLER_OK, t)"
    using assms(2) a eeprom_lock(3) [OF assms(1)] s1(1) s2(1) s3(1) s4(1) t(1) by (simp add: Eeprom_Write_def)
  then show ?thesis using t(2) by blast
qed

lemma eeprom_read:
  assumes "eeprom_at mem enabled busy s" and "0 \<le> a" and "a < 32768" and "old \<noteq> []"
  shows "\<exists>t. Eeprom_Read a old s = Some ((CONTROLLER_OK, read_from (nat a) (length old) mem), t) \<and> eeprom_at mem enabled 0 t"
proof -
  let ?hi = "word_of_int (drop_bit 8 a) :: u8" and ?lo = "word_of_int (a AND 0xFF) :: u8"
  obtain free s1 where s1: "Spi_Lock s = Some (free, s1)" "eeprom_at mem enabled busy s1" using eeprom_lock(1) [OF assms(1)] by blast
  obtain s2 where s2: "Eeprom_Ready s1 = Some s2" "eeprom_at mem enabled 0 s2" using eeprom_ready [OF s1(2)] by blast
  let ?tail = "map (\<lambda>i. if i = 0 then 0 else spi_stack s2 i) [0..<length old]"
  obtain x y z d where d: "spi_exchange ([0x03, ?hi, ?lo] @ ?tail) (SPI_slaves s2 ! 3) = ([x, y, z] @ read_from (nat a) (length old) mem, d)"
      "eeprom_chip mem enabled 0 d"
    using chip_read [of mem enabled "SPI_slaves s2 ! 3" ?tail ?hi ?lo] s2(2) assms(4) unfolding address_bytes [OF assms(2,3)]
    by (auto simp: eeprom_at_def)
  obtain s3 where s3: "Spi_ReadWriteBlock 3 ([0x03, ?hi, ?lo] @ ?tail) s2 = Some ([x, y, z] @ read_from (nat a) (length old) mem, s3)"
      "eeprom_at mem enabled 0 s3"
    using eeprom_block [OF s2(2) d] by blast
  obtain t where t: "Spi_Unlock s3 = Some t" "eeprom_at mem enabled 0 t" using eeprom_lock(2) [OF s3(2)] by blast
  have "Eeprom_Read a old s = Some ((CONTROLLER_OK, read_from (nat a) (length old) mem), t)"
    using assms(2,3) eeprom_lock(3) [OF assms(1)] s1(1) s2(1) s3(1) t(1) by (simp add: Eeprom_Read_def)
  then show ?thesis using t(2) by blast
qed

lemma read_written: "a + length cs \<le> 32768 \<Longrightarrow> read_from a (length cs) (written a cs mem) = cs"
  by (rule nth_equalityI) (auto simp: read_from_def written_def)

text \<open>
  C16: What is written to the EEPROM within one of its pages is read back, however long the chip is busy before and after, and what was anywhere else
  is still there: every later read gives the memory with just these bytes replaced.
\<close>
theorem eeprom_roundtrip:
  assumes "eeprom_at mem enabled busy s" and "0 \<le> a" and "one_page (nat a) buffer"
  shows "\<exists>t. Eeprom_Write a buffer s = Some (CONTROLLER_OK, t) \<and>
    (\<forall>old. length old = length buffer \<longrightarrow> (\<exists>u. Eeprom_Read a old t = Some ((CONTROLLER_OK, buffer), u))) \<and>
    (\<forall>b old. 0 \<le> b \<and> b < 32768 \<and> old \<noteq> [] \<longrightarrow>
       (\<exists>u. Eeprom_Read b old t = Some ((CONTROLLER_OK, read_from (nat b) (length old) (written (nat a) buffer mem)), u)))"
proof -
  obtain t n where t: "Eeprom_Write a buffer s = Some (CONTROLLER_OK, t)" "eeprom_at (written (nat a) buffer mem) Protected n t"
    using eeprom_write [OF assms] by blast
  have "0 < length buffer" and small: "nat a + length buffer \<le> 32768" using assms(3) by (simp_all add: one_page_def)
  then have a: "a < 32768" using assms(2) by linarith
  have "\<exists>u. Eeprom_Read a old t = Some ((CONTROLLER_OK, buffer), u)" if "length old = length buffer" for old
  proof -
    have "old \<noteq> []" using that assms(3) by (auto simp: one_page_def)
    then show ?thesis using eeprom_read [OF t(2) assms(2) a, of old] that read_written [OF small, of mem] by auto
  qed
  then show ?thesis using t(1) eeprom_read [OF t(2)] by blast
qed

subsection \<open>A chip\<close>

text \<open>An automaton that keeps the promises: its memory, whether writing is enabled, for how many polls it is busy, and the frame so far.\<close>

record chip_state =
  ch_mem :: "nat \<Rightarrow> u8"
  ch_enabled :: write_latch
  ch_busy :: nat
  ch_frame :: "u8 list"

definition chip_answer :: "chip_state \<Rightarrow> u8" where
  "chip_answer c =
     (case ch_frame c of
        op # hi # lo # rest \<Rightarrow> if op = 0x03 then ch_mem c ((eeprom_address hi lo + length rest) mod 32768) else 0
      | op # _ \<Rightarrow> if op = 0x05 \<and> ch_busy c > 0 then 0xFF else 0
      | [] \<Rightarrow> 0)"

definition chip_done :: "u8 list \<Rightarrow> chip_state \<Rightarrow> chip_state" where
  "chip_done frame c =
     (case frame of
        op # hi # lo # cs \<Rightarrow>
          if op = 0x02 \<and> ch_enabled c = Writable
          then \<lparr>ch_mem = written (eeprom_address hi lo) cs (ch_mem c), ch_enabled = Protected, ch_busy = 2, ch_frame = []\<rparr>
          else c\<lparr>ch_frame := []\<rparr>
      | [op, x] \<Rightarrow> c\<lparr>ch_busy := ch_busy c - 1, ch_frame := []\<rparr>
      | [op] \<Rightarrow> c\<lparr>ch_enabled := (if op = 0x06 then Writable else ch_enabled c), ch_frame := []\<rparr>
      | [] \<Rightarrow> c)"

primcorec chip :: "chip_state \<Rightarrow> spi_slave" where
  "xfer (chip c) = (\<lambda>b final. map_prod id chip
     (chip_answer c, if final then chip_done (ch_frame c @ [b]) c else c\<lparr>ch_frame := ch_frame c @ [b]\<rparr>))"

lemma chip_steps:
  assumes "cs \<noteq> []"
  shows "spi_exchange cs (chip c) =
    (map (\<lambda>i. chip_answer (c\<lparr>ch_frame := ch_frame c @ take i cs\<rparr>)) [0..<length cs], chip (chip_done (ch_frame c @ cs) (c\<lparr>ch_frame := ch_frame c @ butlast cs\<rparr>)))"
  using assms
proof (induction cs arbitrary: c)
  case (Cons b cs)
  show ?case
  proof (cases "cs = []")
    case False
    let ?c = "c\<lparr>ch_frame := ch_frame c @ [b]\<rparr>"
    have "[0..<length (b # cs)] = 0 # map Suc [0..<length cs]" by (simp add: map_Suc_upt upt_conv_Cons del: upt_Suc)
    then show ?thesis using Cons.IH [OF False, of ?c] False by (simp add: comp_def)
  qed simp
qed simp

lemma read_from_map: "read_from a n mem = map (\<lambda>i. mem ((a + i) mod 32768)) [0..<n]"
  by (simp add: read_from_def)

lemma chip_read_frame:
  assumes "ch_frame c = []" and "cs \<noteq> []"
  shows "spi_exchange ([0x03, hi, lo] @ cs) (chip c) =
    ([0, chip_answer (c\<lparr>ch_frame := [0x03]\<rparr>), chip_answer (c\<lparr>ch_frame := [0x03, hi]\<rparr>)] @ read_from (eeprom_address hi lo) (length cs) (ch_mem c), chip c)"
proof -
  have "[0..<length ([0x03, hi, lo] @ cs)] = [0, 1, 2] @ [3..<length cs + 3]"
    by (simp add: upt_conv_Cons numeral_3_eq_3 numeral_2_eq_2 del: upt_Suc)
  then have "[0..<length ([0x03, hi, lo] @ cs)] = [0, 1, 2] @ map (\<lambda>i. i + 3) [0..<length cs]" by (simp only: map_add_upt)
  moreover have "chip_done ([0x03, hi, lo] @ cs) (c\<lparr>ch_frame := butlast ([0x03, hi, lo] @ cs)\<rparr>) = c"
    using assms(1) by (cases c) (simp add: chip_done_def)
  moreover have "c\<lparr>ch_frame := []\<rparr> = c" using assms(1) by (cases c) simp
  ultimately show ?thesis
    using chip_steps [of "[0x03, hi, lo] @ cs" c] assms(1) by (simp add: chip_answer_def read_from_def comp_def numeral_3_eq_3 numeral_2_eq_2)
qed

lemma eeprom_chip_coind [consumes 1, case_names polled enables reads writes]:
  assumes "R mem enabled busy d"
    and "\<And>mem enabled busy d c. R mem enabled busy d \<Longrightarrow>
      \<exists>r status d'. spi_exchange [0x05, c] d = ([r, status], d') \<and> (status = 0xFF \<longleftrightarrow> busy > 0) \<and> R mem enabled (busy - 1) d'"
    and "\<And>mem enabled d. R mem enabled 0 d \<Longrightarrow> \<exists>r d'. spi_exchange [0x06] d = ([r], d') \<and> R mem Writable 0 d'"
    and "\<And>mem enabled d hi lo cs. R mem enabled 0 d \<Longrightarrow> cs \<noteq> [] \<Longrightarrow> \<exists>a b c d'. spi_exchange ([0x03, hi, lo] @ cs) d =
      ([a, b, c] @ read_from (eeprom_address hi lo) (length cs) mem, d') \<and> R mem enabled 0 d'"
    and "\<And>mem d hi lo cs. R mem Writable 0 d \<Longrightarrow> one_page (eeprom_address hi lo) cs \<Longrightarrow> \<exists>rs d' n. spi_exchange ([0x02, hi, lo] @ cs) d = (rs, d') \<and>
      R (written (eeprom_address hi lo) cs mem) Protected n d'"
  shows "eeprom_chip mem enabled busy d"
proof (rule eeprom_chip.coinduct [where X = R, OF assms(1)], goal_cases)
  case (1 mem enabled busy d)
  note eeprom_chip = 1
  have polls: "\<exists>r status d'. spi_exchange [0x05, c] d = ([r, status], d') \<and> (status = 0xFF) = (0 < busy) \<and>
      (R mem enabled (busy - 1) d' \<or> eeprom_chip mem enabled (busy - 1) d')" for c
    using assms(2) [OF eeprom_chip, of c] by blast
  have enables: "busy = 0 \<longrightarrow> (\<exists>r d'. spi_exchange [0x06] d = ([r], d') \<and> (R mem Writable 0 d' \<or> eeprom_chip mem Writable 0 d'))"
    using assms(3) [of mem enabled d] eeprom_chip by blast
  have reads: "busy = 0 \<longrightarrow> cs \<noteq> [] \<longrightarrow> (\<exists>a b c d'. spi_exchange ([0x03, hi, lo] @ cs) d =
      ([a, b, c] @ read_from (eeprom_address hi lo) (length cs) mem, d') \<and> (R mem enabled 0 d' \<or> eeprom_chip mem enabled 0 d'))" for hi lo cs
    using assms(4) [of mem enabled d cs hi lo] eeprom_chip by blast
  have writes: "busy = 0 \<longrightarrow> enabled = Writable \<longrightarrow> one_page (eeprom_address hi lo) cs \<longrightarrow> (\<exists>rs d' n. spi_exchange ([0x02, hi, lo] @ cs) d = (rs, d') \<and>
      (R (written (eeprom_address hi lo) cs mem) Protected n d' \<or> eeprom_chip (written (eeprom_address hi lo) cs mem) Protected n d'))" for hi lo cs
    using assms(5) [of mem d hi lo cs] eeprom_chip by (cases enabled) auto
  show ?case
    by (intro exI [of _ mem] exI [of _ enabled] exI [of _ busy] exI [of _ d] conjI allI refl) (rule polls enables reads writes)+
qed

definition chip_at :: "(nat \<Rightarrow> u8) \<Rightarrow> write_latch \<Rightarrow> nat \<Rightarrow> spi_slave \<Rightarrow> bool" where
  "chip_at mem enabled busy d \<longleftrightarrow> d = chip \<lparr>ch_mem = mem, ch_enabled = enabled, ch_busy = busy, ch_frame = []\<rparr>"

lemma chip_keeps_contract: "chip_at mem enabled busy d \<Longrightarrow> eeprom_chip mem enabled busy d"
proof (induction rule: eeprom_chip_coind)
  case (polled mem enabled busy d c)
  then show ?case by (simp add: chip_at_def chip_answer_def chip_done_def)
next
  case (enables mem enabled d)
  then show ?case by (simp add: chip_at_def chip_done_def)
next
  case (reads mem enabled d hi lo cs)
  let ?c = "\<lparr>ch_mem = mem, ch_enabled = enabled, ch_busy = 0, ch_frame = []\<rparr>"
  have "d = chip ?c" using reads(1) by (simp add: chip_at_def)
  moreover have "ch_frame ?c = []" "ch_mem ?c = mem" by simp_all
  ultimately show ?case using chip_read_frame [of ?c cs hi lo] reads by metis
next
  case (writes mem d hi lo cs)
  let ?c = "\<lparr>ch_mem = mem, ch_enabled = Writable, ch_busy = 0, ch_frame = []\<rparr>"
  have "d = chip ?c" using writes(1) by (simp add: chip_at_def)
  moreover have "chip_done ([0x02, hi, lo] @ cs) (?c\<lparr>ch_frame := butlast ([0x02, hi, lo] @ cs)\<rparr>) =
      \<lparr>ch_mem = written (eeprom_address hi lo) cs mem, ch_enabled = Protected, ch_busy = 2, ch_frame = []\<rparr>"
    by (simp add: chip_done_def)
  moreover have "ch_frame ?c @ ([0x02, hi, lo] @ cs) = [0x02, hi, lo] @ cs" "ch_frame ?c @ butlast ([0x02, hi, lo] @ cs) = butlast ([0x02, hi, lo] @ cs)"
    by simp_all
  moreover have "[0x02, hi, lo] @ cs \<noteq> []" by simp
  ultimately show ?case using chip_steps [of "[0x02, hi, lo] @ cs" ?c] unfolding chip_at_def by metis
qed

definition dip_idle :: DipSwitchSubsystem where
  "dip_idle = \<lparr>dip_users = 0, dip_lastValue = 0, dip_autosend = 0\<rparr>"

definition spi_boot :: spi_state where
  "spi_boot = osc_state.extend osc_boot
     \<lparr>Spi_users = 0, Spi_channels = 0, Spi_semaphore = None, SPI_CSR = replicate 4 0, SPI_MR = 0, SPI_enabled = False,
      SPI_slaves = replicate 4 (chip \<lparr>ch_mem = (\<lambda>_. 0xFF), ch_enabled = Protected, ch_busy = 3, ch_frame = []\<rparr>), Eeprom_users = 0,
      DipSwitch = None, DipSwitch_fresh = dip_idle, autosend_stack = replicate 4 0, spi_stack = (\<lambda>_. 0)\<rparr>"

lemma eeprom_roundtrip_witness:
  "\<exists>(s :: spi_state) t u. Eeprom_Write 31956 [1, 0, 0, 0] s = Some (CONTROLLER_OK, t) \<and>
     Eeprom_Read 31956 [9, 9, 9, 9] t = Some ((CONTROLLER_OK, [1, 0, 0, 0]), u)"
proof -
  let ?s = "spi_boot\<lparr>Eeprom_users := 1, SPI_enabled := True, Spi_semaphore := Some True\<rparr>"
  have "chip_at (\<lambda>_. 0xFF) Protected 3 (chip \<lparr>ch_mem = (\<lambda>_. 0xFF), ch_enabled = Protected, ch_busy = 3, ch_frame = []\<rparr>)" by (simp add: chip_at_def)
  from chip_keeps_contract [OF this] have "eeprom_at (\<lambda>_. 0xFF) Protected 3 ?s"
    by (simp add: eeprom_at_def spi_boot_def osc_state.defs)
  moreover have "one_page (nat 31956) [1, 0, 0, 0]" by (simp add: one_page_def)
  moreover have "(0 :: int) \<le> 31956" by simp
  ultimately obtain t where t: "Eeprom_Write 31956 [1, 0, 0, 0] ?s = Some (CONTROLLER_OK, t)"
      "\<forall>old. length old = length [1, 0, 0, 0 :: u8] \<longrightarrow> (\<exists>u. Eeprom_Read 31956 old t = Some ((CONTROLLER_OK, [1, 0, 0, 0]), u))"
    using eeprom_roundtrip [of "\<lambda>_. 0xFF" Protected 3 ?s 31956 "[1, 0, 0, 0]"] by blast
  have "length [9, 9, 9, 9 :: u8] = length [1, 0, 0, 0 :: u8]" by simp
  then show ?thesis using t by blast
qed

subsection \<open>Users of the bus\<close>

lemma drop_loop_rest: "io_state.more (Io_drop_loop bits u is s) = io_state.more s"
  by (induction "is" arbitrary: s) (auto simp: pin_drop_def Io_Deinit_def Let_def)

lemma StopBits_rest [simp]: "io_state.more (snd (Io_StopBits bits s)) = io_state.more s"
  by (simp add: Io_StopBits_def drop_loop_rest)

lemma start_loop_rest: "Io_StartBits_loop bits lk is s = (r, t) \<Longrightarrow> io_state.more t = io_state.more s"
  by (induction "is" arbitrary: s) (auto simp: pin_take_def Io_Init_def Let_def split: if_splits)

lemma StartBits_rest: "Io_StartBits bits lk s = (r, t) \<Longrightarrow> io_state.more t = io_state.more s"
  by (auto simp: Io_StartBits_def drop_loop_rest dest: start_loop_rest split: prod.splits option.splits)

lemma peripheral_rest [simp]:
  "io_state.more (snd (Io_SetPeripheralA i s)) = io_state.more s" "io_state.more (snd (Io_SetPeripheralB i s)) = io_state.more s"
  by (simp_all add: Io_SetPeripheralA_def Io_SetPeripheralB_def)

lemma spi_part:
  fixes s t :: "'a spi_state_scheme"
  assumes "io_state.more t = io_state.more s"
  shows "Spi_users t = Spi_users s" "Spi_channels t = Spi_channels s" "SPI_enabled t = SPI_enabled s"
  using assms by (cases s; cases t; simp)+

text \<open>The bus has at most one user, however many channels have been started.\<close>

lemma Spi_Start_users:
  assumes "Spi_Start c s = Some (CONTROLLER_OK, t)" and "Spi_users s \<le> 1" and "0 \<le> Spi_users s"
  shows "Spi_users t = 1" "Spi_channels t = Spi_channels s OR push_bit (nat c) 1" "0 \<le> c" "c \<le> 3"
proof -
  have c: "0 \<le> c" "c \<le> 3" using assms(1) by (auto simp: Spi_Start_def split: if_splits)
  then show "0 \<le> c" "c \<le> 3" .
  let ?io = "Spi_GetChannelIo c"
  obtain s1 where s1: "Io_Start ?io True s = Some (CONTROLLER_OK, s1)"
    using assms(1) by (auto simp: Spi_Start_def Let_def split: if_splits Option.bind_splits)
  define s2 where "s2 = snd (if Spi_GetChannelPeripheralA c \<noteq> 0 then Io_SetPeripheralA ?io (snd (Io_SetPio ?io False s1))
    else Io_SetPeripheralB ?io (snd (Io_SetPio ?io False s1)))"
  have "io_state.more s2 = io_state.more s" using io_rest(2) [OF s1] by (simp add: s2_def)
  note part = spi_part [OF this]
  have init: "Spi_users u = Spi_users s2 \<and> Spi_channels u = Spi_channels s2" if "Spi_Init s2 = (CONTROLLER_OK, u)" for u
  proof -
    obtain r v where v: "Io_StartBits spi_bits True s2 = (r, v)" by (cases "Io_StartBits spi_bits True s2")
    show ?thesis using that spi_part(1,2) [OF StartBits_rest [OF v]] v by (auto simp: Spi_Init_def Let_def split: if_splits)
  qed
  have t: "\<exists>u. Spi_users u = 1 \<and> Spi_channels u = Spi_channels s \<and> t = u\<lparr>Spi_channels := Spi_channels u OR push_bit (nat c) 1\<rparr>"
  proof (cases "Spi_users s = 0")
    case True
    then obtain u where u: "Spi_Init s2 = (CONTROLLER_OK, u)" "t = u\<lparr>Spi_users := Spi_users u + 1, Spi_channels := Spi_channels u OR push_bit (nat c) 1\<rparr>"
      using assms(1) s1 c part(1) by (auto simp: Spi_Start_def Let_def s2_def split: if_splits Option.bind_splits prod.splits)
    then show ?thesis using init [OF u(1)] part True by (intro exI [of _ "u\<lparr>Spi_users := Spi_users u + 1\<rparr>"]) simp
  next
    case False
    then have "Spi_users s = 1" using assms(2,3) by simp
    then show ?thesis using assms(1) s1 c part
      by (intro exI [of _ s2]) (auto simp: Spi_Start_def Let_def s2_def split: if_splits Option.bind_splits)
  qed
  then show "Spi_users t = 1" "Spi_channels t = Spi_channels s OR push_bit (nat c) 1" by auto
qed

text \<open>A channel starts when its line, and for the first channel those of the bus, can be locked; other lines stay as they are.\<close>

lemma set_line_pins [simp]: "Io_pins (snd (set_line w i s)) = Io_pins s" "Spi_channels (snd (set_line w i r)) = Spi_channels r"
  by (simp_all add: set_line_def on_port_def)

lemma io_setters_pins [simp]:
  "Io_pins (snd (Io_SetPio i v s)) = Io_pins s" "Io_pins (snd (Io_SetPeripheralA i s)) = Io_pins s" "Io_pins (snd (Io_SetPeripheralB i s)) = Io_pins s"
  by (simp_all add: Io_SetPio_def Io_PioEnable_def Io_PioDisable_def Io_SetPeripheralA_def Io_SetPeripheralB_def)

lemma StartBits_loop_available:
  assumes "\<forall>i \<in> set is. bit bits i \<longrightarrow> pin_available lk (Io_pins s ! i)" and "distinct is"
  shows "\<exists>s'. Io_StartBits_loop bits lk is s = (None, s')"
  using assms
proof (induction bits lk "is" s rule: Io_StartBits_loop.induct)
  case (2 bits lk i "is" s)
  moreover have "\<forall>j \<in> set is. Io_pins (pin_take lk i s) ! j = Io_pins s ! j"
    using "2.prems"(2) by (metis distinct.simps(2) nth_list_update_neq pin_take_pins)
  ultimately show ?case by simp
qed simp

lemma spi_bits_iff: "bit spi_bits n \<longleftrightarrow> n \<in> {16, 17, 18}"
proof -
  have "(7 :: u64) = mask 3" by (simp add: mask_eq_exp_minus_1)
  then have bits: "spi_bits = push_bit 16 (mask 3)" by (simp only: spi_bits_def)
  show ?thesis unfolding bits by (auto simp: bit_push_bit_iff bit_mask_iff)
qed

lemma Spi_Start_succeeds:
  assumes "length (Io_pins s) = 64" and "0 \<le> c" and "c \<le> 3" and "\<not> bit (Spi_channels s) (nat c)"
    and "pin_available True (Io_pins s ! nat (Spi_GetChannelIo c))" and "Spi_users s = 0 \<Longrightarrow> \<forall>n \<in> {16, 17, 18}. pin_available True (Io_pins s ! n)"
  shows "\<exists>t. Spi_Start c s = Some (CONTROLLER_OK, t) \<and> length (Io_pins t) = 64 \<and>
    (\<forall>n. n \<notin> {nat (Spi_GetChannelIo c), 16, 17, 18} \<longrightarrow> Io_pins t ! n = Io_pins s ! n)"
proof -
  let ?io = "Spi_GetChannelIo c"
  have io: "\<not> bad_index ?io" "nat ?io < 64" "nat ?io \<notin> {16, 17, 18}" by (auto simp: Spi_GetChannelIo_def bad_index_def)
  define s1 where "s1 = pin_take True (nat ?io) s"
  have start: "Io_Start ?io True s = Some (CONTROLLER_OK, s1)" using io assms(1,5) by (simp add: Io_Start_def s1_def)
  define s2 where "s2 = snd (if Spi_GetChannelPeripheralA c \<noteq> 0 then Io_SetPeripheralA ?io (snd (Io_SetPio ?io False s1))
    else Io_SetPeripheralB ?io (snd (Io_SetPio ?io False s1)))"
  have pins: "length (Io_pins s2) = 64" "\<forall>n. n \<noteq> nat ?io \<longrightarrow> Io_pins s2 ! n = Io_pins s ! n"
    using assms(1) by (simp_all add: s2_def s1_def pin_take_pins)
  have "io_state.more s2 = io_state.more s" using io_rest(2) [OF start] by (simp add: s2_def)
  note part = spi_part [OF this]
  show ?thesis
  proof (cases "Spi_users s = 0")
    case False
    then have "Spi_Start c s = Some (CONTROLLER_OK, s2\<lparr>Spi_channels := Spi_channels s2 OR push_bit (nat c) 1\<rparr>)"
      using assms(2-4) start part by (simp add: Spi_Start_def Let_def flip: s2_def)
    then show ?thesis using pins by simp
  next
    case True
    have "\<forall>n \<in> set [0..<64]. bit spi_bits n \<longrightarrow> pin_available True (Io_pins s2 ! n)"
      using assms(6) [OF True] pins(2) io(3) by (auto simp: spi_bits_iff)
    then obtain u where u: "Io_StartBits_loop spi_bits True [0..<64] s2 = (None, u)" using StartBits_loop_available distinct_upt by blast
    have rest: "length (Io_pins u) = 64" "\<forall>n. n \<notin> {16, 17, 18} \<longrightarrow> Io_pins u ! n = Io_pins s2 ! n"
      using StartBits_loop_success [OF u] pins(1) by (simp_all add: spi_bits_iff subset_eq)
    have bits: "Io_StartBits spi_bits True s2 = (CONTROLLER_OK, u)" using u by (simp add: Io_StartBits_def)
    obtain v where v: "Spi_Init s2 = (CONTROLLER_OK, v)" "Io_pins v = Io_pins u" using bits by (simp add: Spi_Init_def Let_def)
    have "Spi_Start c s = Some (CONTROLLER_OK, v\<lparr>Spi_users := Spi_users v + 1, Spi_channels := Spi_channels v OR push_bit (nat c) 1\<rparr>)"
      using assms(2-4) start part True v(1) by (simp add: Spi_Start_def Let_def flip: s2_def)
    then show ?thesis using pins rest v(2) by simp
  qed
qed

text \<open>
  C31: When two channels of the SPI bus have been started, which leaves it with a single user, stopping one of them shuts the bus down: transfers of the
  other device never return, it can neither be stopped, since the bus has no user left, nor started again, since its channel still counts as taken.
\<close>
theorem spi_first_stop_cuts_bus:
  assumes "Spi_Start i s = Some (CONTROLLER_OK, s1)" and "Spi_Start j s1 = Some (CONTROLLER_OK, s2)" and "Spi_users s = 0" and "i \<noteq> j"
    and "length (Io_pins s2) = 64"
  shows "\<exists>t. Spi_Stop i s2 = Some (CONTROLLER_OK, t) \<and> \<not> SPI_enabled t \<and> Spi_users t = 0 \<and>
    (\<forall>buffer. buffer \<noteq> [] \<longrightarrow> Spi_ReadWriteBlock j buffer t = None) \<and>
    Spi_Stop j t = Some (CONTROLLER_ERROR_TOO_MANY_STOPS, t) \<and> Spi_Start j t = Some (CONTROLLER_ERROR_CANT_LOCK, t)"
proof -
  note first = Spi_Start_users [OF assms(1)] and second = Spi_Start_users [OF assms(2)]
  have i: "0 \<le> i" "i \<le> 3" and j: "0 \<le> j" "j \<le> 3" and users: "Spi_users s2 = 1"
    using first second assms(3) by simp_all
  have bits: "bit (Spi_channels s2) (nat i)" "bit (Spi_channels s2) (nat j)"
    using first(2) second(2) assms(3) first(1) by (simp_all add: bit_or_iff bit_exp_iff)
  have "nat (Spi_GetChannelIo i) < length (Io_pins s2)" "\<not> bad_index (Spi_GetChannelIo i)"
    using assms(5) by (auto simp: Spi_GetChannelIo_def bad_index_def)
  then have "Io_Stop (Spi_GetChannelIo i) s2 \<noteq> None" by (simp add: Io_Stop_def)
  then obtain r u where u: "Io_Stop (Spi_GetChannelIo i) s2 = Some (r, u)" by force
  note part = spi_part [OF io_rest(3) [OF u]]
  define v where "v = u\<lparr>Spi_channels := Spi_channels u AND NOT (push_bit (nat i) 1), Spi_users := 0\<rparr>"
  define t where "t = Spi_Deinit v"
  have "Spi_Stop i s2 = Some (CONTROLLER_OK, t)"
    using i bits(1) users u part by (simp add: Spi_Stop_def v_def t_def)
  moreover have "io_state.more t = io_state.more (v\<lparr>SPI_enabled := False\<rparr>)" by (simp add: t_def Spi_Deinit_def)
  note t = spi_part [OF this]
  moreover have "bit (Spi_channels t) (nat j)"
    using t(2) bits(2) part(2) i j assms(4) by (simp add: v_def bit_and_iff bit_not_iff bit_exp_iff)
  ultimately show ?thesis using j by (intro exI [of _ t]) (simp add: v_def Spi_ReadWriteBlock_def Spi_Stop_def Spi_Start_def)
qed

lemma spi_first_stop_cuts_bus_witness:
  "\<exists>(s1 :: spi_state) s2 t. Spi_Start 2 spi_boot = Some (CONTROLLER_OK, s1) \<and> Spi_Start 3 s1 = Some (CONTROLLER_OK, s2) \<and>
     Spi_Stop 2 s2 = Some (CONTROLLER_OK, t) \<and> Spi_Stop 3 t = Some (CONTROLLER_ERROR_TOO_MANY_STOPS, t) \<and>
     Spi_ReadWriteBlock 3 [0x05, 0] t = None"
proof -
  have boot: "Io_pins spi_boot = Io_pins io_boot" "Spi_users spi_boot = 0" "Spi_channels spi_boot = 0"
    by (simp_all add: spi_boot_def osc_state.defs osc_boot_def inputs_state.defs inputs_boot_def digitalout_state.defs dout_boot_def
        leds_state.defs leds_boot_def fasttimer_state.defs ft_boot_def io_state.defs)
  then have len: "length (Io_pins spi_boot) = 64" and free: "n < 64 \<Longrightarrow> pin_available True (Io_pins spi_boot ! n)" for n
    using io_inv_length [OF io_boot_inv] by (auto simp: io_boot_def Let_def pin_available_def)
  obtain s1 where s1: "Spi_Start 2 spi_boot = Some (CONTROLLER_OK, s1)" "length (Io_pins s1) = 64"
      "\<forall>n. n \<notin> {nat (Spi_GetChannelIo 2), 16, 17, 18} \<longrightarrow> Io_pins s1 ! n = Io_pins spi_boot ! n"
    using Spi_Start_succeeds [OF len, of 2] boot free by (auto simp: Spi_GetChannelIo_def)
  have users: "Spi_users s1 = 1" "Spi_channels s1 = 4" using Spi_Start_users [OF s1(1)] boot by simp_all
  have "\<not> bit (4 :: int) 3" by code_simp
  moreover have "pin_available True (Io_pins s1 ! nat (Spi_GetChannelIo 3))" using s1(3) free [of 9] by (simp add: Spi_GetChannelIo_def)
  ultimately obtain s2 where s2: "Spi_Start 3 s1 = Some (CONTROLLER_OK, s2)" "length (Io_pins s2) = 64"
    using Spi_Start_succeeds [OF s1(2), of 3] users by auto
  have "(2 :: int) \<noteq> 3" by simp
  from spi_first_stop_cuts_bus [OF s1(1) s2(1) boot(2) this s2(2)] obtain t where
    "Spi_Stop 2 s2 = Some (CONTROLLER_OK, t)" "Spi_Stop 3 t = Some (CONTROLLER_ERROR_TOO_MANY_STOPS, t)"
    "\<forall>buffer. buffer \<noteq> [] \<longrightarrow> Spi_ReadWriteBlock 3 buffer t = None" by blast
  moreover have "[0x05, 0 :: u8] \<noteq> []" by simp
  ultimately show ?thesis using s1(1) s2(1) by blast
qed

end
