(* ===== verification/MsTimer.thy ===== *)
theory MsTimer
  imports FastTimer
begin

text \<open>
  The millisecond timer (\<^verbatim>\<open>src/firmware/core/makingthings/timer.c\<close>, \<^verbatim>\<open>timer_isr.c\<close>): entries of the same shape as those of the
  fast timer, on a list of their own and on counter 0. A run-out entry of its interrupt does not become the previous one and the
  next compare value is computed from run-out entries only, unlike in the fast timer. The compare register has sixteen bits.
\<close>

subsection \<open>State\<close>

type_synonym TimerEntry = FastTimerEntry

record timer_state = fasttimer_state +
  TM_users :: u8
  TM_count :: "16 word"
  TM_jitterTotal :: int
  TM_jitterMax :: int
  TM_jitterMaxAllDay :: int
  TM_running :: bool
  TM_servicing :: bool
  TM_nextTime :: int
  TM_first :: "nat option"
  TM_next :: "nat option"
  TM_previous :: "nat option"
  TM_heap :: "nat \<Rightarrow> TimerEntry"
  TC0_RC :: int
  TC0_clock :: bool

abbreviation (input) TIMER_CYCLES_PER_MS :: int where "TIMER_CYCLES_PER_MS \<equiv> 48"
abbreviation (input) TIMER_MARGIN :: int where "TIMER_MARGIN \<equiv> 2"

definition upd_timer :: "nat \<Rightarrow> (TimerEntry \<Rightarrow> TimerEntry) \<Rightarrow> 'a timer_state_scheme \<Rightarrow> 'a timer_state_scheme" where
  "upd_timer a f s = s\<lparr>TM_heap := (TM_heap s)(a := f (TM_heap s a))\<rparr>"

definition TC_RC :: "int \<Rightarrow> 'a timer_state_scheme \<Rightarrow> 'a timer_state_scheme" where
  "TC_RC v s = s\<lparr>TC0_RC := take_bit 16 v\<rparr>"

subsection \<open>Activation\<close>

definition Timer_Init :: "'a timer_state_scheme \<Rightarrow> status \<times> 'a timer_state_scheme" where
  "Timer_Init s =
     (CONTROLLER_OK, TC_RC 0xFFFF (s\<lparr>TM_first := None, TM_count := 0, TM_jitterTotal := 0, TM_jitterMax := 0, TM_jitterMaxAllDay := 0,
        TM_running := False, TM_servicing := False, PMC_PCSR := PMC_PCSR s OR mask1 12\<rparr>))"

definition Timer_Deinit :: "'a timer_state_scheme \<Rightarrow> status \<times> 'a timer_state_scheme" where
  "Timer_Deinit s = (CONTROLLER_OK, s)"

definition Timer_SetActive :: "bool \<Rightarrow> 'a timer_state_scheme \<Rightarrow> status \<times> 'a timer_state_scheme" where
  "Timer_SetActive active s =
     (if active then
        (let first = TM_users s = 0; s = s\<lparr>TM_users := TM_users s + 1\<rparr>
         in if first then
              (let (status, s) = Timer_Init s
               in if status \<noteq> CONTROLLER_OK then (status, s\<lparr>TM_users := TM_users s - 1\<rparr>) else (CONTROLLER_OK, s))
            else (CONTROLLER_OK, s))
      else
        (let s = s\<lparr>TM_users := TM_users s - 1\<rparr>
         in (CONTROLLER_OK, if TM_users s = 0 then snd (Timer_Deinit s) else s)))"

definition Timer_GetActive :: "'a timer_state_scheme \<Rightarrow> bool" where
  "Timer_GetActive s \<longleftrightarrow> TM_users s > 0"

definition Timer_Enable :: "'a timer_state_scheme \<Rightarrow> 'a timer_state_scheme" where
  "Timer_Enable s = s\<lparr>TC0_clock := True, TM_running := True\<rparr>"

definition Timer_GetTimeTarget :: "'a timer_state_scheme \<Rightarrow> int" where
  "Timer_GetTimeTarget s = TC0_RC s"

definition Timer_GetTime :: "'a timer_state_scheme \<Rightarrow> int" where
  "Timer_GetTime s = TC0_CV s"

definition Timer_SetTimeTarget :: "int \<Rightarrow> 'a timer_state_scheme \<Rightarrow> 'a timer_state_scheme" where
  "Timer_SetTimeTarget target = TC_RC (if target < 0xFFFF then target else 0xFFFF)"

subsection \<open>Entries\<close>

definition Timer_InitializeEntry ::
  "nat \<Rightarrow> nat option \<Rightarrow> int \<Rightarrow> int \<Rightarrow> bool \<Rightarrow> 'a timer_state_scheme \<Rightarrow> 'a timer_state_scheme" where
  "Timer_InitializeEntry a timerCallback i timeMs rpt s =
     (let time = c_int (timeMs * TIMER_CYCLES_PER_MS)
      in upd_timer a (\<lambda>_. \<lparr>fte_callback = timerCallback, fte_id = word_of_int i, fte_timeCurrent = 0,
                            fte_timeInitial = time, fte_repeat = rpt, fte_next = None\<rparr>) s)"

definition Timer_start :: "nat \<Rightarrow> 'a timer_state_scheme \<Rightarrow> 'a timer_state_scheme" where
  "Timer_start a s =
     (if TM_running s then s
      else
        let s = snd (Timer_SetActive True s);
            s = Timer_SetTimeTarget (fte_timeInitial (TM_heap s a)) s
        in Timer_Enable s)"

definition Timer_link :: "nat \<Rightarrow> 'a timer_state_scheme \<Rightarrow> 'a timer_state_scheme" where
  "Timer_link a s =
     (let s = upd_timer a (\<lambda>e. e\<lparr>fte_timeCurrent := fte_timeInitial e\<rparr>) s;
          first = TM_first s;
          s = s\<lparr>TM_first := Some a\<rparr>
      in upd_timer a (\<lambda>e. e\<lparr>fte_next := first\<rparr>) s)"

definition Timer_Set :: "nat \<Rightarrow> 'a timer_state_scheme \<Rightarrow> status \<times> 'a timer_state_scheme" where
  "Timer_Set a s =
     (let s = Timer_start a s;
          target = Timer_GetTimeTarget s;
          timeCurrent = Timer_GetTime s;
          remaining = target - timeCurrent;
          s = Timer_link a s;
          t = fte_timeCurrent (TM_heap s a)
      in (CONTROLLER_OK,
          if \<not> TM_servicing s then
            (if t < remaining - TIMER_MARGIN then Timer_SetTimeTarget (target - (remaining - t)) s
             else upd_timer a (\<lambda>e. e\<lparr>fte_timeCurrent := fte_timeCurrent e + timeCurrent\<rparr>) s)
          else
            let s = (if TM_previous s = None then s\<lparr>TM_previous := Some a\<rparr> else s)
            in if TM_nextTime s = - 1 \<or> TM_nextTime s > t then s\<lparr>TM_nextTime := t\<rparr> else s))"

definition Timer_unlink :: "nat \<Rightarrow> nat option \<Rightarrow> 'a timer_state_scheme \<Rightarrow> 'a timer_state_scheme option" where
  "Timer_unlink a previousEntry s =
     (let nxt = fte_next (TM_heap s a)
      in do {
        s \<leftarrow> (if TM_first s = Some a then Some (s\<lparr>TM_first := nxt\<rparr>)
              else map_option (\<lambda>p. upd_timer p (\<lambda>e. e\<lparr>fte_next := nxt\<rparr>) s) previousEntry);
        Some (if TM_servicing s then
                (let s = (if TM_previous s = Some a then s\<lparr>TM_previous := previousEntry\<rparr> else s)
                 in if TM_next s = Some a then s\<lparr>TM_next := fte_next (TM_heap s a)\<rparr> else s)
              else s)
      })"

partial_function (option) Timer_Cancel_loop ::
  "nat \<Rightarrow> nat option \<Rightarrow> nat option \<Rightarrow> 'a timer_state_scheme \<Rightarrow> 'a timer_state_scheme option" where
  "Timer_Cancel_loop a te previousEntry s =
     (case te of
        None \<Rightarrow> Some s
      | Some e \<Rightarrow>
          (if e = a then
             do {
               s \<leftarrow> Timer_unlink a previousEntry s;
               Timer_Cancel_loop a (fte_next (TM_heap s a)) previousEntry s
             }
           else Timer_Cancel_loop a (fte_next (TM_heap s e)) (Some e) s))"

definition Timer_Cancel :: "nat \<Rightarrow> (status, 'a timer_state_scheme) op" where
  "Timer_Cancel a s = map_option (\<lambda>s. (CONTROLLER_OK, s)) (Timer_Cancel_loop a (TM_first s) None s)"

subsection \<open>The interrupt routine\<close>

text \<open>\<open>cv k\<close> is the counter at the \<open>k\<close>-th read in this interrupt; callbacks are interpreted by \<open>cb\<close>, as for the fast timer.\<close>

definition Timer_Isr_expire :: "nat \<Rightarrow> 'a timer_state_scheme \<Rightarrow> 'a timer_state_scheme" where
  "Timer_Isr_expire a s =
     (if fte_repeat (TM_heap s a) then upd_timer a (\<lambda>e. e\<lparr>fte_timeCurrent := fte_timeCurrent e + fte_timeInitial e\<rparr>) s
      else case TM_previous s of
             None \<Rightarrow> s\<lparr>TM_first := TM_next s\<rparr>
           | Some p \<Rightarrow> upd_timer p (\<lambda>e. e\<lparr>fte_next := TM_next s\<rparr>) s)"

definition Timer_Isr_entry ::
  "(nat \<Rightarrow> int \<Rightarrow> 'a timer_state_scheme \<Rightarrow> 'a timer_state_scheme) \<Rightarrow> int \<Rightarrow> nat \<Rightarrow> 'a timer_state_scheme \<Rightarrow> 'a timer_state_scheme" where
  "Timer_Isr_entry cb cv a s =
     (let s = s\<lparr>TM_next := fte_next (TM_heap s a)\<rparr>;
          s = upd_timer a (\<lambda>e. e\<lparr>fte_timeCurrent := fte_timeCurrent e - (TC0_RC s + cv)\<rparr>) s
      in if fte_timeCurrent (TM_heap s a) \<le> 0 then
           let s = Timer_Isr_expire a s;
               s = (case fte_callback (TM_heap s a) of None \<Rightarrow> s | Some f \<Rightarrow> cb f (sint (fte_id (TM_heap s a))) s)
           in if (case TM_previous s of None \<Rightarrow> TM_first s = Some a | Some p \<Rightarrow> fte_next (TM_heap s p) = Some a)
              then (let t = fte_timeCurrent (TM_heap s a)
                    in if TM_nextTime s = - 1 \<or> t < TM_nextTime s then s\<lparr>TM_nextTime := t\<rparr> else s)
              else s
         else s\<lparr>TM_previous := Some a\<rparr>)"

partial_function (option) Timer_Isr_loop ::
  "(nat \<Rightarrow> int \<Rightarrow> 'a timer_state_scheme \<Rightarrow> 'a timer_state_scheme) \<Rightarrow> (nat \<Rightarrow> int) \<Rightarrow> nat \<Rightarrow> nat option \<Rightarrow> 'a timer_state_scheme \<Rightarrow>
   (nat \<times> 'a timer_state_scheme) option" where
  "Timer_Isr_loop cb cv k te s =
     (case te of
        None \<Rightarrow> Some (k, s)
      | Some a \<Rightarrow> (let s = Timer_Isr_entry cb (cv k) a s in Timer_Isr_loop cb cv (Suc k) (TM_next s) s))"

definition Timer_Isr_program :: "int \<Rightarrow> 'a timer_state_scheme \<Rightarrow> 'a timer_state_scheme" where
  "Timer_Isr_program cv s =
     (if TM_first s \<noteq> None then
        (let s = s\<lparr>TM_nextTime := TM_nextTime s + cv\<rparr>;
             s = (if TM_nextTime s > 0xFFFF then s\<lparr>TM_nextTime := 0xFFFF\<rparr> else s)
         in TC_RC (TM_nextTime s) s)
      else s\<lparr>TC0_clock := False, TM_running := False\<rparr>)"

definition Timer_Isr ::
  "(nat \<Rightarrow> int \<Rightarrow> 'a timer_state_scheme \<Rightarrow> 'a timer_state_scheme) \<Rightarrow> bool \<Rightarrow> (nat \<Rightarrow> int) \<Rightarrow>
   'a timer_state_scheme \<Rightarrow> 'a timer_state_scheme option" where
  "Timer_Isr cb cpcs cv s =
     (if cpcs then
        (let jitter = cv 0;
             s = s\<lparr>TM_servicing := True, TM_count := TM_count s + 1, TM_jitterTotal := c_int (TM_jitterTotal s + jitter),
                   TM_jitterMax := max (TM_jitterMax s) jitter, TM_jitterMaxAllDay := max (TM_jitterMaxAllDay s) jitter,
                   TM_next := None, TM_previous := None, TM_nextTime := - 1\<rparr>
         in do {
           (k, s) \<leftarrow> Timer_Isr_loop cb cv 1 (TM_first s) s;
           Some ((Timer_Isr_program (cv k) s)\<lparr>TM_servicing := False\<rparr>)
         })
      else Some s)"

subsection \<open>The running list\<close>

definition tm_list :: "'a timer_state_scheme \<Rightarrow> nat list \<Rightarrow> bool" where
  "tm_list s xs \<longleftrightarrow> chain (TM_heap s) (TM_first s) xs"

lemma tm_list_distinct: "tm_list s xs \<Longrightarrow> distinct xs"
  by (simp add: tm_list_def chain_distinct)

lemma upd_timer_fields [simp]:
  "TM_heap (upd_timer a f s) = (TM_heap s)(a := f (TM_heap s a))" "TM_first (upd_timer a f s) = TM_first s"
  "TM_running (upd_timer a f s) = TM_running s" "TM_servicing (upd_timer a f s) = TM_servicing s"
  "TM_previous (upd_timer a f s) = TM_previous s" "TM_next (upd_timer a f s) = TM_next s"
  "TM_nextTime (upd_timer a f s) = TM_nextTime s" "TC0_RC (upd_timer a f s) = TC0_RC s"
  by (simp_all add: upd_timer_def)

lemma TC_RC_fields [simp]:
  "TM_heap (TC_RC v s) = TM_heap s" "TM_first (TC_RC v s) = TM_first s" "TM_running (TC_RC v s) = TM_running s"
  "TM_servicing (TC_RC v s) = TM_servicing s" "TC0_RC (TC_RC v s) = take_bit 16 v"
  by (simp_all add: TC_RC_def)

lemma Timer_SetTimeTarget_fields [simp]:
  "TM_heap (Timer_SetTimeTarget v s) = TM_heap s" "TM_first (Timer_SetTimeTarget v s) = TM_first s"
  "TM_running (Timer_SetTimeTarget v s) = TM_running s"
  by (simp_all add: Timer_SetTimeTarget_def)

lemma Timer_Set_list:
  assumes "tm_list s xs" and "TM_running s" and "a \<notin> set xs"
  shows "tm_list (snd (Timer_Set a s)) (a # xs)" "TM_running (snd (Timer_Set a s))"
  using assms by (auto simp: tm_list_def Timer_Set_def Timer_start_def Timer_link_def Let_def)

text \<open>The first start activates the timer.\<close>

lemma Timer_Set_first:
  assumes "\<not> TM_running s" and "TM_users s = 0"
  shows "tm_list (snd (Timer_Set a s)) [a]" "TM_running (snd (Timer_Set a s))"
  using assms by (auto simp: tm_list_def Timer_Set_def Timer_start_def Timer_link_def Timer_SetActive_def Timer_Init_def Timer_Enable_def Let_def)

lemma Timer_Cancel_absent: "chain (TM_heap s) te ys \<Longrightarrow> a \<notin> set ys \<Longrightarrow> Timer_Cancel_loop a te pe s = Some s"
proof (induction ys arbitrary: te pe)
  case (Cons y ys)
  then show ?case by (subst Timer_Cancel_loop.simps) simp
qed (simp add: Timer_Cancel_loop.simps)

lemma Timer_unlink_list:
  assumes "tm_list s (us @ a # vs)" and "pe = (if us = [] then None else Some (last us))"
  shows "\<exists>s'. Timer_unlink a pe s = Some s' \<and> tm_list s' (us @ vs) \<and> TM_running s' = TM_running s \<and>
    chain (TM_heap s') (fte_next (TM_heap s' a)) vs"
proof -
  have dist: "distinct (us @ a # vs)" using assms(1) by (rule tm_list_distinct)
  have rest: "chain (TM_heap s) (fte_next (TM_heap s a)) vs"
    using assms(1) chain_mid [of "TM_heap s" "TM_first s" us a vs] by (simp add: tm_list_def)
  show ?thesis
  proof (cases us rule: rev_cases)
    case Nil
    then have "TM_first s = Some a" using assms(1) by (simp add: tm_list_def)
    then show ?thesis using assms(2) Nil rest by (auto simp: Timer_unlink_def tm_list_def Let_def)
  next
    case (snoc ws w)
    have "TM_first s \<noteq> Some a" using assms(1) dist snoc by (cases ws) (auto simp: tm_list_def)
    moreover have "a \<noteq> w" "w \<notin> set vs" using dist snoc by auto
    moreover have "chain ((TM_heap s)(w := (TM_heap s w)\<lparr>fte_next := fte_next (TM_heap s a)\<rparr>)) (TM_first s) (ws @ w # vs)"
      using chain_skip [of "TM_heap s" "TM_first s" ws w a vs] assms(1) snoc by (simp add: tm_list_def)
    ultimately show ?thesis using assms(2) snoc rest by (auto simp: Timer_unlink_def tm_list_def Let_def)
  qed
qed

lemma Timer_Cancel_found:
  assumes "tm_list s (us @ ws @ a # vs)" and "pe = (if us = [] then None else Some (last us))"
  shows "\<exists>s'. Timer_Cancel_loop a (Some (hd (ws @ [a]))) pe s = Some s' \<and> tm_list s' (us @ ws @ vs) \<and> TM_running s' = TM_running s"
  using assms
proof (induction ws arbitrary: us pe)
  case Nil
  then obtain s' where s': "Timer_unlink a pe s = Some s'" "tm_list s' (us @ vs)" "TM_running s' = TM_running s"
      "chain (TM_heap s') (fte_next (TM_heap s' a)) vs"
    using Timer_unlink_list [of s us a vs pe] by auto
  have "a \<notin> set vs" using Nil.prems(1) chain_distinct [of "TM_heap s" "TM_first s" "us @ a # vs"] by (simp add: tm_list_def)
  then show ?case using s' Timer_Cancel_absent [OF s'(4)] by (subst Timer_Cancel_loop.simps) simp
next
  case (Cons w ws)
  have "distinct (us @ w # ws @ a # vs)" using tm_list_distinct [OF Cons.prems(1)] by simp
  moreover have "chain (TM_heap s) (Some w) (w # ws @ a # vs)"
    using Cons.prems(1) chain_mid [of "TM_heap s" "TM_first s" us w "ws @ a # vs"] by (simp add: tm_list_def)
  then have "fte_next (TM_heap s w) = Some (hd (ws @ [a]))" by (cases ws) auto
  ultimately show ?case using Cons.IH [of "us @ [w]"] Cons.prems by (subst Timer_Cancel_loop.simps) simp
qed

lemma Timer_Cancel_list:
  assumes "tm_list s xs"
  shows "\<exists>s'. Timer_Cancel a s = Some (CONTROLLER_OK, s') \<and> tm_list s' (removeAll a xs) \<and> TM_running s' = TM_running s"
proof (cases "a \<in> set xs")
  case False
  then show ?thesis using assms by (simp add: Timer_Cancel_def tm_list_def Timer_Cancel_absent removeAll_id)
next
  case True
  then obtain us vs where xs: "xs = us @ a # vs" by (auto simp: in_set_conv_decomp)
  then have "distinct (us @ a # vs)" using tm_list_distinct [OF assms] by simp
  then have "removeAll a xs = us @ vs" using xs by (simp add: removeAll_id)
  moreover have "TM_first s = Some (hd (us @ [a]))" using assms xs by (cases us) (auto simp: tm_list_def)
  ultimately show ?thesis using Timer_Cancel_found [of s "[]" us a vs None] assms xs by (auto simp: Timer_Cancel_def)
qed

subsection \<open>The contract of the timer service\<close>

fun ms_exec :: "timer_op \<Rightarrow> 'a timer_state_scheme \<Rightarrow> 'a timer_state_scheme option" where
  "ms_exec (Set_timer a) s = Some (snd (Timer_Set a s))"
| "ms_exec (Cancel_timer a) s = map_option snd (Timer_Cancel a s)"

interpretation ms: timer_queue ms_exec tm_list TM_running
proof unfold_locales
  fix s :: "'a timer_state_scheme" and xs a
  assume s: "tm_list s xs" "TM_running s"
  show "\<exists>s'. ms_exec (Set_timer a) s = Some s' \<and> tm_list s' (a # xs) \<and> TM_running s'" if "a \<notin> set xs"
    using Timer_Set_list [OF s that] by simp
  show "\<exists>s'. ms_exec (Cancel_timer a) s = Some s' \<and> tm_list s' (removeAll a xs) \<and> TM_running s'"
    using Timer_Cancel_list [OF s(1), of a] s(2) by fastforce
next
  fix s :: "'a timer_state_scheme" and xs ys
  show "tm_list s xs \<Longrightarrow> tm_list s ys \<Longrightarrow> xs = ys" by (auto simp: tm_list_def intro: chain_unique)
qed

subsection \<open>The interrupt over repeating entries\<close>

definition ran_out :: "int \<Rightarrow> TimerEntry \<Rightarrow> bool" where
  "ran_out elapsed e \<longleftrightarrow> fte_timeCurrent e \<le> elapsed"

definition tm_charge :: "int \<Rightarrow> TimerEntry \<Rightarrow> TimerEntry" where
  "tm_charge elapsed e =
     e\<lparr>fte_timeCurrent := fte_timeCurrent e - elapsed + (if ran_out elapsed e then fte_timeInitial e else 0)\<rparr>"

fun tm_fired :: "int \<Rightarrow> (nat \<Rightarrow> int) \<Rightarrow> nat \<Rightarrow> nat list \<Rightarrow> (nat \<Rightarrow> TimerEntry) \<Rightarrow> (nat \<times> int) list" where
  "tm_fired tref cv k [] h = []"
| "tm_fired tref cv k (a # as) h =
     (if ran_out (tref + cv k) (h a)
      then (case fte_callback (h a) of None \<Rightarrow> [] | Some f \<Rightarrow> [(f, sint (fte_id (h a)))]) else [])
     @ tm_fired tref cv (Suc k) as h"

definition tm_part where
  "tm_part s = (TM_heap s, TM_first s, TM_next s, TM_previous s, TM_nextTime s, TM_servicing s, TM_running s, TC0_RC s)"

definition ms_rest :: "'a timer_state_scheme \<Rightarrow> fasttimer_state \<times> 'a" where
  "ms_rest s = (fasttimer_state.truncate s, timer_state.more s)"

text \<open>Callbacks that leave the timer alone, seen through an observation of the rest of the state.\<close>

definition ms_quiet :: "(nat \<Rightarrow> int \<Rightarrow> 'a timer_state_scheme \<Rightarrow> 'a timer_state_scheme) \<Rightarrow> bool" where
  "ms_quiet cb \<longleftrightarrow> (\<forall>f i s. tm_part (cb f i s) = tm_part s)"

definition ms_observes ::
  "('a timer_state_scheme \<Rightarrow> 'o) \<Rightarrow> (nat \<Rightarrow> int \<Rightarrow> 'o \<Rightarrow> 'o) \<Rightarrow> (nat \<Rightarrow> int \<Rightarrow> 'a timer_state_scheme \<Rightarrow> 'a timer_state_scheme) \<Rightarrow> bool" where
  "ms_observes obs step cb \<longleftrightarrow>
     (\<forall>s t. ms_rest s = ms_rest t \<longrightarrow> obs s = obs t) \<and> (\<forall>f i s. obs (cb f i s) = step f i (obs s))"

lemma ms_rest_fields [simp]:
  "ms_rest (upd_timer a f s) = ms_rest s" "ms_rest (s\<lparr>TM_next := x\<rparr>) = ms_rest s" "ms_rest (s\<lparr>TM_previous := x\<rparr>) = ms_rest s"
  "ms_rest (s\<lparr>TM_nextTime := t\<rparr>) = ms_rest s" "ms_rest (s\<lparr>TM_servicing := b\<rparr>) = ms_rest s" "ms_rest (s\<lparr>TM_running := b\<rparr>) = ms_rest s"
  "ms_rest (s\<lparr>TM_first := x\<rparr>) = ms_rest s" "ms_rest (TC_RC t s) = ms_rest s" "ms_rest (s\<lparr>TC0_clock := b\<rparr>) = ms_rest s"
  by (simp_all add: ms_rest_def upd_timer_def TC_RC_def fasttimer_state.truncate_def)

definition tm_call where
  "tm_call cb a s = (case fte_callback (TM_heap s a) of None \<Rightarrow> s | Some f \<Rightarrow> cb f (sint (fte_id (TM_heap s a))) s)"

lemma tm_call_fields [simp]:
  assumes "ms_quiet cb"
  shows "TM_heap (tm_call cb a s) = TM_heap s" "TM_first (tm_call cb a s) = TM_first s" "TM_next (tm_call cb a s) = TM_next s"
    "TM_previous (tm_call cb a s) = TM_previous s" "TM_nextTime (tm_call cb a s) = TM_nextTime s" "TC0_RC (tm_call cb a s) = TC0_RC s"
    "TM_running (tm_call cb a s) = TM_running s"
  using assms by (auto simp: tm_call_def ms_quiet_def tm_part_def split: option.splits)

lemma ms_observesD:
  assumes "ms_observes obs step cb"
  shows "ms_rest s = ms_rest t \<Longrightarrow> obs s = obs t" and "obs (cb f i s) = step f i (obs s)"
  using assms unfolding ms_observes_def by blast+

lemma tm_call_obs: "ms_observes obs step cb \<Longrightarrow>
    obs (tm_call cb a s) = fold (\<lambda>(f, i). step f i) (case fte_callback (TM_heap s a) of None \<Rightarrow> [] | Some f \<Rightarrow> [(f, sint (fte_id (TM_heap s a)))]) (obs s)"
  using ms_observesD(2) [of obs step cb] by (simp add: tm_call_def split: option.splits)

lemma tm_charge_fields [simp]:
  "fte_next (tm_charge el e) = fte_next e" "fte_repeat (tm_charge el e) = fte_repeat e" "fte_callback (tm_charge el e) = fte_callback e"
  "fte_id (tm_charge el e) = fte_id e" "fte_timeInitial (tm_charge el e) = fte_timeInitial e"
  by (simp_all add: tm_charge_def)

lemma Timer_entry_repeat:
  fixes s :: "'a timer_state_scheme" and v :: int
  assumes "fte_repeat (TM_heap s a)" and "ms_quiet cb" and "ms_observes obs step cb"
  defines "el \<equiv> TC0_RC s + v" and "s' \<equiv> Timer_Isr_entry cb v a s"
  shows "TM_heap s' = (TM_heap s)(a := tm_charge el (TM_heap s a))" "TM_first s' = TM_first s" "TM_next s' = fte_next (TM_heap s a)"
    "TC0_RC s' = TC0_RC s" "obs s' = fold (\<lambda>(f, i). step f i) (tm_fired el (\<lambda>_. 0) 0 [a] (TM_heap s)) (obs s)"
    "TM_previous s' = (if ran_out el (TM_heap s a) then TM_previous s else Some a)"
    "TM_nextTime s' = (if ran_out el (TM_heap s a) \<and>
        (case TM_previous s of None \<Rightarrow> TM_first s = Some a | Some p \<Rightarrow> fte_next (TM_heap s p) = Some a) \<and>
        (TM_nextTime s = - 1 \<or> fte_timeCurrent (tm_charge el (TM_heap s a)) < TM_nextTime s)
      then fte_timeCurrent (tm_charge el (TM_heap s a)) else TM_nextTime s)"
proof -
  let ?s1 = "upd_timer a (\<lambda>e. e\<lparr>fte_timeCurrent := fte_timeCurrent e - el\<rparr>) (s\<lparr>TM_next := fte_next (TM_heap s a)\<rparr>)"
  let ?s2 = "upd_timer a (\<lambda>e. e\<lparr>fte_timeCurrent := fte_timeCurrent e + fte_timeInitial e\<rparr>) ?s1"
  let ?s3 = "tm_call cb a ?s2" and ?t = "fte_timeCurrent (tm_charge el (TM_heap s a))"
  let ?on = "case TM_previous s of None \<Rightarrow> TM_first s = Some a | Some p \<Rightarrow> fte_next (TM_heap s p) = Some a"
  have heap: "TM_heap ?s3 = (TM_heap s)(a := tm_charge el (TM_heap s a))" if "ran_out el (TM_heap s a)"
    using that assms(2) by (simp add: tm_charge_def)
  have heap1: "TM_heap ?s1 = (TM_heap s)(a := tm_charge el (TM_heap s a))" if "\<not> ran_out el (TM_heap s a)"
    using that by (simp add: tm_charge_def)
  have on: "(case TM_previous ?s3 of None \<Rightarrow> TM_first ?s3 = Some a | Some p \<Rightarrow> fte_next (TM_heap ?s3 p) = Some a) = ?on"
    using assms(2) by (auto split: option.splits)
  have entry: "Timer_Isr_entry cb v a s = (if ran_out el (TM_heap s a) then
      (if (case TM_previous ?s3 of None \<Rightarrow> TM_first ?s3 = Some a | Some p \<Rightarrow> fte_next (TM_heap ?s3 p) = Some a) \<and>
          (TM_nextTime ?s3 = - 1 \<or> fte_timeCurrent (TM_heap ?s3 a) < TM_nextTime ?s3)
       then ?s3\<lparr>TM_nextTime := fte_timeCurrent (TM_heap ?s3 a)\<rparr> else ?s3) else ?s1\<lparr>TM_previous := Some a\<rparr>)"
    using assms(1) unfolding el_def ran_out_def tm_call_def by (simp add: Timer_Isr_entry_def Timer_Isr_expire_def Let_def)
  have s': "s' = (if ran_out el (TM_heap s a) then
      (if ?on \<and> (TM_nextTime ?s3 = - 1 \<or> ?t < TM_nextTime ?s3) then ?s3\<lparr>TM_nextTime := ?t\<rparr> else ?s3) else ?s1\<lparr>TM_previous := Some a\<rparr>)"
    unfolding s'_def entry on by (simp only: heap fun_upd_same cong: if_cong)
  note obs = ms_observesD(1) [OF assms(3)]
  have "obs ?s2 = obs s" "obs (?s1\<lparr>TM_previous := Some a\<rparr>) = obs s" "obs (?s3\<lparr>TM_nextTime := ?t\<rparr>) = obs ?s3"
    by (rule obs, simp)+
  note obs = this
  show "TM_heap s' = (TM_heap s)(a := tm_charge el (TM_heap s a))" using s' heap heap1 by simp
  show "TM_first s' = TM_first s" "TM_next s' = fte_next (TM_heap s a)" "TC0_RC s' = TC0_RC s"
    "TM_previous s' = (if ran_out el (TM_heap s a) then TM_previous s else Some a)"
    using s' assms(2) by simp_all
  show "TM_nextTime s' = (if ran_out el (TM_heap s a) \<and> ?on \<and> (TM_nextTime s = - 1 \<or> ?t < TM_nextTime s) then ?t else TM_nextTime s)"
    using s' assms(2) by (cases "ran_out el (TM_heap s a)"; cases ?on) auto
  show "obs s' = fold (\<lambda>(f, i). step f i) (tm_fired el (\<lambda>_. 0) 0 [a] (TM_heap s)) (obs s)"
  proof (cases "ran_out el (TM_heap s a)")
    case True
    have "obs s' = obs ?s3" using s' obs(3) True by simp
    then show ?thesis using True obs(1) tm_call_obs [OF assms(3), of a ?s2] by (cases "fte_callback (TM_heap s a)") simp_all
  next
    case False
    then show ?thesis using s' obs(2) False by simp
  qed
qed

lemma tm_fired_frame: "\<forall>x \<in> set as. h x = g x \<Longrightarrow> tm_fired tref cv k as h = tm_fired tref cv k as g"
  by (induction as arbitrary: k) (auto split: option.split)

lemma Timer_loop_repeat:
  fixes s :: "'a timer_state_scheme"
  assumes "chain (TM_heap s) te as" and "\<forall>a \<in> set as. fte_repeat (TM_heap s a)" and "ms_quiet cb" and "ms_observes obs step cb"
  shows "\<exists>s'. Timer_Isr_loop cb cv k te s = Some (k + length as, s') \<and> TM_first s' = TM_first s \<and>
    (\<forall>j < length as. TM_heap s' (as ! j) = tm_charge (TC0_RC s + cv (k + j)) (TM_heap s (as ! j))) \<and>
    (\<forall>x. x \<notin> set as \<longrightarrow> TM_heap s' x = TM_heap s x) \<and>
    obs s' = fold (\<lambda>(f, i). step f i) (tm_fired (TC0_RC s) cv k as (TM_heap s)) (obs s) \<and>
    ((\<forall>j < length as. \<not> ran_out (TC0_RC s + cv (k + j)) (TM_heap s (as ! j))) \<longrightarrow> TM_nextTime s' = TM_nextTime s)"
  using assms(1,2)
proof (induction as arbitrary: te s k)
  case Nil
  then show ?case by (simp add: Timer_Isr_loop.simps)
next
  case (Cons a as)
  define s1 where "s1 = Timer_Isr_entry cb (cv k) a s"
  have "fte_repeat (TM_heap s a)" using Cons.prems(2) by simp
  note e = Timer_entry_repeat [OF this assms(3,4), of "cv k", folded s1_def]
  have a: "a \<notin> set as" "te = Some a" using chain_distinct [OF Cons.prems(1)] Cons.prems(1) by simp_all
  have "chain (TM_heap s1) (TM_next s1) as" "\<forall>b \<in> set as. fte_repeat (TM_heap s1 b)"
    using Cons.prems a by (simp_all add: e(1,3))
  from Cons.IH [OF this, of "Suc k"] obtain s' where s':
      "Timer_Isr_loop cb cv (Suc k) (TM_next s1) s1 = Some (Suc k + length as, s')" "TM_first s' = TM_first s1"
      "\<forall>j < length as. TM_heap s' (as ! j) = tm_charge (TC0_RC s1 + cv (Suc k + j)) (TM_heap s1 (as ! j))"
      "\<forall>x. x \<notin> set as \<longrightarrow> TM_heap s' x = TM_heap s1 x"
      "obs s' = fold (\<lambda>(f, i). step f i) (tm_fired (TC0_RC s1) cv (Suc k) as (TM_heap s1)) (obs s1)"
      "(\<forall>j < length as. \<not> ran_out (TC0_RC s1 + cv (Suc k + j)) (TM_heap s1 (as ! j))) \<longrightarrow> TM_nextTime s' = TM_nextTime s1"
    by blast
  have same: "TM_heap s1 (as ! j) = TM_heap s (as ! j)" if "j < length as" for j using that a(1) e(1) by auto
  have "Timer_Isr_loop cb cv k te s = Some (k + length (a # as), s')"
    using s'(1) a(2) by (subst Timer_Isr_loop.simps) (simp add: s1_def [symmetric] Let_def)
  moreover have "TM_heap s' ((a # as) ! j) = tm_charge (TC0_RC s + cv (k + j)) (TM_heap s ((a # as) ! j))" if "j < length (a # as)" for j
    using that s'(3,4) a(1) e(1,4) same by (cases j) simp_all
  moreover have "TM_heap s' x = TM_heap s x" if "x \<notin> set (a # as)" for x using that s'(4) e(1) by simp
  moreover have "tm_fired (TC0_RC s1) cv (Suc k) as (TM_heap s1) = tm_fired (TC0_RC s) cv (Suc k) as (TM_heap s)"
    unfolding e(4) by (rule tm_fired_frame) (use a(1) e(1) in auto)
  then have "obs s' = fold (\<lambda>(f, i). step f i) (tm_fired (TC0_RC s) cv k (a # as) (TM_heap s)) (obs s)"
    using s'(5) e(5) by simp
  moreover have "TM_nextTime s' = TM_nextTime s" if "\<forall>j < length (a # as). \<not> ran_out (TC0_RC s + cv (k + j)) (TM_heap s ((a # as) ! j))"
  proof -
    have "\<not> ran_out (TC0_RC s + cv k) (TM_heap s a)" using that by force
    moreover have "\<forall>j < length as. \<not> ran_out (TC0_RC s + cv (Suc k + j)) (TM_heap s (as ! j))" using that by force
    ultimately show ?thesis using s'(6) e(4,7) same by simp
  qed
  ultimately show ?case using s'(2) e(2) by auto
qed

lemma program_fields [simp]:
  "TM_heap (Timer_Isr_program c s) = TM_heap s" "TM_first (Timer_Isr_program c s) = TM_first s" "ms_rest (Timer_Isr_program c s) = ms_rest s"
  by (simp_all add: Timer_Isr_program_def Let_def)

lemma program_target: "TM_first s \<noteq> None \<Longrightarrow> TC0_RC (Timer_Isr_program c s) = take_bit 16 (min 0xFFFF (TM_nextTime s + c))"
  by (simp add: Timer_Isr_program_def Let_def min_def)

text \<open>What the interrupt does before and after its loop.\<close>

definition isr_entered :: "int \<Rightarrow> 'a timer_state_scheme \<Rightarrow> 'a timer_state_scheme" where
  "isr_entered jitter s =
     s\<lparr>TM_servicing := True, TM_count := TM_count s + 1, TM_jitterTotal := c_int (TM_jitterTotal s + jitter),
       TM_jitterMax := max (TM_jitterMax s) jitter, TM_jitterMaxAllDay := max (TM_jitterMaxAllDay s) jitter,
       TM_next := None, TM_previous := None, TM_nextTime := - 1\<rparr>"

lemma isr_entered_fields [simp]:
  "TM_heap (isr_entered v s) = TM_heap s" "TM_first (isr_entered v s) = TM_first s" "TM_previous (isr_entered v s) = None"
  "TM_nextTime (isr_entered v s) = - 1" "TC0_RC (isr_entered v s) = TC0_RC s" "ms_rest (isr_entered v s) = ms_rest s"
  by (simp_all add: isr_entered_def ms_rest_def fasttimer_state.truncate_def)

lemma Timer_Isr_run:
  "Timer_Isr_loop cb cv 1 (TM_first s) (isr_entered (cv 0) s) = Some (k, t) \<Longrightarrow>
    Timer_Isr cb True cv s = Some ((Timer_Isr_program (cv k) t)\<lparr>TM_servicing := False\<rparr>)"
  by (simp add: Timer_Isr_def Let_def isr_entered_def)

text \<open>
  C25: When all running entries repeat and their callbacks leave the timer alone, the interrupt keeps the list, charges every entry for the elapsed time, reloads those that
  ran out and calls exactly their callbacks, in order. With a single entry, which ran out, it programs the time that is left of the next period; but when no
  entry ran out it programs the count just passed, whatever time the entries have left.
\<close>
theorem timer_isr_repeating:
  assumes "tm_list s xs" and "xs \<noteq> []" and "\<forall>a \<in> set xs. fte_repeat (TM_heap s a)" and "ms_quiet cb" and "ms_observes obs step cb"
  shows "\<exists>s'. Timer_Isr cb True cv s = Some s' \<and> tm_list s' xs \<and> \<not> TM_servicing s' \<and>
    (\<forall>j < length xs. TM_heap s' (xs ! j) = tm_charge (TC0_RC s + cv (Suc j)) (TM_heap s (xs ! j))) \<and>
    obs s' = fold (\<lambda>(f, i). step f i) (tm_fired (TC0_RC s) cv 1 xs (TM_heap s)) (obs s) \<and>
    (\<forall>a. xs = [a] \<and> ran_out (TC0_RC s + cv 1) (TM_heap s a) \<longrightarrow>
       TC0_RC s' = take_bit 16 (min 0xFFFF (fte_timeCurrent (TM_heap s' a) + cv 2))) \<and>
    ((\<forall>j < length xs. \<not> ran_out (TC0_RC s + cv (Suc j)) (TM_heap s (xs ! j))) \<longrightarrow>
       TC0_RC s' = take_bit 16 (min 0xFFFF (cv (Suc (length xs)) - 1)))"
proof -
  let ?s = "isr_entered (cv 0) s"
  have chain: "chain (TM_heap s) (TM_first s) xs" using assms(1) by (simp add: tm_list_def)
  obtain t where t: "Timer_Isr_loop cb cv 1 (TM_first s) ?s = Some (1 + length xs, t)" "TM_first t = TM_first s"
      "\<forall>j < length xs. TM_heap t (xs ! j) = tm_charge (TC0_RC s + cv (1 + j)) (TM_heap s (xs ! j))"
      "\<forall>x. x \<notin> set xs \<longrightarrow> TM_heap t x = TM_heap s x"
      "obs t = fold (\<lambda>(f, i). step f i) (tm_fired (TC0_RC s) cv 1 xs (TM_heap s)) (obs ?s)"
      "(\<forall>j < length xs. \<not> ran_out (TC0_RC s + cv (1 + j)) (TM_heap s (xs ! j))) \<longrightarrow> TM_nextTime t = - 1"
    using Timer_loop_repeat [of ?s "TM_first s" xs cb obs step cv 1] chain assms(3-5) by auto
  define s' where "s' = (Timer_Isr_program (cv (Suc (length xs))) t)\<lparr>TM_servicing := False\<rparr>"
  have run: "Timer_Isr cb True cv s = Some s'" using Timer_Isr_run [OF t(1)] by (simp add: s'_def)
  have obs: "obs s' = obs t" "obs ?s = obs s" by (rule ms_observesD(1) [OF assms(5)], simp add: s'_def)+
  have "fte_next (TM_heap t x) = fte_next (TM_heap s x)" for x
    using t(3,4) by (cases "x \<in> set xs") (auto simp: in_set_conv_nth)
  then have list: "tm_list s' xs" using chain t(2) chain_frame [of xs "TM_heap t" "TM_heap s"] by (simp add: tm_list_def s'_def)
  have first: "TM_first t \<noteq> None" using chain t(2) assms(2) by (cases xs) auto
  have rc: "TC0_RC s' = take_bit 16 (min 0xFFFF (TM_nextTime t + cv (Suc (length xs))))" using program_target [OF first] by (simp add: s'_def)
  have one: "TC0_RC s' = take_bit 16 (min 0xFFFF (fte_timeCurrent (TM_heap s' a) + cv 2))"
    if a: "xs = [a]" "ran_out (TC0_RC s + cv 1) (TM_heap s a)" for a
  proof -
    have "fte_repeat (TM_heap ?s a)" "fte_next (TM_heap s a) = None" "TM_first s = Some a" using assms(3) chain a(1) by simp_all
    note e = Timer_entry_repeat [OF this(1) assms(4,5), of "cv 1"] and entry = this
    have "t = Timer_Isr_entry cb (cv 1) a ?s"
      using t(1) a(1) entry(2,3) e(3) by (subst (asm) Timer_Isr_loop.simps) (simp add: Let_def Timer_Isr_loop.simps)
    then have "TM_nextTime t = fte_timeCurrent (TM_heap t a)" using e(1,7) a(2) entry(3) by simp
    then show ?thesis using rc a(1) by (simp add: s'_def numeral_2_eq_2)
  qed
  show ?thesis using run list t(3,5,6) obs rc one by (intro exI [of _ s']) (auto simp: s'_def)
qed

text \<open>A timer with one entry, which runs out every ten milliseconds, and an entry that is not repeated.\<close>

definition ms_boot :: timer_state where
  "ms_boot = fasttimer_state.extend ft_boot
     \<lparr>TM_users = 1, TM_count = 0, TM_jitterTotal = 0, TM_jitterMax = 0, TM_jitterMaxAllDay = 0, TM_running = True, TM_servicing = False,
      TM_nextTime = 0, TM_first = Some 1, TM_next = None, TM_previous = None,
      TM_heap = (\<lambda>_. idle_entry)(1 := \<lparr>fte_callback = Some 7, fte_id = 0, fte_timeCurrent = 480, fte_timeInitial = 480, fte_repeat = True, fte_next = None\<rparr>),
      TC0_RC = 480, TC0_clock = True\<rparr>"

definition ms_count :: "nat \<Rightarrow> int \<Rightarrow> timer_state \<Rightarrow> timer_state" where
  "ms_count f i s = s\<lparr>PMC_PCSR := PMC_PCSR s + 1\<rparr>"

lemma ms_count_quiet: "ms_quiet ms_count" "ms_observes PMC_PCSR (\<lambda>f i n. n + 1) ms_count"
  by (auto simp: ms_quiet_def tm_part_def ms_observes_def ms_rest_def fasttimer_state.truncate_def ms_count_def)

lemma timer_isr_repeating_witness:
  "\<exists>s'. Timer_Isr ms_count True (\<lambda>_. 0) ms_boot = Some s' \<and> tm_list s' [1] \<and> PMC_PCSR s' = PMC_PCSR ms_boot + 1 \<and> TC0_RC s' = 480"
proof -
  have boot: "TM_heap ms_boot 1 = \<lparr>fte_callback = Some 7, fte_id = 0, fte_timeCurrent = 480, fte_timeInitial = 480, fte_repeat = True, fte_next = None\<rparr>"
      "TM_first ms_boot = Some 1" "TC0_RC ms_boot = 480"
    by (simp_all add: ms_boot_def fasttimer_state.defs)
  have l: "tm_list ms_boot [1]" "\<forall>a \<in> set [1]. fte_repeat (TM_heap ms_boot a)" "[1] \<noteq> ([] :: nat list)"
    by (simp_all add: tm_list_def boot del: One_nat_def)
  obtain s' where s': "Timer_Isr ms_count True (\<lambda>_. 0) ms_boot = Some s'" "tm_list s' [1]"
      "\<forall>j < length [1 :: nat]. TM_heap s' ([1] ! j) = tm_charge (TC0_RC ms_boot + 0) (TM_heap ms_boot ([1] ! j))"
      "PMC_PCSR s' = fold (\<lambda>(f, i) n. n + 1) (tm_fired (TC0_RC ms_boot) (\<lambda>_. 0) 1 [1] (TM_heap ms_boot)) (PMC_PCSR ms_boot)"
      "\<forall>a. [1] = [a] \<and> ran_out (TC0_RC ms_boot + 0) (TM_heap ms_boot a) \<longrightarrow>
         TC0_RC s' = take_bit 16 (min 0xFFFF (fte_timeCurrent (TM_heap s' a) + 0))"
    using timer_isr_repeating [OF l(1,3,2) ms_count_quiet, of "\<lambda>_. 0"] by blast
  have ran: "ran_out (TC0_RC ms_boot + 0) (TM_heap ms_boot 1)" using boot by (simp add: ran_out_def)
  have "fte_timeCurrent (TM_heap s' 1) = 480" using s'(3) ran boot by (simp add: tm_charge_def)
  moreover have "PMC_PCSR s' = PMC_PCSR ms_boot + 1" using s'(4) ran boot by (simp add: ran_out_def)
  ultimately show ?thesis using s'(1,2,5) ran by (auto simp: take_bit_int_eq_self)
qed

subsection \<open>An entry that is not repeated behind one that ran out\<close>

lemma Timer_entry_oneshot:
  fixes s :: "'a timer_state_scheme" and v :: int
  assumes "\<not> fte_repeat (TM_heap s a)" and "ran_out (TC0_RC s + v) (TM_heap s a)" and "TM_previous s = None" and "ms_quiet cb"
    and "fte_next (TM_heap s a) \<noteq> Some a"
  defines "s' \<equiv> Timer_Isr_entry cb v a s"
  shows "TM_first s' = fte_next (TM_heap s a)" "TM_next s' = fte_next (TM_heap s a)" "TM_previous s' = None" "TC0_RC s' = TC0_RC s"
    "x \<noteq> a \<Longrightarrow> TM_heap s' x = TM_heap s x"
proof -
  let ?s1 = "upd_timer a (\<lambda>e. e\<lparr>fte_timeCurrent := fte_timeCurrent e - (TC0_RC s + v)\<rparr>) (s\<lparr>TM_next := fte_next (TM_heap s a)\<rparr>)"
  have "s' = tm_call cb a (?s1\<lparr>TM_first := fte_next (TM_heap s a)\<rparr>)"
    using assms(1-5) unfolding s'_def by (simp add: Timer_Isr_entry_def Timer_Isr_expire_def Let_def ran_out_def tm_call_def [symmetric])
  then show "TM_first s' = fte_next (TM_heap s a)" "TM_next s' = fte_next (TM_heap s a)" "TM_previous s' = None" "TC0_RC s' = TC0_RC s"
    "x \<noteq> a \<Longrightarrow> TM_heap s' x = TM_heap s x"
    using assms(3,4) by simp_all
qed

text \<open>
  C32: When a repeating entry at the head of the list runs out in the same interrupt as the entry behind it, which is not repeated, the removal of the second takes
  the first out of the list as well, so it is never called again.
\<close>
theorem timer_isr_drops_repeating:
  fixes s :: "'a timer_state_scheme"
  assumes "tm_list s (a # b # xs)" and "ms_quiet cb" and "fte_repeat (TM_heap s a)" and "\<not> fte_repeat (TM_heap s b)"
    and "\<forall>x \<in> set xs. fte_repeat (TM_heap s x)"
    and "ran_out (TC0_RC s + cv 1) (TM_heap s a)" and "ran_out (TC0_RC s + cv 2) (TM_heap s b)"
  shows "\<exists>s'. Timer_Isr cb True cv s = Some s' \<and> tm_list s' xs \<and> a \<notin> set xs"
proof -
  let ?s = "isr_entered (cv 0) s"
  define s1 where "s1 = Timer_Isr_entry cb (cv 1) a ?s"
  define s2 where "s2 = Timer_Isr_entry cb (cv 2) b s1"
  have c: "TM_first s = Some a" "fte_next (TM_heap s a) = Some b" "chain (TM_heap s) (fte_next (TM_heap s b)) xs"
    using assms(1) by (simp_all add: tm_list_def)
  have d: "a \<noteq> b" "a \<notin> set xs" "b \<notin> set xs" using tm_list_distinct [OF assms(1)] by auto
  have obs: "ms_observes (\<lambda>_. ()) (\<lambda>_ _ _. ()) cb" by (simp add: ms_observes_def)
  have "fte_repeat (TM_heap ?s a)" using assms(3) by simp
  note e1 = Timer_entry_repeat [OF this assms(2) obs, of "cv 1", folded s1_def]
  have h1: "TM_heap s1 x = TM_heap s x" if "x \<noteq> a" for x using that e1(1) by simp
  have "fte_next (TM_heap s b) \<noteq> Some b" using c(3) d(3) by (cases xs) auto
  then have "\<not> fte_repeat (TM_heap s1 b)" "ran_out (TC0_RC s1 + cv 2) (TM_heap s1 b)" "TM_previous s1 = None"
      "fte_next (TM_heap s1 b) \<noteq> Some b"
    using assms(4,6,7) h1 [of b] d(1) e1(4,6) by simp_all
  note e2 = Timer_entry_oneshot [OF this(1-3) assms(2) this(4), folded s2_def]
  have h2: "TM_heap s2 x = TM_heap s x" if "x \<in> set xs" for x using that d h1 e2(5) by metis
  then have "chain (TM_heap s2) (TM_next s2) xs" "\<forall>x \<in> set xs. fte_repeat (TM_heap s2 x)"
    using c(3) e2(2) h1 [of b] d(1) assms(5) chain_frame [of xs "TM_heap s2" "TM_heap s"] by simp_all
  from Timer_loop_repeat [OF this assms(2) obs, of cv 3] obtain t where
    t: "Timer_Isr_loop cb cv 3 (TM_next s2) s2 = Some (3 + length xs, t)" "TM_first t = TM_first s2"
      "\<forall>j < length xs. TM_heap t (xs ! j) = tm_charge (TC0_RC s2 + cv (3 + j)) (TM_heap s2 (xs ! j))" by blast
  have "Timer_Isr_loop cb cv 1 (TM_first s) ?s = Timer_Isr_loop cb cv 2 (Some b) s1"
    using c(1,2) e1(3) unfolding s1_def by (subst Timer_Isr_loop.simps) (simp add: Let_def numeral_2_eq_2)
  also have "\<dots> = Timer_Isr_loop cb cv 3 (TM_next s2) s2"
    by (subst Timer_Isr_loop.simps) (simp add: Let_def s2_def numeral_3_eq_3 numeral_2_eq_2)
  finally have "Timer_Isr cb True cv s = Some ((Timer_Isr_program (cv (3 + length xs)) t)\<lparr>TM_servicing := False\<rparr>)"
    using t(1) by (intro Timer_Isr_run) simp
  moreover have "\<forall>x \<in> set xs. fte_next (TM_heap t x) = fte_next (TM_heap s x)" using t(3) h2 by (metis in_set_conv_nth tm_charge_fields(1))
  then have "chain (TM_heap t) (TM_first t) xs"
    using c(3) t(2) e2(1) h1 [of b] d(1) chain_frame [of xs "TM_heap t" "TM_heap s"] by simp
  ultimately show ?thesis using d(2) by (simp add: tm_list_def)
qed

lemma timer_isr_drops_repeating_witness:
  "\<exists>s'. Timer_Isr ms_count True (\<lambda>_. 0) (ms_boot\<lparr>TM_heap := (TM_heap ms_boot)(1 := (TM_heap ms_boot 1)\<lparr>fte_next := Some 2\<rparr>,
     2 := idle_entry\<lparr>fte_repeat := False\<rparr>)\<rparr>) = Some s' \<and> tm_list s' []"
proof -
  let ?s = "ms_boot\<lparr>TM_heap := (TM_heap ms_boot)(1 := (TM_heap ms_boot 1)\<lparr>fte_next := Some 2\<rparr>, 2 := idle_entry\<lparr>fte_repeat := False\<rparr>)\<rparr>"
  have "TM_first ms_boot = Some 1" "TC0_RC ms_boot = 480" "fte_timeCurrent (TM_heap ms_boot 1) = 480" "fte_repeat (TM_heap ms_boot 1)"
    by (simp_all add: ms_boot_def fasttimer_state.defs)
  then have "tm_list ?s [1, 2]" "fte_repeat (TM_heap ?s 1)" "\<not> fte_repeat (TM_heap ?s 2)" "\<forall>x \<in> set []. fte_repeat (TM_heap ?s x)"
      "ran_out (TC0_RC ?s + 0) (TM_heap ?s 1)" "ran_out (TC0_RC ?s + 0) (TM_heap ?s 2)"
    by (simp_all add: tm_list_def ran_out_def idle_entry_def)
  from timer_isr_drops_repeating [OF this(1) ms_count_quiet(1) this(2-6)] show ?thesis by blast
qed

end
