(* ===== verification/PwmOut.thy ===== *)
theory PwmOut
  imports Pwm
begin

text \<open>
  The PWM outputs of the application board (\<^verbatim>\<open>src/firmware/libraries/pwmout/pwmout.c\<close>): each drives a pair of output lines, which the value of a line inverts,
  from one channel of the modulator.
\<close>

record pwmout_state = pwm_state +
  PwmOut_users :: "int list"

abbreviation (input) PWMOUT_COUNT :: int where "PWMOUT_COUNT \<equiv> 4"
abbreviation (input) bad_pwmout :: "int \<Rightarrow> bool" where "bad_pwmout index \<equiv> index < 0 \<or> index > 3"

text \<open>The two lines, A and B.\<close>

definition PwmOut_GetIos :: "int \<Rightarrow> int \<times> int" where
  "PwmOut_GetIos index =
     (if index = 0 then (24, 5) else if index = 1 then (6, 2) else if index = 2 then (57, 25)
      else if index = 3 then (26, 55) else (0, 0))"

definition pwmout_add :: "int \<Rightarrow> int \<Rightarrow> 'a pwmout_state_scheme \<Rightarrow> 'a pwmout_state_scheme" where
  "pwmout_add index d s = s\<lparr>PwmOut_users := (PwmOut_users s)[nat index := PwmOut_users s ! nat index + d]\<rparr>"

subsection \<open>Starting and stopping\<close>

text \<open>When the lines and the channel are had, \<^verbatim>\<open>PwmOut_SetDuty\<close> finds a user and goes straight to the channel.\<close>

definition pwmout_lines_on :: "int \<Rightarrow> 'a pwmout_state_scheme \<Rightarrow> 'a pwmout_state_scheme" where
  "pwmout_lines_on index s =
     (let (ioA, ioB) = PwmOut_GetIos index;
          s = snd (Io_SetPio ioA True s); s = snd (Io_SetPio ioB True s);
          s = snd (Io_SetValue ioA False s); s = snd (Io_SetValue ioB False s);
          s = snd (Io_SetDirection ioA True s); s = snd (Io_SetDirection ioB True s);
          s = snd (Pwm_Set index 0 s)
      in snd (Io_SetValue ioA True s))"

definition PwmOut_Start :: "int \<Rightarrow> (status, 'a pwmout_state_scheme) op" where
  "PwmOut_Start index s =
     (if bad_pwmout index then Some (CONTROLLER_ERROR_ILLEGAL_INDEX, s)
      else
        let first = PwmOut_users s ! nat index = 0; s = pwmout_add index 1 s; (ioA, ioB) = PwmOut_GetIos index
        in if \<not> first then Some (CONTROLLER_OK, s)
        else do {
          (status, s) \<leftarrow> Io_Start ioA True s;
          if status \<noteq> CONTROLLER_OK then Some (status, pwmout_add index (- 1) s)
          else do {
            (status, s) \<leftarrow> Io_Start ioB True s;
            if status \<noteq> CONTROLLER_OK then map_option (\<lambda>(_, s). (status, s)) (Io_Stop ioA (pwmout_add index (- 1) s))
            else do {
              (status, s) \<leftarrow> Pwm_Start index s;
              if status \<noteq> CONTROLLER_OK then
                do { (_, s) \<leftarrow> Io_Stop ioA (pwmout_add index (- 1) s); (_, s) \<leftarrow> Io_Stop ioB s; Some (status, s) }
              else Some (CONTROLLER_OK, pwmout_lines_on index s)
            }
          }
        })"

definition PwmOut_Stop :: "int \<Rightarrow> (status, 'a pwmout_state_scheme) op" where
  "PwmOut_Stop index s =
     (if bad_pwmout index then Some (CONTROLLER_ERROR_ILLEGAL_INDEX, s)
      else if PwmOut_users s ! nat index \<le> 0 then Some (CONTROLLER_ERROR_NOT_LOCKED, s)
      else
        let s = pwmout_add index (- 1) s; (ioA, ioB) = PwmOut_GetIos index
        in if PwmOut_users s ! nat index = 0 then
             do {
               let s = snd (Io_SetValue ioA False s);
               let s = snd (Io_SetValue ioB False s);
               (_, s) \<leftarrow> Io_Stop ioA s;
               (_, s) \<leftarrow> Io_Stop ioB s;
               (_, s) \<leftarrow> Pwm_Stop index s;
               Some (CONTROLLER_OK, s)
             }
           else Some (CONTROLLER_OK, s))"

definition PwmOut_SetActive :: "int \<Rightarrow> int \<Rightarrow> (status, 'a pwmout_state_scheme) op" where
  "PwmOut_SetActive index state s =
     (if index < 0 \<or> index \<ge> PWMOUT_COUNT then Some (CONTROLLER_ERROR_ILLEGAL_INDEX, s)
      else if state \<noteq> 0 then PwmOut_Start index s else PwmOut_Stop index s)"

definition PwmOut_GetActive :: "int \<Rightarrow> 'a pwmout_state_scheme \<Rightarrow> int" where
  "PwmOut_GetActive index s =
     (if index < 0 \<or> index \<ge> PWMOUT_COUNT then 0 else of_bool (PwmOut_users s ! nat index > 0))"

subsection \<open>Duty and inversion\<close>

text \<open>Every access starts the output first when it has no users.\<close>

definition pwmout_used :: "int \<Rightarrow> (status, 'a pwmout_state_scheme) op" where
  "pwmout_used index s = (if PwmOut_users s ! nat index < 1 then PwmOut_Start index s else Some (CONTROLLER_OK, s))"

definition pwmout_access ::
  "int \<Rightarrow> ('a pwmout_state_scheme \<Rightarrow> int \<times> 'a pwmout_state_scheme) \<Rightarrow> (int, 'a pwmout_state_scheme) op" where
  "pwmout_access index f s =
     (if bad_pwmout index then Some (CONTROLLER_ERROR_ILLEGAL_INDEX, s)
      else do {
        (status, s) \<leftarrow> pwmout_used index s;
        if status \<noteq> CONTROLLER_OK then Some (status, s) else Some (f s)
      })"

definition PwmOut_SetDuty :: "int \<Rightarrow> int \<Rightarrow> (status, 'a pwmout_state_scheme) op" where
  "PwmOut_SetDuty index duty = pwmout_access index (Pwm_Set index duty)"

definition PwmOut_GetDuty :: "int \<Rightarrow> (int, 'a pwmout_state_scheme) op" where
  "PwmOut_GetDuty index = pwmout_access index (\<lambda>s. (Pwm_Get index s, s))"

definition PwmOut_SetInvertA :: "int \<Rightarrow> u8 \<Rightarrow> (status, 'a pwmout_state_scheme) op" where
  "PwmOut_SetInvertA index invert =
     pwmout_access index (\<lambda>s. (CONTROLLER_OK, snd (Io_SetValue (fst (PwmOut_GetIos index)) (invert = 0) s)))"

definition PwmOut_GetInvertA :: "int \<Rightarrow> (int, 'a pwmout_state_scheme) op" where
  "PwmOut_GetInvertA index = pwmout_access index (\<lambda>s. (uint (Io_GetValue (fst (PwmOut_GetIos index)) s), s))"

definition PwmOut_SetInvertB :: "int \<Rightarrow> u8 \<Rightarrow> (status, 'a pwmout_state_scheme) op" where
  "PwmOut_SetInvertB index invert =
     pwmout_access index (\<lambda>s. (CONTROLLER_OK, snd (Io_SetValue (snd (PwmOut_GetIos index)) (invert = 0) s)))"

definition PwmOut_GetInvertB :: "int \<Rightarrow> (int, 'a pwmout_state_scheme) op" where
  "PwmOut_GetInvertB index = pwmout_access index (\<lambda>s. (uint (Io_GetValue (snd (PwmOut_GetIos index)) s), s))"

definition set_inverts :: "int \<Rightarrow> u8 \<Rightarrow> u8 \<Rightarrow> 'a pwmout_state_scheme \<Rightarrow> 'a pwmout_state_scheme" where
  "set_inverts index invertA invertB s =
     (let (ioA, ioB) = PwmOut_GetIos index; s = snd (Io_SetValue ioA (invertA = 0) s) in snd (Io_SetValue ioB (invertB = 0) s))"

definition PwmOut_SetInvert :: "int \<Rightarrow> u8 \<Rightarrow> u8 \<Rightarrow> (status, 'a pwmout_state_scheme) op" where
  "PwmOut_SetInvert index invertA invertB = pwmout_access index (\<lambda>s. (CONTROLLER_OK, set_inverts index invertA invertB s))"

definition PwmOut_SetAll :: "int \<Rightarrow> int \<Rightarrow> u8 \<Rightarrow> u8 \<Rightarrow> (status, 'a pwmout_state_scheme) op" where
  "PwmOut_SetAll index duty invertA invertB = pwmout_access index (\<lambda>s. Pwm_Set index duty (set_inverts index invertA invertB s))"

subsection \<open>Dividers and waveform\<close>

text \<open>Setting the value of divider B writes it, with the multiplexer bits of divider B, to divider A.\<close>

definition PwmOut_SetDividerAValue :: "int \<Rightarrow> 'a pwmout_state_scheme \<Rightarrow> status \<times> 'a pwmout_state_scheme" where
  "PwmOut_SetDividerAValue val s =
     (if val < 0 \<or> val > 255 then (CONTROLLER_ERROR_ILLEGAL_PARAMETER_VALUE, s)
      else Pwm_SetDividerA (sint ((Pwm_GetDividerA s AND 0xf00) OR word_of_int val)) s)"

definition PwmOut_GetDividerAValue :: "'a pwmout_state_scheme \<Rightarrow> int" where
  "PwmOut_GetDividerAValue s = uint (Pwm_GetDividerA s AND 0xff)"

definition PwmOut_SetDividerAMux :: "int \<Rightarrow> 'a pwmout_state_scheme \<Rightarrow> status \<times> 'a pwmout_state_scheme" where
  "PwmOut_SetDividerAMux mux s =
     (if mux < 0 \<or> mux > 10 then (CONTROLLER_ERROR_ILLEGAL_PARAMETER_VALUE, s)
      else Pwm_SetDividerA (sint ((Pwm_GetDividerA s AND 0xff) OR push_bit 8 (word_of_int mux))) s)"

definition PwmOut_GetDividerAMux :: "'a pwmout_state_scheme \<Rightarrow> int" where
  "PwmOut_GetDividerAMux s = uint (drop_bit 8 (Pwm_GetDividerA s) AND 0xf)"

definition PwmOut_SetDividerBValue :: "int \<Rightarrow> 'a pwmout_state_scheme \<Rightarrow> status \<times> 'a pwmout_state_scheme" where
  "PwmOut_SetDividerBValue val s =
     (if val < 0 \<or> val > 255 then (CONTROLLER_ERROR_ILLEGAL_PARAMETER_VALUE, s)
      else Pwm_SetDividerA (sint ((Pwm_GetDividerB s AND 0xf00) OR word_of_int val)) s)"

definition PwmOut_GetDividerBValue :: "'a pwmout_state_scheme \<Rightarrow> int" where
  "PwmOut_GetDividerBValue s = uint (Pwm_GetDividerB s AND 0xff)"

definition PwmOut_SetDividerBMux :: "int \<Rightarrow> 'a pwmout_state_scheme \<Rightarrow> status \<times> 'a pwmout_state_scheme" where
  "PwmOut_SetDividerBMux mux s =
     (if mux < 0 \<or> mux > 10 then (CONTROLLER_ERROR_ILLEGAL_PARAMETER_VALUE, s)
      else Pwm_SetDividerB (sint ((Pwm_GetDividerB s AND 0xff) OR push_bit 8 (word_of_int mux))) s)"

definition PwmOut_GetDividerBMux :: "'a pwmout_state_scheme \<Rightarrow> int" where
  "PwmOut_GetDividerBMux s = uint (drop_bit 8 (Pwm_GetDividerB s) AND 0xf)"

definition PwmOut_SetWaveformAlignment :: "int \<Rightarrow> int \<Rightarrow> 'a pwmout_state_scheme \<Rightarrow> status \<times> 'a pwmout_state_scheme" where
  "PwmOut_SetWaveformAlignment index val s =
     (if bad_pwmout index then (CONTROLLER_ERROR_ILLEGAL_INDEX, s)
      else if val > 1 \<or> val < 0 then (CONTROLLER_ERROR_ILLEGAL_PARAMETER_VALUE, s)
      else Pwm_SetWaveformProperties index ((Pwm_GetWaveformProperties index s AND 6) OR val) s)"

definition PwmOut_GetWaveformAlignment :: "int \<Rightarrow> 'a pwmout_state_scheme \<Rightarrow> int" where
  "PwmOut_GetWaveformAlignment index s =
     (let val = Pwm_GetWaveformProperties index s in if val < 0 then val else val AND 1)"

definition PwmOut_SetWaveformPolarity :: "int \<Rightarrow> int \<Rightarrow> 'a pwmout_state_scheme \<Rightarrow> status \<times> 'a pwmout_state_scheme" where
  "PwmOut_SetWaveformPolarity index val s =
     (if bad_pwmout index then (CONTROLLER_ERROR_ILLEGAL_INDEX, s)
      else if val > 1 \<or> val < 0 then (CONTROLLER_ERROR_ILLEGAL_PARAMETER_VALUE, s)
      else Pwm_SetWaveformProperties index ((Pwm_GetWaveformProperties index s AND 5) OR push_bit 1 val) s)"

definition PwmOut_GetWaveformPolarity :: "int \<Rightarrow> 'a pwmout_state_scheme \<Rightarrow> int" where
  "PwmOut_GetWaveformPolarity index s =
     (let val = Pwm_GetWaveformProperties index s in if val < 0 then val else val AND 2)"

subsection \<open>OSC properties\<close>

definition PwmOutOsc_PropertySet :: "int \<Rightarrow> int \<Rightarrow> int \<Rightarrow> (status, 'a pwmout_state_scheme) op" where
  "PwmOutOsc_PropertySet index property v s =
     do {
       (_, s) \<leftarrow> (if property = 0 then PwmOut_SetActive index v s
                  else if property = 1 then PwmOut_SetDuty index v s
                  else if property = 2 then PwmOut_SetInvertA index (word_of_int v) s
                  else if property = 3 then PwmOut_SetInvertB index (word_of_int v) s
                  else Some (if property = 4 then PwmOut_SetDividerAValue v s
                             else if property = 5 then PwmOut_SetDividerAMux v s
                             else if property = 6 then PwmOut_SetDividerBValue v s
                             else if property = 7 then PwmOut_SetDividerBMux v s
                             else if property = 8 then Pwm_SetClockSource index v s
                             else if property = 9 then PwmOut_SetWaveformAlignment index v s
                             else if property = 10 then PwmOut_SetWaveformPolarity index v s
                             else (CONTROLLER_OK, s)));
       Some (CONTROLLER_OK, s)
     }"

definition PwmOutOsc_PropertyGet :: "int \<Rightarrow> int \<Rightarrow> (int, 'a pwmout_state_scheme) op" where
  "PwmOutOsc_PropertyGet index property s =
     (if property = 1 then PwmOut_GetDuty index s
      else if property = 2 then PwmOut_GetInvertA index s
      else if property = 3 then PwmOut_GetInvertB index s
      else Some (if property = 0 then PwmOut_GetActive index s
                 else if property = 4 then PwmOut_GetDividerAValue s
                 else if property = 5 then PwmOut_GetDividerAMux s
                 else if property = 6 then PwmOut_GetDividerBValue s
                 else if property = 7 then PwmOut_GetDividerBMux s
                 else if property = 8 then Pwm_GetClockSource index s
                 else if property = 9 then PwmOut_GetWaveformAlignment index s
                 else if property = 10 then PwmOut_GetWaveformPolarity index s
                 else 0, s))"

subsection \<open>What an output holds\<close>

lemma pwmout_pair:
  assumes "0 \<le> i" and "i < 4" and "PwmOut_GetIos i = (a, b)"
  shows "io_line a" "io_line b" "a \<noteq> b" "\<forall>c. 0 \<le> c \<and> c < 4 \<longrightarrow> a \<noteq> 51 + c" "\<forall>c. 0 \<le> c \<and> c < 4 \<longrightarrow> b \<noteq> 51 + c"
proof -
  have "i \<in> {0, 1, 2, 3}" using assms(1,2) by auto
  then show "io_line a" "io_line b" "a \<noteq> b" "\<forall>c. 0 \<le> c \<and> c < 4 \<longrightarrow> a \<noteq> 51 + c" "\<forall>c. 0 \<le> c \<and> c < 4 \<longrightarrow> b \<noteq> 51 + c"
    using assms(3) by (auto simp: PwmOut_GetIos_def io_line_def)
qed

text \<open>The fields of the modulator and of everything above it that calls on lines leave alone.\<close>

definition pwm_part where
  "pwm_part s = (Pwm_users s, Pwm_channels s, PWMC_SR s, Pwm_duty s, pwm_state.more s)"

lemma pwm_part_lines [simp]:
  "pwm_part (snd (Io_SetValue l v s)) = pwm_part s" "pwm_part (snd (Io_SetPio l v s)) = pwm_part s"
  "pwm_part (snd (Io_SetDirection l v s)) = pwm_part s" "pwm_part (snd (Io_SetPeripheralA l s)) = pwm_part s"
  by (simp_all add: pwm_part_def pwm_setter_defs Io_SetDirection_def Io_SetOutput_def Io_SetInput_def set_line_def on_port_def)

lemma pwm_part_Io:
  "Io_Start l lk s = Some (r, t) \<Longrightarrow> pwm_part t = pwm_part s" "Io_Stop l s = Some (r, t) \<Longrightarrow> pwm_part t = pwm_part s"
  by (auto simp: pwm_part_def Io_Start_def Io_Stop_def pin_take_def pin_drop_def Io_Init_def Io_Deinit_def Let_def simp del: io_frame_pwm split: if_splits)

lemma pwm_inv_lines:
  assumes "pwm_part t = pwm_part s" and "io_inv t" and "\<forall>c. 0 \<le> c \<and> c < 4 \<longrightarrow> line_locked t (51 + c) = line_locked s (51 + c)" and "pwm_inv s"
  shows "pwm_inv t" "pwm_active t = pwm_active s"
proof -
  show act: "pwm_active t = pwm_active s" using assms(1) by (simp add: pwm_part_def pwm_active_def)
  have "line_locked t (Pwm_GetChannelIo c)" if "c \<in> pwm_active t" for c
    using that pwm_inv_line [OF assms(4), of c] assms(3) pwm_active_range [OF that] pwm_line(1) [of c] act by simp
  then show "pwm_inv t" using assms(1,2,4) act by (simp add: pwm_inv_def pwm_part_def)
qed

lemma Pwm_part_Start: "Pwm_Start c s = Some (r, t) \<Longrightarrow> Pwm_duty t = Pwm_duty s \<and> pwm_state.more t = pwm_state.more s"
proof -
  assume t: "Pwm_Start c s = Some (r, t)"
  show ?thesis
  proof (cases "c < 0 \<or> c \<ge> 4 \<or> mask1 (nat c) AND Pwm_channels s \<noteq> 0")
    case True
    then show ?thesis using t by (auto simp: Pwm_Start_def Let_def split: if_splits)
  next
    case False
    then obtain r1 s1 where s1: "Io_Start (Pwm_GetChannelIo c) True s = Some (r1, s1)"
      using t by (auto simp: Pwm_Start_def Let_def bind_eq_Some_conv split: if_splits)
    then have "Pwm_duty s1 = Pwm_duty s" "pwm_state.more s1 = pwm_state.more s" using pwm_part_Io(1) [OF s1] by (simp_all add: pwm_part_def)
    then show ?thesis using t s1 False
      by (auto simp: Pwm_Start_def Let_def PWMC_ENA_def PWMC_DIS_def Pwm_Init_def pwm_setter_defs set_line_def on_port_def split: if_splits)
  qed
qed

lemma Pwm_part_Stop: "Pwm_Stop c s = Some (r, t) \<Longrightarrow> Pwm_duty t = Pwm_duty s \<and> pwm_state.more t = pwm_state.more s"
proof -
  assume t: "Pwm_Stop c s = Some (r, t)"
  let ?x = "snd (Io_SetPio (Pwm_GetChannelIo c) True (snd (Io_SetValue (Pwm_GetChannelIo c) False s)))"
  show ?thesis
  proof (cases "Pwm_users s \<le> 0 \<or> c < 0 \<or> c \<ge> 4 \<or> mask1 (nat c) AND Pwm_channels s = 0")
    case True
    then show ?thesis using t by (auto simp: Pwm_Stop_def Let_def split: if_splits)
  next
    case False
    then obtain r1 s1 where s1: "Io_Stop (Pwm_GetChannelIo c) ?x = Some (r1, s1)"
      using t by (auto simp: Pwm_Stop_def Let_def bind_eq_Some_conv split: if_splits)
    have "pwm_part s1 = pwm_part s" using pwm_part_Io(2) [OF s1] by simp
    then have "Pwm_duty s1 = Pwm_duty s" "pwm_state.more s1 = pwm_state.more s" by (simp_all add: pwm_part_def)
    then show ?thesis using t s1 False
      by (auto simp: Pwm_Stop_def Let_def PWMC_DIS_def Pwm_Deinit_def split: if_splits)
  qed
qed

text \<open>An output in use by one user, its two lines and its channel held; and one that can be started.\<close>

definition pwmout_on :: "int \<Rightarrow> 'a pwmout_state_scheme \<Rightarrow> bool" where
  "pwmout_on i s \<longleftrightarrow> 0 \<le> i \<and> i < 4 \<and> pwm_inv s \<and> i \<in> pwm_active s \<and> length (PwmOut_users s) = 4 \<and> length (Pwm_duty s) = 4 \<and>
     PwmOut_users s ! nat i = 1 \<and> line_locked s (fst (PwmOut_GetIos i)) \<and> line_locked s (snd (PwmOut_GetIos i))"

definition pwmout_free :: "int \<Rightarrow> 'a pwmout_state_scheme \<Rightarrow> bool" where
  "pwmout_free i s \<longleftrightarrow> 0 \<le> i \<and> i < 4 \<and> pwm_inv s \<and> length (PwmOut_users s) = 4 \<and> length (Pwm_duty s) = 4 \<and>
     PwmOut_users s ! nat i = 0 \<and> line_users s (fst (PwmOut_GetIos i)) = 0 \<and> line_users s (snd (PwmOut_GetIos i)) = 0 \<and>
     line_users s (51 + i) = 0"

lemma free_unlocked: "io_inv s \<Longrightarrow> io_line l \<Longrightarrow> line_users s l = 0 \<Longrightarrow> \<not> line_locked s l"
  using io.locked_owner [of s l] by auto

lemma pwmout_field: "pwm_part t = pwm_part s \<Longrightarrow> PwmOut_users t = PwmOut_users s" "pwm_state.more t = pwm_state.more s \<Longrightarrow> PwmOut_users t = PwmOut_users s"
  "pwm_state.more t = pwm_state.more s \<Longrightarrow> pwmout_state.more t = pwmout_state.more s"
  for s t :: "'a pwmout_state_scheme"
  by (cases s; cases t; simp add: pwm_part_def)+

lemma pwmout_add_view [simp]:
  "line_users (pwmout_add i d s) = line_users s" "line_locked (pwmout_add i d s) = line_locked s" "io_inv (pwmout_add i d s) = io_inv s"
  "Pwm_duty (pwmout_add i d s) = Pwm_duty s" "pwm_active (pwmout_add i d s) = pwm_active s" "pwm_inv (pwmout_add i d s) = pwm_inv s"
  "pwmout_state.more (pwmout_add i d s) = pwmout_state.more s"
proof -
  show lines: "line_users (pwmout_add i d s) = line_users s" "line_locked (pwmout_add i d s) = line_locked s" "io_inv (pwmout_add i d s) = io_inv s"
    by (simp_all add: pwmout_add_def line_users_def line_locked_def io_inv_def fun_eq_iff)
  show act: "pwm_active (pwmout_add i d s) = pwm_active s" by (simp add: pwmout_add_def pwm_active_def)
  show "pwm_inv (pwmout_add i d s) = pwm_inv s"
    unfolding pwm_inv_def lines act by (simp add: pwmout_add_def)
qed (simp_all add: pwmout_add_def)

lemma take_line:
  fixes s :: "'a pwmout_state_scheme"
  assumes "pwm_inv s" and "io_line l" and "\<forall>c. 0 \<le> c \<and> c < 4 \<longrightarrow> l \<noteq> 51 + c" and "line_users s l = 0"
  shows "\<exists>t. Io_Start l True s = Some (CONTROLLER_OK, t) \<and> pwm_inv t \<and> pwm_active t = pwm_active s \<and> pwm_part t = pwm_part s \<and>
    line_users t = (line_users s)(l := 1) \<and> line_locked t = (line_locked s)(l := True)"
proof -
  have io: "io_inv s" using assms(1) by (simp add: pwm_inv_def)
  obtain t where t: "Io_Start l True s = Some (CONTROLLER_OK, t)" using io.start_free [OF io assms(2,4)] by blast
  note ok = io.start_okD [OF io assms(2) t]
  have part: "pwm_part t = pwm_part s" by (rule pwm_part_Io(1) [OF t])
  have lines: "\<forall>c. 0 \<le> c \<and> c < 4 \<longrightarrow> line_locked t (51 + c) = line_locked s (51 + c)" using ok(5) assms(3) by auto
  have "line_users t = (line_users s)(l := 1)" using ok(4) assms(4) by simp
  then show ?thesis using t ok(5) pwm_inv_lines [OF part ok(1) lines assms(1)] part by blast
qed

lemma give_line:
  fixes s :: "'a pwmout_state_scheme"
  assumes "pwm_inv s" and "io_line l" and "\<forall>c. 0 \<le> c \<and> c < 4 \<longrightarrow> l \<noteq> 51 + c" and "line_locked s l"
  shows "\<exists>t. Io_Stop l s = Some (CONTROLLER_OK, t) \<and> pwm_inv t \<and> pwm_active t = pwm_active s \<and> pwm_part t = pwm_part s \<and>
    line_users t = (line_users s)(l := 0) \<and> line_locked t = (line_locked s)(l := False)"
proof -
  have io: "io_inv s" using assms(1) by (simp add: pwm_inv_def)
  have one: "line_users s l = 1" by (rule io.locked_owner [OF io assms(2,4)])
  then obtain t where t: "Io_Stop l s = Some (CONTROLLER_OK, t)" "io_inv t" "line_users t = (line_users s)(l := 0)"
      "line_locked t = (line_locked s)(l := False)"
    using io.stop_used [OF io assms(2)] by auto
  have part: "pwm_part t = pwm_part s" by (rule pwm_part_Io(2) [OF t(1)])
  have lines: "\<forall>c. 0 \<le> c \<and> c < 4 \<longrightarrow> line_locked t (51 + c) = line_locked s (51 + c)" using t(4) assms(3) by auto
  show ?thesis using t pwm_inv_lines [OF part t(2) lines assms(1)] part by blast
qed

lemma take_channel:
  fixes s :: "'a pwmout_state_scheme"
  assumes "pwm_inv s" and "0 \<le> c" and "c < 4" and "line_users s (51 + c) = 0"
  shows "\<exists>t. Pwm_Start c s = Some (CONTROLLER_OK, t) \<and> pwm_inv t \<and> pwm_active t = insert c (pwm_active s) \<and> Pwm_duty t = Pwm_duty s \<and>
    pwm_state.more t = pwm_state.more s \<and> line_users t = (line_users s)(51 + c := 1) \<and> line_locked t = (line_locked s)(51 + c := True) \<and>
    c \<notin> pwm_active s"
proof -
  have io: "io_inv s" using assms(1) by (simp add: pwm_inv_def)
  have new: "c \<notin> pwm_active s" using pwm_inv_line [OF assms(1)] free_unlocked [OF io pwm_line(2) [OF assms(2,3)] assms(4)] by blast
  then obtain u t where u: "Io_Start (51 + c) True s = Some (CONTROLLER_OK, u)" "Pwm_Start c s = Some (CONTROLLER_OK, t)"
      "pwm_with (Pwm_users s + 1) (Pwm_channels s OR mask1 (nat c)) (Pwm_channels s OR mask1 (nat c)) t u"
    using Pwm_Start_cases [OF assms(1-3)] assms(4) by auto
  note ok = io.start_okD [OF io pwm_line(2) [OF assms(2,3)] u(1)]
  have "line_users t = (line_users s)(51 + c := 1)" "line_locked t = (line_locked s)(51 + c := True)"
    using u(3) ok(4,5) assms(4) by (simp_all add: pwm_with_def)
  then show ?thesis using u(2) Pwm_Start_inv [OF assms(1) u(1) assms(2,3) new u(3)] Pwm_part_Start [OF u(2)] new by blast
qed

lemma give_channel:
  fixes s :: "'a pwmout_state_scheme"
  assumes "pwm_inv s" and "c \<in> pwm_active s"
  shows "\<exists>t. Pwm_Stop c s = Some (CONTROLLER_OK, t) \<and> pwm_inv t \<and> pwm_active t = pwm_active s - {c} \<and> Pwm_duty t = Pwm_duty s \<and>
    pwm_state.more t = pwm_state.more s \<and> line_users t = (line_users s)(51 + c := 0) \<and> line_locked t = (line_locked s)(51 + c := False)"
proof -
  obtain u t where u: "line_users u = (line_users s)(51 + c := 0)" "line_locked u = (line_locked s)(51 + c := False)" "io_inv u"
      "Pwm_Stop c s = Some (CONTROLLER_OK, t)"
      "pwm_with (Pwm_users s - 1) (Pwm_channels s AND NOT (mask1 (nat c))) (Pwm_channels s AND NOT (mask1 (nat c))) t u"
    using Pwm_Stop_ok [OF assms] by blast
  have "line_users t = (line_users s)(51 + c := 0)" "line_locked t = (line_locked s)(51 + c := False)" using u(1,2,5) by (simp_all add: pwm_with_def)
  then show ?thesis using u(4) Pwm_Stop_inv [OF assms u(2,3,5)] Pwm_part_Stop [OF u(4)] by blast
qed

text \<open>Setting lines and the duty keeps who holds what.\<close>

definition same_owner :: "'a pwmout_state_scheme \<Rightarrow> 'a pwmout_state_scheme \<Rightarrow> bool" where
  "same_owner t s \<longleftrightarrow> line_users t = line_users s \<and> line_locked t = line_locked s \<and> (pwm_inv s \<longrightarrow> pwm_inv t) \<and> pwm_active t = pwm_active s \<and>
     PwmOut_users t = PwmOut_users s \<and> length (Pwm_duty t) = length (Pwm_duty s) \<and> pwmout_state.more t = pwmout_state.more s"

lemma same_owner_refl [simp]: "same_owner s s"
  by (simp add: same_owner_def)

lemma same_owner_trans: "same_owner u t \<Longrightarrow> same_owner t s \<Longrightarrow> same_owner u s"
  by (simp add: same_owner_def)

lemma same_owner_line:
  assumes "pwm_part t = pwm_part s" and "line_users t = line_users s" and "line_locked t = line_locked s" and "io_inv t = io_inv s"
  shows "same_owner t s"
proof -
  have "pwm_inv t" if s: "pwm_inv s"
  proof (rule pwm_inv_lines(1) [OF assms(1) _ _ s])
    show "io_inv t" using s assms(4) by (simp add: pwm_inv_def)
  qed (simp add: assms(3))
  moreover have "pwm_active t = pwm_active s" "Pwm_duty t = Pwm_duty s" "pwm_state.more t = pwm_state.more s"
    using assms(1) by (simp_all add: pwm_part_def pwm_active_def)
  ultimately show ?thesis using assms(2,3) pwmout_field(2,3) [of t s] unfolding same_owner_def by presburger
qed

lemma same_owner_setters [simp]:
  "same_owner (snd (Io_SetValue l v s)) s" "same_owner (snd (Io_SetPio l v s)) s" "same_owner (snd (Io_SetDirection l v s)) s"
  by (rule same_owner_line, simp_all)+

lemma pins_view: "Io_pins t = Io_pins s \<Longrightarrow> line_users t = line_users s" "Io_pins t = Io_pins s \<Longrightarrow> line_locked t = line_locked s"
  by (simp_all add: line_users_def line_locked_def fun_eq_iff)

lemma same_owner_duty [simp]: "same_owner (snd (Pwm_Set c d s)) s"
proof -
  let ?t = "snd (Pwm_Set c d s)"
  have lines: "line_users ?t = line_users s" "line_locked ?t = line_locked s" "io_inv ?t = io_inv s"
    by (rule pins_view io_inv_cong; simp add: Pwm_Set_def)+
  have fields: "Pwm_users ?t = Pwm_users s" "Pwm_channels ?t = Pwm_channels s" "PWMC_SR ?t = PWMC_SR s" "PwmOut_users ?t = PwmOut_users s"
    "length (Pwm_duty ?t) = length (Pwm_duty s)" "pwmout_state.more ?t = pwmout_state.more s"
    by (simp_all add: Pwm_Set_def)
  have act: "pwm_active ?t = pwm_active s" by (simp only: pwm_active_def fields)
  have "pwm_inv ?t = pwm_inv s" by (simp only: pwm_inv_def lines fields act)
  then show ?thesis by (simp add: same_owner_def lines fields act)
qed

lemma line_out_duty [simp]: "line_out (snd (Pwm_Set c d s)) = line_out s"
  by (simp add: Pwm_Set_def line_out_def port_def fun_eq_iff)

lemma lines_on_owner: "same_owner (pwmout_lines_on i s) s"
  unfolding pwmout_lines_on_def Let_def by (auto split: prod.split intro!: same_owner_trans [OF same_owner_setters(1)] same_owner_trans [OF same_owner_setters(2)]
      same_owner_trans [OF same_owner_setters(3)] same_owner_trans [OF same_owner_duty])

lemma PwmOut_Start_free:
  assumes "pwmout_free i s"
  shows "\<exists>t. PwmOut_Start i s = Some (CONTROLLER_OK, t) \<and> pwmout_on i t \<and> pwm_active t = insert i (pwm_active s) \<and> i \<notin> pwm_active s \<and>
    line_users t = (line_users s)(fst (PwmOut_GetIos i) := 1, snd (PwmOut_GetIos i) := 1, 51 + i := 1) \<and>
    line_locked t = (line_locked s)(fst (PwmOut_GetIos i) := True, snd (PwmOut_GetIos i) := True, 51 + i := True) \<and>
    PwmOut_users t = (PwmOut_users s)[nat i := 1] \<and> pwmout_state.more t = pwmout_state.more s"
proof -
  obtain a b where ab: "PwmOut_GetIos i = (a, b)" by (cases "PwmOut_GetIos i")
  have i: "0 \<le> i" "i < 4" "nat i < 4" and free: "PwmOut_users s ! nat i = 0" "line_users s a = 0" "line_users s b = 0" "line_users s (51 + i) = 0"
    and len: "length (PwmOut_users s) = 4" "length (Pwm_duty s) = 4" and inv: "pwm_inv s"
    using assms ab by (auto simp: pwmout_free_def)
  note pair = pwmout_pair [OF i(1,2) ab]
  let ?s = "pwmout_add i 1 s"
  obtain s1 where s1: "Io_Start a True ?s = Some (CONTROLLER_OK, s1)" "pwm_inv s1" "pwm_active s1 = pwm_active s" "pwm_part s1 = pwm_part ?s"
      "line_users s1 = (line_users s)(a := 1)" "line_locked s1 = (line_locked s)(a := True)"
    using take_line [of ?s a] inv pair(1,4) free(2) by auto
  obtain s2 where s2: "Io_Start b True s1 = Some (CONTROLLER_OK, s2)" "pwm_inv s2" "pwm_active s2 = pwm_active s" "pwm_part s2 = pwm_part ?s"
      "line_users s2 = (line_users s)(a := 1, b := 1)" "line_locked s2 = (line_locked s)(a := True, b := True)"
    using take_line [of s1 b] s1 pair(2,3,5) free(3) by auto
  have "line_users s2 (51 + i) = 0" using s2(5) spec [OF pair(4), of i] spec [OF pair(5), of i] i free(4) by auto
  from take_channel [OF s2(2) i(1,2) this] obtain s3 where s3: "Pwm_Start i s2 = Some (CONTROLLER_OK, s3)" "pwm_inv s3"
      "pwm_active s3 = insert i (pwm_active s)" "Pwm_duty s3 = Pwm_duty s2" "pwm_state.more s3 = pwm_state.more s2"
      "line_users s3 = (line_users s)(a := 1, b := 1, 51 + i := 1)" "line_locked s3 = (line_locked s)(a := True, b := True, 51 + i := True)"
      "i \<notin> pwm_active s"
    using s2(3,5,6) by auto
  have "pwm_state.more s3 = pwm_state.more ?s" "Pwm_duty s3 = Pwm_duty s" using s3(4,5) s2(4) by (simp_all add: pwm_part_def)
  then have users: "PwmOut_users s3 = (PwmOut_users s)[nat i := 1]" "pwmout_state.more s3 = pwmout_state.more s" "length (Pwm_duty s3) = 4"
    using pwmout_field(2,3) [of s3 ?s] free(1) len by (simp_all add: pwmout_add_def)
  define t where "t = pwmout_lines_on i s3"
  have t: "same_owner t s3" unfolding t_def by (rule lines_on_owner)
  have "PwmOut_Start i s = Some (CONTROLLER_OK, t)"
    using i free(1) ab s1(1) s2(1) s3(1) by (simp add: PwmOut_Start_def Let_def t_def)
  moreover have "pwmout_on i t"
    using t s3(2,3,7) users i len pair(3) spec [OF pair(4), of i] spec [OF pair(5), of i] ab by (auto simp: pwmout_on_def same_owner_def)
  ultimately show ?thesis using t s3(3,6-8) users(1,2) ab by (simp add: same_owner_def)
qed

lemma PwmOut_Stop_on:
  assumes "pwmout_on i s"
  shows "\<exists>t. PwmOut_Stop i s = Some (CONTROLLER_OK, t) \<and> pwm_active t = pwm_active s - {i} \<and>
    line_users t = (line_users s)(fst (PwmOut_GetIos i) := 0, snd (PwmOut_GetIos i) := 0, 51 + i := 0) \<and>
    line_locked t = (line_locked s)(fst (PwmOut_GetIos i) := False, snd (PwmOut_GetIos i) := False, 51 + i := False) \<and>
    pwmout_free i t \<and> PwmOut_users t = (PwmOut_users s)[nat i := 0] \<and> pwmout_state.more t = pwmout_state.more s"
proof -
  obtain a b where ab: "PwmOut_GetIos i = (a, b)" by (cases "PwmOut_GetIos i")
  have i: "0 \<le> i" "i < 4" "nat i < 4" and on: "PwmOut_users s ! nat i = 1" "line_locked s a" "line_locked s b" "i \<in> pwm_active s"
    and len: "length (PwmOut_users s) = 4" "length (Pwm_duty s) = 4" and inv: "pwm_inv s"
    using assms ab by (auto simp: pwmout_on_def)
  note pair = pwmout_pair [OF i(1,2) ab]
  define s0 where "s0 = snd (Io_SetValue b False (snd (Io_SetValue a False (pwmout_add i (- 1) s))))"
  have "same_owner s0 (pwmout_add i (- 1) s)" unfolding s0_def by (rule same_owner_trans [OF same_owner_setters(1) same_owner_setters(1)])
  then have s0: "pwm_inv s0" "pwm_active s0 = pwm_active s" "line_users s0 = line_users s" "line_locked s0 = line_locked s"
      "PwmOut_users s0 = (PwmOut_users s)[nat i := 0]" "length (Pwm_duty s0) = 4" "pwmout_state.more s0 = pwmout_state.more s"
    using inv on(1) len(2) by (simp_all add: same_owner_def) (simp add: pwmout_add_def)
  obtain s1 where s1: "Io_Stop a s0 = Some (CONTROLLER_OK, s1)" "pwm_inv s1" "pwm_active s1 = pwm_active s" "pwm_part s1 = pwm_part s0"
      "line_users s1 = (line_users s)(a := 0)" "line_locked s1 = (line_locked s)(a := False)"
    using give_line [of s0 a] s0 pair(1,4) on(2) by auto
  obtain s2 where s2: "Io_Stop b s1 = Some (CONTROLLER_OK, s2)" "pwm_inv s2" "pwm_active s2 = pwm_active s" "pwm_part s2 = pwm_part s0"
      "line_users s2 = (line_users s)(a := 0, b := 0)" "line_locked s2 = (line_locked s)(a := False, b := False)"
    using give_line [of s1 b] s1 pair(2,3,5) on(3) by auto
  obtain t where t: "Pwm_Stop i s2 = Some (CONTROLLER_OK, t)" "pwm_inv t" "pwm_active t = pwm_active s - {i}" "Pwm_duty t = Pwm_duty s2"
      "pwm_state.more t = pwm_state.more s2" "line_users t = (line_users s)(a := 0, b := 0, 51 + i := 0)"
      "line_locked t = (line_locked s)(a := False, b := False, 51 + i := False)"
    using give_channel [OF s2(2), of i] s2(3,5,6) on(4) by auto
  have "pwm_state.more t = pwm_state.more s0" "Pwm_duty t = Pwm_duty s0" using t(4,5) s2(4) by (simp_all add: pwm_part_def)
  then have users: "PwmOut_users t = (PwmOut_users s)[nat i := 0]" "pwmout_state.more t = pwmout_state.more s" "length (Pwm_duty t) = 4"
    using pwmout_field(2,3) [of t s0] s0(5-7) by simp_all
  have "PwmOut_Stop i s = Some (CONTROLLER_OK, t)"
    using i on(1) ab s1(1) s2(1) t(1) len(1) by (simp add: PwmOut_Stop_def Let_def s0_def pwmout_add_def)
  moreover have "pwmout_free i t" using i t(2,6) users len ab by (simp add: pwmout_free_def)
  ultimately show ?thesis using t(3,6,7) users(1,2) ab by simp
qed

lemma PwmOut_SetAll_on:
  assumes "pwmout_on i s"
  shows "\<exists>t. PwmOut_SetAll i d x y s = Some (CONTROLLER_OK, t) \<and> pwmout_on i t \<and> same_owner t s \<and> Pwm_Get i t = d \<and>
    line_out t (fst (PwmOut_GetIos i)) = (x = 0) \<and> line_out t (snd (PwmOut_GetIos i)) = (y = 0)"
proof -
  obtain a b where ab: "PwmOut_GetIos i = (a, b)" by (cases "PwmOut_GetIos i")
  have i: "0 \<le> i" "i < 4" "nat i < 4" and users: "PwmOut_users s ! nat i = 1" and len: "length (Pwm_duty s) = 4"
    using assms by (auto simp: pwmout_on_def)
  note pair = pwmout_pair [OF i(1,2) ab]
  define u where "u = set_inverts i x y s"
  have u: "u = snd (Io_SetValue b (y = 0) (snd (Io_SetValue a (x = 0) s)))" by (simp add: u_def set_inverts_def ab)
  define t where "t = snd (Pwm_Set i d u)"
  have same: "same_owner t s" unfolding t_def u by (rule same_owner_trans [OF same_owner_duty same_owner_trans [OF same_owner_setters(1) same_owner_setters(1)]])
  have "fst (Pwm_Set i d u) = CONTROLLER_OK" using i by (simp add: Pwm_Set_def)
  then have "PwmOut_SetAll i d x y s = Some (CONTROLLER_OK, t)"
    using i users by (simp add: PwmOut_SetAll_def pwmout_access_def pwmout_used_def t_def prod_eq_iff flip: u_def)
  moreover have "pwmout_on i t" using assms same by (simp add: pwmout_on_def same_owner_def)
  moreover have "length (Pwm_duty u) = 4" using len unfolding u
    by (simp add: Io_SetValue_def set_line_def on_port_def)
  then have "Pwm_Get i t = d" using i by (simp add: t_def Pwm_Get_def Pwm_Set_def)
  moreover have "line_out t a = (x = 0)" "line_out t b = (y = 0)"
    unfolding t_def u using pair(1-3) by (simp_all add: io_lookup)
  ultimately show ?thesis using same ab by simp
qed

subsection \<open>The value of divider B\<close>

lemma divider_word:
  fixes x :: u32
  assumes "0 \<le> val" and "val \<le> 255"
  defines "w \<equiv> (x AND 0xf00) OR word_of_int val"
  shows "0 \<le> sint w" "sint w \<le> 4096" "word_of_int (sint w) = w"
proof -
  have "w = take_bit 12 w"
  proof (rule bit_word_eqI)
    fix n
    have mask: "(0xf00 :: u32) = push_bit 8 (mask 4)" by (simp add: mask_eq_exp_minus_1)
    have "n < 12" if "bit w n"
      using that bit_of_int_small [of val 8 n] assms(1,2) unfolding w_def mask by (auto simp: bit_or_iff bit_and_iff bit_push_bit_iff bit_mask_iff)
    then show "bit w n = bit (take_bit 12 w) n" by (auto simp: bit_take_bit_iff)
  qed
  then have "uint w < 2 ^ 12" by (metis take_bit_int_less_exp unsigned_take_bit_eq)
  moreover have "- (2 ^ 31) \<le> uint w" by (rule order_trans [of _ 0]) simp_all
  then have "sint w = uint w" using \<open>uint w < 2 ^ 12\<close> by (simp add: sint_uint signed_take_bit_int_eq_self)
  ultimately show "0 \<le> sint w" "sint w \<le> 4096" "word_of_int (sint w) = w" by simp_all
qed

text \<open>Setting the value of divider B leaves divider B as it is and overwrites divider A.\<close>

lemma pwmout_divider_b_writes_a:
  assumes "0 \<le> val" and "val \<le> 255"
  shows "Pwm_GetDividerB (snd (PwmOut_SetDividerBValue val s)) = Pwm_GetDividerB s"
    "Pwm_GetDividerA (snd (PwmOut_SetDividerBValue val s)) = (Pwm_GetDividerB s AND 0xf00) OR word_of_int val"
  using dividers_apart(1,2) [OF divider_word(1,2) [OF assms]] divider_word(3) [OF assms] assms by (simp_all add: PwmOut_SetDividerBValue_def)

lemma pwmout_divider_a_value:
  assumes "0 \<le> val" and "val \<le> 255"
  shows "Pwm_GetDividerA (snd (PwmOut_SetDividerAValue val s)) = (Pwm_GetDividerA s AND 0xf00) OR word_of_int val"
    "Pwm_GetDividerB (snd (PwmOut_SetDividerAValue val s)) = Pwm_GetDividerB s"
  using dividers_apart(1,2) [OF divider_word(1,2) [OF assms]] divider_word(3) [OF assms] assms by (simp_all add: PwmOut_SetDividerAValue_def)

end
