(* ===== verification/Motor.thy ===== *)
theory Motor
  imports PwmOut
begin

text \<open>
  DC motors (\<^verbatim>\<open>src/firmware/libraries/motor/motor.c\<close>): the speed of a motor is the duty of a PWM output, its direction the inversion of the two lines.
\<close>

record Motor_ =
  mo_users :: int
  mo_direction :: int
  mo_speed :: int

record motor_state = pwmout_state +
  Motor :: "Motor_ list"

abbreviation (input) bad_motor :: "int \<Rightarrow> bool" where "bad_motor index \<equiv> index < 0 \<or> index \<ge> 4"

definition upd_motor :: "int \<Rightarrow> (Motor_ \<Rightarrow> Motor_) \<Rightarrow> 'a motor_state_scheme \<Rightarrow> 'a motor_state_scheme" where
  "upd_motor index f s = s\<lparr>Motor := (Motor s)[nat index := f (Motor s ! nat index)]\<rparr>"

definition Motor_SetFinal :: "int \<Rightarrow> (status, 'a motor_state_scheme) op" where
  "Motor_SetFinal index s =
     (let mp = Motor s ! nat index; speed = mo_speed mp;
          speed = (if mo_direction mp = 0 then c_int (speed * - 1) else speed)
      in if speed \<ge> 0 then PwmOut_SetAll index speed 0 1 s else PwmOut_SetAll index (c_int (- speed)) 1 0 s)"

definition Motor_Start :: "int \<Rightarrow> (status, 'a motor_state_scheme) op" where
  "Motor_Start index s =
     (if bad_motor index then Some (CONTROLLER_ERROR_ILLEGAL_INDEX, s)
      else
        let first = mo_users (Motor s ! nat index) = 0; s = upd_motor index (\<lambda>m. m\<lparr>mo_users := mo_users m + 1\<rparr>) s
        in do {
          (status, s) \<leftarrow>
            (if first then PwmOut_SetActive index 1 (upd_motor index (\<lambda>m. m\<lparr>mo_direction := 1, mo_speed := 0\<rparr>) s)
             else Some (CONTROLLER_OK, s));
          if status \<noteq> CONTROLLER_OK then Some (status, upd_motor index (\<lambda>m. m\<lparr>mo_users := mo_users m - 1\<rparr>) s)
          else Motor_SetFinal index s
        })"

definition Motor_Stop :: "int \<Rightarrow> (status, 'a motor_state_scheme) op" where
  "Motor_Stop index s =
     (if bad_motor index then Some (CONTROLLER_ERROR_ILLEGAL_INDEX, s)
      else
        let s = upd_motor index (\<lambda>m. m\<lparr>mo_users := mo_users m - 1\<rparr>) s
        in if mo_users (Motor s ! nat index) = 0 then PwmOut_SetActive index 0 s else Some (CONTROLLER_OK, s))"

definition Motor_SetActive :: "int \<Rightarrow> int \<Rightarrow> (status, 'a motor_state_scheme) op" where
  "Motor_SetActive index state s =
     (if bad_motor index then Some (CONTROLLER_ERROR_ILLEGAL_INDEX, s)
      else if state \<noteq> 0 then Motor_Start index s else Motor_Stop index s)"

definition Motor_GetActive :: "int \<Rightarrow> 'a motor_state_scheme \<Rightarrow> int" where
  "Motor_GetActive index s = (if bad_motor index then 0 else of_bool (mo_users (Motor s ! nat index) > 0))"

definition motor_used :: "int \<Rightarrow> (status, 'a motor_state_scheme) op" where
  "motor_used index s = (if mo_users (Motor s ! nat index) = 0 then Motor_Start index s else Some (CONTROLLER_OK, s))"

definition Motor_SetSpeed :: "int \<Rightarrow> int \<Rightarrow> (status, 'a motor_state_scheme) op" where
  "Motor_SetSpeed index duty s =
     (if bad_motor index then Some (CONTROLLER_ERROR_ILLEGAL_INDEX, s)
      else do {
        (status, s) \<leftarrow> motor_used index s;
        if status \<noteq> CONTROLLER_OK then Some (status, s)
        else Motor_SetFinal index (upd_motor index (\<lambda>m. m\<lparr>mo_speed := duty\<rparr>) s)
      })"

definition Motor_SetDirection :: "int \<Rightarrow> u8 \<Rightarrow> (status, 'a motor_state_scheme) op" where
  "Motor_SetDirection index forward s =
     (if bad_motor index then Some (CONTROLLER_ERROR_ILLEGAL_INDEX, s)
      else do {
        (status, s) \<leftarrow> motor_used index s;
        if status \<noteq> CONTROLLER_OK then Some (status, s)
        else Motor_SetFinal index (upd_motor index (\<lambda>m. m\<lparr>mo_direction := uint forward\<rparr>) s)
      })"

definition Motor_GetSpeed :: "int \<Rightarrow> (int, 'a motor_state_scheme) op" where
  "Motor_GetSpeed index s =
     (if bad_motor index then Some (CONTROLLER_ERROR_ILLEGAL_INDEX, s)
      else do {
        (status, s) \<leftarrow> motor_used index s;
        Some (if status \<noteq> CONTROLLER_OK then 0 else mo_speed (Motor s ! nat index), s)
      })"

definition Motor_GetDirection :: "int \<Rightarrow> (int, 'a motor_state_scheme) op" where
  "Motor_GetDirection index s =
     (if bad_motor index then Some (CONTROLLER_ERROR_ILLEGAL_INDEX, s)
      else do {
        (status, s) \<leftarrow> motor_used index s;
        Some (if status \<noteq> CONTROLLER_OK then 0 else mo_direction (Motor s ! nat index), s)
      })"

definition MotorOsc_PropertySet :: "int \<Rightarrow> int \<Rightarrow> int \<Rightarrow> (status, 'a motor_state_scheme) op" where
  "MotorOsc_PropertySet index property v s =
     do {
       (_, s) \<leftarrow> (if property = 0 then Motor_SetActive index v s
                  else if property = 1 then Motor_SetSpeed index v s
                  else if property = 2 then Motor_SetDirection index (word_of_int v) s
                  else Some (CONTROLLER_OK, s));
       Some (CONTROLLER_OK, s)
     }"

definition MotorOsc_PropertyGet :: "int \<Rightarrow> int \<Rightarrow> (int, 'a motor_state_scheme) op" where
  "MotorOsc_PropertyGet index property s =
     (if property = 0 then Some (Motor_GetActive index s, s)
      else if property = 1 then Motor_GetSpeed index s
      else if property = 2 then Motor_GetDirection index s
      else Some (0, s))"

subsection \<open>A motor and its output\<close>

lemma upd_motor_view [simp]:
  "line_users (upd_motor i f s) = line_users s" "line_locked (upd_motor i f s) = line_locked s" "io_inv (upd_motor i f s) = io_inv s"
  "pwm_active (upd_motor i f s) = pwm_active s" "pwm_inv (upd_motor i f s) = pwm_inv s" "PwmOut_users (upd_motor i f s) = PwmOut_users s"
  "Pwm_duty (upd_motor i f s) = Pwm_duty s" "Motor (upd_motor i f s) = (Motor s)[nat i := f (Motor s ! nat i)]"
proof -
  show lines: "line_users (upd_motor i f s) = line_users s" "line_locked (upd_motor i f s) = line_locked s" "io_inv (upd_motor i f s) = io_inv s"
    by (rule pins_view io_inv_cong; simp add: upd_motor_def)+
  have fields: "Pwm_users (upd_motor i f s) = Pwm_users s" "Pwm_channels (upd_motor i f s) = Pwm_channels s" "PWMC_SR (upd_motor i f s) = PWMC_SR s"
    by (simp_all add: upd_motor_def)
  show act: "pwm_active (upd_motor i f s) = pwm_active s" by (simp only: pwm_active_def fields)
  show "pwm_inv (upd_motor i f s) = pwm_inv s" by (simp only: pwm_inv_def lines fields act)
qed (simp_all add: upd_motor_def)

lemma upd_motor_pwmout [simp]: "pwmout_on j (upd_motor i f s) = pwmout_on j s" "pwmout_free j (upd_motor i f s) = pwmout_free j s"
  by (simp_all add: pwmout_on_def pwmout_free_def)

lemma motor_field: "pwmout_state.more t = pwmout_state.more s \<Longrightarrow> Motor t = Motor s" for s t :: "'a motor_state_scheme"
  by (cases s; cases t; simp)

text \<open>A motor that is driven at a speed, negative for backwards: the duty of its channel and the levels of its two lines.\<close>

definition driven :: "int \<Rightarrow> int \<Rightarrow> 'a motor_state_scheme \<Rightarrow> bool" where
  "driven i v s \<longleftrightarrow> Pwm_Get i s = \<bar>v\<bar> \<and> line_out s (fst (PwmOut_GetIos i)) = (0 \<le> v) \<and> line_out s (snd (PwmOut_GetIos i)) = (v < 0)"

definition motor_free :: "int \<Rightarrow> 'a motor_state_scheme \<Rightarrow> bool" where
  "motor_free i s \<longleftrightarrow> pwmout_free i s \<and> length (Motor s) = 4 \<and> mo_users (Motor s ! nat i) = 0"

definition motor_on :: "int \<Rightarrow> int \<Rightarrow> int \<Rightarrow> 'a motor_state_scheme \<Rightarrow> bool" where
  "motor_on i d v s \<longleftrightarrow> pwmout_on i s \<and> length (Motor s) = 4 \<and> Motor s ! nat i = \<lparr>mo_users = 1, mo_direction = d, mo_speed = v\<rparr>"

definition heading :: "int \<Rightarrow> int \<Rightarrow> int" where
  "heading d v = (if d = 0 then - v else v)"

lemma motor_c_int: "\<bar>v\<bar> < 2 ^ 31 \<Longrightarrow> c_int v = v"
  by (simp add: c_int_def signed_take_bit_int_eq_self)

lemma Motor_SetFinal_on:
  assumes "motor_on i d v s" and "\<bar>v\<bar> < 2 ^ 31"
  shows "\<exists>t. Motor_SetFinal i s = Some (CONTROLLER_OK, t) \<and> motor_on i d v t \<and> driven i (heading d v) t \<and> same_owner t s"
proof -
  let ?h = "heading d v"
  have on: "pwmout_on i s" and m: "Motor s ! nat i = \<lparr>mo_users = 1, mo_direction = d, mo_speed = v\<rparr>" and len: "length (Motor s) = 4"
    using assms(1) by (simp_all add: motor_on_def)
  have h: "\<bar>?h\<bar> < 2 ^ 31" using assms(2) by (simp add: heading_def)
  have final: "Motor_SetFinal i s = (if ?h \<ge> 0 then PwmOut_SetAll i ?h 0 1 s else PwmOut_SetAll i (- ?h) 1 0 s)"
    using motor_c_int [of v] motor_c_int [of "- v"] motor_c_int [of "- ?h"] h assms(2) by (simp add: Motor_SetFinal_def m heading_def Let_def)
  have "\<exists>t. Motor_SetFinal i s = Some (CONTROLLER_OK, t) \<and> pwmout_on i t \<and> same_owner t s \<and> driven i ?h t"
    using PwmOut_SetAll_on [OF on, of ?h 0 1] PwmOut_SetAll_on [OF on, of "- ?h" 1 0] unfolding final driven_def by (cases "?h \<ge> 0") auto
  then obtain t where t: "Motor_SetFinal i s = Some (CONTROLLER_OK, t)" "pwmout_on i t" "same_owner t s" "driven i ?h t" by blast
  have "Motor t = Motor s" by (rule motor_field) (use t(3) in \<open>simp add: same_owner_def\<close>)
  then show ?thesis using t m len by (auto simp: motor_on_def)
qed

lemma Motor_Start_free:
  assumes "motor_free i s"
  shows "\<exists>t. Motor_Start i s = Some (CONTROLLER_OK, t) \<and> motor_on i 1 0 t \<and> pwm_active t = insert i (pwm_active s) \<and> i \<notin> pwm_active s \<and>
    line_users t = (line_users s)(fst (PwmOut_GetIos i) := 1, snd (PwmOut_GetIos i) := 1, 51 + i := 1) \<and>
    line_locked t = (line_locked s)(fst (PwmOut_GetIos i) := True, snd (PwmOut_GetIos i) := True, 51 + i := True)"
proof -
  have i: "0 \<le> i" "i < 4" "nat i < 4" and idle: "mo_users (Motor s ! nat i) = 0" and len: "length (Motor s) = 4"
    using assms by (auto simp: motor_free_def pwmout_free_def)
  let ?s = "upd_motor i (\<lambda>m. m\<lparr>mo_direction := 1, mo_speed := 0\<rparr>) (upd_motor i (\<lambda>m. m\<lparr>mo_users := mo_users m + 1\<rparr>) s)"
  have "pwmout_free i ?s" using assms by (simp add: motor_free_def)
  from PwmOut_Start_free [OF this] obtain u where u: "PwmOut_Start i ?s = Some (CONTROLLER_OK, u)" "pwmout_on i u"
      "pwm_active u = insert i (pwm_active s)" "i \<notin> pwm_active s"
      "line_users u = (line_users s)(fst (PwmOut_GetIos i) := 1, snd (PwmOut_GetIos i) := 1, 51 + i := 1)"
      "line_locked u = (line_locked s)(fst (PwmOut_GetIos i) := True, snd (PwmOut_GetIos i) := True, 51 + i := True)"
      "pwmout_state.more u = pwmout_state.more ?s" by auto
  have "Motor u = Motor ?s" by (rule motor_field [OF u(7)])
  then have "Motor u ! nat i = \<lparr>mo_users = 1, mo_direction = 1, mo_speed = 0\<rparr>" "length (Motor u) = 4"
    using i len idle by (cases "Motor s ! nat i"; simp)+
  then have on: "motor_on i 1 0 u" using u(2) by (simp add: motor_on_def)
  have "\<bar>0 :: int\<bar> < 2 ^ 31" by simp
  from Motor_SetFinal_on [OF on this] obtain t where t: "Motor_SetFinal i u = Some (CONTROLLER_OK, t)" "motor_on i 1 0 t" "same_owner t u" by blast
  have "Motor_Start i s = Some (CONTROLLER_OK, t)"
    using i idle u(1) t(1) by (simp add: Motor_Start_def Let_def PwmOut_SetActive_def)
  then show ?thesis using t(2,3) u(3-6) by (simp add: same_owner_def)
qed

lemma Motor_SetSpeed_on:
  assumes "motor_on i d v s" and "\<bar>w\<bar> < 2 ^ 31"
  shows "\<exists>t. Motor_SetSpeed i w s = Some (CONTROLLER_OK, t) \<and> motor_on i d w t \<and> driven i (heading d w) t \<and>
    line_users t = line_users s \<and> line_locked t = line_locked s \<and> pwm_active t = pwm_active s"
proof -
  have i: "0 \<le> i" "i < 4" "nat i < 4" using assms(1) by (auto simp: motor_on_def pwmout_on_def)
  let ?s = "upd_motor i (\<lambda>m. m\<lparr>mo_speed := w\<rparr>) s"
  have "motor_on i d w ?s" using assms(1) i by (simp add: motor_on_def)
  from Motor_SetFinal_on [OF this assms(2)] obtain t where t: "Motor_SetFinal i ?s = Some (CONTROLLER_OK, t)" "motor_on i d w t"
      "driven i (heading d w) t" "same_owner t ?s" by blast
  have "Motor_SetSpeed i w s = Some (CONTROLLER_OK, t)"
    using i assms(1) t(1) by (simp add: Motor_SetSpeed_def motor_used_def motor_on_def)
  then show ?thesis using t(2-4) by (simp add: same_owner_def)
qed

lemma Motor_SetDirection_on:
  assumes "motor_on i d v s" and "\<bar>v\<bar> < 2 ^ 31"
  shows "\<exists>t. Motor_SetDirection i x s = Some (CONTROLLER_OK, t) \<and> motor_on i (uint x) v t \<and> driven i (heading (uint x) v) t \<and>
    line_users t = line_users s \<and> line_locked t = line_locked s \<and> pwm_active t = pwm_active s"
proof -
  have i: "0 \<le> i" "i < 4" "nat i < 4" using assms(1) by (auto simp: motor_on_def pwmout_on_def)
  let ?s = "upd_motor i (\<lambda>m. m\<lparr>mo_direction := uint x\<rparr>) s"
  have "motor_on i (uint x) v ?s" using assms(1) i by (simp add: motor_on_def)
  from Motor_SetFinal_on [OF this assms(2)] obtain t where t: "Motor_SetFinal i ?s = Some (CONTROLLER_OK, t)" "motor_on i (uint x) v t"
      "driven i (heading (uint x) v) t" "same_owner t ?s" by blast
  have "Motor_SetDirection i x s = Some (CONTROLLER_OK, t)"
    using i assms(1) t(1) by (simp add: Motor_SetDirection_def motor_used_def motor_on_def)
  then show ?thesis using t(2-4) by (simp add: same_owner_def)
qed

lemma Motor_Stop_on:
  assumes "motor_on i d v s"
  shows "\<exists>t. Motor_Stop i s = Some (CONTROLLER_OK, t) \<and> motor_free i t \<and> pwm_active t = pwm_active s - {i} \<and>
    line_users t = (line_users s)(fst (PwmOut_GetIos i) := 0, snd (PwmOut_GetIos i) := 0, 51 + i := 0) \<and>
    line_locked t = (line_locked s)(fst (PwmOut_GetIos i) := False, snd (PwmOut_GetIos i) := False, 51 + i := False)"
proof -
  have i: "0 \<le> i" "i < 4" "nat i < 4" and on: "pwmout_on i s" and len: "length (Motor s) = 4"
    using assms by (auto simp: motor_on_def pwmout_on_def)
  let ?s = "upd_motor i (\<lambda>m. m\<lparr>mo_users := mo_users m - 1\<rparr>) s"
  have zero: "mo_users (Motor ?s ! nat i) = 0" using assms i by (simp add: motor_on_def)
  have "pwmout_on i ?s" using on by simp
  from PwmOut_Stop_on [OF this] obtain t where t: "PwmOut_Stop i ?s = Some (CONTROLLER_OK, t)" "pwm_active t = pwm_active s - {i}"
      "line_users t = (line_users s)(fst (PwmOut_GetIos i) := 0, snd (PwmOut_GetIos i) := 0, 51 + i := 0)"
      "line_locked t = (line_locked s)(fst (PwmOut_GetIos i) := False, snd (PwmOut_GetIos i) := False, 51 + i := False)"
      "pwmout_free i t" "pwmout_state.more t = pwmout_state.more ?s" by auto
  have "Motor t = Motor ?s" by (rule motor_field [OF t(6)])
  then have "motor_free i t" using t(5) zero len by (simp add: motor_free_def)
  moreover have "Motor_Stop i s = Some (CONTROLLER_OK, t)" using i zero t(1) by (simp add: Motor_Stop_def Let_def PwmOut_SetActive_def)
  ultimately show ?thesis using t(2-4) by blast
qed

subsection \<open>The life of a motor\<close>

text \<open>A board with idle motors, on which the watchdog uses the outputs of motors 0 and 1.\<close>

definition motor_boot :: motor_state where
  "motor_boot = pwm_state.extend pwm_boot \<lparr>PwmOut_users = replicate 4 0, Motor = replicate 4 \<lparr>mo_users = 0, mo_direction = 0, mo_speed = 0\<rparr>\<rparr>"

lemma motor_boot_free: "motor_free 2 motor_boot"
proof -
  have pins: "Io_pins motor_boot = Io_pins pwm_boot" "Io_users motor_boot = Io_users pwm_boot" "Io_init motor_boot = Io_init pwm_boot"
    and fields: "Pwm_users motor_boot = Pwm_users pwm_boot" "Pwm_channels motor_boot = Pwm_channels pwm_boot" "PWMC_SR motor_boot = PWMC_SR pwm_boot"
    "Pwm_duty motor_boot = Pwm_duty pwm_boot" "PwmOut_users motor_boot = replicate 4 0"
    "Motor motor_boot = replicate 4 \<lparr>mo_users = 0, mo_direction = 0, mo_speed = 0\<rparr>"
    by (simp_all add: motor_boot_def pwm_state.extend_def)
  have lines: "line_users motor_boot = line_users pwm_boot" "line_locked motor_boot = line_locked pwm_boot"
    using pins(1) by (simp_all add: line_users_def line_locked_def fun_eq_iff)
  have act: "pwm_active motor_boot = pwm_active pwm_boot" by (simp only: pwm_active_def fields)
  have "io_inv motor_boot = io_inv pwm_boot" using pins by (simp add: io_inv_def)
  then have "pwm_inv motor_boot" using pwm_boot_inv(1) by (simp add: pwm_inv_def lines fields act)
  moreover have "length (Pwm_duty motor_boot) = 4" unfolding fields by (simp add: pwm_boot_def can_state.defs)
  ultimately show ?thesis by (simp add: motor_free_def pwmout_free_def fields(5,6) lines pwm_boot_view PwmOut_GetIos_def)
qed

text \<open>
  C24: A motor whose two lines and whose channel nobody holds is started with its speed 0. A speed becomes the duty of its channel and the levels of its two lines, which are
  opposite to each other; turning the direction exchanges the levels and keeps the duty. While it runs, it holds its lines and its channel, and when it is
  stopped, every line has the users and locks, and the modulator the channels, they had before the start.
\<close>
theorem motor_drives_and_releases:
  assumes "motor_free i s" and "\<bar>v\<bar> < 2 ^ 31"
  shows "\<exists>s1 s2 s3 s4. Motor_SetActive i 1 s = Some (CONTROLLER_OK, s1) \<and>
    Motor_SetSpeed i v s1 = Some (CONTROLLER_OK, s2) \<and> driven i v s2 \<and>
    Motor_SetDirection i 0 s2 = Some (CONTROLLER_OK, s3) \<and> driven i (- v) s3 \<and>
    line_locked s3 (fst (PwmOut_GetIos i)) \<and> line_locked s3 (snd (PwmOut_GetIos i)) \<and> i \<in> pwm_active s3 \<and>
    Motor_SetActive i 0 s3 = Some (CONTROLLER_OK, s4) \<and> line_users s4 = line_users s \<and> line_locked s4 = line_locked s \<and>
    pwm_active s4 = pwm_active s \<and> motor_free i s4"
proof -
  have i: "0 \<le> i" "i < 4" and inv: "pwm_inv s" and free: "pwmout_free i s" using assms(1) by (simp_all add: motor_free_def pwmout_free_def)
  obtain a b where ab: "PwmOut_GetIos i = (a, b)" by (cases "PwmOut_GetIos i")
  have io: "io_inv s" using inv by (simp add: pwm_inv_def)
  have users: "line_users s a = 0" "line_users s b = 0" "line_users s (51 + i) = 0" using free ab by (simp_all add: pwmout_free_def)
  have locks: "\<not> line_locked s a" "\<not> line_locked s b" "\<not> line_locked s (51 + i)"
    using free_unlocked [OF io _ users(1)] free_unlocked [OF io _ users(2)] free_unlocked [OF io _ users(3)]
      pwmout_pair(1,2) [OF i ab] pwm_line(2) [OF i] by blast+
  obtain s1 where s1: "Motor_Start i s = Some (CONTROLLER_OK, s1)" "motor_on i 1 0 s1" "pwm_active s1 = insert i (pwm_active s)" "i \<notin> pwm_active s"
      "line_users s1 = (line_users s)(a := 1, b := 1, 51 + i := 1)" "line_locked s1 = (line_locked s)(a := True, b := True, 51 + i := True)"
    using Motor_Start_free [OF assms(1)] ab by auto
  obtain s2 where s2: "Motor_SetSpeed i v s1 = Some (CONTROLLER_OK, s2)" "motor_on i 1 v s2" "driven i (heading 1 v) s2"
      "line_users s2 = line_users s1" "line_locked s2 = line_locked s1" "pwm_active s2 = pwm_active s1"
    using Motor_SetSpeed_on [OF s1(2) assms(2)] by blast
  obtain s3 where s3: "Motor_SetDirection i 0 s2 = Some (CONTROLLER_OK, s3)" "motor_on i 0 v s3" "driven i (heading 0 v) s3"
      "line_users s3 = line_users s1" "line_locked s3 = line_locked s1" "pwm_active s3 = pwm_active s1"
    using Motor_SetDirection_on [OF s2(2) assms(2), of 0] s2(4-6) by auto
  obtain s4 where s4: "Motor_Stop i s3 = Some (CONTROLLER_OK, s4)" "motor_free i s4" "pwm_active s4 = pwm_active s3 - {i}"
      "line_users s4 = (line_users s3)(a := 0, b := 0, 51 + i := 0)" "line_locked s4 = (line_locked s3)(a := False, b := False, 51 + i := False)"
    using Motor_Stop_on [OF s3(2)] ab by auto
  have "line_users s4 = line_users s" "line_locked s4 = line_locked s"
    using s4(4,5) s3(4,5) s1(5,6) users locks by (auto simp: fun_eq_iff)
  moreover have "pwm_active s4 = pwm_active s" using s4(3) s3(6) s1(3,4) by auto
  moreover have "line_locked s3 a" "line_locked s3 b" "i \<in> pwm_active s3" using s3(5,6) s1(3,6) by simp_all
  moreover have "Motor_SetActive i 1 s = Some (CONTROLLER_OK, s1)" "Motor_SetActive i 0 s3 = Some (CONTROLLER_OK, s4)"
    using i s1(1) s4(1) by (simp_all add: Motor_SetActive_def)
  ultimately show ?thesis using s2(1,3) s3(1,3) s4(2) ab by (auto simp: heading_def)
qed

lemma motor_drives_and_releases_witness:
  "\<exists>s1 s2. Motor_SetActive 2 1 motor_boot = Some (CONTROLLER_OK, s1) \<and> Motor_SetSpeed 2 768 s1 = Some (CONTROLLER_OK, s2) \<and>
     Pwm_Get 2 s2 = 768 \<and> line_out s2 57 \<and> \<not> line_out s2 25"
proof -
  have "\<bar>768 :: int\<bar> < 2 ^ 31" by simp
  from motor_drives_and_releases [OF motor_boot_free this] obtain s1 s2 where
    "Motor_SetActive 2 1 motor_boot = Some (CONTROLLER_OK, s1)" "Motor_SetSpeed 2 768 s1 = Some (CONTROLLER_OK, s2)" "driven 2 768 s2" by blast
  then show ?thesis by (auto simp: driven_def PwmOut_GetIos_def)
qed

end
