(* ===== verification/Spec2Isabelle.thy ===== *)
theory Spec2Isabelle
  imports StepperLife HeavyLink JsonRead Servo AesSpec OscDevices XBee Base64 OscInputs SpiDevices MsTimer Motor
begin

text \<open>
  A verification development for the firmware of the MakingThings Make Controller in this repository
  (\<^verbatim>\<open>src/firmware\<close>): an ARM7 board with its board support (\<^verbatim>\<open>core/makingthings\<close>), the libraries of the application
  board (\<^verbatim>\<open>libraries\<close>) and the distributed motor control application built on them (\<^verbatim>\<open>projects/heavy\<close>). Paths below are
  relative to \<^verbatim>\<open>src/firmware\<close>.

  \<^bold>\<open>The program.\<close> At the bottom, the I/O manager hands the 64 lines of the chip to their users, shared or locked, and programs
  the two PIO controllers. The fast timer runs callbacks from an interrupt on a linked list of entries. Devices lock their
  lines with the I/O manager and count their users: LEDs, digital outputs, analog and digital inputs, PWM channels, steppers,
  servos, the CAN driver. Steppers, servos and CAN do their work in fast timer callbacks. Every device can be addressed by
  OSC messages. The application connects up to two controller boards, a motor board and a monitor board by UDP datagrams;
  a fault detection unit checks each board with a Gray-coded watchdog and injects faults. XBee radio modules are driven through a serial port. The EEPROM and the DIP switch are on an SPI bus. The JSON, AES and Base64 libraries are
  independent of the hardware.

  \<^bold>\<open>Theories and code.\<close>
    \<^item> \<open>Prelude\<close>: words as the C integer types, status codes (\<^verbatim>\<open>error.h\<close>), bits and masks, lemmas shared by all components.
    \<^item> \<open>Io\<close>: \<^verbatim>\<open>core/makingthings/io.c\<close>. The table \<open>Io_pins\<close> of users and locks, the PIO registers, every operation
      of the API. The locale \<open>line_owner\<close> is the contract the devices use.
    \<^item> \<open>FastTimer\<close>: \<^verbatim>\<open>core/makingthings/fasttimer.c\<close>, \<^verbatim>\<open>fasttimer_isr.c\<close>. Entries in a heap linked by addresses; the locale
      \<open>timer_queue\<close> states what the list of running entries is after each operation.
    \<^item> \<open>Leds\<close>: \<^verbatim>\<open>core/makingthings/led.c\<close>, \<^verbatim>\<open>libraries/appled/appled.c\<close>, with the locale \<open>counted_device\<close> that the application
      LEDs and (in \<open>DigitalOut\<close>) the digital outputs interpret.
    \<^item> \<open>DigitalOut\<close>: \<^verbatim>\<open>libraries/digitalout/digitalout.c\<close>. \<open>Inputs\<close>: \<^verbatim>\<open>core/makingthings/analogin.c\<close>, \<^verbatim>\<open>analogin_isr.c\<close>,
      \<^verbatim>\<open>libraries/digitalin/digitalin.c\<close>. \<open>Pwm\<close>: \<^verbatim>\<open>core/makingthings/pwm.c\<close>.
    \<^item> \<open>Stepper\<close>, \<open>StepperLife\<close>: \<^verbatim>\<open>libraries/stepper/stepper.c\<close>; operations and movement, then what starting and stopping
      hold. \<open>Servo\<close>: \<^verbatim>\<open>libraries/servo/servo.c\<close>.
    \<^item> \<open>CanFrame\<close>, \<open>Can\<close>: \<^verbatim>\<open>libraries/can/can.c\<close>, \<^verbatim>\<open>can.h\<close>; the frame and the receiver's state machine, then the driver on
      its lines and timer entries.
    \<^item> \<open>Fdu\<close>: \<^verbatim>\<open>libraries/fdu/fdu.c\<close>.
    \<^item> \<open>HeavyCodec\<close>, \<open>Heavy\<close>, \<open>HeavyLink\<close>: \<^verbatim>\<open>projects/heavy/make.c\<close>; message format and checksum, the tasks, and a
      command on its way through the network.
    \<^item> \<open>Json\<close>, \<open>JsonWrite\<close>, \<open>JsonRead\<close>: \<^verbatim>\<open>libraries/json/json.c\<close>; operations, what the encoder writes, what the decoder reports.
    \<^item> \<open>AesTables\<close>, \<open>Aes\<close>, \<open>AesSpec\<close>: \<^verbatim>\<open>libraries/aes/aes.c\<close>; tables, code, and its equality with the cipher of FIPS 197. The
      locale \<open>block_cipher\<close> gives the round trip of a buffer for any cipher whose blocks round trip.
    \<^item> \<open>Decimal\<close>: decimal digits as \<^verbatim>\<open>sprintf\<close> and \<^verbatim>\<open>isdigit\<close> treat them.
    \<^item> \<open>OscPattern\<close>: \<^verbatim>\<open>core/makingthings/osc_patternmatch.c\<close> and the look-up functions of \<^verbatim>\<open>core/makingthings/osc.c\<close>.
      \<open>OscMessage\<close>: the bytes of messages (\<^verbatim>\<open>osc.c\<close>), written and read. \<open>Osc\<close>: channels, subsystems and sending.
      \<open>OscReceive\<close>: packets, bundles, the receiver helpers and the tasks. \<open>OscOutbox\<close>: what a channel promises.
      \<open>OscDispatch\<close>, \<open>OscDevices\<close>: from a packet to a device; the contract of a device is the locale \<open>osc_device\<close>, interpreted on
      the application LEDs and the digital outputs.
    \<^item> \<open>SerialPort\<close>: \<^verbatim>\<open>core/makingthings/serial.c\<close>, \<^verbatim>\<open>serial_isr.c\<close>. \<open>XBee\<close>: \<^verbatim>\<open>libraries/xbee/xbee.c\<close> on top of it.
    \<^item> \<open>OscInputs\<close>: the receive functions and asynchronous reports of \<^verbatim>\<open>core/makingthings/analogin.c\<close>, \<^verbatim>\<open>io.c\<close> and
      \<^verbatim>\<open>libraries/digitalin/digitalin.c\<close>.
    \<^item> \<open>Spi\<close>: \<^verbatim>\<open>core/makingthings/spi.c\<close>, \<^verbatim>\<open>core/makingthings/eeprom.c\<close>, \<^verbatim>\<open>libraries/dipswitch/dipswitch.c\<close>; a device on the
      bus is an automaton of the codatatype \<open>spi_slave\<close>. \<open>SpiDevices\<close>: what the memory chip promises, and what the driver makes of it.
    \<^item> \<open>MsTimer\<close>: \<^verbatim>\<open>core/makingthings/timer.c\<close>, \<^verbatim>\<open>timer_isr.c\<close>; a second interpretation of the locale \<open>timer_queue\<close>.
    \<^item> \<open>PwmOut\<close>, \<open>Motor\<close>: \<^verbatim>\<open>libraries/pwmout/pwmout.c\<close> and \<^verbatim>\<open>libraries/motor/motor.c\<close> on top of \<open>Pwm\<close>.
    \<^item> \<open>Base64\<close>: \<^verbatim>\<open>libraries/base64/base64.c\<close>.
  \<^bold>\<open>How state corresponds.\<close> The static variables of a C file are the fields of one record; the records extend each other
  in the order in which the files call each other (\<open>io_state\<close>, \<open>fasttimer_state\<close>, \<open>inputs_state\<close>, \<open>fdu_state\<close>, \<open>heavy_state\<close> and
  so on), so an operation works on every state that has its fields. A C function is one definition with the name of the
  function, from state to a result and a state. Its result is \<open>None\<close> where the C program has no defined result: an index
  outside an array, a null or dangling pointer, a value that does not fit a bit-field or an \<^verbatim>\<open>int\<close>-to-pointer confusion; and
  where it does not return. So a theorem that gives \<open>Some\<close> also states the absence of those errors.
  Machine words have their width (\<open>u8\<close>, \<open>u16\<close>, \<open>u32\<close>); a C \<^verbatim>\<open>int\<close> is an integer, reduced by \<open>c_int\<close> where the code computes
  values that may leave its range. Interrupts are calls of their handlers: the theorems on interrupts hold for every state in which
  the handler may be called. Callbacks are parameters or a datatype of the entry points the code registers.

  \<^bold>\<open>Loops.\<close> A loop over a table is a fold or structural recursion. A loop whose end depends on the state (the list walks of
  the fast timer, the watchdog and run-away loops, waits for a position or an echo) is a \<^theory_text>\<open>partial_function (option)\<close>, so
  not returning is \<open>None\<close>; the theorems state that the value is \<open>Some\<close>, except where they show that the loop does not
  end. There is no fuel. An endless task is one pass of its loop. The JSON decoder and the buffer loops recurse on the remaining
  length with a termination proof.

  \<^bold>\<open>Unspecified contents.\<close> Memory from an allocator has contents the code may read: \<open>fresh_control\<close> (steppers),
  \<open>fresh_servos\<close>, \<open>garbage\<close> (receive buffer). They are state components that no theorem restricts unless it says so. Allocation itself
  is taken to succeed.

  \<^bold>\<open>What the lemmas show.\<close>
    \<^item> Ownership: a locked line stays with its owner; batch starts are atomic; each device holds exactly the lines of its users,
      and the theorems name the paths on which it does not (failed starts, the last stop of CAN and of the servos).
    \<^item> Timers: the heap of entries refines a list; the interrupt charges every running entry and programs the next one;
      the one-shot and double-start errors are exhibited.
    \<^item> Movement: steps and coils of a stepper form a Gray sequence and reach the requested position; a servo's slot has constant
      length and its position converges.
    \<^item> Codecs: CAN frames, CRC-15 and CRC-32 against bitwise references, motor messages, JSON and AES round trips; damaged messages
      are refused.
    \<^item> Bounds: the JSON encoder stays in its buffer; the CAN receiver does not.
    \<^item> OSC: the pattern matcher decides a declarative relation; messages round trip through memory; a channel refines an outbox that
      loses and reorders nothing; a received packet sets an LED or is answered with the level of an output; a bundle
      with a negative length stops its task.
    \<^item> Serial port and radio: characters leave in order; a sent packet is received again, a changed one is refused; starting
      port 0 configures the wrong lines.
    \<^item> Motors hold their lines and channel while they run, drive them as asked and give back exactly those. The millisecond timer keeps
      its repeating entries, except when one that is not repeated runs out behind them.
    \<^item> Memory: the EEPROM gives back what was written to it, and the SPI bus does not survive the first stop of two channels.
    \<^item> Reports: the analog inputs report each change once. Base64: what was encoded is decoded.
  \<^bold>\<open>Not modelled.\<close> Vendored code: lwIP (\<^verbatim>\<open>core/lwip\<close>), the FreeRTOS kernel and its ports (\<^verbatim>\<open>core/freertos\<close>), and the start-up files of
  the chip. The drivers whose operations only move data between registers, DMA and third-party code: USB
  (\<^verbatim>\<open>USB-CDC.c\<close>, \<^verbatim>\<open>USBIsr.c\<close>) and Ethernet (\<^verbatim>\<open>SAM7_EMAC.c\<close>); the network, task and semaphore wrappers
  (\<^verbatim>\<open>network.c\<close>, \<^verbatim>\<open>rtos.c\<close>), which only forward to lwIP and FreeRTOS; of these the models keep what callers see: a task was
  created, a datagram was sent, a semaphore was taken.
  Of the OSC system, the waiting of its tasks for the network and the management of the TCP socket.
  Of the serial ports, what the registers of the USART do beyond what the code writes; waiting for a queue is a parameter
  that says what happens meanwhile.
  The EEPROM and the circuits behind the DIP switch are not code: the bus theorems hold for every automaton, and the round trip
  of the EEPROM for every one that keeps the contract \<open>eeprom_chip\<close>, which \<open>chip\<close> shows to have a model. The other theories see
  the settings in the EEPROM as components of their state.
  The test programs (\<^verbatim>\<open>ctester\<close>, \<^verbatim>\<open>ctestee\<close>, \<^verbatim>\<open>solo\<close>, \<^verbatim>\<open>tiny\<close>), the host-side tools in Perl and Java, the Linux driver and the Verilog
  sources are not firmware. Scheduling between tasks and preemption by interrupts inside an operation are outside this sequential
  model, as is the length of busy waits in the analog input driver.
\<close>

end
